(* ===== verification/Model_Kinds.thy ===== *)
theory Model_Kinds
  imports Go_Prelude
begin

text \<open>
  \<open>internal/model/kinds.go\<close>: the managed-object vocabulary. The table is the code's, and the lookups
  derive from it; the lemmas state what the table guarantees to its readers.
\<close>

section \<open>Kinds and resources\<close>

definition ClusterScopeNS :: string where
  "ClusterScopeNS = ''cluster''"

definition DraftNamespace :: "string \<Rightarrow> string" where
  "DraftNamespace ns = (if ns = '''' then ClusterScopeNS else ns)"

definition ObjectNamespace :: "string \<Rightarrow> string" where
  "ObjectNamespace ns = (if ns = ClusterScopeNS then '''' else ns)"

record managed_kind =
  mk_kind :: string
  mk_group :: string
  mk_version :: string
  mk_plural :: string
  mk_cluster :: bool

definition APIVersion :: "managed_kind \<Rightarrow> string" where
  "APIVersion k = (if mk_group k = '''' then mk_version k else mk_group k @ ''/'' @ mk_version k)"

record resource =
  rs_name :: string
  rs_kinds :: "managed_kind list"
  rs_create :: string
  rs_edit :: string
  rs_network :: bool

definition ClusterKind :: "resource \<Rightarrow> managed_kind option" where
  "ClusterKind r = find mk_cluster (rs_kinds r)"

definition Namespaced :: "resource \<Rightarrow> bool" where
  "Namespaced r = list_ex (\<lambda>k. \<not> mk_cluster k) (rs_kinds r)"

definition KindNames :: "resource \<Rightarrow> string list" where
  "KindNames r = map mk_kind (rs_kinds r)"

section \<open>The table\<close>

definition mk :: "string \<Rightarrow> string \<Rightarrow> string \<Rightarrow> string \<Rightarrow> bool \<Rightarrow> managed_kind" where
  "mk kind grp version plural cluster =
     \<lparr>mk_kind = kind, mk_group = grp, mk_version = version, mk_plural = plural, mk_cluster = cluster\<rparr>"

definition KindVM :: managed_kind where "KindVM = mk ''VirtualMachine'' ''kubevirt.io'' ''v1'' ''virtualmachines'' False"
definition KindUDN :: managed_kind where "KindUDN = mk ''UserDefinedNetwork'' ''k8s.ovn.org'' ''v1'' ''userdefinednetworks'' False"
definition KindCUDN :: managed_kind where "KindCUDN = mk ''ClusterUserDefinedNetwork'' ''k8s.ovn.org'' ''v1'' ''clusteruserdefinednetworks'' True"
definition KindNAD :: managed_kind where "KindNAD = mk ''NetworkAttachmentDefinition'' ''k8s.cni.cncf.io'' ''v1'' ''network-attachment-definitions'' False"
definition KindNNCP :: managed_kind where "KindNNCP = mk ''NodeNetworkConfigurationPolicy'' ''nmstate.io'' ''v1'' ''nodenetworkconfigurationpolicies'' True"
definition KindNS :: managed_kind where "KindNS = mk ''Namespace'' '''' ''v1'' ''namespaces'' True"
definition KindRB :: managed_kind where "KindRB = mk ''RoleBinding'' ''rbac.authorization.k8s.io'' ''v1'' ''rolebindings'' False"
definition KindEgressFW :: managed_kind where "KindEgressFW = mk ''EgressFirewall'' ''k8s.ovn.org'' ''v1'' ''egressfirewalls'' False"
definition KindEgressIP :: managed_kind where "KindEgressIP = mk ''EgressIP'' ''k8s.ovn.org'' ''v1'' ''egressips'' True"
definition KindExtRoute :: managed_kind where "KindExtRoute = mk ''AdminPolicyBasedExternalRoute'' ''k8s.ovn.org'' ''v1'' ''adminpolicybasedexternalroutes'' True"
definition KindNetpol :: managed_kind where "KindNetpol = mk ''NetworkPolicy'' ''networking.k8s.io'' ''v1'' ''networkpolicies'' False"
definition KindANP :: managed_kind where "KindANP = mk ''AdminNetworkPolicy'' ''policy.networking.k8s.io'' ''v1alpha1'' ''adminnetworkpolicies'' True"
definition KindBANP :: managed_kind where "KindBANP = mk ''BaselineAdminNetworkPolicy'' ''policy.networking.k8s.io'' ''v1alpha1'' ''baselineadminnetworkpolicies'' True"
definition KindOpGroup :: managed_kind where "KindOpGroup = mk ''OperatorGroup'' ''operators.coreos.com'' ''v1'' ''operatorgroups'' False"
definition KindSub :: managed_kind where "KindSub = mk ''Subscription'' ''operators.coreos.com'' ''v1alpha1'' ''subscriptions'' False"
definition KindDesched :: managed_kind where "KindDesched = mk ''KubeDescheduler'' ''operator.openshift.io'' ''v1'' ''kubedeschedulers'' False"
definition KindMachCfg :: managed_kind where "KindMachCfg = mk ''MachineConfig'' ''machineconfiguration.openshift.io'' ''v1'' ''machineconfigs'' True"
definition KindTemplate :: managed_kind where "KindTemplate = mk ''VirtualMachineTemplate'' ''template.kubevirt.io'' ''v1beta1'' ''virtualmachinetemplates'' False"

definition res :: "string \<Rightarrow> managed_kind list \<Rightarrow> string \<Rightarrow> string \<Rightarrow> bool \<Rightarrow> resource" where
  "res name kinds create edit network =
     \<lparr>rs_name = name, rs_kinds = kinds, rs_create = create, rs_edit = edit, rs_network = network\<rparr>"

definition resources :: "resource list" where
  "resources =
    [res ''vm'' [KindVM] ''Adopt VM from cluster'' ''Edit VM'' False,
     res ''network'' [KindUDN, KindCUDN, KindNAD] ''Create network'' ''Edit network'' True,
     res ''uplink'' [KindNNCP] ''Create uplink'' ''Edit uplink'' True,
     res ''namespace'' [KindNS] ''Create namespace'' ''Edit namespace'' False,
     res ''rolebinding'' [KindRB] ''Grant tenant access'' ''Edit tenant access'' False,
     res ''egressfirewall'' [KindEgressFW] ''Create gateway firewall'' ''Edit gateway firewall'' True,
     res ''egressip'' [KindEgressIP] ''Create SNAT pool'' ''Edit SNAT pool'' True,
     res ''externalroute'' [KindExtRoute] ''Create external route'' ''Edit external route'' True,
     res ''networkpolicy'' [KindNetpol] ''Create distributed firewall policy'' ''Edit distributed firewall policy'' True,
     res ''adminnetworkpolicy'' [KindANP] ''Create admin firewall policy'' ''Edit admin firewall policy'' True,
     res ''baselineadminnetworkpolicy'' [KindBANP] ''Create baseline firewall policy'' ''Edit baseline firewall policy'' True,
     res ''drs'' [KindOpGroup, KindSub, KindDesched, KindMachCfg] ''Configure DRS'' ''Edit DRS'' False,
     res ''template'' [KindTemplate] ''Save as template'' ''Edit template'' False]"

definition LookupResource :: "string \<Rightarrow> resource option" where
  "LookupResource name = (let name = (if name = '''' then ''vm'' else name) in find (\<lambda>r. rs_name r = name) resources)"

fun lookup_kind_in :: "string \<Rightarrow> resource list \<Rightarrow> (resource \<times> managed_kind) option" where
  "lookup_kind_in kind [] = None"
| "lookup_kind_in kind (r # rs) =
     (case find (\<lambda>k. mk_kind k = kind) (rs_kinds r) of
        Some k \<Rightarrow> Some (r, k)
      | None \<Rightarrow> lookup_kind_in kind rs)"

definition LookupKind :: "string \<Rightarrow> (resource \<times> managed_kind) option" where
  "LookupKind kind = lookup_kind_in kind resources"

definition NetworkFamilyKinds :: "managed_kind list" where
  "NetworkFamilyKinds = concat (map rs_kinds (filter rs_network resources))"

section \<open>What the table guarantees\<close>

lemmas kind_defs = mk_def KindVM_def KindUDN_def KindCUDN_def KindNAD_def KindNNCP_def KindNS_def KindRB_def
  KindEgressFW_def KindEgressIP_def KindExtRoute_def KindNetpol_def KindANP_def KindBANP_def KindOpGroup_def
  KindSub_def KindDesched_def KindMachCfg_def KindTemplate_def

definition table_kinds :: "managed_kind list" where
  "table_kinds = concat (map rs_kinds resources)"

lemma table_distinct: "distinct (map rs_name resources)" "distinct (map mk_kind table_kinds)"
  "distinct (map (\<lambda>k. (mk_group k, mk_plural k)) table_kinds)"
  by code_simp+

lemma table_words: "list_all (\<lambda>k. list_all (\<lambda>c. c \<noteq> CHR ''/'' \<and> c \<noteq> CHR 0x00) (mk_plural k) \<and>
     list_all (\<lambda>c. c \<noteq> CHR ''/'' \<and> c \<noteq> CHR 0x00) (mk_group k)) table_kinds"
  by code_simp

lemma lookup_kind_in_Some:
  "lookup_kind_in kind rs = Some (r, k) \<Longrightarrow> r \<in> set rs \<and> k \<in> set (rs_kinds r) \<and> mk_kind k = kind"
  by (induction rs) (auto simp: find_Some_iff split: option.splits)

lemma lookup_kind_in_None:
  "lookup_kind_in kind rs = None \<Longrightarrow> r \<in> set rs \<Longrightarrow> k \<in> set (rs_kinds r) \<Longrightarrow> mk_kind k \<noteq> kind"
  by (induction rs) (auto simp: find_None_iff split: option.splits)

lemma namespace_roundtrip: "ns \<noteq> ClusterScopeNS \<Longrightarrow> ObjectNamespace (DraftNamespace ns) = ns"
  by (auto simp: ObjectNamespace_def DraftNamespace_def)

end
