(* ===== verification/Go_Url.thy ===== *)
theory Go_Url
  imports Go_Prelude
begin

text \<open>
  The part of Go's \<open>net/url\<close> the sources call: \<open>url.Parse\<close> with the fields scheme, user info, host
  and path. Query and fragment are split off and dropped; their escapes are checked where Go
  checks them (the fragment). A failed parse is \<open>None\<close>. Names as in the Go library. An IPv6
  literal host is checked for its brackets and its port; its zone is read like the rest of it.
\<close>

record url =
  u_scheme :: string
  u_user :: "string option"  \<comment> \<open>\<open>User.String()\<close>\<close>
  u_host :: string
  u_path :: string

definition is_letter :: "char \<Rightarrow> bool" where
  "is_letter c = (let n = (of_char c :: int) in (65 \<le> n \<and> n \<le> 90) \<or> (97 \<le> n \<and> n \<le> 122))"

definition is_digit :: "char \<Rightarrow> bool" where
  "is_digit c = (let n = (of_char c :: int) in 48 \<le> n \<and> n \<le> 57)"

definition has_ctl_byte :: "string \<Rightarrow> bool" where
  "has_ctl_byte s = list_ex (\<lambda>c. let n = (of_char c :: int) in n < 32 \<or> n = 127) s"

text \<open>\<open>strings.Cut\<close> at the first occurrence of a byte: before, and after when it occurs.\<close>

fun cut_at :: "char \<Rightarrow> string \<Rightarrow> string \<times> string option" where
  "cut_at d [] = ([], None)"
| "cut_at d (c # s) = (if c = d then ([], Some s) else (let (a, b) = cut_at d s in (c # a, b)))"

definition last_index :: "char \<Rightarrow> string \<Rightarrow> nat option" where
  "last_index d s = (if d \<in> set s then Some (length s - 1 - length (takeWhile (\<lambda>c. c \<noteq> d) (rev s))) else None)"

text \<open>\<open>getScheme\<close>: the scheme and the rest; \<open>None\<close> for a missing scheme before a colon.\<close>

fun get_scheme_from :: "string \<Rightarrow> string \<Rightarrow> string \<Rightarrow> (string \<times> string) option" where
  "get_scheme_from raw seen [] = Some ('''', raw)"
| "get_scheme_from raw seen (c # s) =
     (if is_letter c then get_scheme_from raw (seen @ [c]) s
      else if is_digit c \<or> c \<in> {CHR ''+'', CHR ''-'', CHR ''.''} then
        (if seen = '''' then Some ('''', raw) else get_scheme_from raw (seen @ [c]) s)
      else if c = CHR '':'' then (if seen = '''' then None else Some (seen, s))
      else Some ('''', raw))"

definition get_scheme :: "string \<Rightarrow> (string \<times> string) option" where
  "get_scheme raw = get_scheme_from raw '''' raw"

definition is_hex :: "char \<Rightarrow> bool" where
  "is_hex c = (is_digit c \<or> (let n = (of_char c :: int) in (97 \<le> n \<and> n \<le> 102) \<or> (65 \<le> n \<and> n \<le> 70)))"

definition unhex :: "char \<Rightarrow> int" where
  "unhex c = (let n = of_char c in if is_digit c then n - 48 else if 97 \<le> n then n - 87 else n - 55)"

text \<open>Percent decoding of a path or of user info: a percent sign needs two hex digits.\<close>

fun unescape :: "string \<Rightarrow> string option" where
  "unescape [] = Some []"
| "unescape (c # s) =
     (if c = CHR ''%'' then
        (case s of
           a # b # r \<Rightarrow> if is_hex a \<and> is_hex b then map_option (\<lambda>t. char_of (16 * unhex a + unhex b) # t) (unescape r) else None
         | _ \<Rightarrow> None)
      else map_option (\<lambda>t. c # t) (unescape s))"

text \<open>In a host only a non-ASCII byte may be percent-encoded, and some bytes may not appear.\<close>

definition host_byte_ok :: "char \<Rightarrow> bool" where
  "host_byte_ok c = (is_letter c \<or> is_digit c \<or> (of_char c :: int) \<ge> 128 \<or> c \<in> set ''-_.~!$&()*+,;=:[]<>'' \<or> c = CHR 0x22 \<or> c = CHR 0x27)"

fun unescape_host :: "string \<Rightarrow> string option" where
  "unescape_host [] = Some []"
| "unescape_host (c # s) =
     (if c = CHR ''%'' then
        (case s of
           a # b # r \<Rightarrow>
             if is_hex a \<and> is_hex b \<and> (unhex a \<ge> 8 \<or> (a = CHR ''2'' \<and> b = CHR ''5'')) then map_option (\<lambda>t. char_of (16 * unhex a + unhex b) # t) (unescape_host r)
             else None
         | _ \<Rightarrow> None)
      else if host_byte_ok c then map_option (\<lambda>t. c # t) (unescape_host s) else None)"

definition valid_optional_port :: "string \<Rightarrow> bool" where
  "valid_optional_port p = (case p of [] \<Rightarrow> True | c # ds \<Rightarrow> c = CHR '':'' \<and> list_all is_digit ds)"

definition parse_host :: "string \<Rightarrow> string option" where
  "parse_host h =
     (if CHR ''['' \<in> set h then
        (case last_index CHR '']'' h of
           None \<Rightarrow> None
         | Some i \<Rightarrow> if valid_optional_port (drop (Suc i) h) then unescape_host h else None)
      else
        (case last_index CHR '':'' h of
           None \<Rightarrow> unescape_host h
         | Some i \<Rightarrow> if valid_optional_port (drop i h) then unescape_host h else None))"

definition userinfo_byte_ok :: "char \<Rightarrow> bool" where
  "userinfo_byte_ok c = (is_letter c \<or> is_digit c \<or> c \<in> set ''-._:~!$&()*+,;=%@'' \<or> c = CHR 0x27)"

text \<open>\<open>User.String()\<close>: the decoded name and password, encoded again.\<close>

definition hex_digit :: "int \<Rightarrow> char" where
  "hex_digit n = (if n < 10 then char_of (48 + n) else char_of (55 + n))"

definition escape_user_char :: "char \<Rightarrow> string" where
  "escape_user_char c =
     (if is_letter c \<or> is_digit c \<or> c \<in> set ''-_.~$&+,;='' then [c]
      else (let n = (of_char c :: int) in [CHR ''%'', hex_digit (n div 16), hex_digit (n mod 16)]))"

definition escape_user :: "string \<Rightarrow> string" where
  "escape_user s = concat (map escape_user_char s)"

definition user_string :: "string \<Rightarrow> string option" where
  "user_string ui =
     (case cut_at CHR '':'' ui of
        (n, None) \<Rightarrow> map_option escape_user (unescape n)
      | (n, Some p) \<Rightarrow>
          (case (unescape n, unescape p) of
             (Some n', Some p') \<Rightarrow> Some (escape_user n' @ '':'' @ escape_user p')
           | _ \<Rightarrow> None))"

text \<open>\<open>parseAuthority\<close>: user info before the last at sign, and the host.\<close>

definition parse_authority :: "string \<Rightarrow> (string option \<times> string) option" where
  "parse_authority au =
     (case last_index CHR ''@'' au of
        None \<Rightarrow> map_option (\<lambda>h. (None, h)) (parse_host au)
      | Some i \<Rightarrow>
          (case parse_host (drop (Suc i) au) of
             None \<Rightarrow> None
           | Some h \<Rightarrow>
               (let ui = take i au in
                if list_all userinfo_byte_ok ui then map_option (\<lambda>us. (Some us, h)) (user_string ui) else None)))"

definition drop_query :: "string \<Rightarrow> string" where
  "drop_query s = fst (cut_at CHR ''?'' s)"

definition parse_no_frag :: "string \<Rightarrow> url option" where
  "parse_no_frag raw =
     (if has_ctl_byte raw then None
      else if raw = ''*'' then Some \<lparr>u_scheme = '''', u_user = None, u_host = '''', u_path = ''*''\<rparr>
      else
        (case get_scheme raw of
           None \<Rightarrow> None
         | Some (sch, rest0) \<Rightarrow>
             (let scheme = to_lower sch; rest = drop_query rest0 in
              if \<not> has_prefix rest ''/'' \<and> scheme \<noteq> '''' then
                Some \<lparr>u_scheme = scheme, u_user = None, u_host = '''', u_path = ''''\<rparr>
              else if \<not> has_prefix rest ''/'' \<and> CHR '':'' \<in> set (fst (cut_at CHR ''/'' rest)) then None
              else if (scheme \<noteq> '''' \<or> \<not> has_prefix rest ''///'') \<and> has_prefix rest ''//'' then
                (let (au, tl) = cut_at CHR ''/'' (drop 2 rest);
                     path = (case tl of None \<Rightarrow> '''' | Some t \<Rightarrow> CHR ''/'' # t)
                 in case parse_authority au of
                      None \<Rightarrow> None
                    | Some (us, h) \<Rightarrow>
                        map_option (\<lambda>p. \<lparr>u_scheme = scheme, u_user = us, u_host = h, u_path = p\<rparr>) (unescape path))
              else map_option (\<lambda>p. \<lparr>u_scheme = scheme, u_user = None, u_host = '''', u_path = p\<rparr>) (unescape rest))))"

definition url_parse :: "string \<Rightarrow> url option" where
  "url_parse raw =
     (let (u, frag) = cut_at CHR ''#'' raw in
      case parse_no_frag u of
        None \<Rightarrow> None
      | Some x \<Rightarrow>
          (case frag of None \<Rightarrow> Some x | Some f \<Rightarrow> if f = '''' \<or> unescape f \<noteq> None then Some x else None))"

end
