(* ===== verification/Go_Text.thy ===== *)
theory Go_Text
  imports Go_Url
begin

text \<open>
  More of the Go library: \<open>strings.Split\<close> on a byte, \<open>strings.TrimSpace\<close> over UTF-8, \<open>strconv.Quote\<close>,
  \<open>path.Clean\<close>, \<open>strings.LastIndex\<close> of a byte, and the name checks of \<open>internal/validate\<close> written on them.
\<close>

section \<open>Splitting and joining\<close>

fun split_on :: "char \<Rightarrow> string \<Rightarrow> string list" where
  "split_on c [] = [[]]"
| "split_on c (x # s) = (if x = c then [] # split_on c s else (case split_on c s of [] \<Rightarrow> [[x]] | w # ws \<Rightarrow> (x # w) # ws))"

lemma split_on_nonempty [simp]: "split_on c s \<noteq> []"
  by (cases s) (auto split: list.splits)

lemma join_split: "join_with (split_on c s) [c] = s"
proof (induction s)
  case (Cons x s)
  obtain w ws where s: "split_on c s = w # ws" by (cases "split_on c s") auto
  with Cons show ?case by (cases ws) auto
qed simp

lemma split_on_free: "w \<in> set (split_on c s) \<Longrightarrow> c \<notin> set w"
  by (induction s arbitrary: w) (auto split: list.splits if_splits)

lemma split_on_word: "c \<notin> set w \<Longrightarrow> split_on c w = [w]"
  by (induction w) auto

lemma split_on_append: "c \<notin> set w \<Longrightarrow> split_on c (w @ c # s) = w # split_on c s"
  by (induction w) auto

lemma split_join: "ws \<noteq> [] \<Longrightarrow> list_all (\<lambda>w. c \<notin> set w) ws \<Longrightarrow> split_on c (join_with ws [c]) = ws"
  by (induction ws "[c]" rule: join_with.induct) (auto simp: split_on_word split_on_append)

lemma join_append: "xs \<noteq> [] \<Longrightarrow> ys \<noteq> [] \<Longrightarrow> join_with (xs @ ys) sep = join_with xs sep @ sep @ join_with ys sep"
proof (induction xs sep rule: join_with.induct)
  case (2 x sep)
  then show ?case by (cases ys) auto
qed auto

lemma append_sep: "a @ z # x = b @ z # y \<Longrightarrow> z \<notin> set a \<Longrightarrow> z \<notin> set b \<Longrightarrow> a = b \<and> x = y"
  by (induction a arbitrary: b) (auto simp: Cons_eq_append_conv append_eq_Cons_conv)

section \<open>White space\<close>

text \<open>The UTF-8 encodings of the characters \<open>unicode.IsSpace\<close> accepts, longest ones last.\<close>

definition bytes_of :: "int list \<Rightarrow> string" where
  "bytes_of ns = map char_of ns"

definition wide_spaces :: "string list" where
  "wide_spaces = map bytes_of
     ([[0xC2, 0x85], [0xC2, 0xA0], [0xE1, 0x9A, 0x80]] @ map (\<lambda>b. [0xE2, 0x80, b]) [0x80, 0x81, 0x82, 0x83, 0x84, 0x85, 0x86, 0x87, 0x88, 0x89, 0x8A] @
      [[0xE2, 0x80, 0xA8], [0xE2, 0x80, 0xA9], [0xE2, 0x80, 0xAF], [0xE2, 0x81, 0x9F], [0xE3, 0x80, 0x80]])"

definition space_width :: "string list \<Rightarrow> string \<Rightarrow> nat" where
  "space_width wide s =
     (case s of [] \<Rightarrow> 0
      | c # _ \<Rightarrow> if is_space c then 1 else (case find (has_prefix s) wide of None \<Rightarrow> 0 | Some w \<Rightarrow> length w))"

fun drop_spaces :: "string list \<Rightarrow> nat \<Rightarrow> string \<Rightarrow> string" where
  "drop_spaces wide 0 s = s"
| "drop_spaces wide (Suc n) s = (if space_width wide s = 0 then s else drop_spaces wide n (drop (space_width wide s) s))"

definition trim_left :: "string \<Rightarrow> string" where
  "trim_left s = drop_spaces wide_spaces (length s) s"

definition trim_right :: "string \<Rightarrow> string" where
  "trim_right s = rev (drop_spaces (map rev wide_spaces) (length s) (rev s))"

definition TrimSpace :: "string \<Rightarrow> string" where
  "TrimSpace s = trim_right (trim_left s)"

section \<open>Quoting\<close>

text \<open>\<open>strconv.Quote\<close> of a string of printable or ASCII characters.\<close>

definition quote_char :: "char \<Rightarrow> string" where
  "quote_char c =
     (let n = (of_char c :: int) in
      if c = CHR 0x22 \<or> c = CHR 0x5C then [CHR 0x5C, c]
      else if n = 7 then CHR 0x5C # ''a'' else if n = 8 then CHR 0x5C # ''b'' else if n = 12 then CHR 0x5C # ''f''
      else if n = 10 then CHR 0x5C # ''n'' else if n = 13 then CHR 0x5C # ''r'' else if n = 9 then CHR 0x5C # ''t''
      else if n = 11 then CHR 0x5C # ''v''
      else if n < 32 \<or> n = 127 then CHR 0x5C # ''x'' @ map to_lower_char [hex_digit (n div 16), hex_digit (n mod 16)]
      else [c])"

definition go_quote :: "string \<Rightarrow> string" where
  "go_quote s = [CHR 0x22] @ concat (map quote_char s) @ [CHR 0x22]"

section \<open>Paths\<close>

definition clean_step :: "bool \<Rightarrow> string list \<Rightarrow> string \<Rightarrow> string list" where
  "clean_step rooted out seg =
     (if seg = '''' \<or> seg = ''.'' then out
      else if seg = ''..'' then
        (if out \<noteq> [] \<and> last out \<noteq> ''..'' then butlast out else if rooted then out else out @ [seg])
      else out @ [seg])"

definition path_clean :: "string \<Rightarrow> string" where
  "path_clean s =
     (let rooted = has_prefix s ''/'';
          out = foldl (clean_step rooted) [] (split_on (CHR ''/'') s);
          joined = join_with out ''/''
      in if rooted then CHR ''/'' # joined else if joined = '''' then ''.'' else joined)"

definition after_last :: "char \<Rightarrow> string \<Rightarrow> string" where
  "after_last c s = rev (takeWhile (\<lambda>x. x \<noteq> c) (rev s))"

section \<open>Names and repository paths\<close>

definition name_char :: "char \<Rightarrow> bool" where
  "name_char c = (let n = (of_char c :: int) in (97 \<le> n \<and> n \<le> 122) \<or> (48 \<le> n \<and> n \<le> 57))"

definition DNS1123Name :: "string \<Rightarrow> bool" where
  "DNS1123Name s = (s \<noteq> '''' \<and> length s \<le> 63 \<and> name_char (hd s) \<and> name_char (last s) \<and>
     list_all (\<lambda>c. c = CHR ''-'' \<or> name_char c) s)"

definition RequireDNS1123 :: "string \<Rightarrow> string \<Rightarrow> string option" where
  "RequireDNS1123 fld s =
     (if DNS1123Name s then None
      else Some (fld @ '' '' @ go_quote s @ '' must be a DNS-1123 label (lowercase alphanumeric and -, max 63)''))"

definition RepoPath :: "string \<Rightarrow> bool" where
  "RepoPath s =
     (if s = '''' \<or> has_prefix s ''/'' \<or> CHR 0x5C \<in> set s then False
      else if path_clean s \<noteq> s then False
      else list_all (\<lambda>seg. seg \<noteq> ''..'' \<and> seg \<noteq> ''.'' \<and> seg \<noteq> '''') (split_on (CHR ''/'') s))"

definition RequireRepoPath :: "string \<Rightarrow> string \<Rightarrow> string option" where
  "RequireRepoPath fld s = (if RepoPath s then None else Some (fld @ '' '' @ go_quote s @ '' must be a clean repo-relative path''))"

text \<open>A name or a path that passes is one the file system keeps where it is put.\<close>

lemma clean_plain: "list_all (\<lambda>seg. seg \<noteq> ''..'' \<and> seg \<noteq> ''.'' \<and> seg \<noteq> '''') segs \<Longrightarrow> foldl (clean_step r) out segs = out @ segs"
  by (induction segs arbitrary: out) (auto simp: clean_step_def)

lemma DNS1123_chars: "DNS1123Name s \<Longrightarrow> c \<in> set s \<Longrightarrow> c = CHR ''-'' \<or> name_char c"
  by (auto simp: DNS1123Name_def list_all_iff)

lemma DNS1123_no_slash: "DNS1123Name s \<Longrightarrow> CHR ''/'' \<notin> set s \<and> CHR 0x5C \<notin> set s"
  using DNS1123_chars[of s "CHR ''/''"] DNS1123_chars[of s "CHR 0x5C"] by (auto simp: name_char_def)

lemma DNS1123_segment: "DNS1123Name s \<Longrightarrow> s \<noteq> '''' \<and> s \<noteq> ''.'' \<and> s \<noteq> ''..''"
  by (auto simp: DNS1123Name_def name_char_def)

lemma RepoPath_segments:
  assumes "segs \<noteq> []" "list_all (\<lambda>seg. seg \<noteq> ''..'' \<and> seg \<noteq> ''.'' \<and> seg \<noteq> '''' \<and> CHR ''/'' \<notin> set seg \<and> CHR 0x5C \<notin> set seg) segs"
  shows "RepoPath (join_with segs ''/'')"
proof -
  have sp: "split_on (CHR ''/'') (join_with segs ''/'') = segs" using assms by (intro split_join) (auto simp: list_all_iff)
  have plain: "list_all (\<lambda>seg. seg \<noteq> ''..'' \<and> seg \<noteq> ''.'' \<and> seg \<noteq> '''') segs" using assms(2) by (auto simp: list_all_iff)
  obtain w ws where segs: "segs = w # ws" using assms(1) by (cases segs) auto
  with assms(2) obtain c w' where w: "w = c # w'" "c \<noteq> CHR ''/''" by (cases w) auto
  have j: "\<exists>r. join_with segs ''/'' = c # r" using segs w by (cases ws) auto
  have bs: "CHR 0x5C \<notin> set (join_with segs ''/'')"
    using assms(2) by (induction segs "''/''" rule: join_with.induct) auto
  show ?thesis
    using j w(2) bs sp plain clean_plain[OF plain, of False "[]"] by (auto simp: RepoPath_def path_clean_def Let_def)
qed

section \<open>Decimal numbers\<close>

lemma digit_char_inj: "a < 10 \<Longrightarrow> b < 10 \<Longrightarrow> digit_char a = digit_char b \<Longrightarrow> a = b"
proof -
  assume "a < 10" "b < 10" "digit_char a = digit_char b"
  then have "(of_char (char_of (48 + a)) :: nat) = of_char (char_of (48 + b))" by (simp add: digit_char_def)
  with \<open>a < 10\<close> \<open>b < 10\<close> show ?thesis by simp
qed

lemma nat_to_dec_nonempty: "nat_to_dec n \<noteq> []"
  by (subst nat_to_dec.simps) auto

lemma nat_to_dec_inj: "nat_to_dec m = nat_to_dec n \<Longrightarrow> m = n"
proof (induction m arbitrary: n rule: nat_to_dec.induct)
  case (1 m)
  note eq = 1(2)[unfolded nat_to_dec.simps[of m] nat_to_dec.simps[of n]]
  show ?case
  proof (cases "m < 10")
    case True
    with eq show ?thesis
      using nat_to_dec_nonempty[of "n div 10"] by (auto split: if_splits dest: digit_char_inj)
  next
    case False
    with eq nat_to_dec_nonempty[of "m div 10"] have n: "\<not> n < 10" by (auto split: if_splits)
    from eq False n have "nat_to_dec (m div 10) = nat_to_dec (n div 10)" "m mod 10 = n mod 10"
      using digit_char_inj[of "m mod 10" "n mod 10"] by auto
    with 1(1)[OF False] have "m div 10 = n div 10" "m mod 10 = n mod 10" by auto
    then show ?thesis by (metis div_mult_mod_eq)
  qed
qed

lemma nat_to_dec_digits: "list_all (\<lambda>c. c \<noteq> CHR ''-'') (nat_to_dec n)"
proof (induction n rule: nat_to_dec.induct)
  case (1 n)
  have d: "digit_char m \<noteq> CHR ''-''" if "m < 10" for m
  proof
    assume "digit_char m = CHR ''-''"
    then have "(of_char (char_of (48 + m)) :: nat) = of_char (CHR ''-'')" by (simp add: digit_char_def)
    with that show False by simp
  qed
  show ?case using 1 d by (subst nat_to_dec.simps) auto
qed

lemma itoa_inj: "itoa m = itoa n \<Longrightarrow> m = n"
proof -
  have nd: "nat_to_dec a \<noteq> CHR ''-'' # x" for a x using nat_to_dec_digits[of a] by auto
  show "itoa m = itoa n \<Longrightarrow> m = n" using nd nd[symmetric] by (auto simp: itoa_def split: if_splits dest: nat_to_dec_inj)
qed

end
