(* ===== verification/Model_VM.thy ===== *)
theory Model_VM
  imports Go_Text
begin

text \<open>
  The VM types of \<open>internal/model\<close>: the inventory's VM (\<open>vm.go\<close>), the field edit and the semantic change
  (\<open>draft.go\<close>), power states and sync states (\<open>model.go\<close>). A nil pointer or slice of pointers is \<open>None\<close>; an
  RFC 3339 stamp is its text; times of a migration the same.
\<close>

definition PowerOn :: string where "PowerOn = ''On''"
definition PowerOff :: string where "PowerOff = ''Off''"
definition PowerUnknown :: string where "PowerUnknown = ''Unknown''"

definition RunStrategy :: "bool \<Rightarrow> string" where
  "RunStrategy on = (if on then ''Always'' else ''Halted'')"

definition SyncSynced :: string where "SyncSynced = ''Synced''"
definition SyncOutOfSync :: string where "SyncOutOfSync = ''OutOfSync''"
definition SyncNotTracked :: string where "SyncNotTracked = ''NotTracked''"
definition SyncPending :: string where "SyncPending = ''Pending''"
definition SyncUnknown :: string where "SyncUnknown = ''Unknown''"

record placement_group =
  pg_name :: string
  pg_mode :: string
  pg_strict :: bool

record vm_scheduling =
  sc_pin :: "string list"
  sc_groups :: "placement_group list"
  sc_custom :: bool

record vm_migration =
  vg_source :: string
  vg_target :: string
  vg_started :: string
  vg_ended :: string
  vg_completed :: bool
  vg_failed :: bool

record disk =
  dk_name :: string
  dk_type :: string
  dk_size :: string
  dk_class :: string

record nic =
  nc_name :: string
  nc_network :: string
  nc_mac :: string
  nc_ip :: string
  nc_implicit :: bool

record vm =
  vm_namespace :: string
  vm_name :: string
  vm_power :: string
  vm_cpu_cores :: int
  vm_memory :: string
  vm_instancetype :: string
  vm_preference :: string
  vm_labels :: labels
  vm_disks :: "disk list"
  vm_networks :: "nic list"
  vm_source_file :: string
  vm_drs_exclude :: bool
  vm_eviction :: string
  vm_scheduling :: "vm_scheduling option"
  vm_phase :: string
  vm_paused :: bool
  vm_guest_ip :: string
  vm_ips :: "string list"
  vm_node :: string
  vm_os :: string
  vm_memory_actual :: string
  vm_vcpus :: int
  vm_started_at :: string
  vm_migration_state :: "vm_migration option"
  vm_sync :: string
  vm_health :: string
  vm_sync_error :: string

text \<open>\<open>model.VM\<close> with every field at its zero value.\<close>

definition empty_vm :: vm where
  "empty_vm = \<lparr>vm_namespace = '''', vm_name = '''', vm_power = '''', vm_cpu_cores = 0, vm_memory = '''',
     vm_instancetype = '''', vm_preference = '''', vm_labels = [], vm_disks = [], vm_networks = [], vm_source_file = '''',
     vm_drs_exclude = False, vm_eviction = '''', vm_scheduling = None, vm_phase = '''', vm_paused = False,
     vm_guest_ip = '''', vm_ips = [], vm_node = '''', vm_os = '''', vm_memory_actual = '''', vm_vcpus = 0,
     vm_started_at = '''', vm_migration_state = None, vm_sync = '''', vm_health = '''', vm_sync_error = ''''\<rparr>"

definition InterfaceName :: "string \<Rightarrow> string" where
  "InterfaceName ref = after_last (CHR ''/'') ref"

section \<open>Edits\<close>

record disk_add =
  da_name :: string
  da_size :: string
  da_class :: string

record volume_migration =
  vo_name :: string
  vo_class :: string

record vm_edit =
  ve_power :: "string option"
  ve_cpu_cores :: "int option"
  ve_memory :: "string option"
  ve_instancetype :: "string option"
  ve_preference :: "string option"
  ve_sizing :: "string option"
  ve_set_labels :: labels
  ve_remove_labels :: "string list"
  ve_drs_exclude :: "bool option"
  ve_eviction :: "string option"
  ve_add_disks :: "disk_add list"
  ve_remove_disks :: "string list"
  ve_add_networks :: "string list"
  ve_remove_networks :: "string list"
  ve_migrate :: "volume_migration list"
  ve_pin :: "string list option"
  ve_add_groups :: "placement_group list"
  ve_remove_groups :: "string list"

definition empty_edit :: vm_edit where
  "empty_edit = \<lparr>ve_power = None, ve_cpu_cores = None, ve_memory = None, ve_instancetype = None, ve_preference = None,
     ve_sizing = None, ve_set_labels = [], ve_remove_labels = [], ve_drs_exclude = None, ve_eviction = None,
     ve_add_disks = [], ve_remove_disks = [], ve_add_networks = [], ve_remove_networks = [], ve_migrate = [],
     ve_pin = None, ve_add_groups = [], ve_remove_groups = []\<rparr>"

definition edit_is_empty :: "vm_edit \<Rightarrow> bool" where
  "edit_is_empty e = (ve_power e = None \<and> ve_cpu_cores e = None \<and> ve_memory e = None \<and>
     ve_instancetype e = None \<and> ve_preference e = None \<and> ve_sizing e = None \<and>
     ve_set_labels e = [] \<and> ve_remove_labels e = [] \<and>
     ve_drs_exclude e = None \<and> ve_eviction e = None \<and>
     ve_add_disks e = [] \<and> ve_remove_disks e = [] \<and>
     ve_add_networks e = [] \<and> ve_remove_networks e = [] \<and>
     ve_migrate e = [] \<and>
     ve_pin e = None \<and> ve_add_groups e = [] \<and> ve_remove_groups e = [])"

record change =
  ch_field :: string
  ch_action :: string
  ch_from :: string
  ch_to :: string
  ch_restart :: bool

record object_ref =
  or_kind :: string
  or_namespace :: string
  or_name :: string

end
