(* ===== verification/Git_Tree.thy ===== *)
theory Git_Tree
  imports Model_Kinds Model_VM Go_Text "HOL-Library.AList"
begin

text \<open>
  \<open>internal/git\<close>, reading: a branch's files and the index of the objects they declare (\<open>git.go\<close>, \<open>declared.go\<close>,
  \<open>manifest/header.go\<close>). A tree is its files in path order. The YAML library is an argument: \<open>docs_of\<close> gives the
  header of every document it decodes, in order, and whether it reached the end of the file. Blobs of the in-memory
  mirror are readable.
\<close>

section \<open>Errors\<close>

text \<open>An error by the kind of \<open>model.go\<close> it wraps, if any, with its whole text; and a run-time panic.\<close>

datatype fault =
    FInvalid string
  | FNotFound string
  | FForbidden string
  | FConflict string
  | FUnavailable string
  | FInternal string
  | FPanic

text \<open>\<open>fmt.Errorf\<close> of a kind: its text, then what went wrong.\<close>

definition err_invalid :: "string \<Rightarrow> fault" where
  "err_invalid m = FInvalid (''invalid request: '' @ m)"

definition err_not_found :: "string \<Rightarrow> fault" where
  "err_not_found m = FNotFound (''not found: '' @ m)"

definition err_forbidden :: "string \<Rightarrow> fault" where
  "err_forbidden m = FForbidden (''forbidden: '' @ m)"

definition err_conflict :: "string \<Rightarrow> fault" where
  "err_conflict m = FConflict (''conflict: '' @ m)"

definition err_unavailable :: "string \<Rightarrow> fault" where
  "err_unavailable m = FUnavailable (''temporarily unavailable: '' @ m)"

definition fault_text :: "fault \<Rightarrow> string" where
  "fault_text f =
     (case f of FInvalid m \<Rightarrow> m | FNotFound m \<Rightarrow> m | FForbidden m \<Rightarrow> m | FConflict m \<Rightarrow> m | FUnavailable m \<Rightarrow> m
      | FInternal m \<Rightarrow> m | FPanic \<Rightarrow> '''')"

text \<open>\<open>%w\<close> after a text keeps the kind.\<close>

definition wrap_fault :: "string \<Rightarrow> fault \<Rightarrow> fault" where
  "wrap_fault what f =
     (case f of FInvalid m \<Rightarrow> FInvalid (what @ '': '' @ m) | FNotFound m \<Rightarrow> FNotFound (what @ '': '' @ m)
      | FForbidden m \<Rightarrow> FForbidden (what @ '': '' @ m) | FConflict m \<Rightarrow> FConflict (what @ '': '' @ m)
      | FUnavailable m \<Rightarrow> FUnavailable (what @ '': '' @ m) | FInternal m \<Rightarrow> FInternal (what @ '': '' @ m) | FPanic \<Rightarrow> FPanic)"

text \<open>\<open>invalid\<close> (\<open>changeset/helpers.go\<close>): an error that is the caller's input already passes through.\<close>

definition invalid_fault :: "fault \<Rightarrow> fault" where
  "invalid_fault f = (case f of FInvalid m \<Rightarrow> FInvalid m | FPanic \<Rightarrow> FPanic | _ \<Rightarrow> err_invalid (fault_text f))"

section \<open>Files of a branch\<close>

type_synonym file_tree = "(string \<times> string) list"

definition has_suffix :: "string \<Rightarrow> string \<Rightarrow> bool" where
  "has_suffix s p = has_prefix (rev s) (rev p)"

definition isYAML :: "string \<Rightarrow> bool" where
  "isYAML name = (has_suffix name ''.yaml'' \<or> has_suffix name ''.yml'')"

definition TemplatesDir :: string where
  "TemplatesDir = ''templates''"

definition inTemplatesDir :: "string \<Rightarrow> bool" where
  "inTemplatesDir name = has_prefix name (TemplatesDir @ ''/'')"

definition containsVirtualMachine :: "string \<Rightarrow> bool" where
  "containsVirtualMachine content = contains_sub content ''kind: VirtualMachine''"

definition walkYAML :: "(string \<Rightarrow> bool) \<Rightarrow> file_tree \<Rightarrow> file_tree" where
  "walkYAML include_path t = filter (\<lambda>(p, _). isYAML p \<and> include_path p) t"

definition path_less :: "string \<times> string \<Rightarrow> string \<times> string \<Rightarrow> bool" where
  "path_less a b = (fst a < fst b)"

definition VMManifests :: "file_tree \<Rightarrow> file_tree" where
  "VMManifests t = go_sort path_less (filter (\<lambda>(_, c). containsVirtualMachine c) (walkYAML (\<lambda>p. \<not> inTemplatesDir p) t))"

definition TemplatesOnBranch :: "file_tree \<Rightarrow> file_tree" where
  "TemplatesOnBranch t = go_sort path_less (walkYAML inTemplatesDir t)"

definition LookupFile :: "file_tree \<Rightarrow> string \<Rightarrow> string option" where
  "LookupFile t p = map_of t p"

definition FileOnBranch :: "file_tree \<Rightarrow> string \<Rightarrow> fault + string" where
  "FileOnBranch t p = (case map_of t p of None \<Rightarrow> Inl (FInternal (''file '' @ p @ '': file not found'')) | Some c \<Rightarrow> Inr c)"

section \<open>Declared objects\<close>

type_synonym yaml_docs = "string \<Rightarrow> object_ref list \<times> bool"

text \<open>The document count is \<open>-1\<close> when a document fails to parse.\<close>

definition Headers :: "yaml_docs \<Rightarrow> string \<Rightarrow> object_ref list \<times> int" where
  "Headers docs_of content =
     (let (hs, ended) = docs_of content in
      (filter (\<lambda>h. or_kind h \<noteq> '''' \<and> or_name h \<noteq> '''') hs, if ended then int (length hs) else -1))"

definition unmanagedClusterScoped :: "string list" where
  "unmanagedClusterScoped = [''ClusterRole'', ''ClusterRoleBinding'', ''StorageClass'', ''PersistentVolume'', ''Node'']"

definition ClusterScoped :: "string \<Rightarrow> bool" where
  "ClusterScoped kind = (case LookupKind kind of Some (_, k) \<Rightarrow> mk_cluster k | None \<Rightarrow> kind \<in> set unmanagedClusterScoped)"

definition DefaultNamespace :: "string \<Rightarrow> string" where
  "DefaultNamespace p =
     (if CHR ''/'' \<in> set p then takeWhile (\<lambda>c. c \<noteq> CHR ''/'') p else ''default'')"

definition placed_ref :: "string \<Rightarrow> object_ref \<Rightarrow> object_ref" where
  "placed_ref p h =
     (if ClusterScoped (or_kind h) then h\<lparr>or_namespace := ''''\<rparr>
      else if or_namespace h = '''' then h\<lparr>or_namespace := DefaultNamespace p\<rparr>
      else h)"

definition declared :: "yaml_docs \<Rightarrow> string \<Rightarrow> string \<Rightarrow> object_ref list \<times> int" where
  "declared docs_of p content =
     (let (heads, docs) = Headers docs_of content in (map (placed_ref p) heads, docs))"

definition DeclaredRefs :: "yaml_docs \<Rightarrow> string \<Rightarrow> string \<Rightarrow> object_ref list" where
  "DeclaredRefs docs_of p content = fst (declared docs_of p content)"

text \<open>The index; its files are walked in an arbitrary order.\<close>

record declared_index =
  di_files :: "(object_ref \<times> string) list"
  di_opaque :: "string list"

definition index_file :: "yaml_docs \<Rightarrow> declared_index \<Rightarrow> string \<times> string \<Rightarrow> declared_index" where
  "index_file docs_of idx f =
     (let (refs, docs) = declared docs_of (fst f) (snd f) in
      \<lparr>di_files = fold (\<lambda>r fs. AList.update r (fst f) fs) refs (di_files idx),
       di_opaque = (if docs \<noteq> int (length refs) then fst f # di_opaque idx else di_opaque idx)\<rparr>)"

definition DeclaredFilesOnBranch :: "yaml_docs \<Rightarrow> file_tree \<Rightarrow> declared_index" where
  "DeclaredFilesOnBranch docs_of t =
     foldl (index_file docs_of) \<lparr>di_files = [], di_opaque = []\<rparr> (walkYAML (\<lambda>p. \<not> inTemplatesDir p) t)"

definition DeclaredOnBranch :: "yaml_docs \<Rightarrow> file_tree \<Rightarrow> object_ref set" where
  "DeclaredOnBranch docs_of t = fst ` set (di_files (DeclaredFilesOnBranch docs_of t))"

section \<open>What the index says\<close>

lemma map_of_fold_update:
  "map_of (fold (\<lambda>r fs. AList.update r p fs) refs fs) r = (if r \<in> set refs then Some p else map_of fs r)"
  by (induction refs arbitrary: fs) (auto simp: update_conv')

lemma index_file_files:
  "map_of (di_files (index_file docs_of idx (p, c))) r =
     (if r \<in> set (DeclaredRefs docs_of p c) then Some p else map_of (di_files idx) r)"
  by (simp add: index_file_def DeclaredRefs_def map_of_fold_update split: prod.split)

text \<open>A file of the index declares the object; every object of a walked file is in the index.\<close>

lemma fold_index_files:
  assumes "map_of (di_files (foldl (index_file docs_of) idx fs)) r = Some p"
  shows "(\<exists>c. (p, c) \<in> set fs \<and> r \<in> set (DeclaredRefs docs_of p c)) \<or> map_of (di_files idx) r = Some p"
  using assms
proof (induction fs arbitrary: idx)
  case (Cons f fs)
  obtain q c where f: "f = (q, c)" by (cases f)
  from Cons.IH[of "index_file docs_of idx f"] Cons.prems show ?case
    by (auto simp: f index_file_files split: if_splits)
qed simp

lemma fold_index_total:
  assumes "r \<in> set (DeclaredRefs docs_of p c)" "(p, c) \<in> set fs \<or> map_of (di_files idx) r \<noteq> None"
  shows "map_of (di_files (foldl (index_file docs_of) idx fs)) r \<noteq> None"
  using assms(2)
proof (induction fs arbitrary: idx)
  case (Cons f fs)
  obtain q d where f: "f = (q, d)" by (cases f)
  show ?case
    using Cons.IH[of "index_file docs_of idx f"] Cons.prems assms(1) by (auto simp: f index_file_files)
qed simp

lemma index_sound:
  assumes "map_of (di_files (DeclaredFilesOnBranch docs_of t)) r = Some p"
  shows "\<exists>c. (p, c) \<in> set t \<and> isYAML p \<and> \<not> inTemplatesDir p \<and> r \<in> set (DeclaredRefs docs_of p c)"
  using fold_index_files[OF assms[unfolded DeclaredFilesOnBranch_def]] by (auto simp: walkYAML_def)

lemma fold_opaque: "set (di_opaque idx) \<subseteq> set (di_opaque (foldl (index_file docs_of) idx fs))"
  by (induction fs arbitrary: idx) (fastforce simp: index_file_def split: prod.splits if_splits)+

lemma index_opaque:
  assumes "(p, c) \<in> set t" "isYAML p" "\<not> inTemplatesDir p" "snd (declared docs_of p c) \<noteq> int (length (DeclaredRefs docs_of p c))"
  shows "p \<in> set (di_opaque (DeclaredFilesOnBranch docs_of t))"
proof -
  have "(p, c) \<in> set (walkYAML (\<lambda>p. \<not> inTemplatesDir p) t)" using assms(1-3) by (simp add: walkYAML_def)
  then obtain as bs where s: "walkYAML (\<lambda>p. \<not> inTemplatesDir p) t = as @ (p, c) # bs" by (meson split_list)
  have "p \<in> set (di_opaque (index_file docs_of idx (p, c)))" for idx
    using assms(4) by (cases "declared docs_of p c") (auto simp: index_file_def DeclaredRefs_def)
  then show ?thesis using fold_opaque by (simp add: DeclaredFilesOnBranch_def s) blast
qed

end
