(* ===== verification/Git_Write.thy ===== *)
theory Git_Write
  imports Git_Tree
begin

text \<open>
  \<open>internal/git\<close>, commits: the history of a branch (\<open>history.go\<close>) and the two ways a branch is written
  (\<open>write.go\<close>, \<open>editcommit.go\<close>). A commit holds its tree and its parents; a hash is a function of the commit, and two
  entries of trees have one hash exactly when they are the same. What the network and the file system of the clone
  accept is an argument.
\<close>

section \<open>Commits\<close>

datatype commit = Commit
  (cm_tree: file_tree)
  (cm_message: string)
  (cm_author: string)
  (cm_email: string)
  (cm_when: int)
  (cm_parents: "commit list")

text \<open>A tree in path order: the form trees of commits are kept in.\<close>

definition canonical :: "file_tree \<Rightarrow> file_tree" where
  "canonical t = sort_key fst t"

record remote =
  rm_refs :: "(string \<times> commit) list"
  rm_default :: string

section \<open>Items\<close>

text \<open>What the code distinguishes by the one field that is set; \<open>Nothing\<close> has none of them.\<close>

datatype item_mode = Transform "string \<Rightarrow> fault + string" | NewContent string | Delete | Nothing

record changeset_item =
  it_path :: string
  it_mode :: item_mode

text \<open>Whether the clone's file system can create the file beside the files there are.\<close>

type_synonym can_create = "file_tree \<Rightarrow> string \<Rightarrow> bool"

definition writeWorktreeFile :: "can_create \<Rightarrow> file_tree \<Rightarrow> string \<Rightarrow> string \<Rightarrow> fault + file_tree" where
  "writeWorktreeFile can t p content =
     (if can t p then Inr (AList.update p content t) else Inl (FInternal (''create '' @ p)))"

definition applyItem :: "can_create \<Rightarrow> file_tree \<Rightarrow> changeset_item \<Rightarrow> fault + file_tree" where
  "applyItem can t it =
     (case it_mode it of
        Delete \<Rightarrow> Inr (AList.delete (it_path it) t)
      | Transform f \<Rightarrow>
          (case map_of t (it_path it) of
             None \<Rightarrow> Inl (FInternal (''read '' @ it_path it))
           | Some current \<Rightarrow>
               (case f current of
                  Inl e \<Rightarrow> Inl (wrap_fault (''rewrite '' @ it_path it) e)
                | Inr content \<Rightarrow> writeWorktreeFile can t (it_path it) content))
      | NewContent content \<Rightarrow> writeWorktreeFile can t (it_path it) content
      | Nothing \<Rightarrow> Inr t)"

fun applyItems :: "can_create \<Rightarrow> file_tree \<Rightarrow> changeset_item list \<Rightarrow> fault + file_tree" where
  "applyItems can t [] = Inr t"
| "applyItems can t (it # its) = (case applyItem can t it of Inl e \<Rightarrow> Inl e | Inr t' \<Rightarrow> applyItems can t' its)"

text \<open>\<open>status.IsClean\<close>: the worktree holds the files of the head, with their contents.\<close>

definition IsClean :: "file_tree \<Rightarrow> file_tree \<Rightarrow> bool" where
  "IsClean head_tree t =
     (list_all (\<lambda>(p, c). map_of t p = Some c) head_tree \<and> list_all (\<lambda>(p, c). map_of head_tree p = Some c) t)"

section \<open>Writing\<close>

record writer =
  wr_clone :: bool  \<comment> \<open>whether the clone succeeds\<close>
  wr_pushes :: bool  \<comment> \<open>whether commits are pushed at all\<close>
  wr_push_ok :: bool
  wr_now :: int
  wr_can :: can_create

record commit_result =
  cr_branch :: string
  cr_committed :: bool

text \<open>\<open>openWorktree\<close> and \<open>checkoutBranch\<close>: the head of the branch, or of the default branch where the remote lacks it.\<close>

definition openWorktree :: "writer \<Rightarrow> remote \<Rightarrow> string \<Rightarrow> fault + commit" where
  "openWorktree w rem branch =
     (if \<not> wr_clone w then Inl (FInternal ''clone for write'')
      else (case map_of (rm_refs rem) branch of
              Some c \<Rightarrow> Inr c
            | None \<Rightarrow>
                (case map_of (rm_refs rem) (rm_default rem) of
                   Some c \<Rightarrow> Inr c
                 | None \<Rightarrow> Inl (FInternal ''clone for write''))))"

record author =
  au_name :: string
  au_email :: string

definition signature :: "author \<Rightarrow> string \<times> string" where
  "signature a =
     (if au_name a = '''' then (''dotvirt'', ''dotvirt@localhost'')
      else (au_name a, if au_email a = '''' then ''dotvirt@localhost'' else au_email a))"

definition pushBranch :: "writer \<Rightarrow> remote \<Rightarrow> string \<Rightarrow> commit \<Rightarrow> fault + remote" where
  "pushBranch w rem branch c =
     (if \<not> wr_pushes w then Inr rem
      else if wr_push_ok w then Inr (rem\<lparr>rm_refs := AList.update branch c (rm_refs rem)\<rparr>)
      else Inl (FInternal (''push '' @ branch)))"

definition commitItems :: "writer \<Rightarrow> remote \<Rightarrow> commit \<Rightarrow> string \<Rightarrow> string \<Rightarrow> changeset_item list \<Rightarrow> author \<Rightarrow> fault + commit_result \<times> remote" where
  "commitItems w rem at_head branch message items by =
     (case applyItems (wr_can w) (cm_tree at_head) items of
        Inl e \<Rightarrow> Inl e
      | Inr t \<Rightarrow>
          (if IsClean (cm_tree at_head) t then Inr (\<lparr>cr_branch = branch, cr_committed = False\<rparr>, rem)
           else
            (case pushBranch w rem branch
                (Commit (canonical t) message (fst (signature by)) (snd (signature by)) (wr_now w) [at_head]) of
               Inl e \<Rightarrow> Inl e
             | Inr rem' \<Rightarrow> Inr (\<lparr>cr_branch = branch, cr_committed = True\<rparr>, rem'))))"

text \<open>\<open>None\<close> of the error is \<open>ErrNoChanges\<close>.\<close>

definition CommitChangeset ::
  "writer \<Rightarrow> remote \<Rightarrow> string \<Rightarrow> string \<Rightarrow> string \<Rightarrow> changeset_item list \<Rightarrow> author \<Rightarrow> fault option + commit_result \<times> remote" where
  "CommitChangeset w rem base branch message items by =
     (if items = [] then Inl (Some (FInternal ''nothing to propose''))
      else (case openWorktree w rem base of
              Inl e \<Rightarrow> Inl (Some e)
            | Inr h \<Rightarrow>
                (case commitItems w rem h branch message items by of
                   Inl e \<Rightarrow> Inl (Some e)
                 | Inr (made, rem') \<Rightarrow> if cr_committed made then Inr (made, rem') else Inl None)))"

definition no_author :: author where
  "no_author = \<lparr>au_name = '''', au_email = ''''\<rparr>"

definition WriteCommit :: "writer \<Rightarrow> remote \<Rightarrow> string \<Rightarrow> string \<Rightarrow> file_tree \<Rightarrow> fault + commit_result \<times> remote" where
  "WriteCommit w rem branch message files =
     (case openWorktree w rem branch of
        Inl e \<Rightarrow> Inl e
      | Inr h \<Rightarrow> commitItems w rem h branch message (map (\<lambda>(p, c). \<lparr>it_path = p, it_mode = NewContent c\<rparr>) files) no_author)"

section \<open>History\<close>

definition entry_at :: "file_tree \<Rightarrow> string \<Rightarrow> (string + file_tree) option" where
  "entry_at t p =
     (case map_of t p of
        Some c \<Rightarrow> Some (Inl c)
      | None \<Rightarrow> (let sub = filter (\<lambda>(q, _). has_prefix q (p @ ''/'')) t in if sub = [] then None else Some (Inr sub)))"

definition touches :: "commit \<Rightarrow> string \<Rightarrow> bool" where
  "touches c p =
     (case cm_parents c of
        [] \<Rightarrow> entry_at (cm_tree c) p \<noteq> None
      | q # _ \<Rightarrow> entry_at (cm_tree c) p \<noteq> entry_at (cm_tree q) p)"

record history_row =
  hr_hash :: string
  hr_message :: string
  hr_title :: string
  hr_author :: string
  hr_when :: int
  hr_merge :: bool
  hr_pr :: int
  hr_url :: string

definition firstLine :: "string \<Rightarrow> string" where
  "firstLine msg =
     (let m = TrimSpace msg in
      if CHR 0x0A \<in> set m then TrimSpace (takeWhile (\<lambda>c. c \<noteq> CHR 0x0A) m) else m)"

definition commitEntry :: "(commit \<Rightarrow> string) \<Rightarrow> commit \<Rightarrow> history_row" where
  "commitEntry hash_of c =
     \<lparr>hr_hash = hash_of c, hr_message = firstLine (cm_message c), hr_title = firstLine (cm_message c),
      hr_author = (case cm_parents c of _ # h # _ \<Rightarrow> cm_author h | _ \<Rightarrow> cm_author c),
      hr_when = cm_when c, hr_merge = (length (cm_parents c) > 1), hr_pr = 0, hr_url = ''''\<rparr>"

definition historyScan :: nat where
  "historyScan = 1000"

fun walkHistory :: "(commit \<Rightarrow> bool) \<Rightarrow> nat \<Rightarrow> nat \<Rightarrow> commit \<Rightarrow> commit list" where
  "walkHistory keep 0 limit c = []"
| "walkHistory keep (Suc seen) limit c =
     (if limit = 0 then []
      else if keep c then
        c # (case cm_parents c of [] \<Rightarrow> [] | q # _ \<Rightarrow> walkHistory keep seen (limit - 1) q)
      else (case cm_parents c of [] \<Rightarrow> [] | q # _ \<Rightarrow> walkHistory keep seen limit q))"

definition branchCommit :: "remote \<Rightarrow> string \<Rightarrow> fault + commit" where
  "branchCommit m branch =
     (case map_of (rm_refs m) branch of
        None \<Rightarrow> Inl (err_unavailable (''branch not mirrored yet: '' @ branch))
      | Some c \<Rightarrow> Inr c)"

text \<open>A limit below one lists nothing.\<close>

definition history_rows :: "(commit \<Rightarrow> string) \<Rightarrow> remote \<Rightarrow> string \<Rightarrow> int \<Rightarrow> (commit \<Rightarrow> bool) \<Rightarrow> fault + history_row list" where
  "history_rows hash_of m branch limit keep =
     map_sum id (\<lambda>c. map (commitEntry hash_of) (walkHistory keep historyScan (nat limit) c)) (branchCommit m branch)"

definition History :: "(commit \<Rightarrow> string) \<Rightarrow> remote \<Rightarrow> string \<Rightarrow> int \<Rightarrow> fault + history_row list" where
  "History hash_of m branch limit = history_rows hash_of m branch limit (\<lambda>_. True)"

definition FileHistory :: "(commit \<Rightarrow> string) \<Rightarrow> remote \<Rightarrow> string \<Rightarrow> string \<Rightarrow> int \<Rightarrow> fault + history_row list" where
  "FileHistory hash_of m branch p limit = history_rows hash_of m branch limit (\<lambda>c. touches c p)"

definition strip_suffix :: "string \<Rightarrow> string \<Rightarrow> string" where
  "strip_suffix s p = (if has_suffix s p then take (length s - length p) s else s)"

definition DirHistory :: "(commit \<Rightarrow> string) \<Rightarrow> remote \<Rightarrow> string \<Rightarrow> string \<Rightarrow> int \<Rightarrow> fault + history_row list" where
  "DirHistory hash_of m branch dir limit = history_rows hash_of m branch limit (\<lambda>c. touches c (strip_suffix dir ''/''))"

end
