(* ===== verification/Git_Diff.thy ===== *)
theory Git_Diff
  imports Git_Write
begin

text \<open>
  \<open>internal/git/history.go\<close>, differences: what a commit or a branch changed, the changeset that undoes a commit, and
  the facts about applying a changeset to a worktree that both write paths share. (A change of a file's mode alone is not
  seen.)
\<close>

section \<open>Differences\<close>

record file_change =
  fc_path :: string
  fc_before :: "string option"
  fc_after :: "string option"

definition treeDiff :: "file_tree \<Rightarrow> file_tree \<Rightarrow> file_change list" where
  "treeDiff from to =
     map (\<lambda>p. \<lparr>fc_path = p, fc_before = map_of from p, fc_after = map_of to p\<rparr>)
       (filter (\<lambda>p. isYAML p \<and> map_of from p \<noteq> map_of to p) (sort (remdups (map fst (from @ to)))))"

definition parent_tree :: "commit \<Rightarrow> file_tree" where
  "parent_tree c = (case cm_parents c of [] \<Rightarrow> [] | q # _ \<Rightarrow> cm_tree q)"

record commit_diff =
  cd_commit :: history_row
  cd_files :: "file_change list"
  cd_root :: bool

text \<open>\<open>firstParentDiff\<close> and \<open>CommitDiff\<close>; which hashes the mirror knows is an argument.\<close>

definition CommitDiff :: "(commit \<Rightarrow> string) \<Rightarrow> (string \<Rightarrow> commit option) \<Rightarrow> string \<Rightarrow> fault + commit_diff" where
  "CommitDiff hash_of find_commit hash =
     (case find_commit hash of
        None \<Rightarrow> Inl (FInternal (''commit '' @ hash))
      | Some c \<Rightarrow> Inr \<lparr>cd_commit = commitEntry hash_of c, cd_files = treeDiff (parent_tree c) (cm_tree c), cd_root = (cm_parents c = [])\<rparr>)"

definition BranchDiff :: "(commit \<Rightarrow> commit \<Rightarrow> commit list) \<Rightarrow> remote \<Rightarrow> string \<Rightarrow> string \<Rightarrow> fault + file_change list" where
  "BranchDiff merge_base m base head =
     (case branchCommit m base of
        Inl e \<Rightarrow> Inl e
      | Inr from \<Rightarrow>
          (case branchCommit m head of
             Inl e \<Rightarrow> Inl e
           | Inr to \<Rightarrow>
               (let fork = (case merge_base from to of [] \<Rightarrow> from | b # _ \<Rightarrow> b) in Inr (treeDiff (cm_tree fork) (cm_tree to)))))"

definition revert_item :: "file_change \<Rightarrow> changeset_item" where
  "revert_item f = \<lparr>it_path = fc_path f, it_mode = (case fc_before f of None \<Rightarrow> Delete | Some c \<Rightarrow> NewContent c)\<rparr>"

definition RevertItems :: "commit_diff \<Rightarrow> fault + changeset_item list" where
  "RevertItems d = (if cd_root d then Inl (FInternal ''cannot revert the root commit'') else Inr (map revert_item (cd_files d)))"

section \<open>Applying a changeset\<close>

text \<open>What an item that is no rewrite makes of the file at its path.\<close>

definition item_result :: "changeset_item \<Rightarrow> string option \<Rightarrow> string option" where
  "item_result it old =
     (case it_mode it of Delete \<Rightarrow> None | NewContent c \<Rightarrow> Some c | Nothing \<Rightarrow> old
      | Transform f \<Rightarrow> (case old of None \<Rightarrow> None | Some c \<Rightarrow> (case f c of Inl _ \<Rightarrow> None | Inr d \<Rightarrow> Some d)))"

lemma map_of_delete: "map_of (AList.delete k t) p = (if p = k then None else map_of t p)"
  by (simp add: delete_conv')

lemma applyItem_map:
  assumes "applyItem can t it = Inr t'"
  shows "map_of t' p = (if p = it_path it then item_result it (map_of t p) else map_of t p)"
  using assms
  by (auto simp: applyItem_def item_result_def writeWorktreeFile_def update_conv' map_of_delete
      split: item_mode.splits option.splits sum.splits if_splits)

lemma applyItems_other:
  assumes "applyItems can t its = Inr t'" "p \<notin> it_path ` set its"
  shows "map_of t' p = map_of t p"
  using assms
proof (induction its arbitrary: t)
  case (Cons it its)
  then obtain u where u: "applyItem can t it = Inr u" "applyItems can u its = Inr t'" by (auto split: sum.splits)
  show ?case using Cons.IH[OF u(2)] Cons.prems(2) applyItem_map[OF u(1), of p] by simp
qed simp

text \<open>Items on distinct paths do not disturb one another: each sees the file the head has.\<close>

lemma applyItems_at:
  assumes "applyItems can t its = Inr t'" "distinct (map it_path its)" "it \<in> set its"
  shows "map_of t' (it_path it) = item_result it (map_of t (it_path it))"
  using assms
proof (induction its arbitrary: t)
  case (Cons i its)
  then obtain u where u: "applyItem can t i = Inr u" "applyItems can u its = Inr t'" by (auto split: sum.splits)
  show ?case
  proof (cases "it \<in> set its")
    case True
    then have "it_path it \<noteq> it_path i" using Cons.prems(2) by (auto simp: rev_image_eqI)
    then show ?thesis using Cons.IH[OF u(2) _ True] Cons.prems(2) applyItem_map[OF u(1), of "it_path it"] by simp
  next
    case False
    then have "it = i" using Cons.prems(3) by simp
    moreover have "it_path i \<notin> it_path ` set its" using Cons.prems(2) by simp
    ultimately show ?thesis using applyItems_other[OF u(2), of "it_path i"] applyItem_map[OF u(1), of "it_path i"] by simp
  qed
qed simp

lemma distinct_applyItem:
  "applyItem can t it = Inr t' \<Longrightarrow> distinct (map fst t) \<Longrightarrow> distinct (map fst t')"
  by (auto simp: applyItem_def writeWorktreeFile_def distinct_update distinct_delete split: item_mode.splits option.splits sum.splits if_splits)

lemma distinct_applyItems: "applyItems can t its = Inr t' \<Longrightarrow> distinct (map fst t) \<Longrightarrow> distinct (map fst t')"
  by (induction its arbitrary: t) (auto split: sum.splits dest: distinct_applyItem)

lemma map_of_canonical: "distinct (map fst t) \<Longrightarrow> map_of (canonical t) = map_of t"
  by (intro map_of_inject_set[THEN iffD2]) (simp_all add: canonical_def distinct_map distinct_sort inj_on_def)

lemma IsClean_iff:
  assumes "distinct (map fst a)" "distinct (map fst b)"
  shows "IsClean a b \<longleftrightarrow> map_of a = map_of b"
proof
  assume c: "IsClean a b"
  show "map_of a = map_of b"
  proof
    fix p show "map_of a p = map_of b p"
      using c by (cases "map_of a p"; cases "map_of b p") (fastforce simp: IsClean_def list_all_iff dest: map_of_SomeD)+
  qed
next
  assume "map_of a = map_of b"
  then show "IsClean a b" using map_of_is_SomeI[OF assms(1)] map_of_is_SomeI[OF assms(2)] by (auto simp: IsClean_def list_all_iff)
qed

lemma in_treeDiff:
  "f \<in> set (treeDiff a b) \<longleftrightarrow>
     isYAML (fc_path f) \<and> map_of a (fc_path f) \<noteq> map_of b (fc_path f) \<and>
     f = \<lparr>fc_path = fc_path f, fc_before = map_of a (fc_path f), fc_after = map_of b (fc_path f)\<rparr>"
proof -
  have "p \<in> fst ` set a \<union> fst ` set b" if "map_of a p \<noteq> map_of b p" for p
    using that by (metis UnCI map_of_eq_None_iff)
  then show ?thesis by (cases f) (auto simp: treeDiff_def)
qed

lemma distinct_treeDiff: "distinct (map fc_path (treeDiff a b))"
  by (simp add: treeDiff_def comp_def)

section \<open>What a write leaves\<close>

text \<open>A remote whose commits hold each path once.\<close>

definition sane_remote :: "remote \<Rightarrow> bool" where
  "sane_remote rem = list_all (\<lambda>(_, c). distinct (map fst (cm_tree c))) (rm_refs rem)"

lemma openWorktree_sane: "sane_remote rem \<Longrightarrow> openWorktree w rem b = Inr h \<Longrightarrow> distinct (map fst (cm_tree h))"
  by (auto simp: openWorktree_def sane_remote_def list_all_iff split: if_splits option.splits dest!: map_of_SomeD)

lemma CommitChangeset_cases:
  assumes "CommitChangeset w rem base branch message items by = Inr (out, rem')"
  obtains h t c where "openWorktree w rem base = Inr h" "applyItems (wr_can w) (cm_tree h) items = Inr t"
    "\<not> IsClean (cm_tree h) t" "c = Commit (canonical t) message (fst (signature by)) (snd (signature by)) (wr_now w) [h]"
    "pushBranch w rem branch c = Inr rem'" "cr_branch out = branch" "cr_committed out"
  using assms
  by (auto simp: CommitChangeset_def commitItems_def split: if_splits sum.splits prod.splits)


definition small_head :: commit where
  "small_head = Commit [(''a.yaml'', ''one''), (''b.yaml'', ''two'')] ''init'' ''dotvirt'' ''d'' 0 []"

definition small_remote :: remote where
  "small_remote = \<lparr>rm_refs = [(''main'', small_head)], rm_default = ''main''\<rparr>"

definition small_writer :: writer where
  "small_writer = \<lparr>wr_clone = True, wr_pushes = True, wr_push_ok = True, wr_now = 7, wr_can = (\<lambda>_ _. True)\<rparr>"


section \<open>Reverting\<close>

lemma revert_item_result: "item_result (revert_item f) old = fc_before f"
  by (simp add: item_result_def revert_item_def split: option.splits)

text \<open>C26: A revert restores exactly what the commit changed. Applied to any worktree, the changeset that undoes a commit gives each
  YAML file the commit touched the content it had before the commit (a file it added is gone) and leaves every other file alone; so on
  the commit's own tree it gives back its parent's YAML files, and the root commit is never offered for it.\<close>
theorem revert_restores:
  assumes "CommitDiff hash_of find_commit hash = Inr d" and "find_commit hash = Some c"
    and "RevertItems d = Inr items" and "applyItems can t items = Inr t'"
  shows "cm_parents c \<noteq> [] \<and>
    (\<forall>p. map_of t' p = (if isYAML p \<and> map_of (parent_tree c) p \<noteq> map_of (cm_tree c) p then map_of (parent_tree c) p else map_of t p)) \<and>
    (t = cm_tree c \<longrightarrow> (\<forall>p. isYAML p \<longrightarrow> map_of t' p = map_of (parent_tree c) p))"
proof -
  have d: "cd_files d = treeDiff (parent_tree c) (cm_tree c)" "cd_root d = (cm_parents c = [])"
    using assms(1,2) by (auto simp: CommitDiff_def)
  have items: "items = map revert_item (cd_files d)" and nr: "cm_parents c \<noteq> []"
    using assms(3) d(2) by (auto simp: RevertItems_def split: if_splits)
  have paths: "map it_path items = map fc_path (cd_files d)" by (simp add: items revert_item_def)
  have dist: "distinct (map it_path items)" using distinct_treeDiff by (simp add: paths d(1))
  have at: "map_of t' p = (if isYAML p \<and> map_of (parent_tree c) p \<noteq> map_of (cm_tree c) p then map_of (parent_tree c) p else map_of t p)" for p
  proof (cases "isYAML p \<and> map_of (parent_tree c) p \<noteq> map_of (cm_tree c) p")
    case True
    let ?f = "\<lparr>fc_path = p, fc_before = map_of (parent_tree c) p, fc_after = map_of (cm_tree c) p\<rparr>"
    have "?f \<in> set (cd_files d)" using True by (simp add: d(1) in_treeDiff)
    then have "revert_item ?f \<in> set items" by (simp add: items)
    from applyItems_at[OF assms(4) dist this] True show ?thesis
      by (simp add: revert_item_result) (simp add: revert_item_def)
  next
    case False
    then have "p \<notin> it_path ` set items"
      by (auto simp: items d(1) in_treeDiff revert_item_def)
    from applyItems_other[OF assms(4) this] False show ?thesis by auto
  qed
  then show ?thesis using nr by auto
qed

theorem revert_restores_witness:
  "\<exists>t'. applyItems (\<lambda>_ _. True) [(''a.yaml'', ''new''), (''b.yaml'', ''two'')] [\<lparr>it_path = ''a.yaml'', it_mode = NewContent ''one''\<rparr>] = Inr t' \<and>
     map_of t' ''a.yaml'' = Some ''one'' \<and> map_of t' ''b.yaml'' = Some ''two''"
proof -
  let ?c = "Commit [(''a.yaml'', ''new''), (''b.yaml'', ''two'')] ''m'' ''alice'' ''a'' 1 [small_head]"
  let ?items = "[\<lparr>it_path = ''a.yaml'', it_mode = NewContent ''one''\<rparr>]"
  obtain d where d: "CommitDiff (\<lambda>_. ''h'') (\<lambda>_. Some ?c) ''h'' = Inr d" by (simp add: CommitDiff_def)
  have f: "treeDiff (parent_tree ?c) (cm_tree ?c) = [\<lparr>fc_path = ''a.yaml'', fc_before = Some ''one'', fc_after = Some ''new''\<rparr>]"
    by code_simp
  then have i: "RevertItems d = Inr ?items" using d by (auto simp: CommitDiff_def RevertItems_def revert_item_def)
  obtain t' where t: "applyItems (\<lambda>_ _. True) (cm_tree ?c) ?items = Inr t'" by (simp add: applyItem_def writeWorktreeFile_def)
  have y: "isYAML ''a.yaml''" "isYAML ''b.yaml''" by code_simp+
  show ?thesis using revert_restores[OF d _ i t] y t by (auto simp: parent_tree_def small_head_def)
qed

section \<open>History is the first-parent chain\<close>

fun first_parents :: "nat \<Rightarrow> commit \<Rightarrow> commit list" where
  "first_parents 0 c = []"
| "first_parents (Suc n) c = c # (case cm_parents c of [] \<Rightarrow> [] | q # _ \<Rightarrow> first_parents n q)"

text \<open>A history walk lists the first-parent chain: the commits it keeps, newest first, are the first \<open>limit\<close> of those among the
  branch head and its nearest first parents within the scan bound (\<open>historyScan\<close>) that pass the filter, and nothing else; the early exits of the loop lose none.\<close>
theorem walk_history_spec: "walkHistory keep n limit c = take limit (filter keep (first_parents n c))"
proof (induction keep n limit c rule: walkHistory.induct)
  case (2 keep seen limit c)
  then show ?case by (cases limit) (auto split: list.splits)
qed simp

end

