(* ===== verification/Forge_Url.thy ===== *)
theory Forge_Url
  imports Go_Url
begin

text \<open>
  \<open>pkg/forge/url.go\<close>: the forms a repository URL is written in, the key it is known by
  (\<open>NormalizeRepoURL\<close>), and the host-free references resolved against the configured forge.
\<close>

section \<open>The URL helpers\<close>

definition trim_right_slash :: "string \<Rightarrow> string" where
  "trim_right_slash s = rev (dropWhile (\<lambda>c. c = CHR ''/'') (rev s))"

definition trim_suffix :: "string \<Rightarrow> string \<Rightarrow> string" where
  "trim_suffix s suf =
     (if length suf \<le> length s \<and> drop (length s - length suf) s = suf
      then take (length s - length suf) s else s)"

definition NormalizeRepoURL :: "string \<Rightarrow> string" where
  "NormalizeRepoURL u =
     (let u = trim_space u in
      if u = '''' then '''' else
        (let u = to_lower u; u = trim_right_slash u in trim_suffix u ''.git''))"

definition trim_left_slash :: "string \<Rightarrow> string" where
  "trim_left_slash s = dropWhile (\<lambda>c. c = CHR ''/'') s"

record parsed =
  pd_origin :: string
  pd_host :: string
  pd_path :: string

definition parseURL :: "string \<Rightarrow> parsed" where
  "parseURL raw =
     (let s = trim_space raw in
      case url_parse s of
        None \<Rightarrow> \<lparr>pd_origin = '''', pd_host = '''', pd_path = s\<rparr>
      | Some u \<Rightarrow>
          (if u_scheme u = '''' then \<lparr>pd_origin = '''', pd_host = '''', pd_path = u_path u\<rparr>
           else
             \<lparr>pd_origin = u_scheme u @ ''://'' @ (case u_user u of None \<Rightarrow> '''' | Some us \<Rightarrow> us @ ''@'') @ u_host u,
              pd_host = to_lower (u_host u), pd_path = u_path u\<rparr>))"

text \<open>\<open>strings.Split\<close> on a slash.\<close>

fun split_slash :: "string \<Rightarrow> string list" where
  "split_slash [] = [[]]"
| "split_slash (c # s) =
     (case split_slash s of
        [] \<Rightarrow> [[c]]
      | p # ps \<Rightarrow> if c = CHR ''/'' then [] # p # ps else (c # p) # ps)"

definition ownerRepo :: "string \<Rightarrow> (string \<times> string) option" where
  "ownerRepo repoURL =
     (let p = trim_suffix (trim_right_slash (trim_left_slash (pd_path (parseURL repoURL)))) ''.git'';
          parts = split_slash p
      in if length parts < 2 then None
         else (let owner = parts ! (length parts - 2); repo = parts ! (length parts - 1)
               in if owner = '''' \<or> repo = '''' then None else Some (owner, repo)))"

definition OwnerPrefixURL :: "string \<Rightarrow> string" where
  "OwnerPrefixURL repoURL =
     (let u = parseURL repoURL;
          p = trim_suffix (trim_right_slash (pd_path u)) ''.git''
      in case last_index CHR ''/'' p of
           None \<Rightarrow> repoURL
         | Some i \<Rightarrow> pd_origin u @ take i p)"

definition urlPath :: "string \<Rightarrow> string" where
  "urlPath raw = (let p = pd_path (parseURL raw) in if p \<noteq> '''' then p else raw)"

definition PathRef :: "string \<Rightarrow> string" where
  "PathRef repoURL =
     (let u = parseURL repoURL in
      if pd_origin u \<noteq> '''' \<and> pd_path u = '''' then repoURL else trim_left_slash (pd_path u))"

definition ResolveRef :: "string \<Rightarrow> string \<Rightarrow> string" where
  "ResolveRef base ref =
     (if pd_origin (parseURL ref) \<noteq> '''' then ref
      else if base = '''' then ''''
      else trim_right_slash base @ ''/'' @ trim_left_slash ref)"

section \<open>What they return\<close>

lemma split_slash_parts: "split_slash s \<noteq> [] \<and> (\<forall>p \<in> set (split_slash s). CHR ''/'' \<notin> set p)"
  by (induction s) (auto split: list.splits)

lemma ownerRepo_parts:
  assumes "ownerRepo u = Some (ow, rp)"
  shows "ow \<noteq> '''' \<and> rp \<noteq> '''' \<and> CHR ''/'' \<notin> set ow \<and> CHR ''/'' \<notin> set rp"
proof -
  let ?parts = "split_slash (trim_suffix (trim_right_slash (trim_left_slash (pd_path (parseURL u)))) ''.git'')"
  from assms have l: "\<not> length ?parts < 2" and
    o: "ow = ?parts ! (length ?parts - 2)" "rp = ?parts ! (length ?parts - 1)" "ow \<noteq> ''''" "rp \<noteq> ''''"
    by (auto simp: ownerRepo_def Let_def split: if_splits)
  from l have "ow \<in> set ?parts" "rp \<in> set ?parts" unfolding o by (auto intro!: nth_mem)
  with split_slash_parts o(3,4) show ?thesis by blast
qed

lemma ResolveRef_absolute: "pd_origin (parseURL ref) \<noteq> '''' \<Longrightarrow> ResolveRef base ref = ref"
  by (simp add: ResolveRef_def)

section \<open>One key for every form\<close>

definition ends_with :: "string \<Rightarrow> string \<Rightarrow> bool" where
  "ends_with s suf = (\<exists>r. s = r @ suf)"

lemma trim_suffix_append [simp]: "trim_suffix (s @ suf) suf = s"
  by (simp add: trim_suffix_def)

lemma trim_suffix_no [simp]: "\<not> ends_with s suf \<Longrightarrow> trim_suffix s suf = s"
  unfolding trim_suffix_def ends_with_def by (metis append_take_drop_id)

lemma trim_right_slash_append [simp]: "trim_right_slash (s @ ''/'') = trim_right_slash s"
  by (simp add: trim_right_slash_def)

lemma trim_right_slash_no [simp]: "s = [] \<or> last s \<noteq> CHR ''/'' \<Longrightarrow> trim_right_slash s = s"
  by (cases s rule: rev_cases) (auto simp: trim_right_slash_def)

lemma to_lower_append [simp]: "to_lower (a @ b) = to_lower a @ to_lower b"
  by (simp add: to_lower_def)

lemma to_lower_char_ascii: "to_lower_char CHR ''/'' = CHR ''/''" "to_lower ''.git'' = ''.git''" "to_lower ''/'' = ''/''"
  by code_simp+

text \<open>A repository name as every form starts with it: trimmed, and neither ending in a slash nor
  carrying the suffix.\<close>

definition bare_repo :: "string \<Rightarrow> bool" where
  "bare_repo u = (u \<noteq> '''' \<and> \<not> is_space (hd u) \<and> \<not> is_space (last u) \<and>
     last (to_lower u) \<noteq> CHR ''/'' \<and> \<not> ends_with (to_lower u) ''.git'')"

lemma trim_space_id: "u \<noteq> '''' \<Longrightarrow> \<not> is_space (hd u) \<Longrightarrow> \<not> is_space (last u) \<Longrightarrow> trim_space u = u"
proof -
  assume u: "u \<noteq> ''''" "\<not> is_space (hd u)" "\<not> is_space (last u)"
  then obtain c r where c: "u = c # r" by (cases u) auto
  with u have d: "dropWhile is_space u = u" by simp
  obtain r' c' where c': "u = r' @ [c']" using u(1) by (cases u rule: rev_cases) auto
  with u have "dropWhile is_space (rev u) = rev u" by simp
  with d show ?thesis by (simp add: trim_space_def)
qed

lemma to_lower_Nil [simp]: "to_lower u = [] \<longleftrightarrow> u = []"
  by (simp add: to_lower_def)

lemma bare_hd: "u \<noteq> '''' \<Longrightarrow> hd (u @ x) = hd u"
  by (cases u) auto

lemma not_space: "\<not> is_space CHR ''/''" "\<not> is_space (last ''.git'')"
  by code_simp+

lemma normalize_forms:
  assumes "bare_repo u"
  shows "NormalizeRepoURL u = to_lower u" "NormalizeRepoURL (u @ ''.git'') = to_lower u"
    "NormalizeRepoURL (u @ ''/'') = to_lower u" "NormalizeRepoURL (u @ ''.git/'') = to_lower u"
proof -
  note b = assms[unfolded bare_repo_def]
  have id: "trim_space u = u" "trim_space (u @ ''.git'') = u @ ''.git''" "trim_space (u @ ''/'') = u @ ''/''"
    "trim_space (u @ ''.git/'') = u @ ''.git/''"
    using b not_space by (auto intro!: trim_space_id simp: bare_hd)
  have g: "trim_right_slash (to_lower u @ ''.git'') = to_lower u @ ''.git''"
    by (rule trim_right_slash_no) simp
  have gs: "trim_right_slash (to_lower u @ ''.git/'') = to_lower u @ ''.git''"
    using trim_right_slash_append[of "to_lower u @ ''.git''"] g by simp
  have s: "trim_right_slash (to_lower u) = to_lower u"
    using b by (intro trim_right_slash_no) simp
  have lo: "to_lower ''.git/'' = ''.git/''" by code_simp
  show "NormalizeRepoURL u = to_lower u" "NormalizeRepoURL (u @ ''.git'') = to_lower u"
    "NormalizeRepoURL (u @ ''/'') = to_lower u" "NormalizeRepoURL (u @ ''.git/'') = to_lower u"
    using b s g gs
    by (simp_all add: NormalizeRepoURL_def id to_lower_char_ascii lo)
qed

end
