(* ===== verification/Eventbus_Bus.thy ===== *)
theory Eventbus_Bus
  imports Go_Prelude "HOL-Library.Word"
begin

text \<open>
  \<open>internal/eventbus/bus.go\<close>: the typed change bus. The atomic counters are 64-bit words that
  wrap; a subscription's one-slot channel is the flag \<open>sb_pending\<close>. A nil \<open>*Bus\<close> is \<open>None\<close>, a nil
  inner map of \<open>keyed\<close> reads as an empty one. The order of the counter bumps and the wake inside
  a publish, which the concurrent readers rely on, is kept: \<open>Publish\<close> and \<open>PublishKey\<close> are the
  composition of the steps that \<open>Eventbus_History\<close> interleaves.
\<close>

section \<open>The bus\<close>

datatype kind = VMSpecChanged | LiveChanged | NamespaceChanged | RBACChanged | DriftChanged
  | GitChanged | ProposalsChanged | NetworkChanged | TaskChanged

type_synonym counter = "64 word"

record subscription =
  sb_kinds :: "kind list"
  sb_pending :: bool

text \<open>\<open>bs_subs\<close> is the set of registered subscriptions, by identity; \<open>bs_chan\<close> the subscription
  objects, which outlive their registration because the subscriber holds the channel.\<close>

record bus =
  bs_versions :: "kind \<Rightarrow> counter"
  bs_broad :: "kind \<Rightarrow> counter"
  bs_keyed :: "kind \<Rightarrow> string \<Rightarrow> counter option"
  bs_subs :: "nat list"
  bs_chan :: "nat \<Rightarrow> subscription option"
  bs_next :: nat

definition New :: bus where
  "New = \<lparr>bs_versions = (\<lambda>_. 0), bs_broad = (\<lambda>_. 0), bs_keyed = (\<lambda>_. Map.empty),
     bs_subs = [], bs_chan = Map.empty, bs_next = 0\<rparr>"

section \<open>Publishing\<close>

definition bump :: "kind \<Rightarrow> bus \<Rightarrow> bus" where
  "bump k b = b\<lparr>bs_versions := (bs_versions b)(k := bs_versions b k + 1)\<rparr>"

definition bump_broad :: "kind \<Rightarrow> bus \<Rightarrow> bus" where
  "bump_broad k b = b\<lparr>bs_broad := (bs_broad b)(k := bs_broad b k + 1)\<rparr>"

definition keyed_get :: "bus \<Rightarrow> kind \<Rightarrow> string \<Rightarrow> counter" where
  "keyed_get b k key = (case bs_keyed b k key of None \<Rightarrow> 0 | Some v \<Rightarrow> v)"

definition bump_key :: "kind \<Rightarrow> string \<Rightarrow> bus \<Rightarrow> bus" where
  "bump_key k key b =
     b\<lparr>bs_keyed := (bs_keyed b)(k := (bs_keyed b k)(key \<mapsto> keyed_get b k key + 1))\<rparr>"

text \<open>The send is non-blocking: a full channel keeps its one token.\<close>

definition send_wake :: "subscription \<Rightarrow> subscription" where
  "send_wake s = s\<lparr>sb_pending := True\<rparr>"

definition wake :: "kind \<Rightarrow> bus \<Rightarrow> bus" where
  "wake k b =
     b\<lparr>bs_chan := (\<lambda>s. case bs_chan b s of
         None \<Rightarrow> None
       | Some sub \<Rightarrow> Some (if s \<in> set (bs_subs b) \<and> k \<in> set (sb_kinds sub) then send_wake sub else sub))\<rparr>"

definition Publish :: "kind \<Rightarrow> bus option \<Rightarrow> bus option" where
  "Publish k bo = map_option (\<lambda>b. wake k (bump_broad k (bump k b))) bo"

definition PublishKey :: "kind \<Rightarrow> string \<Rightarrow> bus option \<Rightarrow> bus option" where
  "PublishKey k key bo = map_option (\<lambda>b. wake k (bump_key k key (bump k b))) bo"

section \<open>Reading\<close>

definition KeyVersion :: "bus option \<Rightarrow> kind \<Rightarrow> string \<Rightarrow> counter" where
  "KeyVersion bo k key = (case bo of None \<Rightarrow> 0 | Some b \<Rightarrow> keyed_get b k key + bs_broad b k)"

definition Version :: "bus option \<Rightarrow> kind list \<Rightarrow> counter" where
  "Version bo kinds = (case bo of None \<Rightarrow> 0 | Some b \<Rightarrow> foldl (\<lambda>v k. v + bs_versions b k) 0 kinds)"

section \<open>Subscribing\<close>

text \<open>\<open>Subscribe\<close> returns the identity of the new subscription (none for a nil bus: its channel
  never fires); \<open>cancel\<close> unregisters it.\<close>

definition Subscribe :: "kind list \<Rightarrow> bus option \<Rightarrow> bus option \<times> nat option" where
  "Subscribe kinds bo =
     (case bo of
        None \<Rightarrow> (None, None)
      | Some b \<Rightarrow>
          (Some (b\<lparr>bs_subs := bs_next b # bs_subs b,
                   bs_chan := (bs_chan b)(bs_next b \<mapsto> \<lparr>sb_kinds = kinds, sb_pending = False\<rparr>),
                   bs_next := Suc (bs_next b)\<rparr>), Some (bs_next b)))"

definition cancel :: "nat option \<Rightarrow> bus option \<Rightarrow> bus option" where
  "cancel so bo =
     (case so of None \<Rightarrow> bo
      | Some s \<Rightarrow> map_option (\<lambda>b. b\<lparr>bs_subs := filter (\<lambda>x. x \<noteq> s) (bs_subs b)\<rparr>) bo)"

definition pending :: "bus \<Rightarrow> nat \<Rightarrow> bool" where
  "pending b s = (case bs_chan b s of None \<Rightarrow> False | Some sub \<Rightarrow> sb_pending sub)"

text \<open>A receive on the channel takes the token.\<close>

definition receive :: "nat \<Rightarrow> bus \<Rightarrow> bus" where
  "receive s b = b\<lparr>bs_chan := (bs_chan b)(s := map_option (\<lambda>sub. sub\<lparr>sb_pending := False\<rparr>) (bs_chan b s))\<rparr>"

text \<open>The interest of a subscription in a kind.\<close>

definition wants :: "bus \<Rightarrow> nat \<Rightarrow> kind \<Rightarrow> bool" where
  "wants b s k = (s \<in> set (bs_subs b) \<and>
     (case bs_chan b s of None \<Rightarrow> False | Some sub \<Rightarrow> k \<in> set (sb_kinds sub)))"

section \<open>What a step changes\<close>

lemma foldl_counter: "foldl (\<lambda>v k. v + f k) (a::counter) ks = a + sum_list (map f ks)"
  by (induction ks arbitrary: a) (auto simp: add.assoc)

lemma Version_sum: "Version (Some b) ks = sum_list (map (bs_versions b) ks)"
  by (simp add: Version_def foldl_counter)

lemma bump_simps [simp]:
  "bs_versions (bump k b) j = bs_versions b j + (if j = k then 1 else 0)" "bs_broad (bump k b) = bs_broad b"
  "keyed_get (bump k b) j key = keyed_get b j key"
  "bs_subs (bump k b) = bs_subs b" "bs_chan (bump k b) = bs_chan b" "bs_next (bump k b) = bs_next b"
  by (simp_all add: bump_def keyed_get_def)

lemma bump_broad_simps [simp]:
  "bs_versions (bump_broad k b) = bs_versions b" "bs_broad (bump_broad k b) j = bs_broad b j + (if j = k then 1 else 0)"
  "keyed_get (bump_broad k b) j key = keyed_get b j key"
  "bs_subs (bump_broad k b) = bs_subs b" "bs_chan (bump_broad k b) = bs_chan b" "bs_next (bump_broad k b) = bs_next b"
  by (simp_all add: bump_broad_def keyed_get_def)

lemma bump_key_simps [simp]:
  "bs_versions (bump_key k key b) = bs_versions b" "bs_broad (bump_key k key b) = bs_broad b"
  "keyed_get (bump_key k key b) j x = keyed_get b j x + (if j = k \<and> x = key then 1 else 0)"
  "bs_subs (bump_key k key b) = bs_subs b" "bs_chan (bump_key k key b) = bs_chan b" "bs_next (bump_key k key b) = bs_next b"
  by (simp_all add: bump_key_def keyed_get_def)

lemma wake_simps [simp]:
  "bs_versions (wake k b) = bs_versions b" "bs_broad (wake k b) = bs_broad b"
  "keyed_get (wake k b) = keyed_get b" "bs_subs (wake k b) = bs_subs b" "bs_next (wake k b) = bs_next b"
  by (simp_all add: wake_def keyed_get_def fun_eq_iff)

lemma receive_simps [simp]:
  "bs_versions (receive s b) = bs_versions b" "bs_broad (receive s b) = bs_broad b"
  "keyed_get (receive s b) = keyed_get b" "bs_subs (receive s b) = bs_subs b"
  by (simp_all add: receive_def keyed_get_def fun_eq_iff)

lemma pending_wake [simp]: "pending (wake k b) s = (pending b s \<or> wants b s k)"
  by (auto simp: pending_def wake_def wants_def send_wake_def split: option.splits)

lemma pending_receive [simp]: "pending (receive s b) s' = (pending b s' \<and> s' \<noteq> s)"
  by (auto simp: pending_def receive_def split: option.splits)

lemma pending_bumps [simp]:
  "pending (bump k b) s = pending b s" "pending (bump_broad k b) s = pending b s"
  "pending (bump_key k key b) s = pending b s"
  by (simp_all add: pending_def)

lemma wants_kept [simp]:
  "wants (bump k b) s j = wants b s j" "wants (bump_broad k b) s j = wants b s j"
  "wants (bump_key k key b) s j = wants b s j" "wants (wake k b) s j = wants b s j"
  "wants (receive s' b) s j = wants b s j"
  by (auto simp: wants_def wake_def receive_def send_wake_def split: option.splits)

lemma Version_Publish:
  "Version (Publish k (Some b)) ks = Version (Some b) ks + of_nat (count_list ks k)"
  "Version (PublishKey k key (Some b)) ks = Version (Some b) ks + of_nat (count_list ks k)"
  by (induction ks) (auto simp: Publish_def PublishKey_def Version_sum)

lemma KeyVersion_Publish:
  "KeyVersion (Publish k (Some b)) j x = KeyVersion (Some b) j x + (if j = k then 1 else 0)"
  "KeyVersion (PublishKey k key (Some b)) j x = KeyVersion (Some b) j x + (if j = k \<and> x = key then 1 else 0)"
  by (auto simp: Publish_def PublishKey_def KeyVersion_def)

lemma word_of_nat_small_zero: "n < 2 ^ 64 \<Longrightarrow> (of_nat n :: counter) = 0 \<longleftrightarrow> n = 0"
  by (auto simp: word_of_nat_eq_0_iff dest: nat_dvd_not_less[rotated])

lemma count_list_word: "length ks < 2 ^ 64 \<Longrightarrow> (of_nat (count_list ks k) :: counter) = 0 \<longleftrightarrow> k \<notin> set ks"
  using count_le_length[of ks k] by (simp add: word_of_nat_small_zero count_list_0_iff)

section \<open>Registration\<close>

text \<open>Every registered subscription has its object, and no object has an identity not yet given out.\<close>

definition bus_wf :: "bus \<Rightarrow> bool" where
  "bus_wf b = ((\<forall>s \<in> set (bs_subs b). bs_chan b s \<noteq> None) \<and> (\<forall>s. bs_chan b s \<noteq> None \<longrightarrow> s < bs_next b))"

lemma bus_wf_New: "bus_wf New"
  by (simp add: bus_wf_def New_def)

lemma bus_wf_steps [simp]:
  "bus_wf b \<Longrightarrow> bus_wf (bump k b)" "bus_wf b \<Longrightarrow> bus_wf (bump_broad k b)" "bus_wf b \<Longrightarrow> bus_wf (bump_key k key b)"
  by (simp_all add: bus_wf_def)

lemma bus_wf_wake [simp]: "bus_wf b \<Longrightarrow> bus_wf (wake k b)"
  by (auto simp: bus_wf_def wake_def split: option.splits)

lemma bus_wf_receive [simp]: "bus_wf b \<Longrightarrow> bus_wf (receive s b)"
  by (auto simp: bus_wf_def receive_def split: option.splits)

lemma bus_wf_Subscribe: "bus_wf b \<Longrightarrow> Subscribe kinds (Some b) = (Some b', so) \<Longrightarrow> bus_wf b'"
  by (fastforce simp: bus_wf_def Subscribe_def)

lemma bus_wf_cancel: "bus_wf b \<Longrightarrow> cancel so (Some b) = Some b' \<Longrightarrow> bus_wf b'"
  by (auto simp: bus_wf_def cancel_def split: option.splits)

lemma pending_Publish:
  "pending (the (Publish k (Some b))) s = (pending b s \<or> wants b s k)"
  "pending (the (PublishKey k key (Some b))) s = (pending b s \<or> wants b s k)"
  by (simp_all add: Publish_def PublishKey_def)

lemma wants_Subscribe:
  assumes "bus_wf b" and "Subscribe kinds (Some b) = (Some b', Some s)"
  shows "wants b' s k = (k \<in> set kinds)" "\<not> pending b' s"
    "s' \<noteq> s \<Longrightarrow> wants b' s' k = wants b s' k \<and> pending b' s' = pending b s'"
  using assms by (auto simp: Subscribe_def wants_def pending_def)

lemma wants_cancel: "wants (the (cancel (Some s) (Some b))) s' k = (wants b s' k \<and> s' \<noteq> s)"
  by (auto simp: cancel_def wants_def)

end
