(* ===== verification/Tasks_Feed.thy ===== *)
theory Tasks_Feed
  imports Eventbus_Bus
begin

text \<open>
  \<open>internal/tasks/tasks.go\<close>: the recent-activity feed. Ops are a bounded ring, newest first; merges a
  map from repository and number to the merge, kept here as a HOL map with the set of its keys, and
  listed in any order by Go. The clock is an argument (nanoseconds); the feed publishes on the bus.
\<close>

section \<open>The feed\<close>

record task_op =
  to_verb :: string
  to_namespace :: string
  to_name :: string
  to_by :: string
  to_ok :: bool
  to_at :: int

record merge =
  mg_repo :: string
  mg_number :: int
  mg_url :: string
  mg_title :: string
  mg_by :: string
  mg_at :: int

text \<open>\<open>fd_merges\<close> flattens the two levels of the Go map: an entry per repository and number. An inner map
  that pruning empties is dropped there and reads like an absent one.\<close>

record feed =
  fd_bus :: "bus option"
  fd_ops :: "task_op list"
  fd_merges :: "((string \<times> int) \<times> merge) list"

definition opsCap :: nat where
  "opsCap = 100"

definition MergeRetention :: int where
  "MergeRetention = 3600000000000"

definition NewFeed :: "bus option \<Rightarrow> feed" where
  "NewFeed b = \<lparr>fd_bus = b, fd_ops = [], fd_merges = []\<rparr>"

definition RecordOp :: "task_op \<Rightarrow> feed \<Rightarrow> feed" where
  "RecordOp t f =
     (let ops = t # fd_ops f;
          ops' = (if length ops > opsCap then take opsCap ops else ops)
      in f\<lparr>fd_ops := ops', fd_bus := Publish TaskChanged (fd_bus f)\<rparr>)"

definition pruneLocked :: "int \<Rightarrow> ((string \<times> int) \<times> merge) list \<Rightarrow> ((string \<times> int) \<times> merge) list" where
  "pruneLocked cutoff m = filter (\<lambda>(k, v). \<not> mg_at v < cutoff) m"

definition put_merge :: "merge \<Rightarrow> ((string \<times> int) \<times> merge) list \<Rightarrow> ((string \<times> int) \<times> merge) list" where
  "put_merge v m = ((mg_repo v, mg_number v), v) # filter (\<lambda>(k, w). k \<noteq> (mg_repo v, mg_number v)) m"

definition RecordMerge :: "int \<Rightarrow> merge \<Rightarrow> feed \<Rightarrow> feed" where
  "RecordMerge now v f =
     (let prev = map_of (fd_merges f) (mg_repo v, mg_number v);
          changed = (prev \<noteq> Some v);
          f' = f\<lparr>fd_merges := pruneLocked (now - MergeRetention) (put_merge v (fd_merges f))\<rparr>
      in if changed then f'\<lparr>fd_bus := Publish TaskChanged (fd_bus f')\<rparr> else f')"

definition Ops :: "feed \<Rightarrow> task_op list" where
  "Ops f = fd_ops f"

definition merge_newer :: "merge \<Rightarrow> merge \<Rightarrow> bool" where
  "merge_newer a b = (mg_at a > mg_at b)"

definition Merges :: "feed \<Rightarrow> merge list" where
  "Merges f = go_sort merge_newer (map snd (fd_merges f))"

definition RevertSegment :: string where
  "RevertSegment = ''revert''"

text \<open>\<open>strings.Cut(s, sep)\<close> at a slash: what is before it, and whether there is one.\<close>

fun before_slash :: "string \<Rightarrow> string option" where
  "before_slash [] = None"
| "before_slash (c # s) = (if c = CHR ''/'' then Some [] else map_option ((#) c) (before_slash s))"

definition MergeAuthor :: "string \<Rightarrow> string \<Rightarrow> string \<Rightarrow> string" where
  "MergeAuthor headRef proposedPrefix poster =
     (if proposedPrefix \<noteq> '''' then
        (case cut_prefix headRef (proposedPrefix @ ''/'') of
           Some rest \<Rightarrow>
             (case before_slash (trim_prefix rest (RevertSegment @ ''/'')) of
                Some user \<Rightarrow> if user \<noteq> '''' then user else poster
              | None \<Rightarrow> poster)
         | None \<Rightarrow> poster)
      else poster)"

interpretation merge_order: less_func merge_newer
  by (rule less_func_key[where key = "\<lambda>m. - mg_at m"]) (simp add: merge_newer_def)

section \<open>What the feed keeps\<close>

text \<open>The calls a process makes on its feed, each merge with the time it was recorded at.\<close>

datatype feed_call = CallOp task_op | CallMerge int merge

fun feed_run :: "bus option \<Rightarrow> feed_call list \<Rightarrow> feed" where
  "feed_run b [] = NewFeed b"
| "feed_run b (CallOp t # cs) = RecordOp t (feed_run b cs)"
| "feed_run b (CallMerge now v # cs) = RecordMerge now v (feed_run b cs)"

fun ops_of :: "feed_call list \<Rightarrow> task_op list" where
  "ops_of [] = []"
| "ops_of (CallOp t # cs) = t # ops_of cs"
| "ops_of (CallMerge now v # cs) = ops_of cs"

fun last_merge :: "feed_call list \<Rightarrow> string \<times> int \<Rightarrow> merge option" where
  "last_merge [] k = None"
| "last_merge (CallOp t # cs) k = last_merge cs k"
| "last_merge (CallMerge now v # cs) k = (if k = (mg_repo v, mg_number v) then Some v else last_merge cs k)"

text \<open>No later write's cutoff passed the merge (the times of the writes after its last record, it included).\<close>

fun retained :: "feed_call list \<Rightarrow> string \<times> int \<Rightarrow> bool" where
  "retained [] k = False"
| "retained (CallOp t # cs) k = retained cs k"
| "retained (CallMerge now v # cs) k =
     (if k = (mg_repo v, mg_number v) then now - MergeRetention \<le> mg_at v
      else retained cs k \<and> (case last_merge cs k of None \<Rightarrow> False | Some w \<Rightarrow> now - MergeRetention \<le> mg_at w))"

definition merge_keys_ok :: "feed \<Rightarrow> bool" where
  "merge_keys_ok f = (distinct (map fst (fd_merges f)) \<and> (\<forall>(k, v) \<in> set (fd_merges f). k = (mg_repo v, mg_number v)))"

lemma RecordOp_sel [simp]:
  "fd_ops (RecordOp t f) = take opsCap (t # fd_ops f)" "fd_merges (RecordOp t f) = fd_merges f"
  by (auto simp: RecordOp_def Let_def)

lemma RecordMerge_sel [simp]:
  "fd_ops (RecordMerge now v f) = fd_ops f"
  "fd_merges (RecordMerge now v f) = pruneLocked (now - MergeRetention) (put_merge v (fd_merges f))"
  by (auto simp: RecordMerge_def Let_def)

lemma feed_keys: "merge_keys_ok (feed_run b cs)"
proof (induction b cs rule: feed_run.induct)
  case (3 b now v cs)
  have "distinct (map fst m) \<Longrightarrow> distinct (map fst (filter P m))" for P and m :: "((string \<times> int) \<times> merge) list"
    by (induction m) auto
  with 3 show ?case by (auto simp: merge_keys_ok_def pruneLocked_def put_merge_def)
qed (simp_all add: merge_keys_ok_def NewFeed_def)

lemma map_of_filter_keyed: "distinct (map fst m) \<Longrightarrow>
    map_of (filter P m) k = (case map_of m k of None \<Rightarrow> None | Some v \<Rightarrow> if P (k, v) then Some v else None)"
  by (induction m) (auto split: option.splits simp: map_of_eq_None_iff)

lemma feed_lookup: "map_of (fd_merges (feed_run b cs)) k = (if retained cs k then last_merge cs k else None)"
proof (induction b cs rule: feed_run.induct)
  case (3 b now v cs)
  let ?f = "feed_run b cs"
  have d: "distinct (map fst (fd_merges ?f))" using feed_keys[of b cs] by (simp add: merge_keys_ok_def)
  then have dp: "distinct (map fst (put_merge v (fd_merges ?f)))"
    by (auto simp: put_merge_def distinct_map intro: inj_on_subset distinct_filter)
  have "map_of (put_merge v (fd_merges ?f)) k =
      (if k = (mg_repo v, mg_number v) then Some v else map_of (fd_merges ?f) k)"
    using map_of_filter_keyed[OF d] by (auto simp: put_merge_def split: option.splits)
  with 3 show ?case
    by (auto simp: pruneLocked_def map_of_filter_keyed[OF dp] split: option.splits)
qed (simp_all add: NewFeed_def)

lemma feed_ops: "fd_ops (feed_run b cs) = take opsCap (ops_of cs)"
proof (induction b cs rule: feed_run.induct)
  case (2 b t cs)
  then show ?case by (simp add: opsCap_def take_Cons' min_def)
qed (simp_all add: NewFeed_def)

text \<open>A call wakes the subscribers of \<open>TaskChanged\<close> exactly when it changes what the feed shows.\<close>

lemma RecordOp_bus: "fd_bus (RecordOp t f) = Publish TaskChanged (fd_bus f)"
  by (simp add: RecordOp_def Let_def)

lemma RecordMerge_bus:
  "fd_bus (RecordMerge now v f) =
     (if map_of (fd_merges f) (mg_repo v, mg_number v) = Some v then fd_bus f else Publish TaskChanged (fd_bus f))"
  by (simp add: RecordMerge_def Let_def)

section \<open>Properties\<close>

text \<open>The feed is exactly the recent past. After any calls the op lane is the last hundred ops,
  newest first; the merged lane holds, for each repository and number, the merge last recorded under it
  as long as no write since (its own included) came later than the retention after the merge, and nothing
  else; and it is listed newest first with one row per pull request.\<close>
theorem feed_is_recent_past:
  "Ops (feed_run b cs) = take 100 (ops_of cs) \<and>
   (\<forall>v. v \<in> set (Merges (feed_run b cs)) \<longleftrightarrow>
      last_merge cs (mg_repo v, mg_number v) = Some v \<and> retained cs (mg_repo v, mg_number v)) \<and>
   distinct (map (\<lambda>v. (mg_repo v, mg_number v)) (Merges (feed_run b cs))) \<and>
   sorted_wrt (\<lambda>a b. mg_at a \<ge> mg_at b) (Merges (feed_run b cs))"
proof (intro conjI allI)
  let ?f = "feed_run b cs"
  have keys: "merge_keys_ok ?f" by (rule feed_keys)
  show "Ops ?f = take 100 (ops_of cs)" by (simp add: Ops_def feed_ops opsCap_def)
  show "v \<in> set (Merges ?f) \<longleftrightarrow> last_merge cs (mg_repo v, mg_number v) = Some v \<and> retained cs (mg_repo v, mg_number v)" for v
  proof -
    have "v \<in> set (Merges ?f) \<longleftrightarrow> ((mg_repo v, mg_number v), v) \<in> set (fd_merges ?f)"
      using keys by (force simp: Merges_def merge_keys_ok_def)
    also have "\<dots> \<longleftrightarrow> map_of (fd_merges ?f) (mg_repo v, mg_number v) = Some v"
      using keys by (simp add: merge_keys_ok_def)
    finally show ?thesis by (auto simp: feed_lookup)
  qed
  have "map (\<lambda>v. (mg_repo v, mg_number v)) (map snd (fd_merges ?f)) = map fst (fd_merges ?f)"
    using keys by (auto simp: merge_keys_ok_def)
  then show "distinct (map (\<lambda>v. (mg_repo v, mg_number v)) (Merges ?f))"
    using keys unfolding Merges_def distinct_go_sort merge_keys_ok_def by metis
  show "sorted_wrt (\<lambda>a b. mg_at a \<ge> mg_at b) (Merges ?f)"
    unfolding Merges_def by (rule sorted_wrt_mono_rel[OF _ merge_order.go_sort_ordered]) (simp add: merge_newer_def)
qed

end
