(* ===== verification/Changeset_Names.thy ===== *)
theory Changeset_Names
  imports Git_Diff Forge_Url Tasks_Feed
begin

text \<open>
  The names \<open>internal/changeset\<close> derives from who proposes what: the author address, and the working branches of a
  proposal and of a revert (\<open>helpers.go\<close>, \<open>propose.go\<close>, \<open>revert.go\<close>). User and project names are valid UTF-8. The
  SHA-256 of a text, in hexadecimal, is an argument.
\<close>

section \<open>Segments\<close>

definition authorEmail :: "string \<Rightarrow> string" where
  "authorEmail username =
     (let local = map (\<lambda>c. if c \<in> set '':/ '' then CHR ''.'' else c) username in
      (if local = '''' then ''dotvirt'' else local) @ ''@dotvirt.noreply'')"

definition ref_forbidden :: "char set" where
  "ref_forbidden = set (CHR 0x5C # '':~^ ?*[/@'')"

definition ref_char :: "char \<Rightarrow> char" where
  "ref_char c = (if c \<in> ref_forbidden then CHR ''-'' else c)"

text \<open>\<open>strings.ReplaceAll(s, "..", "-")\<close>\<close>

fun replace_dots :: "string \<Rightarrow> string" where
  "replace_dots (a # b # s) =
     (if a = CHR ''.'' \<and> b = CHR ''.'' then CHR ''-'' # replace_dots s else a # replace_dots (b # s))"
| "replace_dots s = s"

definition trim_marks :: "string \<Rightarrow> string" where
  "trim_marks s = (let cut = (\<lambda>c. c \<in> set ''-.'') in rev (dropWhile cut (rev (dropWhile cut s))))"

definition refSegment :: "string \<Rightarrow> string" where
  "refSegment s =
     (let out = trim_marks (strip_suffix (replace_dots (map ref_char s)) ''.lock'') in if out = '''' then ''x'' else out)"

definition shortHash :: "(string \<Rightarrow> string) \<Rightarrow> string \<Rightarrow> string \<Rightarrow> string" where
  "shortHash sha user project = take 10 (sha (user @ [CHR 0x00] @ project))"

definition shortCommit :: "string \<Rightarrow> string" where
  "shortCommit hash = (if length hash > 8 then take 8 hash else hash)"

section \<open>Branches\<close>

definition proposedBranch :: "(string \<Rightarrow> string) \<Rightarrow> string \<Rightarrow> string \<Rightarrow> string \<Rightarrow> string" where
  "proposedBranch sha prefix user project =
     prefix @ ''/'' @ refSegment user @ ''/'' @ refSegment project @ ''-'' @ shortHash sha user project"

definition revertPrefix :: "string \<Rightarrow> string \<Rightarrow> string \<Rightarrow> string" where
  "revertPrefix prefix user project =
     prefix @ ''/'' @ RevertSegment @ ''/'' @ refSegment user @ ''/'' @ refSegment project @ ''-''"

definition revertBranch :: "string \<Rightarrow> string \<Rightarrow> string \<Rightarrow> string \<Rightarrow> string" where
  "revertBranch prefix user project hash = revertPrefix prefix user project @ shortCommit hash"

definition OwnsProposal :: "(string \<Rightarrow> string) \<Rightarrow> string \<Rightarrow> string \<Rightarrow> string \<Rightarrow> string \<Rightarrow> bool" where
  "OwnsProposal sha prefix user project branch =
     (branch = proposedBranch sha prefix user project \<or> has_prefix branch (revertPrefix prefix user project))"

section \<open>What a segment may hold\<close>

lemma set_strip_suffix: "set (strip_suffix s p) \<subseteq> set s"
  by (auto simp: strip_suffix_def dest: in_set_takeD)

lemma set_replace_dots: "set (replace_dots s) \<subseteq> insert (CHR ''-'') (set s)"
  by (induction s rule: replace_dots.induct) (auto split: if_splits)

lemma hd_replace_dots: "s \<noteq> [] \<Longrightarrow> replace_dots s \<noteq> [] \<and> (hd (replace_dots s) = CHR ''.'' \<longrightarrow> hd s = CHR ''.'')"
  by (induction s rule: replace_dots.induct) auto

definition dotless :: "string \<Rightarrow> bool" where
  "dotless s = (\<forall>i. Suc i < length s \<longrightarrow> \<not> (s ! i = CHR ''.'' \<and> s ! Suc i = CHR ''.''))"

lemma dotless_Cons: "dotless (a # s) \<longleftrightarrow> (s \<noteq> [] \<longrightarrow> \<not> (a = CHR ''.'' \<and> hd s = CHR ''.'')) \<and> dotless s"
proof (cases s)
  case (Cons b t)
  then show ?thesis
    unfolding dotless_def by (auto simp: less_Suc_eq_0_disj nth_Cons split: nat.splits)
qed (simp add: dotless_def)

lemma dotless_replace: "dotless (replace_dots s)"
proof (induction s rule: replace_dots.induct)
  case (1 a b s)
  then show ?case using hd_replace_dots[of "b # s"] by (auto simp: dotless_Cons)
qed (simp_all add: dotless_def)

lemma dotless_take: "dotless s \<Longrightarrow> dotless (take n s)"
  by (auto simp: dotless_def)

lemma dotless_drop: "dotless s \<Longrightarrow> dotless (drop n s)"
  by (auto simp: dotless_def)

lemma trim_marks_infix: "\<exists>m n. trim_marks s = take n (drop m s)"
proof -
  let ?cut = "\<lambda>c. c \<in> set ''-.''"
  have "rev (dropWhile ?cut (rev t)) = take (length t - length (takeWhile ?cut (rev t))) t" for t
    by (metis append_eq_conv_conj length_append length_rev rev_append rev_rev_ident takeWhile_dropWhile_id diff_add_inverse)
  then show ?thesis by (metis dropWhile_eq_drop trim_marks_def)
qed

lemma set_trim_marks: "set (trim_marks s) \<subseteq> set s"
  using trim_marks_infix[of s] by (auto dest!: in_set_takeD in_set_dropD)

lemma dotless_trim: "dotless s \<Longrightarrow> dotless (trim_marks s)"
  by (metis trim_marks_infix dotless_take dotless_drop)

lemma ref_segment_chars: "c \<in> set (refSegment s) \<Longrightarrow> c \<notin> ref_forbidden"
proof -
  assume c: "c \<in> set (refSegment s)"
  have x: "CHR ''x'' \<notin> ref_forbidden" "CHR ''-'' \<notin> ref_forbidden" by (simp_all add: ref_forbidden_def)
  have "set (trim_marks (strip_suffix (replace_dots (map ref_char s)) ''.lock'')) \<subseteq> set (replace_dots (map ref_char s))"
    by (rule subset_trans[OF set_trim_marks set_strip_suffix])
  also have "\<dots> \<subseteq> insert (CHR ''-'') (ref_char ` set s)" using set_replace_dots[of "map ref_char s"] by simp
  finally have "set (trim_marks (strip_suffix (replace_dots (map ref_char s)) ''.lock'')) \<subseteq> insert (CHR ''-'') (ref_char ` set s)" .
  with c x show ?thesis by (auto simp: refSegment_def Let_def ref_char_def split: if_splits)
qed

text \<open>A branch segment of a user or project name is a git ref component but for one rule: it is not empty, holds none of the
  characters git refuses in a ref (the slash that would open another component included) and no two dots in a row.\<close>
lemma ref_segment_valid: "refSegment s \<noteq> '''' \<and> set (refSegment s) \<inter> ref_forbidden = {} \<and> dotless (refSegment s)"
proof -
  have "dotless (strip_suffix (replace_dots (map ref_char s)) ''.lock'')"
    by (simp add: strip_suffix_def dotless_replace dotless_take)
  then have "dotless (refSegment s)" by (auto simp: refSegment_def Let_def dotless_trim dotless_Cons) (simp add: dotless_def)
  moreover have "refSegment s \<noteq> []" by (simp add: refSegment_def Let_def)
  ultimately show ?thesis using ref_segment_chars by blast
qed

text \<open>The rule it breaks: a component may not end in \<open>.lock\<close>, and trimming the marks after the suffix can uncover one.\<close>

lemma ref_segment_lock: "refSegment ''bob.lock-'' = ''bob.lock''" "refSegment ''bob.lock.lock'' = ''bob.lock''"
  by code_simp+

section \<open>Whose branch it is\<close>

text \<open>The named hypothesis on SHA-256: the first ten hex digits tell the texts that occur apart.\<close>

definition hash_tells_apart :: "(string \<Rightarrow> string) \<Rightarrow> string set \<Rightarrow> bool" where
  "hash_tells_apart sha texts =
     ((\<forall>t\<in>texts. length (sha t) = 64) \<and> (\<forall>t\<in>texts. \<forall>u\<in>texts. take 10 (sha t) = take 10 (sha u) \<longrightarrow> t = u))"

definition pair_text :: "string \<Rightarrow> string \<Rightarrow> string" where
  "pair_text user project = user @ [CHR 0x00] @ project"

lemma pair_text_inj: "CHR 0x00 \<notin> set u \<Longrightarrow> CHR 0x00 \<notin> set u' \<Longrightarrow> pair_text u p = pair_text u' p' \<Longrightarrow> u = u' \<and> p = p'"
  using append_sep[of u "CHR 0x00" p u' p'] by (simp add: pair_text_def)

lemma shortHash_pair: "shortHash sha u p = take 10 (sha (pair_text u p))"
  by (simp add: shortHash_def pair_text_def)

lemma append_same_length: "a @ x = b @ y \<Longrightarrow> length x = length y \<Longrightarrow> x = y"
  by simp

text \<open>C27: No two users and no two projects share a proposal branch, however alike their names read once sanitized: the branch of a pair
  is another pair's only when the pairs are the same, so one proposal never force-pushes over another. Needed: user names hold no NUL
  byte and the branch hash tells the pairs apart.\<close>
theorem proposals_never_share_branch:
  assumes "hash_tells_apart sha {pair_text u p, pair_text u' p'}"
    and "CHR 0x00 \<notin> set u" and "CHR 0x00 \<notin> set u'"
    and "proposedBranch sha prefix u p = proposedBranch sha prefix u' p'"
  shows "u = u' \<and> p = p'"
proof -
  have len: "length (shortHash sha u p) = 10" "length (shortHash sha u' p') = 10"
    using assms(1) by (simp_all add: hash_tells_apart_def shortHash_pair)
  have "(prefix @ ''/'' @ refSegment u @ ''/'' @ refSegment p @ ''-'') @ shortHash sha u p =
      (prefix @ ''/'' @ refSegment u' @ ''/'' @ refSegment p' @ ''-'') @ shortHash sha u' p'"
    using assms(4) by (simp add: proposedBranch_def)
  then have "shortHash sha u p = shortHash sha u' p'" by (rule append_same_length) (simp add: len)
  then have "pair_text u p = pair_text u' p'" using assms(1) unfolding hash_tells_apart_def shortHash_pair by blast
  then show ?thesis by (rule pair_text_inj[OF assms(2,3)])
qed

text \<open>A stand-in digest for the witness: long enough, and telling the two texts apart.\<close>

definition toy_sha :: "string \<Rightarrow> string" where
  "toy_sha t = replicate 9 CHR ''0'' @ (if CHR '':'' \<in> set t then ''1'' else ''2'') @ replicate 54 CHR ''0''"

theorem proposals_never_share_branch_witness:
  "proposedBranch toy_sha ''dotvirt/proposed'' ''kube:admin'' ''shop'' \<noteq> proposedBranch toy_sha ''dotvirt/proposed'' ''kube-admin'' ''shop'' \<and>
   refSegment ''kube:admin'' = refSegment ''kube-admin''"
proof -
  have h: "hash_tells_apart toy_sha {pair_text ''kube:admin'' ''shop'', pair_text ''kube-admin'' ''shop''}"
    by code_simp
  have "proposedBranch toy_sha ''dotvirt/proposed'' ''kube:admin'' ''shop'' \<noteq> proposedBranch toy_sha ''dotvirt/proposed'' ''kube-admin'' ''shop''"
  proof
    assume eq: "proposedBranch toy_sha ''dotvirt/proposed'' ''kube:admin'' ''shop'' = proposedBranch toy_sha ''dotvirt/proposed'' ''kube-admin'' ''shop''"
    have "''kube:admin'' = ''kube-admin'' \<and> ''shop'' = ''shop''"
      by (rule proposals_never_share_branch[OF h _ _ eq]) simp_all
    then show False by simp
  qed
  moreover have "refSegment ''kube:admin'' = refSegment ''kube-admin''" by code_simp
  ultimately show ?thesis by blast
qed

text \<open>A revert branch carries no hash of who asked for it. Two users whose names sanitize alike get one branch for the same revert
  (the second force-pushes over the first), and each is told the other's proposal is theirs to withdraw or edit; the comment of
  \<open>OwnsProposal\<close> says both names carry a hash of the raw identity.\<close>
lemma revert_branch_shared:
  "revertBranch prefix ''kube:admin'' project hash = revertBranch prefix ''kube-admin'' project hash \<and>
   OwnsProposal sha prefix ''kube-admin'' project (revertBranch prefix ''kube:admin'' project hash)"
proof -
  have "refSegment ''kube:admin'' = refSegment ''kube-admin''" by code_simp
  then have "revertPrefix prefix ''kube:admin'' project = revertPrefix prefix ''kube-admin'' project"
    by (simp only: revertPrefix_def)
  then show ?thesis by (simp add: revertBranch_def OwnsProposal_def)
qed

section \<open>Attribution\<close>

lemma before_slash_append: "CHR ''/'' \<notin> set u \<Longrightarrow> before_slash (u @ CHR ''/'' # r) = Some u"
  by (induction u) auto

lemma segment_no_slash: "CHR ''/'' \<notin> set (refSegment u)"
  using ref_segment_valid[of u] by (auto simp: ref_forbidden_def)

lemma revert_not_prefix: "refSegment u \<noteq> RevertSegment \<Longrightarrow> \<not> has_prefix (refSegment u @ CHR ''/'' # r) (RevertSegment @ ''/'')"
proof
  assume ne: "refSegment u \<noteq> RevertSegment" and "has_prefix (refSegment u @ CHR ''/'' # r) (RevertSegment @ ''/'')"
  then obtain q where "refSegment u @ CHR ''/'' # r = RevertSegment @ CHR ''/'' # q" by (auto simp: has_prefix_iff)
  moreover have "CHR ''/'' \<notin> set RevertSegment" by (simp add: RevertSegment_def)
  ultimately show False using append_sep[of "refSegment u" "CHR ''/''" r RevertSegment q] segment_no_slash ne by blast
qed

text \<open>A merged or open proposal is attributed to whoever proposed it. From the branch alone the activity feed and the proposals
  lane name the (sanitized) user, whoever posted the pull request, for a proposal and for a revert alike; the one user this
  fails for is one whose segment reads \<open>revert\<close>.\<close>
theorem branch_attribution:
  assumes "prefix \<noteq> ''''" and "refSegment u \<noteq> RevertSegment"
  shows "MergeAuthor (proposedBranch sha prefix u p) prefix poster = refSegment u \<and>
    MergeAuthor (revertBranch prefix u p hash) prefix poster = refSegment u"
proof -
  have seg: "refSegment u \<noteq> ''''" using ref_segment_valid by blast
  have cut: "cut_prefix ((prefix @ ''/'') @ x) (prefix @ ''/'') = Some x" for x by (simp add: cut_prefix_Some)
  have a: "cut_prefix (proposedBranch sha prefix u p) (prefix @ ''/'') = Some (refSegment u @ CHR ''/'' # refSegment p @ ''-'' @ shortHash sha u p)"
    using cut by (simp add: proposedBranch_def)
  have b: "cut_prefix (revertBranch prefix u p hash) (prefix @ ''/'') =
      Some ((RevertSegment @ ''/'') @ refSegment u @ CHR ''/'' # refSegment p @ ''-'' @ shortCommit hash)"
    using cut by (simp add: revertBranch_def revertPrefix_def)
  have ta: "trim_prefix (refSegment u @ CHR ''/'' # r) (RevertSegment @ ''/'') = refSegment u @ CHR ''/'' # r" for r
    using revert_not_prefix[OF assms(2)] by (simp add: trim_prefix_def)
  have tb: "trim_prefix ((RevertSegment @ ''/'') @ r) (RevertSegment @ ''/'') = r" for r
    using has_prefix_append[of "RevertSegment @ ''/''" r] by (simp add: trim_prefix_def)
  show ?thesis
    unfolding MergeAuthor_def a b option.case ta tb before_slash_append[OF segment_no_slash] using assms(1) seg by simp
qed

theorem branch_attribution_witness:
  "MergeAuthor (proposedBranch toy_sha ''dotvirt/proposed'' ''kube:admin'' ''shop'') ''dotvirt/proposed'' ''bot'' = ''kube-admin''"
proof -
  have s: "refSegment ''kube:admin'' = ''kube-admin''" by code_simp
  have "refSegment ''kube:admin'' \<noteq> RevertSegment" by (simp add: s RevertSegment_def)
  from branch_attribution[OF _ this] show ?thesis by (simp add: s)
qed

end
