(* ===== verification/Manifest_Lines.thy ===== *)
theory Manifest_Lines
  imports Go_Text
begin

text \<open>
  \<open>internal/manifest/lineeditor.go\<close> and \<open>yamlnode.go\<close>: the text splicer a manifest edit is made of, steered by
  the positions of a yaml node tree. The editor's lines are a list, its insertions a list in queue order, its
  deletions a list of line indices (a Go set). A run-time panic (an index out of range, a negative repeat count, a
  nil node) is recorded in the editor and decides the whole call.
\<close>

section \<open>Nodes\<close>

datatype node_kind = DocumentNode | SequenceNode | MappingNode | ScalarNode | AliasNode

datatype ynode = YNode (yn_kind: node_kind) (yn_value: string) (yn_line: int) (yn_col: int) (yn_content: "ynode list")

text \<open>A nil node is \<open>None\<close>.\<close>

definition nodeValue :: "ynode option \<Rightarrow> string" where
  "nodeValue n = (case n of None \<Rightarrow> '''' | Some x \<Rightarrow> yn_value x)"

definition contentRoot :: "ynode \<Rightarrow> ynode option" where
  "contentRoot d =
     (if yn_kind d = DocumentNode \<and> length (yn_content d) = 1 then Some (hd (yn_content d))
      else if yn_kind d = MappingNode then Some d
      else None)"

text \<open>The key and value pairs of a mapping's flat content; an odd last node is skipped.\<close>

fun pairs_of :: "'a list \<Rightarrow> ('a \<times> 'a) list" where
  "pairs_of (k # v # xs) = (k, v) # pairs_of xs"
| "pairs_of _ = []"

definition entry_of :: "ynode option \<Rightarrow> string \<Rightarrow> (ynode \<times> ynode) option" where
  "entry_of m key =
     (case m of
        None \<Rightarrow> None
      | Some x \<Rightarrow> if yn_kind x \<noteq> MappingNode then None else find (\<lambda>(k, v). yn_value k = key) (pairs_of (yn_content x)))"

definition get :: "ynode option \<Rightarrow> string \<Rightarrow> ynode option" where
  "get m key = map_option snd (entry_of m key)"

section \<open>The editor\<close>

record insertion =
  in_after :: int
  in_text :: "string list"

record line_editor =
  le_lines :: "string list"
  le_inserts :: "insertion list"
  le_deleted :: "int list"
  le_panicked :: bool

text \<open>A line break other than LF or CRLF: a bare CR, NEL, LS or PS.\<close>

fun odd_break :: "string \<Rightarrow> bool" where
  "odd_break [] = False"
| "odd_break (c # s) =
     ((c = CHR 0x0D \<and> (s = [] \<or> hd s \<noteq> CHR 0x0A)) \<or>
      has_prefix (c # s) (bytes_of [0xC2, 0x85]) \<or> has_prefix (c # s) (bytes_of [0xE2, 0x80, 0xA8]) \<or>
      has_prefix (c # s) (bytes_of [0xE2, 0x80, 0xA9]) \<or> odd_break s)"

definition newLineEditor :: "string \<Rightarrow> line_editor option" where
  "newLineEditor s =
     (if odd_break s then None
      else Some \<lparr>le_lines = split_on (CHR 0x0A) s, le_inserts = [], le_deleted = [], le_panicked = False\<rparr>)"

definition le_panic :: "line_editor \<Rightarrow> line_editor" where
  "le_panic ed = ed\<lparr>le_panicked := True\<rparr>"

definition line_at :: "line_editor \<Rightarrow> int \<Rightarrow> string" where
  "line_at ed i = le_lines ed ! nat i"

definition line_ok :: "line_editor \<Rightarrow> int \<Rightarrow> bool" where
  "line_ok ed i = (0 \<le> i \<and> i < int (length (le_lines ed)))"

definition blank :: "string \<Rightarrow> bool" where
  "blank l = (TrimSpace l = '''')"

definition indentOf :: "string \<Rightarrow> int" where
  "indentOf l = int (length (takeWhile (\<lambda>c. c = CHR '' '') l))"

definition markDeleted :: "int \<Rightarrow> line_editor \<Rightarrow> line_editor" where
  "markDeleted i ed = ed\<lparr>le_deleted := i # le_deleted ed\<rparr>"

definition removeLine :: "int \<Rightarrow> line_editor \<Rightarrow> line_editor" where
  "removeLine i ed = (if line_ok ed i then markDeleted i ed else ed)"

definition removeRange :: "int \<Rightarrow> int \<Rightarrow> line_editor \<Rightarrow> line_editor" where
  "removeRange start stop ed = fold markDeleted (filter (line_ok ed) [start..stop - 1]) ed"

text \<open>
  The indentation scan the editor shares: the last line, from index \<open>j\<close> on, before the first non-blank
  one that \<open>ends\<close> the block; blank lines in between do not count as the block's.
\<close>

fun scan_block :: "(string \<Rightarrow> bool) \<Rightarrow> string list \<Rightarrow> int \<Rightarrow> int \<Rightarrow> int" where
  "scan_block ends [] j found = found"
| "scan_block ends (l # ls) j found =
     (if blank l then scan_block ends ls (j + 1) found
      else if ends l then found
      else scan_block ends ls (j + 1) j)"

definition deleteChild :: "ynode option \<Rightarrow> string \<Rightarrow> line_editor \<Rightarrow> line_editor" where
  "deleteChild m key ed =
     (case entry_of m key of
        None \<Rightarrow> ed
      | Some (k, v) \<Rightarrow>
          (let start = yn_line k - 1 in
           if \<not> line_ok ed start then ed
           else
             (let keyIndent = indentOf (line_at ed start);
                  end_line = scan_block (\<lambda>l. indentOf l \<le> keyIndent) (drop (nat (start + 1)) (le_lines ed)) (start + 1) start
              in removeRange start (end_line + 1) ed)))"

definition trailingComment :: "string \<Rightarrow> string" where
  "trailingComment rest =
     (case find (\<lambda>t. has_prefix t '' #'') (map (\<lambda>n. drop n rest) [0..<length rest]) of None \<Rightarrow> '''' | Some t \<Rightarrow> t)"

definition setScalarAt :: "ynode option \<Rightarrow> string \<Rightarrow> line_editor \<Rightarrow> line_editor" where
  "setScalarAt n newVal ed =
     (case n of
        None \<Rightarrow> le_panic ed
      | Some x \<Rightarrow>
          (let idx = yn_line x - 1 in
           if \<not> line_ok ed idx then ed
           else
             (let line = line_at ed idx; prefixLen = yn_col x - 1 in
              if prefixLen < 0 \<or> prefixLen > int (length line) then ed
              else ed\<lparr>le_lines := (le_lines ed)[nat idx :=
                     take (nat prefixLen) line @ newVal @ trailingComment (drop (nat prefixLen) line)]\<rparr>)))"

definition pad_lines :: "int \<Rightarrow> string list \<Rightarrow> string list" where
  "pad_lines n block = map (\<lambda>l. replicate (nat n) (CHR '' '') @ l) block"

definition mappingLastLine :: "ynode \<Rightarrow> line_editor \<Rightarrow> int" where
  "mappingLastLine m ed =
     (let col = yn_col m; start = yn_line m - 1 in
      scan_block (\<lambda>l. indentOf l < col - 1) (drop (nat (start + 1)) (le_lines ed)) (start + 1) start)"

definition insertBlock :: "ynode option \<Rightarrow> string list \<Rightarrow> line_editor \<Rightarrow> line_editor" where
  "insertBlock m block ed =
     (case m of
        None \<Rightarrow> ed
      | Some x \<Rightarrow>
          (if yn_kind x \<noteq> MappingNode \<or> yn_content x = [] then ed
           else if yn_col x - 1 < 0 then le_panic ed
           else if yn_line x - 1 < 0 then le_panic ed
           else ed\<lparr>le_inserts := le_inserts ed @
                  [\<lparr>in_after = mappingLastLine x ed, in_text = pad_lines (yn_col x - 1) block\<rparr>]\<rparr>))"

definition insertChild :: "ynode option \<Rightarrow> string \<Rightarrow> string \<Rightarrow> line_editor \<Rightarrow> line_editor" where
  "insertChild m key val = insertBlock m [key @ '': '' @ val]"

definition inserted_after :: "line_editor \<Rightarrow> int \<Rightarrow> string list" where
  "inserted_after ed i = concat (map in_text (filter (\<lambda>x. in_after x = i) (le_inserts ed)))"

definition out_lines :: "line_editor \<Rightarrow> string list" where
  "out_lines ed = concat (map (\<lambda>i. (if i \<in> set (le_deleted ed) then [] else [line_at ed i]) @ inserted_after ed i)
     [0..int (length (le_lines ed)) - 1])"

definition editor_bytes :: "line_editor \<Rightarrow> string" where
  "editor_bytes ed = join_with (out_lines ed) [CHR 0x0A]"

section \<open>Sequence items\<close>

text \<open>The line after item \<open>idx\<close>; \<open>None\<close> is an index out of range.\<close>

definition itemEndLine :: "ynode \<Rightarrow> nat \<Rightarrow> line_editor \<Rightarrow> int option" where
  "itemEndLine sq idx ed =
     (let startLine = yn_line (yn_content sq ! idx) - 1 in
      if \<not> line_ok ed startLine then None
      else if idx + 1 < length (yn_content sq) then Some (yn_line (yn_content sq ! (idx + 1)) - 1)
      else
        (let itemIndent = indentOf (line_at ed startLine);
             rest = drop (nat (startLine + 1)) (le_lines ed);
             ends = (\<lambda>l. \<not> blank l \<and> indentOf l \<le> itemIndent) in
         if list_ex ends rest then Some (startLine + 1 + int (length (takeWhile (\<lambda>l. \<not> ends l) rest)))
         else Some (scan_block ends rest (startLine + 1) startLine + 1)))"

definition appendItem :: "ynode option \<Rightarrow> string list \<Rightarrow> line_editor \<Rightarrow> line_editor" where
  "appendItem sq itemLines ed =
     (case sq of
        None \<Rightarrow> ed
      | Some x \<Rightarrow>
          (if yn_kind x \<noteq> SequenceNode \<or> yn_content x = [] then ed
           else
             (let final = last (yn_content x);
                  indent = (if yn_col final - 1 - 2 < 0 then yn_col final - 1 else yn_col final - 1 - 2) in
              if indent < 0 then le_panic ed
              else
                (case itemEndLine x (length (yn_content x) - 1) ed of
                   None \<Rightarrow> le_panic ed
                 | Some stop \<Rightarrow>
                     ed\<lparr>le_inserts := le_inserts ed @ [\<lparr>in_after = stop - 1, in_text = pad_lines indent itemLines\<rparr>]\<rparr>))))"

text \<open>\<open>findNamed\<close>: the item of that name, at its index.\<close>

definition item_id :: "bool \<Rightarrow> ynode \<Rightarrow> string" where
  "item_id viaMeta it = nodeValue (if viaMeta then get (get (Some it) ''metadata'') ''name'' else get (Some it) ''name'')"

definition findNamed :: "ynode option \<Rightarrow> string \<Rightarrow> bool \<Rightarrow> (nat \<times> ynode) option" where
  "findNamed sq name viaMeta =
     (case sq of
        None \<Rightarrow> None
      | Some x \<Rightarrow>
          (if yn_kind x \<noteq> SequenceNode then None
           else find (\<lambda>(i, it). item_id viaMeta it = name) (List.enumerate 0 (yn_content x))))"

definition namedItem :: "ynode option \<Rightarrow> string \<Rightarrow> ynode option" where
  "namedItem sq name = map_option snd (findNamed sq name False)"

definition templateNamed :: "ynode option \<Rightarrow> string \<Rightarrow> ynode option" where
  "templateNamed sq name = map_option snd (findNamed sq name True)"

definition remove_found :: "ynode option \<Rightarrow> string \<Rightarrow> bool \<Rightarrow> line_editor \<Rightarrow> line_editor" where
  "remove_found sq name viaMeta ed =
     (case findNamed sq name viaMeta of
        None \<Rightarrow> ed
      | Some (i, item) \<Rightarrow>
          (case itemEndLine (the sq) i ed of None \<Rightarrow> le_panic ed | Some stop \<Rightarrow> removeRange (yn_line item - 1) stop ed))"

definition removeNamedItem :: "ynode option \<Rightarrow> string \<Rightarrow> line_editor \<Rightarrow> line_editor" where
  "removeNamedItem sq name = remove_found sq name False"

definition removeTemplateNamed :: "ynode option \<Rightarrow> string \<Rightarrow> line_editor \<Rightarrow> line_editor" where
  "removeTemplateNamed sq name = remove_found sq name True"

end
