(* ===== verification/Manifest_Parse.thy ===== *)
theory Manifest_Parse
  imports Model_VM
begin

text \<open>
  \<open>internal/manifest/parse.go\<close> and the reading half of \<open>scheduling.go\<close>: what the inventory shows of a
  VirtualMachine manifest. Decoding the text into the tagged structs is yaml.v3's; the structs are the records
  below, with a count where the source only asks how many untyped entries there are.
\<close>

section \<open>The decoded manifest\<close>

record node_expr =
  ne_key :: string
  ne_operator :: string
  ne_values :: "string list"

record node_term =
  nt_exprs :: "node_expr list"
  nt_fields :: nat

record node_affinity =
  na_required :: "node_term list option"
  na_preferred :: nat

record affinity_term =
  at_labels :: labels
  at_exprs :: nat
  at_topology :: string
  at_namespaces :: "string list"
  at_ns_selector :: bool

record pod_affinity =
  pf_required :: "affinity_term list"
  pf_preferred :: "(int \<times> affinity_term) list"

record affinity_doc =
  af_node :: "node_affinity option"
  af_pod :: "pod_affinity option"
  af_anti :: "pod_affinity option"

record dv_storage_spec =
  ds_class :: string
  ds_size :: string

record dv_template =
  dt_name :: string
  dt_storage :: "dv_storage_spec option"
  dt_pvc :: "dv_storage_spec option"

record vm_net =
  vn_name :: string
  vn_pod :: bool
  vn_multus :: "string option"

record vm_volume =
  vv_name :: string
  vv_data_volume :: "string option"
  vv_pvc :: bool
  vv_container_disk :: bool
  vv_cloud_init :: bool
  vv_empty_disk :: "string option"

record vm_doc =
  md_kind :: string
  md_name :: string
  md_namespace :: string
  md_labels :: labels
  md_run_strategy :: string
  md_running :: "bool option"
  md_instancetype :: "string option"
  md_preference :: "string option"
  md_dv_templates :: "dv_template list"
  md_tmpl_labels :: labels
  md_tmpl_annotations :: labels
  md_eviction :: string
  md_node_selector :: labels
  md_affinity :: "affinity_doc option"
  md_cores :: int
  md_sockets :: int
  md_threads :: int
  md_guest_memory :: string
  md_request_memory :: string
  md_disks :: "string list"
  md_interfaces :: "string list"
  md_autoattach :: "bool option"
  md_networks :: "vm_net list"
  md_volumes :: "vm_volume list"

section \<open>Scheduling\<close>

definition GroupLabelPrefix :: string where
  "GroupLabelPrefix = ''group.scheduling.dotvirt.io/''"

definition hostnameLabel :: string where
  "hostnameLabel = ''kubernetes.io/hostname''"

definition PreferNoEvictionAnnotation :: string where
  "PreferNoEvictionAnnotation = ''descheduler.alpha.kubernetes.io/prefer-no-eviction''"

text \<open>A map from names to groups: the entry stored last comes first.\<close>

type_synonym groups = "(string \<times> placement_group) list"

definition put_group :: "placement_group \<Rightarrow> groups \<Rightarrow> groups" where
  "put_group g m = (pg_name g, g) # m"

definition sortedGroups :: "groups \<Rightarrow> placement_group list" where
  "sortedGroups m = map (\<lambda>n. the (map_of m n)) (sort (remdups (map fst m)))"

definition pinFromTerms :: "node_term list \<Rightarrow> string list option" where
  "pinFromTerms terms =
     (if length terms \<noteq> 1 \<or> nt_fields (hd terms) \<noteq> 0 \<or> length (nt_exprs (hd terms)) \<noteq> 1 then None
      else
        (let e = hd (nt_exprs (hd terms)) in
         if ne_key e \<noteq> hostnameLabel \<or> ne_operator e \<noteq> ''In'' \<or> ne_values e = [] then None
         else Some (ne_values e)))"

definition groupTerm :: "affinity_term \<Rightarrow> string \<Rightarrow> string option" where
  "groupTerm t mode =
     (if at_topology t \<noteq> hostnameLabel \<or> at_exprs t \<noteq> 0 \<or> at_namespaces t \<noteq> [] \<or> at_ns_selector t \<or>
         length (sorted_keys (at_labels t)) \<noteq> 1 then None
      else
        (let k = hd (sorted_keys (at_labels t)) in
         case cut_prefix k GroupLabelPrefix of
           None \<Rightarrow> None
         | Some name \<Rightarrow> if label_get (at_labels t) k = mode then Some name else None))"

definition label_groups :: "labels \<Rightarrow> groups" where
  "label_groups ls =
     List.map_filter (\<lambda>k. case cut_prefix k GroupLabelPrefix of
         None \<Rightarrow> None
       | Some name \<Rightarrow> Some (name, \<lparr>pg_name = name, pg_mode = label_get ls k, pg_strict = False\<rparr>)) (sorted_keys ls)"

text \<open>One term of a section: its group, or the mark that the VM is hand-tuned.\<close>

definition collect_term :: "string \<Rightarrow> bool \<Rightarrow> affinity_term \<Rightarrow> groups \<times> bool \<Rightarrow> groups \<times> bool" where
  "collect_term mode strict t st =
     (case groupTerm t mode of
        Some name \<Rightarrow> (put_group \<lparr>pg_name = name, pg_mode = mode, pg_strict = strict\<rparr> (fst st), snd st)
      | None \<Rightarrow> (fst st, True))"

definition collect_section :: "string \<Rightarrow> pod_affinity option \<Rightarrow> groups \<times> bool \<Rightarrow> groups \<times> bool" where
  "collect_section mode sec st =
     (case sec of
        None \<Rightarrow> st
      | Some s \<Rightarrow> fold (\<lambda>p. collect_term mode False (snd p)) (pf_preferred s) (fold (collect_term mode True) (pf_required s) st))"

text \<open>The pin, whether it comes from the node selector, and whether the node affinity is hand-tuned.\<close>

definition read_pin :: "labels \<Rightarrow> affinity_doc option \<Rightarrow> string list \<times> bool \<times> bool" where
  "read_pin nodeSelector aff =
     (let h = label_get nodeSelector hostnameLabel;
          sel = (h \<noteq> '''');
          pin = (if sel then [h] else [])
      in case Option.bind aff af_node of
           None \<Rightarrow> (pin, sel, False)
         | Some na \<Rightarrow>
             (case na_required na of
                None \<Rightarrow> (pin, sel, na_preferred na > 0)
              | Some terms \<Rightarrow>
                  (case pinFromTerms terms of
                     None \<Rightarrow> (pin, sel, True)
                   | Some p \<Rightarrow> (p, False, na_preferred na > 0 \<or> sel))))"

definition schedulingFromParts :: "labels \<Rightarrow> labels \<Rightarrow> affinity_doc option \<Rightarrow> vm_scheduling option \<times> bool" where
  "schedulingFromParts ls nodeSelector aff =
     (let (pin, sel, custom) = read_pin nodeSelector aff;
          (gs, custom2) = (case aff of
              None \<Rightarrow> (label_groups ls, custom)
            | Some a \<Rightarrow> collect_section ''apart'' (af_anti a) (collect_section ''together'' (af_pod a) (label_groups ls, custom)))
      in if gs = [] \<and> pin = [] \<and> \<not> custom2 then (None, False)
         else (Some \<lparr>sc_pin = pin, sc_groups = sortedGroups gs, sc_custom = custom2\<rparr>, sel))"

section \<open>The VM\<close>

definition refName :: "string option \<Rightarrow> string" where
  "refName r = (case r of None \<Rightarrow> '''' | Some n \<Rightarrow> n)"

text \<open>A data volume's size and class, of the last template of that name that has a storage or a pvc spec.\<close>

definition dv_infos :: "dv_template list \<Rightarrow> (string \<times> dv_storage_spec) list" where
  "dv_infos ts = rev (List.map_filter (\<lambda>t. map_option (Pair (dt_name t))
     (case dt_storage t of Some s \<Rightarrow> Some s | None \<Rightarrow> dt_pvc t)) ts)"

definition volume_disk :: "(string \<times> dv_storage_spec) list \<Rightarrow> vm_volume \<Rightarrow> disk" where
  "volume_disk dvs v =
     (let d = \<lparr>dk_name = vv_name v, dk_type = '''', dk_size = '''', dk_class = ''''\<rparr> in
      case vv_data_volume v of
        Some n \<Rightarrow>
          (case map_of dvs n of
             None \<Rightarrow> d\<lparr>dk_type := ''dataVolume''\<rparr>
           | Some i \<Rightarrow> d\<lparr>dk_type := ''dataVolume'', dk_size := ds_size i, dk_class := ds_class i\<rparr>)
      | None \<Rightarrow>
          (if vv_pvc v then d\<lparr>dk_type := ''pvc''\<rparr>
           else if vv_container_disk v then d\<lparr>dk_type := ''containerDisk''\<rparr>
           else if vv_cloud_init v then d\<lparr>dk_type := ''cloudInitNoCloud''\<rparr>
           else (case vv_empty_disk v of
                   Some c \<Rightarrow> d\<lparr>dk_type := ''emptyDisk'', dk_size := c\<rparr>
                 | None \<Rightarrow> d)))"

definition disksFromDoc :: "vm_doc \<Rightarrow> disk list" where
  "disksFromDoc d =
     (let dvs = dv_infos (md_dv_templates d);
          volType = rev (map (\<lambda>v. (vv_name v, volume_disk dvs v)) (md_volumes d))
      in map (\<lambda>n. case map_of volType n of
               Some i \<Rightarrow> i
             | None \<Rightarrow> \<lparr>dk_name = n, dk_type = '''', dk_size = '''', dk_class = ''''\<rparr>) (md_disks d))"

definition net_types :: "vm_net list \<Rightarrow> (string \<times> string) list" where
  "net_types ns = rev (List.map_filter (\<lambda>n.
     if vn_pod n then Some (vn_name n, ''pod'') else map_option (Pair (vn_name n)) (vn_multus n)) ns)"

definition networksFromDoc :: "vm_doc \<Rightarrow> nic list" where
  "networksFromDoc d =
     (let nic = (\<lambda>n net impl. \<lparr>nc_name = n, nc_network = net, nc_mac = '''', nc_ip = '''', nc_implicit = impl\<rparr>);
          out = map (\<lambda>i. nic i (label_get (net_types (md_networks d)) i) False) (md_interfaces d)
      in if out = [] \<and> md_autoattach d \<noteq> Some False then [nic ''default'' ''pod'' True] else out)"

definition powerFromDoc :: "vm_doc \<Rightarrow> string" where
  "powerFromDoc d =
     (if md_run_strategy d = ''Always'' \<or> md_run_strategy d = ''RerunOnFailure'' then PowerOn
      else if md_run_strategy d = ''Halted'' then PowerOff
      else if md_run_strategy d = ''Manual'' \<or> md_run_strategy d = ''Once'' then PowerUnknown
      else (case md_running d of
              Some r \<Rightarrow> if r then PowerOn else PowerOff
            | None \<Rightarrow> PowerUnknown))"

definition memoryFromDoc :: "vm_doc \<Rightarrow> string" where
  "memoryFromDoc d = (if md_guest_memory d \<noteq> '''' then md_guest_memory d else md_request_memory d)"

definition vcpusFromDoc :: "vm_doc \<Rightarrow> int" where
  "vcpusFromDoc d =
     (if md_cores d = 0 \<and> md_sockets d = 0 \<and> md_threads d = 0 then 0
      else fold (\<lambda>axis n. if axis > 0 then n * axis else n) [md_cores d, md_sockets d, md_threads d] 1)"

definition vm_of_doc :: "string \<Rightarrow> string \<Rightarrow> vm_doc \<Rightarrow> vm" where
  "vm_of_doc path defaultNS d =
     empty_vm\<lparr>vm_namespace := (if md_namespace d = '''' then defaultNS else md_namespace d), vm_name := md_name d,
       vm_power := powerFromDoc d, vm_cpu_cores := vcpusFromDoc d, vm_memory := memoryFromDoc d,
       vm_instancetype := refName (md_instancetype d), vm_preference := refName (md_preference d),
       vm_labels := md_labels d,
       vm_drs_exclude := map_of (md_tmpl_annotations d) PreferNoEvictionAnnotation \<noteq> None,
       vm_eviction := md_eviction d,
       vm_scheduling := fst (schedulingFromParts (md_tmpl_labels d) (md_node_selector d) (md_affinity d)),
       vm_disks := disksFromDoc d, vm_networks := networksFromDoc d, vm_source_file := path, vm_sync := SyncUnknown\<rparr>"

text \<open>The documents the decoder yields, and whether it then fails instead of reaching the end of the file.\<close>

definition ParseVMs :: "string \<Rightarrow> vm_doc list \<times> bool \<Rightarrow> string \<Rightarrow> vm list option" where
  "ParseVMs path docs defaultNS =
     (if snd docs then None
      else Some (map (vm_of_doc path defaultNS) (filter (\<lambda>d. md_kind d = ''VirtualMachine'') (fst docs))))"

end
