(* ===== verification/Yaml_Tree.thy ===== *)
theory Yaml_Tree
  imports Go_Prelude "HOL-Library.Monad_Syntax"
begin

text \<open>
  A YAML document as data: what the libraries marshal and unmarshal, and what the sources build as
  \<open>map[string]any\<close>. A mapping is its entries in some order. Reading a document into a struct follows
  \<open>encoding/json\<close> over exact keys: a missing key or null leaves the zero value, an unknown key is dropped, a value
  of another type is an error (\<open>None\<close>). (\<open>encoding/json\<close> also takes a key that differs in case; the callers compare
  the document with one of exact keys, so such a document is refused either way.)
\<close>

datatype yval = YNull | YBool bool | YInt int | YStr string | YSeq "yval list" | YMap "(string \<times> yval) list"

section \<open>Equality as data\<close>

fun norm :: "yval \<Rightarrow> yval" where
  "norm (YSeq xs) = YSeq (map norm xs)"
| "norm (YMap kvs) = YMap (sort_key fst (map (\<lambda>(k, v). (k, norm v)) kvs))"
| "norm v = v"

definition same_data :: "yval \<Rightarrow> yval \<Rightarrow> bool" where
  "same_data x y = (norm x = norm y)"

section \<open>Reading\<close>

definition y_obj :: "yval \<Rightarrow> (string \<times> yval) list option" where
  "y_obj v = (case v of YNull \<Rightarrow> Some [] | YMap m \<Rightarrow> Some m | _ \<Rightarrow> None)"

definition y_field :: "string \<Rightarrow> (string \<times> yval) list \<Rightarrow> yval" where
  "y_field k m = (case map_of m k of None \<Rightarrow> YNull | Some v \<Rightarrow> v)"

definition y_string :: "yval \<Rightarrow> string option" where
  "y_string v = (case v of YNull \<Rightarrow> Some '''' | YStr s \<Rightarrow> Some s | _ \<Rightarrow> None)"

definition y_int :: "yval \<Rightarrow> int option" where
  "y_int v = (case v of YNull \<Rightarrow> Some 0 | YInt n \<Rightarrow> Some n | _ \<Rightarrow> None)"

fun map_read :: "('a \<Rightarrow> 'b option) \<Rightarrow> 'a list \<Rightarrow> 'b list option" where
  "map_read f [] = Some []"
| "map_read f (x # xs) = do { y \<leftarrow> f x; ys \<leftarrow> map_read f xs; Some (y # ys) }"

definition y_list :: "(yval \<Rightarrow> 'b option) \<Rightarrow> yval \<Rightarrow> 'b list option" where
  "y_list f v = (case v of YNull \<Rightarrow> Some [] | YSeq xs \<Rightarrow> map_read f xs | _ \<Rightarrow> None)"

text \<open>A pointer field: absent or null is nil.\<close>

definition y_ptr :: "(yval \<Rightarrow> 'b option) \<Rightarrow> yval \<Rightarrow> 'b option option" where
  "y_ptr f v = (if v = YNull then Some None else map_option Some (f v))"

definition y_labels :: "yval \<Rightarrow> labels option" where
  "y_labels v = do { m \<leftarrow> y_obj v; map_read (\<lambda>(k, x). map_option (Pair k) (y_string x)) m }"

definition YLabels :: "labels \<Rightarrow> yval" where
  "YLabels m = YMap (map (\<lambda>(k, v). (k, YStr v)) m)"

definition YStrs :: "string list \<Rightarrow> yval" where
  "YStrs xs = YSeq (map YStr xs)"

section \<open>Unstructured objects\<close>

text \<open>A nested field, null where a step is no mapping, and the string there, empty where it is none.\<close>

fun nested :: "string list \<Rightarrow> yval \<Rightarrow> yval" where
  "nested [] v = v"
| "nested (k # ks) v = (case v of YMap m \<Rightarrow> nested ks (y_field k m) | _ \<Rightarrow> YNull)"

definition as_string :: "yval \<Rightarrow> string" where
  "as_string v = (case v of YStr s \<Rightarrow> s | _ \<Rightarrow> '''')"

text \<open>The accessors of \<open>unstructured.Unstructured\<close>, and the members of a list that are mappings.\<close>

definition is_map :: "yval \<Rightarrow> bool" where
  "is_map v = (case v of YMap _ \<Rightarrow> True | _ \<Rightarrow> False)"

definition obj_kind :: "yval \<Rightarrow> string" where
  "obj_kind v = as_string (nested [''kind''] v)"

definition obj_name :: "yval \<Rightarrow> string" where
  "obj_name v = as_string (nested [''metadata'', ''name''] v)"

definition obj_namespace :: "yval \<Rightarrow> string" where
  "obj_namespace v = as_string (nested [''metadata'', ''namespace''] v)"

lemma as_string_simps [simp]: "as_string (YStr s) = s" "as_string YNull = ''''"
  by (simp_all add: as_string_def)

lemma map_read_map: "(\<And>x. x \<in> set xs \<Longrightarrow> f (g x) = Some (h x)) \<Longrightarrow> map_read f (map g xs) = Some (map h xs)"
  by (induction xs) auto

lemma y_obj_Map [simp]: "y_obj (YMap m) = Some m"
  by (simp add: y_obj_def)

lemma y_obj_Null [simp]: "y_obj YNull = Some []"
  by (simp add: y_obj_def)

lemma y_field_Nil [simp]: "y_field k [] = YNull"
  by (simp add: y_field_def)

lemma y_field_Cons [simp]: "y_field k ((j, v) # m) = (if j = k then v else y_field k m)"
  by (simp add: y_field_def)

lemma y_string_Str [simp]: "y_string (YStr s) = Some s"
  by (simp add: y_string_def)

lemma y_string_Null [simp]: "y_string YNull = Some ''''"
  by (simp add: y_string_def)

lemma y_int_Int [simp]: "y_int (YInt n) = Some n"
  by (simp add: y_int_def)

lemma y_int_Null [simp]: "y_int YNull = Some 0"
  by (simp add: y_int_def)

lemma y_list_Seq [simp]: "y_list f (YSeq xs) = map_read f xs"
  by (simp add: y_list_def)

lemma y_list_Null [simp]: "y_list f YNull = Some []"
  by (simp add: y_list_def)

lemma y_ptr_Null [simp]: "y_ptr f YNull = Some None"
  by (simp add: y_ptr_def)

lemma y_ptr_Map [simp]: "y_ptr f (YMap m) = map_option Some (f (YMap m))"
  by (simp add: y_ptr_def)

lemma y_ptr_Int [simp]: "y_ptr f (YInt n) = map_option Some (f (YInt n))"
  by (simp add: y_ptr_def)

lemma y_labels_YLabels [simp]: "y_labels (YLabels m) = Some m"
proof -
  have "map_read (\<lambda>(k, x). map_option (Pair k) (y_string x)) (map (\<lambda>(k, v). (k, YStr v)) m) = Some (map id m)"
    by (rule map_read_map) auto
  then show ?thesis by (simp add: y_labels_def YLabels_def)
qed

lemma y_labels_Null [simp]: "y_labels YNull = Some []"
  by (simp add: y_labels_def)

lemma y_strings [simp]: "map_read y_string (map YStr xs) = Some xs"
  using map_read_map[of xs y_string YStr id] by simp

lemma y_list_YStrs [simp]: "y_list y_string (YStrs xs) = Some xs"
  by (simp add: YStrs_def)

lemma same_data_refl [simp]: "same_data x x"
  by (simp add: same_data_def)

end
