(* ===== verification/Vmgen.thy ===== *)
theory Vmgen
  imports Model_VM Yaml_Tree
begin

text \<open>
  \<open>internal/vmgen/vmgen.go\<close>: the VirtualMachine manifest of the New VM wizard, as the tree the YAML library
  marshals. A Go map is its entries in any order; bcrypt is the parameter \<open>bcrypt\<close>, which may refuse.
\<close>


record os_image =
  oi_name :: string
  oi_namespace :: string

record cloud_init =
  ci_user :: string
  ci_password :: string
  ci_ssh_key :: string
  ci_extra :: string

record extra_disk =
  ed_name :: string
  ed_size :: string
  ed_class :: string

record vm_spec =
  vs_name :: string
  vs_namespace :: string
  vs_instancetype :: string
  vs_preference :: string
  vs_image :: os_image
  vs_disk_size :: string
  vs_class :: string
  vs_running :: bool
  vs_cloud_init :: "cloud_init option"
  vs_extra_disks :: "extra_disk list"
  vs_networks :: "string list"
  vs_primary :: "bool option"
  vs_labels :: labels

definition orDefault :: "string \<Rightarrow> string \<Rightarrow> string" where
  "orDefault v def = (if v = '''' then def else v)"

definition storageBlock :: "string \<Rightarrow> string \<Rightarrow> yval" where
  "storageBlock sz cls =
     YMap ((''resources'', YMap [(''requests'', YMap [(''storage'', YStr sz)])]) #
       (if cls \<noteq> '''' then [(''storageClassName'', YStr cls)] else []))"

definition BlankDataVolumeTemplate :: "string \<Rightarrow> string \<Rightarrow> string \<Rightarrow> yval" where
  "BlankDataVolumeTemplate name sz cls =
     YMap [(''metadata'', YMap [(''name'', YStr name)]),
           (''spec'', YMap [(''source'', YMap [(''blank'', YMap [])]), (''storage'', storageBlock sz cls)])]"

definition dataVolumeTemplate :: "string \<Rightarrow> os_image \<Rightarrow> string \<Rightarrow> string \<Rightarrow> yval" where
  "dataVolumeTemplate name img sz cls =
     YMap [(''metadata'', YMap [(''name'', YStr name)]),
           (''spec'', YMap [
              (''sourceRef'', YMap [(''kind'', YStr ''DataSource''), (''name'', YStr (oi_name img)), (''namespace'', YStr (oi_namespace img))]),
              (''storage'', storageBlock sz cls)])]"

definition extraDiskVol :: "string \<Rightarrow> string \<Rightarrow> string" where
  "extraDiskVol vm d = vm @ ''-'' @ d"

definition namedDisk :: "string \<Rightarrow> yval" where
  "namedDisk name = YMap [(''name'', YStr name), (''disk'', YMap [(''bus'', YStr ''virtio'')])]"

definition dataVolumeMount :: "string \<Rightarrow> string \<Rightarrow> yval" where
  "dataVolumeMount name dv = YMap [(''name'', YStr name), (''dataVolume'', YMap [(''name'', YStr dv)])]"

definition podDefaultNetwork :: yval where
  "podDefaultNetwork = YMap [(''name'', YStr ''default''), (''pod'', YMap [])]"

definition masqueradeIface :: "string \<Rightarrow> yval" where
  "masqueradeIface name = YMap [(''name'', YStr name), (''masquerade'', YMap [])]"

definition multusNetwork :: "string \<Rightarrow> yval \<times> yval" where
  "multusNetwork ref =
     (YMap [(''name'', YStr (InterfaceName ref)), (''multus'', YMap [(''networkName'', YStr ref)])],
      YMap [(''name'', YStr (InterfaceName ref)), (''bridge'', YMap [])])"

definition hashPassword :: "(string \<Rightarrow> string option) \<Rightarrow> string \<Rightarrow> string option" where
  "hashPassword bcrypt pw = (if has_prefix pw ''$'' then Some pw else bcrypt pw)"

definition user_data :: "cloud_init \<Rightarrow> string" where
  "user_data ci =
     (let nl = [CHR 0x0A] in
      ''#cloud-config'' @ nl @
      (if ci_user ci \<noteq> '''' then ''user: '' @ ci_user ci @ nl else '''') @
      (if ci_password ci \<noteq> '''' then
         ''password: '' @ ci_password ci @ nl @ ''chpasswd: { expire: False }'' @ nl @
         (if ci_ssh_key ci = '''' then ''ssh_pwauth: True'' @ nl else '''')
       else '''') @
      (if ci_ssh_key ci \<noteq> '''' then ''ssh_authorized_keys:'' @ nl @ ''  - '' @ ci_ssh_key ci @ nl else '''') @
      (if ci_extra ci \<noteq> '''' then ci_extra ci @ (if last (ci_extra ci) \<noteq> CHR 0x0A then nl else '''') else ''''))"

definition cloudInit :: "vm_spec \<Rightarrow> yval option" where
  "cloudInit s = map_option (\<lambda>ci. YMap [(''name'', YStr ''cloudinitdisk''), (''cloudInitNoCloud'', YMap [(''userData'', YStr (user_data ci))])])
     (vs_cloud_init s)"

definition vm_template :: "vm_spec \<Rightarrow> string \<Rightarrow> yval" where
  "vm_template s rootVol =
     (let primary = (vs_primary s \<noteq> Some False);
          ci = (case cloudInit s of None \<Rightarrow> [] | Some v \<Rightarrow> [v]);
          disks = [namedDisk ''rootdisk''] @ map (\<lambda>d. namedDisk (ed_name d)) (vs_extra_disks s) @
            (if ci = [] then [] else [namedDisk ''cloudinitdisk'']);
          volumes = [dataVolumeMount ''rootdisk'' rootVol] @
            map (\<lambda>d. dataVolumeMount (ed_name d) (extraDiskVol (vs_name s) (ed_name d))) (vs_extra_disks s) @ ci;
          networks = (if primary then [podDefaultNetwork] else []) @ map (fst \<circ> multusNetwork) (vs_networks s);
          ifaces = (if primary then [masqueradeIface ''default''] else []) @ map (snd \<circ> multusNetwork) (vs_networks s)
      in YMap [(''spec'', YMap [
           (''domain'', YMap [(''devices'', YMap [(''disks'', YSeq disks), (''interfaces'', if ifaces = [] then YNull else YSeq ifaces)])]),
           (''networks'', if networks = [] then YNull else YSeq networks), (''volumes'', YSeq volumes)])])"

definition vmSpec :: "vm_spec \<Rightarrow> yval" where
  "vmSpec s =
     (let rootVol = vs_name s @ ''-rootdisk'' in
      YMap [(''runStrategy'', YStr (RunStrategy (vs_running s))),
            (''instancetype'', YMap [(''name'', YStr (vs_instancetype s))]),
            (''preference'', YMap [(''name'', YStr (vs_preference s))]),
            (''dataVolumeTemplates'', YSeq (dataVolumeTemplate rootVol (vs_image s) (orDefault (vs_disk_size s) ''30Gi'') (vs_class s) #
               map (\<lambda>d. BlankDataVolumeTemplate (extraDiskVol (vs_name s) (ed_name d)) (orDefault (ed_size d) ''10Gi'') (ed_class d))
                 (vs_extra_disks s))),
            (''template'', vm_template s rootVol)])"

definition vm_metadata :: "vm_spec \<Rightarrow> yval" where
  "vm_metadata s = YMap ([(''name'', YStr (vs_name s)), (''namespace'', YStr (vs_namespace s))] @
     (if vs_labels s \<noteq> [] then [(''labels'', YMap (map (map_prod id YStr) (vs_labels s)))] else []))"

definition ManifestPath :: "string \<Rightarrow> string \<Rightarrow> string" where
  "ManifestPath ns name = ns @ ''/'' @ name @ ''.yaml''"

text \<open>The first check that fails, as its message.\<close>

definition validateSpec :: "vm_spec \<Rightarrow> string option" where
  "validateSpec s =
     (case RequireDNS1123 ''name'' (vs_name s) of
        Some e \<Rightarrow> Some e
      | None \<Rightarrow>
          (case RequireDNS1123 ''namespace'' (vs_namespace s) of
             Some e \<Rightarrow> Some e
           | None \<Rightarrow>
               (if vs_instancetype s = '''' then Some ''instancetype is required''
                else if vs_preference s = '''' then Some ''preference is required''
                else if oi_name (vs_image s) = '''' then Some ''osImage is required''
                else None)))"

definition hash_cloud_init :: "(string \<Rightarrow> string option) \<Rightarrow> vm_spec \<Rightarrow> vm_spec option" where
  "hash_cloud_init bcrypt s =
     (case vs_cloud_init s of
        None \<Rightarrow> Some s
      | Some ci \<Rightarrow>
          (if ci_password ci = '''' then Some s
           else map_option (\<lambda>h. s\<lparr>vs_cloud_init := Some (ci\<lparr>ci_password := h\<rparr>)\<rparr>) (hashPassword bcrypt (ci_password ci))))"

definition Manifest :: "(string \<Rightarrow> string option) \<Rightarrow> vm_spec \<Rightarrow> string + string \<times> yval" where
  "Manifest bcrypt s =
     (case validateSpec s of
        Some e \<Rightarrow> Inl e
      | None \<Rightarrow>
          (case hash_cloud_init bcrypt s of
             None \<Rightarrow> Inl ''hashing cloud-init password''
           | Some s' \<Rightarrow>
               Inr (ManifestPath (vs_namespace s') (vs_name s'),
                 YMap [(''apiVersion'', YStr ''kubevirt.io/v1''), (''kind'', YStr ''VirtualMachine''),
                       (''metadata'', vm_metadata s'), (''spec'', vmSpec s')])))"

end
