(* ===== verification/Manifest_Edit.thy ===== *)
theory Manifest_Edit
  imports Manifest_Lines Manifest_Parse Vmgen
begin

text \<open>
  \<open>internal/manifest/edit*.go\<close> and the writing half of \<open>scheduling.go\<close>: a field edit of a VM as queued line
  edits. The YAML library is the record \<open>yaml_lib\<close>: the documents of a text as node trees and as decoded structs
  (each with whether the decoder then failed), a node decoded as an affinity section or a string map, and a tree
  encoded as text.
\<close>

record yaml_lib =
  yl_nodes :: "string \<Rightarrow> ynode list \<times> bool"
  yl_docs :: "string \<Rightarrow> vm_doc list \<times> bool"
  yl_affinity :: "ynode \<Rightarrow> affinity_doc option"
  yl_map :: "ynode \<Rightarrow> labels option"
  yl_encode :: "yval \<Rightarrow> string"

datatype edit_error = ParseFailed | VMNotFound | OddBreaks | EditInvalid string | EditConflict string | WouldCorrupt | Panicked

section \<open>Finding the VM\<close>

definition is_target :: "string \<Rightarrow> string \<Rightarrow> ynode \<Rightarrow> bool" where
  "is_target ns name m =
     (nodeValue (get (Some m) ''kind'') = ''VirtualMachine'' \<and>
      (case get (Some m) ''metadata'' of
         None \<Rightarrow> False
       | Some meta \<Rightarrow>
           nodeValue (get (Some meta) ''name'') = name \<and>
           (let n = nodeValue (get (Some meta) ''namespace'') in n = '''' \<or> n = ns)))"

text \<open>\<open>findVM\<close>: an error only when no document before the bad one is the VM.\<close>

definition findVM :: "ynode list \<times> bool \<Rightarrow> string \<Rightarrow> string \<Rightarrow> edit_error + ynode" where
  "findVM docs ns name =
     (case find (is_target ns name) (List.map_filter contentRoot (fst docs)) of
        Some m \<Rightarrow> Inr m
      | None \<Rightarrow> if snd docs then Inl ParseFailed else Inl VMNotFound)"

definition templateSpecNode :: "ynode \<Rightarrow> ynode option" where
  "templateSpecNode vm = get (get (get (Some vm) ''spec'') ''template'') ''spec''"

definition domainNode :: "ynode \<Rightarrow> ynode option" where
  "domainNode vm = get (templateSpecNode vm) ''domain''"

section \<open>Power, sizing, references\<close>

definition boolStr :: "bool \<Rightarrow> string" where
  "boolStr b = (if b then ''true'' else ''false'')"

definition applyPower :: "ynode \<Rightarrow> string \<Rightarrow> line_editor \<Rightarrow> line_editor" where
  "applyPower vm want ed =
     (let s = get (Some vm) ''spec''; on = (want = PowerOn) in
      if s = None then ed
      else if get s ''running'' \<noteq> None then setScalarAt (get s ''running'') (boolStr on) ed
      else if get s ''runStrategy'' \<noteq> None then setScalarAt (get s ''runStrategy'') (RunStrategy on) ed
      else insertChild s ''runStrategy'' (RunStrategy on) ed)"

definition applyCPU :: "ynode \<Rightarrow> int \<Rightarrow> line_editor \<Rightarrow> line_editor" where
  "applyCPU vm vcpus ed =
     (let domain = domainNode vm; val = itoa vcpus; cpu = get domain ''cpu'';
          cores = get cpu ''cores''; sockets = get cpu ''sockets''; threads = get cpu ''threads'' in
      if domain = None then ed
      else if cpu = None then insertBlock domain [''cpu:'', ''  sockets: '' @ val] ed
      else if cores \<noteq> None \<and> sockets = None \<and> threads = None then setScalarAt cores val ed
      else
        (let ed1 = (if cores \<noteq> None then deleteChild cpu ''cores'' ed else ed);
             ed2 = (if threads \<noteq> None then deleteChild cpu ''threads'' ed1 else ed1)
         in if sockets \<noteq> None then setScalarAt sockets val ed2 else insertChild cpu ''sockets'' val ed2))"

definition applyMemory :: "ynode \<Rightarrow> string \<Rightarrow> line_editor \<Rightarrow> line_editor" where
  "applyMemory vm memory ed =
     (let domain = domainNode vm; mem = get domain ''memory''; g = get mem ''guest'';
          m = get (get (get domain ''resources'') ''requests'') ''memory'' in
      if domain = None then ed
      else if mem \<noteq> None then
        (if g \<noteq> None then setScalarAt g memory ed else insertChild mem ''guest'' memory ed)
      else if m \<noteq> None then setScalarAt m memory ed
      else insertBlock domain [''memory:'', ''  guest: '' @ memory] ed)"

definition applyInline :: "ynode \<Rightarrow> vm_edit \<Rightarrow> line_editor \<Rightarrow> line_editor" where
  "applyInline vm e ed =
     (let ed1 = (case ve_cpu_cores e of None \<Rightarrow> ed | Some n \<Rightarrow> applyCPU vm n ed) in
      case ve_memory e of None \<Rightarrow> ed1 | Some m \<Rightarrow> applyMemory vm m ed1)"

definition stripRef :: "ynode \<Rightarrow> string \<Rightarrow> line_editor \<Rightarrow> line_editor" where
  "stripRef vm key = deleteChild (get (Some vm) ''spec'') key"

definition stripInlineSizing :: "ynode \<Rightarrow> line_editor \<Rightarrow> line_editor" where
  "stripInlineSizing vm ed =
     (let domain = domainNode vm; reqs = get (get domain ''resources'') ''requests'' in
      if domain = None then ed
      else
        (let ed1 = deleteChild domain ''memory'' (deleteChild domain ''cpu'' ed) in
         if reqs = None then ed1 else deleteChild reqs ''memory'' (deleteChild reqs ''cpu'' ed1)))"

definition applyRef :: "ynode \<Rightarrow> string \<Rightarrow> string \<Rightarrow> line_editor \<Rightarrow> line_editor" where
  "applyRef vm key val ed =
     (let spec = get (Some vm) ''spec''; ref = get spec key; nameNode = get ref ''name'' in
      if spec = None then ed
      else if ref \<noteq> None then
        (let ed1 = (if get ref ''revisionName'' \<noteq> None then deleteChild ref ''revisionName'' ed else ed) in
         if nameNode \<noteq> None then setScalarAt nameNode val ed1 else insertChild ref ''name'' val ed1)
      else insertBlock spec [key @ '':'', ''  name: '' @ val] ed)"

definition sizing_mode :: "vm_edit \<Rightarrow> string" where
  "sizing_mode e = (case ve_sizing e of None \<Rightarrow> '''' | Some m \<Rightarrow> m)"

definition applySizing :: "ynode \<Rightarrow> vm_edit \<Rightarrow> line_editor \<Rightarrow> line_editor" where
  "applySizing vm e ed =
     (let ref = (\<lambda>ed. case ve_instancetype e of None \<Rightarrow> ed | Some it \<Rightarrow> applyRef vm ''instancetype'' it ed) in
      if sizing_mode e = ''custom'' then applyInline vm e (stripRef vm ''instancetype'' ed)
      else if sizing_mode e = ''instancetype'' then stripInlineSizing vm (ref ed)
      else
        (let hasIT = (get (get (Some vm) ''spec'') ''instancetype'' \<noteq> None);
             setsIT = (ve_instancetype e \<noteq> None \<and> ve_instancetype e \<noteq> Some '''')
         in if hasIT \<or> setsIT then stripInlineSizing vm (ref ed) else applyInline vm e (ref ed)))"

definition applyEvictionStrategy :: "ynode \<Rightarrow> string \<Rightarrow> line_editor \<Rightarrow> line_editor" where
  "applyEvictionStrategy vm strategy ed =
     (let s = templateSpecNode vm; es = get s ''evictionStrategy'' in
      if s = None then ed
      else if es \<noteq> None then
        (if strategy = '''' then deleteChild s ''evictionStrategy'' ed else setScalarAt es strategy ed)
      else if strategy \<noteq> '''' then insertChild s ''evictionStrategy'' strategy ed
      else ed)"

section \<open>Labels and annotations\<close>

definition quoteKey :: "string \<Rightarrow> string" where
  "quoteKey k = (if list_ex (\<lambda>c. c = CHR ''/'' \<or> c = CHR ''.'' \<or> c = CHR '':'') k then go_quote k else k)"

definition emptiesMap :: "ynode \<Rightarrow> string list \<Rightarrow> bool" where
  "emptiesMap m remove = list_all (\<lambda>(k, v). yn_value k \<in> set remove) (pairs_of (yn_content m))"

text \<open>The field as a block mapping that can grow, and the editor that has dropped a degenerate one.\<close>

definition mappingField :: "ynode option \<Rightarrow> string \<Rightarrow> line_editor \<Rightarrow> ynode option \<times> line_editor" where
  "mappingField parent fld ed =
     (case get parent fld of
        None \<Rightarrow> (None, ed)
      | Some m \<Rightarrow>
          (if yn_kind m \<noteq> MappingNode \<or> yn_content m = [] then (None, deleteChild parent fld ed) else (Some m, ed)))"

definition set_key :: "ynode \<Rightarrow> labels \<Rightarrow> string \<Rightarrow> line_editor \<Rightarrow> line_editor" where
  "set_key m set_map k ed =
     (if get (Some m) k \<noteq> None then setScalarAt (get (Some m) k) (label_get set_map k) ed
      else insertChild (Some m) (quoteKey k) (label_get set_map k) ed)"

definition remove_key :: "ynode \<Rightarrow> string \<Rightarrow> line_editor \<Rightarrow> line_editor" where
  "remove_key m k ed = (case get (Some m) k of None \<Rightarrow> ed | Some existing \<Rightarrow> removeLine (yn_line existing - 1) ed)"

definition applyMapEdits :: "ynode option \<Rightarrow> string \<Rightarrow> labels \<Rightarrow> string list \<Rightarrow> line_editor \<Rightarrow> line_editor" where
  "applyMapEdits parent fld set_map remove ed =
     (if set_map = [] \<and> remove = [] then ed
      else
        (case mappingField parent fld ed of
           (None, ed1) \<Rightarrow>
             (if set_map = [] then ed1
              else insertBlock parent ((fld @ '':'') # map (\<lambda>k. ''  '' @ quoteKey k @ '': '' @ label_get set_map k) (sorted_keys set_map)) ed1)
         | (Some m, ed1) \<Rightarrow>
             (if set_map = [] \<and> emptiesMap m remove then deleteChild parent fld ed1
              else fold (remove_key m) remove (fold (set_key m set_map) (sorted_keys set_map) ed1))))"

definition applyMetadata :: "ynode \<Rightarrow> vm_edit \<Rightarrow> line_editor \<Rightarrow> line_editor" where
  "applyMetadata vm e ed =
     (if ve_set_labels e = [] \<and> ve_remove_labels e = [] then ed
      else if get (Some vm) ''metadata'' = None then ed
      else applyMapEdits (get (Some vm) ''metadata'') ''labels'' (ve_set_labels e) (ve_remove_labels e) ed)"

definition drsAnnotationEdits :: "vm_edit \<Rightarrow> labels \<times> string list" where
  "drsAnnotationEdits e =
     (case ve_drs_exclude e of
        None \<Rightarrow> ([], [])
      | Some True \<Rightarrow> ([(PreferNoEvictionAnnotation, [CHR 0x22] @ ''true'' @ [CHR 0x22])], [])
      | Some False \<Rightarrow> ([], [PreferNoEvictionAnnotation]))"

definition meta_section :: "string \<Rightarrow> labels \<Rightarrow> string list" where
  "meta_section fld set_map =
     (if set_map = [] then []
      else (''  '' @ fld @ '':'') # map (\<lambda>k. ''    '' @ quoteKey k @ '': '' @ label_get set_map k) (sorted_keys set_map))"

definition applyTemplateMeta :: "ynode \<Rightarrow> labels \<Rightarrow> string list \<Rightarrow> vm_edit \<Rightarrow> line_editor \<Rightarrow> line_editor" where
  "applyTemplateMeta vm labelSet labelRemove e ed =
     (let (annSet, annRemove) = drsAnnotationEdits e; tmpl = get (get (Some vm) ''spec'') ''template'' in
      if labelSet = [] \<and> labelRemove = [] \<and> annSet = [] \<and> annRemove = [] then ed
      else if tmpl = None then ed
      else
        (case mappingField tmpl ''metadata'' ed of
           (Some meta, ed1) \<Rightarrow>
             applyMapEdits (Some meta) ''annotations'' annSet annRemove (applyMapEdits (Some meta) ''labels'' labelSet labelRemove ed1)
         | (None, ed1) \<Rightarrow>
             (let block = [''metadata:''] @ meta_section ''labels'' labelSet @ meta_section ''annotations'' annSet in
              if length block = 1 then ed1 else insertBlock tmpl block ed1)))"

section \<open>Disks and networks\<close>

definition trim_newlines :: "string \<Rightarrow> string" where
  "trim_newlines s = rev (dropWhile (\<lambda>c. c = CHR 0x0A) (rev s))"

definition blankDVTemplate :: "yaml_lib \<Rightarrow> string \<Rightarrow> string \<Rightarrow> string \<Rightarrow> string list" where
  "blankDVTemplate yl dv sz cls =
     (case split_on (CHR 0x0A) (trim_newlines (yl_encode yl (BlankDataVolumeTemplate dv sz cls))) of
        [] \<Rightarrow> []
      | l # ls \<Rightarrow> (''- '' @ l) # map (\<lambda>x. ''  '' @ x) ls)"

definition add_disk :: "yaml_lib \<Rightarrow> ynode option \<Rightarrow> ynode option \<Rightarrow> ynode option \<Rightarrow> string \<Rightarrow> disk_add \<Rightarrow>
    line_editor \<times> string list \<Rightarrow> line_editor \<times> string list" where
  "add_disk yl templates tmplSpec devices vmname d st =
     (let (ed, created) = st;
          dv = vmname @ ''-'' @ da_name d;
          sz = (if da_size d = '''' then ''10Gi'' else da_size d);
          ed1 = appendItem (get devices ''disks'') [''- name: '' @ da_name d, ''  disk:'', ''    bus: virtio''] ed;
          ed2 = appendItem (get tmplSpec ''volumes'') [''- name: '' @ da_name d, ''  dataVolume:'', ''    name: '' @ dv] ed1;
          item = blankDVTemplate yl dv sz (da_class d)
      in if templates \<noteq> None then (appendItem templates item ed2, created) else (ed2, created @ item))"

definition applyAddDisks :: "yaml_lib \<Rightarrow> ynode option \<Rightarrow> ynode option \<Rightarrow> ynode option \<Rightarrow> string \<Rightarrow> disk_add list \<Rightarrow> line_editor \<Rightarrow> line_editor" where
  "applyAddDisks yl spec tmplSpec devices vmname adds ed =
     (case fold (add_disk yl (get spec ''dataVolumeTemplates'') tmplSpec devices vmname) adds (ed, []) of
        (ed1, created) \<Rightarrow> if created \<noteq> [] then insertBlock spec (''dataVolumeTemplates:'' # created) ed1 else ed1)"

definition removeDisk :: "ynode option \<Rightarrow> ynode option \<Rightarrow> ynode option \<Rightarrow> string \<Rightarrow> line_editor \<Rightarrow> line_editor" where
  "removeDisk spec tmplSpec devices name ed =
     (let volumes = get tmplSpec ''volumes'';
          dv = get (get (namedItem volumes name) ''dataVolume'') ''name'';
          ed1 = (case dv of None \<Rightarrow> ed | Some n \<Rightarrow> removeTemplateNamed (get spec ''dataVolumeTemplates'') (yn_value n) ed)
      in removeNamedItem volumes name (removeNamedItem (get devices ''disks'') name ed1))"

definition add_network :: "ynode option \<Rightarrow> ynode option \<Rightarrow> string \<Rightarrow> line_editor \<Rightarrow> line_editor" where
  "add_network tmplSpec devices n ed =
     (let iface = InterfaceName n;
          ed1 = appendItem (get devices ''interfaces'') [''- name: '' @ iface, ''  bridge: {}''] ed
      in appendItem (get tmplSpec ''networks'') [''- name: '' @ iface, ''  multus:'', ''    networkName: '' @ n] ed1)"

definition remove_network :: "ynode option \<Rightarrow> ynode option \<Rightarrow> string \<Rightarrow> line_editor \<Rightarrow> line_editor" where
  "remove_network tmplSpec devices name ed =
     removeNamedItem (get tmplSpec ''networks'') name (removeNamedItem (get devices ''interfaces'') name ed)"

definition applyDisksNetworks :: "yaml_lib \<Rightarrow> ynode \<Rightarrow> vm_edit \<Rightarrow> line_editor \<Rightarrow> line_editor" where
  "applyDisksNetworks yl vm e ed =
     (if ve_add_disks e = [] \<and> ve_remove_disks e = [] \<and> ve_add_networks e = [] \<and> ve_remove_networks e = [] then ed
      else
        (let tmplSpec = templateSpecNode vm; spec = get (Some vm) ''spec''; devices = get (get tmplSpec ''domain'') ''devices'' in
         if tmplSpec = None then ed
         else
           (let ed1 = applyAddDisks yl spec tmplSpec devices (nodeValue (get (get (Some vm) ''metadata'') ''name'')) (ve_add_disks e) ed;
                ed2 = fold (removeDisk spec tmplSpec devices) (ve_remove_disks e) ed1;
                ed3 = fold (add_network tmplSpec devices) (ve_add_networks e) ed2
            in fold (remove_network tmplSpec devices) (ve_remove_networks e) ed3)))"

section \<open>Volume migrations\<close>

text \<open>The name without a trailing \<open>-mig-N\<close>.\<close>

definition strip_mig :: "string \<Rightarrow> string" where
  "strip_mig s =
     (let digits = takeWhile is_digit (rev s); base = drop (length digits) (rev s) in
      if digits \<noteq> [] \<and> has_prefix base (rev ''-mig-'') then rev (drop 5 base) else s)"

definition mig_name :: "string \<Rightarrow> nat \<Rightarrow> string" where
  "mig_name base n = base @ ''-mig-'' @ nat_to_dec n"

text \<open>The source counts up until a name is free; one of the first \<open>length taken + 1\<close> is.\<close>

definition first_free :: "string \<Rightarrow> string list \<Rightarrow> string option" where
  "first_free base taken = map_option (mig_name base) (find (\<lambda>n. mig_name base n \<notin> set taken) [1..<length taken + 2])"

definition taken_names :: "string \<Rightarrow> ynode \<Rightarrow> string list" where
  "taken_names old templates = old # map (item_id True) (yn_content templates)"

definition nextDVName :: "string \<Rightarrow> ynode \<Rightarrow> string option" where
  "nextDVName old templates = first_free (strip_mig old) (taken_names old templates)"

definition migrateOneVolume :: "ynode \<Rightarrow> ynode \<Rightarrow> volume_migration \<Rightarrow> line_editor \<Rightarrow> bool \<times> line_editor" where
  "migrateOneVolume templates volumes m ed =
     (let dvName = get (get (namedItem (Some volumes) (vo_name m)) ''dataVolume'') ''name'';
          tmpl = templateNamed (Some templates) (nodeValue dvName);
          tmplSpec = get tmpl ''spec'';
          storage = (if get tmplSpec ''storage'' \<noteq> None then get tmplSpec ''storage'' else get tmplSpec ''pvc'');
          newName = the (nextDVName (nodeValue dvName) templates)
      in if dvName = None \<or> storage = None then (False, ed)
         else
           (let ed1 = setScalarAt dvName newName (setScalarAt (get (get tmpl ''metadata'') ''name'') newName ed);
                ed2 = (if get storage ''storageClassName'' \<noteq> None
                       then setScalarAt (get storage ''storageClassName'') (vo_class m) ed1
                       else insertChild storage ''storageClassName'' (vo_class m) ed1);
                ed3 = (if get (get tmplSpec ''source'') ''blank'' = None
                       then insertBlock tmplSpec [''source:'', ''  blank: {}''] (deleteChild tmplSpec ''sourceRef'' (deleteChild tmplSpec ''source'' ed2))
                       else ed2)
            in (True, ed3)))"

definition migrate_step :: "ynode \<Rightarrow> ynode \<Rightarrow> volume_migration \<Rightarrow> bool \<times> line_editor \<Rightarrow> bool \<times> line_editor" where
  "migrate_step templates volumes m st =
     (case migrateOneVolume templates volumes m (snd st) of (applied, ed) \<Rightarrow> (fst st \<or> applied, ed))"

definition applyVolumeMigrations :: "ynode \<Rightarrow> volume_migration list \<Rightarrow> line_editor \<Rightarrow> line_editor" where
  "applyVolumeMigrations vm migrations ed =
     (let spec = get (Some vm) ''spec'' in
      if migrations = [] then ed
      else
        (case (get spec ''dataVolumeTemplates'', get (templateSpecNode vm) ''volumes'') of
           (Some templates, Some volumes) \<Rightarrow>
             (case fold (migrate_step templates volumes) migrations (False, ed) of
                (applied, ed1) \<Rightarrow>
                  (if \<not> applied then ed1
                   else if get spec ''updateVolumesStrategy'' \<noteq> None
                     then setScalarAt (get spec ''updateVolumesStrategy'') ''Migration'' ed1
                   else insertChild spec ''updateVolumesStrategy'' ''Migration'' ed1))
         | _ \<Rightarrow> ed))"

section \<open>Placement\<close>

definition term_lines :: "placement_group \<Rightarrow> string list" where
  "term_lines g = [''      - labelSelector:'', ''          matchLabels:'',
     ''            '' @ quoteKey (GroupLabelPrefix @ pg_name g) @ '': '' @ pg_mode g, ''        topologyKey: '' @ hostnameLabel]"

definition weighted_lines :: "placement_group \<Rightarrow> string list" where
  "weighted_lines g = [''      - weight: 100'', ''        podAffinityTerm:'', ''          labelSelector:'', ''            matchLabels:'',
     ''              '' @ quoteKey (GroupLabelPrefix @ pg_name g) @ '': '' @ pg_mode g, ''          topologyKey: '' @ hostnameLabel]"

definition podAffinitySection :: "string \<Rightarrow> placement_group list \<Rightarrow> string list" where
  "podAffinitySection fld gs =
     (let req = filter pg_strict gs; pref = filter (\<lambda>g. \<not> pg_strict g) gs in
      if req = [] \<and> pref = [] then []
      else [''  '' @ fld @ '':''] @
        (if req = [] then [] else ''    requiredDuringSchedulingIgnoredDuringExecution:'' # concat (map term_lines req)) @
        (if pref = [] then [] else ''    preferredDuringSchedulingIgnoredDuringExecution:'' # concat (map weighted_lines pref)))"

definition affinityBlock :: "string list \<Rightarrow> placement_group list \<Rightarrow> string list" where
  "affinityBlock pin gs =
     (let together = filter (\<lambda>g. pg_mode g = ''together'') gs; apart = filter (\<lambda>g. pg_mode g \<noteq> ''together'') gs in
      if pin = [] \<and> together = [] \<and> apart = [] then []
      else [''affinity:''] @
        (if pin = [] then []
         else [''  nodeAffinity:'', ''    requiredDuringSchedulingIgnoredDuringExecution:'', ''      nodeSelectorTerms:'',
               ''        - matchExpressions:'', ''            - key: '' @ hostnameLabel, ''              operator: In'',
               ''              values:''] @ map (\<lambda>h. ''                - '' @ h) pin) @
        podAffinitySection ''podAffinity'' together @ podAffinitySection ''podAntiAffinity'' apart)"

definition decodeStringMap :: "yaml_lib \<Rightarrow> ynode option \<Rightarrow> labels" where
  "decodeStringMap yl n = (case Option.bind n (yl_map yl) of None \<Rightarrow> [] | Some m \<Rightarrow> m)"

definition currentScheduling :: "yaml_lib \<Rightarrow> ynode \<Rightarrow> vm_scheduling option \<times> bool" where
  "currentScheduling yl vm =
     (let tmpl = get (get (Some vm) ''spec'') ''template'';
          ls = decodeStringMap yl (get (get tmpl ''metadata'') ''labels'');
          sel = decodeStringMap yl (get (get tmpl ''spec'') ''nodeSelector'')
      in case get (get tmpl ''spec'') ''affinity'' of
           None \<Rightarrow> schedulingFromParts ls sel None
         | Some n \<Rightarrow>
             (case yl_affinity yl n of
                None \<Rightarrow> (Some \<lparr>sc_pin = [], sc_groups = [], sc_custom = True\<rparr>, False)
              | Some a \<Rightarrow> schedulingFromParts ls sel (Some a)))"

text \<open>The groups and the label settings after the groups to add, in order; the first refused one is the error.\<close>

fun add_groups :: "placement_group list \<Rightarrow> groups \<times> labels \<Rightarrow> edit_error + groups \<times> labels" where
  "add_groups [] st = Inr st"
| "add_groups (g # gs) st =
     (case RequireDNS1123 ''group name'' (pg_name g) of
        Some e \<Rightarrow> Inl (EditInvalid e)
      | None \<Rightarrow>
          (if pg_mode g \<noteq> ''together'' \<and> pg_mode g \<noteq> ''apart''
           then Inl (EditInvalid (''group mode '' @ go_quote (pg_mode g) @ '' must be together or apart''))
           else add_groups gs (put_group g (fst st), (GroupLabelPrefix @ pg_name g, pg_mode g) # snd st)))"

definition drop_group :: "string \<Rightarrow> groups \<Rightarrow> groups" where
  "drop_group n m = filter (\<lambda>p. fst p \<noteq> n) m"

fun trim_hosts :: "string list \<Rightarrow> edit_error + string list" where
  "trim_hosts [] = Inr []"
| "trim_hosts (h # hs) =
     (if TrimSpace h = '''' then Inl (EditInvalid ''empty host in pin list'')
      else (case trim_hosts hs of Inl e \<Rightarrow> Inl e | Inr ts \<Rightarrow> Inr (TrimSpace h # ts)))"

text \<open>The policy the edit asks for: the pin to write, whether the node selector's is dropped, the groups and the
  label edits.\<close>

definition wanted_scheduling :: "vm_edit \<Rightarrow> vm_scheduling option \<Rightarrow> bool \<Rightarrow>
    edit_error + (string list \<times> bool \<times> groups \<times> labels \<times> string list)" where
  "wanted_scheduling e cur viaSel =
     (let (gs0, pin0) = (case cur of None \<Rightarrow> ([], []) | Some c \<Rightarrow> (fold put_group (sc_groups c) [], sc_pin c)) in
      case add_groups (ve_add_groups e) (gs0, []) of
        Inl err \<Rightarrow> Inl err
      | Inr (gs1, set_map) \<Rightarrow>
          (let gs2 = fold drop_group (ve_remove_groups e) gs1;
               removed = map (\<lambda>n. GroupLabelPrefix @ n) (ve_remove_groups e)
           in case ve_pin e of
                None \<Rightarrow> Inr (if viaSel then [] else pin0, False, gs2, set_map, removed)
              | Some hosts \<Rightarrow>
                  (case trim_hosts hosts of
                     Inl err \<Rightarrow> Inl err
                   | Inr pin \<Rightarrow> Inr (pin, True, gs2, set_map, removed))))"

definition applySchedulingRules :: "yaml_lib \<Rightarrow> ynode \<Rightarrow> vm_edit \<Rightarrow> line_editor \<Rightarrow> edit_error + (labels \<times> string list) \<times> line_editor" where
  "applySchedulingRules yl vm e ed =
     (let tmplSpec = templateSpecNode vm; (cur, viaSel) = currentScheduling yl vm in
      if ve_pin e = None \<and> ve_add_groups e = [] \<and> ve_remove_groups e = [] then Inr (([], []), ed)
      else if tmplSpec = None then Inl (EditInvalid ''VM has no template spec'')
      else if cur \<noteq> None \<and> sc_custom (the cur) then
        Inl (EditConflict ''the VM carries hand-written affinity or node selection; edit it in git directly'')
      else
        (case wanted_scheduling e cur viaSel of
           Inl err \<Rightarrow> Inl err
         | Inr (pin, dropSel, gs, set_map, removed) \<Rightarrow>
             (let ed1 = (if dropSel then applyMapEdits tmplSpec ''nodeSelector'' [] [hostnameLabel] ed else ed);
                  ed2 = deleteChild tmplSpec ''affinity'' ed1;
                  block = affinityBlock pin (sortedGroups gs)
              in Inr ((set_map, removed), if block = [] then ed2 else insertBlock tmplSpec block ed2))))"

section \<open>The edit\<close>

definition edit_head :: "ynode \<Rightarrow> vm_edit \<Rightarrow> line_editor \<Rightarrow> line_editor" where
  "edit_head vm e ed =
     (let ed1 = (case ve_power e of None \<Rightarrow> ed | Some p \<Rightarrow> applyPower vm p ed);
          ed2 = applySizing vm e ed1;
          ed3 = (case ve_preference e of None \<Rightarrow> ed2 | Some p \<Rightarrow> applyRef vm ''preference'' p ed2)
      in applyMetadata vm e ed3)"

definition edit_tail :: "yaml_lib \<Rightarrow> ynode \<Rightarrow> vm_edit \<Rightarrow> labels \<times> string list \<Rightarrow> line_editor \<Rightarrow> line_editor" where
  "edit_tail yl vm e sched ed =
     (let ed1 = applyTemplateMeta vm (fst sched) (snd sched) e ed;
          ed2 = (case ve_eviction e of None \<Rightarrow> ed1 | Some s \<Rightarrow> applyEvictionStrategy vm s ed1);
          ed3 = applyDisksNetworks yl vm e ed2
      in applyVolumeMigrations vm (ve_migrate e) ed3)"

definition ApplyEdit :: "yaml_lib \<Rightarrow> string \<Rightarrow> string \<Rightarrow> string \<Rightarrow> vm_edit \<Rightarrow> edit_error + string" where
  "ApplyEdit yl content ns name e =
     (case findVM (yl_nodes yl content) ns name of
        Inl err \<Rightarrow> Inl err
      | Inr vm \<Rightarrow>
          (case newLineEditor content of
             None \<Rightarrow> Inl OddBreaks
           | Some ed0 \<Rightarrow>
               (let ed1 = edit_head vm e ed0 in
                if le_panicked ed1 then Inl Panicked
                else
                  (case applySchedulingRules yl vm e ed1 of
                     Inl err \<Rightarrow> Inl err
                   | Inr (sched, ed2) \<Rightarrow>
                       (let ed3 = edit_tail yl vm e sched ed2; out = editor_bytes ed3 in
                        if le_panicked ed3 then Inl Panicked
                        else if ParseVMs '''' (yl_docs yl out) ns = None then Inl WouldCorrupt
                        else Inr out)))))"

end
