(* ===== verification/Manifest_Semantic.thy ===== *)
theory Manifest_Semantic
  imports Model_VM
begin

text \<open>
  \<open>internal/manifest/semantic.go\<close>: edits and drift as readable changes, and the edit that makes git match what
  runs. A Go map walked in any order and then sorted is walked in the order of its keys.
\<close>

section \<open>Pieces\<close>

definition mk_change :: "string \<Rightarrow> string \<Rightarrow> string \<Rightarrow> string \<Rightarrow> change" where
  "mk_change fld act from_val to_val = \<lparr>ch_field = fld, ch_action = act, ch_from = from_val, ch_to = to_val, ch_restart = False\<rparr>"

definition needsRestart :: "string \<Rightarrow> bool" where
  "needsRestart fld =
     (fld \<in> {''CPU'', ''Memory'', ''Instance type'', ''Preference'', ''Eviction strategy'', ''Disk'', ''Network'', ''Host pinning''} \<or>
      has_prefix fld ''Placement group '')"

definition vcpu_text :: "int \<Rightarrow> string" where
  "vcpu_text n = itoa n @ '' vCPU''"

definition orClusterDefault :: "string \<Rightarrow> string" where
  "orClusterDefault s = (if s = '''' then ''cluster default'' else s)"

definition drsLabel :: "bool \<Rightarrow> string" where
  "drsLabel excluded = (if excluded then ''excluded'' else ''rebalanced'')"

definition DiskLabel :: "string \<Rightarrow> string \<Rightarrow> string \<Rightarrow> string" where
  "DiskLabel name sz cls =
     (if cls \<noteq> '''' then name @ '' ('' @ sz @ '', '' @ cls @ '')'' else name @ '' ('' @ sz @ '')'')"

definition groupDesc :: "placement_group \<Rightarrow> string" where
  "groupDesc g =
     (let mode = (if pg_mode g = ''apart'' then ''keep apart'' else ''keep together'') in
      mode @ (if pg_strict g then '', strict'' else '', preferred''))"

section \<open>The preview of an edit\<close>

definition edit_mode :: "vm_edit \<Rightarrow> string" where
  "edit_mode e = (case ve_sizing e of None \<Rightarrow> '''' | Some m \<Rightarrow> m)"

definition uses_instancetype :: "vm \<Rightarrow> vm_edit \<Rightarrow> bool" where
  "uses_instancetype cur e =
     (if edit_mode e = ''custom'' then False
      else if edit_mode e = ''instancetype'' then True
      else vm_instancetype cur \<noteq> '''' \<or> (ve_instancetype e \<noteq> None \<and> ve_instancetype e \<noteq> Some ''''))"

definition sizingChanges :: "vm \<Rightarrow> vm_edit \<Rightarrow> change list" where
  "sizingChanges cur e =
     (if uses_instancetype cur e then
        (case ve_instancetype e of
           None \<Rightarrow> []
         | Some it \<Rightarrow> if it \<noteq> vm_instancetype cur then [mk_change ''Instance type'' ''change'' (vm_instancetype cur) it] else []) @
        (if vm_cpu_cores cur \<noteq> 0 then [mk_change ''CPU'' ''remove'' (vcpu_text (vm_cpu_cores cur)) ''''] else []) @
        (if vm_memory cur \<noteq> '''' then [mk_change ''Memory'' ''remove'' (vm_memory cur) ''''] else [])
      else
        (if vm_instancetype cur \<noteq> '''' then [mk_change ''Instance type'' ''remove'' (vm_instancetype cur) ''''] else []) @
        (case ve_cpu_cores e of
           None \<Rightarrow> []
         | Some n \<Rightarrow> if n \<noteq> vm_cpu_cores cur then [mk_change ''CPU'' ''change'' (vcpu_text (vm_cpu_cores cur)) (vcpu_text n)] else []) @
        (case ve_memory e of
           None \<Rightarrow> []
         | Some m \<Rightarrow> if m \<noteq> vm_memory cur then [mk_change ''Memory'' ''change'' (vm_memory cur) m] else []))"

definition cur_groups :: "vm \<Rightarrow> (string \<times> placement_group) list" where
  "cur_groups cur = (case vm_scheduling cur of None \<Rightarrow> [] | Some s \<Rightarrow> rev (map (\<lambda>g. (pg_name g, g)) (sc_groups s)))"

definition cur_pin :: "vm \<Rightarrow> string list" where
  "cur_pin cur = (case vm_scheduling cur of None \<Rightarrow> [] | Some s \<Rightarrow> sc_pin s)"

definition add_group_change :: "vm \<Rightarrow> placement_group \<Rightarrow> change list" where
  "add_group_change cur g =
     (case map_of (cur_groups cur) (pg_name g) of
        Some old \<Rightarrow>
          (if groupDesc old \<noteq> groupDesc g
           then [mk_change (''Placement group '' @ pg_name g) ''change'' (groupDesc old) (groupDesc g)] else [])
      | None \<Rightarrow> [mk_change (''Placement group '' @ pg_name g) ''add'' '''' (groupDesc g)])"

definition remove_group_change :: "vm \<Rightarrow> string \<Rightarrow> change list" where
  "remove_group_change cur n =
     (case map_of (cur_groups cur) n of
        Some old \<Rightarrow> [mk_change (''Placement group '' @ n) ''remove'' (groupDesc old) '''']
      | None \<Rightarrow> [])"

definition pin_change :: "vm \<Rightarrow> string list option \<Rightarrow> change list" where
  "pin_change cur pin =
     (case pin of
        None \<Rightarrow> []
      | Some hosts \<Rightarrow>
          (let f = join_with (cur_pin cur) '', ''; t = join_with hosts '', '' in
           if f = t then []
           else if f = '''' then [mk_change ''Host pinning'' ''add'' '''' t]
           else if t = '''' then [mk_change ''Host pinning'' ''remove'' f '''']
           else [mk_change ''Host pinning'' ''change'' f t]))"

definition schedulingChanges :: "vm \<Rightarrow> vm_edit \<Rightarrow> change list" where
  "schedulingChanges cur e =
     concat (map (add_group_change cur) (ve_add_groups e)) @
     concat (map (remove_group_change cur) (sort (ve_remove_groups e))) @
     pin_change cur (ve_pin e)"

definition set_label_change :: "vm \<Rightarrow> labels \<Rightarrow> string \<Rightarrow> change list" where
  "set_label_change cur sm k =
     (case map_of (vm_labels cur) k of
        Some old \<Rightarrow> if old \<noteq> label_get sm k then [mk_change (''Label '' @ k) ''change'' old (label_get sm k)] else []
      | None \<Rightarrow> [mk_change (''Label '' @ k) ''add'' '''' (label_get sm k)])"

definition remove_label_change :: "vm \<Rightarrow> string \<Rightarrow> change list" where
  "remove_label_change cur k =
     (case map_of (vm_labels cur) k of
        Some old \<Rightarrow> [mk_change (''Label '' @ k) ''remove'' old '''']
      | None \<Rightarrow> [])"

definition migration_change :: "vm \<Rightarrow> volume_migration \<Rightarrow> change" where
  "migration_change cur mv =
     mk_change (''Disk '' @ vo_name mv @ '' storage'') ''change''
       (orClusterDefault (case find (\<lambda>d. dk_name d = vo_name mv) (vm_disks cur) of None \<Rightarrow> '''' | Some d \<Rightarrow> dk_class d)) (vo_class mv)"

definition ChangesForEdit :: "vm \<Rightarrow> vm_edit \<Rightarrow> change list" where
  "ChangesForEdit cur e =
     map (\<lambda>c. c\<lparr>ch_restart := needsRestart (ch_field c)\<rparr>)
      ((case ve_power e of None \<Rightarrow> [] | Some p \<Rightarrow> if p \<noteq> vm_power cur then [mk_change ''Power'' ''change'' (vm_power cur) p] else []) @
       sizingChanges cur e @
       (case ve_preference e of None \<Rightarrow> []
        | Some p \<Rightarrow> if p \<noteq> vm_preference cur then [mk_change ''Preference'' ''change'' (vm_preference cur) p] else []) @
       concat (map (set_label_change cur (ve_set_labels e)) (sorted_keys (ve_set_labels e))) @
       concat (map (remove_label_change cur) (sort (ve_remove_labels e))) @
       (case ve_drs_exclude e of None \<Rightarrow> []
        | Some x \<Rightarrow> if x \<noteq> vm_drs_exclude cur
            then [mk_change ''DRS'' ''change'' (if x then ''rebalanced'' else ''excluded'') (if x then ''excluded'' else ''rebalanced'')] else []) @
       (case ve_eviction e of None \<Rightarrow> []
        | Some s \<Rightarrow> if s \<noteq> vm_eviction cur
            then [mk_change ''Eviction strategy'' ''change'' (orClusterDefault (vm_eviction cur)) (orClusterDefault s)] else []) @
       schedulingChanges cur e @
       map (\<lambda>d. mk_change ''Disk'' ''add'' '''' (DiskLabel (da_name d) (da_size d) (da_class d))) (ve_add_disks e) @
       map (\<lambda>n. mk_change ''Disk'' ''remove'' n '''') (ve_remove_disks e) @
       map (\<lambda>n. mk_change ''Network'' ''add'' '''' n) (ve_add_networks e) @
       map (\<lambda>n. mk_change ''Network'' ''remove'' n '''') (ve_remove_networks e) @
       map (migration_change cur) (ve_migrate e))"

section \<open>Drift\<close>

definition cmp :: "string \<Rightarrow> string \<Rightarrow> string \<Rightarrow> change list" where
  "cmp fld av bv = (if av \<noteq> bv then [mk_change fld ''change'' av bv] else [])"

definition groupDescsOf :: "vm \<Rightarrow> string list" where
  "groupDescsOf v = (case vm_scheduling v of None \<Rightarrow> []
     | Some s \<Rightarrow> map (\<lambda>g. pg_name g @ '' ('' @ groupDesc g @ '')'') (sc_groups s))"

definition disk_label :: "disk \<Rightarrow> string" where
  "disk_label d = (if dk_size d \<noteq> '''' then dk_name d @ '' ('' @ dk_size d @ '')'' else dk_name d)"

definition diskNamesOf :: "vm \<Rightarrow> string list" where
  "diskNamesOf v = map disk_label (vm_disks v)"

definition nicNamesOf :: "vm \<Rightarrow> string list" where
  "nicNamesOf v = map nc_name (vm_networks v)"

definition diffNamedSet :: "string \<Rightarrow> string list \<Rightarrow> string list \<Rightarrow> change list" where
  "diffNamedSet fld xs ys =
     map (\<lambda>x. mk_change fld ''remove'' x '''') (filter (\<lambda>x. x \<notin> set ys) xs) @
     map (\<lambda>y. mk_change fld ''add'' '''' y) (filter (\<lambda>y. y \<notin> set xs) ys)"

definition label_diff :: "labels \<Rightarrow> labels \<Rightarrow> string \<Rightarrow> change list" where
  "label_diff la lb k =
     (case map_of lb k of
        Some bv \<Rightarrow> cmp (''Label '' @ k) (label_get la k) bv
      | None \<Rightarrow> [mk_change (''Label '' @ k) ''remove'' (label_get la k) ''''])"

definition DiffVMs :: "vm \<Rightarrow> vm \<Rightarrow> change list" where
  "DiffVMs x y =
     cmp ''Power'' (vm_power x) (vm_power y) @
     (if vm_cpu_cores x \<noteq> vm_cpu_cores y then cmp ''CPU'' (vcpu_text (vm_cpu_cores x)) (vcpu_text (vm_cpu_cores y)) else []) @
     cmp ''Memory'' (vm_memory x) (vm_memory y) @
     cmp ''Instance type'' (vm_instancetype x) (vm_instancetype y) @
     cmp ''Preference'' (vm_preference x) (vm_preference y) @
     (if vm_drs_exclude x \<noteq> vm_drs_exclude y then cmp ''DRS'' (drsLabel (vm_drs_exclude x)) (drsLabel (vm_drs_exclude y)) else []) @
     (if vm_eviction x \<noteq> vm_eviction y
      then cmp ''Eviction strategy'' (orClusterDefault (vm_eviction x)) (orClusterDefault (vm_eviction y)) else []) @
     concat (map (label_diff (vm_labels x) (vm_labels y)) (sorted_keys (vm_labels x))) @
     map (\<lambda>k. mk_change (''Label '' @ k) ''add'' '''' (label_get (vm_labels y) k))
       (filter (\<lambda>k. map_of (vm_labels x) k = None) (sorted_keys (vm_labels y))) @
     cmp ''Host pinning'' (join_with (cur_pin x) '', '') (join_with (cur_pin y) '', '') @
     diffNamedSet ''Placement group'' (groupDescsOf x) (groupDescsOf y) @
     diffNamedSet ''Disk'' (diskNamesOf x) (diskNamesOf y) @
     diffNamedSet ''Network'' (nicNamesOf x) (nicNamesOf y)"

section \<open>Adoption\<close>

definition diskNameSet :: "vm \<Rightarrow> labels" where
  "diskNameSet v = rev (map (\<lambda>d. (dk_name d, dk_size d)) (vm_disks v))"

definition nicNameSet :: "vm \<Rightarrow> labels" where
  "nicNameSet v = rev (map (\<lambda>n. (nc_name n, nc_network n)) (vm_networks v))"

definition addedRemoved :: "labels \<Rightarrow> labels \<Rightarrow> string list \<times> string list" where
  "addedRemoved f t =
     (filter (\<lambda>n. map_of f n = None) (sorted_keys t), filter (\<lambda>n. map_of t n = None) (sorted_keys f))"

definition EditToMatch :: "vm \<Rightarrow> vm \<Rightarrow> vm_edit" where
  "EditToMatch f t =
     (let disks = addedRemoved (diskNameSet f) (diskNameSet t); nets = addedRemoved (nicNameSet f) (nicNameSet t) in
      empty_edit\<lparr>
        ve_power := (if vm_power f \<noteq> vm_power t \<and> vm_power t \<noteq> PowerUnknown then Some (vm_power t) else None),
        ve_cpu_cores := (if vm_cpu_cores f \<noteq> vm_cpu_cores t \<and> vm_cpu_cores t \<noteq> 0 then Some (vm_cpu_cores t) else None),
        ve_memory := (if vm_memory f \<noteq> vm_memory t \<and> vm_memory t \<noteq> '''' then Some (vm_memory t) else None),
        ve_instancetype := (if vm_instancetype f \<noteq> vm_instancetype t \<and> vm_instancetype t \<noteq> '''' then Some (vm_instancetype t) else None),
        ve_preference := (if vm_preference f \<noteq> vm_preference t \<and> vm_preference t \<noteq> '''' then Some (vm_preference t) else None),
        ve_drs_exclude := (if vm_drs_exclude f \<noteq> vm_drs_exclude t then Some (vm_drs_exclude t) else None),
        ve_eviction := (if vm_eviction f \<noteq> vm_eviction t then Some (vm_eviction t) else None),
        ve_set_labels := map (\<lambda>k. (k, label_get (vm_labels t) k))
          (filter (\<lambda>k. label_get (vm_labels f) k \<noteq> label_get (vm_labels t) k) (sorted_keys (vm_labels t))),
        ve_remove_labels := filter (\<lambda>k. map_of (vm_labels t) k = None) (sorted_keys (vm_labels f)),
        ve_add_disks := map (\<lambda>n. \<lparr>da_name = n, da_size = label_get (diskNameSet t) n, da_class = ''''\<rparr>) (fst disks),
        ve_remove_disks := snd disks,
        ve_add_networks := map (label_get (nicNameSet t)) (fst nets),
        ve_remove_networks := snd nets\<rparr>)"

section \<open>What adoption covers\<close>

definition fields_of :: "change list \<Rightarrow> string set" where
  "fields_of cs = set (map ch_field cs)"

lemma fields_of_append [simp]: "fields_of (xs @ ys) = fields_of xs \<union> fields_of ys"
  by (simp add: fields_of_def image_Un)

lemma fields_of_Nil [simp]: "fields_of [] = {}"
  by (simp add: fields_of_def)

lemma fields_of_Cons [simp]: "fields_of (mk_change f a x y # cs) = insert f (fields_of cs)"
  by (simp add: fields_of_def mk_change_def)

lemma fields_of_cmp [simp]: "fields_of (cmp f x y) = (if x \<noteq> y then {f} else {})"
  by (simp add: cmp_def)

lemma fields_of_map [simp]: "fields_of (map (\<lambda>x. mk_change (f x) (a x) (p x) (q x)) xs) = f ` set xs"
  by (auto simp: fields_of_def mk_change_def)

lemma fields_of_concat: "fields_of (concat (map g xs)) = (\<Union>x\<in>set xs. fields_of (g x))"
  by (auto simp: fields_of_def)

lemma fields_of_restart [simp]: "fields_of (map (\<lambda>c. c\<lparr>ch_restart := needsRestart (ch_field c)\<rparr>) cs) = fields_of cs"
  by (auto simp: fields_of_def)

lemma set_sorted_keys [simp]: "set (sorted_keys m) = dom (map_of m)"
  by (auto simp: sorted_keys_def dom_map_of_conv_image_fst)

lemma vcpu_text_inj: "vcpu_text m = vcpu_text n \<longleftrightarrow> m = n"
  by (auto simp: vcpu_text_def dest: itoa_inj)

text \<open>
  Adoption can express the drift: what the live side leaves unset is not what drifted, sizing is in one
  representation, a label to add has a value, a disk both sides have is shown with one size, live disks have names of their
  own and no space in any name, a disk to add has a size, an adapter to add has the name the editor gives it, and placement (which
  adoption leaves out) agrees.
\<close>

definition adoptable :: "vm \<Rightarrow> vm \<Rightarrow> bool" where
  "adoptable f t =
     ((vm_power f \<noteq> vm_power t \<longrightarrow> vm_power t = PowerOn \<or> vm_power t = PowerOff) \<and>
      (if vm_instancetype t \<noteq> '''' then vm_cpu_cores t = 0 \<and> vm_memory t = ''''
       else vm_instancetype f = '''' \<and> (vm_cpu_cores f \<noteq> vm_cpu_cores t \<longrightarrow> vm_cpu_cores t \<noteq> 0) \<and>
         (vm_memory f \<noteq> vm_memory t \<longrightarrow> vm_memory t \<noteq> '''')) \<and>
      (vm_preference f \<noteq> vm_preference t \<longrightarrow> vm_preference t \<noteq> '''') \<and>
      vm_eviction f \<noteq> ''cluster default'' \<and> vm_eviction t \<noteq> ''cluster default'' \<and>
      list_all (\<lambda>(k, v). v \<noteq> '''' \<or> map_of (vm_labels f) k \<noteq> None) (vm_labels t) \<and>
      join_with (cur_pin f) '', '' = join_with (cur_pin t) '', '' \<and> set (groupDescsOf f) = set (groupDescsOf t) \<and>
      list_all (\<lambda>d. list_all (\<lambda>d'. dk_name d = dk_name d' \<longrightarrow> dk_size d = dk_size d') (vm_disks t)) (vm_disks f) \<and>
      list_all (\<lambda>d. CHR '' '' \<notin> set (dk_name d)) (vm_disks f @ vm_disks t) \<and> distinct (map dk_name (vm_disks t)) \<and>
      list_all (\<lambda>d. dk_name d \<notin> dk_name ` set (vm_disks f) \<longrightarrow> dk_size d \<noteq> '''') (vm_disks t) \<and>
      list_all (\<lambda>n. nc_name n \<notin> nc_name ` set (vm_networks f) \<longrightarrow> nc_name n = InterfaceName (nc_network n)) (vm_networks t))"

lemma sizing_fields:
  assumes "adoptable f t"
  shows "fields_of (sizingChanges f (EditToMatch f t)) =
    (if vm_cpu_cores f \<noteq> vm_cpu_cores t then {''CPU''} else {}) \<union> (if vm_memory f \<noteq> vm_memory t then {''Memory''} else {}) \<union>
    (if vm_instancetype f \<noteq> vm_instancetype t then {''Instance type''} else {})"
  using assms
  by (auto simp: adoptable_def sizingChanges_def uses_instancetype_def edit_mode_def EditToMatch_def empty_edit_def Let_def split: if_splits)

lemma map_of_keyed: "map_of (map (\<lambda>k. (k, g k)) xs) k = (if k \<in> set xs then Some (g k) else None)"
  by (induction xs) auto

lemma label_fields:
  assumes "adoptable f t"
  shows "fields_of (concat (map (set_label_change f (ve_set_labels (EditToMatch f t))) (sorted_keys (ve_set_labels (EditToMatch f t))))) \<union>
      fields_of (concat (map (remove_label_change f) (sort (ve_remove_labels (EditToMatch f t))))) =
    fields_of (concat (map (label_diff (vm_labels f) (vm_labels t)) (sorted_keys (vm_labels f)))) \<union>
    (\<lambda>k. ''Label '' @ k) ` set (filter (\<lambda>k. map_of (vm_labels f) k = None) (sorted_keys (vm_labels t)))"
proof -
  let ?lf = "map_of (vm_labels f)" and ?lt = "map_of (vm_labels t)" and ?L = "\<lambda>k. ''Label '' @ k"
  let ?sm = "ve_set_labels (EditToMatch f t)"
  have val: "?lt k = Some '''' \<Longrightarrow> ?lf k \<noteq> None" for k
    using assms map_of_SomeD[of "vm_labels t" k "''''"] by (auto simp: adoptable_def list_all_iff)
  have sm: "map_of ?sm k = (if ?lt k \<noteq> None \<and> label_get (vm_labels f) k \<noteq> label_get (vm_labels t) k
      then Some (label_get (vm_labels t) k) else None)" for k
    by (auto simp: EditToMatch_def empty_edit_def Let_def map_of_keyed)
  have one: "fields_of (set_label_change f ?sm k) = {?L k}" if "map_of ?sm k \<noteq> None" for k
    using that sm[of k] by (auto simp: set_label_change_def label_get_def split: option.splits if_splits)
  have "fields_of (concat (map (set_label_change f ?sm) (sorted_keys ?sm))) = ?L ` {k. map_of ?sm k \<noteq> None}"
    using one by (auto simp: fields_of_concat dom_def)
  moreover have "{k. map_of ?sm k \<noteq> None} = {k. ?lt k \<noteq> None \<and> ?lf k \<noteq> ?lt k}"
    by (auto simp: sm label_get_def split: option.splits dest: val)
  moreover have "fields_of (concat (map (remove_label_change f) (sort (ve_remove_labels (EditToMatch f t))))) = ?L ` {k. ?lf k \<noteq> None \<and> ?lt k = None}"
    by (auto simp: fields_of_concat remove_label_change_def EditToMatch_def empty_edit_def Let_def dom_def split: option.splits)
  moreover have "fields_of (concat (map (label_diff (vm_labels f) (vm_labels t)) (sorted_keys (vm_labels f)))) = ?L ` {k. ?lf k \<noteq> None \<and> ?lf k \<noteq> ?lt k}"
    by (auto simp: fields_of_concat label_diff_def label_get_def dom_def split: option.splits if_splits)
  moreover have "{k. ?lt k \<noteq> None \<and> ?lf k \<noteq> ?lt k} \<union> {k. ?lf k \<noteq> None \<and> ?lt k = None} =
      {k. ?lf k \<noteq> None \<and> ?lf k \<noteq> ?lt k} \<union> set (filter (\<lambda>k. ?lf k = None) (sorted_keys (vm_labels t)))"
    by (auto simp: dom_def)
  ultimately show ?thesis by (simp only: image_Un[symmetric])
qed



lemma image_agree:
  assumes "\<And>x y. x \<in> A \<Longrightarrow> y \<in> B \<Longrightarrow> f x = f y \<longleftrightarrow> g x = g y"
  shows "f ` A \<subseteq> f ` B \<longleftrightarrow> g ` A \<subseteq> g ` B"
proof -
  have "f ` A \<subseteq> f ` B \<longleftrightarrow> (\<forall>x\<in>A. \<exists>y\<in>B. f x = f y)" by auto
  also have "\<dots> \<longleftrightarrow> (\<forall>x\<in>A. \<exists>y\<in>B. g x = g y)" using assms by auto
  also have "\<dots> \<longleftrightarrow> g ` A \<subseteq> g ` B" by auto
  finally show ?thesis .
qed

lemma disk_label_name:
  assumes eq: "disk_label d = disk_label d'" and sp: "CHR '' '' \<notin> set (dk_name d)" "CHR '' '' \<notin> set (dk_name d')"
  shows "dk_name d = dk_name d'"
proof -
  define x y where "x = CHR ''('' # dk_size d @ '')''" and "y = CHR ''('' # dk_size d' @ '')''"
  have no: "p \<noteq> q @ CHR '' '' # r" if "CHR '' '' \<notin> set p" for p q r :: string
    using that by auto
  have eq': "(if dk_size d \<noteq> '''' then dk_name d @ CHR '' '' # x else dk_name d) =
     (if dk_size d' \<noteq> '''' then dk_name d' @ CHR '' '' # y else dk_name d')"
    using eq by (simp add: x_def y_def disk_label_def split: if_splits)
  note no1 = no[OF sp(1), of "dk_name d'" y] and no2 = no[OF sp(2), of "dk_name d" x]
  show ?thesis
  proof (cases "dk_size d \<noteq> '''' \<and> dk_size d' \<noteq> ''''")
    case True
    with eq' append_sep[of "dk_name d" "CHR '' ''" x "dk_name d'" y] sp show ?thesis by simp
  next
    case False
    with eq' no1 no2 show ?thesis by (simp split: if_splits)
  qed
qed

lemma disk_fields:
  assumes "adoptable f t"
  shows "(dk_name ` set (vm_disks f) = dk_name ` set (vm_disks t)) \<longleftrightarrow> set (diskNamesOf f) = set (diskNamesOf t)"
proof -
  have sp: "d \<in> set (vm_disks f) \<union> set (vm_disks t) \<Longrightarrow> CHR '' '' \<notin> set (dk_name d)" for d
    using assms by (auto simp: adoptable_def list_all_iff)
  have agree: "dk_name d = dk_name d' \<longleftrightarrow> disk_label d = disk_label d'" if "d \<in> set (vm_disks f)" "d' \<in> set (vm_disks t)" for d d'
  proof
    assume "dk_name d = dk_name d'"
    moreover have "dk_name d = dk_name d' \<Longrightarrow> dk_size d = dk_size d'" using assms that by (auto simp: adoptable_def list_all_iff)
    ultimately show "disk_label d = disk_label d'" by (simp add: disk_label_def)
  qed (use sp that in \<open>auto intro: disk_label_name\<close>)
  have agree': "dk_name d = dk_name d' \<longleftrightarrow> disk_label d = disk_label d'" if "d \<in> set (vm_disks t)" "d' \<in> set (vm_disks f)" for d d'
    using agree[OF that(2,1)] by auto
  have "dk_name ` set (vm_disks f) \<subseteq> dk_name ` set (vm_disks t) \<longleftrightarrow> disk_label ` set (vm_disks f) \<subseteq> disk_label ` set (vm_disks t)"
    by (rule image_agree) (rule agree)
  moreover have "dk_name ` set (vm_disks t) \<subseteq> dk_name ` set (vm_disks f) \<longleftrightarrow> disk_label ` set (vm_disks t) \<subseteq> disk_label ` set (vm_disks f)"
    by (rule image_agree) (rule agree')
  ultimately show ?thesis by (simp add: diskNamesOf_def set_eq_subset)
qed

lemma fields_of_named: "fields_of (diffNamedSet fld xs ys) = (if set xs = set ys then {} else {fld})"
  by (auto simp: diffNamedSet_def)

lemma name_set_dom [simp]: "dom (map_of (diskNameSet v)) = dk_name ` set (vm_disks v)" "dom (map_of (nicNameSet v)) = nc_name ` set (vm_networks v)"
  by (auto simp: diskNameSet_def nicNameSet_def dom_map_of_conv_image_fst image_image)

lemma fields_of_same: "fields_of (map (\<lambda>x. mk_change fld act (p x) (q x)) xs) = (if xs = [] then {} else {fld})"
  by (induction xs) auto

lemma added_removed_empty: "fst (addedRemoved f t) = [] \<longleftrightarrow> dom (map_of t) \<subseteq> dom (map_of f)" "snd (addedRemoved f t) = [] \<longleftrightarrow> dom (map_of f) \<subseteq> dom (map_of t)"
  by (auto simp: addedRemoved_def filter_empty_conv)

lemma match_empty:
  "ve_add_disks (EditToMatch f t) = [] \<longleftrightarrow> dk_name ` set (vm_disks t) \<subseteq> dk_name ` set (vm_disks f)"
  "ve_remove_disks (EditToMatch f t) = [] \<longleftrightarrow> dk_name ` set (vm_disks f) \<subseteq> dk_name ` set (vm_disks t)"
  "ve_add_networks (EditToMatch f t) = [] \<longleftrightarrow> nc_name ` set (vm_networks t) \<subseteq> nc_name ` set (vm_networks f)"
  "ve_remove_networks (EditToMatch f t) = [] \<longleftrightarrow> nc_name ` set (vm_networks f) \<subseteq> nc_name ` set (vm_networks t)"
  by (simp_all add: EditToMatch_def empty_edit_def Let_def added_removed_empty)

lemma device_fields:
  assumes "adoptable f t"
  shows "fields_of (map (\<lambda>d. mk_change ''Disk'' ''add'' '''' (DiskLabel (da_name d) (da_size d) (da_class d))) (ve_add_disks (EditToMatch f t))) \<union>
      fields_of (map (\<lambda>n. mk_change ''Disk'' ''remove'' n '''') (ve_remove_disks (EditToMatch f t))) =
    fields_of (diffNamedSet ''Disk'' (diskNamesOf f) (diskNamesOf t))"
    "fields_of (map (\<lambda>n. mk_change ''Network'' ''add'' '''' n) (ve_add_networks (EditToMatch f t))) \<union>
      fields_of (map (\<lambda>n. mk_change ''Network'' ''remove'' n '''') (ve_remove_networks (EditToMatch f t))) =
    fields_of (diffNamedSet ''Network'' (nicNamesOf f) (nicNamesOf t))"
proof -
  show "fields_of (map (\<lambda>d. mk_change ''Disk'' ''add'' '''' (DiskLabel (da_name d) (da_size d) (da_class d))) (ve_add_disks (EditToMatch f t))) \<union>
      fields_of (map (\<lambda>n. mk_change ''Disk'' ''remove'' n '''') (ve_remove_disks (EditToMatch f t))) =
    fields_of (diffNamedSet ''Disk'' (diskNamesOf f) (diskNamesOf t))"
    unfolding fields_of_named disk_fields[OF assms, symmetric] fields_of_same match_empty by auto
  show "fields_of (map (\<lambda>n. mk_change ''Network'' ''add'' '''' n) (ve_add_networks (EditToMatch f t))) \<union>
      fields_of (map (\<lambda>n. mk_change ''Network'' ''remove'' n '''') (ve_remove_networks (EditToMatch f t))) =
    fields_of (diffNamedSet ''Network'' (nicNamesOf f) (nicNamesOf t))"
    unfolding fields_of_named fields_of_same match_empty by (auto simp: nicNamesOf_def)
qed


lemma no_placement:
  assumes "adoptable f t"
  shows "schedulingChanges f (EditToMatch f t) = []" "ve_migrate (EditToMatch f t) = []"
    "fields_of (cmp ''Host pinning'' (join_with (cur_pin f) '', '') (join_with (cur_pin t) '', '')) = {}"
    "fields_of (diffNamedSet ''Placement group'' (groupDescsOf f) (groupDescsOf t)) = {}"
  using assms by (auto simp: schedulingChanges_def EditToMatch_def empty_edit_def pin_change_def Let_def adoptable_def fields_of_named)

lemma scalar_fields:
  assumes "adoptable f t"
  shows "fields_of (case ve_power (EditToMatch f t) of None \<Rightarrow> [] | Some p \<Rightarrow> if p \<noteq> vm_power f then [mk_change ''Power'' ''change'' (vm_power f) p] else []) =
      fields_of (cmp ''Power'' (vm_power f) (vm_power t))"
    "fields_of (case ve_preference (EditToMatch f t) of None \<Rightarrow> []
       | Some p \<Rightarrow> if p \<noteq> vm_preference f then [mk_change ''Preference'' ''change'' (vm_preference f) p] else []) =
      fields_of (cmp ''Preference'' (vm_preference f) (vm_preference t))"
    "fields_of (case ve_drs_exclude (EditToMatch f t) of None \<Rightarrow> []
       | Some x \<Rightarrow> if x \<noteq> vm_drs_exclude f
           then [mk_change ''DRS'' ''change'' (if x then ''rebalanced'' else ''excluded'') (if x then ''excluded'' else ''rebalanced'')] else []) =
      fields_of (if vm_drs_exclude f \<noteq> vm_drs_exclude t then cmp ''DRS'' (drsLabel (vm_drs_exclude f)) (drsLabel (vm_drs_exclude t)) else [])"
    "fields_of (case ve_eviction (EditToMatch f t) of None \<Rightarrow> []
       | Some s \<Rightarrow> if s \<noteq> vm_eviction f
           then [mk_change ''Eviction strategy'' ''change'' (orClusterDefault (vm_eviction f)) (orClusterDefault s)] else []) =
      fields_of (if vm_eviction f \<noteq> vm_eviction t
        then cmp ''Eviction strategy'' (orClusterDefault (vm_eviction f)) (orClusterDefault (vm_eviction t)) else [])"
  using assms by (auto simp: EditToMatch_def empty_edit_def Let_def adoptable_def drsLabel_def orClusterDefault_def PowerUnknown_def PowerOn_def PowerOff_def)

lemma drift_sizing_fields:
  "fields_of (if vm_cpu_cores f \<noteq> vm_cpu_cores t then cmp ''CPU'' (vcpu_text (vm_cpu_cores f)) (vcpu_text (vm_cpu_cores t)) else []) =
     (if vm_cpu_cores f \<noteq> vm_cpu_cores t then {''CPU''} else {})"
  by (simp add: vcpu_text_inj)

section \<open>The VM an edit makes\<close>

text \<open>
  What an edit asks for, read on the parsed VM: the fields it sets, sizing in the one representation the edit leaves, the labels and disks it
  adds and removes (a disk without a size gets the editor's ten gigabytes), and the adapters, which take their name from the network. It leaves
  out what adoption leaves out: migrations and placement.
\<close>

definition the_edit :: "'a option \<Rightarrow> 'a \<Rightarrow> 'a" where
  "the_edit x cur = (case x of None \<Rightarrow> cur | Some v \<Rightarrow> v)"

definition edited :: "vm \<Rightarrow> vm_edit \<Rightarrow> vm" where
  "edited f e =
     f\<lparr>vm_power := (case ve_power e of None \<Rightarrow> vm_power f | Some p \<Rightarrow> if p = PowerOn then PowerOn else PowerOff),
       vm_instancetype := (if uses_instancetype f e then the_edit (ve_instancetype e) (vm_instancetype f) else ''''),
       vm_cpu_cores := (if uses_instancetype f e then 0 else the_edit (ve_cpu_cores e) (vm_cpu_cores f)),
       vm_memory := (if uses_instancetype f e then '''' else the_edit (ve_memory e) (vm_memory f)),
       vm_preference := the_edit (ve_preference e) (vm_preference f),
       vm_drs_exclude := the_edit (ve_drs_exclude e) (vm_drs_exclude f),
       vm_eviction := the_edit (ve_eviction e) (vm_eviction f),
       vm_labels := ve_set_labels e @ filter (\<lambda>(k, _). k \<notin> set (ve_remove_labels e)) (vm_labels f),
       vm_disks := filter (\<lambda>d. dk_name d \<notin> set (ve_remove_disks e)) (vm_disks f) @
         map (\<lambda>d. \<lparr>dk_name = da_name d, dk_type = ''dataVolume'', dk_size = (if da_size d = '''' then ''10Gi'' else da_size d), dk_class = da_class d\<rparr>) (ve_add_disks e),
       vm_networks := filter (\<lambda>n. nc_name n \<notin> set (ve_remove_networks e)) (vm_networks f) @
         map (\<lambda>n. \<lparr>nc_name = InterfaceName n, nc_network = n, nc_mac = '''', nc_ip = '''', nc_implicit = False\<rparr>) (ve_add_networks e)\<rparr>"

lemma edit_devices:
  "ve_add_disks (EditToMatch f t) = map (\<lambda>n. \<lparr>da_name = n, da_size = label_get (diskNameSet t) n, da_class = ''''\<rparr>) (fst (addedRemoved (diskNameSet f) (diskNameSet t)))"
  "ve_remove_disks (EditToMatch f t) = snd (addedRemoved (diskNameSet f) (diskNameSet t))"
  "ve_add_networks (EditToMatch f t) = map (label_get (nicNameSet t)) (fst (addedRemoved (nicNameSet f) (nicNameSet t)))"
  "ve_remove_networks (EditToMatch f t) = snd (addedRemoved (nicNameSet f) (nicNameSet t))"
  by (simp_all add: EditToMatch_def empty_edit_def Let_def)

lemma added_removed_names:
  "set (fst (addedRemoved (diskNameSet f) (diskNameSet t))) = dk_name ` set (vm_disks t) - dk_name ` set (vm_disks f)"
  "set (snd (addedRemoved (diskNameSet f) (diskNameSet t))) = dk_name ` set (vm_disks f) - dk_name ` set (vm_disks t)"
  "set (fst (addedRemoved (nicNameSet f) (nicNameSet t))) = nc_name ` set (vm_networks t) - nc_name ` set (vm_networks f)"
  "set (snd (addedRemoved (nicNameSet f) (nicNameSet t))) = nc_name ` set (vm_networks f) - nc_name ` set (vm_networks t)"
  using name_set_dom[of f] name_set_dom[of t] by (auto simp: addedRemoved_def map_of_eq_None_iff dom_map_of_conv_image_fst)

lemma size_of_disk:
  assumes "distinct (map dk_name (vm_disks t))" "d \<in> set (vm_disks t)"
  shows "label_get (diskNameSet t) (dk_name d) = dk_size d"
proof -
  have "distinct (map fst (diskNameSet t))" using assms(1) by (simp add: diskNameSet_def rev_map[symmetric] comp_def)
  moreover have "(dk_name d, dk_size d) \<in> set (diskNameSet t)" using assms(2) by (simp add: diskNameSet_def)
  ultimately have "map_of (diskNameSet t) (dk_name d) = Some (dk_size d)" by (rule map_of_is_SomeI)
  then show ?thesis by (simp add: label_get_def)
qed

lemma network_of_nic:
  assumes "n \<in> set (vm_networks t)"
  shows "\<exists>m \<in> set (vm_networks t). nc_name m = nc_name n \<and> label_get (nicNameSet t) (nc_name n) = nc_network m"
proof -
  have "nc_name n \<in> dom (map_of (nicNameSet t))" using assms by (simp only: name_set_dom imageI)
  then obtain v where v: "map_of (nicNameSet t) (nc_name n) = Some v" by blast
  from map_of_SomeD[OF this] v show ?thesis by (auto simp: nicNameSet_def label_get_def)
qed

lemma image_paired:
  assumes "\<And>x y. x \<in> A \<Longrightarrow> y \<in> B \<Longrightarrow> k x = k y \<Longrightarrow> g x = g y"
  shows "g ` {x \<in> A. k x \<in> k ` B} = g ` {y \<in> B. k y \<in> k ` A}"
proof (intro equalityI subsetI)
  fix l assume "l \<in> g ` {x \<in> A. k x \<in> k ` B}"
  then obtain x y where "x \<in> A" "y \<in> B" "k y = k x" "l = g x" by auto
  with assms[of x y] show "l \<in> g ` {y \<in> B. k y \<in> k ` A}" by (intro image_eqI[of _ _ y]) (auto intro: image_eqI[of _ _ x])
next
  fix l assume "l \<in> g ` {y \<in> B. k y \<in> k ` A}"
  then obtain x y where "x \<in> A" "y \<in> B" "k y = k x" "l = g y" by auto
  with assms[of x y] show "l \<in> g ` {x \<in> A. k x \<in> k ` B}" by (intro image_eqI[of _ _ x]) (auto intro: image_eqI[of _ _ y])
qed

lemma edited_disks:
  assumes "adoptable f t"
  shows "set (diskNamesOf (edited f (EditToMatch f t))) = set (diskNamesOf t)"
proof -
  let ?F = "vm_disks f" and ?T = "vm_disks t"
  have same: "disk_label d = disk_label d'" if "d \<in> set ?F" "d' \<in> set ?T" "dk_name d = dk_name d'" for d d'
    using assms that by (auto simp: adoptable_def list_all_iff disk_label_def)
  have dis: "distinct (map dk_name ?T)" and sized: "d \<in> set ?T \<Longrightarrow> dk_name d \<notin> dk_name ` set ?F \<Longrightarrow> dk_size d \<noteq> ''''" for d
    using assms by (auto simp: adoptable_def list_all_iff)
  let ?new = "\<lambda>n. \<lparr>dk_name = n, dk_type = ''dataVolume'', dk_size = (if label_get (diskNameSet t) n = '''' then ''10Gi'' else label_get (diskNameSet t) n), dk_class = ''''\<rparr>"
  have new: "disk_label (?new (dk_name d)) = disk_label d" if "d \<in> set ?T" "dk_name d \<notin> dk_name ` set ?F" for d
    using size_of_disk[OF dis that(1)] sized[OF that] by (simp add: disk_label_def)
  let ?f = "dk_name ` set ?F" and ?t = "dk_name ` set ?T"
  have kept: "disk_label ` {d \<in> set ?F. dk_name d \<in> ?t} = disk_label ` {d \<in> set ?T. dk_name d \<in> ?f}"
    by (rule image_paired[of _ _ dk_name disk_label]) (rule same)
  have "?t - ?f = dk_name ` {d \<in> set ?T. dk_name d \<notin> ?f}" by auto
  then have "(disk_label \<circ> ?new) ` (?t - ?f) = (\<lambda>d. disk_label (?new (dk_name d))) ` {d \<in> set ?T. dk_name d \<notin> ?f}"
    by (simp only: image_image comp_apply)
  also have "\<dots> = disk_label ` {d \<in> set ?T. dk_name d \<notin> ?f}" by (rule image_cong) (simp_all add: new)
  finally have added: "(disk_label \<circ> ?new) ` (?t - ?f) = disk_label ` {d \<in> set ?T. dk_name d \<notin> ?f}" .
  have "set (diskNamesOf (edited f (EditToMatch f t))) = disk_label ` {d \<in> set ?F. dk_name d \<notin> ?f - ?t} \<union> (disk_label \<circ> ?new) ` (?t - ?f)"
    by (simp add: diskNamesOf_def edited_def edit_devices added_removed_names image_Un image_image comp_def cong: if_cong)
  also have "{d \<in> set ?F. dk_name d \<notin> ?f - ?t} = {d \<in> set ?F. dk_name d \<in> ?t}" by auto
  also note kept
  also note added
  also have "disk_label ` {d \<in> set ?T. dk_name d \<in> ?f} \<union> disk_label ` {d \<in> set ?T. dk_name d \<notin> ?f} = set (diskNamesOf t)"
    by (auto simp: diskNamesOf_def)
  finally show ?thesis .
qed

lemma edited_networks:
  assumes "adoptable f t"
  shows "set (nicNamesOf (edited f (EditToMatch f t))) = set (nicNamesOf t)"
proof -
  let ?F = "nc_name ` set (vm_networks f)" and ?T = "nc_name ` set (vm_networks t)"
  have named: "nc_name m = InterfaceName (nc_network m)" if "m \<in> set (vm_networks t)" "nc_name m \<notin> ?F" for m
    using assms that by (simp add: adoptable_def list_all_iff)
  have "InterfaceName (label_get (nicNameSet t) n) = n" if n: "n \<in> ?T - ?F" for n
  proof -
    from n obtain m where "m \<in> set (vm_networks t)" "nc_name m = n" by auto
    with network_of_nic obtain m where "m \<in> set (vm_networks t)" "nc_name m = n" "label_get (nicNameSet t) n = nc_network m" by metis
    with named[of m] n show ?thesis by simp
  qed
  then have "(\<lambda>n. InterfaceName (label_get (nicNameSet t) n)) ` (?T - ?F) = ?T - ?F" by force
  moreover have "set (nicNamesOf (edited f (EditToMatch f t))) = (?F \<inter> ?T) \<union> (\<lambda>n. InterfaceName (label_get (nicNameSet t) n)) ` (?T - ?F)"
  proof -
    have "nc_name ` {n \<in> set (vm_networks f). nc_name n \<notin> ?F - ?T} = ?F \<inter> ?T" by auto
    then show ?thesis by (simp add: nicNamesOf_def edited_def edit_devices added_removed_names image_Un image_image)
  qed
  ultimately show ?thesis by (auto simp: nicNamesOf_def)
qed

lemma edited_labels:
  assumes "adoptable f t"
  shows "map_of (vm_labels (edited f (EditToMatch f t))) = map_of (vm_labels t)"
proof
  fix k
  have val: "map_of (vm_labels t) k = Some '''' \<Longrightarrow> map_of (vm_labels f) k \<noteq> None"
    using assms map_of_SomeD[of "vm_labels t" k "''''"] by (auto simp: adoptable_def list_all_iff)
  have kept: "map_of (filter (\<lambda>(j, _). j \<notin> A) m) k = (if k \<in> A then None else map_of m k)" for A and m :: labels
    by (induction m) auto
  have set_k: "map_of (ve_set_labels (EditToMatch f t)) k = (if map_of (vm_labels t) k \<noteq> None \<and> label_get (vm_labels f) k \<noteq> label_get (vm_labels t) k
      then Some (label_get (vm_labels t) k) else None)"
    by (auto simp: EditToMatch_def empty_edit_def Let_def map_of_keyed)
  have gone: "k \<in> set (ve_remove_labels (EditToMatch f t)) \<longleftrightarrow> map_of (vm_labels f) k \<noteq> None \<and> map_of (vm_labels t) k = None"
    by (auto simp: EditToMatch_def empty_edit_def Let_def)
  have "map_of (vm_labels (edited f (EditToMatch f t))) k =
      (case map_of (ve_set_labels (EditToMatch f t)) k of
         Some v \<Rightarrow> Some v
       | None \<Rightarrow> if k \<in> set (ve_remove_labels (EditToMatch f t)) then None else map_of (vm_labels f) k)"
    by (simp add: edited_def kept map_add_def split: option.splits)
  also have "\<dots> = map_of (vm_labels t) k"
    unfolding set_k gone using val by (auto simp: label_get_def split: option.splits if_splits)
  finally show "map_of (vm_labels (edited f (EditToMatch f t))) k = map_of (vm_labels t) k" .
qed

lemma no_label_drift:
  assumes "map_of la = map_of lb"
  shows "concat (map (label_diff la lb) (sorted_keys la)) = []" "filter (\<lambda>k. map_of la k = None) (sorted_keys lb) = []"
proof -
  have "label_diff la lb k = []" if "map_of la k \<noteq> None" for k
    using that assms by (auto simp: label_diff_def label_get_def cmp_def split: option.splits)
  then show "concat (map (label_diff la lb) (sorted_keys la)) = []" by (auto simp: dom_def)
  show "filter (\<lambda>k. map_of la k = None) (sorted_keys lb) = []" using assms by (auto simp: filter_empty_conv)
qed

lemma edited_scalars:
  assumes "adoptable f t"
  shows "vm_power (edited f (EditToMatch f t)) = vm_power t" "vm_cpu_cores (edited f (EditToMatch f t)) = vm_cpu_cores t"
    "vm_memory (edited f (EditToMatch f t)) = vm_memory t" "vm_instancetype (edited f (EditToMatch f t)) = vm_instancetype t"
    "vm_preference (edited f (EditToMatch f t)) = vm_preference t" "vm_drs_exclude (edited f (EditToMatch f t)) = vm_drs_exclude t"
    "vm_eviction (edited f (EditToMatch f t)) = vm_eviction t" "vm_scheduling (edited f (EditToMatch f t)) = vm_scheduling f"
proof -
  note parts = edited_def the_edit_def EditToMatch_def empty_edit_def Let_def uses_instancetype_def edit_mode_def
  have power: "vm_power f \<noteq> vm_power t \<Longrightarrow> vm_power t = PowerOn \<or> vm_power t = PowerOff"
    and pref: "vm_preference f \<noteq> vm_preference t \<Longrightarrow> vm_preference t \<noteq> ''''"
    and sizing: "if vm_instancetype t \<noteq> '''' then vm_cpu_cores t = 0 \<and> vm_memory t = ''''
       else vm_instancetype f = '''' \<and> (vm_cpu_cores f \<noteq> vm_cpu_cores t \<longrightarrow> vm_cpu_cores t \<noteq> 0) \<and> (vm_memory f \<noteq> vm_memory t \<longrightarrow> vm_memory t \<noteq> '''')"
    using assms unfolding adoptable_def by blast+
  show "vm_power (edited f (EditToMatch f t)) = vm_power t" using power by (cases "vm_power f = vm_power t") (auto simp: parts PowerUnknown_def PowerOn_def PowerOff_def)
  show "vm_preference (edited f (EditToMatch f t)) = vm_preference t" using pref by (cases "vm_preference f = vm_preference t") (simp_all add: parts)
  show "vm_drs_exclude (edited f (EditToMatch f t)) = vm_drs_exclude t" by (simp add: parts)
  show "vm_eviction (edited f (EditToMatch f t)) = vm_eviction t" by (simp add: parts)
  show "vm_scheduling (edited f (EditToMatch f t)) = vm_scheduling f" by (simp add: edited_def)
  show "vm_cpu_cores (edited f (EditToMatch f t)) = vm_cpu_cores t" using sizing by (auto simp: parts split: if_splits)
  show "vm_memory (edited f (EditToMatch f t)) = vm_memory t" using sizing by (auto simp: parts split: if_splits)
  show "vm_instancetype (edited f (EditToMatch f t)) = vm_instancetype t" using sizing by (auto simp: parts split: if_splits)
qed

lemma diff_named_same: "set xs = set ys \<Longrightarrow> diffNamedSet fld xs ys = []"
  by (simp add: diffNamedSet_def filter_empty_conv)


definition declared_vm :: vm where
  "declared_vm = empty_vm\<lparr>vm_power := PowerOff, vm_cpu_cores := 2, vm_memory := ''2Gi'', vm_labels := [(''tier'', ''db''), (''old'', ''x'')],
     vm_disks := [\<lparr>dk_name = ''rootdisk'', dk_type = ''dataVolume'', dk_size = ''30Gi'', dk_class = ''''\<rparr>]\<rparr>"

definition running_vm :: vm where
  "running_vm = empty_vm\<lparr>vm_power := PowerOn, vm_cpu_cores := 4, vm_memory := ''2Gi'', vm_labels := [(''tier'', ''web'')],
     vm_disks := [\<lparr>dk_name = ''rootdisk'', dk_type = ''dataVolume'', dk_size = ''30Gi'', dk_class = ''''\<rparr>,
                  \<lparr>dk_name = ''data'', dk_type = ''dataVolume'', dk_size = ''5Gi'', dk_class = ''''\<rparr>]\<rparr>"


text \<open>An adapter that is not named after its network stays drift: what adoption adds has another name. The pod network's adapter, called
  \<open>default\<close>, is added as a Multus network called \<open>pod\<close>.\<close>

definition pod_nic :: nic where
  "pod_nic = \<lparr>nc_name = ''default'', nc_network = ''pod'', nc_mac = '''', nc_ip = '''', nc_implicit = False\<rparr>"

lemma pod_adapter_not_adopted:
  "let f = empty_vm; t = empty_vm\<lparr>vm_networks := [pod_nic]\<rparr> in
   ve_add_networks (EditToMatch f t) = [''pod''] \<and> map nc_name (vm_networks (edited f (EditToMatch f t))) = [''pod''] \<and>
   map ch_field (DiffVMs (edited f (EditToMatch f t)) t) = [''Network'', ''Network'']"
  by code_simp

text \<open>A label whose live value is empty is drift that adoption cannot remove: the drift view shows it as an
  added label, and the edit that should make git match is empty when nothing else differs.\<close>
theorem empty_label_not_adopted:
  "DiffVMs (v\<lparr>vm_labels := []\<rparr>) (v\<lparr>vm_labels := [(k, '''')]\<rparr>) = [mk_change (''Label '' @ k) ''add'' '''' ''''] \<and>
   edit_is_empty (EditToMatch (v\<lparr>vm_labels := []\<rparr>) (v\<lparr>vm_labels := [(k, '''')]\<rparr>))"
  by (simp add: DiffVMs_def EditToMatch_def edit_is_empty_def empty_edit_def cmp_def diffNamedSet_def addedRemoved_def
      diskNameSet_def nicNameSet_def sorted_keys_def label_get_def Let_def cur_pin_def groupDescsOf_def diskNamesOf_def nicNamesOf_def
      filter_empty_conv dom_map_of_conv_image_fst map_of_eq_None_iff image_image)

end
