(* ===== verification/Draft_Store.thy ===== *)
theory Draft_Store
  imports Go_Url Model_Kinds
begin

text \<open>
  \<open>internal/draft/draft.go\<close>: the pending changesets, one per user and project, in memory and on disk. A
  draft map is the list of its entries, keyed by \<open>Key\<close>. The disk is a map from paths to what
  \<open>json.Unmarshal\<close> makes of the file: a list of entries, or nothing it can parse. Which system calls fail
  is an argument of each operation.
\<close>

section \<open>Entries\<close>

datatype entry_kind = KindEdit | KindCreate | KindDelete

text \<open>A VM edit is opaque here.\<close>

record 'e entry =
  en_kind :: entry_kind
  en_resource :: string
  en_namespace :: string
  en_name :: string
  en_source :: string
  en_edit :: "'e option"
  en_manifest :: string
  en_from_wizard :: bool
  en_from_template :: string
  en_from_version :: string

definition Atomic :: "string \<Rightarrow> bool" where
  "Atomic r = (r = ''drs'')"

definition resource_row :: "string \<Rightarrow> resource option" where
  "resource_row r = LookupResource r"

definition CreateLabel :: "string \<Rightarrow> string" where
  "CreateLabel r = (case resource_row r of None \<Rightarrow> '''' | Some w \<Rightarrow> rs_create w)"

definition EditLabel :: "string \<Rightarrow> string" where
  "EditLabel r = (case resource_row r of None \<Rightarrow> '''' | Some w \<Rightarrow> rs_edit w)"

definition ResourceKinds :: "string \<Rightarrow> string list" where
  "ResourceKinds r = (case resource_row r of None \<Rightarrow> [] | Some w \<Rightarrow> KindNames w)"

definition key_of :: "string \<Rightarrow> string \<Rightarrow> string \<Rightarrow> string" where
  "key_of rsc ns name = (if rsc = '''' \<or> rsc = ''vm'' then ns @ ''/'' @ name else rsc @ '':'' @ ns @ ''/'' @ name)"

definition Key :: "'e entry \<Rightarrow> string" where
  "Key e = key_of (en_resource e) (en_namespace e) (en_name e)"

section \<open>Paths\<close>

text \<open>\<open>url.PathEscape\<close>: letters, digits and these marks stay, every other byte becomes a percent triple.\<close>

definition path_plain :: "char \<Rightarrow> bool" where
  "path_plain c = (is_letter c \<or> is_digit c \<or> c \<in> set ''-_.~$&+:=@'')"

definition path_escape :: "string \<Rightarrow> string" where
  "path_escape s = concat (map (\<lambda>c. if path_plain c then [c]
     else [CHR ''%'', hex_digit (of_char c div 16), hex_digit (of_char c mod 16)]) s)"

definition safeSegment :: "string \<Rightarrow> string" where
  "safeSegment s = (if s = ''.'' then ''%2E'' else if s = ''..'' then ''%2E%2E'' else path_escape s)"

text \<open>\<open>filepath.Join\<close> skips an empty element; the other elements are clean segments.\<close>

definition draft_path :: "string \<Rightarrow> string \<Rightarrow> string \<Rightarrow> string" where
  "draft_path dir user project =
     dir @ ''/'' @ (if safeSegment user = '''' then '''' else safeSegment user @ ''/'') @ safeSegment project @ ''.json''"

definition pairKey :: "string \<Rightarrow> string \<Rightarrow> string" where
  "pairKey user project = user @ [CHR 0x00] @ project"

section \<open>The store\<close>

datatype 'e draft_file = Parsed "'e entry list" | Garbage

record 'e draft_store =
  dr_dir :: string
  dr_drafts :: "string \<Rightarrow> 'e entry list option"
  dr_disk :: "string \<Rightarrow> 'e draft_file option"

text \<open>
  Which calls succeed (a failure is any error but "does not exist"), and what a failed \<open>os.WriteFile\<close> leaves
  in the temporary file.
\<close>

record 'e io =
  io_read :: bool
  io_quarantine :: bool
  io_remove :: bool
  io_mkdir :: bool
  io_write :: bool
  io_rename :: bool
  io_partial :: "'e draft_file option"

definition Open :: "string \<Rightarrow> (string \<Rightarrow> 'e draft_file option) \<Rightarrow> 'e draft_store" where
  "Open dir disk = \<lparr>dr_dir = dir, dr_drafts = Map.empty, dr_disk = disk\<rparr>"

definition put_entry :: "'e entry \<Rightarrow> 'e entry list \<Rightarrow> 'e entry list" where
  "put_entry e d = e # filter (\<lambda>x. Key x \<noteq> Key e) d"

definition del_entry :: "string \<Rightarrow> 'e entry list \<Rightarrow> 'e entry list" where
  "del_entry k d = filter (\<lambda>x. Key x \<noteq> k) d"

definition stale_create :: "'e entry \<Rightarrow> bool" where
  "stale_create e = (en_kind e = KindCreate \<and> en_manifest e = '''')"

definition entries_of :: "'e entry list \<Rightarrow> 'e entry list" where
  "entries_of xs = foldl (\<lambda>d e. if stale_create e then d else put_entry e d) [] xs"

definition entry_less :: "'e entry \<Rightarrow> 'e entry \<Rightarrow> bool" where
  "entry_less a b = (Key a < Key b)"

definition sortedEntries :: "'e entry list \<Rightarrow> 'e entry list" where
  "sortedEntries d = go_sort entry_less d"

definition remember :: "string \<Rightarrow> string \<Rightarrow> 'e entry list \<Rightarrow> 'e draft_store \<Rightarrow> 'e draft_store" where
  "remember user project d s = s\<lparr>dr_drafts := (dr_drafts s)(pairKey user project \<mapsto> d)\<rparr>"

text \<open>\<open>Inl\<close> is an error; the store is the one after it.\<close>

definition loadLocked :: "'e io \<Rightarrow> string \<Rightarrow> string \<Rightarrow> 'e draft_store \<Rightarrow> (string + 'e entry list) \<times> 'e draft_store" where
  "loadLocked i user project s =
     (case dr_drafts s (pairKey user project) of
        Some d \<Rightarrow> (Inr d, s)
      | None \<Rightarrow>
          (let p = draft_path (dr_dir s) user project in
           if \<not> io_read i then (Inl (''read draft '' @ user @ ''/'' @ project), s)
           else
             (case dr_disk s p of
                None \<Rightarrow> (Inr [], remember user project [] s)
              | Some Garbage \<Rightarrow>
                  (if \<not> io_quarantine i then (Inl (''quarantine corrupt draft '' @ user @ ''/'' @ project), s)
                   else (Inr [], remember user project [] (s\<lparr>dr_disk := (dr_disk s)(p := None, p @ ''.corrupt'' \<mapsto> Garbage)\<rparr>)))
              | Some (Parsed xs) \<Rightarrow> (Inr (entries_of xs), remember user project (entries_of xs) s))))"

definition persistLocked :: "'e io \<Rightarrow> string \<Rightarrow> string \<Rightarrow> 'e entry list \<Rightarrow> 'e draft_store \<Rightarrow> bool \<times> 'e draft_store" where
  "persistLocked i user project d s =
     (let p = draft_path (dr_dir s) user project;
          tmp = p @ ''.tmp'' in
      if d = [] then
        (if io_remove i then (True, s\<lparr>dr_disk := (dr_disk s)(p := None)\<rparr>) else (False, s))
      else if \<not> io_mkdir i then (False, s)
      else if \<not> io_write i then (False, s\<lparr>dr_disk := (dr_disk s)(tmp := io_partial i)\<rparr>)
      else if \<not> io_rename i then (False, s\<lparr>dr_disk := (dr_disk s)(tmp \<mapsto> Parsed (sortedEntries d))\<rparr>)
      else (True, s\<lparr>dr_disk := (dr_disk s)(tmp := None, p \<mapsto> Parsed (sortedEntries d))\<rparr>))"

text \<open>\<open>Stage\<close> and \<open>Unstage\<close> change the loaded map in place, then write it.\<close>

definition change_draft :: "('e entry list \<Rightarrow> 'e entry list) \<Rightarrow> 'e io \<Rightarrow> string \<Rightarrow> string \<Rightarrow> 'e draft_store \<Rightarrow> bool \<times> 'e draft_store" where
  "change_draft f i user project s =
     (case loadLocked i user project s of
        (Inl e, s1) \<Rightarrow> (False, s1)
      | (Inr d, s1) \<Rightarrow> persistLocked i user project (f d) (remember user project (f d) s1))"

definition Stage :: "'e io \<Rightarrow> string \<Rightarrow> string \<Rightarrow> 'e entry \<Rightarrow> 'e draft_store \<Rightarrow> bool \<times> 'e draft_store" where
  "Stage i user project e = change_draft (put_entry e) i user project"

definition Unstage :: "'e io \<Rightarrow> string \<Rightarrow> string \<Rightarrow> string \<Rightarrow> string \<Rightarrow> string \<Rightarrow> 'e draft_store \<Rightarrow> bool \<times> 'e draft_store" where
  "Unstage i user project rsc ns name = change_draft (del_entry (key_of rsc ns name)) i user project"

definition Clear :: "'e io \<Rightarrow> string \<Rightarrow> string \<Rightarrow> 'e draft_store \<Rightarrow> bool \<times> 'e draft_store" where
  "Clear i user project s =
     persistLocked i user project [] (s\<lparr>dr_drafts := (dr_drafts s)(pairKey user project := None)\<rparr>)"

definition draft_list :: "'e io \<Rightarrow> string \<Rightarrow> string \<Rightarrow> 'e draft_store \<Rightarrow> (string + 'e entry list) \<times> 'e draft_store" where
  "draft_list i user project s =
     (case loadLocked i user project s of
        (Inl e, s1) \<Rightarrow> (Inl e, s1)
      | (Inr d, s1) \<Rightarrow> (Inr (sortedEntries d), s1))"

interpretation entry_order: less_func entry_less
  by (rule less_func_key[where key = Key]) (simp add: entry_less_def)

section \<open>Names and paths\<close>

lemma of_char_hex_digit: "0 \<le> n \<Longrightarrow> n < 16 \<Longrightarrow> (of_char (hex_digit n) :: int) = (if n < 10 then 48 + n else 55 + n)"
  by (simp add: hex_digit_def)

lemma hex_digit_inj:
  assumes "0 \<le> a" "a < 16" "0 \<le> b" "b < 16" "hex_digit a = hex_digit b"
  shows "a = b"
proof -
  have "(of_char (hex_digit a) :: int) = of_char (hex_digit b)" using assms(5) by simp
  with assms(1-4) show ?thesis by (simp add: of_char_hex_digit split: if_splits)
qed

lemma of_char_byte: "0 \<le> (of_char c :: int)" "(of_char c :: int) < 256"
  by (metis of_char_mod_256 pos_mod_bound pos_mod_sign zero_less_numeral)+

lemma nibbles: "0 \<le> (of_char c :: int) div 16" "(of_char c :: int) div 16 < 16" "0 \<le> (of_char c :: int) mod 16" "(of_char c :: int) mod 16 < 16"
  using of_char_byte[of c] by auto

lemma escape_char_inj:
  assumes "hex_digit (of_char c div 16) = hex_digit (of_char d div 16)" "hex_digit (of_char c mod 16) = hex_digit (of_char d mod 16)"
  shows "c = d"
proof -
  have "(of_char c :: int) div 16 = of_char d div 16" using nibbles assms(1) by (intro hex_digit_inj) auto
  moreover have "(of_char c :: int) mod 16 = of_char d mod 16" using nibbles assms(2) by (intro hex_digit_inj) auto
  ultimately have "(of_char c :: int) = of_char d" by (metis div_mod_decomp_int)
  then show ?thesis by simp
qed

lemma path_escape_Cons: "path_escape (c # s) = (if path_plain c then [c]
     else [CHR ''%'', hex_digit (of_char c div 16), hex_digit (of_char c mod 16)]) @ path_escape s"
  by (simp add: path_escape_def)

lemma percent_not_plain: "\<not> path_plain (CHR ''%'')"
  by code_simp

lemma path_escape_inj: "path_escape s = path_escape t \<Longrightarrow> s = t"
proof (induction s arbitrary: t)
  case Nil
  then show ?case by (cases t) (auto simp: path_escape_Cons path_escape_def split: if_splits)
next
  case (Cons c s)
  then obtain d u where t: "t = d # u" by (cases t) (auto simp: path_escape_Cons path_escape_def split: if_splits)
  show ?case
  proof (cases "path_plain c = path_plain d")
    case True
    with Cons.prems t have "c = d \<and> path_escape s = path_escape u"
      by (cases "path_plain d") (auto simp: path_escape_Cons intro: escape_char_inj)
    with Cons.IH t show ?thesis by simp
  next
    case False
    with Cons.prems t percent_not_plain show ?thesis by (auto simp: path_escape_Cons split: if_splits)
  qed
qed

lemma path_escape_dots: "path_escape s \<noteq> ''%2E'' \<and> path_escape s \<noteq> ''%2E%2E''"
proof -
  have dot: "hex_digit (of_char c div 16) = CHR ''2'' \<Longrightarrow> hex_digit (of_char c mod 16) = CHR ''E'' \<Longrightarrow> c = CHR ''.''" for c
    by (rule escape_char_inj) (simp only:, code_simp, simp only:, code_simp)
  have "path_plain (CHR ''.'')" by code_simp
  then have one: "path_escape s \<noteq> ''%2E'' @ r" for r
    using dot percent_not_plain by (cases s) (auto simp: path_escape_Cons path_escape_def split: if_splits)
  show ?thesis using one[of "''''"] one[of "''%2E''"] by simp
qed

lemma safeSegment_inj: "safeSegment s = safeSegment t \<Longrightarrow> s = t"
  using path_escape_dots[of s] path_escape_dots[of t] by (auto simp: safeSegment_def dest: path_escape_inj split: if_splits)

lemma hex_digit_no_slash: "0 \<le> n \<Longrightarrow> n < 16 \<Longrightarrow> hex_digit n \<noteq> CHR ''/''"
  using of_char_hex_digit[of n] by (auto split: if_splits)

lemma path_escape_no_slash: "CHR ''/'' \<notin> set (path_escape s)"
proof -
  have "\<not> path_plain (CHR ''/'')" by code_simp
  moreover have "CHR ''/'' \<noteq> hex_digit (of_char c div 16)" "CHR ''/'' \<noteq> hex_digit (of_char c mod 16)" for c
    using hex_digit_no_slash nibbles by metis+
  ultimately show ?thesis by (induction s) (auto simp: path_escape_Cons path_escape_def)
qed

lemma safeSegment_no_slash: "CHR ''/'' \<notin> set (safeSegment s)"
  using path_escape_no_slash by (simp add: safeSegment_def)

lemma safeSegment_empty: "safeSegment s = '''' \<longleftrightarrow> s = ''''"
  by (cases s) (auto simp: safeSegment_def path_escape_Cons path_escape_def)

end
