(* ===== verification/Changeset_View.thy ===== *)
theory Changeset_View
  imports Changeset_Names Manifest_Edit Manifest_Semantic Draft_Store
begin

text \<open>
  How \<open>internal/changeset\<close> renders changes: a draft entry, a past commit and an open proposal as the same semantic items
  (\<open>view.go\<close>, \<open>history.go\<close>), and the title and body of the pull request (\<open>propose.go\<close>, \<open>prbody.go\<close>). The YAML
  library is \<open>yaml_lib\<close> and the headers of a text's documents.
\<close>

section \<open>Items\<close>

record draft_item =
  im_kind :: string
  im_resource :: string
  im_namespace :: string
  im_name :: string
  im_changes :: "change list"
  im_yaml :: string
  im_base_yaml :: string
  im_edit :: "vm_edit option"

record draft_view =
  vw_base :: string
  vw_branch :: string
  vw_count :: nat
  vw_items :: "draft_item list"
  vw_warning :: string
  vw_prune :: "object_ref list"
  vw_title :: string
  vw_body :: string

section \<open>Titles and bodies\<close>

definition more_text :: "nat \<Rightarrow> string" where
  "more_text n = '' (+'' @ nat_to_dec n @ '' more)''"

definition shortList :: "string list \<Rightarrow> nat \<Rightarrow> string" where
  "shortList names max_shown =
     (if length names \<le> max_shown then join_with names '', ''
      else join_with (take max_shown names) '', '' @ more_text (length names - max_shown))"

definition change_text :: "string \<Rightarrow> change \<Rightarrow> string" where
  "change_text sep c =
     (if ch_action c = ''change'' then ch_field c @ sep @ '' '' @ ch_from c @ '' -> '' @ ch_to c
      else if ch_action c = ''add'' then ch_field c @ sep @ '' + '' @ ch_to c
      else if ch_action c = ''remove'' then ch_field c @ sep @ '' - '' @ ch_from c
      else '''')"

definition known_action :: "change \<Rightarrow> bool" where
  "known_action c = (ch_action c \<in> {''change'', ''add'', ''remove''})"

text \<open>The fields in order, each once.\<close>

fun first_seen :: "string list \<Rightarrow> string list \<Rightarrow> string list" where
  "first_seen seen [] = []"
| "first_seen seen (x # xs) = (if x \<in> set seen then first_seen seen xs else x # first_seen (x # seen) xs)"

definition changeSummary :: "change list \<Rightarrow> string" where
  "changeSummary cs =
     (case cs of
        [c] \<Rightarrow> if known_action c then change_text '''' c else shortList (first_seen [] (map ch_field cs)) 3
      | _ \<Rightarrow> shortList (first_seen [] (map ch_field cs)) 3)"

definition title_verb :: "string \<Rightarrow> string option" where
  "title_verb kind =
     (if kind = ''edit'' then Some ''Update'' else if kind = ''create'' then Some ''Create''
      else if kind = ''delete'' then Some ''Delete'' else None)"

definition defaultTitle :: "draft_item list \<Rightarrow> string" where
  "defaultTitle items =
     (case items of
        [] \<Rightarrow> ''''
      | i # is \<Rightarrow>
          (let kind = (if list_all (\<lambda>j. im_kind j = im_kind i) is then im_kind i else '''');
               names = shortList (map im_name items) 3 in
           case title_verb kind of
             None \<Rightarrow> nat_to_dec (length items) @ '' changes: '' @ names
           | Some verb \<Rightarrow>
               verb @ '' '' @ names @
               (if kind = ''edit'' \<and> length items = 1 then '': '' @ changeSummary (im_changes i) else '''')))"

definition newline :: string where
  "newline = [CHR 0x0A]"

definition changesHeading :: string where
  "changesHeading = ''## Changes'' @ newline"

definition body_line :: "change \<Rightarrow> string" where
  "body_line c = ''- '' @ change_text '':'' c @ (if ch_restart c then '' *(restart required)*'' else '''') @ newline"

definition body_item :: "draft_item \<Rightarrow> string" where
  "body_item i =
     newline @ ''**'' @ im_kind i @ '' '' @ (if im_namespace i \<noteq> '''' then im_namespace i @ ''/'' @ im_name i else im_name i) @ ''**'' @ newline @
     concat (map body_line (im_changes i))"

definition restart_note :: string where
  "restart_note = newline @ ''Changes marked *restart required* apply at the VM'' @ [CHR 0x27] @
     ''s next power cycle; the VM keeps running until then.'' @ newline"

definition prBody :: "draft_item list \<Rightarrow> string \<Rightarrow> string \<Rightarrow> string \<Rightarrow> string" where
  "prBody items warning message username =
     (if contains_sub message changesHeading then message
      else
        (if message \<noteq> '''' then message @ newline @ newline else '''') @
        (if items \<noteq> [] then
           changesHeading @ concat (map body_item items) @
           (if list_ex (\<lambda>i. list_ex ch_restart (im_changes i)) items then restart_note else '''')
         else '''') @
        (if warning \<noteq> '''' then newline @ ''**Warning:** '' @ warning @ newline else '''') @
        newline @ ''---'' @ newline @ ''Proposed from dotvirt by '' @ username @ ''.'' @ newline)"

section \<open>The documents of a file\<close>

record document =
  dc_ref :: object_ref
  dc_raw :: string
  dc_vm :: "vm option"

definition is_separator :: "string \<Rightarrow> bool" where
  "is_separator l = (has_prefix l ''---'' \<and> list_all (\<lambda>c. c = CHR '' '' \<or> c = CHR 0x09) (drop 3 l))"

text \<open>The lines between separators, and the text a group of them is cut out as.\<close>

fun line_groups :: "string list \<Rightarrow> string list list" where
  "line_groups [] = [[]]"
| "line_groups (l # ls) =
     (if is_separator l then [] # line_groups ls
      else (case line_groups ls of [] \<Rightarrow> [[l]] | g # gs \<Rightarrow> (l # g) # gs))"

definition piece_text :: "bool \<Rightarrow> bool \<Rightarrow> string list \<Rightarrow> string" where
  "piece_text at_start at_end g =
     (if at_end then (if at_start then join_with g newline else if g = [] then '''' else newline @ join_with g newline)
      else (if at_start then '''' else newline) @ concat (map (\<lambda>l. l @ newline) g))"

definition split_documents :: "string \<Rightarrow> string list" where
  "split_documents text =
     (let gs = line_groups (split_on (CHR 0x0A) text); n = length gs in
      map (\<lambda>i. piece_text (i = 0) (Suc i = n) (gs ! i)) [0..<n])"

definition document_of :: "yaml_lib \<Rightarrow> yaml_docs \<Rightarrow> string \<Rightarrow> string \<Rightarrow> document option" where
  "document_of yl docs_of p chunk =
     (case DeclaredRefs docs_of p chunk of
        [r] \<Rightarrow> Some \<lparr>dc_ref = r, dc_raw = TrimSpace chunk @ newline,
          dc_vm = (if or_kind r = mk_kind KindVM then
                     (case ParseVMs p (yl_docs yl chunk) (DefaultNamespace p) of Some [v] \<Rightarrow> Some v | _ \<Rightarrow> None)
                   else None)\<rparr>
      | _ \<Rightarrow> None)"

text \<open>The first document of each identity, in file order.\<close>

fun first_docs :: "object_ref list \<Rightarrow> document list \<Rightarrow> document list" where
  "first_docs seen [] = []"
| "first_docs seen (d # ds) = (if dc_ref d \<in> set seen then first_docs seen ds else d # first_docs (dc_ref d # seen) ds)"

definition documentsIn :: "yaml_lib \<Rightarrow> yaml_docs \<Rightarrow> string \<Rightarrow> string option \<Rightarrow> document list" where
  "documentsIn yl docs_of p content =
     (case content of
        None \<Rightarrow> []
      | Some c \<Rightarrow> if c = '''' then [] else first_docs [] (List.map_filter (document_of yl docs_of p) (split_documents c)))"

definition doc_at :: "document list \<Rightarrow> object_ref \<Rightarrow> document option" where
  "doc_at ds r = find (\<lambda>d. dc_ref d = r) ds"

section \<open>Commits as items\<close>

definition qualified_ref :: "object_ref \<Rightarrow> string" where
  "qualified_ref r = (if or_namespace r = '''' then or_name r else or_namespace r @ ''/'' @ or_name r)"

definition resourceOf :: "string \<Rightarrow> string" where
  "resourceOf kind =
     (case LookupKind kind of None \<Rightarrow> kind | Some (r, _) \<Rightarrow> if rs_name r = ''vm'' then '''' else rs_name r)"

definition changeLabel :: "string \<Rightarrow> bool \<Rightarrow> string" where
  "changeLabel kind create =
     (case LookupKind kind of
        None \<Rightarrow> (if create then ''Create '' else ''Edit '') @ kind
      | Some (r, _) \<Rightarrow> if create then rs_create r else rs_edit r)"

definition editChanges :: "document \<Rightarrow> document \<Rightarrow> change list" where
  "editChanges prev doc =
     (let whole = [mk_change (changeLabel (or_kind (dc_ref doc)) False) ''change'' '''' (or_name (dc_ref doc))] in
      case (dc_vm prev, dc_vm doc) of
        (Some a, Some b) \<Rightarrow> if DiffVMs a b \<noteq> [] then DiffVMs a b else whole
      | _ \<Rightarrow> whole)"

definition add_row :: "string \<Rightarrow> string \<Rightarrow> change list" where
  "add_row field to = (if to \<noteq> '''' then [mk_change field ''add'' '''' to] else [])"

definition createChanges :: "document \<Rightarrow> change list" where
  "createChanges doc =
     (let name = qualified_ref (dc_ref doc) in
      if or_kind (dc_ref doc) \<noteq> mk_kind KindVM then [mk_change (changeLabel (or_kind (dc_ref doc)) True) ''add'' '''' name]
      else mk_change ''Create VM'' ''add'' '''' name #
        (case dc_vm doc of
           None \<Rightarrow> []
         | Some v \<Rightarrow>
             add_row ''Instance type'' (vm_instancetype v) @
             add_row ''Preference'' (vm_preference v) @
             (if vm_cpu_cores v > 0 then add_row ''CPU'' (itoa (vm_cpu_cores v) @ '' vCPU'') else []) @
             add_row ''Memory'' (vm_memory v) @
             concat (map (\<lambda>d. add_row ''Disk'' (if dk_size d = '''' then dk_name d else DiskLabel (dk_name d) (dk_size d) (dk_class d))) (vm_disks v)) @
             concat (map (\<lambda>n. add_row ''Network'' (nc_name n)) (vm_networks v)) @
             add_row ''Power'' (vm_power v)))"

definition blank_item :: draft_item where
  "blank_item = \<lparr>im_kind = '''', im_resource = '''', im_namespace = '''', im_name = '''', im_changes = [], im_yaml = '''', im_base_yaml = '''', im_edit = None\<rparr>"

definition doc_item :: "string \<Rightarrow> document \<Rightarrow> draft_item" where
  "doc_item kind d =
     blank_item\<lparr>im_kind := kind, im_namespace := or_namespace (dc_ref d), im_name := or_name (dc_ref d),
       im_resource := resourceOf (or_kind (dc_ref d)), im_yaml := dc_raw d\<rparr>"

definition after_item :: "document list \<Rightarrow> document \<Rightarrow> draft_item list" where
  "after_item before d =
     (case doc_at before (dc_ref d) of
        None \<Rightarrow> [(doc_item ''create'' d)\<lparr>im_changes := createChanges d\<rparr>]
      | Some prev \<Rightarrow>
          if dc_raw prev = dc_raw d then []
          else [(doc_item ''edit'' d)\<lparr>im_changes := editChanges prev d, im_base_yaml := dc_raw prev\<rparr>])"

definition gone_item :: "document list \<Rightarrow> document \<Rightarrow> draft_item list" where
  "gone_item after d =
     (if doc_at after (dc_ref d) \<noteq> None then []
      else [(doc_item ''delete'' d)\<lparr>im_changes := [mk_change ''lifecycle'' ''remove'' (qualified_ref (dc_ref d)) '''']\<rparr>])"

definition file_items :: "yaml_lib \<Rightarrow> yaml_docs \<Rightarrow> file_change \<Rightarrow> draft_item list" where
  "file_items yl docs_of f =
     (let before = documentsIn yl docs_of (fc_path f) (fc_before f); after = documentsIn yl docs_of (fc_path f) (fc_after f) in
      concat (map (after_item before) after) @ concat (map (gone_item after) before))"

definition commitItems_of :: "yaml_lib \<Rightarrow> yaml_docs \<Rightarrow> file_change list \<Rightarrow> draft_item list" where
  "commitItems_of yl docs_of files = concat (map (file_items yl docs_of) files)"

end
