(* ===== verification/Forge_Client.thy ===== *)
theory Forge_Client
  imports Git_Tree Forge_Url
begin

text \<open>
  \<open>pkg/forge\<close>: the client of the git forge (\<open>forge.go\<close>, \<open>pr.go\<close>). What the forge answers to each call is the record
  \<open>forge_svc\<close>, per repository; a call that fails is \<open>Inl\<close>. A time is a number, the zero time 0.
\<close>

section \<open>The forge's answers\<close>

record pull =
  pl_number :: int
  pl_url :: string
  pl_state :: string
  pl_merged :: bool
  pl_merged_at :: int
  pl_updated_at :: int
  pl_title :: string
  pl_head_ref :: string
  pl_head_sha :: string
  pl_base_ref :: string
  pl_user :: string

record review =
  rw_state :: string
  rw_dismissed :: bool
  rw_user :: string

record protection =
  pt_branch :: string
  pt_rule :: string
  pt_approvals :: int

type_synonym owner_repo = "string \<times> string"

record forge_svc =
  fo_base :: string
  fo_all :: "owner_repo \<Rightarrow> string \<Rightarrow> string \<Rightarrow> fault + pull list"
  fo_pull :: "owner_repo \<Rightarrow> int \<Rightarrow> fault + pull"
  fo_open :: "owner_repo \<Rightarrow> string \<Rightarrow> int \<Rightarrow> fault + pull list"
  fo_closed :: "owner_repo \<Rightarrow> string \<Rightarrow> int \<Rightarrow> fault + pull list"
  fo_create :: "owner_repo \<Rightarrow> string \<Rightarrow> string \<Rightarrow> string \<Rightarrow> string \<Rightarrow> fault + pull"
  fo_reopen :: "owner_repo \<Rightarrow> int \<Rightarrow> fault + pull"
  fo_reviews :: "owner_repo \<Rightarrow> int \<Rightarrow> fault + review list"
  fo_rules :: "owner_repo \<Rightarrow> fault + protection list"
  fo_status :: "owner_repo \<Rightarrow> string \<Rightarrow> fault + string \<times> int"
  fo_exists :: "owner_repo \<Rightarrow> fault + bool"
  fo_new_repo :: "owner_repo \<Rightarrow> fault + unit"

section \<open>Clients\<close>

text \<open>A nil factory is \<open>None\<close>, and so is a client for a URL without owner and repository.\<close>

definition For :: "forge_svc option \<Rightarrow> string \<Rightarrow> (forge_svc \<times> owner_repo) option" where
  "For f repoURL =
     (case f of None \<Rightarrow> None | Some s \<Rightarrow> (case ownerRepo repoURL of None \<Rightarrow> None | Some c \<Rightarrow> Some (s, c)))"

definition SameForge :: "forge_svc option \<Rightarrow> string \<Rightarrow> bool" where
  "SameForge f repoURL =
     (case f of None \<Rightarrow> False
      | Some s \<Rightarrow> (let host = pd_host (parseURL repoURL) in host = '''' \<or> host = pd_host (parseURL (fo_base s))))"

definition EnsureRepo :: "forge_svc \<times> owner_repo \<Rightarrow> fault + bool" where
  "EnsureRepo c =
     (case fo_exists (fst c) (snd c) of
        Inl e \<Rightarrow> Inl e
      | Inr True \<Rightarrow> Inr False
      | Inr False \<Rightarrow> (case fo_new_repo (fst c) (snd c) of Inl e \<Rightarrow> Inl e | Inr _ \<Rightarrow> Inr True))"

definition RepoExists :: "forge_svc \<times> owner_repo \<Rightarrow> fault + bool" where
  "RepoExists c = fo_exists (fst c) (snd c)"

section \<open>Pull requests\<close>

definition pick_pull :: "string \<Rightarrow> pull list \<Rightarrow> pull option" where
  "pick_pull head prs =
     (let mine = filter (\<lambda>p. pl_head_ref p = head) prs in
      case find (\<lambda>p. pl_state p = ''open'') mine of
        Some p \<Rightarrow> Some p
      | None \<Rightarrow> (case mine of [] \<Rightarrow> None | p # _ \<Rightarrow> Some p))"

definition FindPR :: "forge_svc \<times> owner_repo \<Rightarrow> string \<Rightarrow> string \<Rightarrow> fault + pull option" where
  "FindPR c head base = map_sum id (pick_pull head) (fo_all (fst c) (snd c) head base)"

definition OpenPRs :: "forge_svc \<times> owner_repo \<Rightarrow> string \<Rightarrow> int \<Rightarrow> fault + pull list" where
  "OpenPRs c base limit = map_sum id (filter (\<lambda>p. pl_base_ref p = base)) (fo_open (fst c) (snd c) base limit)"

definition MergedPRs :: "forge_svc \<times> owner_repo \<Rightarrow> string \<Rightarrow> int \<Rightarrow> fault + pull list" where
  "MergedPRs c base limit = map_sum id (filter (\<lambda>p. pl_merged p \<and> pl_base_ref p = base)) (fo_closed (fst c) (snd c) base limit)"

section \<open>Review state\<close>

definition verdict_of :: "review \<Rightarrow> bool" where
  "verdict_of r = (rw_user r \<noteq> '''' \<and> \<not> rw_dismissed r \<and> (rw_state r = ''APPROVED'' \<or> rw_state r = ''REQUEST_CHANGES''))"

definition latest_verdicts :: "review list \<Rightarrow> (string \<times> string) list" where
  "latest_verdicts rs = fold (\<lambda>r m. if verdict_of r then AList.update (rw_user r) (rw_state r) m else m) rs []"

definition count_approvals :: "review list \<Rightarrow> nat" where
  "count_approvals rs = length (filter (\<lambda>(_, s). s = ''APPROVED'') (latest_verdicts rs))"

definition Approvals :: "forge_svc \<times> owner_repo \<Rightarrow> int \<Rightarrow> fault + nat" where
  "Approvals c n = map_sum id count_approvals (fo_reviews (fst c) (snd c) n)"

definition RequiredApprovals :: "forge_svc \<times> owner_repo \<Rightarrow> string \<Rightarrow> fault + int option" where
  "RequiredApprovals c branch =
     map_sum id (\<lambda>rules. map_option pt_approvals (find (\<lambda>r. pt_branch r = branch \<or> pt_rule r = branch) rules)) (fo_rules (fst c) (snd c))"

definition CombinedStatus :: "forge_svc \<times> owner_repo \<Rightarrow> string \<Rightarrow> fault + string" where
  "CombinedStatus c sha = map_sum id (\<lambda>(state, total). if total = 0 then '''' else state) (fo_status (fst c) (snd c) sha)"

definition PullURL :: "forge_svc \<times> owner_repo \<Rightarrow> int \<Rightarrow> string" where
  "PullURL c n = fo_base (fst c) @ ''/'' @ fst (snd c) @ ''/'' @ snd (snd c) @ ''/pulls/'' @ itoa n"

definition CompareURL :: "forge_svc \<times> owner_repo \<Rightarrow> string \<Rightarrow> string \<Rightarrow> string" where
  "CompareURL c head base = fo_base (fst c) @ ''/'' @ fst (snd c) @ ''/'' @ snd (snd c) @ ''/compare/'' @ base @ ''...'' @ head"

section \<open>Merge subjects\<close>

text \<open>The regular expression \<open>mergeSubject\<close>: its first group is greedy, so the last place the rest can match from.\<close>

definition digits_then :: "string \<Rightarrow> (string \<times> string) option" where
  "digits_then s = (let ds = takeWhile is_digit s in if ds = [] then None else Some (ds, drop (length ds) s))"

definition from_into :: "string \<Rightarrow> bool" where
  "from_into s =
     (has_prefix s '') from '' \<and>
      (let r = drop 7 s in list_ex (\<lambda>i. has_prefix (drop i r) '' into '' \<and> length r > i + 6) [1..<length r]))"

definition plain_text :: "string \<Rightarrow> bool" where
  "plain_text s = (CHR 0x0A \<notin> set s)"

definition merge_match :: "string \<Rightarrow> (string \<times> string) option" where
  "merge_match s =
     (case cut_prefix s (''Merge pull request '' @ [CHR 0x27]) of
        None \<Rightarrow> None
      | Some r \<Rightarrow>
          (case List.map_filter (\<lambda>i.
               if has_prefix (drop i r) (CHR 0x27 # '' (#'') then
                 (case digits_then (drop (i + 4) r) of
                    Some (ds, rest) \<Rightarrow> if from_into rest then Some (take i r, ds) else None
                  | None \<Rightarrow> None)
               else None) (rev [0..<length r]) of
             m # _ \<Rightarrow> Some m
           | [] \<Rightarrow> None))"

definition squash_match :: "string \<Rightarrow> (string \<times> string) option" where
  "squash_match s =
     (case List.map_filter (\<lambda>i.
          if has_prefix (drop i s) '' (#'' then
            (case digits_then (drop (i + 3) s) of Some (ds, rest) \<Rightarrow> if rest = '')'' then Some (take i s, ds) else None | None \<Rightarrow> None)
          else None) (rev [0..<length s]) of
        m # _ \<Rightarrow> Some m
      | [] \<Rightarrow> None)"

text \<open>\<open>strconv.Atoi\<close> fails on a number past the largest int.\<close>

definition digits_value :: "string \<Rightarrow> int" where
  "digits_value s = foldl (\<lambda>n c. n * 10 + (of_char c - 48)) 0 s"

definition MergeSubject :: "string \<Rightarrow> (string \<times> int) option" where
  "MergeSubject subject =
     (let s = TrimSpace subject in
      if \<not> plain_text s then None
      else
        (case (case merge_match s of Some m \<Rightarrow> Some m | None \<Rightarrow> squash_match s) of
           None \<Rightarrow> None
         | Some (title, ds) \<Rightarrow>
             (let n = digits_value ds in if n > 2 ^ 63 - 1 \<or> n \<le> 0 \<or> title = '''' then None else Some (title, n))))"

lemma merge_subject_examples:
  "MergeSubject (''Merge pull request '' @ [CHR 0x27] @ ''Update vm (#3)'' @ [CHR 0x27] @ '' (#12) from a/b into main'') = Some (''Update vm (#3)'', 12)"
  "MergeSubject ''Update vm (#12)'' = Some (''Update vm'', 12)"
  "MergeSubject ''Merge branch main'' = None"
  by code_simp+

section \<open>Approvals are the latest word\<close>

text \<open>The reviewer's last standing verdict.\<close>

definition last_verdict :: "review list \<Rightarrow> string \<Rightarrow> string option" where
  "last_verdict rs u = (case filter (\<lambda>r. verdict_of r \<and> rw_user r = u) rs of [] \<Rightarrow> None | vs \<Rightarrow> Some (rw_state (last vs)))"

lemma fold_verdicts:
  "map_of (fold (\<lambda>r m. if verdict_of r then AList.update (rw_user r) (rw_state r) m else m) rs m) u =
     (case last_verdict rs u of None \<Rightarrow> map_of m u | Some s \<Rightarrow> Some s)"
proof (induction rs arbitrary: m)
  case (Cons r rs)
  then show ?case by (auto simp: last_verdict_def update_conv' split: list.splits)
qed (simp add: last_verdict_def)

lemma distinct_verdicts:
  "distinct (map fst m) \<Longrightarrow> distinct (map fst (fold (\<lambda>r m. if verdict_of r then AList.update (rw_user r) (rw_state r) m else m) rs m))"
  by (induction rs arbitrary: m) (auto simp: distinct_update)

text \<open>The approval count of a pull request is the number of reviewers whose latest standing review approves: a later request for
  changes withdraws an earlier approval, a comment or a dismissed review counts for nothing, and nobody counts twice.\<close>
theorem approvals_latest_word: "count_approvals rs = card {u. last_verdict rs u = Some ''APPROVED''}"
proof -
  let ?m = "latest_verdicts rs"
  have m: "map_of ?m u = last_verdict rs u" for u
    by (simp add: latest_verdicts_def fold_verdicts split: option.splits)
  have d: "distinct (map fst ?m)" by (simp add: latest_verdicts_def distinct_verdicts)
  let ?f = "filter (\<lambda>(_, s). s = ''APPROVED'') ?m"
  have df: "distinct (map fst ?f)" using d by (rule distinct_map_filter)
  have "set (map fst ?f) = {u. last_verdict rs u = Some ''APPROVED''}"
    using d by (force simp: m[symmetric])
  then have "card {u. last_verdict rs u = Some ''APPROVED''} = length (map fst ?f)"
    using distinct_card[OF df] by simp
  then show ?thesis by (simp add: count_approvals_def)
qed

end
