(* ===== verification/Project_Resolve.thy ===== *)
theory Project_Resolve
  imports Forge_Url
begin

text \<open>
  \<open>internal/project/project.go\<close>: tenants resolved from the labeled namespaces of the cluster. The
  per-project accumulators of the Go map are an association list in first-seen order; the final
  sort makes the order of that map and of the namespaces invisible.
\<close>

section \<open>The resolver\<close>

record project_info =
  pi_name :: string
  pi_repo :: string
  pi_namespaces :: "string list"
  pi_error :: string

record namespace_obj =
  no_name :: string
  no_labels :: labels
  no_annotations :: labels

record resolver =
  rv_label :: string
  rv_anno :: string
  rv_base :: string

definition PlatformName :: string where
  "PlatformName = ''platform''"

text \<open>\<open>accum\<close>: the member namespaces and the distinct repositories they annotate.\<close>

record accum =
  ac_namespaces :: "string list"
  ac_repos :: "string list"

definition accum_add :: "resolver \<Rightarrow> namespace_obj \<Rightarrow> accum \<Rightarrow> accum" where
  "accum_add r n a =
     (let repo = label_get (no_annotations n) (rv_anno r);
          a' = a\<lparr>ac_namespaces := ac_namespaces a @ [no_name n]\<rparr>
      in if repo \<noteq> '''' then
           a'\<lparr>ac_repos := (let u = ResolveRef (rv_base r) repo in if u \<in> set (ac_repos a) then ac_repos a else ac_repos a @ [u])\<rparr>
         else a')"

fun update_assoc :: "string \<Rightarrow> ('a option \<Rightarrow> 'a) \<Rightarrow> (string \<times> 'a) list \<Rightarrow> (string \<times> 'a) list" where
  "update_assoc k f [] = [(k, f None)]"
| "update_assoc k f ((j, v) # m) = (if j = k then (j, f (Some v)) # m else (j, v) # update_assoc k f m)"

definition project_of :: "resolver \<Rightarrow> (string \<Rightarrow> bool) option \<Rightarrow> namespace_obj \<Rightarrow> string option" where
  "project_of r visible n =
     (if (case visible of None \<Rightarrow> False | Some v \<Rightarrow> \<not> v (no_name n)) then None
      else (let name = label_get (no_labels n) (rv_label r) in
            if name = '''' \<or> name = PlatformName then None else Some name))"

definition resolve_step :: "resolver \<Rightarrow> (string \<Rightarrow> bool) option \<Rightarrow> (string \<times> accum) list \<Rightarrow> namespace_obj \<Rightarrow> (string \<times> accum) list" where
  "resolve_step r visible m n =
     (case project_of r visible n of
        None \<Rightarrow> m
      | Some name \<Rightarrow>
          update_assoc name (\<lambda>a. accum_add r n (case a of None \<Rightarrow> \<lparr>ac_namespaces = [], ac_repos = []\<rparr> | Some a \<Rightarrow> a)) m)"

definition project_info_of :: "string \<times> accum \<Rightarrow> project_info" where
  "project_info_of na =
     (let (name, a) = na;
          info = \<lparr>pi_name = name, pi_repo = '''', pi_namespaces = sort (ac_namespaces a), pi_error = ''''\<rparr>
      in case ac_repos a of
           [] \<Rightarrow> info\<lparr>pi_error := ''no repo configured (set the dotvirt.io/repo annotation)''\<rparr>
         | [repo] \<Rightarrow>
             (if repo = '''' then
                info\<lparr>pi_error := ''repo ref is relative but no forge is configured to resolve it''\<rparr>
              else info\<lparr>pi_repo := repo\<rparr>)
         | _ \<Rightarrow> info\<lparr>pi_error := ''conflicting dotvirt.io/repo annotations across the project's namespaces''\<rparr>)"

definition project_less :: "project_info \<Rightarrow> project_info \<Rightarrow> bool" where
  "project_less a b = (pi_name a < pi_name b)"

definition Resolve :: "resolver \<Rightarrow> namespace_obj list \<Rightarrow> (string \<Rightarrow> bool) option \<Rightarrow> project_info list" where
  "Resolve r namespaces visible =
     go_sort project_less (map project_info_of (foldl (resolve_step r visible) [] namespaces))"

interpretation project_order: less_func project_less
  by (rule less_func_key [where key = pi_name]) (simp add: project_less_def)

section \<open>What is grouped\<close>

lemma update_assoc_keys: "set (map fst (update_assoc k f m)) = insert k (set (map fst m))"
  by (induction k f m rule: update_assoc.induct) (simp_all add: insert_commute)

lemma update_assoc_distinct: "distinct (map fst m) \<Longrightarrow> distinct (map fst (update_assoc k f m))"
proof (induction m)
  case (Cons x m)
  with update_assoc_keys[of k f m] show ?case by (cases x) auto
qed simp

lemma map_of_update_assoc: "map_of (update_assoc k f m) j = (if j = k then Some (f (map_of m k)) else map_of m j)"
  by (induction m) auto

text \<open>The accumulator of a project: its visible members in order, and their resolved references.\<close>

definition members :: "resolver \<Rightarrow> (string \<Rightarrow> bool) option \<Rightarrow> namespace_obj list \<Rightarrow> string \<Rightarrow> namespace_obj list" where
  "members r visible ns name = filter (\<lambda>n. project_of r visible n = Some name) ns"

definition member_repos :: "resolver \<Rightarrow> namespace_obj list \<Rightarrow> string set" where
  "member_repos r ms = {ResolveRef (rv_base r) (label_get (no_annotations n) (rv_anno r)) |n. n \<in> set ms \<and>
     label_get (no_annotations n) (rv_anno r) \<noteq> ''''}"

definition accum_ok :: "resolver \<Rightarrow> namespace_obj list \<Rightarrow> accum \<Rightarrow> bool" where
  "accum_ok r ms a = (ac_namespaces a = map no_name ms \<and> distinct (ac_repos a) \<and> set (ac_repos a) = member_repos r ms)"

lemma accum_ok_Nil: "accum_ok r [] \<lparr>ac_namespaces = [], ac_repos = []\<rparr>"
  by (simp add: accum_ok_def member_repos_def)

lemma accum_ok_add: "accum_ok r ms a \<Longrightarrow> accum_ok r (ms @ [n]) (accum_add r n a)"
  by (auto simp: accum_ok_def accum_add_def member_repos_def Let_def)

definition grouped :: "resolver \<Rightarrow> (string \<Rightarrow> bool) option \<Rightarrow> namespace_obj list \<Rightarrow> (string \<times> accum) list" where
  "grouped r visible ns = foldl (resolve_step r visible) [] ns"

definition slot_ok :: "resolver \<Rightarrow> namespace_obj list \<Rightarrow> accum option \<Rightarrow> bool" where
  "slot_ok r ms slot = (case slot of None \<Rightarrow> ms = [] | Some a \<Rightarrow> ms \<noteq> [] \<and> accum_ok r ms a)"

lemma resolve_fold:
  "distinct (map fst (grouped r visible ns)) \<and>
    (\<forall>name. slot_ok r (members r visible ns name) (map_of (grouped r visible ns) name))"
proof (induction ns rule: rev_induct)
  case Nil
  then show ?case by (simp add: grouped_def members_def slot_ok_def)
next
  case (snoc n ns)
  let ?m = "grouped r visible"
  have step: "?m (ns @ [n]) = resolve_step r visible (?m ns) n" by (simp add: grouped_def)
  show ?case
  proof (cases "project_of r visible n")
    case None
    then have "members r visible (ns @ [n]) name = members r visible ns name" for name by (simp add: members_def)
    with None snoc step show ?thesis by (simp add: resolve_step_def)
  next
    case (Some p)
    let ?f = "\<lambda>a. accum_add r n (case a of None \<Rightarrow> \<lparr>ac_namespaces = [], ac_repos = []\<rparr> | Some a \<Rightarrow> a)"
    have m: "?m (ns @ [n]) = update_assoc p ?f (?m ns)" using Some step by (simp add: resolve_step_def)
    have mem: "members r visible (ns @ [n]) name = (if name = p then members r visible ns p @ [n] else members r visible ns name)" for name
      using Some by (simp add: members_def)
    have "slot_ok r (members r visible ns p) (map_of (?m ns) p)" using snoc by blast
    then have new: "accum_ok r (members r visible ns p @ [n]) (?f (map_of (?m ns) p))"
      using accum_ok_add[OF accum_ok_Nil, of r n]
      by (cases "map_of (?m ns) p") (simp_all add: slot_ok_def accum_ok_add)
    then have slots: "slot_ok r (members r visible (ns @ [n]) name) (map_of (?m (ns @ [n])) name)" for name
    proof (cases "name = p")
      case True
      with new show ?thesis by (simp add: m mem map_of_update_assoc slot_ok_def)
    next
      case False
      with conjunct2[OF snoc, THEN spec, of name] show ?thesis by (simp add: m mem map_of_update_assoc)
    qed
    have "distinct (map fst (?m (ns @ [n])))"
      unfolding m by (rule update_assoc_distinct[OF conjunct1[OF snoc]])
    with slots show ?thesis by blast
  qed
qed

lemma grouped_Some:
  "map_of (grouped r visible ns) name = Some a \<Longrightarrow> members r visible ns name \<noteq> [] \<and> accum_ok r (members r visible ns name) a"
  using conjunct2[OF resolve_fold[of r visible ns], THEN spec, of name] by (simp add: slot_ok_def)

lemma grouped_None:
  "map_of (grouped r visible ns) name = None \<Longrightarrow> members r visible ns name = []"
  using conjunct2[OF resolve_fold[of r visible ns], THEN spec, of name] by (simp add: slot_ok_def)

lemma project_info_sel [simp]:
  "pi_name (project_info_of (name, a)) = name" "pi_namespaces (project_info_of (name, a)) = sort (ac_namespaces a)"
  by (auto simp: project_info_of_def Let_def split: list.splits)

lemma Resolve_mem:
  "p \<in> set (Resolve r ns visible) \<longleftrightarrow>
     (\<exists>a. map_of (grouped r visible ns) (pi_name p) = Some a \<and> p = project_info_of (pi_name p, a))"
  using resolve_fold[of r visible ns]
  by (auto simp: Resolve_def grouped_def[symmetric])

lemma Resolve_names: "distinct (map pi_name (Resolve r ns visible))"
proof -
  let ?m = "grouped r visible ns"
  have "mset (map pi_name (Resolve r ns visible)) = mset (map pi_name (map project_info_of ?m))"
    by (simp add: Resolve_def grouped_def image_mset.compositionality)
  moreover have "map pi_name (map project_info_of ?m) = map fst ?m" by auto
  ultimately show ?thesis using resolve_fold[of r visible ns] by (metis mset_eq_imp_distinct_iff)
qed

lemma Resolve_namespaces:
  assumes "p \<in> set (Resolve r ns visible)"
  shows "pi_namespaces p = sort (map no_name (members r visible ns (pi_name p)))" "members r visible ns (pi_name p) \<noteq> []"
proof -
  from assms obtain a where a: "map_of (grouped r visible ns) (pi_name p) = Some a" "p = project_info_of (pi_name p, a)"
    by (auto simp: Resolve_mem)
  from grouped_Some[OF a(1)] have ok: "members r visible ns (pi_name p) \<noteq> []" "accum_ok r (members r visible ns (pi_name p)) a"
    by simp_all
  from a(2) have "pi_namespaces p = sort (ac_namespaces a)" by (metis project_info_sel(2))
  with ok show "pi_namespaces p = sort (map no_name (members r visible ns (pi_name p)))" "members r visible ns (pi_name p) \<noteq> []"
    by (simp_all add: accum_ok_def)
qed

lemma members_mem: "n \<in> set (members r visible ns name) \<longleftrightarrow> n \<in> set ns \<and> project_of r visible n = Some name"
  by (auto simp: members_def)

lemma project_of_visible:
  "project_of r (Some v) n = Some name \<longleftrightarrow> v (no_name n) \<and> project_of r None n = Some name"
  "project_of r visible n = Some name \<Longrightarrow> name \<noteq> '''' \<and> name \<noteq> PlatformName \<and> name = label_get (no_labels n) (rv_label r)"
  by (auto simp: project_of_def Let_def split: option.splits if_splits)

lemma Resolve_exists: "n \<in> set ns \<Longrightarrow> project_of r visible n = Some name \<Longrightarrow> \<exists>p \<in> set (Resolve r ns visible). pi_name p = name"
proof -
  assume "n \<in> set ns" "project_of r visible n = Some name"
  then have "members r visible ns name \<noteq> []" by (auto simp: members_def filter_empty_conv)
  with grouped_None obtain a where "map_of (grouped r visible ns) name = Some a" by (metis not_Some_eq)
  then have "project_info_of (name, a) \<in> set (Resolve r ns visible)" by (simp add: Resolve_mem)
  then show ?thesis by (metis project_info_sel(1))
qed

lemma Resolve_repo:
  assumes "p \<in> set (Resolve r ns visible)"
  shows "pi_repo p = u \<and> u \<noteq> '''' \<longleftrightarrow> member_repos r (members r visible ns (pi_name p)) = {u} \<and> u \<noteq> ''''"
    "pi_error p = '''' \<longleftrightarrow> pi_repo p \<noteq> ''''"
proof -
  from assms obtain a where a: "map_of (grouped r visible ns) (pi_name p) = Some a" "p = project_info_of (pi_name p, a)"
    by (auto simp: Resolve_mem)
  from grouped_Some[OF a(1)] have ok: "accum_ok r (members r visible ns (pi_name p)) a" by simp
  define name where "name = pi_name p"
  have p: "p = project_info_of (name, a)" using a(2) by (simp add: name_def)
  have d: "distinct (ac_repos a)" "set (ac_repos a) = member_repos r (members r visible ns name)"
    using ok by (simp_all add: accum_ok_def name_def)
  show "pi_error p = '''' \<longleftrightarrow> pi_repo p \<noteq> ''''"
    unfolding p by (auto simp: project_info_of_def Let_def split: list.splits)
  have "pi_repo p = u \<and> u \<noteq> '''' \<longleftrightarrow> ac_repos a = [u] \<and> u \<noteq> ''''"
    unfolding p by (auto simp: project_info_of_def Let_def split: list.splits)
  also have "\<dots> \<longleftrightarrow> set (ac_repos a) = {u} \<and> u \<noteq> ''''"
    using d(1) by (cases "ac_repos a"; cases "tl (ac_repos a)") auto
  finally show "pi_repo p = u \<and> u \<noteq> '''' \<longleftrightarrow> member_repos r (members r visible ns (pi_name p)) = {u} \<and> u \<noteq> ''''"
    using d(2) by (simp add: name_def)
qed

end
