(* ===== verification/Netgen_Doc.thy ===== *)
theory Netgen_Doc
  imports Go_Prelude
begin

text \<open>
  The document shapes of \<open>internal/netgen/doc.go\<close>: the Kubernetes network and policy
  objects as the two planes read them. A pointer field is an option, and so is a slice whose
  nilness the code reads (\<open>spec.egress\<close> of a NetworkPolicy, \<open>networks\<close> of an admin peer).
  A label selector is the Kubernetes API type it is: match labels and match expressions.
\<close>

section \<open>Selectors\<close>

record requirement =
  rq_key :: string
  rq_operator :: string
  rq_values :: "string list"

record label_selector =
  match_labels :: labels
  match_exprs :: "requirement list"

definition NamespaceNameLabel :: string where
  "NamespaceNameLabel = ''kubernetes.io/metadata.name''"

definition NameIn :: "requirement \<Rightarrow> string list option" where
  "NameIn r =
     (if rq_key r \<noteq> NamespaceNameLabel \<or> rq_operator r \<noteq> ''In'' then None
      else Some (rq_values r))"

text \<open>The empty list stands for Go's nil: no caller tells the two apart (\<open>NamespaceNames\<close> never
  returns an empty slice that is not nil).\<close>

definition NamespaceNames :: "label_selector option \<Rightarrow> string list" where
  "NamespaceNames so =
     (case so of None \<Rightarrow> []
      | Some sel \<Rightarrow>
          if length (match_labels sel) = 1 \<and> length (match_exprs sel) = 0 then
            (let name = label_get (match_labels sel) NamespaceNameLabel
             in if name \<noteq> '''' then [name] else [])
          else if length (match_labels sel) = 0 \<and> length (match_exprs sel) = 1 then
            (case NameIn (hd (match_exprs sel)) of
               None \<Rightarrow> []
             | Some vals \<Rightarrow> filter (\<lambda>v. v \<noteq> '''') vals)
          else [])"

section \<open>Networks\<close>

record layer2 =
  l2_role :: string
  l2_subnets :: "string list"

record layer3 =
  l3_role :: string
  l3_subnets :: "string list"  \<comment> \<open>each entry's \<open>cidr\<close>\<close>

record localnet =
  ln_role :: string
  ln_physical_network :: string
  ln_subnets :: "string list"
  ln_vlan_id :: int

record network_config =
  nc_topology :: string
  nc_layer2 :: layer2
  nc_layer3 :: layer3
  nc_localnet :: localnet

definition Role :: "network_config \<Rightarrow> string" where
  "Role c =
     (let t = to_lower (nc_topology c) in
      if t = ''layer2'' then l2_role (nc_layer2 c)
      else if t = ''layer3'' then l3_role (nc_layer3 c)
      else if t = ''localnet'' then ln_role (nc_localnet c)
      else '''')"

definition Subnets :: "network_config \<Rightarrow> string list" where
  "Subnets c =
     (let t = to_lower (nc_topology c) in
      if t = ''layer2'' then l2_subnets (nc_layer2 c)
      else if t = ''layer3'' then filter (\<lambda>s. s \<noteq> '''') (l3_subnets (nc_layer3 c))
      else if t = ''localnet'' then ln_subnets (nc_localnet c)
      else [])"

text \<open>\<open>spec\<close> of a UserDefinedNetwork holds the body itself, of a ClusterUserDefinedNetwork
  under \<open>network\<close>.\<close>

record network_doc =
  nd_kind :: string
  nd_config :: network_config
  nd_namespace_selector :: label_selector
  nd_network :: network_config

section \<open>Ports\<close>

datatype int_or_string = IntVal int | StrVal string

record port_range_doc =
  pr_protocol :: string
  pr_start :: int
  pr_end :: int

datatype port_doc = PortDoc
  (pd_protocol: string)
  (pd_port: "int_or_string option")
  (pd_end_port: int)
  (pd_port_number: "port_doc option")
  (pd_port_range: "port_range_doc option")
  (pd_named_port: "string option")

section \<open>Policies\<close>

record namespaced_pod =
  np_namespace_selector :: label_selector
  np_pod_selector :: label_selector

record ip_block =
  ib_cidr :: string
  ib_except :: "string list"

record network_policy_peer =
  npp_namespace_selector :: "label_selector option"
  npp_pod_selector :: "label_selector option"
  npp_ip_block :: "ip_block option"

record network_policy_rule =
  npr_from :: "network_policy_peer list"
  npr_to :: "network_policy_peer list"
  npr_ports :: "port_doc list"

record network_policy_doc =
  npd_pod_selector :: label_selector
  npd_policy_types :: "string list"
  npd_ingress :: "network_policy_rule list"
  npd_egress :: "network_policy_rule list option"

record admin_peer_doc =
  ap_namespaces :: "label_selector option"
  ap_pods :: "namespaced_pod option"
  ap_nodes :: "label_selector option"
  ap_networks :: "string list option"

record admin_policy_rule_doc =
  ar_action :: string
  ar_from :: "admin_peer_doc list"
  ar_to :: "admin_peer_doc list"
  ar_ports :: "port_doc list"

record admin_network_policy_doc =
  and_kind :: string
  and_priority :: int
  and_subject_namespaces :: "label_selector option"
  and_subject_pods :: "namespaced_pod option"
  and_ingress :: "admin_policy_rule_doc list"
  and_egress :: "admin_policy_rule_doc list"

record egress_destination =
  ed_cidr_selector :: string
  ed_dns_name :: string
  ed_node_selector :: "label_selector option"

record egress_firewall_rule_doc =
  ef_type :: string
  ef_to :: egress_destination
  ef_ports :: "port_doc list"

record egress_firewall_doc =
  efd_egress :: "egress_firewall_rule_doc list"

record egress_ip_doc =
  eid_egress_ips :: "string list"
  eid_namespace_selector :: label_selector
  eid_pod_selector :: label_selector

record external_route_doc =
  erd_from_namespace_selector :: label_selector
  erd_next_hops :: "string list"  \<comment> \<open>each static hop's \<open>ip\<close>\<close>

record bridge_mapping =
  bm_localnet :: string
  bm_bridge :: string
  bm_state :: string

record uplink_doc =
  ud_node_selector :: labels
  ud_interfaces :: "(string \<times> string list) list"  \<comment> \<open>name, bridge port names\<close>
  ud_bridge_mappings :: "bridge_mapping list"

section \<open>What the decoded namespaces pin\<close>

text \<open>\<open>NamespaceNames\<close> names only namespaces the selector provably requires: each name is a
  value of the name label, and an empty answer leaves the row unfiltered.\<close>

lemma NamespaceNames_nonempty: "n \<in> set (NamespaceNames so) \<Longrightarrow> n \<noteq> ''''"
  by (auto simp: NamespaceNames_def Let_def split: option.splits if_splits)

lemma NamespaceNames_pins:
  assumes "n \<in> set (NamespaceNames (Some sel))"
  shows "(match_labels sel = [(NamespaceNameLabel, n)] \<and> match_exprs sel = []) \<or>
         (match_labels sel = [] \<and> (\<exists>r. match_exprs sel = [r] \<and> NameIn r \<noteq> None \<and> n \<in> set (rq_values r)))"
proof (cases "length (match_labels sel) = 1 \<and> length (match_exprs sel) = 0")
  case True
  then obtain k v where kv: "match_labels sel = [(k, v)]"
    by (cases "match_labels sel") auto
  with assms True show ?thesis
    by (auto simp: NamespaceNames_def label_get_def Let_def split: if_splits option.splits)
next
  case False
  have len: "length (match_labels sel) = 0 \<and> length (match_exprs sel) = 1"
  proof (rule ccontr)
    assume "\<not> ?thesis"
    with False have "NamespaceNames (Some sel) = []"
      unfolding NamespaceNames_def option.case by (simp only: if_False)
    with assms show False by simp
  qed
  then obtain r where "match_exprs sel = [r]"
    by (cases "match_exprs sel") auto
  with assms len show ?thesis
    by (auto simp: NamespaceNames_def NameIn_def split: if_splits)
qed

end
