(* ===== verification/Go_Netip.thy ===== *)
theory Go_Netip
  imports Go_Prelude "HOL-Library.Word"
begin

unbundle bit_operations_syntax

text \<open>
  The part of Go's \<open>net/netip\<close> the policy trace calls: \<open>ParseAddr\<close>, \<open>ParsePrefix\<close> and
  \<open>Prefix.Contains\<close>, as the standard library implements them. An address keeps its family
  (an IPv4-mapped IPv6 address stays an IPv6 address) and an IPv6 address its zone. A parse
  error is \<^const>\<open>None\<close>.
\<close>

datatype addr = V4 "32 word" | V6 "128 word" string

record prefix =
  pfx_addr :: addr
  pfx_bits :: nat

section \<open>Numbers\<close>

definition digit_val :: "char \<Rightarrow> int option" where
  "digit_val c = (let n = (of_char c :: int) in if 48 \<le> n \<and> n \<le> 57 then Some (n - 48) else None)"

definition hex_val :: "char \<Rightarrow> int option" where
  "hex_val c =
     (let n = (of_char c :: int) in
      if 48 \<le> n \<and> n \<le> 57 then Some (n - 48)
      else if 97 \<le> n \<and> n \<le> 102 then Some (n - 97 + 10)
      else if 65 \<le> n \<and> n \<le> 70 then Some (n - 65 + 10)
      else None)"

definition dec_val :: "string \<Rightarrow> int option" where
  "dec_val s =
     foldl (\<lambda>acc c. case (acc, digit_val c) of (Some v, Some d) \<Rightarrow> Some (v * 10 + d) | _ \<Rightarrow> None)
       (if s = [] then None else Some 0) s"

section \<open>Addresses\<close>

text \<open>\<open>parseIPv4Fields\<close>: digits seen in the field, its value, the fields before it.\<close>

fun v4_fields :: "nat \<Rightarrow> int \<Rightarrow> int list \<Rightarrow> string \<Rightarrow> int list option" where
  "v4_fields dl v fs [] = (if length fs < 3 then None else Some (fs @ [v]))"
| "v4_fields dl v fs (c # cs) =
     (case digit_val c of
        Some d \<Rightarrow>
          (if dl = 1 \<and> v = 0 then None
           else if v * 10 + d > 255 then None
           else v4_fields (Suc dl) (v * 10 + d) fs cs)
      | None \<Rightarrow>
          (if c = CHR ''.'' then
             (if dl = 0 \<or> cs = [] then None
              else if length fs = 3 then None
              else v4_fields 0 0 (fs @ [v]) cs)
           else None))"

definition bytes_val :: "int list \<Rightarrow> int" where
  "bytes_val bs = foldl (\<lambda>v b. v * 256 + b) 0 bs"

definition parse_v4 :: "string \<Rightarrow> addr option" where
  "parse_v4 s = map_option (\<lambda>fs. V4 (word_of_int (bytes_val fs))) (v4_fields 0 0 [] s)"

text \<open>One hexadecimal group: how many digits, its value, what follows; too long is an error.\<close>

fun hex_run :: "nat \<Rightarrow> int \<Rightarrow> string \<Rightarrow> (nat \<times> int \<times> string) option" where
  "hex_run off acc [] = Some (off, acc, [])"
| "hex_run off acc (c # cs) =
     (case hex_val c of
        None \<Rightarrow> Some (off, acc, c # cs)
      | Some d \<Rightarrow> (if off > 3 then None else if acc * 16 + d > 65535 then None
                  else hex_run (Suc off) (acc * 16 + d) cs))"

lemma hex_run_rest: "hex_run off acc s = Some (off', acc', rest) \<Longrightarrow> length rest \<le> length s"
  by (induction off acc s rule: hex_run.induct) (auto split: option.splits if_splits)

text \<open>The group loop of \<open>parseIPv6\<close>: the bytes so far and where the ellipsis stands.\<close>

function v6_groups :: "string \<Rightarrow> int list \<Rightarrow> nat option \<Rightarrow> (int list \<times> nat option) option" where
  "v6_groups s ip ell =
     (if 16 \<le> length ip then (if s = [] then Some (ip, ell) else None)
      else case hex_run 0 0 s of
        None \<Rightarrow> None
      | Some (off, acc, rest) \<Rightarrow>
          if off = 0 then None
          else if rest \<noteq> [] \<and> hd rest = CHR ''.'' then
            (if ell = None \<and> length ip \<noteq> 12 then None
             else if length ip + 4 > 16 then None
             else map_option (\<lambda>fs. (ip @ fs, ell)) (v4_fields 0 0 [] s))
          else
            let ip' = ip @ [acc div 256, acc mod 256] in
            case rest of
              [] \<Rightarrow> Some (ip', ell)
            | [c] \<Rightarrow> None
            | c # d # r \<Rightarrow>
                if c \<noteq> CHR '':'' then None
                else if d = CHR '':'' then
                  (if ell \<noteq> None then None
                   else if r = [] then Some (ip', Some (length ip'))
                   else v6_groups r ip' (Some (length ip')))
                else v6_groups (d # r) ip' ell)"
  by pat_completeness auto
termination
  by (relation "measure (\<lambda>(s, ip, ell). length s)") (auto dest!: hex_run_rest)

declare v6_groups.simps [simp del]

definition v6_expand :: "int list \<Rightarrow> nat option \<Rightarrow> int list option" where
  "v6_expand ip ell =
     (if length ip < 16 then
        (case ell of None \<Rightarrow> None
         | Some e \<Rightarrow> Some (take e ip @ replicate (16 - length ip) 0 @ drop e ip))
      else if ell \<noteq> None then None else Some ip)"

definition parse_v6 :: "string \<Rightarrow> addr option" where
  "parse_v6 s0 =
     (let body = takeWhile (\<lambda>c. c \<noteq> CHR ''%'') s0;
          tail = dropWhile (\<lambda>c. c \<noteq> CHR ''%'') s0;
          zone = drop 1 tail
      in if tail \<noteq> [] \<and> zone = [] then None
         else if has_prefix body ''::'' then
           (let s = drop 2 body in
            if s = [] then Some (V6 0 zone)
            else case v6_groups s [] (Some 0) of None \<Rightarrow> None
              | Some (ip, ell) \<Rightarrow> map_option (\<lambda>bs. V6 (word_of_int (bytes_val bs)) zone) (v6_expand ip ell))
         else case v6_groups body [] None of None \<Rightarrow> None
              | Some (ip, ell) \<Rightarrow> map_option (\<lambda>bs. V6 (word_of_int (bytes_val bs)) zone) (v6_expand ip ell))"

text \<open>\<open>ParseAddr\<close>: the first of \<open>.\<close>, \<open>:\<close> and \<open>%\<close> decides the family.\<close>

definition parse_addr :: "string \<Rightarrow> addr option" where
  "parse_addr s =
     (case dropWhile (\<lambda>c. c \<notin> {CHR ''.'', CHR '':'', CHR ''%''}) s of
        [] \<Rightarrow> None
      | c # _ \<Rightarrow> if c = CHR ''.'' then parse_v4 s
                 else if c = CHR '':'' then parse_v6 s else None)"

section \<open>Prefixes\<close>

fun addr_bit_len :: "addr \<Rightarrow> nat" where
  "addr_bit_len (V4 a) = 32"
| "addr_bit_len (V6 a z) = 128"

fun addr_zone :: "addr \<Rightarrow> string" where
  "addr_zone (V4 a) = []"
| "addr_zone (V6 a z) = z"

definition parse_prefix :: "string \<Rightarrow> prefix option" where
  "parse_prefix s =
     (let r = rev s;
          bits_str = rev (takeWhile (\<lambda>c. c \<noteq> CHR ''/'') r);
          rest = dropWhile (\<lambda>c. c \<noteq> CHR ''/'') r
      in if rest = [] then None
         else case parse_addr (rev (drop 1 rest)) of
           None \<Rightarrow> None
         | Some ip \<Rightarrow>
             if addr_zone ip \<noteq> [] then None
             else if length bits_str > 1 \<and> hd bits_str = CHR ''0'' then None
             else case dec_val bits_str of
               None \<Rightarrow> None
             | Some b \<Rightarrow> if b > int (addr_bit_len ip) then None
                         else Some \<lparr>pfx_addr = ip, pfx_bits = nat b\<rparr>)"

fun prefix_contains :: "prefix \<Rightarrow> addr \<Rightarrow> bool" where
  "prefix_contains p (V4 a) =
     (case pfx_addr p of V4 b \<Rightarrow> drop_bit (32 - pfx_bits p) (a XOR b) = 0 | V6 _ _ \<Rightarrow> False)"
| "prefix_contains p (V6 a z) =
     (case pfx_addr p of V6 b _ \<Rightarrow> z = [] \<and> drop_bit (128 - pfx_bits p) (a XOR b) = 0 | V4 _ \<Rightarrow> False)"

lemma prefix_contains_base:
  "addr_zone (pfx_addr p) = [] \<Longrightarrow> prefix_contains p (pfx_addr p)"
  by (cases "pfx_addr p") simp_all

lemma parse_prefix_zone: "parse_prefix s = Some p \<Longrightarrow> addr_zone (pfx_addr p) = []"
  by (auto simp: parse_prefix_def Let_def split: if_splits option.splits)

text \<open>Every parsed prefix contains its own address.\<close>

lemma parse_prefix_nonempty: "parse_prefix s = Some p \<Longrightarrow> prefix_contains p (pfx_addr p)"
  by (rule prefix_contains_base) (rule parse_prefix_zone)

text \<open>A longer prefix of the same address denotes a subset.\<close>

lemma prefix_contains_mono:
  assumes "prefix_contains p a" and "pfx_addr q = pfx_addr p" and "pfx_bits q \<le> pfx_bits p"
  shows "prefix_contains q a"
proof -
  have shift: "drop_bit (n - k) w = 0" if "drop_bit (n - m) w = 0" "k \<le> m" for n m k :: nat and w :: "'l::len word"
  proof -
    from that(2) have "n - k = (n - k - (n - m)) + (n - m)" by simp
    then have "drop_bit (n - k) w = drop_bit (n - k - (n - m)) (drop_bit (n - m) w)"
      by (metis drop_bit_drop_bit)
    with that(1) show ?thesis by simp
  qed
  show ?thesis
    using assms by (cases a; cases "pfx_addr p") (auto simp del: drop_bit_xor intro: shift)
qed

end
