(* ===== verification/Netgen_Render.thy ===== *)
theory Netgen_Render
  imports Netgen_Doc Go_Netip Go_Text Model_Kinds Yaml_Tree
begin

text \<open>
  The renderers of \<open>internal/netgen\<close>: each form spec to the manifest it proposes, as the tree the YAML library
  marshals, with its repository path. A refusal is its message. A peer group or selector of a form is a map that
  came from JSON, so not nil.
\<close>

section \<open>Shared checks and pieces\<close>

text \<open>\<open>net.ParseCIDR\<close> and \<open>net.ParseIP\<close>, as to whether they accept.\<close>

definition dec_value :: "string \<Rightarrow> int" where
  "dec_value s = foldl (\<lambda>n c. n * 10 + (of_char c - 48)) 0 s"

definition zoneless :: "string \<Rightarrow> addr option" where
  "zoneless s = (case parse_addr s of None \<Rightarrow> None | Some a \<Rightarrow> if addr_zone a = '''' then Some a else None)"

definition validCIDR :: "string \<Rightarrow> bool" where
  "validCIDR s =
     (let host = takeWhile (\<lambda>c. c \<noteq> CHR ''/'') s; rest = dropWhile (\<lambda>c. c \<noteq> CHR ''/'') s; mask = drop 1 rest in
      rest \<noteq> [] \<and> mask \<noteq> [] \<and> list_all is_digit mask \<and>
      (case zoneless host of None \<Rightarrow> False | Some a \<Rightarrow> dec_value mask \<le> int (addr_bit_len a)))"

definition validIP :: "string \<Rightarrow> bool" where
  "validIP s = (zoneless s \<noteq> None)"

definition requireCIDRs :: "string list \<Rightarrow> string option" where
  "requireCIDRs cidrs =
     map_option (\<lambda>c. ''subnet '' @ go_quote c @ '' must be a CIDR (e.g. 10.0.0.0/24)'') (find (\<lambda>c. \<not> validCIDR c) cidrs)"

definition nsNameSelector :: "string list \<Rightarrow> yval" where
  "nsNameSelector namespaces =
     YMap [(''matchExpressions'', YSeq [YMap [(''key'', YStr NamespaceNameLabel), (''operator'', YStr ''In''), (''values'', YStrs namespaces)]])]"

definition layer2Spec :: "string list \<Rightarrow> yval" where
  "layer2Spec subnets =
     YMap [(''role'', YStr ''Secondary''),
       if subnets \<noteq> [] then (''subnets'', YStrs subnets) else (''ipam'', YMap [(''mode'', YStr ''Disabled'')])]"

record policy_port =
  pp_protocol :: string
  pp_port :: int

definition port_tree :: "bool \<Rightarrow> policy_port \<Rightarrow> yval" where
  "port_tree wrap p =
     (let entry = YMap [(''protocol'', YStr (pp_protocol p)), (''port'', YInt (pp_port p))] in
      if wrap then YMap [(''portNumber'', entry)] else entry)"

definition port_error :: "string \<Rightarrow> nat \<Rightarrow> policy_port \<Rightarrow> string option" where
  "port_error at i p =
     (if pp_protocol p \<noteq> ''TCP'' \<and> pp_protocol p \<noteq> ''UDP'' \<and> pp_protocol p \<noteq> ''SCTP''
      then Some (at @ '' port '' @ nat_to_dec (i + 1) @ '': protocol must be TCP, UDP or SCTP'')
      else if pp_port p \<le> 0 \<or> pp_port p > 65535 then Some (at @ '' port '' @ nat_to_dec (i + 1) @ '': port must be 1..65535'')
      else None)"

text \<open>The first error of a list, each element with its index.\<close>

fun first_error :: "(nat \<Rightarrow> 'a \<Rightarrow> string option) \<Rightarrow> nat \<Rightarrow> 'a list \<Rightarrow> string option" where
  "first_error f i [] = None"
| "first_error f i (x # xs) = (case f i x of Some e \<Rightarrow> Some e | None \<Rightarrow> first_error f (i + 1) xs)"

definition portEntries :: "string \<Rightarrow> policy_port list \<Rightarrow> bool \<Rightarrow> string + yval" where
  "portEntries at ports wrap =
     (case first_error (port_error at) 0 ports of
        Some e \<Rightarrow> Inl e
      | None \<Rightarrow> Inr (YSeq (map (port_tree wrap) ports)))"

text \<open>A rule's port entry: no key for no ports.\<close>

definition ports_field :: "string \<Rightarrow> policy_port list \<Rightarrow> bool \<Rightarrow> string + (string \<times> yval) list" where
  "ports_field at ports wrap =
     (if ports = [] then Inr [] else map_sum id (\<lambda>v. [(''ports'', v)]) (portEntries at ports wrap))"

definition doc_tree :: "managed_kind \<Rightarrow> (string \<times> yval) list \<Rightarrow> (string \<times> yval) list \<Rightarrow> yval" where
  "doc_tree k meta spec =
     YMap [(''apiVersion'', YStr (APIVersion k)), (''kind'', YStr (mk_kind k)), (''metadata'', YMap meta), (''spec'', YMap spec)]"

fun map_result :: "(nat \<Rightarrow> 'a \<Rightarrow> string + 'b) \<Rightarrow> nat \<Rightarrow> 'a list \<Rightarrow> string + 'b list" where
  "map_result f i [] = Inr []"
| "map_result f i (x # xs) =
     (case f i x of Inl e \<Rightarrow> Inl e | Inr y \<Rightarrow> (case map_result f (i + 1) xs of Inl e \<Rightarrow> Inl e | Inr ys \<Rightarrow> Inr (y # ys)))"

section \<open>Port groups\<close>

record net_spec =
  ns_name :: string
  ns_scope :: string
  ns_namespace :: string
  ns_subnets :: "string list"
  ns_vlan :: int
  ns_physical :: string
  ns_namespaces :: "string list"

definition NetScopeProject :: string where
  "NetScopeProject = ''project''"

definition NetScopeShared :: string where
  "NetScopeShared = ''shared''"

definition NetScopeVLAN :: string where
  "NetScopeVLAN = ''vlan''"

definition projectUDN :: "net_spec \<Rightarrow> string + string \<times> yval" where
  "projectUDN s =
     (case RequireDNS1123 ''network name'' (ns_name s) of Some e \<Rightarrow> Inl e | None \<Rightarrow>
      (case RequireDNS1123 ''namespace'' (ns_namespace s) of Some e \<Rightarrow> Inl e | None \<Rightarrow>
       (case requireCIDRs (ns_subnets s) of Some e \<Rightarrow> Inl e | None \<Rightarrow>
          Inr (ns_namespace s @ ''/networks/'' @ ns_name s @ ''.yaml'',
               doc_tree KindUDN [(''name'', YStr (ns_name s)), (''namespace'', YStr (ns_namespace s))]
                 [(''topology'', YStr ''Layer2''), (''layer2'', layer2Spec (ns_subnets s))]))))"

definition sharedCUDN :: "net_spec \<Rightarrow> string + string \<times> yval" where
  "sharedCUDN s =
     (case RequireDNS1123 ''network name'' (ns_name s) of Some e \<Rightarrow> Inl e | None \<Rightarrow>
      (if ns_namespaces s = [] then Inl ''at least one namespace must be selected''
       else
        (case requireCIDRs (ns_subnets s) of Some e \<Rightarrow> Inl e | None \<Rightarrow>
           Inr (''networks/'' @ ns_name s @ ''.yaml'',
                doc_tree KindCUDN [(''name'', YStr (ns_name s))]
                  [(''namespaceSelector'', nsNameSelector (ns_namespaces s)),
                   (''network'', YMap [(''topology'', YStr ''Layer2''), (''layer2'', layer2Spec (ns_subnets s))])]))))"

definition vlanCUDN :: "net_spec \<Rightarrow> string + string \<times> yval" where
  "vlanCUDN s =
     (case RequireDNS1123 ''network name'' (ns_name s) of Some e \<Rightarrow> Inl e | None \<Rightarrow>
      (if ns_physical s = '''' then Inl ''an uplink (physical network) is required for a VLAN network''
       else if ns_vlan s \<le> 0 \<or> ns_vlan s > 4094 then Inl ''a VLAN id in 1..4094 is required''
       else if ns_namespaces s = [] then Inl ''at least one namespace must be selected''
       else
        (case requireCIDRs (ns_subnets s) of Some e \<Rightarrow> Inl e | None \<Rightarrow>
           (let localnet = YMap ([(''role'', YStr ''Secondary''), (''physicalNetworkName'', YStr (ns_physical s)),
                  (''ipam'', YMap [(''mode'', YStr (if ns_subnets s \<noteq> [] then ''Enabled'' else ''Disabled''))]),
                  (''vlan'', YMap [(''mode'', YStr ''Access''), (''access'', YMap [(''id'', YInt (ns_vlan s))])])] @
                  (if ns_subnets s \<noteq> [] then [(''subnets'', YStrs (ns_subnets s))] else []))
            in Inr (''networks/'' @ ns_name s @ ''.yaml'',
                 doc_tree KindCUDN [(''name'', YStr (ns_name s))]
                   [(''namespaceSelector'', nsNameSelector (ns_namespaces s)),
                    (''network'', YMap [(''topology'', YStr ''Localnet''), (''localnet'', localnet)])])))))"

definition NetManifest :: "net_spec \<Rightarrow> string + string \<times> yval" where
  "NetManifest s =
     (if ns_scope s = '''' \<or> ns_scope s = NetScopeProject then projectUDN s
      else if ns_scope s = NetScopeShared then sharedCUDN s
      else if ns_scope s = NetScopeVLAN then vlanCUDN s
      else Inl (''unsupported network scope '' @ go_quote (ns_scope s)))"

section \<open>Distributed firewall policies\<close>

record policy_rule =
  rl_from :: "labels list"
  rl_ports :: "policy_port list"

record network_policy_spec =
  ps_name :: string
  ps_namespace :: string
  ps_applied :: labels
  ps_ingress :: "policy_rule list"

definition selector_tree :: "labels \<Rightarrow> yval" where
  "selector_tree m = (if m = [] then YMap [] else YMap [(''matchLabels'', YLabels m)])"

definition policy_rule_tree :: "nat \<Rightarrow> policy_rule \<Rightarrow> string + yval" where
  "policy_rule_tree i r =
     map_sum id (\<lambda>ports. YMap
         ((if rl_from r = [] then [] else [(''from'', YSeq (map (\<lambda>peer. YMap [(''podSelector'', YMap [(''matchLabels'', YLabels peer)])]) (rl_from r)))]) @ ports))
       (ports_field ''rule'' (rl_ports r) False)"

definition NetworkPolicyManifest :: "network_policy_spec \<Rightarrow> string + string \<times> yval" where
  "NetworkPolicyManifest s =
     (case RequireDNS1123 ''name'' (ps_name s) of Some e \<Rightarrow> Inl e | None \<Rightarrow>
      (case RequireDNS1123 ''namespace'' (ps_namespace s) of Some e \<Rightarrow> Inl e | None \<Rightarrow>
       (case map_result policy_rule_tree 0 (ps_ingress s) of Inl e \<Rightarrow> Inl e | Inr rules \<Rightarrow>
          Inr (ps_namespace s @ ''/networkpolicies/'' @ ps_name s @ ''.yaml'',
               doc_tree KindNetpol [(''name'', YStr (ps_name s)), (''namespace'', YStr (ps_namespace s))]
                 ([(''podSelector'', selector_tree (ps_applied s)), (''policyTypes'', YSeq [YStr ''Ingress''])] @
                  (if ps_ingress s = [] then [] else [(''ingress'', YSeq rules)]))))))"

record admin_policy_rule =
  al_action :: string
  al_peers :: "labels list"
  al_ports :: "policy_port list"

record admin_policy_spec =
  as_name :: string
  as_baseline :: bool
  as_priority :: int
  as_subject :: labels
  as_ingress :: "admin_policy_rule list"
  as_egress :: "admin_policy_rule list"

definition rule_word :: "nat \<Rightarrow> string" where
  "rule_word i = ''rule '' @ nat_to_dec (i + 1)"

definition admin_rule_tree :: "bool \<Rightarrow> string \<Rightarrow> nat \<Rightarrow> admin_policy_rule \<Rightarrow> string + yval" where
  "admin_rule_tree baseline peerKey i r =
     (if al_action r = ''Pass'' \<and> baseline then Inl (rule_word i @ '': a baseline policy has no Pass action (Allow or Deny only)'')
      else if al_action r \<noteq> ''Allow'' \<and> al_action r \<noteq> ''Deny'' \<and> al_action r \<noteq> ''Pass'' then Inl (rule_word i @ '': action must be Allow, Deny or Pass'')
      else if al_peers r = [] then Inl (rule_word i @ '': at least one peer Group is required'')
      else map_sum id (\<lambda>ports. YMap
          ([(''action'', YStr (al_action r)), (peerKey, YSeq (map (\<lambda>p. YMap [(''namespaces'', selector_tree p)]) (al_peers r)))] @ ports))
        (ports_field (rule_word i) (al_ports r) True))"

definition AdminNetworkPolicyManifest :: "admin_policy_spec \<Rightarrow> string + string \<times> yval" where
  "AdminNetworkPolicyManifest s =
     (let name = (if as_baseline s then ''default'' else as_name s);
          kind = (if as_baseline s then KindBANP else KindANP) in
      case (if as_baseline s then None
            else (case RequireDNS1123 ''name'' name of Some e \<Rightarrow> Some e
                  | None \<Rightarrow> if as_priority s < 0 \<or> as_priority s > 1000 then Some ''priority must be 0..1000'' else None)) of
        Some e \<Rightarrow> Inl e
      | None \<Rightarrow>
          (case map_result (admin_rule_tree (as_baseline s) ''from'') 0 (as_ingress s) of Inl e \<Rightarrow> Inl e | Inr ing \<Rightarrow>
           (case map_result (admin_rule_tree (as_baseline s) ''to'') 0 (as_egress s) of Inl e \<Rightarrow> Inl e | Inr eg \<Rightarrow>
              Inr (mk_plural kind @ ''/'' @ name @ ''.yaml'',
                   doc_tree kind [(''name'', YStr name)]
                     ([(''subject'', YMap [(''namespaces'', selector_tree (as_subject s))])] @
                      (if as_baseline s then [] else [(''priority'', YInt (as_priority s))]) @
                      (if as_ingress s = [] then [] else [(''ingress'', YSeq ing)]) @
                      (if as_egress s = [] then [] else [(''egress'', YSeq eg)]))))))"

section \<open>Gateways\<close>

record egress_rule =
  er_action :: string
  er_cidr :: string
  er_dns :: string
  er_ports :: "policy_port list"

record egress_firewall_spec =
  es_namespace :: string
  es_rules :: "egress_rule list"

definition egress_rule_tree :: "nat \<Rightarrow> egress_rule \<Rightarrow> string + yval" where
  "egress_rule_tree i r =
     (if er_action r \<noteq> ''Allow'' \<and> er_action r \<noteq> ''Deny'' then Inl (rule_word i @ '': action must be Allow or Deny'')
      else if (er_cidr r = '''') = (er_dns r = '''') then Inl (rule_word i @ '': set exactly one of cidr or dnsName'')
      else if er_cidr r \<noteq> '''' \<and> \<not> validCIDR (er_cidr r)
        then Inl (rule_word i @ '': cidr '' @ go_quote (er_cidr r) @ '' must be a CIDR (e.g. 0.0.0.0/0)'')
      else map_sum id (\<lambda>ports. YMap
          ([(''type'', YStr (er_action r)),
            (''to'', YMap [if er_cidr r \<noteq> '''' then (''cidrSelector'', YStr (er_cidr r)) else (''dnsName'', YStr (er_dns r))])] @ ports))
        (ports_field (rule_word i) (er_ports r) False))"

definition EgressFirewallManifest :: "egress_firewall_spec \<Rightarrow> string + string \<times> yval" where
  "EgressFirewallManifest s =
     (case RequireDNS1123 ''namespace'' (es_namespace s) of Some e \<Rightarrow> Inl e | None \<Rightarrow>
      (if es_rules s = [] then Inl ''at least one egress rule is required''
       else
        (case map_result egress_rule_tree 0 (es_rules s) of Inl e \<Rightarrow> Inl e | Inr rules \<Rightarrow>
           Inr (es_namespace s @ ''/egressfirewalls/default.yaml'',
                doc_tree KindEgressFW [(''name'', YStr ''default''), (''namespace'', YStr (es_namespace s))] [(''egress'', YSeq rules)]))))"

record egress_ip_spec =
  ei_name :: string
  ei_ips :: "string list"
  ei_namespaces :: "string list"

definition EgressIPManifest :: "egress_ip_spec \<Rightarrow> string + string \<times> yval" where
  "EgressIPManifest s =
     (case RequireDNS1123 ''name'' (ei_name s) of Some e \<Rightarrow> Inl e | None \<Rightarrow>
      (if ei_ips s = [] then Inl ''at least one egress IP is required''
       else if ei_namespaces s = [] then Inl ''at least one namespace must be selected''
       else
        (case find (\<lambda>ip. \<not> validIP ip) (ei_ips s) of
           Some ip \<Rightarrow> Inl (''egress IP '' @ go_quote ip @ '' must be an IP address'')
         | None \<Rightarrow>
             Inr (''egressips/'' @ ei_name s @ ''.yaml'',
                  doc_tree KindEgressIP [(''name'', YStr (ei_name s))]
                    [(''egressIPs'', YStrs (ei_ips s)), (''namespaceSelector'', nsNameSelector (ei_namespaces s))]))))"

record external_route_spec =
  xr_name :: string
  xr_namespaces :: "string list"
  xr_hops :: "string list"

definition ExternalRouteManifest :: "external_route_spec \<Rightarrow> string + string \<times> yval" where
  "ExternalRouteManifest s =
     (case RequireDNS1123 ''name'' (xr_name s) of Some e \<Rightarrow> Inl e | None \<Rightarrow>
      (if xr_namespaces s = [] then Inl ''at least one namespace must be selected''
       else if xr_hops s = [] then Inl ''at least one next-hop IP is required''
       else
        (case find (\<lambda>ip. \<not> validIP ip) (xr_hops s) of
           Some ip \<Rightarrow> Inl (''next-hop '' @ go_quote ip @ '' must be an IP address'')
         | None \<Rightarrow>
             Inr (''externalroutes/'' @ xr_name s @ ''.yaml'',
                  doc_tree KindExtRoute [(''name'', YStr (xr_name s))]
                    [(''from'', YMap [(''namespaceSelector'', nsNameSelector (xr_namespaces s))]),
                     (''nextHops'', YMap [(''static'', YSeq (map (\<lambda>ip. YMap [(''ip'', YStr ip)]) (xr_hops s)))])]))))"

section \<open>Uplinks\<close>

record uplink_spec =
  us_name :: string
  us_bridge :: string
  us_nic :: string
  us_selector :: labels

definition UplinkPolicyName :: "string \<Rightarrow> string" where
  "UplinkPolicyName name = ''uplink-'' @ name"

definition workerLabel :: string where
  "workerLabel = ''node-role.kubernetes.io/worker''"

definition UplinkManifest :: "uplink_spec \<Rightarrow> string + string \<times> yval" where
  "UplinkManifest s =
     (case RequireDNS1123 ''uplink name'' (us_name s) of Some e \<Rightarrow> Inl e | None \<Rightarrow>
      (if us_nic s = '''' then Inl ''a NIC is required''
       else
        (let bridge = (if us_bridge s = '''' then ''br-'' @ us_name s else us_bridge s);
             sel = (if us_selector s = [] then [(workerLabel, '''')] else us_selector s)
         in Inr (''uplinks/'' @ us_name s @ ''.yaml'',
              doc_tree KindNNCP [(''name'', YStr (UplinkPolicyName (us_name s)))]
                [(''nodeSelector'', YLabels sel),
                 (''desiredState'', YMap [
                    (''interfaces'', YSeq [YMap [(''name'', YStr bridge), (''type'', YStr ''ovs-bridge''), (''state'', YStr ''up''),
                       (''bridge'', YMap [(''allow-extra-patch-ports'', YBool True), (''options'', YMap [(''stp'', YBool False)]),
                          (''port'', YSeq [YMap [(''name'', YStr (us_nic s))]])])]]),
                    (''ovn'', YMap [(''bridge-mappings'', YSeq [YMap
                       [(''localnet'', YStr (us_name s)), (''bridge'', YStr bridge), (''state'', YStr ''present'')]])])])]))))"

end
