(* ===== verification/Netgen_Decode.thy ===== *)
theory Netgen_Decode
  imports Netgen_Render
begin

text \<open>
  \<open>internal/netgen/decode.go\<close>: a manifest read back into the form spec that renders it. The reads follow the struct
  tags of \<open>doc.go\<close>; the document's own kind picks the struct, and the spec is given out only when it renders to the
  same data again. (\<open>manifest.Header\<close> takes any scalar for a string where the struct reads fail; such a manifest is
  refused either way, with another message.)
\<close>

section \<open>Reading the documents\<close>

record doc_meta =
  dm_name :: string
  dm_namespace :: string

definition read_meta :: "yval \<Rightarrow> doc_meta option" where
  "read_meta v = do {
     m \<leftarrow> y_obj v;
     n \<leftarrow> y_string (y_field ''name'' m);
     ns \<leftarrow> y_string (y_field ''namespace'' m);
     Some \<lparr>dm_name = n, dm_namespace = ns\<rparr> }"

definition read_requirement :: "yval \<Rightarrow> requirement option" where
  "read_requirement v = do {
     m \<leftarrow> y_obj v;
     k \<leftarrow> y_string (y_field ''key'' m);
     op \<leftarrow> y_string (y_field ''operator'' m);
     vs \<leftarrow> y_list y_string (y_field ''values'' m);
     Some \<lparr>rq_key = k, rq_operator = op, rq_values = vs\<rparr> }"

definition read_selector :: "yval \<Rightarrow> label_selector option" where
  "read_selector v = do {
     m \<leftarrow> y_obj v;
     ls \<leftarrow> y_labels (y_field ''matchLabels'' m);
     es \<leftarrow> y_list read_requirement (y_field ''matchExpressions'' m);
     Some \<lparr>match_labels = ls, match_exprs = es\<rparr> }"

text \<open>\<open>intstr.IntOrString\<close>: a 32-bit number or a string.\<close>

definition read_int_or_string :: "yval \<Rightarrow> int_or_string option" where
  "read_int_or_string v =
     (case v of
        YInt n \<Rightarrow> if - (2 ^ 31) \<le> n \<and> n < 2 ^ 31 then Some (IntVal n) else None
      | YStr s \<Rightarrow> Some (StrVal s)
      | _ \<Rightarrow> None)"

definition read_port_range :: "yval \<Rightarrow> port_range_doc option" where
  "read_port_range v = do {
     m \<leftarrow> y_obj v;
     p \<leftarrow> y_string (y_field ''protocol'' m);
     s \<leftarrow> y_int (y_field ''start'' m);
     e \<leftarrow> y_int (y_field ''end'' m);
     Some \<lparr>pr_protocol = p, pr_start = s, pr_end = e\<rparr> }"

lemma size_y_field: "y_field k m \<noteq> YNull \<Longrightarrow> size (y_field k m) < size (YMap m)"
  by (induction m) (auto simp: y_field_def split: option.splits if_splits)

lemma y_obj_size: "y_obj v = Some m \<Longrightarrow> y_field k m \<noteq> YNull \<Longrightarrow> size (y_field k m) < size v"
  using size_y_field[of k m] by (cases v) (auto simp: y_obj_def)

text \<open>The \<open>portNumber\<close> wrapper holds a port entry of the same struct.\<close>

function read_port :: "yval \<Rightarrow> port_doc option" where
  "read_port v =
     (case y_obj v of None \<Rightarrow> None | Some m \<Rightarrow> do {
        proto \<leftarrow> y_string (y_field ''protocol'' m);
        port \<leftarrow> y_ptr read_int_or_string (y_field ''port'' m);
        e \<leftarrow> y_int (y_field ''endPort'' m);
        number \<leftarrow> (if y_field ''portNumber'' m = YNull then Some None
                  else map_option Some (read_port (y_field ''portNumber'' m)));
        range \<leftarrow> y_ptr read_port_range (y_field ''portRange'' m);
        named \<leftarrow> y_ptr y_string (y_field ''namedPort'' m);
        Some (PortDoc proto port e number range named) })"
  by pat_completeness auto
termination by (relation "measure size") (auto intro: y_obj_size)

declare read_port.simps [simp del]

definition read_network_config :: "(string \<times> yval) list \<Rightarrow> network_config option" where
  "read_network_config m = do {
     t \<leftarrow> y_string (y_field ''topology'' m);
     l2 \<leftarrow> y_obj (y_field ''layer2'' m);
     r2 \<leftarrow> y_string (y_field ''role'' l2);
     s2 \<leftarrow> y_list y_string (y_field ''subnets'' l2);
     l3 \<leftarrow> y_obj (y_field ''layer3'' m);
     r3 \<leftarrow> y_string (y_field ''role'' l3);
     s3 \<leftarrow> y_list (\<lambda>v. do { e \<leftarrow> y_obj v; y_string (y_field ''cidr'' e) }) (y_field ''subnets'' l3);
     ln \<leftarrow> y_obj (y_field ''localnet'' m);
     rl \<leftarrow> y_string (y_field ''role'' ln);
     pl \<leftarrow> y_string (y_field ''physicalNetworkName'' ln);
     sl \<leftarrow> y_list y_string (y_field ''subnets'' ln);
     vl \<leftarrow> y_obj (y_field ''vlan'' ln);
     ac \<leftarrow> y_obj (y_field ''access'' vl);
     id' \<leftarrow> y_int (y_field ''id'' ac);
     Some \<lparr>nc_topology = t, nc_layer2 = \<lparr>l2_role = r2, l2_subnets = s2\<rparr>,
           nc_layer3 = \<lparr>l3_role = r3, l3_subnets = s3\<rparr>,
           nc_localnet = \<lparr>ln_role = rl, ln_physical_network = pl, ln_subnets = sl, ln_vlan_id = id'\<rparr>\<rparr> }"

text \<open>The parts of a document: its kind, metadata and spec.\<close>

definition read_parts :: "yval \<Rightarrow> (string \<times> doc_meta \<times> (string \<times> yval) list) option" where
  "read_parts v = do {
     m \<leftarrow> y_obj v;
     k \<leftarrow> y_string (y_field ''kind'' m);
     meta \<leftarrow> read_meta (y_field ''metadata'' m);
     spec \<leftarrow> y_obj (y_field ''spec'' m);
     Some (k, meta, spec) }"

definition read_network_doc :: "yval \<Rightarrow> (doc_meta \<times> network_doc) option" where
  "read_network_doc v = do {
     (k, meta, spec) \<leftarrow> read_parts v;
     own \<leftarrow> read_network_config spec;
     sel \<leftarrow> read_selector (y_field ''namespaceSelector'' spec);
     nm \<leftarrow> y_obj (y_field ''network'' spec);
     net \<leftarrow> read_network_config nm;
     Some (meta, \<lparr>nd_kind = k, nd_config = own, nd_namespace_selector = sel, nd_network = net\<rparr>) }"

definition read_ip_block :: "yval \<Rightarrow> ip_block option" where
  "read_ip_block v = do {
     m \<leftarrow> y_obj v;
     c \<leftarrow> y_string (y_field ''cidr'' m);
     e \<leftarrow> y_list y_string (y_field ''except'' m);
     Some \<lparr>ib_cidr = c, ib_except = e\<rparr> }"

definition read_policy_peer :: "yval \<Rightarrow> network_policy_peer option" where
  "read_policy_peer v = do {
     m \<leftarrow> y_obj v;
     ns \<leftarrow> y_ptr read_selector (y_field ''namespaceSelector'' m);
     ps \<leftarrow> y_ptr read_selector (y_field ''podSelector'' m);
     ib \<leftarrow> y_ptr read_ip_block (y_field ''ipBlock'' m);
     Some \<lparr>npp_namespace_selector = ns, npp_pod_selector = ps, npp_ip_block = ib\<rparr> }"

definition read_policy_rule :: "yval \<Rightarrow> network_policy_rule option" where
  "read_policy_rule v = do {
     m \<leftarrow> y_obj v;
     fr \<leftarrow> y_list read_policy_peer (y_field ''from'' m);
     to \<leftarrow> y_list read_policy_peer (y_field ''to'' m);
     ps \<leftarrow> y_list read_port (y_field ''ports'' m);
     Some \<lparr>npr_from = fr, npr_to = to, npr_ports = ps\<rparr> }"

definition read_network_policy_doc :: "yval \<Rightarrow> (doc_meta \<times> network_policy_doc) option" where
  "read_network_policy_doc v = do {
     (k, meta, spec) \<leftarrow> read_parts v;
     sel \<leftarrow> read_selector (y_field ''podSelector'' spec);
     types \<leftarrow> y_list y_string (y_field ''policyTypes'' spec);
     ing \<leftarrow> y_list read_policy_rule (y_field ''ingress'' spec);
     eg \<leftarrow> y_ptr (y_list read_policy_rule) (y_field ''egress'' spec);
     Some (meta, \<lparr>npd_pod_selector = sel, npd_policy_types = types, npd_ingress = ing, npd_egress = eg\<rparr>) }"

definition read_namespaced_pod :: "yval \<Rightarrow> namespaced_pod option" where
  "read_namespaced_pod v = do {
     m \<leftarrow> y_obj v;
     ns \<leftarrow> read_selector (y_field ''namespaceSelector'' m);
     ps \<leftarrow> read_selector (y_field ''podSelector'' m);
     Some \<lparr>np_namespace_selector = ns, np_pod_selector = ps\<rparr> }"

definition read_admin_peer :: "yval \<Rightarrow> admin_peer_doc option" where
  "read_admin_peer v = do {
     m \<leftarrow> y_obj v;
     ns \<leftarrow> y_ptr read_selector (y_field ''namespaces'' m);
     ps \<leftarrow> y_ptr read_namespaced_pod (y_field ''pods'' m);
     nd \<leftarrow> y_ptr read_selector (y_field ''nodes'' m);
     nw \<leftarrow> y_ptr (y_list y_string) (y_field ''networks'' m);
     Some \<lparr>ap_namespaces = ns, ap_pods = ps, ap_nodes = nd, ap_networks = nw\<rparr> }"

definition read_admin_rule :: "yval \<Rightarrow> admin_policy_rule_doc option" where
  "read_admin_rule v = do {
     m \<leftarrow> y_obj v;
     a \<leftarrow> y_string (y_field ''action'' m);
     fr \<leftarrow> y_list read_admin_peer (y_field ''from'' m);
     to \<leftarrow> y_list read_admin_peer (y_field ''to'' m);
     ps \<leftarrow> y_list read_port (y_field ''ports'' m);
     Some \<lparr>ar_action = a, ar_from = fr, ar_to = to, ar_ports = ps\<rparr> }"

definition read_admin_network_policy_doc :: "yval \<Rightarrow> (doc_meta \<times> admin_network_policy_doc) option" where
  "read_admin_network_policy_doc v = do {
     (k, meta, spec) \<leftarrow> read_parts v;
     prio \<leftarrow> y_int (y_field ''priority'' spec);
     sub \<leftarrow> y_obj (y_field ''subject'' spec);
     sn \<leftarrow> y_ptr read_selector (y_field ''namespaces'' sub);
     sp \<leftarrow> y_ptr read_namespaced_pod (y_field ''pods'' sub);
     ing \<leftarrow> y_list read_admin_rule (y_field ''ingress'' spec);
     eg \<leftarrow> y_list read_admin_rule (y_field ''egress'' spec);
     Some (meta, \<lparr>and_kind = k, and_priority = prio, and_subject_namespaces = sn, and_subject_pods = sp,
                  and_ingress = ing, and_egress = eg\<rparr>) }"

definition read_egress_destination :: "yval \<Rightarrow> egress_destination option" where
  "read_egress_destination v = do {
     m \<leftarrow> y_obj v;
     c \<leftarrow> y_string (y_field ''cidrSelector'' m);
     d \<leftarrow> y_string (y_field ''dnsName'' m);
     n \<leftarrow> y_ptr read_selector (y_field ''nodeSelector'' m);
     Some \<lparr>ed_cidr_selector = c, ed_dns_name = d, ed_node_selector = n\<rparr> }"

definition read_egress_rule :: "yval \<Rightarrow> egress_firewall_rule_doc option" where
  "read_egress_rule v = do {
     m \<leftarrow> y_obj v;
     t \<leftarrow> y_string (y_field ''type'' m);
     to \<leftarrow> read_egress_destination (y_field ''to'' m);
     ps \<leftarrow> y_list read_port (y_field ''ports'' m);
     Some \<lparr>ef_type = t, ef_to = to, ef_ports = ps\<rparr> }"

definition read_egress_firewall_doc :: "yval \<Rightarrow> (doc_meta \<times> egress_firewall_doc) option" where
  "read_egress_firewall_doc v = do {
     (k, meta, spec) \<leftarrow> read_parts v;
     rs \<leftarrow> y_list read_egress_rule (y_field ''egress'' spec);
     Some (meta, \<lparr>efd_egress = rs\<rparr>) }"

definition read_egress_ip_doc :: "yval \<Rightarrow> (doc_meta \<times> egress_ip_doc) option" where
  "read_egress_ip_doc v = do {
     (k, meta, spec) \<leftarrow> read_parts v;
     ips \<leftarrow> y_list y_string (y_field ''egressIPs'' spec);
     ns \<leftarrow> read_selector (y_field ''namespaceSelector'' spec);
     ps \<leftarrow> read_selector (y_field ''podSelector'' spec);
     Some (meta, \<lparr>eid_egress_ips = ips, eid_namespace_selector = ns, eid_pod_selector = ps\<rparr>) }"

definition read_external_route_doc :: "yval \<Rightarrow> (doc_meta \<times> external_route_doc) option" where
  "read_external_route_doc v = do {
     (k, meta, spec) \<leftarrow> read_parts v;
     fr \<leftarrow> y_obj (y_field ''from'' spec);
     ns \<leftarrow> read_selector (y_field ''namespaceSelector'' fr);
     nh \<leftarrow> y_obj (y_field ''nextHops'' spec);
     hops \<leftarrow> y_list (\<lambda>v. do { h \<leftarrow> y_obj v; y_string (y_field ''ip'' h) }) (y_field ''static'' nh);
     Some (meta, \<lparr>erd_from_namespace_selector = ns, erd_next_hops = hops\<rparr>) }"

definition read_bridge_mapping :: "yval \<Rightarrow> bridge_mapping option" where
  "read_bridge_mapping v = do {
     m \<leftarrow> y_obj v;
     l \<leftarrow> y_string (y_field ''localnet'' m);
     b \<leftarrow> y_string (y_field ''bridge'' m);
     s \<leftarrow> y_string (y_field ''state'' m);
     Some \<lparr>bm_localnet = l, bm_bridge = b, bm_state = s\<rparr> }"

definition read_interface :: "yval \<Rightarrow> (string \<times> string list) option" where
  "read_interface v = do {
     m \<leftarrow> y_obj v;
     n \<leftarrow> y_string (y_field ''name'' m);
     b \<leftarrow> y_obj (y_field ''bridge'' m);
     ps \<leftarrow> y_list (\<lambda>v. do { p \<leftarrow> y_obj v; y_string (y_field ''name'' p) }) (y_field ''port'' b);
     Some (n, ps) }"

definition read_uplink_doc :: "yval \<Rightarrow> (doc_meta \<times> uplink_doc) option" where
  "read_uplink_doc v = do {
     (k, meta, spec) \<leftarrow> read_parts v;
     ns \<leftarrow> y_labels (y_field ''nodeSelector'' spec);
     ds \<leftarrow> y_obj (y_field ''desiredState'' spec);
     is \<leftarrow> y_list read_interface (y_field ''interfaces'' ds);
     ovn \<leftarrow> y_obj (y_field ''ovn'' ds);
     ms \<leftarrow> y_list read_bridge_mapping (y_field ''bridge-mappings'' ovn);
     Some (meta, \<lparr>ud_node_selector = ns, ud_interfaces = is, ud_bridge_mappings = ms\<rparr>) }"

section \<open>Decoding\<close>

text \<open>\<open>IntOrString.IntValue\<close>: \<open>strconv.Atoi\<close> with its error dropped, so 0 for a text that is no number and the
  nearest bound for one that does not fit.\<close>

definition atoi_value :: "string \<Rightarrow> int" where
  "atoi_value s =
     (let signed = s \<noteq> [] \<and> hd s \<in> {CHR ''+'', CHR ''-''}; digits = (if signed then tl s else s);
          n = (if signed \<and> hd s = CHR ''-'' then - dec_value digits else dec_value digits) in
      if digits = [] \<or> \<not> list_all is_digit digits then 0 else max (- (2 ^ 63)) (min (2 ^ 63 - 1) n))"

definition int_value :: "int_or_string \<Rightarrow> int" where
  "int_value v = (case v of IntVal n \<Rightarrow> n | StrVal s \<Rightarrow> atoi_value s)"

definition form_port :: "port_doc \<Rightarrow> policy_port" where
  "form_port p =
     (let q = (case pd_port_number p of Some n \<Rightarrow> n | None \<Rightarrow> p) in
      \<lparr>pp_protocol = pd_protocol q, pp_port = (case pd_port q of None \<Rightarrow> 0 | Some v \<Rightarrow> int_value v)\<rparr>)"

definition decode_ports :: "port_doc list \<Rightarrow> policy_port list" where
  "decode_ports docs = map form_port docs"

definition blank_net :: net_spec where
  "blank_net = \<lparr>ns_name = '''', ns_scope = '''', ns_namespace = '''', ns_subnets = [], ns_vlan = 0, ns_physical = '''', ns_namespaces = []\<rparr>"

definition decodeNetwork :: "yval \<Rightarrow> net_spec option" where
  "decodeNetwork v = do {
     (meta, doc) \<leftarrow> read_network_doc v;
     Some (let s = blank_net\<lparr>ns_name := dm_name meta\<rparr> in
       if nd_kind doc = ''UserDefinedNetwork'' then
         s\<lparr>ns_scope := NetScopeProject, ns_namespace := dm_namespace meta, ns_subnets := l2_subnets (nc_layer2 (nd_config doc))\<rparr>
       else
         (let s = s\<lparr>ns_namespaces := NamespaceNames (Some (nd_namespace_selector doc))\<rparr> in
          if nc_topology (nd_network doc) = ''Localnet'' then
            (let ln = nc_localnet (nd_network doc) in
             s\<lparr>ns_scope := NetScopeVLAN, ns_physical := ln_physical_network ln, ns_vlan := ln_vlan_id ln, ns_subnets := ln_subnets ln\<rparr>)
          else s\<lparr>ns_scope := NetScopeShared, ns_subnets := l2_subnets (nc_layer2 (nd_network doc))\<rparr>)) }"

definition decode_policy_rule :: "network_policy_rule \<Rightarrow> policy_rule" where
  "decode_policy_rule r =
     \<lparr>rl_from = map (\<lambda>f. case npp_pod_selector f of None \<Rightarrow> [] | Some sel \<Rightarrow> match_labels sel) (npr_from r),
      rl_ports = decode_ports (npr_ports r)\<rparr>"

definition decodeNetworkPolicy :: "yval \<Rightarrow> network_policy_spec option" where
  "decodeNetworkPolicy v = do {
     (meta, doc) \<leftarrow> read_network_policy_doc v;
     Some \<lparr>ps_name = dm_name meta, ps_namespace = dm_namespace meta, ps_applied = match_labels (npd_pod_selector doc),
           ps_ingress = map decode_policy_rule (npd_ingress doc)\<rparr> }"

definition decode_admin_rule :: "(admin_policy_rule_doc \<Rightarrow> admin_peer_doc list) \<Rightarrow> admin_policy_rule_doc \<Rightarrow> admin_policy_rule" where
  "decode_admin_rule peers r =
     \<lparr>al_action = ar_action r,
      al_peers = map (\<lambda>p. case ap_namespaces p of None \<Rightarrow> [] | Some sel \<Rightarrow> match_labels sel) (peers r),
      al_ports = decode_ports (ar_ports r)\<rparr>"

definition decodeAdminNetworkPolicy :: "yval \<Rightarrow> admin_policy_spec option" where
  "decodeAdminNetworkPolicy v = do {
     (meta, doc) \<leftarrow> read_admin_network_policy_doc v;
     Some \<lparr>as_name = dm_name meta, as_baseline = (and_kind doc = ''BaselineAdminNetworkPolicy''), as_priority = and_priority doc,
           as_subject = (case and_subject_namespaces doc of None \<Rightarrow> [] | Some sel \<Rightarrow> match_labels sel),
           as_ingress = map (decode_admin_rule ar_from) (and_ingress doc),
           as_egress = map (decode_admin_rule ar_to) (and_egress doc)\<rparr> }"

definition decode_egress_rule :: "egress_firewall_rule_doc \<Rightarrow> egress_rule" where
  "decode_egress_rule r =
     \<lparr>er_action = ef_type r, er_cidr = ed_cidr_selector (ef_to r), er_dns = ed_dns_name (ef_to r), er_ports = decode_ports (ef_ports r)\<rparr>"

definition decodeEgressFirewall :: "yval \<Rightarrow> egress_firewall_spec option" where
  "decodeEgressFirewall v = do {
     (meta, doc) \<leftarrow> read_egress_firewall_doc v;
     Some \<lparr>es_namespace = dm_namespace meta, es_rules = map decode_egress_rule (efd_egress doc)\<rparr> }"

definition decodeEgressIPForm :: "yval \<Rightarrow> egress_ip_spec option" where
  "decodeEgressIPForm v = do {
     (meta, doc) \<leftarrow> read_egress_ip_doc v;
     Some \<lparr>ei_name = dm_name meta, ei_ips = eid_egress_ips doc, ei_namespaces = NamespaceNames (Some (eid_namespace_selector doc))\<rparr> }"

definition decodeExternalRoute :: "yval \<Rightarrow> external_route_spec option" where
  "decodeExternalRoute v = do {
     (meta, doc) \<leftarrow> read_external_route_doc v;
     Some \<lparr>xr_name = dm_name meta, xr_namespaces = NamespaceNames (Some (erd_from_namespace_selector doc)), xr_hops = erd_next_hops doc\<rparr> }"

text \<open>The renderer's defaults read back as unset.\<close>

definition unset_uplink :: "uplink_spec \<Rightarrow> uplink_spec" where
  "unset_uplink s =
     (let s = (if us_bridge s = ''br-'' @ us_name s then s\<lparr>us_bridge := ''''\<rparr> else s) in
      if length (us_selector s) = 1 \<and> label_get (us_selector s) workerLabel = '''' \<and> map_of (us_selector s) workerLabel \<noteq> None
      then s\<lparr>us_selector := []\<rparr> else s)"

definition decodeUplink :: "yval \<Rightarrow> uplink_spec option" where
  "decodeUplink v = do {
     (meta, doc) \<leftarrow> read_uplink_doc v;
     Some (unset_uplink
       \<lparr>us_name = (case ud_bridge_mappings doc of [] \<Rightarrow> '''' | m # _ \<Rightarrow> bm_localnet m),
        us_bridge = (case ud_bridge_mappings doc of [] \<Rightarrow> '''' | m # _ \<Rightarrow> bm_bridge m),
        us_nic = (case ud_interfaces doc of (_, p # _) # _ \<Rightarrow> p | _ \<Rightarrow> ''''),
        us_selector = ud_node_selector doc\<rparr>) }"

section \<open>The form behind a manifest\<close>

datatype form_spec =
    FormNetwork net_spec
  | FormPolicy network_policy_spec
  | FormAdmin admin_policy_spec
  | FormFirewall egress_firewall_spec
  | FormEgressIP egress_ip_spec
  | FormRoute external_route_spec
  | FormUplink uplink_spec

definition render_form :: "form_spec \<Rightarrow> string + string \<times> yval" where
  "render_form f =
     (case f of
        FormNetwork s \<Rightarrow> NetManifest s
      | FormPolicy s \<Rightarrow> NetworkPolicyManifest s
      | FormAdmin s \<Rightarrow> AdminNetworkPolicyManifest s
      | FormFirewall s \<Rightarrow> EgressFirewallManifest s
      | FormEgressIP s \<Rightarrow> EgressIPManifest s
      | FormRoute s \<Rightarrow> ExternalRouteManifest s
      | FormUplink s \<Rightarrow> UplinkManifest s)"

text \<open>The reader a kind picks.\<close>

definition form_reader :: "string \<Rightarrow> (yval \<Rightarrow> form_spec option) option" where
  "form_reader k =
     (if k = ''UserDefinedNetwork'' \<or> k = ''ClusterUserDefinedNetwork'' then Some (\<lambda>v. map_option FormNetwork (decodeNetwork v))
      else if k = ''NetworkPolicy'' then Some (\<lambda>v. map_option FormPolicy (decodeNetworkPolicy v))
      else if k = ''AdminNetworkPolicy'' \<or> k = ''BaselineAdminNetworkPolicy''
        then Some (\<lambda>v. map_option FormAdmin (decodeAdminNetworkPolicy v))
      else if k = ''EgressFirewall'' then Some (\<lambda>v. map_option FormFirewall (decodeEgressFirewall v))
      else if k = ''EgressIP'' then Some (\<lambda>v. map_option FormEgressIP (decodeEgressIPForm v))
      else if k = ''AdminPolicyBasedExternalRoute'' then Some (\<lambda>v. map_option FormRoute (decodeExternalRoute v))
      else if k = ''NodeNetworkConfigurationPolicy'' then Some (\<lambda>v. map_option FormUplink (decodeUplink v))
      else None)"

definition read_header :: "yval \<Rightarrow> (string \<times> doc_meta) option" where
  "read_header v = do {
     m \<leftarrow> y_obj v;
     k \<leftarrow> y_string (y_field ''kind'' m);
     meta \<leftarrow> read_meta (y_field ''metadata'' m);
     Some (k, meta) }"

definition no_field :: string where
  "no_field = ''the manifest carries settings the form has no field for''"

definition Decode :: "yval \<Rightarrow> string + form_spec" where
  "Decode v =
     (case read_header v of
        None \<Rightarrow> Inl ''cannot unmarshal''
      | Some (k, _) \<Rightarrow>
          (case form_reader k of
             None \<Rightarrow> Inl (k @ '' has no form'')
           | Some read \<Rightarrow>
               (case read v of
                  None \<Rightarrow> Inl no_field
                | Some f \<Rightarrow>
                    (case render_form f of
                       Inl _ \<Rightarrow> Inl no_field
                     | Inr (_, r) \<Rightarrow> if same_data v r then Inr f else Inl no_field))))"

end
