(* ===== verification/Changeset_Read.thy ===== *)
theory Changeset_Read
  imports Changeset_View Forge_Client Project_Resolve Netgen_Decode
begin

text \<open>
  \<open>internal/changeset\<close>, the read half: what a project's repository declares, which file holds an object, the gap between
  git and the cluster, and the history and proposals of a project (\<open>changeset.go\<close>, \<open>vmindex.go\<close>, \<open>objects.go\<close>, \<open>drift.go\<close>,
  \<open>gitread.go\<close>, \<open>history.go\<close>, \<open>propose.go\<close>). The mirrors, the forge and the live source answer as the record \<open>reader\<close> says, and
  a mirror stands still during a call.
\<close>

section \<open>The reader\<close>

record mirror =
  mr_remote :: remote
  mr_find :: "string \<Rightarrow> commit option"
  mr_base :: "commit \<Rightarrow> commit \<Rightarrow> commit list"
  mr_hash :: "commit \<Rightarrow> string"

record live_source =
  ls_ready :: bool
  ls_manifests :: "string list \<Rightarrow> file_tree"

record reader =
  rd_base :: string
  rd_proposed :: string
  rd_sha :: "string \<Rightarrow> string"
  rd_yaml :: yaml_lib
  rd_docs :: yaml_docs
  rd_tree :: "string \<Rightarrow> yval option"
  rd_repos :: "string \<Rightarrow> fault + mirror"
  rd_forge :: "forge_svc option"
  rd_live :: "live_source option"

definition requireRepo :: "project_info \<Rightarrow> fault option" where
  "requireRepo proj =
     (if pi_repo proj \<noteq> '''' then None
      else Some (err_conflict (''project '' @ go_quote (pi_name proj) @
        (if pi_error proj \<noteq> '''' then '' is not editable: '' @ pi_error proj else '' has no repo configured''))))"

definition read_repo :: "reader \<Rightarrow> project_info \<Rightarrow> fault + mirror" where
  "read_repo r proj =
     (case requireRepo proj of
        Some e \<Rightarrow> Inl e
      | None \<Rightarrow> (case rd_repos r (pi_repo proj) of Inl _ \<Rightarrow> Inl (err_unavailable ''project repo unreachable'') | Inr m \<Rightarrow> Inr m))"

text \<open>The files of the base branch.\<close>

definition base_tree :: "reader \<Rightarrow> mirror \<Rightarrow> fault + file_tree" where
  "base_tree r m = map_sum id cm_tree (branchCommit (mr_remote m) (rd_base r))"

definition base_index :: "reader \<Rightarrow> mirror \<Rightarrow> fault + declared_index" where
  "base_index r m = map_sum id (DeclaredFilesOnBranch (rd_docs r)) (base_tree r m)"

section \<open>VMs of the base branch\<close>

fun parse_files :: "yaml_lib \<Rightarrow> file_tree \<Rightarrow> fault + vm list" where
  "parse_files yl [] = Inr []"
| "parse_files yl ((p, c) # fs) =
     (case ParseVMs p (yl_docs yl c) (DefaultNamespace p) of
        None \<Rightarrow> Inl (FInternal (''decode '' @ p))
      | Some vms \<Rightarrow> (case parse_files yl fs of Inl e \<Rightarrow> Inl e | Inr out \<Rightarrow> Inr (vms @ out)))"

definition VMsOnBranch :: "reader \<Rightarrow> mirror \<Rightarrow> fault + vm list" where
  "VMsOnBranch r m = (case base_tree r m of Inl e \<Rightarrow> Inl e | Inr t \<Rightarrow> parse_files (rd_yaml r) (VMManifests t))"

definition is_vm :: "string \<Rightarrow> string \<Rightarrow> vm \<Rightarrow> bool" where
  "is_vm namespace name v = (vm_namespace v = namespace \<and> vm_name v = name)"

definition base_vm :: "reader \<Rightarrow> mirror \<Rightarrow> string \<Rightarrow> string \<Rightarrow> fault + vm option" where
  "base_vm r m namespace name = map_sum id (find (is_vm namespace name)) (VMsOnBranch r m)"

section \<open>Live VMs\<close>

text \<open>A manifest that does not parse is skipped.\<close>

definition live_file :: "yaml_lib \<Rightarrow> string \<times> string \<Rightarrow> (vm \<times> string) list" where
  "live_file yl f =
     (case ParseVMs (fst f) (yl_docs yl (snd f)) '''' of None \<Rightarrow> [] | Some vms \<Rightarrow> map (\<lambda>v. (v, snd f)) vms)"

definition liveVMs :: "reader \<Rightarrow> string list \<Rightarrow> fault + (vm \<times> string) list" where
  "liveVMs r namespaces =
     (case rd_live r of
        None \<Rightarrow> Inl (err_unavailable ''live cluster state'')
      | Some l \<Rightarrow>
          (if \<not> ls_ready l then Inl (err_unavailable ''live cluster state still loading'')
           else Inr (concat (map (live_file (rd_yaml r)) (ls_manifests l namespaces)))))"

definition findLiveVM :: "reader \<Rightarrow> string \<Rightarrow> string \<Rightarrow> fault + (vm \<times> string) option" where
  "findLiveVM r namespace name = map_sum id (find (is_vm namespace name \<circ> fst)) (liveVMs r [namespace])"

record drift_result =
  df_drift :: bool
  df_changes :: "change list"

definition VMDrift :: "reader \<Rightarrow> project_info \<Rightarrow> string \<Rightarrow> string \<Rightarrow> fault + drift_result" where
  "VMDrift r proj namespace name =
     (case read_repo r proj of Inl e \<Rightarrow> Inl e | Inr m \<Rightarrow>
      (case base_vm r m namespace name of Inl e \<Rightarrow> Inl e | Inr desired \<Rightarrow>
       (case findLiveVM r namespace name of Inl e \<Rightarrow> Inl e | Inr actual \<Rightarrow>
        Inr (case (desired, actual) of
               (Some d, Some (a, _)) \<Rightarrow> \<lparr>df_drift = DiffVMs d a \<noteq> [], df_changes = DiffVMs d a\<rparr>
             | _ \<Rightarrow> \<lparr>df_drift = ((desired \<noteq> None) \<noteq> (actual \<noteq> None)), df_changes = []\<rparr>))))"

definition Manifest_file :: "reader \<Rightarrow> project_info \<Rightarrow> string \<Rightarrow> string \<Rightarrow> fault + string \<times> string" where
  "Manifest_file r proj namespace name =
     (case read_repo r proj of Inl e \<Rightarrow> Inl e | Inr m \<Rightarrow>
      (case base_vm r m namespace name of Inl e \<Rightarrow> Inl e | Inr found \<Rightarrow>
       (case found of
          None \<Rightarrow> Inl (err_not_found (''VM '' @ namespace @ ''/'' @ name @ '' is not in git''))
        | Some v \<Rightarrow>
            (case base_tree r m of Inl e \<Rightarrow> Inl e | Inr t \<Rightarrow> map_sum id (Pair (vm_source_file v)) (FileOnBranch t (vm_source_file v))))))"

section \<open>Which file holds an object\<close>

definition declares :: "declared_index \<Rightarrow> object_ref \<Rightarrow> string option" where
  "declares idx ref = map_of (di_files idx) ref"

definition declaredRef :: "declared_index \<Rightarrow> string \<Rightarrow> string \<Rightarrow> string \<Rightarrow> object_ref option" where
  "declaredRef idx rsc namespace name =
     find (\<lambda>ref. declares idx ref \<noteq> None)
       (map (\<lambda>k. \<lparr>or_kind = k, or_namespace = ObjectNamespace namespace, or_name = name\<rparr>) (ResourceKinds rsc))"

text \<open>The file of the declared references, the empty path when there is none.\<close>

fun common_file :: "declared_index \<Rightarrow> string \<Rightarrow> object_ref list \<Rightarrow> fault + string" where
  "common_file idx path [] = Inr path"
| "common_file idx path (ref # refs) =
     (case declares idx ref of
        None \<Rightarrow> common_file idx path refs
      | Some p \<Rightarrow>
          (if path \<noteq> '''' \<and> p \<noteq> path then Inl (err_conflict (or_name ref @ '' is declared across several files; edit it in git''))
           else common_file idx p refs))"

text \<open>Go walks the index in an arbitrary order: which other object the refusal names is the first of the model's.\<close>

definition soleDeclarer :: "declared_index \<Rightarrow> object_ref list \<Rightarrow> fault + string" where
  "soleDeclarer idx refs =
     (case common_file idx '''' refs of Inl e \<Rightarrow> Inl e | Inr path \<Rightarrow>
      (if path = '''' then Inr ''''
       else
        (case find (\<lambda>ref. declares idx ref = None) refs of
           Some ref \<Rightarrow> Inl (err_conflict (or_name ref @ '' is declared in '' @ path @ '' beside objects not in this change; edit it in git''))
         | None \<Rightarrow>
             (case find (\<lambda>(ref, p). p = path \<and> ref \<notin> set refs) (di_files idx) of
                Some (ref, _) \<Rightarrow>
                  Inl (err_conflict (or_namespace ref @ ''/'' @ or_name ref @ '' is declared in '' @ path @ '' beside other objects; edit it in git''))
              | None \<Rightarrow>
                  (if path \<in> set (di_opaque idx) then Inl (err_conflict (path @ '' holds documents beside its declared objects; edit it in git''))
                   else Inr path)))))"

definition locate :: "reader \<Rightarrow> mirror \<Rightarrow> string \<Rightarrow> string \<Rightarrow> string \<Rightarrow> fault + string" where
  "locate r m rsc namespace name =
     (case base_index r m of Inl e \<Rightarrow> Inl e | Inr idx \<Rightarrow>
      (case declaredRef idx rsc namespace name of
         None \<Rightarrow> Inl (err_not_found (namespace @ ''/'' @ name @ '' not on '' @ rd_base r))
       | Some ref \<Rightarrow> soleDeclarer idx [ref]))"

definition DeclaredFiles :: "reader \<Rightarrow> project_info \<Rightarrow> fault + (object_ref \<times> string) list" where
  "DeclaredFiles r proj =
     (case read_repo r proj of Inl e \<Rightarrow> Inl e | Inr m \<Rightarrow> map_sum id di_files (base_index r m))"

text \<open>The decoded form is carried as it is; \<open>json.Marshal\<close> of it succeeds.\<close>

record object_spec =
  os_resource :: string
  os_namespace :: string
  os_name :: string
  os_source :: string
  os_manifest :: string
  os_spec :: "form_spec option"
  os_reason :: string

definition ObjectSpec :: "reader \<Rightarrow> project_info \<Rightarrow> string \<Rightarrow> string \<Rightarrow> string \<Rightarrow> fault + object_spec" where
  "ObjectSpec r proj rsc namespace name =
     (case read_repo r proj of Inl e \<Rightarrow> Inl e | Inr m \<Rightarrow>
      (case locate r m rsc namespace name of Inl e \<Rightarrow> Inl e | Inr path \<Rightarrow>
       (case base_tree r m of Inl e \<Rightarrow> Inl e | Inr t \<Rightarrow>
        (case FileOnBranch t path of Inl e \<Rightarrow> Inl e | Inr content \<Rightarrow>
         (let out = \<lparr>os_resource = rsc, os_namespace = namespace, os_name = name, os_source = path, os_manifest = content, os_spec = None, os_reason = ''''\<rparr> in
          Inr (case (case rd_tree r content of None \<Rightarrow> Inl ''read manifest'' | Some v \<Rightarrow> Decode v) of
                 Inl reason \<Rightarrow> out\<lparr>os_reason := reason\<rparr>
               | Inr spec \<Rightarrow> out\<lparr>os_spec := Some spec\<rparr>))))))"

text \<open>\<open>manifest.SameDocument\<close>\<close>

definition SameDocument :: "reader \<Rightarrow> string \<Rightarrow> string \<Rightarrow> bool" where
  "SameDocument r a b = (case (rd_tree r a, rd_tree r b) of (Some x, Some y) \<Rightarrow> same_data x y | _ \<Rightarrow> False)"

end
