(* ===== verification/Changeset_Example.thy ===== *)
theory Changeset_Example
  imports Changeset_Read
begin

text \<open>A small project the witnesses of the changeset theories share.\<close>

section \<open>A small project\<close>

text \<open>A base branch of two VMs, one to a file.\<close>

definition shop_ref :: "string \<Rightarrow> object_ref" where
  "shop_ref name = \<lparr>or_kind = ''VirtualMachine'', or_namespace = ''shop'', or_name = name\<rparr>"

definition shop_docs :: yaml_docs where
  "shop_docs c = (if c = ''A'' then ([shop_ref ''a''], True) else if c = ''B'' then ([shop_ref ''b''], True) else ([], True))"

definition shop_head :: commit where
  "shop_head = Commit [(''shop/a.yaml'', ''A''), (''shop/b.yaml'', ''B'')] ''init'' ''dotvirt'' ''dotvirt@localhost'' 0 []"

definition shop_remote :: remote where
  "shop_remote = \<lparr>rm_refs = [(''main'', shop_head)], rm_default = ''main''\<rparr>"

definition shop_mirror :: mirror where
  "shop_mirror = \<lparr>mr_remote = shop_remote, mr_find = (\<lambda>_. None), mr_base = (\<lambda>_ _. []), mr_hash = (\<lambda>_. '''')\<rparr>"

definition no_yaml :: yaml_lib where
  "no_yaml = \<lparr>yl_nodes = (\<lambda>_. ([], False)), yl_docs = (\<lambda>_. ([], False)), yl_affinity = (\<lambda>_. None), yl_map = (\<lambda>_. None), yl_encode = (\<lambda>_. '''')\<rparr>"

definition shop_reader :: "forge_svc option \<Rightarrow> reader" where
  "shop_reader f = \<lparr>rd_base = ''main'', rd_proposed = ''dotvirt/proposed'', rd_sha = (\<lambda>s. s), rd_yaml = no_yaml, rd_docs = shop_docs,
     rd_tree = (\<lambda>_. None), rd_repos = (\<lambda>_. Inr shop_mirror), rd_forge = f, rd_live = None\<rparr>"

definition shop_project :: project_info where
  "shop_project = \<lparr>pi_name = ''shop'', pi_repo = ''https://forge/org/shop.git'', pi_namespaces = [''shop''], pi_error = ''''\<rparr>"

lemma shop_reads:
  "read_repo (shop_reader f) shop_project = Inr shop_mirror" "base_tree (shop_reader f) shop_mirror = Inr (cm_tree shop_head)"
  by (simp_all add: read_repo_def requireRepo_def shop_project_def shop_reader_def base_tree_def branchCommit_def shop_mirror_def shop_remote_def)

end
