(* ===== verification/Changeset_History.thy ===== *)
theory Changeset_History
  imports Changeset_Example
begin

text \<open>
  \<open>internal/changeset\<close>, past changes and open proposals: history rows, one commit or proposal under review, what a revert
  would do (\<open>history.go\<close>), and the two lanes of the forge with the cache of review states (\<open>propose.go\<close>).
\<close>

section \<open>History\<close>

definition nameByPR :: "reader \<Rightarrow> project_info \<Rightarrow> history_row \<Rightarrow> history_row" where
  "nameByPR r proj row =
     (case MergeSubject (hr_message row) of
        None \<Rightarrow> row
      | Some (title, n) \<Rightarrow>
          (let row' = row\<lparr>hr_title := title, hr_pr := n\<rparr> in
           if SameForge (rd_forge r) (pi_repo proj) then
             (case For (rd_forge r) (pi_repo proj) of None \<Rightarrow> row' | Some c \<Rightarrow> row'\<lparr>hr_url := PullURL c n\<rparr>)
           else row'))"

definition history_of :: "reader \<Rightarrow> project_info \<Rightarrow> (mirror \<Rightarrow> fault + history_row list) \<Rightarrow> fault + history_row list" where
  "history_of r proj list_rows =
     (if pi_repo proj = '''' then Inr []
      else (case read_repo r proj of Inl e \<Rightarrow> Inl e | Inr m \<Rightarrow> map_sum id (map (nameByPR r proj)) (list_rows m)))"

definition ProjectHistory :: "reader \<Rightarrow> project_info \<Rightarrow> int \<Rightarrow> fault + history_row list" where
  "ProjectHistory r proj limit = history_of r proj (\<lambda>m. History (mr_hash m) (mr_remote m) (rd_base r) limit)"

definition NamespaceHistory :: "reader \<Rightarrow> project_info \<Rightarrow> string \<Rightarrow> int \<Rightarrow> fault + history_row list" where
  "NamespaceHistory r proj namespace limit =
     history_of r proj (\<lambda>m. DirHistory (mr_hash m) (mr_remote m) (rd_base r) namespace limit)"

definition ObjectHistory :: "reader \<Rightarrow> project_info \<Rightarrow> string \<Rightarrow> string \<Rightarrow> string \<Rightarrow> int \<Rightarrow> fault + history_row list" where
  "ObjectHistory r proj rsc namespace name limit =
     history_of r proj (\<lambda>m.
       (case locate r m rsc namespace name of
          Inl (FNotFound _) \<Rightarrow> Inr []
        | Inl e \<Rightarrow> Inl e
        | Inr path \<Rightarrow> FileHistory (mr_hash m) (mr_remote m) (rd_base r) path limit))"

section \<open>What a revert would do\<close>

text \<open>\<open>bytes.Equal\<close>: nil is the empty slice.\<close>

definition bytes_equal :: "string option \<Rightarrow> string option \<Rightarrow> bool" where
  "bytes_equal a b = (case_option '''' id a = case_option '''' id b)"

definition revertState :: "reader \<Rightarrow> mirror \<Rightarrow> file_change list \<Rightarrow> string \<times> bool" where
  "revertState r m files =
     (case base_tree r m of
        Inl _ \<Rightarrow> ('''', False)
      | Inr t \<Rightarrow>
          (let reverted = (files \<noteq> [] \<and> list_all (\<lambda>f. bytes_equal (LookupFile t (fc_path f)) (fc_before f)) files);
               later = map fc_path (filter (\<lambda>f. \<not> bytes_equal (LookupFile t (fc_path f)) (fc_after f)) files) in
           if reverted then ('''', True)
           else if later \<noteq> [] then (''Reverting also undoes later changes to '' @ join_with later '', '' @ ''.'', False)
           else ('''', False)))"

definition restored :: "changeset_item \<Rightarrow> string option" where
  "restored it = (case it_mode it of NewContent c \<Rightarrow> Some c | _ \<Rightarrow> None)"

definition revertFiles :: "reader \<Rightarrow> mirror \<Rightarrow> changeset_item list \<Rightarrow> file_change list" where
  "revertFiles r m items =
     map (\<lambda>it. \<lparr>fc_path = it_path it,
       fc_before = (case base_tree r m of Inl _ \<Rightarrow> None | Inr t \<Rightarrow> LookupFile t (it_path it)),
       fc_after = restored it\<rparr>) items"

record commit_detail =
  dt_commit :: history_row
  dt_items :: "draft_item list"
  dt_warning :: string
  dt_reverted :: bool

definition Commit_review :: "reader \<Rightarrow> project_info \<Rightarrow> string \<Rightarrow> fault + commit_detail" where
  "Commit_review r proj hash =
     (case read_repo r proj of Inl e \<Rightarrow> Inl e | Inr m \<Rightarrow>
      (case CommitDiff (mr_hash m) (mr_find m) hash of
         Inl e \<Rightarrow> Inl (err_not_found (fault_text e))
       | Inr d \<Rightarrow>
           Inr \<lparr>dt_commit = nameByPR r proj (cd_commit d), dt_items = commitItems_of (rd_yaml r) (rd_docs r) (cd_files d),
                dt_warning = fst (revertState r m (cd_files d)), dt_reverted = snd (revertState r m (cd_files d))\<rparr>))"

section \<open>Proposals\<close>

record proposal =
  po_project :: string
  po_number :: int
  po_url :: string
  po_title :: string
  po_branch :: string
  po_by :: string
  po_revert :: bool
  po_approvals :: nat
  po_required :: int
  po_checks :: string

definition proposalRow :: "reader \<Rightarrow> project_info \<Rightarrow> pull \<Rightarrow> proposal" where
  "proposalRow r proj pr =
     \<lparr>po_project = pi_name proj, po_number = pl_number pr, po_url = pl_url pr, po_title = pl_title pr, po_branch = pl_head_ref pr,
      po_by = MergeAuthor (pl_head_ref pr) (rd_proposed r) (pl_user pr),
      po_revert = has_prefix (pl_head_ref pr) (rd_proposed r @ ''/'' @ RevertSegment @ ''/''),
      po_approvals = 0, po_required = 0, po_checks = ''''\<rparr>"

text \<open>\<open>ErrNoBranch\<close> is the one error of \<open>BranchDiff\<close> in the model that is an outage.\<close>

definition Proposal_review :: "reader \<Rightarrow> project_info \<Rightarrow> int \<Rightarrow> fault + proposal \<times> draft_item list" where
  "Proposal_review r proj number =
     (case read_repo r proj of Inl e \<Rightarrow> Inl e | Inr m \<Rightarrow>
      (case For (rd_forge r) (pi_repo proj) of
         None \<Rightarrow> Inl (err_invalid (''no forge serves '' @ pi_name proj))
       | Some c \<Rightarrow>
           (case fo_pull (fst c) (snd c) number of
              Inl e \<Rightarrow> Inl (err_not_found (''pull request #'' @ itoa number @ '': '' @ fault_text e))
            | Inr pr \<Rightarrow>
                (case BranchDiff (mr_base m) (mr_remote m) (rd_base r) (pl_head_ref pr) of
                   Inl (FUnavailable _) \<Rightarrow> Inl (err_not_found (''branch '' @ pl_head_ref pr @ '' is not mirrored yet; retry in a moment''))
                 | Inl e \<Rightarrow> Inl e
                 | Inr files \<Rightarrow> Inr (proposalRow r proj pr, commitItems_of (rd_yaml r) (rd_docs r) files)))))"

definition RecentlyMerged :: "reader \<Rightarrow> project_info \<Rightarrow> int \<Rightarrow> fault + merge list" where
  "RecentlyMerged r proj since =
     (if pi_repo proj = '''' then Inr []
      else
        (case For (rd_forge r) (pi_repo proj) of
           None \<Rightarrow> Inr []
         | Some c \<Rightarrow>
             map_sum id (\<lambda>prs. map (\<lambda>pr.
               \<lparr>mg_repo = NormalizeRepoURL (pi_repo proj), mg_number = pl_number pr, mg_url = pl_url pr, mg_title = pl_title pr,
                mg_by = MergeAuthor (pl_head_ref pr) (rd_proposed r) (pl_user pr), mg_at = pl_merged_at pr\<rparr>)
               (filter (\<lambda>pr. \<not> pl_merged_at pr < since) prs)) (MergedPRs c (rd_base r) 20)))"

section \<open>The open lane\<close>

record reviewed =
  se_sha :: string
  se_updated :: int
  se_approvals :: nat
  se_checks :: string

definition settled :: "reviewed \<Rightarrow> pull \<Rightarrow> bool" where
  "settled v pr =
     (se_sha v = pl_head_sha pr \<and> se_updated v = pl_updated_at pr \<and> se_checks v \<in> {''success'', ''failure'', ''error''})"

text \<open>A fresh read of one pull request, and whether every part of it was answered.\<close>

definition read_review :: "forge_svc \<times> owner_repo \<Rightarrow> pull \<Rightarrow> reviewed \<times> bool" where
  "read_review c pr =
     (let (approvals, a) = (case Approvals c (pl_number pr) of Inl _ \<Rightarrow> (0, False) | Inr n \<Rightarrow> (n, True));
          (checks, b) = (if pl_head_sha pr = '''' then ('''', True)
                         else (case CombinedStatus c (pl_head_sha pr) of Inl _ \<Rightarrow> ('''', False) | Inr s \<Rightarrow> (s, True))) in
      (\<lparr>se_sha = pl_head_sha pr, se_updated = pl_updated_at pr, se_approvals = approvals, se_checks = checks\<rparr>, a \<and> b))"

definition review_of :: "forge_svc \<times> owner_repo \<Rightarrow> (int \<times> reviewed) list \<Rightarrow> pull \<Rightarrow> reviewed \<times> bool" where
  "review_of c prev pr =
     (case map_of prev (pl_number pr) of
        Some v \<Rightarrow> if settled v pr then (v, True) else read_review c pr
      | None \<Rightarrow> read_review c pr)"

definition lane_row :: "reader \<Rightarrow> project_info \<Rightarrow> int \<Rightarrow> pull \<Rightarrow> reviewed \<Rightarrow> proposal" where
  "lane_row r proj required pr v =
     (proposalRow r proj pr)\<lparr>po_required := required, po_approvals := se_approvals v, po_checks := se_checks v\<rparr>"

type_synonym review_cache = "string \<Rightarrow> (int \<times> reviewed) list"

definition required_of :: "forge_svc \<times> owner_repo \<Rightarrow> string \<Rightarrow> int" where
  "required_of c base = (case RequiredApprovals c base of Inr (Some n) \<Rightarrow> n | _ \<Rightarrow> 0)"

fun keep_reviews :: "forge_svc \<times> owner_repo \<Rightarrow> (int \<times> reviewed) list \<Rightarrow> pull list \<Rightarrow> (int \<times> reviewed) list \<Rightarrow> (int \<times> reviewed) list" where
  "keep_reviews c prev [] out = out"
| "keep_reviews c prev (pr # prs) out =
     keep_reviews c prev prs (let (v, ok) = review_of c prev pr in if ok then AList.update (pl_number pr) v out else out)"

definition OpenProposals :: "reader \<Rightarrow> project_info \<Rightarrow> review_cache \<Rightarrow> (fault + proposal list) \<times> review_cache" where
  "OpenProposals r proj cache =
     (if pi_repo proj = '''' then (Inr [], cache)
      else
        (case For (rd_forge r) (pi_repo proj) of
           None \<Rightarrow> (Inr [], cache)
         | Some c \<Rightarrow>
             (case OpenPRs c (rd_base r) 50 of
                Inl e \<Rightarrow> (Inl e, cache)
              | Inr open_prs \<Rightarrow>
                  (let key = NormalizeRepoURL (pi_repo proj); prev = cache key in
                   if open_prs = [] then (Inr [], cache(key := []))
                   else
                     (Inr (map (\<lambda>pr. lane_row r proj (required_of c (rd_base r)) pr (fst (review_of c prev pr))) open_prs),
                      cache(key := keep_reviews c prev open_prs []))))))"

section \<open>The cache of review states\<close>

text \<open>A state some earlier refresh read, in full, for a pull request of the repository.\<close>

definition came_from :: "(reader \<times> project_info) list \<Rightarrow> string \<Rightarrow> int \<Rightarrow> reviewed \<Rightarrow> bool" where
  "came_from past key n v =
     (\<exists>(r, proj) \<in> set past. \<exists>c prs pr. For (rd_forge r) (pi_repo proj) = Some c \<and> OpenPRs c (rd_base r) 50 = Inr prs \<and> pr \<in> set prs \<and>
        NormalizeRepoURL (pi_repo proj) = key \<and> pl_number pr = n \<and> read_review c pr = (v, True))"

definition lane_cache :: "(reader \<times> project_info) list \<Rightarrow> review_cache" where
  "lane_cache past = foldl (\<lambda>cache (r, proj). snd (OpenProposals r proj cache)) (\<lambda>_. []) past"

lemma keep_reviews_from:
  "map_of (keep_reviews c prev prs out) n = Some v \<Longrightarrow>
   map_of out n = Some v \<or> (\<exists>pr \<in> set prs. pl_number pr = n \<and> review_of c prev pr = (v, True))"
proof (induction prs arbitrary: out)
  case (Cons pr prs)
  obtain w ok where w: "review_of c prev pr = (w, ok)" by fastforce
  from Cons.IH[of "if ok then AList.update (pl_number pr) w out else out"] Cons.prems w show ?case
    by (auto simp: update_conv' split: if_splits)
qed simp

lemma review_of_from: "review_of c prev pr = (v, True) \<Longrightarrow> map_of prev (pl_number pr) = Some v \<or> read_review c pr = (v, True)"
  by (auto simp: review_of_def split: option.splits if_splits)

lemma came_from_more: "came_from past key n v \<Longrightarrow> came_from (past @ rest') key n v"
  unfolding came_from_def set_append by blast

lemma lane_cache_from: "map_of (lane_cache past key) n = Some v \<Longrightarrow> came_from past key n v"
proof (induction past arbitrary: key n v rule: rev_induct)
  case Nil
  then show ?case by (simp add: lane_cache_def)
next
  case (snoc rp past)
  obtain r proj where rp: "rp = (r, proj)" by fastforce
  let ?k = "NormalizeRepoURL (pi_repo proj)"
  have step: "lane_cache (past @ [rp]) = snd (OpenProposals r proj (lane_cache past))" by (simp add: lane_cache_def rp)
  consider (old) "map_of (lane_cache past key) n = Some v"
    | (new) c prs where "For (rd_forge r) (pi_repo proj) = Some c" "OpenPRs c (rd_base r) 50 = Inr prs" "key = ?k"
        "map_of (keep_reviews c (lane_cache past ?k) prs []) n = Some v"
    using snoc.prems unfolding step OpenProposals_def
    by (auto simp: Let_def split: if_splits option.splits sum.splits)
  then show ?case
  proof cases
    case old
    then show ?thesis using snoc.IH came_from_more by blast
  next
    case new
    then obtain pr where pr: "pr \<in> set prs" "pl_number pr = n" "review_of c (lane_cache past ?k) pr = (v, True)"
      using keep_reviews_from by fastforce
    from review_of_from[OF pr(3)] show ?thesis
    proof
      assume "map_of (lane_cache past ?k) (pl_number pr) = Some v"
      then show ?thesis using snoc.IH came_from_more new(3) pr(2) by blast
    next
      assume rr: "read_review c pr = (v, True)"
      have "(r, proj) \<in> set (past @ [rp])" by (simp add: rp)
      with rr new(1,2,3) pr(1,2) show ?thesis unfolding came_from_def by blast
    qed
  qed
qed

text \<open>
  While head and stamp of a pull request stand still and its checks have finished, the forge answers the same about it as it
  did to an earlier refresh of the repository that got all its answers.
\<close>

definition reviews_stable :: "(reader \<times> project_info) list \<Rightarrow> reader \<Rightarrow> project_info \<Rightarrow> bool" where
  "reviews_stable past r proj =
     (\<forall>c prs pr v. For (rd_forge r) (pi_repo proj) = Some c \<longrightarrow> OpenPRs c (rd_base r) 50 = Inr prs \<longrightarrow> pr \<in> set prs \<longrightarrow>
        came_from past (NormalizeRepoURL (pi_repo proj)) (pl_number pr) v \<longrightarrow>
        se_sha v = pl_head_sha pr \<longrightarrow> se_updated v = pl_updated_at pr \<longrightarrow> se_checks v \<in> {''success'', ''failure'', ''error''} \<longrightarrow>
        read_review c pr = (v, True))"

text \<open>C12: The review cache of the proposals lane is invisible: whatever refreshes of whatever projects came before, a refresh
  shows exactly the rows it would show with an empty cache, every forge read made anew, as long as a pull request whose head and
  timestamp have not moved and whose checks have finished is still answered as before. A partial read is never remembered, and a
  cached state never outlives its head.\<close>
theorem lane_cache_transparent:
  assumes "reviews_stable past r proj"
  shows "fst (OpenProposals r proj (lane_cache past)) = fst (OpenProposals r proj (\<lambda>_. []))"
proof -
  let ?k = "NormalizeRepoURL (pi_repo proj)"
  have same: "fst (review_of c (lane_cache past ?k) pr) = fst (review_of c [] pr)"
    if "For (rd_forge r) (pi_repo proj) = Some c" "OpenPRs c (rd_base r) 50 = Inr prs" "pr \<in> set prs" for c prs pr
  proof (cases "\<exists>v. map_of (lane_cache past ?k) (pl_number pr) = Some v \<and> settled v pr")
    case True
    then obtain v where v: "map_of (lane_cache past ?k) (pl_number pr) = Some v" "settled v pr" by blast
    have "read_review c pr = (v, True)"
      using assms that v(2) lane_cache_from[OF v(1)] unfolding reviews_stable_def settled_def by blast
    with v show ?thesis by (simp add: review_of_def)
  next
    case False
    then show ?thesis by (auto simp: review_of_def split: option.splits)
  qed
  show ?thesis
    using same by (auto simp: OpenProposals_def Let_def split: option.splits sum.splits)
qed

definition lane_pull :: pull where
  "lane_pull = \<lparr>pl_number = 7, pl_url = ''u'', pl_state = ''open'', pl_merged = False, pl_merged_at = 0, pl_updated_at = 1, pl_title = ''t'',
     pl_head_ref = ''h'', pl_head_sha = ''s'', pl_base_ref = ''main'', pl_user = ''bot''\<rparr>"

definition lane_forge :: forge_svc where
  "lane_forge = \<lparr>fo_base = ''https://forge'', fo_all = (\<lambda>_ _ _. Inr []), fo_pull = (\<lambda>_ _. Inr lane_pull),
     fo_open = (\<lambda>_ _ _. Inr [lane_pull]), fo_closed = (\<lambda>_ _ _. Inr []), fo_create = (\<lambda>_ _ _ _ _. Inr lane_pull),
     fo_reopen = (\<lambda>_ _. Inr lane_pull), fo_reviews = (\<lambda>_ _. Inr [\<lparr>rw_state = ''APPROVED'', rw_dismissed = False, rw_user = ''eve''\<rparr>]),
     fo_rules = (\<lambda>_. Inr []), fo_status = (\<lambda>_ _. Inr (''success'', 1)), fo_exists = (\<lambda>_. Inr True), fo_new_repo = (\<lambda>_. Inr ())\<rparr>"

text \<open>A second refresh is served from the cache the first one filled.\<close>

theorem lane_cache_transparent_witness:
  "lane_cache [(shop_reader (Some lane_forge), shop_project)] (NormalizeRepoURL (pi_repo shop_project)) \<noteq> [] \<and>
   fst (OpenProposals (shop_reader (Some lane_forge)) shop_project (lane_cache [(shop_reader (Some lane_forge), shop_project)])) =
   fst (OpenProposals (shop_reader (Some lane_forge)) shop_project (\<lambda>_. []))"
proof
  have "ownerRepo (pi_repo shop_project) = Some (''org'', ''shop'')" by code_simp
  then have f: "For (rd_forge (shop_reader (Some lane_forge))) (pi_repo shop_project) = Some (lane_forge, (''org'', ''shop''))"
    by (simp add: For_def shop_reader_def)
  have o: "OpenPRs (lane_forge, (''org'', ''shop'')) (rd_base (shop_reader (Some lane_forge))) 50 = Inr [lane_pull]"
    by (simp add: OpenPRs_def lane_forge_def lane_pull_def shop_reader_def)
  have r: "snd (read_review (lane_forge, (''org'', ''shop'')) lane_pull)" by code_simp
  have "pi_repo shop_project \<noteq> ''''" by (simp add: shop_project_def)
  then show "lane_cache [(shop_reader (Some lane_forge), shop_project)] (NormalizeRepoURL (pi_repo shop_project)) \<noteq> []"
    using r by (auto simp: lane_cache_def OpenProposals_def f o Let_def review_of_def split: prod.split)
  have "reviews_stable [(shop_reader (Some lane_forge), shop_project)] (shop_reader (Some lane_forge)) shop_project"
    using f o by (auto simp: reviews_stable_def came_from_def)
  then show "fst (OpenProposals (shop_reader (Some lane_forge)) shop_project (lane_cache [(shop_reader (Some lane_forge), shop_project)])) =
    fst (OpenProposals (shop_reader (Some lane_forge)) shop_project (\<lambda>_. []))" by (rule lane_cache_transparent)
qed

end
