(* ===== verification/Ttlcache.thy ===== *)
theory Ttlcache
  imports Go_Prelude
begin

text \<open>
  \<open>internal/ttlcache/ttlcache.go\<close>: the string-keyed cache whose entries live for a window, and the
  contract its clients use it under. Time is an integer (the monotonic clock in nanoseconds); the
  Go map is an association list, in any order.
\<close>

section \<open>The cache\<close>

record 'v cache_entry =
  ce_val :: 'v
  ce_at :: int

record 'v cache =
  ca_ttl :: int
  ca_m :: "(string \<times> 'v cache_entry) list"

definition cache_new :: "int \<Rightarrow> 'v cache" where
  "cache_new ttl = \<lparr>ca_ttl = ttl, ca_m = []\<rparr>"

definition cache_get :: "int \<Rightarrow> 'v cache \<Rightarrow> string \<Rightarrow> 'v option" where
  "cache_get now c key =
     (case map_of (ca_m c) key of
        None \<Rightarrow> None
      | Some e \<Rightarrow> if now - ce_at e < ca_ttl c then Some (ce_val e) else None)"

definition evict :: "int \<Rightarrow> int \<Rightarrow> (string \<times> 'v cache_entry) list \<Rightarrow> (string \<times> 'v cache_entry) list" where
  "evict now ttl m = filter (\<lambda>(k, e). \<not> (now - ce_at e \<ge> ttl)) m"

definition cache_put :: "int \<Rightarrow> 'v cache \<Rightarrow> string \<Rightarrow> 'v \<Rightarrow> 'v cache" where
  "cache_put now c key v =
     c\<lparr>ca_m := (key, \<lparr>ce_val = v, ce_at = now\<rparr>) # filter (\<lambda>(k, e). k \<noteq> key) (evict now (ca_ttl c) (ca_m c))\<rparr>"

definition cache_ok :: "'v cache \<Rightarrow> bool" where
  "cache_ok c = distinct (map fst (ca_m c))"

definition stored :: "'v cache \<Rightarrow> string \<Rightarrow> 'v \<Rightarrow> int \<Rightarrow> bool" where
  "stored c key v at = (map_of (ca_m c) key = Some \<lparr>ce_val = v, ce_at = at\<rparr>)"

lemma cache_new_ok [simp]: "cache_ok (cache_new ttl)" "\<not> stored (cache_new ttl) k v at" "ca_ttl (cache_new ttl) = ttl"
  by (simp_all add: cache_ok_def cache_new_def stored_def)

lemma distinct_filter_fst: "distinct (map fst m) \<Longrightarrow> distinct (map fst (filter P m))"
  by (induction m) auto

lemma map_of_filter_key: "map_of (filter (\<lambda>(k, e). k \<noteq> key) m) k = (if k = key then None else map_of m k)"
  by (induction m) auto

lemma map_of_filter_Some: "distinct (map fst m) \<Longrightarrow> map_of (filter P m) k = Some e \<longleftrightarrow> map_of m k = Some e \<and> P (k, e)"
  by (simp add: distinct_filter_fst)

lemma cache_put_ok: "cache_ok c \<Longrightarrow> cache_ok (cache_put now c key v)"
  by (auto simp: cache_ok_def cache_put_def evict_def intro!: distinct_filter_fst)

lemma cache_put_ttl [simp]: "ca_ttl (cache_put now c key v) = ca_ttl c"
  by (simp add: cache_put_def)

lemma cache_get_stored: "cache_get now c key = Some v \<longleftrightarrow> (\<exists>at. stored c key v at \<and> now - at < ca_ttl c)"
proof -
  have "\<exists>at. e = \<lparr>ce_val = ce_val e, ce_at = at\<rparr>" for e :: "'b cache_entry" by (intro exI[of _ "ce_at e"]) simp
  then show ?thesis by (auto simp: cache_get_def stored_def split: option.splits) force
qed

lemma stored_put:
  assumes "cache_ok c"
  shows "stored (cache_put now c key v) k w at \<longleftrightarrow>
    (if k = key then w = v \<and> at = now else stored c k w at \<and> now - at < ca_ttl c)"
proof -
  have d: "distinct (map fst (ca_m c))" using assms by (simp add: cache_ok_def)
  have "map_of (evict now (ca_ttl c) (ca_m c)) k = Some \<lparr>ce_val = w, ce_at = at\<rparr> \<longleftrightarrow>
      map_of (ca_m c) k = Some \<lparr>ce_val = w, ce_at = at\<rparr> \<and> \<not> (now - at \<ge> ca_ttl c)"
    unfolding evict_def using map_of_filter_Some[OF d] by simp
  then show ?thesis
    by (auto simp: stored_def cache_put_def map_of_filter_key)
qed

text \<open>After a write the cache holds only what was written within the window before it.\<close>

lemma cache_put_recent: "(k, e) \<in> set (ca_m (cache_put now c key v)) \<Longrightarrow> k = key \<or> now - ce_at e < ca_ttl c"
  by (auto simp: cache_put_def evict_def)

section \<open>The contract, and a stamped cache on it\<close>

text \<open>What a client may rely on: a hit returns a value stored under the key within the window; a write
  stores its value and forgets, at most, other entries.\<close>

locale window_cache =
  fixes get :: "int \<Rightarrow> 'c \<Rightarrow> string \<Rightarrow> 'v option"
    and put :: "int \<Rightarrow> 'c \<Rightarrow> string \<Rightarrow> 'v \<Rightarrow> 'c"
    and ok :: "'c \<Rightarrow> bool"
    and holds :: "'c \<Rightarrow> string \<Rightarrow> 'v \<Rightarrow> int \<Rightarrow> bool"
    and window :: "'c \<Rightarrow> int"
  assumes get_holds: "ok c \<Longrightarrow> get now c k = Some v \<Longrightarrow> \<exists>at. holds c k v at \<and> now - at < window c"
    and get_put: "ok c \<Longrightarrow> 0 < window c \<Longrightarrow> get now (put now c k v) k = Some v"
    and put_holds: "ok c \<Longrightarrow> holds (put now c k v) j w at \<Longrightarrow> (j = k \<and> w = v \<and> at = now) \<or> (j \<noteq> k \<and> holds c j w at)"
    and put_ok: "ok c \<Longrightarrow> ok (put now c k v)"
    and put_window: "window (put now c k v) = window c"
begin

text \<open>A client that keeps only values it can justify: \<open>J\<close> is kept by every write that justifies its own.\<close>

definition justified :: "(string \<Rightarrow> 'v \<Rightarrow> int \<Rightarrow> bool) \<Rightarrow> 'c \<Rightarrow> bool" where
  "justified J c = (ok c \<and> (\<forall>k v at. holds c k v at \<longrightarrow> J k v at))"

lemma justified_put: "justified J c \<Longrightarrow> J k v now \<Longrightarrow> justified J (put now c k v)"
  unfolding justified_def using put_holds put_ok by blast

lemma justified_get: "justified J c \<Longrightarrow> get now c k = Some v \<Longrightarrow> \<exists>at. J k v at \<and> now - at < window c"
  unfolding justified_def using get_holds by blast

lemma justified_mono: "justified J c \<Longrightarrow> (\<And>k v at. J k v at \<Longrightarrow> J' k v at) \<Longrightarrow> justified J' c"
  unfolding justified_def by blast

end

interpretation ttl: window_cache cache_get cache_put cache_ok stored ca_ttl
proof
  show "cache_get now (cache_put now c k v) k = Some v" if "cache_ok c" "0 < ca_ttl c" for now c k and v :: 'a
    using that by (auto simp: cache_get_stored stored_put)
qed (auto simp: cache_get_stored stored_put cache_put_ok split: if_splits)

end
