(* ===== verification/Eventbus_History.thy ===== *)
theory Eventbus_History
  imports Eventbus_Bus
begin

text \<open>
  Publishers, readers and subscribers of one bus running at once. A history is the sequence of
  the atomic steps of all of them: each publish contributes its steps in program order, with the
  change it announces (the write to the store, the branch head) before its first step; a receive
  takes a subscriber's token. A reader's loads happen at the times of the history it likes.
\<close>

section \<open>Histories\<close>

datatype op = OpPublish kind | OpPublishKey kind string

datatype pub_event = Change | Bump kind | BumpBroad kind | BumpKey kind string | Wake kind

text \<open>The steps of a publish, in the order of the code.\<close>

fun program :: "op \<Rightarrow> pub_event list" where
  "program (OpPublish k) = [Change, Bump k, BumpBroad k, Wake k]"
| "program (OpPublishKey k key) = [Change, Bump k, BumpKey k key, Wake k]"

datatype event = Ev nat pub_event | Recv nat

fun pub_step :: "pub_event \<Rightarrow> bus \<Rightarrow> bus" where
  "pub_step Change b = b"
| "pub_step (Bump k) b = bump k b"
| "pub_step (BumpBroad k) b = bump_broad k b"
| "pub_step (BumpKey k key) b = bump_key k key b"
| "pub_step (Wake k) b = wake k b"

fun apply_event :: "event \<Rightarrow> bus \<Rightarrow> bus" where
  "apply_event (Ev p e) b = pub_step e b"
| "apply_event (Recv s) b = receive s b"

definition run_events :: "bus \<Rightarrow> event list \<Rightarrow> bus" where
  "run_events b h = fold apply_event h b"

definition bus_at :: "bus \<Rightarrow> event list \<Rightarrow> nat \<Rightarrow> bus" where
  "bus_at b h t = run_events b (take t h)"

text \<open>A publish run alone is the code's publish.\<close>

lemma program_publish:
  "Publish k (Some b) = Some (run_events b (map (Ev p) (program (OpPublish k))))"
  "PublishKey k key (Some b) = Some (run_events b (map (Ev p) (program (OpPublishKey k key))))"
  by (simp_all add: Publish_def PublishKey_def run_events_def)

text \<open>\<open>interleaved ops b h pc\<close>: \<open>h\<close> interleaves the publishes \<open>ops\<close> and some receives, and \<open>pc p\<close> is
  how many steps of publish \<open>p\<close> it holds.\<close>

inductive interleaved :: "(nat \<Rightarrow> op) \<Rightarrow> bus \<Rightarrow> event list \<Rightarrow> (nat \<Rightarrow> nat) \<Rightarrow> bool" for ops b where
  start: "interleaved ops b [] (\<lambda>_. 0)"
| publish: "interleaved ops b h pc \<Longrightarrow> pc p < length (program (ops p)) \<Longrightarrow>
    interleaved ops b (h @ [Ev p (program (ops p) ! pc p)]) (pc(p := Suc (pc p)))"
| take_token: "interleaved ops b h pc \<Longrightarrow> pending (run_events b h) s \<Longrightarrow> interleaved ops b (h @ [Recv s]) pc"

definition occurs :: "event list \<Rightarrow> nat \<Rightarrow> pub_event \<Rightarrow> nat \<Rightarrow> bool" where
  "occurs h p e i = (i < length h \<and> h ! i = Ev p e)"

lemma occurs_append:
  "occurs (h @ [x]) p e i \<longleftrightarrow> occurs h p e i \<or> (i = length h \<and> x = Ev p e)"
  by (auto simp: occurs_def nth_append)

lemma occurs_past: "occurs h p e i \<Longrightarrow> i < length h"
  by (simp add: occurs_def)

lemma distinct_program: "distinct (program x)"
  by (cases x) auto

lemma interleaved_occurs:
  assumes "interleaved ops b h pc" and "occurs h p e i"
  shows "\<exists>n < length (program (ops p)). n < pc p \<and> e = program (ops p) ! n"
  using assms
  by (induction arbitrary: i rule: interleaved.induct)
     (auto simp: occurs_append occurs_def[of "[]"] less_Suc_eq)

lemma interleaved_done:
  assumes "interleaved ops b h pc" and "n < pc p"
  shows "\<exists>i. occurs h p (program (ops p) ! n) i"
  using assms
proof (induction arbitrary: rule: interleaved.induct)
  case (publish h pc q)
  then show ?case by (cases "q = p"; cases "n = pc p") (auto simp: occurs_append less_Suc_eq)
qed (auto simp: occurs_append)

lemma occurs_pc:
  assumes "interleaved ops b h pc" and "occurs h p (program (ops p) ! n) i" and "n < length (program (ops p))"
  shows "n < pc p"
proof -
  from interleaved_occurs[OF assms(1,2)] obtain m where
    "m < length (program (ops p))" "m < pc p" "program (ops p) ! n = program (ops p) ! m" by blast
  with assms(3) distinct_program[of "ops p"] show ?thesis by (simp add: nth_eq_iff_index_eq)
qed

text \<open>The steps of one publish occur in program order.\<close>

lemma interleaved_order:
  assumes "interleaved ops b h pc" and "occurs h p (program (ops p) ! n) j"
    and "m < n" and "n < length (program (ops p))"
  shows "\<exists>i < j. occurs h p (program (ops p) ! m) i"
  using assms
proof (induction arbitrary: j rule: interleaved.induct)
  case start
  then show ?case by (simp add: occurs_def)
next
  case (publish h pc q)
  show ?case
  proof (cases "occurs h p (program (ops p) ! n) j")
    case True
    with publish show ?thesis by (auto simp: occurs_append)
  next
    case False
    with publish.prems(1) have j: "j = length h" "q = p" "program (ops p) ! n = program (ops p) ! pc p"
      by (auto simp: occurs_append)
    with publish.hyps(2) publish.prems distinct_program[of "ops p"] have "n = pc p"
      by (simp add: nth_eq_iff_index_eq)
    with publish.prems(2) have "m < pc p" by simp
    with interleaved_done[OF publish.hyps(1)] j obtain i where "occurs h p (program (ops p) ! m) i" by blast
    with j show ?thesis by (auto simp: occurs_append dest: occurs_past)
  qed
next
  case (take_token h pc s)
  then show ?case by (auto simp: occurs_append)
qed

lemma occurs_unique:
  assumes "interleaved ops b h pc" and "occurs h p e i" and "occurs h p e j"
  shows "i = j"
  using assms
proof (induction arbitrary: i j rule: interleaved.induct)
  case start
  then show ?case by (simp add: occurs_def)
next
  case (publish h pc q)
  have new: False if "occurs h p (program (ops q) ! pc q) i" "q = p" for i
    using occurs_pc[OF publish.hyps(1), of q "pc q" i] that publish.hyps(2) by auto
  from publish.prems show ?case
    using publish.IH new by (auto simp: occurs_append)
next
  case (take_token h pc s)
  then show ?case by (auto simp: occurs_append)
qed

section \<open>Readings\<close>

text \<open>One atomic load: the counter it reads, and the events that move it.\<close>

datatype load = LVersion kind | LBroad kind | LKeyed kind string

fun load_value :: "bus \<Rightarrow> load \<Rightarrow> counter" where
  "load_value b (LVersion k) = bs_versions b k"
| "load_value b (LBroad k) = bs_broad b k"
| "load_value b (LKeyed k key) = keyed_get b k key"

fun hits :: "load \<Rightarrow> event \<Rightarrow> bool" where
  "hits (LVersion k) (Ev p (Bump j)) = (j = k)"
| "hits (LBroad k) (Ev p (BumpBroad j)) = (j = k)"
| "hits (LKeyed k key) (Ev p (BumpKey j x)) = (j = k \<and> x = key)"
| "hits l e = False"

text \<open>A reader that does the loads \<open>ls\<close> one after the other at the times \<open>ts\<close>, and adds them up.\<close>

definition reading :: "bus \<Rightarrow> event list \<Rightarrow> load list \<Rightarrow> nat list \<Rightarrow> counter" where
  "reading b h ls ts = sum_list (map2 (\<lambda>l t. load_value (bus_at b h t) l) ls ts)"

lemma load_apply: "load_value (apply_event e b) l = load_value b l + (if hits l e then 1 else 0)"
  by (cases "(l, e)" rule: hits.cases; cases l) auto

definition hit_count :: "load \<Rightarrow> event list \<Rightarrow> nat" where
  "hit_count l h = length (filter (hits l) h)"

lemma load_run: "load_value (run_events b h) l = load_value b l + of_nat (hit_count l h)"
  by (induction h arbitrary: b) (auto simp: run_events_def hit_count_def load_apply)

lemma hit_count_mono: "s \<le> t \<Longrightarrow> hit_count l (take s h) \<le> hit_count l (take t h)"
  unfolding hit_count_def
  by (metis filter_append le_add1 length_append le_add_diff_inverse take_add)

lemma hit_count_moved:
  assumes "s \<le> i" "i < t" "i < length h" "hits l (h ! i)"
  shows "hit_count l (take s h) < hit_count l (take t h)"
proof -
  have "hit_count l (take s h) \<le> hit_count l (take i h)" by (rule hit_count_mono[OF assms(1)])
  also have "\<dots> < hit_count l (take (Suc i) h)"
    using assms by (simp add: hit_count_def take_Suc_conv_app_nth)
  also have "\<dots> \<le> hit_count l (take t h)" using assms by (intro hit_count_mono) simp
  finally show ?thesis .
qed

lemma hit_count_le: "hit_count l (take t h) \<le> length h"
  unfolding hit_count_def by (metis length_filter_le length_take min.bounded_iff order_trans order_refl)

definition hit_sum :: "event list \<Rightarrow> load list \<Rightarrow> nat list \<Rightarrow> nat" where
  "hit_sum h ls ts = sum_list (map2 (\<lambda>l t. hit_count l (take t h)) ls ts)"

lemma reading_hits:
  "length ts = length ls \<Longrightarrow> reading b h ls ts = sum_list (map (load_value b) ls) + of_nat (hit_sum h ls ts)"
  by (induction ls ts rule: list_induct2')
     (auto simp: reading_def hit_sum_def bus_at_def load_run algebra_simps)

lemma hit_sum_le: "length ts = length ls \<Longrightarrow> hit_sum h ls ts \<le> length ls * length h"
proof (induction ls ts rule: list_induct2')
  case (4 l ls t ts)
  with hit_count_le[of l t h] show ?case by (simp add: hit_sum_def add_mono)
qed (auto simp: hit_sum_def)

lemma hit_sum_mono:
  "length ts = length ls \<Longrightarrow> length ts' = length ls \<Longrightarrow> \<forall>t \<in> set ts. t \<le> i \<Longrightarrow> \<forall>t \<in> set ts'. i \<le> t \<Longrightarrow>
     hit_sum h ls ts \<le> hit_sum h ls ts'"
proof (induction ls arbitrary: ts ts')
  case (Cons l ls)
  then obtain t us t' us' where ts: "ts = t # us" "ts' = t' # us'" by (cases ts; cases ts') auto
  with Cons.prems have "hit_count l (take t h) \<le> hit_count l (take t' h)"
    by (intro hit_count_mono) (auto intro: order_trans)
  moreover have "hit_sum h ls us \<le> hit_sum h ls us'" using Cons ts by auto
  ultimately show ?case using ts by (simp add: hit_sum_def)
qed (simp add: hit_sum_def)

lemma hit_sum_moved:
  assumes "length ts = length ls" "length ts' = length ls"
    and "\<forall>t \<in> set ts. t \<le> i" "\<forall>t \<in> set ts'. i < t" and "i < length h"
    and "l \<in> set ls" "hits l (h ! i)"
  shows "hit_sum h ls ts < hit_sum h ls ts'"
  using assms
proof (induction ls arbitrary: ts ts')
  case (Cons k ls)
  then obtain t us t' us' where ts: "ts = t # us" "ts' = t' # us'" by (cases ts; cases ts') auto
  have le: "hit_sum h ls us \<le> hit_sum h ls us'"
    using Cons.prems ts by (intro hit_sum_mono[where i = i]) auto
  show ?case
  proof (cases "l = k")
    case True
    with Cons.prems ts have "hit_count k (take t h) < hit_count k (take t' h)"
      by (intro hit_count_moved[of t i]) auto
    with le ts show ?thesis by (simp add: hit_sum_def)
  next
    case False
    with Cons ts have "hit_sum h ls us < hit_sum h ls us'" by auto
    moreover have "hit_count k (take t h) \<le> hit_count k (take t' h)"
      using Cons.prems ts by (intro hit_count_mono) auto
    ultimately show ?thesis using ts by (simp add: hit_sum_def)
  qed
qed simp

text \<open>A counter that moved between two readings makes them differ, unless so many steps ran that the
  64-bit sum could come round.\<close>

lemma reading_moved:
  assumes "length ts = length ls" "length ts' = length ls"
    and "\<forall>t \<in> set ts. t \<le> i" "\<forall>t \<in> set ts'. i < t" and "i < length h"
    and "l \<in> set ls" "hits l (h ! i)" and "length ls * length h < 2 ^ 64"
  shows "reading b h ls ts \<noteq> reading b h ls ts'"
proof
  assume "reading b h ls ts = reading b h ls ts'"
  then have "(of_nat (hit_sum h ls ts) :: counter) = of_nat (hit_sum h ls ts')"
    using assms(1,2) by (simp add: reading_hits)
  moreover have "hit_sum h ls ts < 2 ^ 64" "hit_sum h ls ts' < 2 ^ 64"
    using hit_sum_le[OF assms(1), of h] hit_sum_le[OF assms(2), of h] assms(8) by simp_all
  ultimately have "hit_sum h ls ts = hit_sum h ls ts'"
    by (simp add: word_of_nat_eq_iff take_bit_nat_eq_self)
  with hit_sum_moved[OF assms(1-7)] show False by simp
qed

section \<open>Wakes\<close>

lemma wants_run [simp]: "wants (run_events b h) s k = wants b s k"
proof -
  have step: "wants (apply_event e b) s k = wants b s k" for e b
    by (cases e; cases "case e of Ev p x \<Rightarrow> x | Recv _ \<Rightarrow> Change") auto
  show ?thesis by (induction h arbitrary: b) (auto simp: run_events_def step)
qed

text \<open>A wake leaves its token until it is received.\<close>

lemma pending_apply: "e \<noteq> Recv s \<Longrightarrow> pending b s \<Longrightarrow> pending (apply_event e b) s"
  by (cases e; cases "case e of Ev p x \<Rightarrow> x | Recv _ \<Rightarrow> Change") auto

lemma pending_run: "Recv s \<notin> set h \<Longrightarrow> pending b s \<Longrightarrow> pending (run_events b h) s"
  by (induction h arbitrary: b) (auto simp: run_events_def pending_apply)

lemma wake_stays:
  assumes "occurs h p (Wake k) i" and "wants b s k" and "i < t" and "t \<le> length h"
    and quiet: "\<forall>j. i < j \<and> j < t \<longrightarrow> h ! j \<noteq> Recv s"
  shows "pending (bus_at b h t) s"
proof -
  from assms(1) have i: "i < length h" "h ! i = Ev p (Wake k)" by (auto simp: occurs_def)
  have "take t h = take i h @ [h ! i] @ take (t - Suc i) (drop (Suc i) h)"
    using assms(3) i by (metis (no_types, lifting) Suc_leI append.assoc le_add_diff_inverse take_Suc_conv_app_nth take_add)
  then have "bus_at b h t = run_events (wake k (bus_at b h i)) (take (t - Suc i) (drop (Suc i) h))"
    using i by (simp add: bus_at_def run_events_def)
  moreover have "pending (wake k (bus_at b h i)) s" using assms(2) by (simp add: bus_at_def)
  moreover have "Recv s \<notin> set (take (t - Suc i) (drop (Suc i) h))"
  proof
    assume "Recv s \<in> set (take (t - Suc i) (drop (Suc i) h))"
    then obtain j where "j < t - Suc i" "Suc i + j < length h" "h ! (Suc i + j) = Recv s"
      by (auto simp: in_set_conv_nth)
    with quiet[rule_format, of "Suc i + j"] show False by simp
  qed
  ultimately show ?thesis by (simp add: pending_run)
qed

text \<open>A token that is there was left by a wake, when the channel started empty.\<close>

lemma pending_had_wake:
  assumes "pending (run_events b h) s" and "\<not> pending b s"
  shows "\<exists>p k j. occurs h p (Wake k) j \<and> wants b s k"
  using assms
proof (induction h rule: rev_induct)
  case Nil
  then show ?case by (simp add: run_events_def)
next
  case (snoc e h)
  have last: "run_events b (h @ [e]) = apply_event e (run_events b h)" by (simp add: run_events_def)
  show ?case
  proof (cases "pending (run_events b h) s")
    case True
    with snoc show ?thesis by (auto simp: occurs_append)
  next
    case False
    with snoc.prems(1) last obtain p k where "e = Ev p (Wake k)" "wants b s k"
      by (cases e; cases "case e of Ev p x \<Rightarrow> x | Recv _ \<Rightarrow> Change") auto
    then show ?thesis by (auto simp: occurs_append)
  qed
qed

lemma interleaved_Recv:
  assumes "interleaved ops b h pc" and "i < length h" and "h ! i = Recv s"
  shows "pending (run_events b (take i h)) s"
  using assms by (induction rule: interleaved.induct) (auto simp: nth_append less_Suc_eq)

end
