(* ===== verification/Stream_Levels.thy ===== *)
theory Stream_Levels
  imports Eventbus_History Forge_Url
begin

text \<open>
  \<open>internal/stream/levels.go\<close>: the change level inventory frames are reconciled against, and the
  contract the hub relies on. The contract is a locale over histories: what a reading of a level
  says about the changes that happened between two readings, and that a wake outlives a busy
  subscriber. \<open>RepoLevels\<close> over the bus histories interprets it.
\<close>

section \<open>RepoLevels\<close>

text \<open>The part of the inventory the levels read: each project's repository. The rest of the
  inventory is the record's extension.\<close>

record project_row =
  pr_name :: string
  pr_repo :: string

record inventory =
  inv_projects :: "project_row list"

record repo_levels =
  rl_scoped :: kind
  rl_all :: "kind list"
  rl_unscoped :: "kind list"

definition RepoLevels :: "kind \<Rightarrow> kind list \<Rightarrow> repo_levels" where
  "RepoLevels scoped kinds =
     \<lparr>rl_scoped = scoped, rl_all = kinds, rl_unscoped = filter (\<lambda>k. k \<noteq> scoped) kinds\<rparr>"

definition Total :: "repo_levels \<Rightarrow> bus option \<Rightarrow> counter" where
  "Total l bo = Version bo (rl_all l)"

definition Deps :: "'x inventory_scheme \<Rightarrow> string list" where
  "Deps iv = map (\<lambda>p. NormalizeRepoURL (pr_repo p)) (filter (\<lambda>p. pr_repo p \<noteq> '''') (inv_projects iv))"

definition Stamp :: "repo_levels \<Rightarrow> bus option \<Rightarrow> string list \<Rightarrow> counter" where
  "Stamp l bo deps = foldl (\<lambda>v d. v + KeyVersion bo (rl_scoped l) d) (Version bo (rl_unscoped l)) deps"

section \<open>The loads of a level\<close>

definition total_loads :: "repo_levels \<Rightarrow> load list" where
  "total_loads l = map LVersion (rl_all l)"

definition stamp_loads :: "repo_levels \<Rightarrow> string list \<Rightarrow> load list" where
  "stamp_loads l deps =
     map LVersion (rl_unscoped l) @ concat (map (\<lambda>d. [LKeyed (rl_scoped l) d, LBroad (rl_scoped l)]) deps)"

text \<open>Done at one instant, the loads add up to what the code computes.\<close>

lemma reading_at_once:
  "reading b h ls (replicate (length ls) t) = sum_list (map (load_value (bus_at b h t)) ls)"
  by (induction ls) (auto simp: reading_def)

lemma foldl_add: "foldl (\<lambda>v d. v + f d) (a::counter) ds = a + sum_list (map f ds)"
  by (induction ds arbitrary: a) (auto simp: add.assoc)

lemma total_at_once:
  "Total l (Some (bus_at b h t)) = reading b h (total_loads l) (replicate (length (total_loads l)) t)"
  unfolding reading_at_once by (simp add: Total_def Version_sum total_loads_def o_def)

lemma stamp_at_once:
  "Stamp l (Some (bus_at b h t)) deps = reading b h (stamp_loads l deps) (replicate (length (stamp_loads l deps)) t)"
proof -
  have "sum_list (map (\<lambda>d. keyed_get b' k d + bs_broad b' k) deps) =
      sum_list (map (load_value b') (concat (map (\<lambda>d. [LKeyed k d, LBroad k]) deps)))" for b' k
    by (induction deps) (auto simp: add.assoc)
  then show ?thesis
    unfolding reading_at_once by (simp add: Stamp_def Version_sum stamp_loads_def foldl_add KeyVersion_def o_def)
qed

section \<open>The contract\<close>

text \<open>\<open>moves_total h p i\<close>: change \<open>p\<close> moves the total at step \<open>i\<close> of the history; \<open>moves_stamp\<close>
  likewise for a stamp of \<open>deps\<close>; \<open>changed h p i\<close>: what \<open>p\<close> announces is written at step \<open>i\<close>.
  A reading is taken over an interval of the history.\<close>

locale levels =
  fixes ok :: "'h \<Rightarrow> bool"
    and roomy :: "'h \<Rightarrow> string list \<Rightarrow> bool"
    and total_read :: "'h \<Rightarrow> nat \<Rightarrow> nat \<Rightarrow> counter \<Rightarrow> bool"
    and stamp_read :: "'h \<Rightarrow> string list \<Rightarrow> nat \<Rightarrow> nat \<Rightarrow> counter \<Rightarrow> bool"
    and moves_total :: "'h \<Rightarrow> nat \<Rightarrow> nat \<Rightarrow> bool"
    and moves_stamp :: "'h \<Rightarrow> nat \<Rightarrow> string list \<Rightarrow> nat \<Rightarrow> bool"
    and changed :: "'h \<Rightarrow> nat \<Rightarrow> nat \<Rightarrow> bool"
  assumes total_moved: "ok h \<Longrightarrow> moves_total h p i \<Longrightarrow> total_read h a b v \<Longrightarrow> b \<le> i \<Longrightarrow> i < a' \<Longrightarrow>
      total_read h a' b' v' \<Longrightarrow> v \<noteq> v'"
    and stamp_moved: "ok h \<Longrightarrow> roomy h deps \<Longrightarrow> moves_stamp h p deps i \<Longrightarrow> stamp_read h deps a b v \<Longrightarrow> b \<le> i \<Longrightarrow>
      i < a' \<Longrightarrow> stamp_read h deps a' b' v' \<Longrightarrow> v \<noteq> v'"
    and total_still: "ok h \<Longrightarrow> total_read h a b v \<Longrightarrow> total_read h a' b' v' \<Longrightarrow> b \<le> a' \<Longrightarrow> v \<noteq> v' \<Longrightarrow>
      \<exists>p i. moves_total h p i \<and> a \<le> i \<and> i < b'"
    and order: "ok h \<Longrightarrow> moves_stamp h p deps j \<Longrightarrow> \<exists>c i. changed h p c \<and> moves_total h p i \<and> c < i \<and> i \<le> j"
begin

text \<open>A stamp read while the total stood still is past every change the build before it missed.\<close>

lemma stamp_after_still:
  assumes "ok h" and "total_read h t1 t2 v" "total_read h t5 t6 v" and "t2 \<le> a"
    and "moves_stamp h p deps j" and "\<not> (\<exists>c < a. changed h p c)"
  shows "t5 \<le> j"
proof -
  from order[OF assms(1,5)] obtain c i where p: "changed h p c" "moves_total h p i" "c < i" "i \<le> j" by blast
  from p(1) assms(6) have "a \<le> c" by (meson not_le)
  with p assms(4) have "t2 \<le> i" by simp
  with total_moved[OF assms(1) p(2) assms(2) _ _ assms(3)] have "t5 \<le> i" by (meson not_le)
  with p(4) show ?thesis by simp
qed

lemma stamp_before_call:
  assumes "ok h" and "y \<le> a" and "moves_stamp h p deps j" and "\<not> (\<exists>c < a. changed h p c)"
  shows "y \<le> j"
  using order[OF assms(1,3)] assms(2,4) by (meson le_less_trans le_trans less_imp_le not_le)

end

text \<open>The edge: a wake that follows the change stays until it is received.\<close>

locale wake_levels = levels +
  fixes concerns :: "'a \<Rightarrow> nat \<Rightarrow> string list \<Rightarrow> bool"
    and woken :: "'a \<Rightarrow> nat \<Rightarrow> nat \<Rightarrow> bool"
    and received :: "'a \<Rightarrow> nat \<Rightarrow> bool"
    and token :: "'a \<Rightarrow> nat \<Rightarrow> bool"
  assumes wake_order: "ok h \<Longrightarrow> concerns h p deps \<Longrightarrow> woken h p w \<Longrightarrow> \<exists>j < w. moves_stamp h p deps j"
    and wake_kept: "ok h \<Longrightarrow> concerns h p deps \<Longrightarrow> woken h p w \<Longrightarrow> w < t \<Longrightarrow>
      \<forall>j. w < j \<and> j < t \<longrightarrow> \<not> received h j \<Longrightarrow> token h t"
    and token_kept: "ok h \<Longrightarrow> token h s \<Longrightarrow> s \<le> t \<Longrightarrow> \<forall>j. s \<le> j \<and> j < t \<longrightarrow> \<not> received h j \<Longrightarrow> token h t"
begin

text \<open>A change a call missed although its wake is out left a token, when the subscriber has received
  nothing since before the call.\<close>

lemma missed_leaves_token:
  assumes "ok h" and "concerns h p deps" and "woken h p w" and "w < t'"
    and "\<not> (\<exists>c < a. changed h p c)" and "t \<le> a" and "\<forall>j. t \<le> j \<and> j < t' \<longrightarrow> \<not> received h j"
  shows "token h t'"
proof -
  from wake_order[OF assms(1-3)] obtain j where j: "j < w" "moves_stamp h p deps j" by blast
  from order[OF assms(1) j(2)] obtain c where "changed h p c" "c < j" by (meson less_le_trans)
  with assms(5,6) j have "t \<le> w" by (meson le_trans less_imp_le not_le)
  with wake_kept[OF assms(1-4)] assms(7) show ?thesis by (meson less_imp_le le_trans)
qed

end

section \<open>The contract holds of the bus\<close>

fun op_kind :: "op \<Rightarrow> kind" where
  "op_kind (OpPublish k) = k"
| "op_kind (OpPublishKey k key) = k"

lemma received_had_wake:
  assumes run: "interleaved ops b h pc" and "\<not> pending b s" and "i < length h" and "h ! i = Recv s"
  shows "\<exists>p j. j < i \<and> occurs h p (Wake (op_kind (ops p))) j \<and> wants b s (op_kind (ops p))"
proof -
  from pending_had_wake[OF interleaved_Recv[OF assms(1,3,4)] assms(2)] obtain p k j where
    j: "occurs (take i h) p (Wake k) j" "wants b s k" by blast
  then have "j < i" "occurs h p (Wake k) j" by (auto simp: occurs_def)
  moreover from interleaved_occurs[OF run this(2)] have "k = op_kind (ops p)"
    by (cases "ops p") (auto simp: less_Suc_eq numeral_eq_Suc)
  ultimately show ?thesis using j(2) by blast
qed

text \<open>One execution of the program around the hub: the publishes, the bus they run on, the events, and
  the hub's own subscription.\<close>

record history =
  hi_ops :: "nat \<Rightarrow> op"
  hi_bus :: bus
  hi_events :: "event list"
  hi_sub :: nat
  hi_levels :: repo_levels

text \<open>An execution: its events interleave, its levels are \<open>RepoLevels\<close> of kinds the hub subscribed to
  (the scoped kind among them), and it is too short for a 64-bit counter to come round.\<close>

definition history_ok :: "history \<Rightarrow> bool" where
  "history_ok h =
     ((\<exists>pc. interleaved (hi_ops h) (hi_bus h) (hi_events h) pc) \<and>
      (\<exists>scoped kinds. hi_levels h = RepoLevels scoped kinds \<and> scoped \<in> set kinds) \<and>
      (\<forall>k \<in> set (rl_all (hi_levels h)). wants (hi_bus h) (hi_sub h) k) \<and>
      length (total_loads (hi_levels h)) * length (hi_events h) < 2 ^ 64)"

definition history_roomy :: "history \<Rightarrow> string list \<Rightarrow> bool" where
  "history_roomy h deps = (length (stamp_loads (hi_levels h) deps) * length (hi_events h) < 2 ^ 64)"

definition loads_in :: "history \<Rightarrow> load list \<Rightarrow> nat \<Rightarrow> nat \<Rightarrow> counter \<Rightarrow> bool" where
  "loads_in h ls a b v =
     (b \<le> length (hi_events h) \<and> a \<le> b \<and>
      (\<exists>ts. length ts = length ls \<and> sorted ts \<and> (\<forall>t \<in> set ts. a \<le> t \<and> t \<le> b) \<and>
            v = reading (hi_bus h) (hi_events h) ls ts))"

definition bus_total_read :: "history \<Rightarrow> nat \<Rightarrow> nat \<Rightarrow> counter \<Rightarrow> bool" where
  "bus_total_read h = loads_in h (total_loads (hi_levels h))"

definition bus_stamp_read :: "history \<Rightarrow> string list \<Rightarrow> nat \<Rightarrow> nat \<Rightarrow> counter \<Rightarrow> bool" where
  "bus_stamp_read h deps = loads_in h (stamp_loads (hi_levels h) deps)"

definition moves_loads :: "history \<Rightarrow> load list \<Rightarrow> nat \<Rightarrow> nat \<Rightarrow> bool" where
  "moves_loads h ls p i = (\<exists>e. occurs (hi_events h) p e i \<and> (\<exists>l \<in> set ls. hits l (Ev p e)))"

definition bus_moves_total :: "history \<Rightarrow> nat \<Rightarrow> nat \<Rightarrow> bool" where
  "bus_moves_total h = moves_loads h (total_loads (hi_levels h))"

definition bus_moves_stamp :: "history \<Rightarrow> nat \<Rightarrow> string list \<Rightarrow> nat \<Rightarrow> bool" where
  "bus_moves_stamp h p deps = moves_loads h (stamp_loads (hi_levels h) deps) p"

definition bus_changed :: "history \<Rightarrow> nat \<Rightarrow> nat \<Rightarrow> bool" where
  "bus_changed h p i = occurs (hi_events h) p Change i"

text \<open>The changes a frame with these repositories depends on.\<close>

fun op_concerns :: "repo_levels \<Rightarrow> op \<Rightarrow> string list \<Rightarrow> bool" where
  "op_concerns l (OpPublish k) deps = (k \<in> set (rl_unscoped l) \<or> (k = rl_scoped l \<and> deps \<noteq> []))"
| "op_concerns l (OpPublishKey k key) deps = (k \<in> set (rl_unscoped l) \<or> (k = rl_scoped l \<and> key \<in> set deps))"

definition bus_concerns :: "history \<Rightarrow> nat \<Rightarrow> string list \<Rightarrow> bool" where
  "bus_concerns h p deps = op_concerns (hi_levels h) (hi_ops h p) deps"

definition bus_woken :: "history \<Rightarrow> nat \<Rightarrow> nat \<Rightarrow> bool" where
  "bus_woken h p i = occurs (hi_events h) p (Wake (op_kind (hi_ops h p))) i"

definition bus_received :: "history \<Rightarrow> nat \<Rightarrow> bool" where
  "bus_received h i = (i < length (hi_events h) \<and> hi_events h ! i = Recv (hi_sub h))"

definition bus_token :: "history \<Rightarrow> nat \<Rightarrow> bool" where
  "bus_token h t = pending (bus_at (hi_bus h) (hi_events h) t) (hi_sub h)"

lemma loads_moved:
  assumes "moves_loads h ls p i" and "loads_in h ls a b v" "b \<le> i" "i < a'" "loads_in h ls a' b' v'"
    and "length ls * length (hi_events h) < 2 ^ 64"
  shows "v \<noteq> v'"
proof -
  from assms(1) obtain e l where e: "occurs (hi_events h) p e i" "l \<in> set ls" "hits l (Ev p e)"
    by (auto simp: moves_loads_def)
  then have i: "i < length (hi_events h)" "hits l (hi_events h ! i)" by (auto simp: occurs_def)
  from assms(2) obtain ts where ts: "length ts = length ls" "\<forall>t \<in> set ts. t \<le> b" "v = reading (hi_bus h) (hi_events h) ls ts"
    by (auto simp: loads_in_def)
  from assms(5) obtain us where us: "length us = length ls" "\<forall>t \<in> set us. a' \<le> t" "v' = reading (hi_bus h) (hi_events h) ls us"
    by (auto simp: loads_in_def)
  from ts(2) assms(3) have "\<forall>t \<in> set ts. t \<le> i" by auto
  moreover from us(2) assms(4) have "\<forall>t \<in> set us. i < t" by auto
  ultimately show ?thesis
    unfolding ts(3) us(3) using ts(1) us(1) i e(2) assms(6) by (intro reading_moved)
qed

lemma hit_count_still:
  assumes "\<forall>i. s \<le> i \<and> i < t \<and> i < length h \<longrightarrow> \<not> hits l (h ! i)" and "s \<le> t"
  shows "hit_count l (take t h) = hit_count l (take s h)"
proof -
  have "take t h = take s h @ take (t - s) (drop s h)"
    using assms(2) by (metis le_add_diff_inverse take_add)
  moreover have "filter (hits l) (take (t - s) (drop s h)) = []"
  proof -
    have "\<not> hits l (h ! (s + i))" if "i < t - s" "s + i < length h" for i
      using assms(1)[rule_format, of "s + i"] that by simp
    then show ?thesis by (auto simp: filter_empty_conv in_set_conv_nth)
  qed
  ultimately show ?thesis by (simp add: hit_count_def)
qed

lemma hit_sum_still:
  assumes "\<forall>l \<in> set ls. \<forall>i. a \<le> i \<and> i < c \<and> i < length h \<longrightarrow> \<not> hits l (h ! i)"
    and "length ts = length ls" "length us = length ls"
    and "\<forall>t \<in> set ts. a \<le> t \<and> t \<le> c" "\<forall>t \<in> set us. a \<le> t \<and> t \<le> c"
  shows "hit_sum h ls ts = hit_sum h ls us"
  using assms
proof (induction ls arbitrary: ts us)
  case (Cons l ls)
  from Cons.prems(2,3) obtain t ts' u us' where tu: "ts = t # ts'" "us = u # us'" by (cases ts; cases us) auto
  have "hit_sum h ls ts' = hit_sum h ls us'"
  proof (rule Cons.IH)
    show "\<forall>l \<in> set ls. \<forall>i. a \<le> i \<and> i < c \<and> i < length h \<longrightarrow> \<not> hits l (h ! i)"
      using Cons.prems(1) by (meson list.set_intros(2))
  qed (use Cons.prems(2-5) tu in simp_all)
  moreover have one: "hit_count l (take x h) = hit_count l (take a h)" if "a \<le> x" "x \<le> c" for x
    using Cons.prems(1)[rule_format, of l] that by (intro hit_count_still) simp_all
  have "hit_count l (take t h) = hit_count l (take u h)"
    using one[of t] one[of u] Cons.prems(4,5) tu by simp
  ultimately show ?case using tu by (simp add: hit_sum_def)
qed (simp add: hit_sum_def)

lemma loads_still:
  assumes "loads_in h ls a b v" "loads_in h ls a' b' v'" "b \<le> a'" "v \<noteq> v'"
  shows "\<exists>p i. moves_loads h ls p i \<and> a \<le> i \<and> i < b'"
proof (rule ccontr)
  assume none: "\<not> ?thesis"
  from assms(1) obtain ts where ts: "length ts = length ls" "\<forall>t \<in> set ts. a \<le> t \<and> t \<le> b" "v = reading (hi_bus h) (hi_events h) ls ts"
    by (auto simp: loads_in_def)
  from assms(2) obtain us where us: "length us = length ls" "\<forall>t \<in> set us. a' \<le> t \<and> t \<le> b'" "v' = reading (hi_bus h) (hi_events h) ls us"
    by (auto simp: loads_in_def)
  from assms(1-3) have le: "a \<le> b" "b \<le> a'" "a' \<le> b'" by (auto simp: loads_in_def)
  have quiet: "\<not> hits l (hi_events h ! i)" if "l \<in> set ls" "a \<le> i" "i < b'" "i < length (hi_events h)" for l i
  proof
    assume hit: "hits l (hi_events h ! i)"
    then obtain p e where e: "hi_events h ! i = Ev p e" by (cases "hi_events h ! i"; cases l) auto
    with that hit have "moves_loads h ls p i" by (auto simp: moves_loads_def occurs_def)
    with none that show False by blast
  qed
  have "hit_sum (hi_events h) ls ts = hit_sum (hi_events h) ls us"
  proof (rule hit_sum_still[where a = a and c = b'])
    show "\<forall>t \<in> set ts. a \<le> t \<and> t \<le> b'" "\<forall>t \<in> set us. a \<le> t \<and> t \<le> b'"
      using ts(2) us(2) le by fastforce+
  qed (use quiet ts us in auto)
  with ts(1,3) us(1,3) assms(4) show False by (simp add: reading_hits)
qed

section \<open>The steps of a publish and the levels\<close>

text \<open>The announced change, the kind's bump and the wake are the first, second and last step; the step
  that moves a stamp lies between.\<close>

lemma program_nth:
  "program x ! 0 = Change" "program x ! Suc 0 = Bump (op_kind x)" "program x ! 3 = Wake (op_kind x)" "length (program x) = 4"
  by (cases x; simp add: numeral_3_eq_3)+

lemma history_kinds:
  assumes "history_ok h"
  shows "set (rl_unscoped (hi_levels h)) \<subseteq> set (rl_all (hi_levels h))" "rl_scoped (hi_levels h) \<in> set (rl_all (hi_levels h))"
    "rl_scoped (hi_levels h) \<notin> set (rl_unscoped (hi_levels h))"
  using assms by (auto simp: history_ok_def RepoLevels_def)

lemma stamp_order:
  assumes ok: "history_ok h" and mv: "bus_moves_stamp h p deps j"
  shows "\<exists>c i. bus_changed h p c \<and> bus_moves_total h p i \<and> c < i \<and> i \<le> j"
proof -
  let ?h = "hi_events h" and ?op = "hi_ops h p" and ?l = "hi_levels h"
  from ok obtain pc where run: "interleaved (hi_ops h) (hi_bus h) ?h pc" by (auto simp: history_ok_def)
  from mv obtain e l where e: "occurs ?h p e j" "l \<in> set (stamp_loads ?l deps)" "hits l (Ev p e)"
    by (auto simp: bus_moves_stamp_def moves_loads_def)
  from interleaved_occurs[OF run e(1)] obtain n where n: "n < 4" "e = program ?op ! n"
    by (auto simp: program_nth)
  have moves: "bus_moves_total h p i" if "occurs ?h p (Bump (op_kind ?op)) i" "op_kind ?op \<in> set (rl_all ?l)" for i
    using that by (force simp: bus_moves_total_def moves_loads_def total_loads_def)
  have kind: "op_kind ?op \<in> set (rl_all ?l) \<and> n \<in> {1, 2}"
    using e n history_kinds[OF ok]
    by (cases ?op) (auto simp: stamp_loads_def less_Suc_eq numeral_eq_Suc)
  have bump: "\<exists>i \<le> j. occurs ?h p (Bump (op_kind ?op)) i"
  proof (cases "n = 1")
    case True
    with e n show ?thesis by (auto simp: program_nth)
  next
    case False
    with kind have "n = 2" by simp
    with n e interleaved_order[OF run, of p n j 1] obtain i where
      "i < j" "occurs ?h p (Bump (op_kind ?op)) i" by (auto simp: program_nth)
    then show ?thesis by (meson less_imp_le)
  qed
  then obtain i where i: "i \<le> j" "occurs ?h p (Bump (op_kind ?op)) i" by blast
  with interleaved_order[OF run, of p 1 i 0] obtain c where "c < i" "occurs ?h p Change c"
    by (auto simp: program_nth)
  with i moves kind show ?thesis by (auto simp: bus_changed_def)
qed

lemma wake_after_stamp:
  assumes ok: "history_ok h" and "bus_concerns h p deps" and wk: "bus_woken h p w"
  shows "\<exists>j < w. bus_moves_stamp h p deps j"
proof -
  let ?h = "hi_events h" and ?op = "hi_ops h p" and ?l = "hi_levels h"
  from ok obtain pc where run: "interleaved (hi_ops h) (hi_bus h) ?h pc" by (auto simp: history_ok_def)
  have before: "\<exists>j < w. occurs ?h p (program ?op ! n) j" if "n < 3" for n
    using interleaved_order[OF run, of p 3 w n] wk that by (simp add: bus_woken_def program_nth)
  have "\<exists>n < 3. \<exists>l \<in> set (stamp_loads ?l deps). hits l (Ev p (program ?op ! n))"
  proof (cases "op_kind ?op \<in> set (rl_unscoped ?l)")
    case True
    then have "LVersion (op_kind ?op) \<in> set (stamp_loads ?l deps)" by (simp add: stamp_loads_def)
    then show ?thesis by (intro exI[of _ 1]) (auto simp: program_nth intro: rev_bexI)
  next
    case False
    show ?thesis
    proof (cases ?op)
      case (OpPublish k)
      with assms(2) False obtain d where "d \<in> set deps" "k = rl_scoped ?l"
        by (cases deps) (auto simp: bus_concerns_def)
      then have "LBroad k \<in> set (stamp_loads ?l deps)" by (auto simp: stamp_loads_def)
      with OpPublish show ?thesis by (intro exI[of _ 2]) (auto simp: numeral_2_eq_2 intro: rev_bexI)
    next
      case (OpPublishKey k key)
      with assms(2) False have "key \<in> set deps" "k = rl_scoped ?l" by (auto simp: bus_concerns_def)
      then have "LKeyed k key \<in> set (stamp_loads ?l deps)" by (auto simp: stamp_loads_def)
      with OpPublishKey show ?thesis by (intro exI[of _ 2]) (auto simp: numeral_2_eq_2 intro: rev_bexI)
    qed
  qed
  then obtain n l where n: "n < 3" "l \<in> set (stamp_loads ?l deps)" "hits l (Ev p (program ?op ! n))" by blast
  with before[OF n(1)] show ?thesis by (auto simp: bus_moves_stamp_def moves_loads_def)
qed

lemma op_concerns_kind: "history_ok h \<Longrightarrow> bus_concerns h p deps \<Longrightarrow> op_kind (hi_ops h p) \<in> set (rl_all (hi_levels h))"
  using history_kinds[of h] by (cases "hi_ops h p") (auto simp: bus_concerns_def)

lemma token_stays:
  assumes "s \<le> t" and "bus_token h s" and "\<forall>j. s \<le> j \<and> j < t \<longrightarrow> \<not> bus_received h j"
  shows "bus_token h t"
proof -
  have "take t (hi_events h) = take s (hi_events h) @ take (t - s) (drop s (hi_events h))"
    using assms(1) by (metis le_add_diff_inverse take_add)
  then have "bus_at (hi_bus h) (hi_events h) t =
      run_events (bus_at (hi_bus h) (hi_events h) s) (take (t - s) (drop s (hi_events h)))"
    by (simp add: bus_at_def run_events_def)
  moreover have "Recv (hi_sub h) \<notin> set (take (t - s) (drop s (hi_events h)))"
    using assms(3) by (auto simp: in_set_conv_nth bus_received_def)
  ultimately show ?thesis using assms(2) by (simp add: bus_token_def pending_run)
qed

interpretation bus_levels: levels history_ok history_roomy bus_total_read bus_stamp_read
  bus_moves_total bus_moves_stamp bus_changed
proof
  show "v \<noteq> v'" if "history_ok h" "bus_moves_total h p i" "bus_total_read h a b v" "b \<le> i" "i < a'"
    "bus_total_read h a' b' v'" for h p i a b v a' b' v'
    using that loads_moved[of h "total_loads (hi_levels h)" p i a b v a' b' v']
    by (simp add: bus_moves_total_def bus_total_read_def history_ok_def)
  show "v \<noteq> v'" if "history_roomy h deps" "bus_moves_stamp h p deps i" "bus_stamp_read h deps a b v" "b \<le> i"
    "i < a'" "bus_stamp_read h deps a' b' v'" for h deps p i a b v a' b' v'
    using that loads_moved[of h "stamp_loads (hi_levels h) deps" p i a b v a' b' v']
    by (simp add: bus_moves_stamp_def bus_stamp_read_def history_roomy_def)
  show "\<exists>p i. bus_moves_total h p i \<and> a \<le> i \<and> i < b'"
    if "bus_total_read h a b v" "bus_total_read h a' b' v'" "b \<le> a'" "v \<noteq> v'" for h a b v a' b' v'
    using loads_still[OF that(1,2)[unfolded bus_total_read_def] that(3,4)] by (simp add: bus_moves_total_def)
qed (rule stamp_order)

interpretation bus_wakes: wake_levels history_ok history_roomy bus_total_read bus_stamp_read
  bus_moves_total bus_moves_stamp bus_changed bus_concerns bus_woken bus_received bus_token
proof
  show "\<exists>j < w. bus_moves_stamp h p deps j" if "history_ok h" "bus_concerns h p deps" "bus_woken h p w" for h p deps w
    using that by (rule wake_after_stamp)
  show "bus_token h t" if "history_ok h" "bus_concerns h p deps" "bus_woken h p w" "w < t"
    "\<forall>j. w < j \<and> j < t \<longrightarrow> \<not> bus_received h j" for h p deps w t
  proof -
    let ?k = "op_kind (hi_ops h p)"
    have at: "w < length (hi_events h)" "hi_events h ! w = Ev p (Wake ?k)"
      using that(3) by (auto simp: bus_woken_def occurs_def)
    have "wants (hi_bus h) (hi_sub h) ?k"
      using op_concerns_kind[OF that(1,2)] that(1) by (auto simp: history_ok_def)
    then have "bus_token h (Suc w)"
      using at by (simp add: bus_token_def bus_at_def take_Suc_conv_app_nth run_events_def[of _ "_ @ _"])
        (simp add: run_events_def[symmetric])
    with that(4,5) show ?thesis by (intro token_stays[of "Suc w" t]) auto
  qed
  show "bus_token h t" if "bus_token h s" "s \<le> t" "\<forall>j. s \<le> j \<and> j < t \<longrightarrow> \<not> bus_received h j" for h s t
    using token_stays that by blast
qed

end
