(* ===== verification/Stream_Hub.thy ===== *)
theory Stream_Hub
  imports Stream_Levels
begin

text \<open>
  \<open>internal/stream/hub.go\<close>: the reconciler that keeps every connection's inventory frame at the
  change level. \<open>build\<close> and \<open>reconcile\<close> are the code's control flow over what their readings and
  calls returned (\<open>answers\<close>); \<open>hub_step\<close> is the \<open>Run\<close> loop beside the connections' handlers, over a
  history of the bus: each reading is taken somewhere in its interval, so every interleaving of
  the eight build workers with the publishers is one of its steps. A pass reads the set of
  connections once, so a connection added or removed during a pass is a step before or after it.
\<close>

section \<open>State\<close>

record identity =
  id_token :: string
  id_username :: string
  id_groups :: "string list"

record frame =
  fr_data :: string
  fr_deps :: "string list"
  fr_stamp :: counter

text \<open>A connection: its one-slot mailbox, the last frame given to it, and the frames its writer has
  put on the socket.\<close>

record conn =
  cn_id :: identity
  cn_key :: string
  cn_out :: "string option"
  cn_last :: string
  cn_written :: "string list"

text \<open>\<open>hb_failed\<close> are the identities whose build the last pass logged as failed.\<close>

record hub =
  hb_conns :: "(nat \<times> conn) list"
  hb_idents :: "string \<Rightarrow> frame option"
  hb_kick :: bool
  hb_failed :: "string list"

definition NewHub :: hub where
  "NewHub = \<lparr>hb_conns = [], hb_idents = (\<lambda>_. None), hb_kick = False, hb_failed = []\<rparr>"

section \<open>Delivery\<close>

definition deliver :: "string \<Rightarrow> conn \<Rightarrow> conn" where
  "deliver data c = c\<lparr>cn_out := Some data\<rparr>"

definition sendLatest :: "string \<Rightarrow> conn \<Rightarrow> conn" where
  "sendLatest data c = (if cn_last c = data then c else deliver data (c\<lparr>cn_last := data\<rparr>))"

text \<open>One turn of \<open>writePump\<close> that takes the mailbox.\<close>

definition write_frame :: "conn \<Rightarrow> conn" where
  "write_frame c = (case cn_out c of None \<Rightarrow> c
     | Some data \<Rightarrow> c\<lparr>cn_out := None, cn_written := cn_written c @ [data]\<rparr>)"

definition add_conn :: "nat \<Rightarrow> conn \<Rightarrow> hub \<Rightarrow> hub" where
  "add_conn i c h = h\<lparr>hb_conns := (i, c) # hb_conns h, hb_kick := True\<rparr>"

definition remove_conn :: "nat \<Rightarrow> hub \<Rightarrow> hub" where
  "remove_conn i h = h\<lparr>hb_conns := filter (\<lambda>(j, c). j \<noteq> i) (hb_conns h)\<rparr>"

section \<open>One build\<close>

text \<open>What a build was answered: the total and the stamp of the previous repositories before the call,
  the inventory (none on an error), the stamp of the new repositories and the total after it.\<close>

record 'x answers =
  an_total :: counter
  an_stamp :: counter
  an_inventory :: "'x inventory_scheme option"
  an_after :: counter
  an_total_after :: counter

definition prev_deps :: "frame option \<Rightarrow> string list" where
  "prev_deps prev = (case prev of None \<Rightarrow> [] | Some f \<Rightarrow> fr_deps f)"

text \<open>\<open>build\<close> returns the frame to keep, and the data it delivered on the way.\<close>

definition build :: "('x inventory_scheme \<Rightarrow> string option) \<Rightarrow> frame option \<Rightarrow> 'x answers \<Rightarrow> frame option \<times> string option" where
  "build marshal prev an =
     (case an_inventory an of
        None \<Rightarrow> (None, None)
      | Some iv \<Rightarrow>
          (case marshal iv of
             None \<Rightarrow> (None, None)
           | Some data \<Rightarrow>
               (let deps = Deps iv in
                if deps = prev_deps prev then
                  (Some \<lparr>fr_data = data, fr_deps = deps, fr_stamp = an_stamp an\<rparr>, Some data)
                else if an_total_after an \<noteq> an_total an then (None, Some data)
                else (Some \<lparr>fr_data = data, fr_deps = deps, fr_stamp = an_after an\<rparr>, Some data))))"

section \<open>One pass\<close>

text \<open>The answers of a pass: the stamp each kept frame was checked against, and each build's answers.\<close>

record 'x pass_answers =
  pa_check :: "string \<Rightarrow> counter"
  pa_build :: "string \<Rightarrow> 'x answers"

definition is_due :: "hub \<Rightarrow> 'x pass_answers \<Rightarrow> string \<Rightarrow> bool" where
  "is_due h pa key = (case hb_idents h key of None \<Rightarrow> True | Some f \<Rightarrow> pa_check pa key \<noteq> fr_stamp f)"

definition pass_key :: "('x inventory_scheme \<Rightarrow> string option) \<Rightarrow> 'x pass_answers \<Rightarrow> hub \<Rightarrow> string \<Rightarrow> frame option \<times> string option" where
  "pass_key marshal pa h key =
     (if is_due h pa key then build marshal (hb_idents h key) (pa_build pa key)
      else (hb_idents h key, map_option fr_data (hb_idents h key)))"

definition connected_keys :: "hub \<Rightarrow> string list" where
  "connected_keys h = remdups (map (\<lambda>(i, c). cn_key c) (hb_conns h))"

definition reconcile :: "('x inventory_scheme \<Rightarrow> string option) \<Rightarrow> 'x pass_answers \<Rightarrow> hub \<Rightarrow> hub" where
  "reconcile marshal pa h =
     h\<lparr>hb_conns := map (\<lambda>(i, c). (i, case snd (pass_key marshal pa h (cn_key c)) of
           None \<Rightarrow> c | Some data \<Rightarrow> sendLatest data c)) (hb_conns h),
       hb_idents := (\<lambda>key. if key \<in> set (connected_keys h) then fst (pass_key marshal pa h key) else None),
       hb_failed := filter (\<lambda>key. snd (pass_key marshal pa h key) = None) (connected_keys h)\<rparr>"

section \<open>The run loop\<close>

datatype phase = Waiting | Looping

text \<open>\<open>call id a b r\<close>: a call of the inventory under \<open>id\<close> that runs from \<open>a\<close> to \<open>b\<close> can return \<open>r\<close>.\<close>

type_synonym 'x caller = "identity \<Rightarrow> nat \<Rightarrow> nat \<Rightarrow> 'x inventory_scheme option \<Rightarrow> bool"

definition build_reads :: "history \<Rightarrow> 'x caller \<Rightarrow> identity set \<Rightarrow> string list \<Rightarrow> nat \<Rightarrow> nat \<Rightarrow> 'x answers \<Rightarrow> bool" where
  "build_reads h call ids prev a b an =
     (\<exists>t0 t1 t2 t3 t4 t5. \<exists>who \<in> ids.
        a \<le> t0 \<and> bus_total_read h t0 t1 (an_total an) \<and> t1 \<le> t2 \<and> bus_stamp_read h prev t2 t3 (an_stamp an) \<and>
        t3 \<le> t4 \<and> call who t4 t5 (an_inventory an) \<and> t4 \<le> t5 \<and> t5 \<le> b \<and>
        (\<forall>iv. an_inventory an = Some iv \<and> Deps iv \<noteq> prev \<longrightarrow>
           (\<exists>s0 s1 s2 s3. t5 \<le> s0 \<and> bus_stamp_read h (Deps iv) s0 s1 (an_after an) \<and> s1 \<le> s2 \<and>
              bus_total_read h s2 s3 (an_total_after an) \<and> s3 \<le> b)))"

definition pass_reads :: "history \<Rightarrow> 'x caller \<Rightarrow> hub \<Rightarrow> nat \<Rightarrow> nat \<Rightarrow> 'x pass_answers \<Rightarrow> bool" where
  "pass_reads h call hb a b pa =
     (\<forall>key \<in> set (connected_keys hb).
        (\<forall>f. hb_idents hb key = Some f \<longrightarrow>
           (\<exists>x y. a \<le> x \<and> y \<le> b \<and> bus_stamp_read h (fr_deps f) x y (pa_check pa key))) \<and>
        (is_due hb pa key \<longrightarrow>
           build_reads h call {cn_id c |i c. (i, c) \<in> set (hb_conns hb) \<and> cn_key c = key}
             (prev_deps (hb_idents hb key)) a b (pa_build pa key)))"

text \<open>The hub is the only receiver of its subscription: outside the wake step nothing is received.\<close>

definition quiet :: "history \<Rightarrow> nat \<Rightarrow> nat \<Rightarrow> bool" where
  "quiet h t t' = (t \<le> t' \<and> t' \<le> length (hi_events h) \<and> (\<forall>j. t \<le> j \<and> j < t' \<longrightarrow> \<not> bus_received h j))"

text \<open>One turn of the inner loop of \<open>Run\<close>, from \<open>t\<close> to \<open>t'\<close>: the total is read by \<open>t1\<close>, the pass runs, the total is read again from \<open>t3\<close> on;
  the loop ends when the two readings agree.\<close>

definition hub_pass :: "history \<Rightarrow> ('x inventory_scheme \<Rightarrow> string option) \<Rightarrow> 'x caller \<Rightarrow> nat \<Rightarrow> hub \<Rightarrow> nat \<Rightarrow> nat \<Rightarrow> nat \<Rightarrow> phase \<Rightarrow> hub \<Rightarrow> bool" where
  "hub_pass h marshal call t hb t1 t3 t' ph hb' =
     (\<exists>t0 t2 target settled pa. quiet h t t' \<and> t \<le> t0 \<and> bus_total_read h t0 t1 target \<and> pass_reads h call hb t1 t2 pa \<and>
        t1 \<le> t2 \<and> t2 \<le> t3 \<and> bus_total_read h t3 t' settled \<and>
        ph = (if settled = target then Waiting else Looping) \<and> hb' = reconcile marshal pa hb)"

type_synonym hub_state = "nat \<times> phase \<times> hub"

inductive hub_step :: "history \<Rightarrow> ('x inventory_scheme \<Rightarrow> string option) \<Rightarrow> 'x caller \<Rightarrow> (string \<Rightarrow> string) \<Rightarrow>
    hub_state \<Rightarrow> hub_state \<Rightarrow> bool" for h marshal call tkey where
  step_wake: "quiet h t r \<Longrightarrow> bus_received h r \<Longrightarrow>
    hub_step h marshal call tkey (t, Waiting, hb) (Suc r, Looping, hb)"
| step_kick: "quiet h t t' \<Longrightarrow> hb_kick hb \<Longrightarrow>
    hub_step h marshal call tkey (t, Waiting, hb) (t', Looping, hb\<lparr>hb_kick := False\<rparr>)"
| step_passed: "hub_pass h marshal call t hb t1 t3 t' ph hb' \<Longrightarrow> hub_step h marshal call tkey (t, Looping, hb) (t', ph, hb')"
| step_add: "quiet h t t' \<Longrightarrow> cn_key c = tkey (id_token (cn_id c)) \<Longrightarrow> cn_out c = None \<Longrightarrow> cn_last c = '''' \<Longrightarrow>
    cn_written c = [] \<Longrightarrow> hub_step h marshal call tkey (t, ph, hb) (t', ph, add_conn i c hb)"
| step_remove: "quiet h t t' \<Longrightarrow> hub_step h marshal call tkey (t, ph, hb) (t', ph, remove_conn i hb)"
| step_write: "quiet h t t' \<Longrightarrow>
    hub_step h marshal call tkey (t, ph, hb)
      (t', ph, hb\<lparr>hb_conns := map (\<lambda>(j, c). (j, if j = i then write_frame c else c)) (hb_conns hb)\<rparr>)"

inductive hub_reach :: "history \<Rightarrow> ('x inventory_scheme \<Rightarrow> string option) \<Rightarrow> 'x caller \<Rightarrow> (string \<Rightarrow> string) \<Rightarrow>
    hub_state \<Rightarrow> bool" for h marshal call tkey where
  reach_new: "t \<le> length (hi_events h) \<Longrightarrow> hub_reach h marshal call tkey (t, Waiting, NewHub)"
| reach_step: "hub_reach h marshal call tkey s \<Longrightarrow> hub_step h marshal call tkey s s' \<Longrightarrow>
    hub_reach h marshal call tkey s'"

lemma step_pass:
  assumes "quiet h t t'" "t \<le> t0" "bus_total_read h t0 t1 target" "pass_reads h call hb t1 t2 pa" "t1 \<le> t2" "t2 \<le> t3" "bus_total_read h t3 t' settled"
  shows "hub_step h marshal call tkey (t, Looping, hb) (t', if settled = target then Waiting else Looping, reconcile marshal pa hb)"
  by (rule step_passed[where ?t1.0 = t1 and ?t3.0 = t3], unfold hub_pass_def)
     (intro exI[of _ t0] exI[of _ t2] exI[of _ target] exI[of _ settled] exI[of _ pa] conjI refl assms)

section \<open>What a kept frame is\<close>

text \<open>The frame comes from a call that started at \<open>a\<close>, and its stamp was read, by \<open>t\<close>, before every step
  by which a change that call missed moves the stamp.\<close>

definition frame_at :: "history \<Rightarrow> ('x inventory_scheme \<Rightarrow> string option) \<Rightarrow> 'x caller \<Rightarrow> (string \<Rightarrow> string) \<Rightarrow>
    string \<Rightarrow> frame \<Rightarrow> nat \<Rightarrow> nat \<Rightarrow> bool" where
  "frame_at h marshal call tkey key f t a =
     ((\<exists>b who iv. call who a b (Some iv) \<and> tkey (id_token who) = key \<and> marshal iv = Some (fr_data f) \<and>
         fr_deps f = Deps iv) \<and>
      (\<exists>x y. y \<le> t \<and> bus_stamp_read h (fr_deps f) x y (fr_stamp f) \<and>
         (\<forall>p j. bus_moves_stamp h p (fr_deps f) j \<and> \<not> (\<exists>c < a. bus_changed h p c) \<longrightarrow> y \<le> j)))"

text \<open>A frame whose call, started at \<open>a\<close>, has seen every change it depends on whose publish is out by \<open>t\<close>.\<close>

definition current :: "history \<Rightarrow> frame \<Rightarrow> nat \<Rightarrow> nat \<Rightarrow> bool" where
  "current h f t a =
     (\<forall>p. bus_concerns h p (fr_deps f) \<and> (\<exists>w < t. bus_woken h p w) \<longrightarrow> (\<exists>c < a. bus_changed h p c))"

lemma frame_at_mono: "frame_at h marshal call tkey key f t a \<Longrightarrow> t \<le> t' \<Longrightarrow> frame_at h marshal call tkey key f t' a"
  unfolding frame_at_def by (elim conjE exE, intro conjI) (blast, blast intro: le_trans)

lemma loads_interval: "bus_total_read h a b v \<Longrightarrow> a \<le> b" "bus_stamp_read h deps a b v \<Longrightarrow> a \<le> b"
  by (simp_all add: bus_total_read_def bus_stamp_read_def loads_in_def)

lemma build_frame:
  assumes ok: "history_ok h" and reads: "build_reads h call ids (prev_deps prev) a b an"
    and ids: "\<forall>who \<in> ids. tkey (id_token who) = key"
    and res: "build marshal prev an = (Some f, d)"
  shows "d = Some (fr_data f) \<and> (\<exists>s \<ge> a. frame_at h marshal call tkey key f b s)"
proof -
  from reads obtain t0 t1 t2 t3 t4 t5 who where r:
    "who \<in> ids" "a \<le> t0" "bus_total_read h t0 t1 (an_total an)" "t1 \<le> t2" "bus_stamp_read h (prev_deps prev) t2 t3 (an_stamp an)"
    "t3 \<le> t4" "call who t4 t5 (an_inventory an)" "t4 \<le> t5" "t5 \<le> b"
    and after: "\<And>iv. an_inventory an = Some iv \<Longrightarrow> Deps iv \<noteq> prev_deps prev \<Longrightarrow>
      \<exists>s0 s1 s2 s3. t5 \<le> s0 \<and> bus_stamp_read h (Deps iv) s0 s1 (an_after an) \<and> s1 \<le> s2 \<and>
        bus_total_read h s2 s3 (an_total_after an) \<and> s3 \<le> b"
    unfolding build_reads_def by blast
  from res obtain iv where iv: "an_inventory an = Some iv" "marshal iv = Some (fr_data f)" "fr_deps f = Deps iv" "d = Some (fr_data f)"
    by (auto simp: build_def Let_def split: option.splits if_splits)
  note le = loads_interval(1)[OF r(3)] loads_interval(2)[OF r(5)]
  have a: "a \<le> t4" using r le by simp
  have src: "\<exists>b who iv. call who t4 b (Some iv) \<and> tkey (id_token who) = key \<and> marshal iv = Some (fr_data f) \<and> fr_deps f = Deps iv"
    using r(1,7) iv ids by auto
  have "\<exists>x y. y \<le> b \<and> bus_stamp_read h (fr_deps f) x y (fr_stamp f) \<and>
      (\<forall>p j. bus_moves_stamp h p (fr_deps f) j \<and> \<not> (\<exists>c < t4. bus_changed h p c) \<longrightarrow> y \<le> j)"
  proof (cases "Deps iv = prev_deps prev")
    case True
    with res iv have "f = \<lparr>fr_data = fr_data f, fr_deps = Deps iv, fr_stamp = an_stamp an\<rparr>"
      by (simp add: build_def)
    then have "fr_stamp f = an_stamp an" by (metis frame.select_convs(3))
    moreover have "t3 \<le> b" using r by simp
    ultimately show ?thesis
      using True r(5,6) iv bus_levels.stamp_before_call[OF ok r(6)] by metis
  next
    case False
    from after[OF iv(1) False] obtain s0 s1 s2 s3 where s: "t5 \<le> s0" "bus_stamp_read h (Deps iv) s0 s1 (an_after an)"
      "s1 \<le> s2" "bus_total_read h s2 s3 (an_total_after an)" "s3 \<le> b" by blast
    from res iv False have "f = \<lparr>fr_data = fr_data f, fr_deps = Deps iv, fr_stamp = an_after an\<rparr>"
      and still: "an_total_after an = an_total an"
      by (simp_all add: build_def Let_def split: if_splits)
    then have "fr_stamp f = an_after an" by (metis frame.select_convs(3))
    note st = this still
    have "t1 \<le> t4" using r le by simp
    then have past: "s2 \<le> j" if "bus_moves_stamp h p (fr_deps f) j" "\<not> (\<exists>c < t4. bus_changed h p c)" for p j
      using bus_levels.stamp_after_still[OF ok r(3) s(4)[unfolded st(2)] _ that] by blast
    have "s1 \<le> b" using s loads_interval(1)[OF s(4)] by simp
    with s st iv past show ?thesis by (metis le_trans)
  qed
  with src have "frame_at h marshal call tkey key f b t4" by (simp add: frame_at_def)
  with iv(4) a show ?thesis by blast
qed

text \<open>A build that delivered but kept nothing saw the total move.\<close>

lemma build_unkept:
  assumes ok: "history_ok h" and reads: "build_reads h call ids (prev_deps prev) a b an"
    and res: "build marshal prev an = (None, Some d)"
  shows "\<exists>p i. bus_moves_total h p i \<and> a \<le> i \<and> i < b"
proof -
  from reads obtain t0 t1 t2 t3 t4 t5 where r:
    "a \<le> t0" "bus_total_read h t0 t1 (an_total an)" "t1 \<le> t2" "bus_stamp_read h (prev_deps prev) t2 t3 (an_stamp an)"
    "t3 \<le> t4" "t4 \<le> t5"
    and after: "\<And>iv. an_inventory an = Some iv \<Longrightarrow> Deps iv \<noteq> prev_deps prev \<Longrightarrow>
      \<exists>s0 s1 s2 s3. t5 \<le> s0 \<and> bus_stamp_read h (Deps iv) s0 s1 (an_after an) \<and> s1 \<le> s2 \<and>
        bus_total_read h s2 s3 (an_total_after an) \<and> s3 \<le> b"
    unfolding build_reads_def by blast
  from res obtain iv where iv: "an_inventory an = Some iv" "Deps iv \<noteq> prev_deps prev" "an_total_after an \<noteq> an_total an"
    by (auto simp: build_def Let_def split: option.splits if_splits)
  from after[OF iv(1,2)] obtain s0 s1 s2 s3 where s: "t5 \<le> s0" "bus_stamp_read h (Deps iv) s0 s1 (an_after an)"
    "s1 \<le> s2" "bus_total_read h s2 s3 (an_total_after an)" "s3 \<le> b" by blast
  have "t1 \<le> s2"
    using r s loads_interval(2)[OF r(4)] loads_interval(2)[OF s(2)] by simp
  from bus_levels.total_still[OF ok r(2) s(4) this] iv(3) r(1) s(5) show ?thesis
    by (metis le_trans less_le_trans)
qed

section \<open>What every state of the loop keeps\<close>

definition conns_keyed :: "(string \<Rightarrow> string) \<Rightarrow> hub \<Rightarrow> bool" where
  "conns_keyed tkey hb = (\<forall>(i, c) \<in> set (hb_conns hb). cn_key c = tkey (id_token (cn_id c)))"

definition frames_ok :: "history \<Rightarrow> ('x inventory_scheme \<Rightarrow> string option) \<Rightarrow> 'x caller \<Rightarrow> (string \<Rightarrow> string) \<Rightarrow>
    nat \<Rightarrow> hub \<Rightarrow> bool" where
  "frames_ok h marshal call tkey t hb =
     (\<forall>key f. hb_idents hb key = Some f \<longrightarrow> (\<exists>a. frame_at h marshal call tkey key f t a))"

text \<open>What a settled hub shows on a connection: a frame that is current, unless its identity's build failed.\<close>

definition shows_current :: "history \<Rightarrow> ('x inventory_scheme \<Rightarrow> string option) \<Rightarrow> 'x caller \<Rightarrow> (string \<Rightarrow> string) \<Rightarrow>
    nat \<Rightarrow> hub \<Rightarrow> conn \<Rightarrow> bool" where
  "shows_current h marshal call tkey t hb c =
     (cn_key c \<in> set (hb_failed hb) \<or>
      (\<exists>f a. hb_idents hb (cn_key c) = Some f \<and> cn_last c = fr_data f \<and>
         frame_at h marshal call tkey (cn_key c) f t a \<and> (history_roomy h (fr_deps f) \<longrightarrow> current h f t a)))"

definition settled_ok :: "history \<Rightarrow> ('x inventory_scheme \<Rightarrow> string option) \<Rightarrow> 'x caller \<Rightarrow> (string \<Rightarrow> string) \<Rightarrow>
    nat \<Rightarrow> hub \<Rightarrow> bool" where
  "settled_ok h marshal call tkey t hb =
     (bus_token h t \<or> hb_kick hb \<or> (\<forall>(i, c) \<in> set (hb_conns hb). shows_current h marshal call tkey t hb c))"

fun hub_inv :: "history \<Rightarrow> ('x inventory_scheme \<Rightarrow> string option) \<Rightarrow> 'x caller \<Rightarrow> (string \<Rightarrow> string) \<Rightarrow> hub_state \<Rightarrow> bool" where
  "hub_inv h marshal call tkey (t, ph, hb) =
     (conns_keyed tkey hb \<and> frames_ok h marshal call tkey t hb \<and>
      (ph = Waiting \<longrightarrow> settled_ok h marshal call tkey t hb))"

lemma sendLatest_last [simp]: "cn_last (sendLatest d c) = d" "cn_key (sendLatest d c) = cn_key c" "cn_id (sendLatest d c) = cn_id c"
  by (simp_all add: sendLatest_def deliver_def)

lemma connected_keys_set: "key \<in> set (connected_keys hb) \<longleftrightarrow> (\<exists>i c. (i, c) \<in> set (hb_conns hb) \<and> cn_key c = key)"
  by (force simp: connected_keys_def)

lemma reconcile_keyed: "conns_keyed tkey hb \<Longrightarrow> conns_keyed tkey (reconcile marshal pa hb)"
  by (auto simp: conns_keyed_def reconcile_def split: option.splits)

lemma pass_frame:
  assumes ok: "history_ok h" and keyed: "conns_keyed tkey hb" and reads: "pass_reads h call hb t1 t2 pa"
    and key: "key \<in> set (connected_keys hb)" and due: "is_due hb pa key"
    and res: "pass_key marshal pa hb key = (Some f, d)"
  shows "d = Some (fr_data f) \<and> (\<exists>s \<ge> t1. frame_at h marshal call tkey key f t2 s)"
proof -
  let ?ids = "{cn_id c |i c. (i, c) \<in> set (hb_conns hb) \<and> cn_key c = key}"
  from reads key due have "build_reads h call ?ids (prev_deps (hb_idents hb key)) t1 t2 (pa_build pa key)"
    by (simp add: pass_reads_def)
  moreover have "\<forall>who \<in> ?ids. tkey (id_token who) = key"
    using keyed by (force simp: conns_keyed_def)
  moreover have "build marshal (hb_idents hb key) (pa_build pa key) = (Some f, d)"
    using res due by (simp add: pass_key_def)
  ultimately show ?thesis by (rule build_frame[OF ok])
qed

lemma pass_frames_ok:
  assumes "history_ok h" and "conns_keyed tkey hb" and "frames_ok h marshal call tkey t hb"
    and "pass_reads h call hb t1 t2 pa" and "t \<le> t'" "t2 \<le> t'"
  shows "frames_ok h marshal call tkey t' (reconcile marshal pa hb)"
  unfolding frames_ok_def
proof (intro allI impI)
  fix key f assume f: "hb_idents (reconcile marshal pa hb) key = Some f"
  then have key: "key \<in> set (connected_keys hb)" and res: "fst (pass_key marshal pa hb key) = Some f"
    by (auto simp: reconcile_def split: if_splits)
  show "\<exists>a. frame_at h marshal call tkey key f t' a"
  proof (cases "is_due hb pa key")
    case True
    from res obtain d where "pass_key marshal pa hb key = (Some f, d)" by (metis prod.collapse)
    from pass_frame[OF assms(1,2,4) key True this] assms(6) show ?thesis by (blast intro: frame_at_mono)
  next
    case False
    with res have "hb_idents hb key = Some f" by (simp add: pass_key_def)
    with assms(3) obtain a where "frame_at h marshal call tkey key f t a" by (auto simp: frames_ok_def)
    from frame_at_mono[OF this assms(5)] show ?thesis by blast
  qed
qed

text \<open>A kept frame that passed its check: a change it misses is woken after the check.\<close>

lemma checked_wake_later:
  assumes ok: "history_ok h" and roomy: "history_roomy h (fr_deps f)"
    and frame: "frame_at h marshal call tkey key f t a"
    and check: "bus_stamp_read h (fr_deps f) x y (fr_stamp f)"
    and p: "bus_concerns h p (fr_deps f)" "bus_woken h p w" "\<not> (\<exists>c < a. bus_changed h p c)"
  shows "x < w"
proof -
  from bus_wakes.wake_order[OF ok p(1,2)] obtain j where j: "j < w" "bus_moves_stamp h p (fr_deps f) j" by blast
  from frame obtain x' y' where st: "bus_stamp_read h (fr_deps f) x' y' (fr_stamp f)"
    and past: "\<And>p j. bus_moves_stamp h p (fr_deps f) j \<Longrightarrow> \<not> (\<exists>c < a. bus_changed h p c) \<Longrightarrow> y' \<le> j"
    unfolding frame_at_def by blast
  from past[OF j(2) p(3)] have "y' \<le> j" .
  with bus_levels.stamp_moved[OF ok roomy j(2) st _ _ check] have "x \<le> j" by (meson not_le)
  with j(1) show ?thesis by simp
qed

lemma quiet_after: "quiet h t t' \<Longrightarrow> t \<le> w \<Longrightarrow> \<forall>j. w < j \<and> j < t' \<longrightarrow> \<not> bus_received h j"
  by (auto simp: quiet_def)

lemma pass_settled:
  assumes ok: "history_ok h" and keyed: "conns_keyed tkey hb" and frames: "frames_ok h marshal call tkey t hb"
    and q: "quiet h t t'" and ts: "t \<le> t0" "t1 \<le> t2" "t2 \<le> t3"
    and target: "bus_total_read h t0 t1 v" "bus_total_read h t3 t' v"
    and reads: "pass_reads h call hb t1 t2 pa"
  shows "settled_ok h marshal call tkey t' (reconcile marshal pa hb)"
proof (cases "bus_token h t'")
  case True
  then show ?thesis by (simp add: settled_ok_def)
next
  case False
  let ?hb = "reconcile marshal pa hb"
  have le: "t \<le> t1" "t2 \<le> t'" "t \<le> t'" using ts loads_interval(1)[OF target(1)] loads_interval(1)[OF target(2)] by simp_all
  have "shows_current h marshal call tkey t' ?hb c'" if c': "(i, c') \<in> set (hb_conns ?hb)" for i c'
  proof -
    from c' obtain c where c: "(i, c) \<in> set (hb_conns hb)"
      "c' = (case snd (pass_key marshal pa hb (cn_key c)) of None \<Rightarrow> c | Some data \<Rightarrow> sendLatest data c)"
      by (auto simp: reconcile_def)
    define key where "key = cn_key c"
    have key: "key \<in> set (connected_keys hb)" "cn_key c' = key"
      using c by (auto simp: key_def connected_keys_set split: option.splits)
    obtain fo d where res: "pass_key marshal pa hb key = (fo, d)" by fastforce
    show ?thesis
    proof (cases d)
      case None
      with key res show ?thesis by (simp add: shows_current_def reconcile_def)
    next
      case (Some data)
      then have last: "cn_last c' = data" using c res by (simp add: key_def)
      have kept: "shows_current h marshal call tkey t' ?hb c'"
        if "fo = Some f" "data = fr_data f" "frame_at h marshal call tkey key f t' a"
          "history_roomy h (fr_deps f) \<Longrightarrow> current h f t' a" for f a
      proof -
        have "hb_idents ?hb key = Some f" using key(1) res that(1) by (simp add: reconcile_def)
        with that key(2) last show ?thesis unfolding shows_current_def by blast
      qed
      show ?thesis
      proof (cases "is_due hb pa key")
        case False
        with res Some obtain f where f: "hb_idents hb key = Some f" "fo = Some f" "data = fr_data f" "pa_check pa key = fr_stamp f"
          by (auto simp: pass_key_def is_due_def split: option.splits)
        from frames f(1) obtain a where a: "frame_at h marshal call tkey key f t a" by (auto simp: frames_ok_def)
        from reads key(1) f obtain x y where check: "t1 \<le> x" "bus_stamp_read h (fr_deps f) x y (fr_stamp f)"
          by (fastforce simp: pass_reads_def)
        have "current h f t' a" if roomy: "history_roomy h (fr_deps f)"
          unfolding current_def
        proof (intro allI impI, rule ccontr)
          fix p assume p: "bus_concerns h p (fr_deps f) \<and> (\<exists>w < t'. bus_woken h p w)" "\<not> (\<exists>c < a. bus_changed h p c)"
          then obtain w where w: "bus_concerns h p (fr_deps f)" "bus_woken h p w" "w < t'" by blast
          from checked_wake_later[OF ok roomy a check(2) w(1,2) p(2)] check(1) le have "t \<le> w" by simp
          with bus_wakes.wake_kept[OF ok w quiet_after[OF q]] \<open>\<not> bus_token h t'\<close> show False by blast
        qed
        with kept[OF f(2,3) frame_at_mono[OF a le(3)]] show ?thesis by blast
      next
        case True
        show ?thesis
        proof (cases fo)
          case (Some f)
          from pass_frame[OF ok keyed reads key(1) True res[unfolded Some]] \<open>d = Some data\<close> obtain s where
            s: "data = fr_data f" "t1 \<le> s" "frame_at h marshal call tkey key f t2 s" by auto
          have "current h f t' s"
            unfolding current_def
          proof (intro allI impI, rule ccontr)
            fix p assume p: "bus_concerns h p (fr_deps f) \<and> (\<exists>w < t'. bus_woken h p w)" "\<not> (\<exists>c < s. bus_changed h p c)"
            then obtain w where w: "bus_concerns h p (fr_deps f)" "bus_woken h p w" "w < t'" by blast
            have "t \<le> s" using le s(2) by simp
            from bus_wakes.missed_leaves_token[OF ok w p(2) this] q \<open>\<not> bus_token h t'\<close> show False
              by (auto simp: quiet_def)
          qed
          with kept[OF Some s(1) frame_at_mono[OF s(3) le(2)]] show ?thesis by blast
        next
          case None
          from reads key(1) True have
            "build_reads h call {cn_id c |i c. (i, c) \<in> set (hb_conns hb) \<and> cn_key c = key}
               (prev_deps (hb_idents hb key)) t1 t2 (pa_build pa key)" by (simp add: pass_reads_def)
          moreover have "build marshal (hb_idents hb key) (pa_build pa key) = (None, Some data)"
            using res True None Some by (simp add: pass_key_def)
          ultimately obtain p i where i: "bus_moves_total h p i" "t1 \<le> i" "i < t2"
            using build_unkept[OF ok] by blast
          have "i < t3" using i(3) ts(3) by simp
          from bus_levels.total_moved[OF ok i(1) target(1) i(2) this target(2)] show ?thesis by simp
        qed
      qed
    qed
  qed
  then show ?thesis by (auto simp: settled_ok_def)
qed

text \<open>Time passing with nothing received: a change that comes out leaves its token.\<close>

lemma settled_later:
  assumes ok: "history_ok h" and q: "quiet h t t'" and "settled_ok h marshal call tkey t hb"
  shows "settled_ok h marshal call tkey t' hb"
proof (cases "bus_token h t'")
  case False
  have le: "t \<le> t'" "\<forall>j. t \<le> j \<and> j < t' \<longrightarrow> \<not> bus_received h j" using q by (auto simp: quiet_def)
  with bus_wakes.token_kept[OF ok] False have "\<not> bus_token h t" by blast
  have later: "current h f t' a" if "current h f t a" for f a
    unfolding current_def
  proof (intro allI impI)
    fix p assume p: "bus_concerns h p (fr_deps f) \<and> (\<exists>w < t'. bus_woken h p w)"
    then obtain w where w: "bus_concerns h p (fr_deps f)" "bus_woken h p w" "w < t'" by blast
    have "w < t"
      using bus_wakes.wake_kept[OF ok w quiet_after[OF q]] False by (meson not_le)
    with that w show "\<exists>c < a. bus_changed h p c" by (auto simp: current_def)
  qed
  then have "shows_current h marshal call tkey t' hb c" if "shows_current h marshal call tkey t hb c" for c
    using that le(1) unfolding shows_current_def by (meson frame_at_mono)
  with assms(3) \<open>\<not> bus_token h t\<close> show ?thesis by (fastforce simp: settled_ok_def)
qed (simp add: settled_ok_def)

lemma frames_ok_mono: "frames_ok h marshal call tkey t hb \<Longrightarrow> t \<le> t' \<Longrightarrow> frames_ok h marshal call tkey t' hb"
  unfolding frames_ok_def by (meson frame_at_mono)

lemma frames_ok_conns:
  "frames_ok h marshal call tkey t (hb\<lparr>hb_conns := cs\<rparr>) = frames_ok h marshal call tkey t hb"
  by (simp add: frames_ok_def)

lemma hub_step_inv:
  assumes ok: "history_ok h" and step: "hub_step h marshal call tkey s s'" and "hub_inv h marshal call tkey s"
  shows "hub_inv h marshal call tkey s'"
  using step assms(3)
proof cases
  case (step_wake t r hb)
  with assms(3) show ?thesis
    by (auto simp: quiet_def intro: frames_ok_mono)
next
  case (step_kick t t' hb)
  with assms(3) show ?thesis by (simp add: frames_ok_def quiet_def conns_keyed_def) (meson frame_at_mono)
next
  case (step_passed t hb t1 t3 t' ph hb')
  then obtain t0 t2 target settled pa where q: "quiet h t t'" "t \<le> t0" "bus_total_read h t0 t1 target" "pass_reads h call hb t1 t2 pa"
    "t1 \<le> t2" "t2 \<le> t3" "bus_total_read h t3 t' settled" and r: "ph = (if settled = target then Waiting else Looping)" "hb' = reconcile marshal pa hb"
    unfolding hub_pass_def by blast
  from step_passed assms(3) have inv: "conns_keyed tkey hb" "frames_ok h marshal call tkey t hb" by simp_all
  have le: "t \<le> t'" "t2 \<le> t'" using q loads_interval(1)[OF q(7)] by (simp_all add: quiet_def)
  from step_passed(1,2) r pass_frames_ok[OF ok inv q(4) le] reconcile_keyed[OF inv(1)]
    pass_settled[OF ok inv q(1,2,5,6,3) _ q(4)] q(7) show ?thesis by auto
next
  case (step_add t t' c ph hb i)
  with assms(3) show ?thesis
    by (simp add: frames_ok_def quiet_def conns_keyed_def settled_ok_def add_conn_def) (meson frame_at_mono)
next
  case (step_remove t t' ph hb i)
  then have le: "t \<le> t'" by (simp add: quiet_def)
  have "settled_ok h marshal call tkey t' (remove_conn i hb)" if "settled_ok h marshal call tkey t hb"
    using settled_later[OF ok step_remove(3) that]
    by (fastforce simp: settled_ok_def remove_conn_def shows_current_def)
  with step_remove assms(3) le show ?thesis
    by (auto simp: frames_ok_conns conns_keyed_def remove_conn_def intro: frames_ok_mono)
next
  case (step_write t t' ph hb i)
  then have le: "t \<le> t'" by (simp add: quiet_def)
  let ?hb = "hb\<lparr>hb_conns := map (\<lambda>(j, c). (j, if j = i then write_frame c else c)) (hb_conns hb)\<rparr>"
  have w: "cn_last (write_frame c) = cn_last c" "cn_key (write_frame c) = cn_key c" "cn_id (write_frame c) = cn_id c" for c
    by (simp_all add: write_frame_def split: option.splits)
  have "settled_ok h marshal call tkey t' ?hb" if "settled_ok h marshal call tkey t hb"
    using settled_later[OF ok step_write(3) that]
    by (fastforce simp: settled_ok_def shows_current_def w)
  with step_write assms(3) le show ?thesis
    by (auto simp: frames_ok_conns conns_keyed_def w intro: frames_ok_mono)
qed

lemma hub_reach_inv: "hub_reach h marshal call tkey s \<Longrightarrow> history_ok h \<Longrightarrow> hub_inv h marshal call tkey s"
proof (induction rule: hub_reach.induct)
  case (reach_new t)
  then show ?case by (simp add: NewHub_def conns_keyed_def frames_ok_def settled_ok_def)
next
  case (reach_step s s')
  then show ?case by (blast intro: hub_step_inv)
qed

section \<open>The mailbox\<close>

text \<open>The last frame given to a connection is in its mailbox or the last one its writer wrote.\<close>

definition mail_ok :: "conn \<Rightarrow> bool" where
  "mail_ok c = (cn_last c \<noteq> '''' \<longrightarrow>
     cn_out c = Some (cn_last c) \<or> (cn_out c = None \<and> cn_written c \<noteq> [] \<and> last (cn_written c) = cn_last c))"

lemma mail_new [simp]: "cn_last c = '''' \<Longrightarrow> mail_ok c"
  by (simp add: mail_ok_def)

lemma mail_send [simp]: "mail_ok c \<Longrightarrow> mail_ok (sendLatest d c)"
  by (auto simp: mail_ok_def sendLatest_def deliver_def)

lemma mail_write [simp]: "mail_ok c \<Longrightarrow> mail_ok (write_frame c)"
  by (auto simp: mail_ok_def write_frame_def split: option.splits)

definition mails_ok :: "hub_state \<Rightarrow> bool" where
  "mails_ok s = (\<forall>(i, c) \<in> set (hb_conns (snd (snd s))). mail_ok c)"

lemma hub_step_mail: "hub_step h marshal call tkey s s' \<Longrightarrow> mails_ok s \<Longrightarrow> mails_ok s'"
  by (induction rule: hub_step.induct)
     (fastforce simp: mails_ok_def reconcile_def add_conn_def remove_conn_def hub_pass_def split: option.splits)+

lemma hub_reach_mail: "hub_reach h marshal call tkey s \<Longrightarrow> mails_ok s"
proof (induction rule: hub_reach.induct)
  case (reach_new t)
  then show ?case by (simp add: mails_ok_def NewHub_def)
next
  case (reach_step s s')
  then show ?case by (blast intro: hub_step_mail)
qed

section \<open>Whose frames a connection sees\<close>

definition from_key :: "('x inventory_scheme \<Rightarrow> string option) \<Rightarrow> 'x caller \<Rightarrow> (string \<Rightarrow> string) \<Rightarrow> string \<Rightarrow> string \<Rightarrow> bool" where
  "from_key marshal call tkey key d =
     (\<exists>who a b iv. call who a b (Some iv) \<and> tkey (id_token who) = key \<and> marshal iv = Some d)"

definition conn_data :: "conn \<Rightarrow> string set" where
  "conn_data c = set (cn_written c) \<union> set_option (cn_out c) \<union> (if cn_last c = '''' then {} else {cn_last c})"

definition hub_own :: "('x inventory_scheme \<Rightarrow> string option) \<Rightarrow> 'x caller \<Rightarrow> (string \<Rightarrow> string) \<Rightarrow> hub \<Rightarrow> bool" where
  "hub_own marshal call tkey hb =
     (conns_keyed tkey hb \<and>
      (\<forall>key f. hb_idents hb key = Some f \<longrightarrow> from_key marshal call tkey key (fr_data f)) \<and>
      (\<forall>(i, c) \<in> set (hb_conns hb). \<forall>d \<in> conn_data c. from_key marshal call tkey (cn_key c) d))"

lemma conn_data_send: "conn_data (sendLatest d c) \<subseteq> insert d (conn_data c)"
  by (auto simp: conn_data_def sendLatest_def deliver_def split: if_splits)

lemma conn_data_write: "conn_data (write_frame c) \<subseteq> conn_data c" "cn_key (write_frame c) = cn_key c" "cn_id (write_frame c) = cn_id c"
  by (auto simp: conn_data_def write_frame_def split: option.splits if_splits)

lemma build_data:
  assumes "build_reads h call ids prev a b an" and "\<forall>who \<in> ids. tkey (id_token who) = key"
  shows "snd (build marshal pf an) = Some d \<Longrightarrow> from_key marshal call tkey key d"
    "fst (build marshal pf an) = Some f \<Longrightarrow> from_key marshal call tkey key (fr_data f)"
  using assms
  by (auto simp: build_reads_def build_def from_key_def Let_def split: option.splits if_splits) blast+

lemma pass_key_data:
  assumes own: "hub_own marshal call tkey hb" and reads: "pass_reads h call hb a b pa" and key: "key \<in> set (connected_keys hb)"
  shows "snd (pass_key marshal pa hb key) = Some d \<Longrightarrow> from_key marshal call tkey key d"
    "fst (pass_key marshal pa hb key) = Some f \<Longrightarrow> from_key marshal call tkey key (fr_data f)"
proof -
  let ?ids = "{cn_id c |i c. (i, c) \<in> set (hb_conns hb) \<and> cn_key c = key}"
  have ids: "\<forall>who \<in> ?ids. tkey (id_token who) = key" using own by (force simp: hub_own_def conns_keyed_def)
  have due: "build_reads h call ?ids (prev_deps (hb_idents hb key)) a b (pa_build pa key)" if "is_due hb pa key"
    using reads key that by (simp add: pass_reads_def)
  show "snd (pass_key marshal pa hb key) = Some d \<Longrightarrow> from_key marshal call tkey key d"
    using build_data(1)[OF due ids] own by (cases "is_due hb pa key") (auto simp: pass_key_def hub_own_def)
  show "fst (pass_key marshal pa hb key) = Some f \<Longrightarrow> from_key marshal call tkey key (fr_data f)"
    using build_data(2)[OF due ids] own by (cases "is_due hb pa key") (auto simp: pass_key_def hub_own_def)
qed

lemma reconcile_own:
  assumes own: "hub_own marshal call tkey hb" and reads: "pass_reads h call hb a b pa"
  shows "hub_own marshal call tkey (reconcile marshal pa hb)"
proof -
  have conn: "from_key marshal call tkey (cn_key c) d"
    if "(i, c) \<in> set (hb_conns hb)" "snd (pass_key marshal pa hb (cn_key c)) = Some x" "d \<in> conn_data (sendLatest x c)" for i c x d
    using that conn_data_send[of x c] pass_key_data(1)[OF own reads, of "cn_key c" x] own
    by (force simp: connected_keys_set hub_own_def)
  have frames: "from_key marshal call tkey key (fr_data f)" if "hb_idents (reconcile marshal pa hb) key = Some f" for key f
    using that pass_key_data(2)[OF own reads] by (simp add: reconcile_def split: if_splits)
  have conns: "from_key marshal call tkey (cn_key c') d"
    if "(i, c') \<in> set (hb_conns (reconcile marshal pa hb))" "d \<in> conn_data c'" for i c' d
  proof -
    from that(1) obtain c where c: "(i, c) \<in> set (hb_conns hb)"
      "c' = (case snd (pass_key marshal pa hb (cn_key c)) of None \<Rightarrow> c | Some data \<Rightarrow> sendLatest data c)"
      by (auto simp: reconcile_def)
    show ?thesis
    proof (cases "snd (pass_key marshal pa hb (cn_key c))")
      case None
      with c that(2) own show ?thesis by (auto simp: hub_own_def)
    next
      case (Some x)
      with c that(2) conn[OF c(1) Some] show ?thesis by simp
    qed
  qed
  show ?thesis
    using own reconcile_keyed frames conns unfolding hub_own_def by blast
qed

lemma hub_step_own:
  "hub_step h marshal call tkey s s' \<Longrightarrow> hub_own marshal call tkey (snd (snd s)) \<Longrightarrow> hub_own marshal call tkey (snd (snd s'))"
proof (induction rule: hub_step.induct)
  case (step_passed t hb t1 t3 t' ph hb')
  from step_passed(1) obtain t2 pa where p: "pass_reads h call hb t1 t2 pa" "hb' = reconcile marshal pa hb" unfolding hub_pass_def by blast
  from step_passed(2) p show ?case by (auto intro: reconcile_own)
next
  case (step_write t t' ph hb i)
  then show ?case
    using conn_data_write by (fastforce simp: hub_own_def conns_keyed_def split: if_splits)
qed (auto simp: hub_own_def conns_keyed_def add_conn_def remove_conn_def conn_data_def)

lemma hub_reach_own: "hub_reach h marshal call tkey s \<Longrightarrow> hub_own marshal call tkey (snd (snd s))"
proof (induction rule: hub_reach.induct)
  case (reach_new t)
  then show ?case by (simp add: hub_own_def NewHub_def conns_keyed_def)
next
  case (reach_step s s')
  then show ?case by (blast intro: hub_step_own)
qed

section \<open>A pass is always possible\<close>

lemma loads_now: "t \<le> length (hi_events h) \<Longrightarrow> \<exists>v. loads_in h ls t t v"
  unfolding loads_in_def by (intro exI[of _ "reading _ _ ls (replicate (length ls) t)"]) (auto intro!: exI[of _ "replicate (length ls) t"])

lemma build_possible:
  assumes t: "t \<le> length (hi_events h)" and calls: "\<forall>who. \<exists>r. call who t t r" and ids: "ids \<noteq> {}"
  shows "\<exists>an. build_reads h call ids prev t t an"
proof -
  from ids obtain who where who: "who \<in> ids" by blast
  from calls obtain r where r: "call who t t r" by blast
  from loads_now[OF t] obtain tot where tot: "bus_total_read h t t tot" unfolding bus_total_read_def by blast
  from loads_now[OF t] obtain st where st: "bus_stamp_read h prev t t st" unfolding bus_stamp_read_def by blast
  from loads_now[OF t] obtain af where af: "bus_stamp_read h (case r of None \<Rightarrow> [] | Some iv \<Rightarrow> Deps iv) t t af"
    unfolding bus_stamp_read_def by blast
  let ?an = "\<lparr>an_total = tot, an_stamp = st, an_inventory = r, an_after = af, an_total_after = tot\<rparr>"
  have after: "\<forall>iv. r = Some iv \<and> Deps iv \<noteq> prev \<longrightarrow>
      (\<exists>s0 s1 s2 s3. t \<le> s0 \<and> bus_stamp_read h (Deps iv) s0 s1 af \<and> s1 \<le> s2 \<and> bus_total_read h s2 s3 tot \<and> s3 \<le> t)"
    using tot af by (intro allI impI exI[of _ t]) simp
  have "build_reads h call ids prev t t ?an"
    unfolding build_reads_def using who r tot st after
    by (intro exI[of _ t] bexI[of _ who]) simp_all
  then show ?thesis by blast
qed

lemma pass_possible:
  assumes t: "t \<le> length (hi_events h)" and calls: "\<forall>who. \<exists>r. call who t t r"
  shows "\<exists>pa. pass_reads h call hb t t pa"
proof -
  have "\<forall>key. \<exists>v. \<forall>f. hb_idents hb key = Some f \<longrightarrow> bus_stamp_read h (fr_deps f) t t v"
    using loads_now[OF t] unfolding bus_stamp_read_def by (metis option.inject)
  then have "\<exists>chk. \<forall>key f. hb_idents hb key = Some f \<longrightarrow> bus_stamp_read h (fr_deps f) t t (chk key)" by (rule choice)
  then obtain chk where chk: "\<And>key f. hb_idents hb key = Some f \<Longrightarrow> bus_stamp_read h (fr_deps f) t t (chk key)" by blast
  have "\<forall>key. \<exists>an. key \<in> set (connected_keys hb) \<longrightarrow>
      build_reads h call {cn_id c |i c. (i, c) \<in> set (hb_conns hb) \<and> cn_key c = key} (prev_deps (hb_idents hb key)) t t an"
  proof
    fix key
    show "\<exists>an. key \<in> set (connected_keys hb) \<longrightarrow>
      build_reads h call {cn_id c |i c. (i, c) \<in> set (hb_conns hb) \<and> cn_key c = key} (prev_deps (hb_idents hb key)) t t an"
    proof (cases "key \<in> set (connected_keys hb)")
      case True
      then have "{cn_id c |i c. (i, c) \<in> set (hb_conns hb) \<and> cn_key c = key} \<noteq> {}" by (force simp: connected_keys_set)
      from build_possible[where call = call and t = t, OF t calls this] show ?thesis by blast
    qed simp
  qed
  then have "\<exists>bld. \<forall>key. key \<in> set (connected_keys hb) \<longrightarrow>
      build_reads h call {cn_id c |i c. (i, c) \<in> set (hb_conns hb) \<and> cn_key c = key} (prev_deps (hb_idents hb key)) t t (bld key)"
    by (rule choice)
  then obtain bld where bld: "\<And>key. key \<in> set (connected_keys hb) \<Longrightarrow>
      build_reads h call {cn_id c |i c. (i, c) \<in> set (hb_conns hb) \<and> cn_key c = key} (prev_deps (hb_idents hb key)) t t (bld key)"
    by blast
  have "pass_reads h call hb t t \<lparr>pa_check = chk, pa_build = bld\<rparr>"
    unfolding pass_reads_def using chk bld by auto
  then show ?thesis by blast
qed

end
