(* ===== verification/Auth_Validate.thy ===== *)
theory Auth_Validate
  imports Ttlcache Stream_Hub
begin

text \<open>
  \<open>Authenticator.Validate\<close> of \<open>internal/auth/auth.go\<close>: a bearer token to the identity the cluster
  attributes to it, cached by token hash. The TokenReview answer, the rate limiter's verdict and
  the times are what one call was given; the token hash (SHA-256) is the parameter \<open>tkey\<close>.
\<close>

datatype auth_error =
    Rejected string
  | Throttled
  | ReviewFailed string

record cached_identity =
  cd_id :: identity
  cd_err :: bool

record review =
  rv_authenticated :: bool
  rv_error :: string
  rv_username :: string
  rv_groups :: "string list"

text \<open>What one call meets: the time of the lookup, whether the limiter allows a review, the review's
  answer or failure, and the time of the write.\<close>

record validate_env =
  ve_get_at :: int
  ve_allow :: bool
  ve_review :: "string + review"
  ve_put_at :: int

type_synonym authenticator = "cached_identity cache"

definition no_identity :: identity where
  "no_identity = \<lparr>id_token = '''', id_username = '''', id_groups = []\<rparr>"

definition authCacheTTL :: int where
  "authCacheTTL = 60000000000"

definition NewAuthenticator :: authenticator where
  "NewAuthenticator = cache_new authCacheTTL"

definition Validate :: "(string \<Rightarrow> string) \<Rightarrow> authenticator \<Rightarrow> validate_env \<Rightarrow> string \<Rightarrow>
    (auth_error + identity) \<times> authenticator" where
  "Validate tkey a env token =
     (if token = '''' then (Inl (Rejected ''empty token''), a)
      else
        (let key = tkey token in
         case cache_get (ve_get_at env) a key of
           Some c \<Rightarrow> (if cd_err c then Inl (Rejected '''') else Inr (cd_id c), a)
         | None \<Rightarrow>
             (if \<not> ve_allow env then (Inl Throttled, a)
              else
                (case ve_review env of
                   Inl err \<Rightarrow> (Inl (ReviewFailed err), a)
                 | Inr res \<Rightarrow>
                     (if \<not> rv_authenticated res then
                        (Inl (Rejected (if rv_error res = '''' then ''not authenticated'' else rv_error res)),
                         cache_put (ve_put_at env) a key \<lparr>cd_id = no_identity, cd_err = True\<rparr>)
                      else
                        (let i = \<lparr>id_token = token, id_username = rv_username res, id_groups = rv_groups res\<rparr>
                         in (Inr i, cache_put (ve_put_at env) a key \<lparr>cd_id = i, cd_err = False\<rparr>)))))))"

section \<open>Runs of the authenticator\<close>

text \<open>The calls a process makes, each with the token it got and what it met.\<close>

record validate_call =
  vc_token :: string
  vc_env :: validate_env

fun auth_run :: "(string \<Rightarrow> string) \<Rightarrow> validate_call list \<Rightarrow> authenticator" where
  "auth_run tkey [] = NewAuthenticator"
| "auth_run tkey (c # cs) = snd (Validate tkey (auth_run tkey cs) (vc_env c) (vc_token c))"

text \<open>A review among the calls that answered for this token.\<close>

definition reviewed :: "validate_call list \<Rightarrow> string \<Rightarrow> review \<Rightarrow> int \<Rightarrow> bool" where
  "reviewed cs token res at =
     (\<exists>c \<in> set cs. vc_token c = token \<and> ve_review (vc_env c) = Inr res \<and> ve_put_at (vc_env c) = at)"

text \<open>What a cached entry rests on: a review of the one token that hashes to its key.\<close>

definition entry_reviewed :: "(string \<Rightarrow> string) \<Rightarrow> validate_call list \<Rightarrow> string \<Rightarrow> cached_identity \<Rightarrow> int \<Rightarrow> bool" where
  "entry_reviewed tkey cs key c at =
     (\<exists>token res. tkey token = key \<and> token \<noteq> '''' \<and> reviewed cs token res at \<and> rv_authenticated res = (\<not> cd_err c) \<and>
        (\<not> cd_err c \<longrightarrow> cd_id c = \<lparr>id_token = token, id_username = rv_username res, id_groups = rv_groups res\<rparr>))"

lemma auth_run_justified: "ttl.justified (entry_reviewed tkey cs) (auth_run tkey cs) \<and> ca_ttl (auth_run tkey cs) = authCacheTTL"
proof (induction cs)
  case Nil
  then show ?case by (simp add: ttl.justified_def NewAuthenticator_def)
next
  case (Cons c cs)
  let ?a = "auth_run tkey cs"
  have old: "ttl.justified (entry_reviewed tkey (c # cs)) ?a"
  proof (rule ttl.justified_mono)
    show "ttl.justified (entry_reviewed tkey cs) ?a" using Cons by simp
    have "reviewed cs token res at \<Longrightarrow> reviewed (c # cs) token res at" for token res at by (auto simp: reviewed_def)
    then show "entry_reviewed tkey cs k v at \<Longrightarrow> entry_reviewed tkey (c # cs) k v at" for k v at
      unfolding entry_reviewed_def by blast
  qed
  have new: "ttl.justified (entry_reviewed tkey (c # cs)) (cache_put (ve_put_at (vc_env c)) ?a (tkey (vc_token c)) d)"
    if "entry_reviewed tkey (c # cs) (tkey (vc_token c)) d (ve_put_at (vc_env c))" for d
    by (rule ttl.justified_put[OF old that])
  have here: "reviewed (c # cs) (vc_token c) res (ve_put_at (vc_env c))" if "ve_review (vc_env c) = Inr res" for res
    using that by (auto simp: reviewed_def)
  have "snd (Validate tkey ?a (vc_env c) (vc_token c)) = ?a \<or>
      (\<exists>d. snd (Validate tkey ?a (vc_env c) (vc_token c)) = cache_put (ve_put_at (vc_env c)) ?a (tkey (vc_token c)) d \<and>
           entry_reviewed tkey (c # cs) (tkey (vc_token c)) d (ve_put_at (vc_env c)))"
  proof (cases "vc_token c = '''' \<or> cache_get (ve_get_at (vc_env c)) ?a (tkey (vc_token c)) \<noteq> None \<or> \<not> ve_allow (vc_env c)")
    case True
    then show ?thesis by (auto simp: Validate_def Let_def split: option.splits)
  next
    case False
    show ?thesis
    proof (cases "ve_review (vc_env c)")
      case (Inl err)
      with False show ?thesis by (simp add: Validate_def Let_def)
    next
      case (Inr res)
      have "entry_reviewed tkey (c # cs) (tkey (vc_token c))
          \<lparr>cd_id = (if rv_authenticated res then \<lparr>id_token = vc_token c, id_username = rv_username res, id_groups = rv_groups res\<rparr>
             else no_identity), cd_err = (\<not> rv_authenticated res)\<rparr> (ve_put_at (vc_env c))"
        unfolding entry_reviewed_def using here[OF Inr] False
        by (intro exI[of _ "vc_token c"] exI[of _ res]) simp
      with False Inr show ?thesis by (cases "rv_authenticated res") (auto simp: Validate_def Let_def)
    qed
  qed
  with old new Cons show ?case by auto
qed

section \<open>Properties\<close>

text \<open>C36: A token is accepted only on a review of that very token. When \<open>Validate\<close> accepts, the identity
  carries the caller's token and the name and groups that a TokenReview answered as authenticated
  for it: this call's, or one whose answer was cached less than the window before. When it answers
  that a token is rejected, the token is empty or such a review refused it: a failed review or a
  throttled call rejects nobody and is not cached. (No two tokens share a hash.)\<close>
theorem validate_rests_on_review:
  assumes hash: "inj tkey" and call: "Validate tkey (auth_run tkey cs) env token = (r, a)"
  shows "(\<forall>i. r = Inr i \<longrightarrow> token \<noteq> '''' \<and>
      (\<exists>res at. rv_authenticated res \<and> i = \<lparr>id_token = token, id_username = rv_username res, id_groups = rv_groups res\<rparr> \<and>
        (reviewed cs token res at \<and> ve_get_at env - at < authCacheTTL \<or> ve_review env = Inr res))) \<and>
    (\<forall>m. r = Inl (Rejected m) \<longrightarrow> token = '''' \<or>
      (\<exists>res at. \<not> rv_authenticated res \<and>
        (reviewed cs token res at \<and> ve_get_at env - at < authCacheTTL \<or> ve_review env = Inr res))) \<and>
    ((\<exists>e. r = Inl (ReviewFailed e)) \<or> r = Inl Throttled \<longrightarrow> a = auth_run tkey cs)"
proof (cases "token = ''''")
  case True
  with call show ?thesis by (auto simp: Validate_def)
next
  case False
  let ?a = "auth_run tkey cs"
  show ?thesis
  proof (cases "cache_get (ve_get_at env) ?a (tkey token)")
    case None
    with False call show ?thesis
      by (cases "ve_allow env"; cases "ve_review env") (auto simp: Validate_def Let_def split: if_splits)
  next
    case (Some c)
    with auth_run_justified[of tkey cs] obtain at where
      e: "entry_reviewed tkey cs (tkey token) c at" "ve_get_at env - at < authCacheTTL"
      by (metis ttl.justified_get)
    from e(1) obtain t res where "tkey t = tkey token" and rest: "reviewed cs t res at" "rv_authenticated res = (\<not> cd_err c)"
      "\<not> cd_err c \<longrightarrow> cd_id c = \<lparr>id_token = t, id_username = rv_username res, id_groups = rv_groups res\<rparr>"
      by (auto simp: entry_reviewed_def)
    with hash have "t = token" by (simp add: inj_eq)
    with False Some call rest e(2) show ?thesis by (cases "cd_err c") (auto simp: Validate_def Let_def)
  qed
qed

definition demo_env :: "bool \<Rightarrow> validate_env" where
  "demo_env good = \<lparr>ve_get_at = 5, ve_allow = True,
     ve_review = Inr \<lparr>rv_authenticated = good, rv_error = '''', rv_username = ''ada'', rv_groups = [''dev'']\<rparr>, ve_put_at = 6\<rparr>"

theorem validate_rests_on_review_witness:
  "\<exists>res :: review. rv_authenticated res \<and> rv_username res = ''ada''"
proof -
  have "Validate id (auth_run id []) (demo_env True) ''tok'' =
      (Inr \<lparr>id_token = ''tok'', id_username = ''ada'', id_groups = [''dev'']\<rparr>, snd (Validate id (auth_run id []) (demo_env True) ''tok''))"
    by (simp add: Validate_def demo_env_def NewAuthenticator_def cache_new_def cache_get_def Let_def)
  note conjunct1[OF validate_rests_on_review[OF inj_on_id this], THEN spec, THEN mp, OF refl]
  then show ?thesis by (metis identity.ext_inject)
qed

end
