(* ===== verification/Cluster_Access.thy ===== *)
theory Cluster_Access
  imports Go_Prelude
begin

text \<open>
  The access reviews of \<open>internal/cluster/cluster.go\<close> and \<open>permissions.go\<close>: what one user's token may
  do, asked of the Kubernetes API. The API server is the record \<open>kube\<close> of the answers it gives one
  token at one moment; a failed call is a \<open>kube_error\<close>.
\<close>

section \<open>The API server's answers\<close>

datatype kube_error = KForbidden string | KNotFound string | KConflict string | KBadRequest string | KFailed string

record access_attrs =
  aa_namespace :: string
  aa_verb :: string
  aa_group :: string
  aa_resource :: string
  aa_name :: string

record resource_rule =
  rr_verbs :: "string list"
  rr_groups :: "string list"
  rr_resources :: "string list"

record kube =
  kb_access :: "access_attrs \<Rightarrow> kube_error + bool"
  kb_rules :: "string \<Rightarrow> kube_error + (resource_rule list \<times> bool)"
  kb_namespaces :: "kube_error + string list"

text \<open>An error as the callers see it: wrapped with the text of the operation, its kind kept.\<close>

fun wrap_error :: "string \<Rightarrow> kube_error \<Rightarrow> kube_error" where
  "wrap_error w (KForbidden m) = KForbidden (w @ m)"
| "wrap_error w (KNotFound m) = KNotFound (w @ m)"
| "wrap_error w (KConflict m) = KConflict (w @ m)"
| "wrap_error w (KBadRequest m) = KBadRequest (w @ m)"
| "wrap_error w (KFailed m) = KFailed (w @ m)"

section \<open>Reviews\<close>

definition contains_any :: "string list \<Rightarrow> string list \<Rightarrow> bool" where
  "contains_any haystack wanted = list_ex (\<lambda>h. h = ''*'' \<or> h \<in> set wanted) haystack"

definition grantsRead :: "resource_rule \<Rightarrow> string \<Rightarrow> string \<Rightarrow> bool" where
  "grantsRead rule grp resource =
     (contains_any (rr_verbs rule) [''get'', ''list''] \<and> contains_any (rr_groups rule) [grp] \<and>
      contains_any (rr_resources rule) [resource])"

definition allowed :: "kube \<Rightarrow> access_attrs \<Rightarrow> kube_error + bool" where
  "allowed k attrs = kb_access k attrs"

definition access_of :: "string \<Rightarrow> string \<Rightarrow> string \<Rightarrow> string \<Rightarrow> string \<Rightarrow> access_attrs" where
  "access_of ns verb grp resource name =
     \<lparr>aa_namespace = ns, aa_verb = verb, aa_group = grp, aa_resource = resource, aa_name = name\<rparr>"

definition Can :: "kube \<Rightarrow> string \<Rightarrow> string \<Rightarrow> string \<Rightarrow> string \<Rightarrow> kube_error + bool" where
  "Can k verb grp resource ns =
     (case allowed k (access_of ns verb grp resource '''') of
        Inl e \<Rightarrow> Inl (wrap_error (''access review for '' @ verb @ '' '' @ resource @ '' in '' @ ns @ '': '') e)
      | Inr ok \<Rightarrow> Inr ok)"

definition CanUpdateVM :: "kube \<Rightarrow> string \<Rightarrow> string \<Rightarrow> kube_error + bool" where
  "CanUpdateVM k ns name =
     (case allowed k (access_of ns ''update'' ''kubevirt.io'' ''virtualmachines'' name) of
        Inl e \<Rightarrow> Inl (wrap_error (''access review for '' @ ns @ ''/'' @ name @ '': '') e)
      | Inr ok \<Rightarrow> Inr ok)"

definition CanReadNodes :: "kube \<Rightarrow> bool" where
  "CanReadNodes k = (case allowed k (access_of '''' ''list'' '''' ''nodes'' '''') of Inl e \<Rightarrow> False | Inr ok \<Rightarrow> ok)"

definition CanCreateClusterResource :: "kube \<Rightarrow> string \<Rightarrow> string \<Rightarrow> bool" where
  "CanCreateClusterResource k grp resource =
     (case allowed k (access_of '''' ''create'' grp resource '''') of Inl e \<Rightarrow> False | Inr ok \<Rightarrow> ok)"

definition canReadVMs :: "kube \<Rightarrow> string \<Rightarrow> kube_error + bool" where
  "canReadVMs k ns =
     (case kb_rules k ns of
        Inl e \<Rightarrow> Inl (wrap_error (''rules review for '' @ ns @ '': '') e)
      | Inr (rules, incomplete) \<Rightarrow> Inr (list_ex (\<lambda>r. grantsRead r ''kubevirt.io'' ''virtualmachines'') rules))"

text \<open>The fallback: each candidate probed, one that fails skipped.\<close>

definition probe_candidates :: "kube \<Rightarrow> string list \<Rightarrow> string list" where
  "probe_candidates k candidates = filter (\<lambda>ns. canReadVMs k ns = Inr True) candidates"

definition VisibleNamespaces :: "kube \<Rightarrow> string list \<Rightarrow> kube_error + string list" where
  "VisibleNamespaces k candidates =
     (case kb_namespaces k of
        Inr names \<Rightarrow>
          (case allowed k (access_of '''' ''list'' ''kubevirt.io'' ''virtualmachines'' '''') of
             Inl e \<Rightarrow> Inl (wrap_error ''cluster-wide vm read review: '' e)
           | Inr ok \<Rightarrow> if ok then Inr names else Inr (probe_candidates k candidates))
      | Inl (KForbidden m) \<Rightarrow> Inr (probe_candidates k candidates)
      | Inl e \<Rightarrow> Inl (wrap_error ''list namespaces: '' e))"

section \<open>The permissions tab\<close>

definition ruleAllows :: "resource_rule list \<Rightarrow> string \<Rightarrow> string \<Rightarrow> string \<Rightarrow> bool" where
  "ruleAllows rules grp resource verb =
     list_ex (\<lambda>r. contains_any (rr_groups r) [grp] \<and> contains_any (rr_resources r) [resource] \<and>
                  contains_any (rr_verbs r) [verb]) rules"

record capability =
  cp_id :: string
  cp_label :: string
  cp_allowed :: bool
  cp_detail :: string

record permissions =
  pm_namespace :: string
  pm_incomplete :: bool
  pm_capabilities :: "capability list"

definition capability_of :: "resource_rule list \<Rightarrow> string \<times> string \<times> string \<times> string \<times> string \<Rightarrow> capability" where
  "capability_of rules c =
     (case c of (i, label, grp, resource, verb) \<Rightarrow>
       \<lparr>cp_id = i, cp_label = label, cp_allowed = ruleAllows rules grp resource verb,
        cp_detail = grp @ '' '' @ resource @ '' ('' @ verb @ '')''\<rparr>)"

definition Permissions :: "kube \<Rightarrow> string \<Rightarrow> kube_error + permissions" where
  "Permissions k ns =
     (case kb_rules k ns of
        Inl e \<Rightarrow> Inl (wrap_error (''rules review for '' @ ns @ '': '') e)
      | Inr (rules, incomplete) \<Rightarrow>
          Inr \<lparr>pm_namespace = ns, pm_incomplete = incomplete,
               pm_capabilities = map (capability_of rules)
                [(''view'', ''View virtual machines'', ''kubevirt.io'', ''virtualmachines'', ''list''),
                 (''console'', ''Open console (VNC)'', ''subresources.kubevirt.io'', ''virtualmachineinstances/vnc'', ''get''),
                 (''restart'', ''Restart'', ''subresources.kubevirt.io'', ''virtualmachines/restart'', ''update''),
                 (''pause'', ''Pause / unpause'', ''subresources.kubevirt.io'', ''virtualmachineinstances/pause'', ''update''),
                 (''migrate'', ''Live-migrate'', ''subresources.kubevirt.io'', ''virtualmachines/migrate'', ''update''),
                 (''snapshot'', ''Take snapshots'', ''snapshot.kubevirt.io'', ''virtualmachinesnapshots'', ''create''),
                 (''restore'', ''Restore snapshots'', ''snapshot.kubevirt.io'', ''virtualmachinerestores'', ''create''),
                 (''clone'', ''Clone'', ''clone.kubevirt.io'', ''virtualmachineclones'', ''create''),
                 (''resync'', ''Trigger Argo re-sync'', ''kubevirt.io'', ''virtualmachines'', ''update'')]\<rparr>)"

section \<open>What is visible\<close>

text \<open>The token may read VMs in the namespace: everywhere, or by a rule there.\<close>

definition may_read_vms :: "kube \<Rightarrow> string \<Rightarrow> bool" where
  "may_read_vms k ns =
     (allowed k (access_of '''' ''list'' ''kubevirt.io'' ''virtualmachines'' '''') = Inr True \<or>
      (\<exists>rules inc. kb_rules k ns = Inr (rules, inc) \<and> (\<exists>r \<in> set rules. grantsRead r ''kubevirt.io'' ''virtualmachines'')))"

lemma canReadVMs_grants: "canReadVMs k ns = Inr True \<Longrightarrow> may_read_vms k ns"
  by (auto simp: canReadVMs_def may_read_vms_def list_ex_iff split: sum.splits prod.splits)

lemma visible_may_read:
  assumes "VisibleNamespaces k candidates = Inr names" and "ns \<in> set names"
  shows "may_read_vms k ns"
proof -
  have probe: "ns \<in> set (probe_candidates k candidates) \<Longrightarrow> may_read_vms k ns"
    by (simp add: probe_candidates_def canReadVMs_grants)
  show ?thesis
  proof (cases "kb_namespaces k")
    case (Inr all)
    with assms probe show ?thesis
      by (auto simp: VisibleNamespaces_def may_read_vms_def split: sum.splits if_splits)
  next
    case (Inl e)
    with assms probe show ?thesis by (cases e) (auto simp: VisibleNamespaces_def)
  qed
qed

end
