(* ===== verification/Api_Scope.thy ===== *)
theory Api_Scope
  imports Auth_Validate Cluster_Access Model_Kinds Project_Resolve
begin

text \<open>
  \<open>internal/api/scope.go\<close>: the preamble of every handler. Who is calling, what they may see, which
  project a request targets, and the platform tier's gate. The server's two authorization caches are
  state; the API server, the clock and the bus version a step meets are the \<open>moment\<close> it runs at, and
  each step takes the next moment, so a request is not assumed to run at one instant. A handler
  that wrote an error response returns it as \<open>Inl\<close>.
\<close>

section \<open>Errors\<close>

datatype api_error =
    ErrInvalid string
  | ErrNotFound string
  | ErrForbidden string
  | ErrConflict string
  | ErrUnavailable string
  | FromKube kube_error

fun statusFor :: "api_error \<Rightarrow> nat" where
  "statusFor (ErrInvalid m) = 400"
| "statusFor (ErrNotFound m) = 404"
| "statusFor (FromKube (KNotFound m)) = 404"
| "statusFor (ErrForbidden m) = 403"
| "statusFor (FromKube (KForbidden m)) = 403"
| "statusFor (ErrConflict m) = 409"
| "statusFor (FromKube (KConflict m)) = 409"
| "statusFor (FromKube (KBadRequest m)) = 409"
| "statusFor (ErrUnavailable m) = 503"
| "statusFor (FromKube (KFailed m)) = 500"

text \<open>\<open>unavailable\<close> drops the detail.\<close>

definition unavailable :: api_error where
  "unavailable = ErrUnavailable ''cluster access''"

section \<open>The server\<close>

record visible_set =
  vs_ns :: "string list"
  vs_ver :: counter

record ssar_verdict =
  sr_ok :: bool
  sr_ver :: counter

record moment =
  mo_now :: int
  mo_put :: int
  mo_bus :: "bus option"
  mo_kube :: "string \<Rightarrow> kube"
  mo_client :: "string \<Rightarrow> bool"  \<comment> \<open>whether a client can be built for the token\<close>

text \<open>\<open>rbacVersion\<close>: the level a token's derived authorization depends on.\<close>

definition rbacVersion :: "bus option \<Rightarrow> counter" where
  "rbacVersion b = Version b [RBACChanged, NamespaceChanged]"

definition mo_ver :: "moment \<Rightarrow> counter" where
  "mo_ver m = rbacVersion (mo_bus m)"

record network_row =
  nr_namespace :: string
  nr_name :: string
  nr_backing :: string

record server =
  sv_configured :: bool
  sv_platform_repo :: string
  sv_resolver :: resolver
  sv_namespaces :: "namespace_obj list"
  sv_networks :: "network_row list option"
  sv_visible :: "visible_set cache"
  sv_ssar :: "ssar_verdict cache"
  sv_tick :: nat

definition visibleTTL :: int where
  "visibleTTL = 30000000000"

record ssar_ref =
  sf_group :: string
  sf_resource :: string

definition ssarFor :: "managed_kind \<Rightarrow> ssar_ref" where
  "ssarFor k = \<lparr>sf_group = mk_group k, sf_resource = mk_plural k\<rparr>"

type_synonym moments = "nat \<Rightarrow> moment"

definition next_moment :: "moments \<Rightarrow> server \<Rightarrow> moment \<times> server" where
  "next_moment ms s = (ms (sv_tick s), s\<lparr>sv_tick := Suc (sv_tick s)\<rparr>)"

section \<open>The authorization caches\<close>

text \<open>The separator byte of the composed cache keys.\<close>

definition nul :: char where
  "nul = CHR 0x00"

definition namespaceNames :: "namespace_obj list \<Rightarrow> string list" where
  "namespaceNames nss = map no_name nss"

definition visibleFor :: "(string \<Rightarrow> string) \<Rightarrow> moments \<Rightarrow> identity \<Rightarrow> server \<Rightarrow> (api_error + string list) \<times> server" where
  "visibleFor tkey ms i s0 =
     (let (m, s) = next_moment ms s0;
          key = tkey (id_token i);
          miss = (case VisibleNamespaces (mo_kube m (id_token i)) (namespaceNames (sv_namespaces s)) of
                    Inl e \<Rightarrow> (Inl (FromKube e), s)
                  | Inr names \<Rightarrow>
                      (Inr names, s\<lparr>sv_visible := cache_put (mo_put m) (sv_visible s) key \<lparr>vs_ns = names, vs_ver = mo_ver m\<rparr>\<rparr>))
      in case cache_get (mo_now m) (sv_visible s) key of
           Some e \<Rightarrow> if vs_ver e = mo_ver m then (Inr (vs_ns e), s) else miss
         | None \<Rightarrow> miss)"

text \<open>\<open>ssarChecked\<close>: one review behind the per-token, version-stamped cache. \<open>probe\<close> is the review.\<close>

definition ssarChecked :: "(string \<Rightarrow> string) \<Rightarrow> moments \<Rightarrow> identity \<Rightarrow> string \<Rightarrow> (kube \<Rightarrow> kube_error + bool) \<Rightarrow> server \<Rightarrow>
    (kube_error + bool) \<times> server" where
  "ssarChecked tkey ms i key probe s0 =
     (let (m, s) = next_moment ms s0;
          k = tkey (id_token i) @ [nul] @ key;
          miss = (case probe (mo_kube m (id_token i)) of
                    Inl e \<Rightarrow> (Inl e, s)
                  | Inr ok \<Rightarrow>
                      (Inr ok, s\<lparr>sv_ssar := cache_put (mo_put m) (sv_ssar s) k \<lparr>sr_ok = ok, sr_ver = mo_ver m\<rparr>\<rparr>))
      in case cache_get (mo_now m) (sv_ssar s) k of
           Some e \<Rightarrow> if sr_ver e = mo_ver m then (Inr (sr_ok e), s) else miss
         | None \<Rightarrow> miss)"

definition ssarCached :: "(string \<Rightarrow> string) \<Rightarrow> moments \<Rightarrow> identity \<Rightarrow> string \<Rightarrow> (kube \<Rightarrow> bool) \<Rightarrow> server \<Rightarrow> bool \<times> server" where
  "ssarCached tkey ms i key probe s =
     (case ssarChecked tkey ms i key (\<lambda>k. Inr (probe k)) s of
        (Inl e, s') \<Rightarrow> (False, s')
      | (Inr ok, s') \<Rightarrow> (ok, s'))"

definition canCreateCached :: "(string \<Rightarrow> string) \<Rightarrow> moments \<Rightarrow> identity \<Rightarrow> ssar_ref \<Rightarrow> server \<Rightarrow> bool \<times> server" where
  "canCreateCached tkey ms i ref s =
     ssarCached tkey ms i (sf_group ref @ ''/'' @ sf_resource ref)
       (\<lambda>k. CanCreateClusterResource k (sf_group ref) (sf_resource ref)) s"

definition canReadNodesCached :: "(string \<Rightarrow> string) \<Rightarrow> moments \<Rightarrow> identity \<Rightarrow> server \<Rightarrow> bool \<times> server" where
  "canReadNodesCached tkey ms i s = ssarCached tkey ms i (''read'' @ [nul] @ ''nodes'') CanReadNodes s"

section \<open>Projects and pickers\<close>

definition platformProject :: "server \<Rightarrow> project_info" where
  "platformProject s = \<lparr>pi_name = PlatformName, pi_repo = sv_platform_repo s, pi_namespaces = [], pi_error = ''''\<rparr>"

definition projectsFor :: "(string \<Rightarrow> string) \<Rightarrow> moments \<Rightarrow> identity \<Rightarrow> server \<Rightarrow> (api_error + project_info list) \<times> server" where
  "projectsFor tkey ms i s =
     (case visibleFor tkey ms i s of
        (Inl e, s') \<Rightarrow> (Inl e, s')
      | (Inr names, s') \<Rightarrow> (Inr (Resolve (sv_resolver s') (sv_namespaces s') (Some (\<lambda>n. n \<in> set names))), s'))"

definition AllProjects :: "server \<Rightarrow> project_info list" where
  "AllProjects s = Resolve (sv_resolver s) (sv_namespaces s) None"

definition findProject :: "project_info list \<Rightarrow> string \<Rightarrow> project_info option" where
  "findProject ps name = find (\<lambda>p. pi_name p = name) ps"

definition projectByName :: "server \<Rightarrow> string \<Rightarrow> project_info option" where
  "projectByName s name = findProject (AllProjects s) name"

type_synonym picker = "project_info list \<Rightarrow> string + project_info"

definition byNamespace :: "string \<Rightarrow> picker" where
  "byNamespace ns projects =
     (case find (\<lambda>p. ns \<in> set (pi_namespaces p)) projects of
        Some p \<Rightarrow> Inr p
      | None \<Rightarrow> Inl ''namespace is in none of the visible projects'')"

definition byName :: "string \<Rightarrow> picker" where
  "byName want projects =
     (case findProject projects want of Some p \<Rightarrow> Inr p | None \<Rightarrow> Inl ''no visible project by that name'')"

definition pickOrFail :: "picker \<Rightarrow> project_info list \<Rightarrow> api_error + project_info" where
  "pickOrFail pick projects = (case pick projects of Inl msg \<Rightarrow> Inl (ErrNotFound msg) | Inr p \<Rightarrow> Inr p)"

record scope =
  sc_id :: identity
  sc_proj :: project_info
  sc_platform :: bool

definition no_project :: project_info where
  "no_project = \<lparr>pi_name = '''', pi_repo = '''', pi_namespaces = [], pi_error = ''''\<rparr>"

text \<open>The request's identity, when the middleware injected one.\<close>

definition userCluster :: "moments \<Rightarrow> identity option \<Rightarrow> server \<Rightarrow> (api_error + identity) \<times> server" where
  "userCluster ms who s0 =
     (case who of
        None \<Rightarrow> (Inl unavailable, s0)
      | Some i \<Rightarrow>
          (if \<not> sv_configured s0 then (Inl unavailable, s0)
           else (let (m, s) = next_moment ms s0 in
                 if mo_client m (id_token i) then (Inr i, s) else (Inl unavailable, s))))"

definition callerProjects :: "(string \<Rightarrow> string) \<Rightarrow> moments \<Rightarrow> identity option \<Rightarrow> server \<Rightarrow>
    (api_error + scope \<times> project_info list) \<times> server" where
  "callerProjects tkey ms who s =
     (case userCluster ms who s of
        (Inl e, s1) \<Rightarrow> (Inl e, s1)
      | (Inr i, s1) \<Rightarrow>
          (case projectsFor tkey ms i s1 of
             (Inl e, s2) \<Rightarrow> (Inl e, s2)
           | (Inr ps, s2) \<Rightarrow> (Inr (\<lparr>sc_id = i, sc_proj = no_project, sc_platform = False\<rparr>, ps), s2)))"

definition resolveProject :: "(string \<Rightarrow> string) \<Rightarrow> moments \<Rightarrow> identity option \<Rightarrow> picker \<Rightarrow> server \<Rightarrow> (api_error + scope) \<times> server" where
  "resolveProject tkey ms who pick s =
     (case callerProjects tkey ms who s of
        (Inl e, s1) \<Rightarrow> (Inl e, s1)
      | (Inr (sc, ps), s1) \<Rightarrow>
          (case pickOrFail pick ps of Inl e \<Rightarrow> (Inl e, s1) | Inr p \<Rightarrow> (Inr (sc\<lparr>sc_proj := p\<rparr>), s1)))"

definition vmScope :: "(string \<Rightarrow> string) \<Rightarrow> moments \<Rightarrow> identity option \<Rightarrow> string \<Rightarrow> server \<Rightarrow> (api_error + scope) \<times> server" where
  "vmScope tkey ms who ns s = resolveProject tkey ms who (byNamespace ns) s"

text \<open>\<open>containerScope\<close>: the query's project and namespace, empty when absent.\<close>

definition containerScope :: "(string \<Rightarrow> string) \<Rightarrow> moments \<Rightarrow> identity option \<Rightarrow> string \<Rightarrow> string \<Rightarrow> server \<Rightarrow>
    (api_error + scope \<times> string list) \<times> server" where
  "containerScope tkey ms who project ns s =
     (case callerProjects tkey ms who s of
        (Inl e, s1) \<Rightarrow> (Inl e, s1)
      | (Inr (sc0, ps0), s1) \<Rightarrow>
          (case (if project \<noteq> '''' then
                   (case pickOrFail (byName project) ps0 of
                      Inl e \<Rightarrow> Inl e | Inr p \<Rightarrow> Inr (sc0\<lparr>sc_proj := p\<rparr>, [p]))
                 else Inr (sc0, ps0)) of
             Inl e \<Rightarrow> (Inl e, s1)
           | Inr (sc, ps) \<Rightarrow>
               (if ns \<noteq> '''' then
                  (case pickOrFail (byNamespace ns) ps of
                     Inl e \<Rightarrow> (Inl e, s1)
                   | Inr p \<Rightarrow> (Inr (sc\<lparr>sc_proj := p\<rparr>, if pi_repo p = '''' then [] else [ns]), s1))
                else (Inr (sc, concat (map pi_namespaces (filter (\<lambda>p. pi_repo p \<noteq> '''') ps))), s1))))"

text \<open>\<open>saCached\<close>: a catalog route. The gate first, then one read made with dotvirt's own rights (\<open>fetch\<close>,
  none when no such client can be built) shared by everyone under the key \<open>all\<close>.\<close>

definition saCached :: "moments \<Rightarrow> identity option \<Rightarrow> (moment \<Rightarrow> (api_error + 'v) option) \<Rightarrow> 'v cache \<Rightarrow> server \<Rightarrow>
    (api_error + identity \<times> 'v) \<times> 'v cache \<times> server" where
  "saCached ms who fetch ca s =
     (case userCluster ms who s of
        (Inl e, s1) \<Rightarrow> (Inl e, ca, s1)
      | (Inr i, s1) \<Rightarrow>
          (let (m, s2) = next_moment ms s1 in
           case cache_get (mo_now m) ca ''all'' of
             Some v \<Rightarrow> (Inr (i, v), ca, s2)
           | None \<Rightarrow>
               (case fetch m of
                  None \<Rightarrow> (Inl unavailable, ca, s2)
                | Some (Inl e) \<Rightarrow> (Inl e, ca, s2)
                | Some (Inr v) \<Rightarrow> (Inr (i, v), cache_put (mo_put m) ca ''all'' v, s2))))"

section \<open>The platform tier\<close>

definition ssarCUDN :: ssar_ref where "ssarCUDN = ssarFor KindCUDN"
definition ssarUplink :: ssar_ref where "ssarUplink = ssarFor KindNNCP"
definition ssarNamespace :: ssar_ref where "ssarNamespace = ssarFor KindNS"
definition ssarEgressIP :: ssar_ref where "ssarEgressIP = ssarFor KindEgressIP"
definition ssarExtRoute :: ssar_ref where "ssarExtRoute = ssarFor KindExtRoute"
definition ssarANP :: ssar_ref where "ssarANP = ssarFor KindANP"
definition ssarBANP :: ssar_ref where "ssarBANP = ssarFor KindBANP"
definition ssarDescheduler :: ssar_ref where "ssarDescheduler = ssarFor KindDesched"
definition ssarMachineCfg :: ssar_ref where "ssarMachineCfg = ssarFor KindMachCfg"
definition ssarVMTemplate :: ssar_ref where "ssarVMTemplate = ssarFor KindTemplate"

definition platformAuthorResources :: "ssar_ref list" where
  "platformAuthorResources = [ssarCUDN, ssarDescheduler, ssarVMTemplate]"

fun can_create_any :: "(string \<Rightarrow> string) \<Rightarrow> moments \<Rightarrow> identity \<Rightarrow> ssar_ref list \<Rightarrow> server \<Rightarrow> bool \<times> server" where
  "can_create_any tkey ms i [] s = (False, s)"
| "can_create_any tkey ms i (r # rs) s =
     (case canCreateCached tkey ms i r s of
        (ok, s') \<Rightarrow> if ok then (True, s') else can_create_any tkey ms i rs s')"

definition canAuthorPlatform :: "(string \<Rightarrow> string) \<Rightarrow> moments \<Rightarrow> identity \<Rightarrow> server \<Rightarrow> bool \<times> server" where
  "canAuthorPlatform tkey ms i s =
     (if sv_platform_repo s = '''' then (False, s) else can_create_any tkey ms i platformAuthorResources s)"

definition platformScopeWith :: "moments \<Rightarrow> identity option \<Rightarrow> (identity \<Rightarrow> server \<Rightarrow> bool \<times> server) \<Rightarrow> string \<Rightarrow> server \<Rightarrow>
    (api_error + scope) \<times> server" where
  "platformScopeWith ms who authorized deny s =
     (case userCluster ms who s of
        (Inl e, s1) \<Rightarrow> (Inl e, s1)
      | (Inr i, s1) \<Rightarrow>
          (if sv_platform_repo s1 = '''' then (Inl (ErrUnavailable ''platform repo not configured (set -platform-repo)''), s1)
           else
             (case authorized i s1 of
                (ok, s2) \<Rightarrow>
                  if \<not> ok then (Inl (ErrForbidden deny), s2)
                  else (Inr \<lparr>sc_id = i, sc_proj = platformProject s2, sc_platform = True\<rparr>, s2))))"

definition platformScope :: "(string \<Rightarrow> string) \<Rightarrow> moments \<Rightarrow> identity option \<Rightarrow> ssar_ref \<Rightarrow> server \<Rightarrow> (api_error + scope) \<times> server" where
  "platformScope tkey ms who ref s =
     platformScopeWith ms who (\<lambda>i. canCreateCached tkey ms i ref) (''not authorized to create '' @ sf_resource ref) s"

definition platformScopeAny :: "(string \<Rightarrow> string) \<Rightarrow> moments \<Rightarrow> identity option \<Rightarrow> server \<Rightarrow> (api_error + scope) \<times> server" where
  "platformScopeAny tkey ms who s =
     platformScopeWith ms who (canAuthorPlatform tkey ms) ''not authorized to author platform changes'' s"

definition pickProject :: "(string \<Rightarrow> string) \<Rightarrow> moments \<Rightarrow> identity option \<Rightarrow> string \<Rightarrow> server \<Rightarrow> (api_error + scope) \<times> server" where
  "pickProject tkey ms who want s =
     (if want = PlatformName then platformScopeAny tkey ms who s
      else resolveProject tkey ms who (byName want) s)"

definition draftScope :: "(string \<Rightarrow> string) \<Rightarrow> moments \<Rightarrow> identity option \<Rightarrow> string \<Rightarrow> server \<Rightarrow> (api_error + scope) \<times> server" where
  "draftScope tkey ms who want s =
     (if want = '''' then (Inl (ErrInvalid ''project query parameter is required''), s) else pickProject tkey ms who want s)"

end
