(* ===== verification/Git_Repset.thy ===== *)
theory Git_Repset
  imports Forge_Url
begin

text \<open>
  \<open>internal/git/repset.go\<close> and \<open>memo.go\<close>: the clones of the projects' repositories, one per canonical URL, opened on first use by
  whichever request comes first, polled while in use; and the views memoized per branch head. What one hold of the lock does is one
  function; a request is a thread that goes through them, and the steps of all threads, polls and webhooks interleave. What an open
  answers is up to the environment.
\<close>

section \<open>The set\<close>

text \<open>A pair is the mirror and the push clone of one open, told apart by \<open>pr_id\<close> (its pointer).\<close>

record repo_pair =
  pr_id :: nat
  pr_key :: string
  pr_url :: string
  pr_used :: int

text \<open>Channels of opens under way are numbered; one that no key has any more is closed.\<close>

record repo_set =
  rs_cache :: "string \<rightharpoonup> repo_pair"
  rs_failed :: "string \<rightharpoonup> (string \<times> int)"
  rs_opening :: "string \<rightharpoonup> nat"
  rs_next :: nat

definition openBackoff :: int where "openBackoff = 30"

definition idleTimeout :: int where "idleTimeout = 3600"

definition NewRepoSet :: repo_set where
  "NewRepoSet = \<lparr>rs_cache = Map.empty, rs_failed = Map.empty, rs_opening = Map.empty, rs_next = 0\<rparr>"

section \<open>One hold of the lock\<close>

datatype get_answer = Hit repo_pair | Refused string | Wait nat | MustOpen nat

definition recent_failure :: "int \<Rightarrow> repo_set \<Rightarrow> string \<Rightarrow> string option" where
  "recent_failure now s key = (case rs_failed s key of Some (err, until) \<Rightarrow> if now < until then Some err else None | None \<Rightarrow> None)"

definition get_enter :: "int \<Rightarrow> string \<Rightarrow> repo_set \<Rightarrow> get_answer \<times> repo_set" where
  "get_enter now url s =
     (let key = NormalizeRepoURL url in
      case rs_cache s key of
        Some p \<Rightarrow> (let p' = p\<lparr>pr_used := now\<rparr> in (Hit p', s\<lparr>rs_cache := (rs_cache s)(key \<mapsto> p')\<rparr>))
      | None \<Rightarrow>
          (case recent_failure now s key of
             Some err \<Rightarrow> (Refused err, s)
           | None \<Rightarrow>
               (case rs_opening s key of
                  Some ch \<Rightarrow> (Wait ch, s)
                | None \<Rightarrow> (MustOpen (rs_next s), s\<lparr>rs_opening := (rs_opening s)(key \<mapsto> rs_next s), rs_next := Suc (rs_next s)\<rparr>))))"

text \<open>The end of an open: its error, or \<open>None\<close>.\<close>

definition get_finish :: "int \<Rightarrow> string \<Rightarrow> string option \<Rightarrow> repo_set \<Rightarrow> (string + repo_pair) \<times> repo_set" where
  "get_finish now url failure s =
     (let key = NormalizeRepoURL url; s1 = s\<lparr>rs_opening := (rs_opening s)(key := None)\<rparr> in
      case failure of
        Some err \<Rightarrow> (Inl err, s1\<lparr>rs_failed := (rs_failed s)(key \<mapsto> (err, now + openBackoff))\<rparr>)
      | None \<Rightarrow>
          (let p = \<lparr>pr_id = rs_next s, pr_key = key, pr_url = url, pr_used = now\<rparr> in
           (Inr p, s1\<lparr>rs_failed := (rs_failed s)(key := None), rs_cache := (rs_cache s)(key \<mapsto> p), rs_next := Suc (rs_next s)\<rparr>)))"

definition RepoCreated :: "string \<Rightarrow> repo_set \<Rightarrow> repo_set" where
  "RepoCreated url s = s\<lparr>rs_failed := (rs_failed s)(NormalizeRepoURL url := None)\<rparr>"

text \<open>\<open>Poke\<close>: the pair to poll at once, when there is one.\<close>

definition Poke :: "string \<Rightarrow> repo_set \<Rightarrow> repo_pair option \<times> repo_set" where
  "Poke url s = (rs_cache s (NormalizeRepoURL url), s\<lparr>rs_failed := (rs_failed s)(NormalizeRepoURL url := None)\<rparr>)"

definition pair_idle :: "int \<Rightarrow> repo_pair \<Rightarrow> bool" where
  "pair_idle now p = (now - pr_used p > idleTimeout)"

definition evict_pair :: "string \<Rightarrow> nat \<Rightarrow> repo_set \<Rightarrow> repo_set" where
  "evict_pair key i s =
     (case rs_cache s key of
        Some q \<Rightarrow> if pr_id q = i then s\<lparr>rs_cache := (rs_cache s)(key := None)\<rparr> else s
      | None \<Rightarrow> s)"

section \<open>One poll\<close>

text \<open>What a fetch answers: the heads' signature, that the repository is gone, or another failure.\<close>

datatype fetch = Heads string | RepoGone | FetchFailed string

text \<open>Whether to drop the pair, whether its heads moved, and the last signature published.\<close>

definition poll_check :: "fetch \<Rightarrow> string \<Rightarrow> bool \<times> bool \<times> string" where
  "poll_check f last_sig =
     (case f of
        RepoGone \<Rightarrow> (True, False, last_sig)
      | FetchFailed _ \<Rightarrow> (False, False, last_sig)
      | Heads sig \<Rightarrow> (False, sig \<noteq> last_sig, sig))"

section \<open>Every interleaving\<close>

datatype get_pc = Entering string | Waiting string nat | Opening string nat | Answered string "string + repo_pair"

text \<open>A poll: its pair's key, the last signature and whether it is about to drop its pair.\<close>

record poll_state =
  po_key :: string
  po_last :: string
  po_ending :: bool

record set_world =
  sw_now :: int
  sw_set :: repo_set
  sw_threads :: "nat \<rightharpoonup> get_pc"
  sw_polls :: "nat \<rightharpoonup> poll_state"
  sw_published :: "string list"

definition next_pc :: "string \<Rightarrow> get_answer \<Rightarrow> get_pc" where
  "next_pc url a = (case a of Hit p \<Rightarrow> Answered url (Inr p) | Refused e \<Rightarrow> Answered url (Inl e) | Wait ch \<Rightarrow> Waiting url ch | MustOpen ch \<Rightarrow> Opening url ch)"

definition new_poll :: "string \<Rightarrow> poll_state" where
  "new_poll key = \<lparr>po_key = key, po_last = '''', po_ending = False\<rparr>"

inductive set_step :: "set_world \<Rightarrow> set_world \<Rightarrow> bool" where
  Call: "sw_threads w t = None \<Longrightarrow> set_step w (w\<lparr>sw_threads := (sw_threads w)(t \<mapsto> Entering url)\<rparr>)"
| Enter: "sw_threads w t = Some (Entering url) \<Longrightarrow> get_enter (sw_now w) url (sw_set w) = (a, s') \<Longrightarrow>
    set_step w (w\<lparr>sw_set := s', sw_threads := (sw_threads w)(t \<mapsto> next_pc url a)\<rparr>)"
| Wake: "sw_threads w t = Some (Waiting url ch) \<Longrightarrow> ch \<notin> ran (rs_opening (sw_set w)) \<Longrightarrow>
    set_step w (w\<lparr>sw_threads := (sw_threads w)(t \<mapsto> Entering url)\<rparr>)"
| Opened: "sw_threads w t = Some (Opening url ch) \<Longrightarrow> get_finish (sw_now w) url None (sw_set w) = (Inr p, s') \<Longrightarrow>
    set_step w (w\<lparr>sw_set := s', sw_threads := (sw_threads w)(t \<mapsto> Answered url (Inr p)),
      sw_polls := (sw_polls w)(pr_id p \<mapsto> new_poll (pr_key p))\<rparr>)"
| OpenFails: "sw_threads w t = Some (Opening url ch) \<Longrightarrow> get_finish (sw_now w) url (Some err) (sw_set w) = (r, s') \<Longrightarrow>
    set_step w (w\<lparr>sw_set := s', sw_threads := (sw_threads w)(t \<mapsto> Answered url r)\<rparr>)"
| Clock: "d \<ge> 0 \<Longrightarrow> set_step w (w\<lparr>sw_now := sw_now w + d\<rparr>)"
| Made: "set_step w (w\<lparr>sw_set := RepoCreated url (sw_set w)\<rparr>)"
| Poked: "set_step w (w\<lparr>sw_set := snd (Poke url (sw_set w))\<rparr>)"
| PollIdle: "sw_polls w i = Some q \<Longrightarrow> \<not> po_ending q \<Longrightarrow> rs_cache (sw_set w) (po_key q) = Some p \<Longrightarrow> pr_id p = i \<Longrightarrow> pair_idle (sw_now w) p \<Longrightarrow>
    set_step w (w\<lparr>sw_polls := (sw_polls w)(i \<mapsto> q\<lparr>po_ending := True\<rparr>)\<rparr>)"
| PollFetch: "sw_polls w i = Some q \<Longrightarrow> \<not> po_ending q \<Longrightarrow> poll_check f (po_last q) = (gone, moved, sig) \<Longrightarrow>
    set_step w (w\<lparr>sw_polls := (sw_polls w)(i \<mapsto> q\<lparr>po_last := sig, po_ending := gone\<rparr>),
      sw_published := (if moved then po_key q # sw_published w else sw_published w)\<rparr>)"
| PollEnds: "sw_polls w i = Some q \<Longrightarrow> po_ending q \<Longrightarrow>
    set_step w (w\<lparr>sw_set := evict_pair (po_key q) i (sw_set w), sw_polls := (sw_polls w)(i := None)\<rparr>)"

definition set_start :: "int \<Rightarrow> set_world" where
  "set_start now = \<lparr>sw_now = now, sw_set = NewRepoSet, sw_threads = Map.empty, sw_polls = Map.empty, sw_published = []\<rparr>"

inductive set_reach :: "set_world \<Rightarrow> bool" where
  Start: "set_reach (set_start now)"
| Step: "set_reach w \<Longrightarrow> set_step w w' \<Longrightarrow> set_reach w'"

section \<open>One clone per repository\<close>

definition owns :: "set_world \<Rightarrow> nat \<Rightarrow> string \<Rightarrow> nat \<Rightarrow> bool" where
  "owns w t key ch = (\<exists>url. sw_threads w t = Some (Opening url ch) \<and> NormalizeRepoURL url = key)"

definition opens_ok :: "set_world \<Rightarrow> bool" where
  "opens_ok w =
     ((\<forall>key ch. rs_opening (sw_set w) key = Some ch \<longrightarrow> rs_cache (sw_set w) key = None \<and> ch < rs_next (sw_set w) \<and> (\<exists>t. owns w t key ch)) \<and>
      (\<forall>t key ch. owns w t key ch \<longrightarrow> rs_opening (sw_set w) key = Some ch) \<and>
      (\<forall>t t' key ch ch'. owns w t key ch \<longrightarrow> owns w t' key ch' \<longrightarrow> t = t') \<and>
      (\<forall>t url ch. sw_threads w t = Some (Waiting url ch) \<longrightarrow> ch < rs_next (sw_set w)))"

definition polls_ok :: "set_world \<Rightarrow> bool" where
  "polls_ok w =
     ((\<forall>key p. rs_cache (sw_set w) key = Some p \<longrightarrow>
         pr_key p = key \<and> NormalizeRepoURL (pr_url p) = key \<and> pr_id p < rs_next (sw_set w) \<and> (\<exists>q. sw_polls w (pr_id p) = Some q \<and> po_key q = key)) \<and>
      (\<forall>i q. sw_polls w i = Some q \<longrightarrow> (\<exists>p. rs_cache (sw_set w) (po_key q) = Some p \<and> pr_id p = i)))"

definition answers_ok :: "set_world \<Rightarrow> bool" where
  "answers_ok w = (\<forall>t url p. sw_threads w t = Some (Answered url (Inr p)) \<longrightarrow> NormalizeRepoURL (pr_url p) = NormalizeRepoURL url)"

lemma get_enter_cases:
  assumes "get_enter now url s = (a, s')"
  obtains (hit) p where "rs_cache s (NormalizeRepoURL url) = Some p" "a = Hit (p\<lparr>pr_used := now\<rparr>)"
      "s' = s\<lparr>rs_cache := (rs_cache s)(NormalizeRepoURL url \<mapsto> p\<lparr>pr_used := now\<rparr>)\<rparr>"
    | (refused) e where "a = Refused e" "s' = s"
    | (wait) ch where "rs_opening s (NormalizeRepoURL url) = Some ch" "a = Wait ch" "s' = s"
    | (opens) "rs_cache s (NormalizeRepoURL url) = None" "rs_opening s (NormalizeRepoURL url) = None" "a = MustOpen (rs_next s)"
      "s' = s\<lparr>rs_opening := (rs_opening s)(NormalizeRepoURL url \<mapsto> rs_next s), rs_next := Suc (rs_next s)\<rparr>"
proof (cases "rs_cache s (NormalizeRepoURL url)")
  case (Some p)
  then show ?thesis using assms by (intro hit[of p]) (simp_all add: get_enter_def Let_def)
next
  case None
  note cache = this
  show ?thesis
  proof (cases "recent_failure now s (NormalizeRepoURL url)")
    case (Some e)
    then show ?thesis using assms cache by (intro refused[of e]) (simp_all add: get_enter_def Let_def)
  next
    case None
    show ?thesis
    proof (cases "rs_opening s (NormalizeRepoURL url)")
      case (Some ch)
      then show ?thesis using assms cache None by (intro wait[of ch]) (simp_all add: get_enter_def Let_def)
    next
      case closed: None
      then show ?thesis using assms cache None by (intro opens) (simp_all add: get_enter_def Let_def)
    qed
  qed
qed

lemma owns_update:
  "owns (w\<lparr>sw_set := s, sw_threads := (sw_threads w)(t \<mapsto> pc)\<rparr>) t' key ch =
     (if t' = t then \<exists>url. pc = Opening url ch \<and> NormalizeRepoURL url = key else owns w t' key ch)"
  by (auto simp: owns_def)

text \<open>A step that changes no open under way, and fills no cache entry.\<close>

lemma frame_opens:
  assumes "opens_ok w" "owns w' = owns w" "\<forall>key. rs_cache (sw_set w) key = None \<longrightarrow> rs_cache (sw_set w') key = None"
    "rs_opening (sw_set w') = rs_opening (sw_set w)" "rs_next (sw_set w') = rs_next (sw_set w)"
    "\<forall>t url ch. sw_threads w' t = Some (Waiting url ch) \<longrightarrow> ch < rs_next (sw_set w)"
  shows "opens_ok w'"
  using assms unfolding opens_ok_def by simp

lemma owns_quiet:
  assumes "sw_threads w' = (sw_threads w)(t \<mapsto> pc)" "\<forall>url ch. sw_threads w t \<noteq> Some (Opening url ch)" "\<forall>url ch. pc \<noteq> Opening url ch"
  shows "owns w' = owns w"
  using assms by (auto simp: owns_def fun_eq_iff)

lemma owns_same: "sw_threads w' = sw_threads w \<Longrightarrow> owns w' = owns w"
  by (simp add: owns_def fun_eq_iff)

lemma waits_bounded: "opens_ok w \<Longrightarrow> sw_threads w t = Some (Waiting url ch) \<Longrightarrow> ch < rs_next (sw_set w)"
  unfolding opens_ok_def by blast

text \<open>The end of an open frees its key and touches no other.\<close>

lemma opens_freed:
  assumes "opens_ok w" "owns w t key ch" "\<forall>t' k c. owns w' t' k c \<longleftrightarrow> t' \<noteq> t \<and> owns w t' k c"
    "rs_opening (sw_set w') = (rs_opening (sw_set w))(key := None)" "rs_next (sw_set w') \<ge> rs_next (sw_set w)"
    "\<forall>k. k \<noteq> key \<longrightarrow> rs_cache (sw_set w') k = rs_cache (sw_set w) k"
    "\<forall>t url ch. sw_threads w' t = Some (Waiting url ch) \<longrightarrow> sw_threads w t = Some (Waiting url ch)"
  shows "opens_ok w'"
proof -
  have only: "t' = t" if "owns w t' key c" for t' c using assms(1,2) that unfolding opens_ok_def by blast
  show ?thesis
    unfolding opens_ok_def
  proof (intro conjI allI impI)
    fix k c assume k: "rs_opening (sw_set w') k = Some c"
    then have "k \<noteq> key" "rs_opening (sw_set w) k = Some c" using assms(4) by (auto split: if_splits)
    then obtain t' where "owns w t' k c" "rs_cache (sw_set w) k = None" "c < rs_next (sw_set w)" using assms(1) unfolding opens_ok_def by blast
    moreover have "t' \<noteq> t" using \<open>k \<noteq> key\<close> assms(2) \<open>owns w t' k c\<close> by (auto simp: owns_def)
    ultimately show "rs_cache (sw_set w') k = None" "c < rs_next (sw_set w')" "\<exists>t. owns w' t k c" using assms(3,5,6) \<open>k \<noteq> key\<close> by auto
  next
    fix t' k c assume "owns w' t' k c"
    then have o: "t' \<noteq> t" "owns w t' k c" using assms(3) by auto
    then have "k \<noteq> key" using only by blast
    then show "rs_opening (sw_set w') k = Some c" using assms(1,4) o unfolding opens_ok_def by simp
  next
    fix t1 t2 k c1 c2 assume "owns w' t1 k c1" "owns w' t2 k c2"
    then show "t1 = t2" using assms(1,3) unfolding opens_ok_def by blast
  next
    fix t1 url c assume "sw_threads w' t1 = Some (Waiting url c)"
    then have "c < rs_next (sw_set w)" using assms(7) waits_bounded[OF assms(1)] by blast
    then show "c < rs_next (sw_set w')" using assms(5) by simp
  qed
qed

lemma get_finish_cases:
  "get_finish now url None s = (Inr p, s') \<Longrightarrow>
     p = \<lparr>pr_id = rs_next s, pr_key = NormalizeRepoURL url, pr_url = url, pr_used = now\<rparr> \<and>
     rs_opening s' = (rs_opening s)(NormalizeRepoURL url := None) \<and> rs_cache s' = (rs_cache s)(NormalizeRepoURL url \<mapsto> p) \<and> rs_next s' = Suc (rs_next s)"
  "get_finish now url (Some err) s = (r, s') \<Longrightarrow>
     r = Inl err \<and> rs_opening s' = (rs_opening s)(NormalizeRepoURL url := None) \<and> rs_cache s' = rs_cache s \<and> rs_next s' = rs_next s"
  by (auto simp: get_finish_def Let_def)

lemma evict_sel:
  "rs_opening (evict_pair key i s) = rs_opening s" "rs_next (evict_pair key i s) = rs_next s"
  "rs_cache (evict_pair key i s) k = (if k = key \<and> (\<exists>p. rs_cache s key = Some p \<and> pr_id p = i) then None else rs_cache s k)"
  by (auto simp: evict_pair_def split: option.splits)

lemma opens_step:
  assumes "set_step w w'" "opens_ok w"
  shows "opens_ok w'"
  using assms(1)
proof cases
  case (Call t url)
  then show ?thesis using waits_bounded[OF assms(2)] by (intro frame_opens[OF assms(2) owns_quiet[of _ _ t "Entering url"]]) auto
next
  case (Wake t url ch)
  then show ?thesis using waits_bounded[OF assms(2)] by (intro frame_opens[OF assms(2) owns_quiet[of _ _ t "Entering url"]]) auto
next
  case (Enter t url a s')
  from Enter(3) show ?thesis
  proof (cases rule: get_enter_cases)
    case opens
    let ?key = "NormalizeRepoURL url"
    have o: "owns w' t' k c \<longleftrightarrow> (if t' = t then k = ?key \<and> c = rs_next (sw_set w) else owns w t' k c)" for t' k c
      using Enter(1) opens(3) by (auto simp: owns_update next_pc_def)
    have free: "\<not> owns w t' ?key c" for t' c using assms(2) opens(2) unfolding opens_ok_def by force
    have no: "\<not> owns w t k c" for k c using Enter(2) by (simp add: owns_def)
    have one: "t1 = t2" if "owns w t1 k c1" "owns w t2 k c2" for t1 t2 k c1 c2
      using assms(2) that unfolding opens_ok_def by blast
    have wb: "ch < rs_next (sw_set w)" if "sw_threads w' t' = Some (Waiting u ch)" for t' u ch
      using that waits_bounded[OF assms(2)] Enter(1) opens(3) by (auto simp: next_pc_def split: if_splits)
    have s: "rs_cache (sw_set w') = rs_cache (sw_set w)" "rs_opening (sw_set w') = (rs_opening (sw_set w))(?key \<mapsto> rs_next (sw_set w))"
      "rs_next (sw_set w') = Suc (rs_next (sw_set w))" using Enter(1) opens(4) by simp_all
    show ?thesis
      unfolding opens_ok_def s o
    proof (intro conjI allI impI)
      fix k ch assume k: "((rs_opening (sw_set w))(?key \<mapsto> rs_next (sw_set w))) k = Some ch"
      show "rs_cache (sw_set w) k = None" "ch < Suc (rs_next (sw_set w))" "\<exists>t'. if t' = t then k = ?key \<and> ch = rs_next (sw_set w) else owns w t' k ch"
        using k opens(1) assms(2) no unfolding opens_ok_def by (auto split: if_splits intro: less_SucI) metis+
    next
      fix t' k ch assume "if t' = t then k = ?key \<and> ch = rs_next (sw_set w) else owns w t' k ch"
      then show "((rs_opening (sw_set w))(?key \<mapsto> rs_next (sw_set w))) k = Some ch"
        using assms(2) free unfolding opens_ok_def by (auto split: if_splits)
    next
      fix t1 t2 k c1 c2
      assume "if t1 = t then k = ?key \<and> c1 = rs_next (sw_set w) else owns w t1 k c1" "if t2 = t then k = ?key \<and> c2 = rs_next (sw_set w) else owns w t2 k c2"
      then show "t1 = t2" using one free by (auto split: if_splits)
    next
      fix t1 u ch assume "sw_threads w' t1 = Some (Waiting u ch)"
      then show "ch < Suc (rs_next (sw_set w))" using wb by (auto intro: less_SucI)
    qed
  next
    case (wait ch)
    have "ch < rs_next (sw_set w)" using assms(2) wait(1) unfolding opens_ok_def by blast
    then show ?thesis using Enter(1,2) wait waits_bounded[OF assms(2)]
      by (intro frame_opens[OF assms(2) owns_quiet[of _ _ t "Waiting url ch"]]) (auto simp: next_pc_def)
  qed (use Enter(1,2) waits_bounded[OF assms(2)] in
      \<open>auto simp: next_pc_def intro!: frame_opens[OF assms(2) owns_quiet[of _ _ t]] split: if_splits\<close>)
next
  case (Opened t url ch p s')
  have o: "owns w t (NormalizeRepoURL url) ch" using Opened(2) by (auto simp: owns_def)
  show ?thesis
    using Opened(1,2) get_finish_cases(1)[OF Opened(3)] by (intro opens_freed[OF assms(2) o]) (auto simp: owns_def)
next
  case (OpenFails t url ch err r s')
  have o: "owns w t (NormalizeRepoURL url) ch" using OpenFails(2) by (auto simp: owns_def)
  show ?thesis
    using OpenFails(1,2) get_finish_cases(2)[OF OpenFails(3)] by (intro opens_freed[OF assms(2) o]) (auto simp: owns_def)
qed (use waits_bounded[OF assms(2)] in \<open>auto simp: RepoCreated_def Poke_def evict_sel intro!: frame_opens[OF assms(2) owns_same]\<close>)

lemma polls_keyed:
  assumes "polls_ok w" "sw_set w' = sw_set w" "\<forall>i. map_option po_key (sw_polls w' i) = map_option po_key (sw_polls w i)"
  shows "polls_ok w'"
proof -
  have key: "(\<exists>q. sw_polls w' i = Some q \<and> po_key q = k) \<longleftrightarrow> (\<exists>q. sw_polls w i = Some q \<and> po_key q = k)" for i k
    using assms(3)[rule_format, of i] by (cases "sw_polls w i"; cases "sw_polls w' i") auto
  have "(\<exists>p. rs_cache (sw_set w) (po_key q) = Some p \<and> pr_id p = i)" if "sw_polls w' i = Some q" for i q
    using key[of i "po_key q"] that assms(1) unfolding polls_ok_def by metis
  then show ?thesis using assms(1,2) key unfolding polls_ok_def by simp
qed

lemma polls_step:
  assumes "set_step w w'" "opens_ok w" "polls_ok w"
  shows "polls_ok w'"
  using assms(1)
proof cases
  case (Enter t url a s')
  from Enter(3) show ?thesis
  proof (cases rule: get_enter_cases)
    case (hit p)
    let ?key = "NormalizeRepoURL url"
    have p: "\<exists>q. sw_polls w (pr_id p) = Some q \<and> po_key q = ?key" "pr_key p = ?key" "NormalizeRepoURL (pr_url p) = ?key" "pr_id p < rs_next (sw_set w)"
      using assms(3) hit(1) unfolding polls_ok_def by blast+
    have "pr_id p = i" if "sw_polls w i = Some q" "po_key q = ?key" for i q
      using assms(3) hit(1) that unfolding polls_ok_def by (metis option.inject)
    then show ?thesis using Enter(1) hit assms(3) p by (auto simp: polls_ok_def)
  qed (use Enter(1) assms(3) in \<open>auto simp: polls_ok_def less_Suc_eq\<close>)
next
  case (Opened t url ch p s')
  let ?key = "NormalizeRepoURL url"
  note f = get_finish_cases(1)[OF Opened(3)]
  have "owns w t ?key ch" using Opened(2) by (auto simp: owns_def)
  then have empty: "rs_cache (sw_set w) ?key = None" using assms(2) unfolding opens_ok_def by blast
  have new: "sw_polls w (rs_next (sw_set w)) = None"
  proof (cases "sw_polls w (rs_next (sw_set w))")
    case (Some q)
    then obtain p' where "rs_cache (sw_set w) (po_key q) = Some p'" "pr_id p' = rs_next (sw_set w)" using assms(3) unfolding polls_ok_def by blast
    then show ?thesis using assms(3) unfolding polls_ok_def by fastforce
  qed simp
  have old: "pr_key p' = key" "NormalizeRepoURL (pr_url p') = key" "pr_id p' < rs_next (sw_set w)" "pr_id p' \<noteq> rs_next (sw_set w)"
    "\<exists>q. sw_polls w (pr_id p') = Some q \<and> po_key q = key" if "rs_cache (sw_set w) key = Some p'" for key p'
    using assms(3) that unfolding polls_ok_def by (blast, blast, blast, fastforce, blast)
  show ?thesis
    unfolding polls_ok_def
  proof (intro conjI allI impI)
    fix key p'
    assume "rs_cache (sw_set w') key = Some p'"
    then have "key = ?key \<and> p' = p \<or> key \<noteq> ?key \<and> rs_cache (sw_set w) key = Some p'" using f Opened(1) by (auto split: if_splits)
    then show "pr_key p' = key" "NormalizeRepoURL (pr_url p') = key" "pr_id p' < rs_next (sw_set w')" "\<exists>q. sw_polls w' (pr_id p') = Some q \<and> po_key q = key"
      using f Opened(1) old by (auto simp: new_poll_def intro: less_SucI)
  next
    fix i q
    assume "sw_polls w' i = Some q"
    then have "i = pr_id p \<and> q = new_poll ?key \<or> i \<noteq> pr_id p \<and> sw_polls w i = Some q" using f Opened(1) by (auto split: if_splits)
    then show "\<exists>p'. rs_cache (sw_set w') (po_key q) = Some p' \<and> pr_id p' = i"
      using f Opened(1) assms(3) empty unfolding polls_ok_def by (auto simp: new_poll_def) (metis option.distinct(1))
  qed
next
  case (OpenFails t url ch err r s')
  then show ?thesis using get_finish_cases(2)[OF OpenFails(3)] assms(3) by (simp add: polls_ok_def)
next
  case (PollIdle i q p)
  then show ?thesis by (intro polls_keyed[OF assms(3)]) auto
next
  case (PollFetch i q f gone moved sig)
  then show ?thesis by (intro polls_keyed[OF assms(3)]) auto
next
  case (PollEnds i q)
  have one: "pr_id p = i \<longleftrightarrow> key = po_key q" if "rs_cache (sw_set w) key = Some p" for key p
    using assms(3) PollEnds(2) that unfolding polls_ok_def by (metis option.inject)
  then show ?thesis using assms(3) PollEnds unfolding polls_ok_def by (auto simp: evict_sel) metis+
qed (use assms(3) in \<open>auto simp: polls_ok_def RepoCreated_def Poke_def\<close>)

lemma answers_step:
  assumes "set_step w w'" "polls_ok w" "answers_ok w"
  shows "answers_ok w'"
  using assms(1)
proof cases
  case (Enter t url a s')
  from Enter(3) show ?thesis
  proof (cases rule: get_enter_cases)
    case (hit p)
    then have "NormalizeRepoURL (pr_url p) = NormalizeRepoURL url" using assms(2) unfolding polls_ok_def by blast
    then show ?thesis using Enter(1) hit assms(3) by (auto simp: answers_ok_def next_pc_def)
  qed (use Enter(1) assms(3) in \<open>auto simp: answers_ok_def next_pc_def\<close>)
next
  case (Opened t url ch p s')
  then show ?thesis using get_finish_cases(1)[OF Opened(3)] assms(3) by (auto simp: answers_ok_def)
next
  case (OpenFails t url ch err r s')
  then show ?thesis using get_finish_cases(2)[OF OpenFails(3)] assms(3) by (auto simp: answers_ok_def)
qed (use assms(3) in \<open>auto simp: answers_ok_def\<close>)

lemma set_reach_ok: "set_reach w \<Longrightarrow> opens_ok w \<and> polls_ok w \<and> answers_ok w"
proof (induction rule: set_reach.induct)
  case (Start now)
  show ?case by (simp add: opens_ok_def polls_ok_def answers_ok_def set_start_def NewRepoSet_def owns_def)
qed (blast intro: opens_step polls_step answers_step)

text \<open>C24: Requests share one clone per repository, whatever the interleaving of requests, polls, webhooks and repository creations. At most one
  clone of a repository is under way, and none beside a cached one; every cached clone was opened from a URL of its repository and
  has its poll, and every poll its cached clone, so no clone goes stale unpolled and no poll outlives its clone; a request that waits
  has someone opening for it or may go on; and a request is answered with a clone of the repository it asked for.\<close>
theorem one_clone_per_repository:
  assumes "set_reach w"
  shows "(\<forall>t t' url url' ch ch'. sw_threads w t = Some (Opening url ch) \<and> sw_threads w t' = Some (Opening url' ch') \<and>
        NormalizeRepoURL url = NormalizeRepoURL url' \<longrightarrow> t = t' \<and> rs_cache (sw_set w) (NormalizeRepoURL url) = None) \<and>
    (\<forall>key p. rs_cache (sw_set w) key = Some p \<longrightarrow> NormalizeRepoURL (pr_url p) = key \<and> sw_polls w (pr_id p) \<noteq> None) \<and>
    (\<forall>i q. sw_polls w i = Some q \<longrightarrow> (\<exists>p. rs_cache (sw_set w) (po_key q) = Some p \<and> pr_id p = i)) \<and>
    (\<forall>t url ch. sw_threads w t = Some (Waiting url ch) \<longrightarrow>
        ch \<notin> ran (rs_opening (sw_set w)) \<or> (\<exists>t' url'. sw_threads w t' = Some (Opening url' ch))) \<and>
    (\<forall>t url p. sw_threads w t = Some (Answered url (Inr p)) \<longrightarrow> NormalizeRepoURL (pr_url p) = NormalizeRepoURL url)"
proof -
  note ok = set_reach_ok[OF assms, THEN conjunct1] set_reach_ok[OF assms, THEN conjunct2, THEN conjunct1] set_reach_ok[OF assms, THEN conjunct2, THEN conjunct2]
  have "t = t' \<and> rs_cache (sw_set w) (NormalizeRepoURL url) = None"
    if "sw_threads w t = Some (Opening url ch)" "sw_threads w t' = Some (Opening url' ch')" "NormalizeRepoURL url = NormalizeRepoURL url'" for t t' url url' ch ch'
  proof -
    have "owns w t (NormalizeRepoURL url) ch" "owns w t' (NormalizeRepoURL url) ch'" using that by (auto simp: owns_def)
    then show ?thesis using ok(1) unfolding opens_ok_def by blast
  qed
  moreover have "ch \<notin> ran (rs_opening (sw_set w)) \<or> (\<exists>t' url'. sw_threads w t' = Some (Opening url' ch))" for ch
    using ok(1) unfolding opens_ok_def owns_def by (auto simp: ran_def) blast
  ultimately show ?thesis using ok(2,3) unfolding polls_ok_def answers_ok_def by (intro conjI) blast+
qed

theorem one_clone_per_repository_witness:
  "\<exists>w p. set_reach w \<and> rs_cache (sw_set w) (NormalizeRepoURL ''https://f/o/r'') = Some p \<and>
     NormalizeRepoURL (pr_url p) = NormalizeRepoURL ''https://f/o/r'' \<and> sw_polls w (pr_id p) \<noteq> None"
proof -
  let ?u = "''https://f/o/r''" and ?s0 = "set_start 0"
  let ?s1 = "?s0\<lparr>sw_threads := [0 \<mapsto> Entering ?u]\<rparr>"
  have 1: "set_reach ?s1" using Step[OF Start Call[of ?s0 0 ?u]] by (simp add: set_start_def)
  obtain a s where e: "get_enter 0 ?u NewRepoSet = (a, s)" by fastforce
  then have a: "a = MustOpen 0" "rs_cache s = Map.empty" by (auto simp: get_enter_def recent_failure_def NewRepoSet_def)
  have 2: "set_reach (?s1\<lparr>sw_set := s, sw_threads := [0 \<mapsto> Opening ?u 0]\<rparr>)"
    using Step[OF 1 Enter[of ?s1 0 ?u a s]] e a(1) by (simp add: set_start_def next_pc_def)
  obtain p s' where f: "get_finish 0 ?u None s = (Inr p, s')" by (simp add: get_finish_def Let_def)
  then have c: "rs_cache s' (NormalizeRepoURL ?u) = Some p" using get_finish_cases(1)[OF f] by simp
  obtain w where w: "set_reach w" "sw_set w = s'"
    using Step[OF 2 Opened[of "?s1\<lparr>sw_set := s, sw_threads := [0 \<mapsto> Opening ?u 0]\<rparr>" 0 ?u 0 p s']] f by (simp add: set_start_def)
  from one_clone_per_repository[OF w(1)] c w show ?thesis by blast
qed

text \<open>An open that was under way when the repository was made may still fail for its absence: the failure is cached all the same.\<close>

lemma created_during_open:
  assumes "rs_cache s (NormalizeRepoURL url) = None"
  shows "fst (get_enter now url (snd (get_finish now url (Some e) (RepoCreated url s)))) = Refused e"
  using assms by (simp add: get_enter_def get_finish_def RepoCreated_def recent_failure_def openBackoff_def Let_def)

section \<open>Views memoized per head\<close>

type_synonym 'v memo = "string \<times> string \<rightharpoonup> string \<times> 'v"

text \<open>No hash, no memo.\<close>

definition memo_lookup :: "'v memo \<Rightarrow> string \<times> string \<Rightarrow> string \<Rightarrow> 'v option" where
  "memo_lookup tb key hash = (if hash = '''' then None else case tb key of Some (h, v) \<Rightarrow> if h = hash then Some v else None | None \<Rightarrow> None)"

definition memo_store :: "string \<times> string \<Rightarrow> string \<Rightarrow> 'v \<Rightarrow> 'v memo \<Rightarrow> 'v memo" where
  "memo_store key hash v tb = (if hash = '''' then tb else tb(key \<mapsto> (hash, v)))"

text \<open>The tables calls may leave by a time: a call reads the head, builds from a head not before it, and stores the value under the first.\<close>

inductive memo_reach :: "(nat \<Rightarrow> string) \<Rightarrow> (string \<times> string \<Rightarrow> string \<Rightarrow> 'e + 'v) \<Rightarrow> nat \<Rightarrow> 'v memo \<Rightarrow> bool"
  for head :: "nat \<Rightarrow> string" and view :: "string \<times> string \<Rightarrow> string \<Rightarrow> 'e + 'v" where
  Fresh: "memo_reach head view t Map.empty"
| Later: "memo_reach head view t tb \<Longrightarrow> memo_reach head view (Suc t) tb"
| Built: "memo_reach head view t tb \<Longrightarrow> t0 \<le> t1 \<Longrightarrow> t1 \<le> t \<Longrightarrow> view key (head t1) = Inr v \<Longrightarrow>
    memo_reach head view t (memo_store key (head t0) v tb)"

lemma memo_entries:
  "memo_reach head view t tb \<Longrightarrow> tb key = Some (h, v) \<Longrightarrow> \<exists>t0 t1. t0 \<le> t1 \<and> t1 \<le> t \<and> h = head t0 \<and> view key (head t1) = Inr v"
proof (induction rule: memo_reach.induct)
  case (Later t tb)
  then show ?case by (meson le_SucI)
next
  case (Built t tb t0 t1 key' v')
  then show ?case by (auto simp: memo_store_def split: if_splits)
qed simp

text \<open>A branch that never returns to an earlier head is served its own view; one that does may be served another's.\<close>

lemma memo_fresh:
  assumes "memo_reach head view t tb" "\<forall>i j k. i \<le> j \<longrightarrow> j \<le> k \<longrightarrow> head i = head k \<longrightarrow> head j = head i" "memo_lookup tb key (head t) = Some v"
  shows "view key (head t) = Inr v"
proof -
  have "tb key = Some (head t, v)" using assms(3) by (auto simp: memo_lookup_def split: if_splits option.splits prod.splits)
  from memo_entries[OF assms(1) this] obtain t0 t1 where "t0 \<le> t1" "t1 \<le> t" "head t0 = head t" "view key (head t1) = Inr v" by auto
  moreover from this have "head t1 = head t0" using assms(2) by blast
  ultimately show ?thesis by simp
qed

lemma memo_stale:
  "\<exists>head (view :: string \<times> string \<Rightarrow> string \<Rightarrow> unit + string) tb v.
     memo_reach head view 2 tb \<and> memo_lookup tb k (head 2) = Some v \<and> view k (head 2) \<noteq> Inr v"
proof -
  let ?head = "\<lambda>n::nat. if n = 1 then ''b'' else ''a''" and ?view = "\<lambda>_ h :: string. Inr h :: unit + string"
  have "memo_reach ?head ?view 2 (memo_store k (?head 0) ''b'' Map.empty)"
    by (rule Built[OF Fresh, of 0 1]) simp_all
  moreover have "memo_lookup (memo_store k (?head 0) ''b'' Map.empty) k (?head 2) = Some ''b''"
    by (simp add: memo_lookup_def memo_store_def)
  ultimately show ?thesis by (intro exI[of _ ?head] exI[of _ ?view] exI conjI) auto
qed

end
