(* ===== verification/Proposals_Lane.thy ===== *)
theory Proposals_Lane
  imports Changeset_History Api_Scope Tasks_Feed Git_Repset Ttlcache "HOL-Library.AList"
begin

text \<open>
  \<open>internal/api/proposals.go\<close>: the lane of open proposals, read from a cache and refreshed in the background. What one hold of the lock
  does is one function; the passes of the refresher, the inventories that track projects, nudges, head moves and the clock interleave. What the
  forge answers is up to the environment. The bus's version of a repository is a number that moves with its heads.
\<close>

section \<open>Who watches what\<close>

record prop_target =
  pt_projects :: "project_info list"
  pt_seen :: int

definition proposalsRefreshEvery :: int where "proposalsRefreshEvery = 60000000000"
definition proposalsTrackFor :: int where "proposalsTrackFor = 300000000000"
definition proposalsCacheTTL :: int where "proposalsCacheTTL = 300000000000"

text \<open>The refresher's state under the lock, the cache of lanes, and whether a nudge waits in its channel.\<close>

record lanes =
  la_targets :: "(string \<times> prop_target) list"
  la_dirty :: "string set"
  la_seen :: "string \<rightharpoonup> nat"
  la_cache :: "proposal list cache"
  la_nudged :: bool

definition new_lanes :: lanes where
  "new_lanes = \<lparr>la_targets = [], la_dirty = {}, la_seen = Map.empty, la_cache = cache_new proposalsCacheTTL, la_nudged = False\<rparr>"

definition trackProposals :: "int \<Rightarrow> string \<Rightarrow> project_info list \<Rightarrow> lanes \<Rightarrow> project_info list \<times> lanes" where
  "trackProposals now key ps s =
     (let ps' = (case map_of (la_targets s) key of
          Some prev \<Rightarrow> if findProject ps PlatformName = None then ps @ (case findProject (pt_projects prev) PlatformName of Some p \<Rightarrow> [p] | None \<Rightarrow> []) else ps
        | None \<Rightarrow> ps)
      in (ps', s\<lparr>la_targets := AList.update key \<lparr>pt_projects = ps', pt_seen = now\<rparr> (la_targets s)\<rparr>))"

definition trackProposalsProject :: "int \<Rightarrow> string \<Rightarrow> project_info \<Rightarrow> lanes \<Rightarrow> lanes" where
  "trackProposalsProject now key p s =
     (let ps = (case map_of (la_targets s) key of Some t \<Rightarrow> pt_projects t | None \<Rightarrow> []);
          ps' = (if findProject ps (pi_name p) = None then ps @ [p] else ps)
      in s\<lparr>la_targets := AList.update key \<lparr>pt_projects = ps', pt_seen = now\<rparr> (la_targets s)\<rparr>)"

text \<open>\<open>nudgeProposals\<close>: the mark under the lock, then the send, which coalesces.\<close>

definition mark_dirty :: "string \<Rightarrow> lanes \<Rightarrow> lanes" where
  "mark_dirty repo s = (if repo = '''' then s else s\<lparr>la_dirty := insert repo (la_dirty s)\<rparr>)"

definition send_nudge :: "lanes \<Rightarrow> lanes" where
  "send_nudge s = s\<lparr>la_nudged := True\<rparr>"

section \<open>Reading the lane\<close>

text \<open>The rows of the tracked projects, each marked as the caller's own or not, and whether some project had no lane.\<close>

definition lane_read :: "(string \<Rightarrow> string) \<Rightarrow> string \<Rightarrow> string \<Rightarrow> int \<Rightarrow> project_info list \<Rightarrow> lanes \<Rightarrow> (proposal \<times> bool) list option \<times> bool" where
  "lane_read sha prefix user now ps s =
     (let got = map (\<lambda>p. (pi_name p, cache_get now (la_cache s) (pi_name p))) ps;
          out = concat (map (\<lambda>(name, rows). case rows of None \<Rightarrow> []
            | Some rs \<Rightarrow> map (\<lambda>row. (row, OwnsProposal sha prefix user name (po_branch row))) rs) got);
          cold = list_ex (\<lambda>(name, rows). rows = None) got; hit = list_ex (\<lambda>(name, rows). rows \<noteq> None) got
      in (if \<not> hit \<and> cold then None else Some out, cold))"

definition proposalsFor :: "(string \<Rightarrow> string) \<Rightarrow> string \<Rightarrow> string \<Rightarrow> int \<Rightarrow> string \<Rightarrow> project_info list \<Rightarrow> lanes \<Rightarrow> (proposal \<times> bool) list option \<times> lanes" where
  "proposalsFor sha prefix user now key ps s =
     (let (tracked, s1) = trackProposals now key ps s; (out, cold) = lane_read sha prefix user now tracked s1
      in (out, if cold then send_nudge s1 else s1))"

text \<open>What a handler does once it has opened a proposal: track the project, mark its repository and send, poke the repository.\<close>

definition proposalOpened :: "int \<Rightarrow> string \<Rightarrow> project_info \<Rightarrow> lanes \<Rightarrow> repo_set \<Rightarrow> lanes \<times> repo_pair option \<times> repo_set" where
  "proposalOpened now key p s rs =
     (send_nudge (mark_dirty (NormalizeRepoURL (pi_repo p)) (trackProposalsProject now key p s)), Poke (pi_repo p) rs)"

section \<open>One pass\<close>

text \<open>What a pass holds: the watched projects not yet looked at, the repositories nudged, the versions read so far, the projects queried and
  whether a lane changed.\<close>

record lane_pass =
  ps_all :: bool
  ps_todo :: "project_info list"
  ps_dirty :: "string set"
  ps_versions :: "string \<rightharpoonup> nat"
  ps_due :: "project_info list"
  ps_changed :: bool

definition live_targets :: "int \<Rightarrow> lanes \<Rightarrow> (string \<times> prop_target) list" where
  "live_targets now s = filter (\<lambda>(k, t). \<not> now - pt_seen t > proposalsTrackFor) (la_targets s)"

definition target_projects :: "(string \<times> prop_target) list \<Rightarrow> project_info list" where
  "target_projects ts = concat (map (pt_projects \<circ> snd) ts)"

definition watched_projects :: "(string \<times> prop_target) list \<Rightarrow> (string \<times> project_info) list" where
  "watched_projects ts = fold (\<lambda>p. AList.update (pi_name p) p) (target_projects ts) []"

definition start_pass :: "int \<Rightarrow> bool \<Rightarrow> lanes \<Rightarrow> lane_pass \<times> lanes" where
  "start_pass now every s =
     (let ts = live_targets now s; ws = watched_projects ts in
      (\<lparr>ps_all = every, ps_todo = map snd ws, ps_dirty = la_dirty s, ps_versions = la_seen s |` set (map fst ws), ps_due = [], ps_changed = False\<rparr>,
       s\<lparr>la_targets := ts, la_dirty := {}\<rparr>))"

definition lane_due :: "int \<Rightarrow> nat \<Rightarrow> project_info \<Rightarrow> lane_pass \<Rightarrow> lanes \<Rightarrow> bool" where
  "lane_due now ver p w s =
     (ps_all w \<or> cache_get now (la_cache s) (pi_name p) = None \<or> ps_versions w (pi_name p) \<noteq> Some ver \<or> NormalizeRepoURL (pi_repo p) \<in> ps_dirty w)"

text \<open>The end of a query: the version read before it, the lane the cache held before it and the forge's answer.\<close>

definition lane_answer :: "int \<Rightarrow> nat \<Rightarrow> proposal list option \<Rightarrow> project_info \<Rightarrow> fault + proposal list \<Rightarrow> lane_pass \<Rightarrow> lanes \<Rightarrow> lane_pass \<times> lanes" where
  "lane_answer now ver prev p answer w s =
     (let w = w\<lparr>ps_due := ps_due w @ [p]\<rparr> in
      case answer of
        Inl _ \<Rightarrow> (w\<lparr>ps_versions := (ps_versions w)(pi_name p := None)\<rparr>, s)
      | Inr rows \<Rightarrow>
          (w\<lparr>ps_versions := (ps_versions w)(pi_name p \<mapsto> ver),
             ps_changed := (ps_changed w \<or> (case prev of Some old \<Rightarrow> old \<noteq> rows | None \<Rightarrow> rows \<noteq> []))\<rparr>,
           s\<lparr>la_cache := cache_put now (la_cache s) (pi_name p) rows\<rparr>))"

definition end_pass :: "lane_pass \<Rightarrow> lanes \<Rightarrow> lanes" where
  "end_pass w s = s\<lparr>la_seen := ps_versions w\<rparr>"

text \<open>The merged lane of the projects queried, a project for each repository, recorded in the feed; the order of the map is free. A failed lookup
  is skipped.\<close>

definition merged_repos :: "project_info list \<Rightarrow> (string \<times> project_info) list" where
  "merged_repos due = fold (\<lambda>p. AList.update (pi_repo p) p) (filter (\<lambda>p. pi_repo p \<noteq> '''') due) []"

definition refreshMerged :: "reader \<Rightarrow> int \<Rightarrow> project_info list \<Rightarrow> feed \<Rightarrow> feed" where
  "refreshMerged r now due feed =
     fold (\<lambda>(repo, p) feed. case RecentlyMerged r p (now - MergeRetention) of Inl _ \<Rightarrow> feed | Inr merges \<Rightarrow> fold (RecordMerge now) merges feed)
       (merged_repos due) feed"

section \<open>Every interleaving\<close>

datatype refresher = Resting | Woken bool | Looking lane_pass | Asking lane_pass project_info nat "proposal list option" nat

text \<open>Beside the state: the versions of the repositories, the sends still due, and for the record a count of notices, when each repository had its last
  one, and for each lane its last answer and when the query for it began.\<close>

record lane_world =
  lw_now :: int
  lw_lanes :: lanes
  lw_version :: "string \<Rightarrow> nat"
  lw_sends :: nat
  lw_pc :: refresher
  lw_notices :: nat
  lw_noticed :: "string \<Rightarrow> nat"
  lw_queried :: "string \<Rightarrow> nat"
  lw_answer :: "string \<Rightarrow> proposal list option"

inductive lane_step :: "(string \<Rightarrow> string) \<Rightarrow> lane_world \<Rightarrow> lane_world \<Rightarrow> bool" for repo_of :: "string \<Rightarrow> string" where
  Track: "\<forall>p \<in> set ps. NormalizeRepoURL (pi_repo p) = repo_of (pi_name p) \<Longrightarrow> snd (trackProposals (lw_now w) key ps (lw_lanes w)) = s \<Longrightarrow>
    lane_step repo_of w (w\<lparr>lw_lanes := s\<rparr>)"
| TrackOne: "NormalizeRepoURL (pi_repo p) = repo_of (pi_name p) \<Longrightarrow>
    lane_step repo_of w (w\<lparr>lw_lanes := trackProposalsProject (lw_now w) key p (lw_lanes w)\<rparr>)"
| Nudge: "repo \<noteq> '''' \<Longrightarrow>
    lane_step repo_of w (w\<lparr>lw_lanes := mark_dirty repo (lw_lanes w), lw_sends := Suc (lw_sends w), lw_notices := Suc (lw_notices w),
      lw_noticed := (lw_noticed w)(repo := Suc (lw_notices w))\<rparr>)"
| Send: "lw_sends w = Suc n \<Longrightarrow> lane_step repo_of w (w\<lparr>lw_lanes := send_nudge (lw_lanes w), lw_sends := n\<rparr>)"
| ColdNudge: "lane_step repo_of w (w\<lparr>lw_lanes := send_nudge (lw_lanes w)\<rparr>)"
| HeadsMove: "lane_step repo_of w (w\<lparr>lw_version := (lw_version w)(repo := Suc (lw_version w repo)), lw_notices := Suc (lw_notices w),
      lw_noticed := (lw_noticed w)(repo := Suc (lw_notices w))\<rparr>)"
| Clock: "d \<ge> 0 \<Longrightarrow> lane_step repo_of w (w\<lparr>lw_now := lw_now w + d\<rparr>)"
| WakeNudge: "lw_pc w = Resting \<Longrightarrow> la_nudged (lw_lanes w) \<Longrightarrow>
    lane_step repo_of w (w\<lparr>lw_lanes := (lw_lanes w)\<lparr>la_nudged := False\<rparr>, lw_pc := Woken False\<rparr>)"
| WakeOther: "lw_pc w = Resting \<Longrightarrow> lane_step repo_of w (w\<lparr>lw_pc := Woken every\<rparr>)"
| Begin: "lw_pc w = Woken every \<Longrightarrow> start_pass (lw_now w) every (lw_lanes w) = (ps, s) \<Longrightarrow> mset todo = mset (ps_todo ps) \<Longrightarrow>
    lane_step repo_of w (w\<lparr>lw_lanes := s, lw_pc := Looking (ps\<lparr>ps_todo := todo\<rparr>)\<rparr>)"
| Skip: "lw_pc w = Looking ps \<Longrightarrow> ps_todo ps = p # rest \<Longrightarrow> \<not> lane_due (lw_now w) (lw_version w (NormalizeRepoURL (pi_repo p))) p ps (lw_lanes w) \<Longrightarrow>
    lane_step repo_of w (w\<lparr>lw_pc := Looking (ps\<lparr>ps_todo := rest\<rparr>)\<rparr>)"
| Ask: "lw_pc w = Looking ps \<Longrightarrow> ps_todo ps = p # rest \<Longrightarrow> lane_due (lw_now w) (lw_version w (NormalizeRepoURL (pi_repo p))) p ps (lw_lanes w) \<Longrightarrow>
    lane_step repo_of w (w\<lparr>lw_pc := Asking (ps\<lparr>ps_todo := rest\<rparr>) p (lw_version w (NormalizeRepoURL (pi_repo p)))
      (cache_get (lw_now w) (la_cache (lw_lanes w)) (pi_name p)) (lw_notices w)\<rparr>)"
| Answer: "lw_pc w = Asking ps p ver prev at \<Longrightarrow> lane_answer (lw_now w) ver prev p answer ps (lw_lanes w) = (ps', s) \<Longrightarrow>
    lane_step repo_of w (w\<lparr>lw_lanes := s, lw_pc := Looking ps',
      lw_queried := (case answer of Inl _ \<Rightarrow> lw_queried w | Inr _ \<Rightarrow> (lw_queried w)(pi_name p := at)),
      lw_answer := (case answer of Inl _ \<Rightarrow> lw_answer w | Inr rows \<Rightarrow> (lw_answer w)(pi_name p \<mapsto> rows))\<rparr>)"
| Finish: "lw_pc w = Looking ps \<Longrightarrow> ps_todo ps = [] \<Longrightarrow> lane_step repo_of w (w\<lparr>lw_lanes := end_pass ps (lw_lanes w), lw_pc := Resting\<rparr>)"

definition lane_start :: "int \<Rightarrow> lane_world" where
  "lane_start now = \<lparr>lw_now = now, lw_lanes = new_lanes, lw_version = (\<lambda>_. 0), lw_sends = 0, lw_pc = Resting, lw_notices = 0,
     lw_noticed = (\<lambda>_. 0), lw_queried = (\<lambda>_. 0), lw_answer = (\<lambda>_. None)\<rparr>"

inductive lane_reach :: "(string \<Rightarrow> string) \<Rightarrow> lane_world \<Rightarrow> bool" for repo_of :: "string \<Rightarrow> string" where
  Start: "lane_reach repo_of (lane_start now)"
| Step: "lane_reach repo_of w \<Longrightarrow> lane_step repo_of w w' \<Longrightarrow> lane_reach repo_of w'"

section \<open>No notice is lost\<close>

text \<open>A version a project was read at says, while it is its repository's and no nudge waits, that the lane is newer than every notice.\<close>

definition version_ok :: "(string \<Rightarrow> string) \<Rightarrow> lane_world \<Rightarrow> string set \<Rightarrow> (string \<rightharpoonup> nat) \<Rightarrow> string \<Rightarrow> bool" where
  "version_ok repo_of w dirty vs name =
     (\<forall>v. vs name = Some v \<longrightarrow> v \<le> lw_version w (repo_of name) \<and>
        (v = lw_version w (repo_of name) \<longrightarrow> repo_of name \<notin> dirty \<longrightarrow> lw_noticed w (repo_of name) \<le> lw_queried w name))"

definition named_ok :: "(string \<Rightarrow> string) \<Rightarrow> project_info \<Rightarrow> bool" where
  "named_ok repo_of p = (NormalizeRepoURL (pi_repo p) = repo_of (pi_name p))"

definition todo_names :: "project_info list \<Rightarrow> string set" where
  "todo_names ps = pi_name ` set ps"

text \<open>A pass, but for the projects \<open>busy\<close> whose query is under way: a project it has yet to look at may also be in the nudges it took.\<close>

definition pass_ok :: "(string \<Rightarrow> string) \<Rightarrow> lane_world \<Rightarrow> string set \<Rightarrow> lane_pass \<Rightarrow> bool" where
  "pass_ok repo_of w busy ps =
     ((\<forall>p \<in> set (ps_todo ps). named_ok repo_of p) \<and> distinct (map pi_name (ps_todo ps)) \<and>
      (\<forall>name. name \<notin> busy \<longrightarrow>
         version_ok repo_of w (la_dirty (lw_lanes w) \<union> (if name \<in> todo_names (ps_todo ps) then ps_dirty ps else {})) (ps_versions ps) name))"

definition pc_ok :: "(string \<Rightarrow> string) \<Rightarrow> lane_world \<Rightarrow> bool" where
  "pc_ok repo_of w =
     (case lw_pc w of
        Resting \<Rightarrow> \<forall>name. version_ok repo_of w (la_dirty (lw_lanes w)) (la_seen (lw_lanes w)) name
      | Woken _ \<Rightarrow> \<forall>name. version_ok repo_of w (la_dirty (lw_lanes w)) (la_seen (lw_lanes w)) name
      | Looking ps \<Rightarrow> pass_ok repo_of w {} ps
      | Asking ps p ver prev at \<Rightarrow>
          pass_ok repo_of w {pi_name p} ps \<and> named_ok repo_of p \<and> pi_name p \<notin> todo_names (ps_todo ps) \<and> ver \<le> lw_version w (repo_of (pi_name p)) \<and>
          (ver = lw_version w (repo_of (pi_name p)) \<longrightarrow> repo_of (pi_name p) \<notin> la_dirty (lw_lanes w) \<longrightarrow> lw_noticed w (repo_of (pi_name p)) \<le> at))"

definition targets_ok :: "(string \<Rightarrow> string) \<Rightarrow> lane_world \<Rightarrow> bool" where
  "targets_ok repo_of w = (\<forall>(k, t) \<in> set (la_targets (lw_lanes w)). \<forall>p \<in> set (pt_projects t). named_ok repo_of p)"

definition notices_ok :: "lane_world \<Rightarrow> bool" where
  "notices_ok w = (\<forall>repo. lw_noticed w repo \<le> lw_notices w)"

definition wake_ok :: "lane_world \<Rightarrow> bool" where
  "wake_ok w = (la_dirty (lw_lanes w) \<noteq> {} \<longrightarrow> la_nudged (lw_lanes w) \<or> lw_sends w > 0 \<or> (\<exists>every. lw_pc w = Woken every))"

definition cached_ok :: "lane_world \<Rightarrow> bool" where
  "cached_ok w = (cache_ok (la_cache (lw_lanes w)) \<and> (\<forall>name rows at. stored (la_cache (lw_lanes w)) name rows at \<longrightarrow> lw_answer w name = Some rows))"

text \<open>Steps that touch neither the marks nor the versions.\<close>

lemma version_ok_frame:
  "lw_version w' = lw_version w \<Longrightarrow> lw_noticed w' = lw_noticed w \<Longrightarrow> lw_queried w' = lw_queried w \<Longrightarrow> version_ok r w' = version_ok r w"
  by (simp add: version_ok_def fun_eq_iff)

lemma pc_ok_frame:
  assumes "lw_version w' = lw_version w" "lw_noticed w' = lw_noticed w" "lw_queried w' = lw_queried w" "lw_pc w' = lw_pc w"
    "la_dirty (lw_lanes w') = la_dirty (lw_lanes w)" "la_seen (lw_lanes w') = la_seen (lw_lanes w)"
  shows "pc_ok r w' = pc_ok r w"
  using assms by (cases "lw_pc w") (simp_all add: pc_ok_def pass_ok_def version_ok_frame[OF assms(1-3)])

text \<open>A notice only weakens what is claimed: its repository is marked, or its version has moved on.\<close>

lemma version_ok_nudge:
  assumes "version_ok r w dirty vs name" "lw_version w' = lw_version w" "lw_noticed w' = (lw_noticed w)(repo := n)" "lw_queried w' = lw_queried w" "repo \<in> dirty'" "dirty \<subseteq> dirty'"
  shows "version_ok r w' dirty' vs name"
  using assms unfolding version_ok_def by (auto simp: subset_iff)

lemma version_ok_move:
  assumes "version_ok r w dirty vs name" "lw_version w' = (lw_version w)(repo := Suc (lw_version w repo))" "lw_noticed w' = (lw_noticed w)(repo := n)" "lw_queried w' = lw_queried w"
  shows "version_ok r w' dirty vs name"
  using assms unfolding version_ok_def by (auto simp: le_SucI)

lemma version_ok_sub: "version_ok r w dirty vs name \<Longrightarrow> dirty \<subseteq> dirty' \<Longrightarrow> version_ok r w dirty' vs name"
  unfolding version_ok_def by blast

lemma bspec_sub: "\<forall>x \<in> B. P x \<Longrightarrow> A \<subseteq> B \<Longrightarrow> \<forall>x \<in> A. P x"
  by blast

lemma set_update_sub: "set (AList.update k v m) \<subseteq> insert (k, v) (set m)"
  by (induction m) auto

definition keyed_projects :: "project_info set \<Rightarrow> (string \<times> project_info) list \<Rightarrow> bool" where
  "keyed_projects A m = ((\<forall>(k, p) \<in> set m. pi_name p = k \<and> p \<in> A) \<and> distinct (map fst m))"

lemma watched_keyed: "keyed_projects (set (target_projects ts)) (watched_projects ts)"
  unfolding watched_projects_def
proof (rule fold_keeps)
  fix p m assume p: "p \<in> set (target_projects ts)" and m: "keyed_projects (set (target_projects ts)) m"
  have "\<forall>(k, q) \<in> insert (pi_name p, p) (set m). pi_name q = k \<and> q \<in> set (target_projects ts)" using p m by (simp add: keyed_projects_def)
  then have "\<forall>(k, q) \<in> set (AList.update (pi_name p) p m). pi_name q = k \<and> q \<in> set (target_projects ts)" using set_update_sub[of "pi_name p" p m] by (rule bspec_sub)
  moreover have "distinct (map fst (AList.update (pi_name p) p m))" using m by (simp add: keyed_projects_def distinct_update)
  ultimately show "keyed_projects (set (target_projects ts)) (AList.update (pi_name p) p m)" by (simp add: keyed_projects_def)
qed (simp add: keyed_projects_def)

lemma keyed_names:
  assumes "keyed_projects A m"
  shows "map pi_name (map snd m) = map fst m" "set (map snd m) \<subseteq> A"
  using assms by (auto simp: keyed_projects_def)


definition lane_ok :: "(string \<Rightarrow> string) \<Rightarrow> lane_world \<Rightarrow> bool" where
  "lane_ok r w = (targets_ok r w \<and> notices_ok w \<and> wake_ok w \<and> cached_ok w \<and> pc_ok r w)"

lemma targets_same: "la_targets (lw_lanes w') = la_targets (lw_lanes w) \<Longrightarrow> targets_ok r w' = targets_ok r w"
  by (simp add: targets_ok_def)

lemma cached_same: "la_cache (lw_lanes w') = la_cache (lw_lanes w) \<Longrightarrow> lw_answer w' = lw_answer w \<Longrightarrow> cached_ok w' = cached_ok w"
  by (simp add: cached_ok_def)

lemma track_frame:
  assumes "s = (lw_lanes w)\<lparr>la_targets := AList.update key t (la_targets (lw_lanes w))\<rparr>" "\<forall>p \<in> set (pt_projects t). named_ok r p" "lane_ok r w"
  shows "lane_ok r (w\<lparr>lw_lanes := s\<rparr>)"
proof -
  have "\<forall>(k, t) \<in> insert (key, t) (set (la_targets (lw_lanes w))). \<forall>p \<in> set (pt_projects t). named_ok r p"
    using assms(2,3) unfolding lane_ok_def targets_ok_def by simp
  then have "\<forall>(k, t) \<in> set (AList.update key t (la_targets (lw_lanes w))). \<forall>p \<in> set (pt_projects t). named_ok r p"
    using set_update_sub[of key t "la_targets (lw_lanes w)"] by (rule bspec_sub)
  then have "targets_ok r (w\<lparr>lw_lanes := s\<rparr>)" by (simp add: targets_ok_def assms(1))
  moreover have "pc_ok r (w\<lparr>lw_lanes := s\<rparr>) = pc_ok r w" by (rule pc_ok_frame) (simp_all add: assms(1))
  ultimately show ?thesis using assms(1,3) by (simp add: lane_ok_def notices_ok_def wake_ok_def cached_ok_def)
qed

lemma target_named: "targets_ok r w \<Longrightarrow> map_of (la_targets (lw_lanes w)) key = Some t \<Longrightarrow> \<forall>p \<in> set (pt_projects t). named_ok r p"
  unfolding targets_ok_def by (auto dest!: map_of_SomeD)

lemma findProject_mem: "findProject ps name = Some p \<Longrightarrow> p \<in> set ps"
  unfolding findProject_def by (auto simp: find_Some_iff)

lemma track_ok:
  assumes "lane_ok r w" "\<forall>p \<in> set ps. named_ok r p" "snd (trackProposals now key ps (lw_lanes w)) = s"
  shows "lane_ok r (w\<lparr>lw_lanes := s\<rparr>)"
proof -
  let ?ps = "fst (trackProposals now key ps (lw_lanes w))"
  have "s = (lw_lanes w)\<lparr>la_targets := AList.update key \<lparr>pt_projects = ?ps, pt_seen = now\<rparr> (la_targets (lw_lanes w))\<rparr>"
    using assms(3) by (auto simp: trackProposals_def Let_def)
  moreover have "\<forall>p \<in> set ?ps. named_ok r p"
  proof (rule ballI)
    fix p assume "p \<in> set ?ps"
    then have "p \<in> set ps \<or> (\<exists>t. map_of (la_targets (lw_lanes w)) key = Some t \<and> p \<in> set (pt_projects t))"
      by (auto simp: trackProposals_def Let_def split: option.splits if_splits dest: findProject_mem)
    then show "named_ok r p" using assms(1,2) target_named unfolding lane_ok_def by blast
  qed
  then have "\<forall>p \<in> set (pt_projects \<lparr>pt_projects = ?ps, pt_seen = now\<rparr>). named_ok r p" unfolding prop_target.select_convs .
  ultimately show ?thesis using assms(1) by (rule track_frame)
qed

lemma track_one_ok:
  assumes "lane_ok r w" "named_ok r p"
  shows "lane_ok r (w\<lparr>lw_lanes := trackProposalsProject now key p (lw_lanes w)\<rparr>)"
proof -
  let ?old = "case map_of (la_targets (lw_lanes w)) key of Some t \<Rightarrow> pt_projects t | None \<Rightarrow> []"
  let ?new = "if findProject ?old (pi_name p) = None then ?old @ [p] else ?old"
  have "\<forall>p \<in> set ?old. named_ok r p"
    using assms(1) target_named[of r w key] unfolding lane_ok_def by (cases "map_of (la_targets (lw_lanes w)) key") auto
  then have "\<forall>p \<in> set ?new. named_ok r p" using assms(2) by auto
  then have "\<forall>p \<in> set (pt_projects \<lparr>pt_projects = ?new, pt_seen = now\<rparr>). named_ok r p" unfolding prop_target.select_convs .
  with _ show ?thesis using assms(1) by (rule track_frame) (simp only: trackProposalsProject_def Let_def)
qed

lemma notice_pc_ok:
  assumes "pc_ok r w" "notices_ok w" "lw_pc w' = lw_pc w" "lw_queried w' = lw_queried w" "la_seen (lw_lanes w') = la_seen (lw_lanes w)"
    "lw_noticed w' = (lw_noticed w)(repo := n)" "la_dirty (lw_lanes w) \<subseteq> la_dirty (lw_lanes w')"
    "lw_version w' = lw_version w \<and> repo \<in> la_dirty (lw_lanes w') \<or> lw_version w' = (lw_version w)(repo := Suc (lw_version w repo))"
  shows "pc_ok r w'"
proof -
  have v: "version_ok r w' dirty' vs name" if "version_ok r w dirty vs name" "dirty \<union> la_dirty (lw_lanes w') \<subseteq> dirty'" for dirty dirty' vs name
    using assms(8)
  proof
    assume "lw_version w' = lw_version w \<and> repo \<in> la_dirty (lw_lanes w')"
    then show ?thesis using version_ok_nudge[OF that(1) _ assms(6,4), of dirty'] that(2) by blast
  next
    assume "lw_version w' = (lw_version w)(repo := Suc (lw_version w repo))"
    then show ?thesis using version_ok_move[OF version_ok_sub[OF that(1), of dirty'], of w' repo n] that assms(4,6) by simp
  qed
  have p: "pass_ok r w' busy ps" if "pass_ok r w busy ps" for busy ps
    using that assms(7) unfolding pass_ok_def by (auto intro!: v)
  have s: "\<forall>name. version_ok r w' (la_dirty (lw_lanes w')) (la_seen (lw_lanes w')) name"
    if "\<forall>name. version_ok r w (la_dirty (lw_lanes w)) (la_seen (lw_lanes w)) name"
  proof
    fix name
    show "version_ok r w' (la_dirty (lw_lanes w')) (la_seen (lw_lanes w')) name"
      unfolding assms(5) by (rule v[OF that[rule_format]]) (use assms(7) in blast)
  qed
  show ?thesis
  proof (cases "lw_pc w")
    case Resting
    then show ?thesis using assms(1) s unfolding pc_ok_def assms(3) by simp
  next
    case (Woken every)
    then show ?thesis using assms(1) s unfolding pc_ok_def assms(3) by simp
  next
    case (Looking ps)
    then show ?thesis using assms(1) p unfolding pc_ok_def assms(3) by simp
  next
    case (Asking ps p ver prev at)
    then show ?thesis using assms(1) p assms(6,7,8) unfolding pc_ok_def assms(3) by (auto intro: le_SucI)
  qed
qed


lemma todo_names_simps [simp]: "todo_names [] = {}" "todo_names (p # ps) = insert (pi_name p) (todo_names ps)"
  by (simp_all add: todo_names_def)

text \<open>A pass begins: the versions it takes over are those of the projects it will look at, and the nudges it takes with it.\<close>

lemma begin_ok:
  assumes "lane_ok r w" "lw_pc w = Woken every" "start_pass now every (lw_lanes w) = (ps, s)" "mset todo = mset (ps_todo ps)"
  shows "lane_ok r (w\<lparr>lw_lanes := s, lw_pc := Looking (ps\<lparr>ps_todo := todo\<rparr>)\<rparr>)"
proof -
  let ?w = "w\<lparr>lw_lanes := s, lw_pc := Looking (ps\<lparr>ps_todo := todo\<rparr>)\<rparr>" and ?ts = "live_targets now (lw_lanes w)"
  have ps: "ps_todo ps = map snd (watched_projects ?ts)" "ps_dirty ps = la_dirty (lw_lanes w)"
      "ps_versions ps = la_seen (lw_lanes w) |` set (map fst (watched_projects ?ts))"
    and s: "s = (lw_lanes w)\<lparr>la_targets := ?ts, la_dirty := {}\<rparr>" using assms(3) by (auto simp: start_pass_def Let_def)
  note k = watched_keyed[of ?ts] and n = keyed_names[OF watched_keyed[of ?ts]]
  have t: "targets_ok r w" and pc: "\<forall>name. version_ok r w (la_dirty (lw_lanes w)) (la_seen (lw_lanes w)) name"
    using assms(1,2) by (simp_all add: lane_ok_def pc_ok_def)
  have t': "targets_ok r ?w" using t by (auto simp: targets_ok_def s live_targets_def)
  have "set (target_projects ?ts) = (\<Union>(k, t) \<in> set ?ts. set (pt_projects t))" by (auto simp: target_projects_def)
  then have named: "\<forall>p \<in> set (target_projects ?ts). named_ok r p" using t unfolding targets_ok_def live_targets_def by auto
  have todo: "set todo = set (map snd (watched_projects ?ts))" "distinct (map pi_name todo) = distinct (map pi_name (map snd (watched_projects ?ts)))"
    using assms(4) unfolding ps(1) by (metis set_mset_mset, metis mset_eq_imp_distinct_iff mset_map)
  have "todo_names todo = set (map pi_name (map snd (watched_projects ?ts)))" unfolding todo_names_def todo(1) by (simp only: set_map)
  then have nm: "todo_names todo = set (map fst (watched_projects ?ts))" unfolding n(1) .
  have "version_ok r w (la_dirty (lw_lanes w)) (ps_versions ps) name" for name
    using pc unfolding ps(3) version_ok_def by (auto simp: restrict_map_def split: if_splits)
  moreover have "ps_versions ps name = None" if "name \<notin> todo_names todo" for name using that unfolding nm ps(3) by (simp add: restrict_map_def)
  ultimately have v: "version_ok r ?w ({} \<union> (if name \<in> todo_names todo then la_dirty (lw_lanes w) else {})) (ps_versions ps) name" for name
    by (auto simp: version_ok_def)
  have "distinct (map pi_name todo)" unfolding todo(2) n(1) using k by (simp add: keyed_projects_def)
  moreover have "\<forall>p \<in> set todo. named_ok r p" using named n(2) unfolding todo(1) by blast
  moreover have "\<forall>name. version_ok r ?w (la_dirty (lw_lanes ?w) \<union> (if name \<in> todo_names todo then ps_dirty ps else {})) (ps_versions ps) name"
    unfolding ps(2) using v by (simp add: s split del: if_split)
  ultimately have "pass_ok r ?w {} (ps\<lparr>ps_todo := todo\<rparr>)" by (simp add: pass_ok_def split del: if_split cong del: if_weak_cong)
  then show ?thesis using assms(1) t' by (simp add: lane_ok_def pc_ok_def notices_ok_def wake_ok_def cached_ok_def s)
qed

lemma same_claims: "version_ok r (w\<lparr>lw_pc := pc\<rparr>) = version_ok r w" "pass_ok r (w\<lparr>lw_pc := pc\<rparr>) = pass_ok r w"
proof -
  show v: "version_ok r (w\<lparr>lw_pc := pc\<rparr>) = version_ok r w" by (rule version_ok_frame) simp_all
  show "pass_ok r (w\<lparr>lw_pc := pc\<rparr>) = pass_ok r w" by (simp add: pass_ok_def v fun_eq_iff)
qed

lemma pass_rest:
  assumes "pass_ok r w {} ps" "ps_todo ps = p # rest"
  shows "pass_ok r w {pi_name p} (ps\<lparr>ps_todo := rest\<rparr>)" "named_ok r p" "pi_name p \<notin> todo_names rest"
    "version_ok r w (la_dirty (lw_lanes w) \<union> ps_dirty ps) (ps_versions ps) (pi_name p)"
proof -
  from assms have d: "distinct (map pi_name (p # rest))" and n: "\<forall>q \<in> set (p # rest). named_ok r q"
    and v: "\<And>name. version_ok r w (la_dirty (lw_lanes w) \<union> (if name \<in> todo_names (p # rest) then ps_dirty ps else {})) (ps_versions ps) name"
    by (simp_all add: pass_ok_def)
  show "named_ok r p" using n by simp
  show "pi_name p \<notin> todo_names rest" using d by (simp add: todo_names_def)
  show "version_ok r w (la_dirty (lw_lanes w) \<union> ps_dirty ps) (ps_versions ps) (pi_name p)" using v[of "pi_name p"] by simp
  have "version_ok r w (la_dirty (lw_lanes w) \<union> (if name \<in> todo_names rest then ps_dirty ps else {})) (ps_versions ps) name" if "name \<noteq> pi_name p" for name
    using v[of name] that by simp
  then show "pass_ok r w {pi_name p} (ps\<lparr>ps_todo := rest\<rparr>)" using d n by (simp add: pass_ok_def split del: if_split cong del: if_weak_cong)
qed

lemma skip_ok:
  assumes "lane_ok r w" "lw_pc w = Looking ps" "ps_todo ps = p # rest" "\<not> lane_due now (lw_version w (NormalizeRepoURL (pi_repo p))) p ps (lw_lanes w)"
  shows "lane_ok r (w\<lparr>lw_pc := Looking (ps\<lparr>ps_todo := rest\<rparr>)\<rparr>)"
proof -
  have "pass_ok r w {} ps" using assms(1,2) by (simp add: lane_ok_def pc_ok_def)
  note q = pass_rest[OF this assms(3)]
  have "r (pi_name p) \<notin> ps_dirty ps" using assms(4) q(2) by (simp add: lane_due_def named_ok_def)
  then have "version_ok r w (la_dirty (lw_lanes w)) (ps_versions ps) (pi_name p)" using q(4) unfolding version_ok_def by blast
  then have "version_ok r w (la_dirty (lw_lanes w) \<union> (if name \<in> todo_names rest then ps_dirty ps else {})) (ps_versions ps) name" for name
    using q(1,3) by (cases "name = pi_name p") (simp_all add: pass_ok_def split del: if_split cong del: if_weak_cong)
  then have "pass_ok r w {} (ps\<lparr>ps_todo := rest\<rparr>)" using q(1) by (simp add: pass_ok_def split del: if_split cong del: if_weak_cong)
  then show ?thesis using assms(1,2) by (simp add: lane_ok_def pc_ok_def same_claims targets_ok_def notices_ok_def wake_ok_def cached_ok_def)
qed

lemma ask_ok:
  assumes "lane_ok r w" "lw_pc w = Looking ps" "ps_todo ps = p # rest"
  shows "lane_ok r (w\<lparr>lw_pc := Asking (ps\<lparr>ps_todo := rest\<rparr>) p (lw_version w (NormalizeRepoURL (pi_repo p))) prev (lw_notices w)\<rparr>)"
proof -
  have "pass_ok r w {} ps" using assms(1,2) by (simp add: lane_ok_def pc_ok_def)
  note q = pass_rest[OF this assms(3)]
  have "lw_noticed w (r (pi_name p)) \<le> lw_notices w" using assms(1) by (simp add: lane_ok_def notices_ok_def)
  then show ?thesis using assms(1,2) q
    by (simp add: lane_ok_def pc_ok_def same_claims targets_ok_def notices_ok_def wake_ok_def cached_ok_def named_ok_def)
qed

lemma answer_ok:
  assumes "lane_ok r w" "lw_pc w = Asking ps p ver prev at" "lane_answer now ver prev p answer ps (lw_lanes w) = (ps', s)"
  shows "lane_ok r (w\<lparr>lw_lanes := s, lw_pc := Looking ps',
      lw_queried := (case answer of Inl _ \<Rightarrow> lw_queried w | Inr _ \<Rightarrow> (lw_queried w)(pi_name p := at)),
      lw_answer := (case answer of Inl _ \<Rightarrow> lw_answer w | Inr rows \<Rightarrow> (lw_answer w)(pi_name p \<mapsto> rows))\<rparr>)" (is "lane_ok r ?w")
proof -
  have q: "pass_ok r w {pi_name p} ps" "pi_name p \<notin> todo_names (ps_todo ps)" "ver \<le> lw_version w (r (pi_name p))"
    "ver = lw_version w (r (pi_name p)) \<longrightarrow> r (pi_name p) \<notin> la_dirty (lw_lanes w) \<longrightarrow> lw_noticed w (r (pi_name p)) \<le> at"
    using assms(1,2) by (simp_all add: lane_ok_def pc_ok_def)
  have same: "ps_todo ps' = ps_todo ps" "ps_dirty ps' = ps_dirty ps" "la_dirty s = la_dirty (lw_lanes w)" "la_targets s = la_targets (lw_lanes w)"
    "la_nudged s = la_nudged (lw_lanes w)"
    "ps_versions ps' = (ps_versions ps)(pi_name p := (case answer of Inl _ \<Rightarrow> None | Inr _ \<Rightarrow> Some ver))"
    using assms(3) by (auto simp: lane_answer_def Let_def split: sum.splits)
  have cached: "cached_ok ?w"
  proof (cases answer)
    case (Inl e)
    then show ?thesis using assms(1,3) by (auto simp: lane_ok_def cached_ok_def lane_answer_def Let_def)
  next
    case (Inr rows)
    then have s: "la_cache s = cache_put now (la_cache (lw_lanes w)) (pi_name p) rows" using assms(3) by (auto simp: lane_answer_def Let_def)
    have old: "cache_ok (la_cache (lw_lanes w))" "\<forall>name rows at. stored (la_cache (lw_lanes w)) name rows at \<longrightarrow> lw_answer w name = Some rows"
      using assms(1) by (simp_all add: lane_ok_def cached_ok_def)
    have "(if name = pi_name p then Some rows else lw_answer w name) = Some rows'"
      if "stored (la_cache s) name rows' a" for name rows' a
      using that old unfolding s by (cases "name = pi_name p") (auto simp: stored_put)
    then show ?thesis using cache_put_ok[OF old(1)] by (simp add: cached_ok_def s Inr)
  qed
  have "version_ok r ?w (la_dirty (lw_lanes w) \<union> (if name \<in> todo_names (ps_todo ps) then ps_dirty ps else {})) (ps_versions ps') name" for name
  proof (cases "name = pi_name p")
    case True
    then show ?thesis using q(2,3,4) by (cases answer) (auto simp: version_ok_def same)
  next
    case False
    then have "version_ok r w (la_dirty (lw_lanes w) \<union> (if name \<in> todo_names (ps_todo ps) then ps_dirty ps else {})) (ps_versions ps) name"
      using q(1) by (simp add: pass_ok_def split del: if_split)
    then show ?thesis using False unfolding version_ok_def same by (cases answer) simp_all
  qed
  then have "pass_ok r ?w {} ps'" using q(1) by (simp add: pass_ok_def same split del: if_split cong del: if_weak_cong)
  then show ?thesis using assms(1,2) cached by (simp add: lane_ok_def pc_ok_def targets_ok_def notices_ok_def wake_ok_def same)
qed

lemma finish_ok:
  assumes "lane_ok r w" "lw_pc w = Looking ps" "ps_todo ps = []"
  shows "lane_ok r (w\<lparr>lw_lanes := end_pass ps (lw_lanes w), lw_pc := Resting\<rparr>)" (is "lane_ok r ?w")
proof -
  have v: "version_ok r ?w = version_ok r w" by (rule version_ok_frame) simp_all
  have "\<forall>name. version_ok r w (la_dirty (lw_lanes w)) (ps_versions ps) name" using assms by (simp add: lane_ok_def pc_ok_def pass_ok_def)
  then have "pc_ok r ?w" unfolding pc_ok_def v by (auto simp: end_pass_def)
  then show ?thesis using assms(1,2) by (simp add: lane_ok_def targets_ok_def notices_ok_def wake_ok_def cached_ok_def end_pass_def)
qed

lemma nudge_ok:
  assumes "lane_ok r w" "repo \<noteq> ''''"
  shows "lane_ok r (w\<lparr>lw_lanes := mark_dirty repo (lw_lanes w), lw_sends := Suc (lw_sends w), lw_notices := Suc (lw_notices w),
      lw_noticed := (lw_noticed w)(repo := Suc (lw_notices w))\<rparr>)" (is "lane_ok r ?w")
proof -
  have "pc_ok r w" "notices_ok w" using assms(1) by (simp_all add: lane_ok_def)
  then have "pc_ok r ?w" by (rule notice_pc_ok[where repo = repo and n = "Suc (lw_notices w)"]) (use assms(2) in \<open>auto simp: mark_dirty_def\<close>)
  then show ?thesis using assms
    by (auto simp: lane_ok_def targets_ok_def notices_ok_def wake_ok_def cached_ok_def mark_dirty_def intro: le_SucI)
qed

lemma move_ok:
  assumes "lane_ok r w"
  shows "lane_ok r (w\<lparr>lw_version := (lw_version w)(repo := Suc (lw_version w repo)), lw_notices := Suc (lw_notices w),
      lw_noticed := (lw_noticed w)(repo := Suc (lw_notices w))\<rparr>)" (is "lane_ok r ?w")
proof -
  have "pc_ok r w" "notices_ok w" using assms(1) by (simp_all add: lane_ok_def)
  then have "pc_ok r ?w" by (rule notice_pc_ok[where repo = repo and n = "Suc (lw_notices w)"]) simp_all
  then show ?thesis using assms by (auto simp: lane_ok_def targets_ok_def notices_ok_def wake_ok_def cached_ok_def intro: le_SucI)
qed

lemma quiet_ok:
  assumes "lane_ok r w" "pc_ok r w' = pc_ok r w" "la_targets (lw_lanes w') = la_targets (lw_lanes w)" "la_dirty (lw_lanes w') = la_dirty (lw_lanes w)"
    "la_cache (lw_lanes w') = la_cache (lw_lanes w)" "lw_answer w' = lw_answer w" "lw_notices w' = lw_notices w" "lw_noticed w' = lw_noticed w" "wake_ok w'"
  shows "lane_ok r w'"
  using assms by (simp add: lane_ok_def targets_same[of w' w] cached_same[of w' w] notices_ok_def)

lemma send_ok:
  assumes "lane_ok r w"
  shows "lane_ok r (w\<lparr>lw_lanes := send_nudge (lw_lanes w), lw_sends := n\<rparr>)" "lane_ok r (w\<lparr>lw_lanes := send_nudge (lw_lanes w)\<rparr>)"
  by (rule quiet_ok[OF assms], rule pc_ok_frame, simp_all add: send_nudge_def wake_ok_def)+

lemma woken_ok:
  assumes "lane_ok r w" "lw_pc w = Resting"
  shows "lane_ok r (w\<lparr>lw_lanes := (lw_lanes w)\<lparr>la_nudged := False\<rparr>, lw_pc := Woken every\<rparr>)" (is "lane_ok r ?w")
    "lane_ok r (w\<lparr>lw_pc := Woken every\<rparr>)"
proof -
  have "version_ok r ?w = version_ok r w" by (rule version_ok_frame) simp_all
  then have "pc_ok r ?w = pc_ok r w" using assms(2) by (simp add: pc_ok_def)
  with assms(1) show "lane_ok r ?w" by (rule quiet_ok) (simp_all add: wake_ok_def)
  have "pc_ok r (w\<lparr>lw_pc := Woken every\<rparr>) = pc_ok r w" using assms(2) by (simp add: pc_ok_def same_claims)
  with assms(1) show "lane_ok r (w\<lparr>lw_pc := Woken every\<rparr>)" by (rule quiet_ok) (simp_all add: wake_ok_def)
qed

lemma clock_ok: "lane_ok r w \<Longrightarrow> lane_ok r (w\<lparr>lw_now := now\<rparr>)"
  by (rule quiet_ok, assumption, rule pc_ok_frame) (simp_all add: lane_ok_def wake_ok_def)

lemma lane_step_ok: "lane_step r w w' \<Longrightarrow> lane_ok r w \<Longrightarrow> lane_ok r w'"
proof (induction rule: lane_step.induct)
  case (Track ps w key s)
  then show ?case by (intro track_ok) (simp_all add: named_ok_def)
next
  case (TrackOne p w key)
  then show ?case by (intro track_one_ok) (simp_all add: named_ok_def)
qed (rule nudge_ok send_ok move_ok clock_ok woken_ok begin_ok skip_ok ask_ok answer_ok finish_ok; assumption)+

lemma lane_start_ok: "lane_ok r (lane_start now)"
  by (auto simp: lane_ok_def lane_start_def new_lanes_def targets_ok_def notices_ok_def wake_ok_def cached_ok_def pc_ok_def version_ok_def)

lemma lane_reach_ok: "lane_reach r w \<Longrightarrow> lane_ok r w"
  by (induction rule: lane_reach.induct) (auto intro: lane_start_ok lane_step_ok)

section \<open>Properties\<close>

text \<open>What a handler opened is queried by the next pass, whatever the lanes hold.\<close>

lemma findProject_none: "findProject ps name = None \<longleftrightarrow> name \<notin> todo_names ps"
  by (auto simp: findProject_def todo_names_def find_None_iff)

lemma tracked_now:
  "\<exists>t. (key, t) \<in> set (live_targets now (trackProposalsProject now key p s)) \<and> pi_name p \<in> todo_names (pt_projects t)"
proof -
  have d: "map_of (AList.update key t m) key = Some t" for t :: prop_target and m by (simp add: update_conv')
  obtain t where t: "map_of (la_targets (trackProposalsProject now key p s)) key = Some t" "pt_seen t = now" "pi_name p \<in> todo_names (pt_projects t)"
    by (auto simp: trackProposalsProject_def Let_def d findProject_none todo_names_def)
  from map_of_SomeD[OF t(1)] t(2) have "(key, t) \<in> set (live_targets now (trackProposalsProject now key p s))"
    by (simp add: live_targets_def proposalsTrackFor_def)
  with t(3) show ?thesis by blast
qed

lemma watched_names: "set (map fst (watched_projects ts)) = todo_names (target_projects ts)"
proof -
  have "set (map fst (fold (\<lambda>p. AList.update (pi_name p) p) ps m)) = pi_name ` set ps \<union> set (map fst m)" for ps and m :: "(string \<times> project_info) list"
    by (induction ps arbitrary: m) (auto simp: dom_update)
  then show ?thesis by (simp add: watched_projects_def todo_names_def)
qed

lemma opened_is_watched:
  assumes "start_pass now every (fst (proposalOpened now key p s rs)) = (ps, s')"
  shows "pi_name p \<in> todo_names (ps_todo ps)" "NormalizeRepoURL (pi_repo p) \<noteq> '''' \<Longrightarrow> NormalizeRepoURL (pi_repo p) \<in> ps_dirty ps"
proof -
  let ?s = "trackProposalsProject now key p s"
  have s: "ps_todo ps = map snd (watched_projects (live_targets now ?s))" "ps_dirty ps = la_dirty (mark_dirty (NormalizeRepoURL (pi_repo p)) ?s)"
    using assms by (auto simp: start_pass_def proposalOpened_def send_nudge_def mark_dirty_def live_targets_def Let_def split: if_splits)
  have "todo_names (ps_todo ps) = todo_names (target_projects (live_targets now ?s))"
    unfolding s(1) watched_names[symmetric] keyed_names(1)[OF watched_keyed, symmetric] by (simp add: todo_names_def image_image)
  then show "pi_name p \<in> todo_names (ps_todo ps)" using tracked_now[of key now p s] by (force simp: target_projects_def todo_names_def)
  show "NormalizeRepoURL (pi_repo p) \<noteq> '''' \<Longrightarrow> NormalizeRepoURL (pi_repo p) \<in> ps_dirty ps" unfolding s(2) by (simp add: mark_dirty_def)
qed

text \<open>A mark waits for a pass that is on its way.\<close>

lemma nudge_pending: "lane_reach r w \<Longrightarrow> lw_pc w = Resting \<Longrightarrow> la_dirty (lw_lanes w) \<noteq> {} \<Longrightarrow> la_nudged (lw_lanes w) \<or> lw_sends w > 0"
  using lane_reach_ok[of r w] by (auto simp: lane_ok_def wake_ok_def)

section \<open>A pass\<close>

text \<open>A handler opens a proposal, the nudged pass queries its project and rests: the next pass would leave the project alone.\<close>

definition lane_demo_repo :: string where
  "lane_demo_repo = NormalizeRepoURL (pi_repo shop_project)"

definition lane_demo_row :: proposal where
  "lane_demo_row = \<lparr>po_project = ''shop'', po_number = 7, po_url = ''u'', po_title = ''t'', po_branch = ''b'', po_by = ''jane'', po_revert = False,
     po_approvals = 0, po_required = 0, po_checks = ''''\<rparr>"

definition lane_demo_pass :: "project_info list \<Rightarrow> (string \<rightharpoonup> nat) \<Rightarrow> project_info list \<Rightarrow> bool \<Rightarrow> lane_pass" where
  "lane_demo_pass todo vs due changed = \<lparr>ps_all = False, ps_todo = todo, ps_dirty = {lane_demo_repo}, ps_versions = vs, ps_due = due, ps_changed = changed\<rparr>"

definition lane_demo_cache :: "proposal list cache" where
  "lane_demo_cache = cache_put 0 (cache_new proposalsCacheTTL) ''shop'' [lane_demo_row]"

definition lane_demo_lanes :: "string set \<Rightarrow> (string \<rightharpoonup> nat) \<Rightarrow> proposal list cache \<Rightarrow> bool \<Rightarrow> lanes" where
  "lane_demo_lanes dirty seen cache nudged =
     \<lparr>la_targets = [(''tok'', \<lparr>pt_projects = [shop_project], pt_seen = 0\<rparr>)], la_dirty = dirty, la_seen = seen, la_cache = cache, la_nudged = nudged\<rparr>"

definition lane_demo_world :: "lanes \<Rightarrow> nat \<Rightarrow> refresher \<Rightarrow> nat \<Rightarrow> bool \<Rightarrow> lane_world" where
  "lane_demo_world s sends pc notices answered = \<lparr>lw_now = 0, lw_lanes = s, lw_version = (\<lambda>_. 0), lw_sends = sends, lw_pc = pc, lw_notices = notices,
     lw_noticed = (\<lambda>_. 0)(lane_demo_repo := notices), lw_queried = (if answered then (\<lambda>_. 0)(''shop'' := 1) else (\<lambda>_. 0)),
     lw_answer = (if answered then [''shop'' \<mapsto> [lane_demo_row]] else Map.empty)\<rparr>"

definition lane_demo_rest :: lane_world where
  "lane_demo_rest = lane_demo_world (lane_demo_lanes {} [''shop'' \<mapsto> 0] lane_demo_cache False) 0 Resting 1 True"

lemmas lane_demo_defs = lane_demo_world_def lane_demo_lanes_def lane_demo_pass_def

lemma lane_demo_project: "pi_name shop_project = ''shop''" "NormalizeRepoURL (pi_repo shop_project) = lane_demo_repo"
  by (simp_all add: shop_project_def lane_demo_repo_def)

lemma lane_demo_watched: "watched_projects [(''tok'', \<lparr>pt_projects = [shop_project], pt_seen = 0\<rparr>)] = [(''shop'', shop_project)]"
  by (simp add: watched_projects_def target_projects_def lane_demo_project)

lemma lane_demo_live: "live_targets 0 (lane_demo_lanes dirty seen cache nudged) = la_targets (lane_demo_lanes dirty seen cache nudged)"
  by (simp add: live_targets_def lane_demo_lanes_def proposalsTrackFor_def)

lemma lane_demo_repo_some: "lane_demo_repo \<noteq> ''''"
  by (simp add: lane_demo_repo_def shop_project_def, code_simp)

lemma lane_demo_tracked: "lane_reach (\<lambda>_. lane_demo_repo) (lane_demo_world (lane_demo_lanes {} Map.empty (cache_new proposalsCacheTTL) False) 0 Resting 0 False)"
proof -
  have "lane_step (\<lambda>_. lane_demo_repo) (lane_start 0) (lane_demo_world (lane_demo_lanes {} Map.empty (cache_new proposalsCacheTTL) False) 0 Resting 0 False)"
    using lane_step.TrackOne[of shop_project "\<lambda>_. lane_demo_repo" "lane_start 0" "''tok''"]
    by (simp add: lane_demo_project lane_start_def new_lanes_def trackProposalsProject_def findProject_def lane_demo_defs fun_upd_idem)
  with lane_reach.Start show ?thesis by (rule lane_reach.Step)
qed

lemma lane_demo_woken: "lane_reach (\<lambda>_. lane_demo_repo) (lane_demo_world (lane_demo_lanes {lane_demo_repo} Map.empty (cache_new proposalsCacheTTL) False) 0 (Woken False) 1 False)"
proof -
  let ?w = "\<lambda>nudged sends pc. lane_demo_world (lane_demo_lanes {lane_demo_repo} Map.empty (cache_new proposalsCacheTTL) nudged) sends pc 1 False"
  have "lane_step (\<lambda>_. lane_demo_repo) (lane_demo_world (lane_demo_lanes {} Map.empty (cache_new proposalsCacheTTL) False) 0 Resting 0 False) (?w False 1 Resting)"
    using lane_step.Nudge[OF lane_demo_repo_some, of "\<lambda>_. lane_demo_repo" "lane_demo_world (lane_demo_lanes {} Map.empty (cache_new proposalsCacheTTL) False) 0 Resting 0 False"]
    by (simp add: lane_demo_defs mark_dirty_def lane_demo_repo_some)
  with lane_demo_tracked have 1: "lane_reach (\<lambda>_. lane_demo_repo) (?w False 1 Resting)" by (rule lane_reach.Step)
  have "lane_step (\<lambda>_. lane_demo_repo) (?w False 1 Resting) (?w True 0 Resting)"
    using lane_step.Send[of "?w False 1 Resting" 0 "\<lambda>_. lane_demo_repo"] by (simp add: lane_demo_defs send_nudge_def)
  with 1 have 2: "lane_reach (\<lambda>_. lane_demo_repo) (?w True 0 Resting)" by (rule lane_reach.Step)
  have "lane_step (\<lambda>_. lane_demo_repo) (?w True 0 Resting) (?w False 0 (Woken False))"
    using lane_step.WakeNudge[of "?w True 0 Resting" "\<lambda>_. lane_demo_repo"] by (simp add: lane_demo_defs)
  with 2 show ?thesis by (rule lane_reach.Step)
qed

lemma lane_demo_asking: "lane_reach (\<lambda>_. lane_demo_repo) (lane_demo_world (lane_demo_lanes {} Map.empty (cache_new proposalsCacheTTL) False) 0
    (Asking (lane_demo_pass [] Map.empty [] False) shop_project 0 None 1) 1 False)"
proof -
  let ?w = "\<lambda>dirty pc. lane_demo_world (lane_demo_lanes dirty Map.empty (cache_new proposalsCacheTTL) False) 0 pc 1 False"
  have "start_pass 0 False (lw_lanes (?w {lane_demo_repo} (Woken False))) = (lane_demo_pass [shop_project] Map.empty [] False, lw_lanes (?w {} Resting))"
    by (simp add: start_pass_def Let_def lane_demo_live[unfolded lane_demo_lanes_def] lane_demo_defs lane_demo_watched restrict_map_def)
  then have "lane_step (\<lambda>_. lane_demo_repo) (?w {lane_demo_repo} (Woken False)) (?w {} (Looking (lane_demo_pass [shop_project] Map.empty [] False)))"
    using lane_step.Begin[of "?w {lane_demo_repo} (Woken False)" False "lane_demo_pass [shop_project] Map.empty [] False" "lw_lanes (?w {} Resting)" "[shop_project]"
      "\<lambda>_. lane_demo_repo"] by (simp add: lane_demo_defs)
  with lane_demo_woken have 1: "lane_reach (\<lambda>_. lane_demo_repo) (?w {} (Looking (lane_demo_pass [shop_project] Map.empty [] False)))" by (rule lane_reach.Step)
  have "lane_step (\<lambda>_. lane_demo_repo) (?w {} (Looking (lane_demo_pass [shop_project] Map.empty [] False))) (?w {} (Asking (lane_demo_pass [] Map.empty [] False) shop_project 0 None 1))"
    using lane_step.Ask[of "?w {} (Looking (lane_demo_pass [shop_project] Map.empty [] False))" "lane_demo_pass [shop_project] Map.empty [] False" shop_project "[]" "\<lambda>_. lane_demo_repo"]
    by (simp add: lane_demo_defs lane_due_def lane_demo_project cache_get_def cache_new_def)
  with 1 show ?thesis by (rule lane_reach.Step)
qed

lemma lane_demo_reach: "lane_reach (\<lambda>_. lane_demo_repo) lane_demo_rest"
proof -
  let ?w = "\<lambda>pc. lane_demo_world (lane_demo_lanes {} Map.empty (cache_new proposalsCacheTTL) False) 0 pc 1 False"
  let ?ps = "lane_demo_pass [] [''shop'' \<mapsto> 0] [shop_project] True" and ?s = "lane_demo_lanes {} Map.empty lane_demo_cache False"
  have "lane_answer 0 0 None shop_project (Inr [lane_demo_row]) (lane_demo_pass [] Map.empty [] False) (lane_demo_lanes {} Map.empty (cache_new proposalsCacheTTL) False) = (?ps, ?s)"
    by (simp add: lane_answer_def lane_demo_defs lane_demo_project lane_demo_cache_def)
  then have "lane_step (\<lambda>_. lane_demo_repo) (?w (Asking (lane_demo_pass [] Map.empty [] False) shop_project 0 None 1)) (lane_demo_world ?s 0 (Looking ?ps) 1 True)"
    using lane_step.Answer[of "?w (Asking (lane_demo_pass [] Map.empty [] False) shop_project 0 None 1)" "lane_demo_pass [] Map.empty [] False" shop_project 0 None 1 "Inr [lane_demo_row]" ?ps ?s
      "\<lambda>_. lane_demo_repo"] by (simp add: lane_demo_world_def lane_demo_project)
  with lane_demo_asking have 1: "lane_reach (\<lambda>_. lane_demo_repo) (lane_demo_world ?s 0 (Looking ?ps) 1 True)" by (rule lane_reach.Step)
  have "lane_step (\<lambda>_. lane_demo_repo) (lane_demo_world ?s 0 (Looking ?ps) 1 True) lane_demo_rest"
    using lane_step.Finish[of "lane_demo_world ?s 0 (Looking ?ps) 1 True" ?ps "\<lambda>_. lane_demo_repo"] by (simp add: lane_demo_rest_def lane_demo_defs end_pass_def)
  with 1 show ?thesis by (rule lane_reach.Step)
qed

definition lane_demo_next :: lane_pass where
  "lane_demo_next = (lane_demo_pass [shop_project] [''shop'' \<mapsto> 0] [] False)\<lparr>ps_dirty := {}\<rparr>"

lemma lane_demo_start: "start_pass 0 False (lw_lanes lane_demo_rest) = (lane_demo_next, lw_lanes lane_demo_rest)"
  by (simp add: start_pass_def Let_def lane_demo_live[unfolded lane_demo_lanes_def] lane_demo_rest_def lane_demo_defs lane_demo_next_def lane_demo_watched restrict_map_def fun_eq_iff)

lemma lane_demo_lane: "cache_get 0 lane_demo_cache ''shop'' = Some [lane_demo_row]"
  unfolding lane_demo_cache_def by (rule ttl.get_put) (simp_all add: proposalsCacheTTL_def)

lemma lane_demo_fresh: "\<not> lane_due 0 0 shop_project lane_demo_next (lw_lanes lane_demo_rest)"
  by (simp add: lane_due_def lane_demo_next_def lane_demo_rest_def lane_demo_defs lane_demo_project lane_demo_lane)

text \<open>C16: No notice of a change is lost. Whatever reads, nudges, pushes and forge failures interleave with the refresher's passes, a watched project
  the next pass would leave alone has a lane in the cache, that lane is the last answer the forge gave for the project, and the query for it began
  after the last webhook nudge and the last move of heads of the project's repository. And a repository whose nudge no pass has taken has a nudge in
  the channel or a sender about to put one there. The repository a project name stands for is fixed.\<close>
theorem no_notice_lost:
  assumes "lane_reach repo_of w" "lw_pc w = Resting" "start_pass (lw_now w) False (lw_lanes w) = (ps, s)" "p \<in> set (ps_todo ps)"
    "\<not> lane_due (lw_now w) (lw_version w (NormalizeRepoURL (pi_repo p))) p ps s"
  shows "(\<exists>rows. cache_get (lw_now w) (la_cache (lw_lanes w)) (pi_name p) = Some rows \<and> lw_answer w (pi_name p) = Some rows) \<and>
    lw_noticed w (NormalizeRepoURL (pi_repo p)) \<le> lw_queried w (pi_name p) \<and>
    (la_dirty (lw_lanes w) = {} \<or> la_nudged (lw_lanes w) \<or> lw_sends w > 0)"
proof -
  note ok = lane_reach_ok[OF assms(1)]
  have s: "ps_todo ps = map snd (watched_projects (live_targets (lw_now w) (lw_lanes w)))" "ps_dirty ps = la_dirty (lw_lanes w)" "la_cache s = la_cache (lw_lanes w)"
    "ps_versions ps = la_seen (lw_lanes w) |` set (map fst (watched_projects (live_targets (lw_now w) (lw_lanes w))))"
    using assms(3) by (auto simp: start_pass_def Let_def)
  have "lane_ok repo_of (w\<lparr>lw_pc := Woken False\<rparr>)" using ok assms(2) by (rule woken_ok(2))
  from begin_ok[OF this, of False "lw_now w" ps s "ps_todo ps"] assms(3)
  have "pass_ok repo_of (w\<lparr>lw_lanes := s, lw_pc := Looking ps\<rparr>) {} ps" by (simp add: lane_ok_def pc_ok_def)
  then have n: "NormalizeRepoURL (pi_repo p) = repo_of (pi_name p)" using assms(4) by (auto simp: pass_ok_def named_ok_def)
  from assms(5) have due: "cache_get (lw_now w) (la_cache (lw_lanes w)) (pi_name p) \<noteq> None" "ps_versions ps (pi_name p) = Some (lw_version w (repo_of (pi_name p)))"
    "repo_of (pi_name p) \<notin> la_dirty (lw_lanes w)" unfolding lane_due_def s n by auto
  from due(2) have "la_seen (lw_lanes w) (pi_name p) = Some (lw_version w (repo_of (pi_name p)))" unfolding s(4) by (auto simp: restrict_map_def split: if_splits)
  moreover have "\<forall>name. version_ok repo_of w (la_dirty (lw_lanes w)) (la_seen (lw_lanes w)) name" using ok assms(2) by (simp add: lane_ok_def pc_ok_def)
  then have "version_ok repo_of w (la_dirty (lw_lanes w)) (la_seen (lw_lanes w)) (pi_name p)" by blast
  ultimately have "lw_noticed w (repo_of (pi_name p)) \<le> lw_queried w (pi_name p)" using due(3) by (simp add: version_ok_def)
  moreover have "\<exists>rows. cache_get (lw_now w) (la_cache (lw_lanes w)) (pi_name p) = Some rows \<and> lw_answer w (pi_name p) = Some rows"
    using due(1) ok by (auto simp: lane_ok_def cached_ok_def cache_get_stored)
  moreover have "la_dirty (lw_lanes w) = {} \<or> la_nudged (lw_lanes w) \<or> lw_sends w > 0" by (cases "la_dirty (lw_lanes w) = {}") (simp, use nudge_pending[OF assms(1,2)] in simp)
  ultimately show ?thesis unfolding n by (intro conjI)
qed

theorem no_notice_lost_witness:
  "cache_get 0 lane_demo_cache ''shop'' = Some [lane_demo_row] \<and> lw_noticed lane_demo_rest lane_demo_repo = 1 \<and> lw_queried lane_demo_rest ''shop'' = 1 \<and>
   lw_noticed lane_demo_rest lane_demo_repo \<le> lw_queried lane_demo_rest ''shop''"
proof -
  have w: "lw_now lane_demo_rest = 0" "lw_pc lane_demo_rest = Resting" "lw_version lane_demo_rest = (\<lambda>_. 0)" "lw_noticed lane_demo_rest lane_demo_repo = 1" "lw_queried lane_demo_rest ''shop'' = 1"
    by (simp_all add: lane_demo_rest_def lane_demo_world_def)
  have "lw_noticed lane_demo_rest (NormalizeRepoURL (pi_repo shop_project)) \<le> lw_queried lane_demo_rest (pi_name shop_project)"
    using no_notice_lost[OF lane_demo_reach w(2), of lane_demo_next "lw_lanes lane_demo_rest" shop_project] lane_demo_start lane_demo_fresh w(1,3)
    by (simp add: lane_demo_next_def lane_demo_pass_def)
  then show ?thesis using w lane_demo_lane by (simp add: lane_demo_project)
qed

end
