(* ===== verification/Auth_Session.thy ===== *)
theory Auth_Session
  imports Auth_Validate
begin

text \<open>
  \<open>internal/auth\<close>: \<open>cookie.go\<close>, \<open>http.go\<close> and \<open>oauth.go\<close>: the sealed session cookie, signing in with a token or over OpenShift SSO, and the
  middleware in front of every route. AES-GCM under the key derived from the secret is the parameter \<open>aead\<close>, the randomness of a
  call an argument; so are the JSON decoding, the well-known document, the token endpoint and \<open>oauth2\<close>'s authorize URL.
\<close>

section \<open>base64.RawURLEncoding\<close>

definition b64_alphabet :: string where
  "b64_alphabet = ''ABCDEFGHIJKLMNOPQRSTUVWXYZabcdefghijklmnopqrstuvwxyz0123456789-_''"

definition b64_char :: "nat \<Rightarrow> char" where
  "b64_char n = b64_alphabet ! n"

definition b64_value :: "char \<Rightarrow> nat option" where
  "b64_value c = map_of (zip b64_alphabet [0..<64]) c"

definition byte :: "char \<Rightarrow> nat" where
  "byte c = of_char c"

fun b64_encode :: "string \<Rightarrow> string" where
  "b64_encode [] = []"
| "b64_encode [a] = [b64_char (byte a div 4), b64_char (byte a mod 4 * 16)]"
| "b64_encode [a, b] = [b64_char (byte a div 4), b64_char (byte a mod 4 * 16 + byte b div 16), b64_char (byte b mod 16 * 4)]"
| "b64_encode (a # b # c # s) =
     b64_char (byte a div 4) # b64_char (byte a mod 4 * 16 + byte b div 16) # b64_char (byte b mod 16 * 4 + byte c div 64) # b64_char (byte c mod 64) # b64_encode s"

text \<open>The decoder drops line breaks and ignores the unused bits of the last character.\<close>

fun b64_groups :: "nat list \<Rightarrow> string option" where
  "b64_groups [] = Some []"
| "b64_groups [p] = None"
| "b64_groups [p, q] = Some [char_of (p * 4 + q div 16)]"
| "b64_groups [p, q, r] = Some [char_of (p * 4 + q div 16), char_of (q mod 16 * 16 + r div 4)]"
| "b64_groups (p # q # r # t # s) =
     map_option (\<lambda>out. char_of (p * 4 + q div 16) # char_of (q mod 16 * 16 + r div 4) # char_of (r mod 4 * 64 + t) # out) (b64_groups s)"

definition b64_decode :: "string \<Rightarrow> string option" where
  "b64_decode s =
     (let vs = map b64_value (filter (\<lambda>c. c \<notin> {CHR 0x0A, CHR 0x0D}) s) in
      if None \<in> set vs then None else b64_groups (map the vs))"

section \<open>The sealed cookie\<close>

text \<open>Sealing and opening under the key of a secret: secret, nonce, text, associated data.\<close>

record aead =
  ae_seal :: "string \<Rightarrow> string \<Rightarrow> string \<Rightarrow> string \<Rightarrow> string"
  ae_open :: "string \<Rightarrow> string \<Rightarrow> string \<Rightarrow> string \<Rightarrow> string option"

definition NonceSize :: nat where "NonceSize = 12"

definition cookieName :: string where "cookieName = ''dotvirt_session''"
definition cookiePrefix :: string where "cookiePrefix = ''v2.''"
definition stateCookie :: string where "stateCookie = ''dotvirt_oauth_state''"

definition cookieValue :: "aead \<Rightarrow> string \<Rightarrow> string \<Rightarrow> string \<Rightarrow> string" where
  "cookieValue ae nonce token secret = cookiePrefix @ b64_encode (nonce @ ae_seal ae secret nonce token cookiePrefix)"

definition parseCookieValue :: "aead \<Rightarrow> string \<Rightarrow> string \<Rightarrow> string option" where
  "parseCookieValue ae v secret =
     (case cut_prefix v cookiePrefix of
        None \<Rightarrow> None
      | Some enc \<Rightarrow>
          (case b64_decode enc of
             None \<Rightarrow> None
           | Some sealed \<Rightarrow>
               if length sealed < NonceSize then None
               else ae_open ae secret (take NonceSize sealed) (drop NonceSize sealed) cookiePrefix))"

section \<open>Requests and responses\<close>

record http_request =
  rq_path :: string
  rq_cookies :: "(string \<times> string) list"
  rq_query :: "(string \<times> string) list"
  rq_authorization :: string
  rq_tls :: bool
  rq_forwarded_proto :: string

record http_cookie =
  ck_name :: string
  ck_value :: string
  ck_path :: string
  ck_http_only :: bool
  ck_secure :: bool
  ck_same_site :: string
  ck_max_age :: int

record http_response =
  hs_status :: nat
  hs_body :: string
  hs_location :: string
  hs_retry_after :: string
  hs_cookies :: "http_cookie list"

definition http_error :: "nat \<Rightarrow> string \<Rightarrow> http_response" where
  "http_error code msg = \<lparr>hs_status = code, hs_body = msg, hs_location = '''', hs_retry_after = '''', hs_cookies = []\<rparr>"

definition redirect_to :: "string \<Rightarrow> http_cookie list \<Rightarrow> http_response" where
  "redirect_to url cs = \<lparr>hs_status = 302, hs_body = '''', hs_location = url, hs_retry_after = '''', hs_cookies = cs\<rparr>"

definition throttled_response :: "string \<Rightarrow> http_response" where
  "throttled_response msg = (http_error 429 msg)\<lparr>hs_retry_after := ''1''\<rparr>"

definition isTLS :: "http_request \<Rightarrow> bool" where
  "isTLS r = (rq_tls r \<or> equal_fold (rq_forwarded_proto r) ''https'')"

definition lax_cookie :: "http_request \<Rightarrow> string \<Rightarrow> string \<Rightarrow> string \<Rightarrow> int \<Rightarrow> http_cookie" where
  "lax_cookie r name v path age =
     \<lparr>ck_name = name, ck_value = v, ck_path = path, ck_http_only = True, ck_secure = isTLS r, ck_same_site = ''Lax'', ck_max_age = age\<rparr>"

definition setCookie :: "aead \<Rightarrow> string \<Rightarrow> http_request \<Rightarrow> string \<Rightarrow> string \<Rightarrow> http_cookie" where
  "setCookie ae nonce r token secret = lax_cookie r cookieName (cookieValue ae nonce token secret) ''/'' 0"

definition clearCookie :: "http_request \<Rightarrow> http_cookie" where
  "clearCookie r = lax_cookie r cookieName '''' ''/'' (- 1)"

definition clearStateCookie :: "http_request \<Rightarrow> http_cookie" where
  "clearStateCookie r = lax_cookie r stateCookie '''' ''/api/auth'' (- 1)"

definition readCookie :: "aead \<Rightarrow> http_request \<Rightarrow> string \<Rightarrow> string option" where
  "readCookie ae r secret = (case map_of (rq_cookies r) cookieName of None \<Rightarrow> None | Some v \<Rightarrow> parseCookieValue ae v secret)"

definition query_get :: "http_request \<Rightarrow> string \<Rightarrow> string" where
  "query_get r k = (case map_of (rq_query r) k of None \<Rightarrow> '''' | Some v \<Rightarrow> v)"

section \<open>Tokens\<close>

definition isOpenPath :: "string \<Rightarrow> bool" where
  "isOpenPath path = (path \<in> {''/api/healthz'', ''/api/login'', ''/api/auth/methods'', ''/api/auth/openshift'', ''/api/auth/callback'',
     ''/api/v1/getparams.execute'', ''/api/webhooks/forge''})"

definition tokenFromRequest :: "aead \<Rightarrow> http_request \<Rightarrow> string \<Rightarrow> string option" where
  "tokenFromRequest ae r secret =
     (case readCookie ae r secret of
        Some token \<Rightarrow> Some token
      | None \<Rightarrow>
          (if rq_authorization r = '''' then None
           else (case cut_prefix (rq_authorization r) ''Bearer '' of
                   Some token \<Rightarrow> if token = '''' then None else Some (trim_space token)
                 | None \<Rightarrow> None)))"

text \<open>How an error of a validation answers: what it says when rejected, throttled, or not known.\<close>

definition validation_answer :: "string \<Rightarrow> string \<Rightarrow> string \<Rightarrow> auth_error \<Rightarrow> http_response" where
  "validation_answer no busy down e =
     (case e of Rejected _ \<Rightarrow> http_error 401 no | Throttled \<Rightarrow> throttled_response busy | ReviewFailed _ \<Rightarrow> http_error 503 down)"

text \<open>The next handler with an identity, or none on an open path; or an answer at once.\<close>

datatype passage = Passes "identity option" | Answers http_response

definition Middleware :: "(string \<Rightarrow> string) \<Rightarrow> aead \<Rightarrow> string \<Rightarrow> authenticator \<Rightarrow> validate_env \<Rightarrow> http_request \<Rightarrow> passage \<times> authenticator" where
  "Middleware tkey ae secret a env r =
     (if isOpenPath (rq_path r) then (Passes None, a)
      else (case tokenFromRequest ae r secret of
              None \<Rightarrow> (Answers (http_error 401 ''authentication required''), a)
            | Some token \<Rightarrow>
                (case Validate tkey a env token of
                   (Inl e, a') \<Rightarrow>
                     (Answers (validation_answer ''invalid or expired session'' ''session validation throttled, try again shortly''
                        ''unable to validate session, try again'' e), a')
                 | (Inr i, a') \<Rightarrow> (Passes (Some i), a'))))"

datatype login_body = TooLarge string | Malformed | Posted string

definition Login :: "(string \<Rightarrow> string) \<Rightarrow> aead \<Rightarrow> string \<Rightarrow> string \<Rightarrow> authenticator \<Rightarrow> validate_env \<Rightarrow> http_request \<Rightarrow> login_body \<Rightarrow>
    http_response \<times> identity option \<times> authenticator" where
  "Login tkey ae secret nonce a env r body =
     (case body of
        TooLarge e \<Rightarrow> (http_error 413 e, None, a)
      | Malformed \<Rightarrow> (http_error 400 ''invalid request body'', None, a)
      | Posted t \<Rightarrow>
          (let token = trim_space t in
           case Validate tkey a env token of
             (Inl e, a') \<Rightarrow>
               (validation_answer ''invalid token'' ''too many sign-in attempts, try again shortly'' ''unable to validate token, try again'' e, None, a')
           | (Inr i, a') \<Rightarrow>
               ((http_error 200 '''')\<lparr>hs_cookies := [setCookie ae nonce r token secret]\<rparr>, Some i, a')))"

definition Logout :: "http_request \<Rightarrow> http_response" where
  "Logout r = (http_error 204 '''')\<lparr>hs_cookies := [clearCookie r]\<rparr>"

section \<open>OpenShift SSO\<close>

record oauth_meta =
  om_authorize :: string
  om_token :: string

record oauth =
  oa_meta :: "oauth_meta option"
  oa_registered :: bool
  oa_pending :: bool
  oa_probed :: "int option"

definition NewOAuth :: oauth where
  "NewOAuth = \<lparr>oa_meta = None, oa_registered = False, oa_pending = False, oa_probed = None\<rparr>"

text \<open>The well-known document, read and decoded, or the failure.\<close>

definition discover :: "string + oauth_meta \<Rightarrow> oauth \<Rightarrow> (string + oauth_meta) \<times> oauth" where
  "discover doc o' =
     (case oa_meta o' of
        Some m \<Rightarrow> (Inr m, o')
      | None \<Rightarrow>
          (case doc of
             Inl e \<Rightarrow> (Inl (''oauth discovery: '' @ e), o')
           | Inr m \<Rightarrow>
               if om_authorize m = '''' \<or> om_token m = '''' then (Inl ''oauth discovery: no endpoints in well-known document'', o')
               else (Inr m, o'\<lparr>oa_meta := Some m\<rparr>)))"

text \<open>The bytes read are \<open>None\<close> when the source of randomness fails; \<open>auth_url\<close> is \<open>AuthCodeURL\<close>.\<close>

definition LoginRedirect :: "aead \<Rightarrow> string \<Rightarrow> string \<Rightarrow> (oauth_meta \<Rightarrow> string \<Rightarrow> string) \<Rightarrow> string option \<Rightarrow> string + oauth_meta \<Rightarrow> http_request \<Rightarrow> oauth \<Rightarrow>
    http_response \<times> oauth" where
  "LoginRedirect ae secret nonce auth_url bytes doc r o' =
     (case discover doc o' of
        (Inl e, o2) \<Rightarrow> (http_error 503 (''OpenShift SSO unavailable: '' @ e), o2)
      | (Inr m, o2) \<Rightarrow>
          (case bytes of
             None \<Rightarrow> (http_error 500 ''internal error'', o2)
           | Some b \<Rightarrow>
               (let state = b64_encode b in
                (redirect_to (auth_url m state) [lax_cookie r stateCookie (cookieValue ae nonce state secret) ''/api/auth'' 300], o2))))"

definition staleClientError :: "string \<Rightarrow> bool" where
  "staleClientError code = (code = ''unauthorized_client'' \<or> code = ''invalid_client'')"

definition markStale :: "int \<Rightarrow> oauth \<Rightarrow> oauth" where
  "markStale now o' = o'\<lparr>oa_registered := False, oa_pending := True, oa_probed := Some now\<rparr>"

definition MarkRegistered :: "oauth \<Rightarrow> oauth" where
  "MarkRegistered o' = o'\<lparr>oa_registered := True, oa_pending := False\<rparr>"

text \<open>A failed exchange: the code of the token endpoint's refusal, \<open>None\<close> for another failure.\<close>

type_synonym exchange = "string \<Rightarrow> string option + string"

definition fail_login :: "http_request \<Rightarrow> http_response" where
  "fail_login r = redirect_to ''/?sso_error=1'' [clearStateCookie r]"

definition Callback :: "(string \<Rightarrow> string) \<Rightarrow> aead \<Rightarrow> string \<Rightarrow> string \<Rightarrow> int \<Rightarrow> string + oauth_meta \<Rightarrow> exchange \<Rightarrow> authenticator \<Rightarrow> validate_env \<Rightarrow>
    http_request \<Rightarrow> oauth \<Rightarrow> http_response \<times> authenticator \<times> oauth" where
  "Callback tkey ae secret nonce now doc exch a env r o' =
     (case map_of (rq_cookies r) stateCookie of
        None \<Rightarrow> (fail_login r, a, o')
      | Some v \<Rightarrow>
          (if query_get r ''state'' = '''' \<or> parseCookieValue ae v secret \<noteq> Some (query_get r ''state'') then (fail_login r, a, o')
           else if query_get r ''code'' = '''' then (fail_login r, a, o')
           else
             (case discover doc o' of
                (Inl e, o2) \<Rightarrow> (fail_login r, a, o2)
              | (Inr m, o2) \<Rightarrow>
                  (case exch (query_get r ''code'') of
                     Inl err \<Rightarrow>
                       (fail_login r, a,
                        (case err of Some code \<Rightarrow> if staleClientError code then markStale now o2 else o2 | None \<Rightarrow> o2))
                   | Inr token \<Rightarrow>
                       (case Validate tkey a env token of
                          (Inl e, a') \<Rightarrow> (fail_login r, a', o2)
                        | (Inr i, a') \<Rightarrow> (redirect_to ''/'' [clearStateCookie r, setCookie ae nonce r token secret], a', o2))))))"

text \<open>The two probes: the authorize endpoint's status, then the token endpoint's with the error code of its body; \<open>None\<close> when the request
  fails.\<close>

definition secretStale :: "(nat \<times> string) option \<Rightarrow> bool" where
  "secretStale answer = (case answer of None \<Rightarrow> False | Some (status, code) \<Rightarrow> 400 \<le> status \<and> status < 500 \<and> staleClientError code)"

definition cached_probe :: "int \<Rightarrow> oauth \<Rightarrow> bool option" where
  "cached_probe now o' =
     (if oa_registered o' \<or> (case oa_probed o' of None \<Rightarrow> False | Some t \<Rightarrow> now - t < 10) then Some (oa_registered o' \<or> \<not> oa_pending o') else None)"

definition ClientRegistered :: "int \<Rightarrow> int \<Rightarrow> string + oauth_meta \<Rightarrow> nat option \<Rightarrow> (nat \<times> string) option \<Rightarrow> oauth \<Rightarrow> bool \<times> oauth" where
  "ClientRegistered now later doc authorize_status token_answer o' =
     (case cached_probe now o' of
        Some b \<Rightarrow> (b, o')
      | None \<Rightarrow>
          (case discover doc o' of
             (Inl e, o2) \<Rightarrow> (True, o2)
           | (Inr m, o2) \<Rightarrow>
               (case authorize_status of
                  None \<Rightarrow> (True, o2)
                | Some status \<Rightarrow>
                    (let stale = (status < 400 \<and> secretStale token_answer);
                         registered = (status < 400 \<or> status \<ge> 500) \<and> \<not> stale;
                         definitive = status < 400 \<and> \<not> stale
                     in (registered, o2\<lparr>oa_registered := registered \<and> definitive, oa_pending := \<not> registered, oa_probed := Some later\<rparr>)))))"

section \<open>The encoding is exact\<close>

lemma b64_value_char: "n < 64 \<Longrightarrow> b64_value (b64_char n) = Some n"
proof -
  have d: "distinct b64_alphabet" "length b64_alphabet = 64" by (code_simp, code_simp)
  assume "n < 64"
  then have "(b64_alphabet ! n, [0..<64] ! n) \<in> set (zip b64_alphabet [0..<64])" using d(2) by (auto simp: set_zip)
  then show ?thesis unfolding b64_value_def b64_char_def using d \<open>n < 64\<close> by (intro map_of_is_SomeI) auto
qed

lemma b64_char_plain: "n < 64 \<Longrightarrow> b64_char n \<notin> {CHR 0x0A, CHR 0x0D}"
proof -
  have "CHR 0x0A \<notin> set b64_alphabet" "CHR 0x0D \<notin> set b64_alphabet" "length b64_alphabet = 64" by (code_simp, code_simp, code_simp)
  moreover assume "n < 64"
  ultimately show ?thesis unfolding b64_char_def by (metis insertE nth_mem singletonD)
qed

lemma byte_bound: "byte c < 256"
  unfolding byte_def by (simp add: of_char_def)

lemma byte_char [simp]: "char_of (byte c) = c"
  by (simp add: byte_def)

text \<open>The six-bit values behind an encoding.\<close>

fun b64_values :: "string \<Rightarrow> nat list" where
  "b64_values [] = []"
| "b64_values [a] = [byte a div 4, byte a mod 4 * 16]"
| "b64_values [a, b] = [byte a div 4, byte a mod 4 * 16 + byte b div 16, byte b mod 16 * 4]"
| "b64_values (a # b # c # s) = byte a div 4 # (byte a mod 4 * 16 + byte b div 16) # (byte b mod 16 * 4 + byte c div 64) # byte c mod 64 # b64_values s"

lemma b64_encode_values: "b64_encode s = map b64_char (b64_values s)"
  by (induction s rule: b64_encode.induct) auto

lemma byte_parts: "byte c div 4 < 64" "byte c div 16 < 16" "byte c div 64 < 4"
  using byte_bound[of c] by (simp_all add: less_mult_imp_div_less)

lemma six_bits:
  "byte a div 4 < 64" "byte a mod 4 * 16 < 64" "byte a mod 4 * 16 + byte b div 16 < 64" "byte b mod 16 * 4 < 64"
  "byte b mod 16 * 4 + byte c div 64 < 64" "byte c mod 64 < 64"
proof -
  have m: "byte a mod 4 \<le> 3" "byte b mod 16 \<le> 15" by (simp_all add: less_Suc_eq_le[symmetric])
  show "byte a div 4 < 64" "byte c mod 64 < 64" using byte_parts by simp_all
  show "byte a mod 4 * 16 < 64" "byte a mod 4 * 16 + byte b div 16 < 64" using m byte_parts(2)[of b] by linarith+
  show "byte b mod 16 * 4 < 64" "byte b mod 16 * 4 + byte c div 64 < 64" using m byte_parts(3)[of c] by linarith+
qed

lemma b64_values_bound: "v \<in> set (b64_values s) \<Longrightarrow> v < 64"
  by (induction s rule: b64_values.induct) (auto simp only: b64_values.simps list.set insert_iff empty_iff intro: six_bits)

lemma regroup:
  "byte a div 4 * 4 + byte a mod 4 * 16 div 16 = byte a"
  "byte a div 4 * 4 + (byte a mod 4 * 16 + byte b div 16) div 16 = byte a"
  "(byte a mod 4 * 16 + byte b div 16) mod 16 * 16 + byte b mod 16 * 4 div 4 = byte b"
  "(byte a mod 4 * 16 + byte b div 16) mod 16 * 16 + (byte b mod 16 * 4 + byte c div 64) div 4 = byte b"
  "(byte b mod 16 * 4 + byte c div 64) mod 4 * 64 + byte c mod 64 = byte c"
  by (simp_all add: div_mult_mod_eq div_less[OF byte_parts(2)] div_less[OF byte_parts(3)] mod_less[OF byte_parts(2)] mod_less[OF byte_parts(3)])

lemma b64_groups_values: "b64_groups (b64_values s) = Some s"
  by (induction s rule: b64_values.induct) (simp_all only: b64_values.simps b64_groups.simps regroup byte_char option.map)

lemma b64_round_trip: "b64_decode (b64_encode s) = Some s"
proof -
  have plain: "filter (\<lambda>c. c \<notin> {CHR 0x0A, CHR 0x0D}) (map b64_char (b64_values s)) = map b64_char (b64_values s)"
    using b64_values_bound b64_char_plain by (intro filter_True) auto
  have vals: "map b64_value (map b64_char (b64_values s)) = map Some (b64_values s)"
    using b64_values_bound b64_value_char by (auto simp: map_eq_conv)
  show ?thesis unfolding b64_decode_def Let_def b64_encode_values plain vals by (simp add: image_iff comp_def b64_groups_values)
qed

section \<open>Opening what was sealed\<close>

text \<open>What AES-GCM promises: opening undoes sealing, and a text opens only when sealing would give it, its tag being a function of the rest.\<close>

definition aead_ok :: "aead \<Rightarrow> bool" where
  "aead_ok ae =
     ((\<forall>k n p d. ae_open ae k n (ae_seal ae k n p d) d = Some p) \<and>
      (\<forall>k n c d p. ae_open ae k n c d = Some p \<longrightarrow> c = ae_seal ae k n p d))"

lemma cookie_opens:
  assumes "aead_ok ae" "length nonce = NonceSize"
  shows "parseCookieValue ae (cookieValue ae nonce token secret) secret = Some token"
  using assms by (simp add: parseCookieValue_def cookieValue_def cut_prefix_def has_prefix_append b64_round_trip aead_ok_def)

lemma cookie_was_sealed:
  assumes "aead_ok ae" "parseCookieValue ae v secret = Some token"
  obtains n enc where "length n = NonceSize" "v = cookiePrefix @ enc" "b64_decode enc = Some (n @ ae_seal ae secret n token cookiePrefix)"
proof -
  obtain enc sealed where e: "cut_prefix v cookiePrefix = Some enc" "b64_decode enc = Some sealed" "\<not> length sealed < NonceSize"
    "ae_open ae secret (take NonceSize sealed) (drop NonceSize sealed) cookiePrefix = Some token"
    using assms(2) by (auto simp: parseCookieValue_def split: option.splits if_splits)
  then have "drop NonceSize sealed = ae_seal ae secret (take NonceSize sealed) token cookiePrefix" using assms(1) unfolding aead_ok_def by blast
  then have "sealed = take NonceSize sealed @ ae_seal ae secret (take NonceSize sealed) token cookiePrefix" by (metis append_take_drop_id)
  then show ?thesis using e by (intro that[of "take NonceSize sealed" enc]) (auto simp: cut_prefix_Some)
qed

section \<open>A session rests on a validated token\<close>

lemma cookie_names: "cookieName \<noteq> stateCookie"
  by (simp add: cookieName_def stateCookie_def)

lemma cookie_sel [simp]: "ck_name (lax_cookie r n v p age) = n" "ck_value (lax_cookie r n v p age) = v"
  by (simp_all add: lax_cookie_def)

lemma fail_login_cookies: "c \<in> set (hs_cookies (fail_login r)) \<Longrightarrow> ck_name c = stateCookie"
  by (simp add: fail_login_def redirect_to_def clearStateCookie_def)

lemma callback_session:
  assumes "Callback tkey ae secret nonce now doc exch a env r o' = (resp, a', o2)" "c \<in> set (hs_cookies resp)" "ck_name c = cookieName"
  shows "\<exists>v token i. map_of (rq_cookies r) stateCookie = Some v \<and> query_get r ''state'' \<noteq> '''' \<and> parseCookieValue ae v secret = Some (query_get r ''state'') \<and>
    exch (query_get r ''code'') = Inr token \<and> fst (Validate tkey a env token) = Inr i \<and> ck_value c = cookieValue ae nonce token secret"
proof -
  have "resp \<noteq> fail_login r" using assms(2,3) fail_login_cookies cookie_names by metis
  then obtain v token i m where v: "map_of (rq_cookies r) stateCookie = Some v" "query_get r ''state'' \<noteq> ''''" "parseCookieValue ae v secret = Some (query_get r ''state'')"
    and x: "exch (query_get r ''code'') = Inr token" "fst (Validate tkey a env token) = Inr i"
    and resp: "resp = redirect_to ''/'' [clearStateCookie r, setCookie ae nonce r token secret]"
    using assms(1) by (simp add: Callback_def split: option.splits if_splits sum.splits prod.splits)
  have "c = clearStateCookie r \<or> c = setCookie ae nonce r token secret" using assms(2) by (simp add: resp redirect_to_def)
  then have "ck_value c = cookieValue ae nonce token secret" using assms(3) cookie_names by (auto simp: clearStateCookie_def setCookie_def)
  then show ?thesis using v x by blast
qed

lemma login_session:
  assumes "Login tkey ae secret nonce a env r body = (resp, who, a')" "c \<in> set (hs_cookies resp)"
  shows "\<exists>t i. body = Posted t \<and> who = Some i \<and> fst (Validate tkey a env (trim_space t)) = Inr i \<and> c = setCookie ae nonce r (trim_space t) secret"
proof (cases body)
  case (Posted t)
  show ?thesis
  proof (cases "Validate tkey a env (trim_space t)")
    case (Pair res b)
    then show ?thesis using assms Posted
      by (cases res) (auto simp: Login_def Let_def validation_answer_def http_error_def throttled_response_def split: auth_error.splits)
  qed
qed (use assms in \<open>auto simp: Login_def http_error_def\<close>)

text \<open>C17: Only a token the cluster vouched for opens a session or passes the door. The single sign-on sets the session cookie only for a request whose
  state cookie opens to the state it carries, with the token the code was exchanged for, once that token was validated; a login sets it
  only for the posted token, once validated; and the middleware lets a request through either on one of the open paths, without an
  identity, or with the identity that validating the request's own token gave. What it answers instead is 401 only when there is no token
  or it was rejected, so an API server that is down or busy signs nobody out.\<close>
theorem session_only_validated:
  "(\<forall>c resp a' o2. Callback tkey ae secret nonce now doc exch a env r o' = (resp, a', o2) \<longrightarrow> c \<in> set (hs_cookies resp) \<longrightarrow> ck_name c = cookieName \<longrightarrow>
      (\<exists>v token i. map_of (rq_cookies r) stateCookie = Some v \<and> query_get r ''state'' \<noteq> '''' \<and> parseCookieValue ae v secret = Some (query_get r ''state'') \<and>
         exch (query_get r ''code'') = Inr token \<and> fst (Validate tkey a env token) = Inr i \<and> ck_value c = cookieValue ae nonce token secret)) \<and>
   (\<forall>c resp who a'. Login tkey ae secret nonce a env r body = (resp, who, a') \<longrightarrow> c \<in> set (hs_cookies resp) \<longrightarrow>
      (\<exists>t i. body = Posted t \<and> who = Some i \<and> fst (Validate tkey a env (trim_space t)) = Inr i \<and> c = setCookie ae nonce r (trim_space t) secret)) \<and>
   (case fst (Middleware tkey ae secret a env r) of
      Passes None \<Rightarrow> isOpenPath (rq_path r)
    | Passes (Some i) \<Rightarrow> \<not> isOpenPath (rq_path r) \<and> (\<exists>token. tokenFromRequest ae r secret = Some token \<and> fst (Validate tkey a env token) = Inr i)
    | Answers resp \<Rightarrow> \<not> isOpenPath (rq_path r) \<and>
        (hs_status resp = 401 \<longleftrightarrow> (case tokenFromRequest ae r secret of None \<Rightarrow> True | Some token \<Rightarrow> \<exists>e. fst (Validate tkey a env token) = Inl (Rejected e))))"
proof (intro conjI allI impI)
  show "case fst (Middleware tkey ae secret a env r) of
      Passes None \<Rightarrow> isOpenPath (rq_path r)
    | Passes (Some i) \<Rightarrow> \<not> isOpenPath (rq_path r) \<and> (\<exists>token. tokenFromRequest ae r secret = Some token \<and> fst (Validate tkey a env token) = Inr i)
    | Answers resp \<Rightarrow> \<not> isOpenPath (rq_path r) \<and>
        (hs_status resp = 401 \<longleftrightarrow> (case tokenFromRequest ae r secret of None \<Rightarrow> True | Some token \<Rightarrow> \<exists>e. fst (Validate tkey a env token) = Inl (Rejected e)))"
  proof (cases "isOpenPath (rq_path r)")
    case closed: False
    show ?thesis
    proof (cases "tokenFromRequest ae r secret")
      case None
      then show ?thesis using closed by (simp add: Middleware_def http_error_def)
    next
      case (Some token)
      obtain res b where "Validate tkey a env token = (res, b)" by (cases "Validate tkey a env token")
      then show ?thesis using closed Some
        by (cases res) (auto simp: Middleware_def validation_answer_def http_error_def throttled_response_def split: auth_error.splits)
    qed
  qed (simp add: Middleware_def)
qed (blast dest: callback_session, blast dest: login_session)

definition plain_aead :: aead where
  "plain_aead = \<lparr>ae_seal = (\<lambda>k n p d. d @ p), ae_open = (\<lambda>k n c d. cut_prefix c d)\<rparr>"

lemma plain_aead_ok: "aead_ok plain_aead"
  by (simp add: aead_ok_def plain_aead_def cut_prefix_Some)

definition sso_request :: http_request where
  "sso_request = \<lparr>rq_path = ''/api/auth/callback'',
     rq_cookies = [(stateCookie, cookieValue plain_aead (replicate 12 (CHR ''n'')) ''xyz'' ''s'')],
     rq_query = [(''state'', ''xyz''), (''code'', ''c'')], rq_authorization = '''', rq_tls = True, rq_forwarded_proto = ''''\<rparr>"

theorem session_only_validated_witness:
  "\<exists>i. fst (Validate id NewAuthenticator (demo_env True) ''tok'') = Inr i"
proof -
  let ?run = "Callback id plain_aead ''s'' (replicate 12 (CHR ''m'')) 0 (Inr \<lparr>om_authorize = ''a'', om_token = ''t''\<rparr>) (\<lambda>_. Inr ''tok'')
    NewAuthenticator (demo_env True) sso_request NewOAuth"
  let ?c = "setCookie plain_aead (replicate 12 (CHR ''m'')) sso_request ''tok'' ''s''"
  have "fst ?run = redirect_to ''/'' [clearStateCookie sso_request, ?c]"
    by (simp add: Callback_def sso_request_def query_get_def cookie_opens[OF plain_aead_ok] NonceSize_def discover_def NewOAuth_def
        Validate_def demo_env_def NewAuthenticator_def cache_new_def cache_get_def Let_def setCookie_def clearStateCookie_def lax_cookie_def isTLS_def)
  then obtain a2 o2 where run: "?run = (redirect_to ''/'' [clearStateCookie sso_request, ?c], a2, o2)" by (metis prod.collapse)
  have "?c \<in> set (hs_cookies (redirect_to ''/'' [clearStateCookie sso_request, ?c]))" "ck_name ?c = cookieName"
    by (simp_all add: redirect_to_def setCookie_def)
  from session_only_validated[THEN conjunct1, rule_format, OF run this]
  obtain token i where "fst (Validate id NewAuthenticator (demo_env True) token) = Inr i" "token = ''tok''" by auto
  then show ?thesis by blast
qed

text \<open>A probe that meets a failing OAuth stack leaves the button on.\<close>

lemma flaky_stack_keeps_button:
  assumes "cached_probe now o' = None" "authorize_status = None \<or> (\<exists>s. authorize_status = Some s \<and> s \<ge> 500)"
  shows "fst (ClientRegistered now later doc authorize_status answer o')"
proof (cases "discover doc o'")
  case (Pair res o2)
  then show ?thesis using assms by (cases res) (auto simp: ClientRegistered_def Let_def)
qed

text \<open>A stale secret met at sign-in shows on the next look at the login screen.\<close>

lemma stale_shows: "now' - now < 10 \<Longrightarrow> fst (ClientRegistered now' later doc s answer (markStale now o')) = False"
  by (simp add: ClientRegistered_def cached_probe_def markStale_def)

end
