(* ===== verification/Argo_Drift.thy ===== *)
theory Argo_Drift
  imports Yaml_Tree Forge_Url Model_VM "HOL-Library.AList" "HOL-Library.Word"
begin

text \<open>
  \<open>internal/argo\<close>: what the watched Applications say of each object they manage and of each repository they source. An
  Application is the tree the API serves (well-formed JSON, so \<open>NestedSlice\<close> errs only on a value of another type, which every caller
  reads as absent). A Go map that is iterated is an association list. The store of the watch is its list of Applications in some order;
  writes to it and rebuilds of the derived maps interleave.
\<close>

section \<open>Reading an Application\<close>

definition str_at :: "string list \<Rightarrow> yval \<Rightarrow> string" where
  "str_at ks v = as_string (nested ks v)"

definition maps_at :: "string list \<Rightarrow> yval \<Rightarrow> yval list" where
  "maps_at ks v = (case nested ks v of YSeq xs \<Rightarrow> filter is_map xs | _ \<Rightarrow> [])"

definition live_rows :: "yval \<Rightarrow> yval list" where
  "live_rows app = maps_at [''status'', ''resources''] app"

definition result_rows :: "yval \<Rightarrow> yval list" where
  "result_rows app = maps_at [''status'', ''operationState'', ''syncResult'', ''resources''] app"

record res_key =
  rk_group :: string
  rk_kind :: string
  rk_namespace :: string
  rk_name :: string

definition keyOf :: "yval \<Rightarrow> res_key" where
  "keyOf r = \<lparr>rk_group = str_at [''group''] r, rk_kind = str_at [''kind''] r, rk_namespace = str_at [''namespace''] r, rk_name = str_at [''name''] r\<rparr>"

definition syncStatus :: "string \<Rightarrow> string" where
  "syncStatus s = (if s = ''Synced'' then SyncSynced else if s = ''OutOfSync'' then SyncOutOfSync else SyncUnknown)"

definition shortRev :: "string \<Rightarrow> string" where
  "shortRev sha = (if length sha > 7 then take 7 sha else sha)"

section \<open>Apply messages\<close>

text \<open>\<open>patchTempFile\<close> at the start of a text: what the group captures and what follows the match. No choice of the pattern is
  ambiguous, so the greedy match is the only one.\<close>

definition is_lower_az :: "char \<Rightarrow> bool" where
  "is_lower_az c = (let n = (of_char c :: nat) in 97 \<le> n \<and> n \<le> 122)"

definition is_re_space :: "char \<Rightarrow> bool" where
  "is_re_space c = (c \<in> {CHR 0x09, CHR 0x0A, CHR 0x0C, CHR 0x0D, CHR '' ''})"

definition temp_file_at :: "string \<Rightarrow> (string \<times> string) option" where
  "temp_file_at s =
     (case cut_prefix s ''error when '' of
        None \<Rightarrow> None
      | Some r \<Rightarrow>
          (let word = takeWhile is_lower_az r; r2 = dropWhile is_lower_az r in
           if word \<noteq> [] \<and> (has_prefix r2 ('' '' @ CHR 0x22 # ''/dev/shm/'') \<or> has_prefix r2 ('' '' @ CHR 0x22 # ''/tmp/'')) then
             (case dropWhile (\<lambda>c. c \<noteq> CHR 0x22) (drop 2 r2) of
                [] \<Rightarrow> None
              | _ # r3 \<Rightarrow> Some (''error when '' @ word, dropWhile is_re_space (trim_prefix r3 '':'')))
           else None))"

lemma temp_file_shorter: "temp_file_at s = Some (h, rest) \<Longrightarrow> length rest < length s"
proof -
  assume m: "temp_file_at s = Some (h, rest)"
  then obtain r where r: "s = ''error when '' @ r" by (auto simp: temp_file_at_def cut_prefix_Some split: option.splits)
  obtain c r3 where d: "dropWhile (\<lambda>c. c \<noteq> CHR 0x22) (drop 2 (dropWhile is_lower_az r)) = c # r3" and rest: "rest = dropWhile is_re_space (trim_prefix r3 '':'')"
    using m by (auto simp: temp_file_at_def cut_prefix_def r has_prefix_append Let_def split: list.splits if_splits)
  have "length rest \<le> length r3" unfolding rest by (rule order_trans[OF length_dropWhile_le]) (simp add: trim_prefix_def)
  also have "length r3 < length (drop 2 (dropWhile is_lower_az r))"
    using d length_dropWhile_le[of "\<lambda>c. c \<noteq> CHR 0x22" "drop 2 (dropWhile is_lower_az r)"] by simp
  also have "\<dots> \<le> length s" using length_dropWhile_le[of is_lower_az r] by (simp add: r)
  finally show ?thesis .
qed

function scrubSyncMessage :: "string \<Rightarrow> string" where
  "scrubSyncMessage [] = []"
| "scrubSyncMessage (c # s) =
     (case temp_file_at (c # s) of
        Some (h, rest) \<Rightarrow> h @ '': '' @ scrubSyncMessage rest
      | None \<Rightarrow> c # scrubSyncMessage s)"
  by pat_completeness auto
termination by (relation "measure length") (auto dest: temp_file_shorter)

section \<open>Drift of each object\<close>

record drift =
  df_sync :: string
  df_health :: string
  df_message :: string

type_synonym drift_map = "(res_key \<times> drift) list"

definition live_row :: "yval \<Rightarrow> drift_map \<Rightarrow> drift_map" where
  "live_row r out =
     (if str_at [''name''] r = '''' then out
      else AList.update (keyOf r) \<lparr>df_sync = syncStatus (str_at [''status''] r), df_health = str_at [''health'', ''status''] r, df_message = ''''\<rparr> out)"

definition result_row :: "yval \<Rightarrow> drift_map \<Rightarrow> drift_map" where
  "result_row r out =
     (let msg = str_at [''message''] r in
      if msg = '''' \<or> str_at [''status''] r = ''Synced'' then out
      else (case map_of out (keyOf r) of
              None \<Rightarrow> out
            | Some d \<Rightarrow> if df_sync d = SyncSynced then out else AList.update (keyOf r) (d\<lparr>df_message := scrubSyncMessage msg\<rparr>) out))"

definition mergeSyncMessages :: "drift_map \<Rightarrow> yval \<Rightarrow> drift_map" where
  "mergeSyncMessages out app = fold result_row (result_rows app) out"

definition resourceDriftFromApps :: "yval list \<Rightarrow> drift_map" where
  "resourceDriftFromApps apps = fold (\<lambda>app out. mergeSyncMessages (fold live_row (live_rows app) out) app) apps []"

definition is_vm_key :: "res_key \<Rightarrow> bool" where
  "is_vm_key k = (rk_group k = ''kubevirt.io'' \<and> rk_kind k = ''VirtualMachine'')"

definition vmView :: "drift_map \<Rightarrow> (string \<times> drift) list" where
  "vmView all_drift = fold (\<lambda>(k, d). if is_vm_key k then AList.update (rk_namespace k @ ''/'' @ rk_name k) d else id) all_drift []"

section \<open>The rollup of a repository\<close>

record object_health =
  oh_kind :: string
  oh_namespace :: string
  oh_name :: string
  oh_health :: string
  oh_message :: string

record project_sync =
  ps_sync :: string
  ps_health :: string
  ps_operation :: string
  ps_error :: string
  ps_revision :: string
  ps_unhealthy :: "object_health list"

definition appRepos :: "yval \<Rightarrow> string list" where
  "appRepos app =
     (let u = str_at [''spec'', ''source'', ''repoURL''] app in
      (if u = '''' then [] else [NormalizeRepoURL u]) @
      map NormalizeRepoURL (filter (\<lambda>u. u \<noteq> '''') (map (str_at [''repoURL'']) (maps_at [''spec'', ''sources''] app))))"

definition appRepo :: "yval \<Rightarrow> string" where
  "appRepo app = (case appRepos app of [] \<Rightarrow> '''' | r # _ \<Rightarrow> r)"

definition syncSeverity :: "string \<Rightarrow> nat" where
  "syncSeverity s = (if s = SyncOutOfSync then 3 else if s = SyncUnknown then 2 else if s = SyncSynced then 1 else 0)"

definition healthSeverity :: "string \<Rightarrow> nat" where
  "healthSeverity h = (if h \<in> {''Degraded'', ''Missing''} then 3 else if h \<in> {''Unknown'', ''Progressing''} then 2
     else if h \<in> {''Healthy'', ''Suspended''} then 1 else 0)"

definition opSeverity :: "string \<Rightarrow> nat" where
  "opSeverity phase = (if phase \<in> {''Failed'', ''Error''} then 3 else if phase \<in> {''Running'', ''Terminating''} then 2
     else if phase = ''Succeeded'' then 1 else 0)"

definition rollupSeverity :: "project_sync \<Rightarrow> nat" where
  "rollupSeverity ps = max (syncSeverity (ps_sync ps)) (max (healthSeverity (ps_health ps)) (opSeverity (ps_operation ps)))"

definition op_failed :: "string \<Rightarrow> bool" where
  "op_failed phase = (phase = ''Failed'' \<or> phase = ''Error'')"

definition error_message :: "yval \<Rightarrow> string option" where
  "error_message cond =
     (if has_prefix (rev (str_at [''type''] cond)) (rev ''Error'') \<and> str_at [''message''] cond \<noteq> '''' then Some (str_at [''message''] cond) else None)"

definition errorCondition :: "yval \<Rightarrow> string" where
  "errorCondition app = (case List.map_filter error_message (maps_at [''status'', ''conditions''] app) of [] \<Rightarrow> '''' | m # _ \<Rightarrow> m)"

text \<open>The entry of an object, made when there is none: an association list in order of first mention.\<close>

definition health_entry :: "yval \<Rightarrow> (res_key \<times> object_health) list \<Rightarrow> object_health" where
  "health_entry r out =
     (case map_of out (keyOf r) of
        Some h \<Rightarrow> h
      | None \<Rightarrow> \<lparr>oh_kind = rk_kind (keyOf r), oh_namespace = rk_namespace (keyOf r), oh_name = rk_name (keyOf r), oh_health = '''', oh_message = ''''\<rparr>)"

definition degraded_row :: "yval \<Rightarrow> (res_key \<times> object_health) list \<Rightarrow> (res_key \<times> object_health) list" where
  "degraded_row r out =
     (let h = str_at [''health'', ''status''] r in
      if str_at [''name''] r = '''' \<or> h \<in> {'''', ''Healthy'', ''Progressing'', ''Suspended''} then out
      else AList.update (keyOf r) ((health_entry r out)\<lparr>oh_health := h, oh_message := str_at [''health'', ''message''] r\<rparr>) out)"

definition refused_row :: "res_key list \<Rightarrow> yval \<Rightarrow> (res_key \<times> object_health) list \<Rightarrow> (res_key \<times> object_health) list" where
  "refused_row synced r out =
     (let msg = str_at [''message''] r in
      if str_at [''name''] r = '''' \<or> msg = '''' \<or> str_at [''status''] r = ''Synced'' \<or> keyOf r \<in> set synced then out
      else AList.update (keyOf r) ((health_entry r out)\<lparr>oh_message := scrubSyncMessage msg\<rparr>) out)"

definition synced_keys :: "yval \<Rightarrow> res_key list" where
  "synced_keys app = map keyOf (filter (\<lambda>r. str_at [''name''] r \<noteq> '''' \<and> syncStatus (str_at [''status''] r) = SyncSynced) (live_rows app))"

definition object_less :: "object_health \<Rightarrow> object_health \<Rightarrow> bool" where
  "object_less a b = ((oh_kind a, oh_namespace a, oh_name a) < (oh_kind b, oh_namespace b, oh_name b))"

definition unhealthyResources :: "yval \<Rightarrow> bool \<Rightarrow> object_health list" where
  "unhealthyResources app opStands =
     (let out = fold degraded_row (live_rows app) [];
          out = (if opStands then fold (refused_row (synced_keys app)) (result_rows app) out else out)
      in go_sort object_less (map snd out))"

definition app_rollup :: "yval \<Rightarrow> project_sync" where
  "app_rollup app =
     (let sync = syncStatus (str_at [''status'', ''sync'', ''status''] app);
          op = str_at [''status'', ''operationState'', ''phase''] app;
          failed = (if op_failed op \<and> sync \<noteq> SyncSynced then scrubSyncMessage (str_at [''status'', ''operationState'', ''message''] app) else '''')
      in \<lparr>ps_sync = sync, ps_health = str_at [''status'', ''health'', ''status''] app, ps_operation = op,
           ps_error = (if failed = '''' then errorCondition app else failed),
           ps_revision = shortRev (str_at [''status'', ''sync'', ''revision''] app),
           ps_unhealthy = unhealthyResources app (op_failed op)\<rparr>)"

definition rollup_step :: "yval \<Rightarrow> (string \<times> project_sync) list \<Rightarrow> (string \<times> project_sync) list" where
  "rollup_step app out =
     (let repo = appRepo app; ps = app_rollup app in
      if repo = '''' then out
      else (case map_of out repo of
              Some prev \<Rightarrow> if rollupSeverity ps \<ge> rollupSeverity prev then AList.update repo ps out else out
            | None \<Rightarrow> AList.update repo ps out))"

definition appSyncFromApps :: "yval list \<Rightarrow> (string \<times> project_sync) list" where
  "appSyncFromApps apps = fold rollup_step apps []"

section \<open>The snapshot\<close>

definition appKey :: "yval \<Rightarrow> string" where
  "appKey app = obj_namespace app @ ''/'' @ obj_name app"

definition app_less :: "yval \<Rightarrow> yval \<Rightarrow> bool" where
  "app_less a b = (appKey a < appKey b)"

text \<open>What one scan of the Applications derives.\<close>

record derived =
  dv_resources :: drift_map
  dv_vms :: "(string \<times> drift) list"
  dv_projects :: "(string \<times> project_sync) list"

definition derive :: "yval list \<Rightarrow> derived" where
  "derive apps =
     (let objs = go_sort app_less apps; all_drift = resourceDriftFromApps objs in
      \<lparr>dv_resources = all_drift, dv_vms = vmView all_drift, dv_projects = appSyncFromApps objs\<rparr>)"

definition nonVMEqual :: "drift_map \<Rightarrow> drift_map \<Rightarrow> bool" where
  "nonVMEqual a b =
     (let keep = filter (\<lambda>(k, d). \<not> is_vm_key k) in
      length (keep a) = length (keep b) \<and> list_all (\<lambda>(k, d). map_of b k = Some d) (keep a))"

record drift_snapshot =
  sn_synced :: bool
  sn_apps :: "yval list"
  sn_dirty :: bool
  sn_cache :: "derived option"
  sn_gen :: "64 word"

definition NewSnapshot :: drift_snapshot where
  "NewSnapshot = \<lparr>sn_synced = False, sn_apps = [], sn_dirty = False, sn_cache = None, sn_gen = 0\<rparr>"

text \<open>\<open>rebuildLocked\<close>: whether a scan is due (the mark is taken down only when there is a cache), and the swap of the maps for one.\<close>

definition rebuild_due :: "drift_snapshot \<Rightarrow> bool \<times> drift_snapshot" where
  "rebuild_due s = (case sn_cache s of None \<Rightarrow> (True, s) | Some _ \<Rightarrow> (sn_dirty s, s\<lparr>sn_dirty := False\<rparr>))"

definition cached_resources :: "drift_snapshot \<Rightarrow> drift_map" where
  "cached_resources s = (case sn_cache s of None \<Rightarrow> [] | Some d \<Rightarrow> dv_resources d)"

definition rebuild_with :: "yval list \<Rightarrow> drift_snapshot \<Rightarrow> drift_snapshot" where
  "rebuild_with objs s =
     (let d = derive objs in
      s\<lparr>sn_cache := Some d, sn_gen := (if nonVMEqual (cached_resources s) (dv_resources d) then sn_gen s else sn_gen s + 1)\<rparr>)"

definition rebuildLocked :: "drift_snapshot \<Rightarrow> drift_snapshot" where
  "rebuildLocked s = (case rebuild_due s of (due, s') \<Rightarrow> if due then rebuild_with (sn_apps s') s' else s')"

definition Drift :: "drift_snapshot \<Rightarrow> (string \<times> drift) list option \<times> drift_snapshot" where
  "Drift s = (if \<not> sn_synced s then (None, s) else (let s' = rebuildLocked s in (map_option dv_vms (sn_cache s'), s')))"

definition ProjectDrift :: "drift_snapshot \<Rightarrow> (string \<times> project_sync) list option \<times> drift_snapshot" where
  "ProjectDrift s = (if \<not> sn_synced s then (None, s) else (let s' = rebuildLocked s in (map_option dv_projects (sn_cache s'), s')))"

definition ResourceDrift :: "res_key \<Rightarrow> drift_snapshot \<Rightarrow> drift option \<times> drift_snapshot" where
  "ResourceDrift k s = (if \<not> sn_synced s then (None, s) else (let s' = rebuildLocked s in (map_of (cached_resources s') k, s')))"

definition ObjectDriftGen :: "drift_snapshot \<Rightarrow> 64 word \<times> drift_snapshot" where
  "ObjectDriftGen s = (if \<not> sn_synced s then (0, s) else (let s' = rebuildLocked s in (sn_gen s', s')))"

definition ForeignApps :: "string \<Rightarrow> drift_snapshot \<Rightarrow> string list option" where
  "ForeignApps ownRepo s =
     (let own = NormalizeRepoURL ownRepo in
      if \<not> sn_synced s then None
      else Some (concat (map (\<lambda>u. [obj_name u, obj_namespace u @ ''_'' @ obj_name u, obj_namespace u @ ''/'' @ obj_name u])
             (filter (\<lambda>u. \<not> (own \<noteq> '''' \<and> own \<in> set (appRepos u))) (sn_apps s)))))"

definition row_ref :: "yval \<Rightarrow> object_ref" where
  "row_ref r = \<lparr>or_kind = str_at [''kind''] r, or_namespace = str_at [''namespace''] r, or_name = str_at [''name''] r\<rparr>"

definition prune_row :: "string list \<Rightarrow> yval \<Rightarrow> bool" where
  "prune_row namespaces r =
     (nested [''requiresPruning''] r = YBool True \<and> or_kind (row_ref r) \<noteq> '''' \<and> or_name (row_ref r) \<noteq> '''' \<and> or_namespace (row_ref r) \<in> set namespaces)"

definition ref_less :: "object_ref \<Rightarrow> object_ref \<Rightarrow> bool" where
  "ref_less a b = ((or_namespace a, or_kind a, or_name a) < (or_namespace b, or_kind b, or_name b))"

definition PrunePending :: "string \<Rightarrow> string list \<Rightarrow> drift_snapshot \<Rightarrow> object_ref list" where
  "PrunePending repo namespaces s =
     (let own = NormalizeRepoURL repo in
      if \<not> sn_synced s \<or> own = '''' then []
      else go_sort ref_less (concat (map (\<lambda>u. map row_ref (filter (prune_row namespaces) (live_rows u)))
             (filter (\<lambda>u. own \<in> set (appRepos u)) (sn_apps s)))))"

section \<open>Syncing\<close>

record app_ref =
  ar_namespace :: string
  ar_name :: string
  ar_revision :: string

definition appRefOf :: "yval \<Rightarrow> app_ref" where
  "appRefOf app = \<lparr>ar_namespace = obj_namespace app, ar_name = obj_name app, ar_revision = str_at [''spec'', ''source'', ''targetRevision''] app\<rparr>"

definition appManagesVM :: "string \<Rightarrow> string \<Rightarrow> yval \<Rightarrow> bool" where
  "appManagesVM namespace name app =
     list_ex (\<lambda>r. str_at [''kind''] r = ''VirtualMachine'' \<and> str_at [''namespace''] r = namespace \<and> str_at [''name''] r = name) (live_rows app)"

definition managingApp :: "string \<Rightarrow> string \<Rightarrow> drift_snapshot \<Rightarrow> app_ref option" where
  "managingApp namespace name s =
     (if \<not> sn_synced s then None else map_option appRefOf (find (appManagesVM namespace name) (sn_apps s)))"

text \<open>The fallback lists the Applications, \<open>None\<close> when that fails.\<close>

definition findmanagingAppLive :: "string \<Rightarrow> string \<Rightarrow> yval list option \<Rightarrow> app_ref option" where
  "findmanagingAppLive namespace name listed =
     (case listed of None \<Rightarrow> None | Some apps \<Rightarrow> map_option appRefOf (find (appManagesVM namespace name) apps))"

definition resyncPatch :: "string \<Rightarrow> string \<Rightarrow> yval" where
  "resyncPatch username revision =
     YMap [(''operation'', YMap
       [(''initiatedBy'', YMap [(''username'', YStr username)]),
        (''sync'', YMap [(''revision'', YStr revision)]),
        (''info'', YSeq [YMap [(''name'', YStr ''reason''), (''value'', YStr ''dotvirt re-sync from git'')]])])]"

datatype sync_error = NoManagingApp | PatchRefused string

text \<open>\<open>Snapshot.Resync\<close>: the patch sent, when one is, and the answer. \<open>patch\<close> is \<open>patchApp\<close>'s error.\<close>

definition SyncVM :: "yval list option \<Rightarrow> (string \<Rightarrow> string \<Rightarrow> yval \<Rightarrow> string option) \<Rightarrow> string \<Rightarrow> string \<Rightarrow> string \<Rightarrow> drift_snapshot \<Rightarrow>
    (string \<times> string \<times> yval) option \<times> (sync_error + string \<times> string)" where
  "SyncVM listed patch username namespace name s =
     (let found = (case managingApp namespace name s of Some a \<Rightarrow> Some a | None \<Rightarrow> findmanagingAppLive namespace name listed) in
      case found of
        None \<Rightarrow> (None, Inl NoManagingApp)
      | Some a \<Rightarrow>
          (let revision = (if ar_revision a = '''' then ''HEAD'' else ar_revision a); p = resyncPatch username revision in
           (Some (ar_namespace a, ar_name a, p),
            case patch (ar_namespace a) (ar_name a) p of Some e \<Rightarrow> Inl (PatchRefused e) | None \<Rightarrow> Inr (ar_name a, revision))))"

definition appSourcesAny :: "yval \<Rightarrow> string set \<Rightarrow> bool" where
  "appSourcesAny app want = list_ex (\<lambda>u. u \<in> want) (appRepos app)"

text \<open>The Applications asked for a hard refresh; what a request answers is only logged.\<close>

definition RefreshForRepo :: "string list \<Rightarrow> drift_snapshot \<Rightarrow> (string \<times> string) list" where
  "RefreshForRepo urls s =
     (let want = set (filter (\<lambda>n. n \<noteq> '''') (map NormalizeRepoURL urls)) in
      if \<not> sn_synced s \<or> want = {} then []
      else map (\<lambda>u. (obj_namespace u, obj_name u)) (filter (\<lambda>u. appSourcesAny u want) (sn_apps s)))"

section \<open>Rollup keeps the worst\<close>

lemma rollup_step_lookup:
  "map_of (rollup_step app out) repo =
     (if appRepo app = repo \<and> repo \<noteq> '''' then
        (case map_of out repo of Some prev \<Rightarrow> if rollupSeverity (app_rollup app) \<ge> rollupSeverity prev then Some (app_rollup app) else Some prev
         | None \<Rightarrow> Some (app_rollup app))
      else map_of out repo)"
  by (auto simp: rollup_step_def Let_def update_conv' split: option.splits)

lemma rollup_fold:
  "(case map_of (fold rollup_step apps out) repo of
      None \<Rightarrow> map_of out repo = None \<and> (repo = '''' \<or> (\<forall>a \<in> set apps. appRepo a \<noteq> repo))
    | Some ps \<Rightarrow> (map_of out repo = Some ps \<or> repo \<noteq> '''' \<and> (\<exists>a \<in> set apps. appRepo a = repo \<and> ps = app_rollup a)) \<and>
        (\<forall>prev. map_of out repo = Some prev \<longrightarrow> rollupSeverity prev \<le> rollupSeverity ps) \<and>
        (repo \<noteq> '''' \<longrightarrow> (\<forall>a \<in> set apps. appRepo a = repo \<longrightarrow> rollupSeverity (app_rollup a) \<le> rollupSeverity ps)))"
proof (induction apps arbitrary: out)
  case Nil
  then show ?case by (auto split: option.splits)
next
  case (Cons a apps)
  note ih = Cons.IH[of "rollup_step a out"]
  show ?case
  proof (cases "map_of (fold rollup_step (a # apps) out) repo")
    case None
    with ih show ?thesis by (auto simp: rollup_step_lookup split: if_splits option.splits)
  next
    case (Some ps)
    with ih have now: "map_of (rollup_step a out) repo = Some ps \<or> repo \<noteq> '''' \<and> (\<exists>a \<in> set apps. appRepo a = repo \<and> ps = app_rollup a)"
      and prev: "\<forall>prev. map_of (rollup_step a out) repo = Some prev \<longrightarrow> rollupSeverity prev \<le> rollupSeverity ps"
      and others: "repo \<noteq> '''' \<longrightarrow> (\<forall>a \<in> set apps. appRepo a = repo \<longrightarrow> rollupSeverity (app_rollup a) \<le> rollupSeverity ps)" by simp_all
    have "map_of out repo = Some ps \<or> repo \<noteq> '''' \<and> (\<exists>b \<in> set (a # apps). appRepo b = repo \<and> ps = app_rollup b)"
      using now by (auto simp: rollup_step_lookup split: if_splits option.splits)
    moreover have "\<forall>prev. map_of out repo = Some prev \<longrightarrow> rollupSeverity prev \<le> rollupSeverity ps"
      using prev by (auto simp: rollup_step_lookup split: if_splits)
    moreover have "appRepo a = repo \<longrightarrow> repo \<noteq> '''' \<longrightarrow> rollupSeverity (app_rollup a) \<le> rollupSeverity ps"
      using prev by (auto simp: rollup_step_lookup split: if_splits option.splits)
    ultimately show ?thesis using Some others by simp
  qed
qed

text \<open>What calls for action: a failed operation, a difference from git, or objects degraded or missing.\<close>

definition alarming :: "project_sync \<Rightarrow> bool" where
  "alarming ps = (op_failed (ps_operation ps) \<or> ps_sync ps = SyncOutOfSync \<or> ps_health ps \<in> {''Degraded'', ''Missing''})"

lemma severity_le: "syncSeverity s \<le> 3" "healthSeverity h \<le> 3" "opSeverity p \<le> 3"
  by (simp_all add: syncSeverity_def healthSeverity_def opSeverity_def)

lemma severity_top:
  "syncSeverity s = 3 \<longleftrightarrow> s = SyncOutOfSync" "healthSeverity h = 3 \<longleftrightarrow> h \<in> {''Degraded'', ''Missing''}" "opSeverity p = 3 \<longleftrightarrow> op_failed p"
  by (auto simp: syncSeverity_def healthSeverity_def opSeverity_def op_failed_def)

lemma max_top: "a \<le> 3 \<Longrightarrow> b \<le> 3 \<Longrightarrow> c \<le> 3 \<Longrightarrow> 3 \<le> max a (max b c) \<longleftrightarrow> a = 3 \<or> b = 3 \<or> c = (3::nat)"
  by (auto simp: max_def)

lemma alarming_iff: "alarming ps \<longleftrightarrow> 3 \<le> rollupSeverity ps"
  unfolding rollupSeverity_def by (simp add: max_top severity_le severity_top alarming_def disj_ac)

text \<open>C20: A project's badge never hides a broken Application behind a healthy one. The rollup is keyed by an Application's primary source, the
  first repository it sources. A repository shows the rollup of an Application whose primary source it is, one of the most severe of them; it
  shows none exactly when it is no Application's primary source, one that sources it second included; and when any Application with it as
  primary source failed, differs from git or is degraded, the rollup shown is itself failed, different or degraded.\<close>
theorem project_rollup_worst:
  assumes "repo \<noteq> ''''"
  shows "case map_of (appSyncFromApps apps) repo of
      None \<Rightarrow> \<forall>a \<in> set apps. appRepo a \<noteq> repo
    | Some ps \<Rightarrow>
        (\<exists>a \<in> set apps. appRepo a = repo \<and> ps = app_rollup a) \<and>
        (\<forall>a \<in> set apps. appRepo a = repo \<longrightarrow> rollupSeverity (app_rollup a) \<le> rollupSeverity ps \<and> (alarming (app_rollup a) \<longrightarrow> alarming ps))"
  using rollup_fold[where apps = apps and out = "[]" and repo = repo] assms unfolding appSyncFromApps_def
  by (auto simp: alarming_iff intro: order_trans split: option.splits)

definition synced_app :: yval where
  "synced_app = YMap [(''metadata'', YMap [(''name'', YStr ''a''), (''namespace'', YStr ''argo'')]),
     (''spec'', YMap [(''source'', YMap [(''repoURL'', YStr ''https://git/shop.git'')])]),
     (''status'', YMap [(''sync'', YMap [(''status'', YStr ''Synced'')]), (''health'', YMap [(''status'', YStr ''Healthy'')])])]"

definition failed_app :: yval where
  "failed_app = YMap [(''metadata'', YMap [(''name'', YStr ''b''), (''namespace'', YStr ''argo'')]),
     (''spec'', YMap [(''source'', YMap [(''repoURL'', YStr ''https://git/shop'')])]),
     (''status'', YMap [(''sync'', YMap [(''status'', YStr ''OutOfSync'')]),
        (''operationState'', YMap [(''phase'', YStr ''Failed''), (''message'', YStr ''denied'')])])]"

theorem project_rollup_worst_witness:
  "\<exists>ps. map_of (appSyncFromApps [failed_app, synced_app]) ''https://git/shop'' = Some ps \<and> alarming ps"
proof -
  have r: "appRepo failed_app = ''https://git/shop''" "alarming (app_rollup failed_app)" by code_simp+
  have ne: "''https://git/shop'' \<noteq> ''''" by simp
  show ?thesis
  proof (cases "map_of (appSyncFromApps [failed_app, synced_app]) ''https://git/shop''")
    case None
    with project_rollup_worst[OF ne, of "[failed_app, synced_app]"] r show ?thesis by simp
  next
    case (Some ps)
    with project_rollup_worst[OF ne, of "[failed_app, synced_app]"] r show ?thesis by simp
  qed
qed

text \<open>An Application that sources a repository beside another one is in the answer to "does it source it" and not in the rollup.\<close>

definition two_source_app :: yval where
  "two_source_app = YMap [(''metadata'', YMap [(''name'', YStr ''c''), (''namespace'', YStr ''argo'')]),
     (''spec'', YMap [(''sources'', YSeq [YMap [(''repoURL'', YStr ''https://git/charts'')], YMap [(''repoURL'', YStr ''https://git/shop'')]])]),
     (''status'', YMap [(''sync'', YMap [(''status'', YStr ''OutOfSync'')])])]"

lemma rollup_misses_second_source:
  "''https://git/shop'' \<in> set (appRepos two_source_app) \<and> alarming (app_rollup two_source_app) \<and>
   map_of (appSyncFromApps [two_source_app]) ''https://git/shop'' = None"
  by code_simp

section \<open>What is said of each object\<close>

definition reports :: "res_key \<Rightarrow> yval \<Rightarrow> bool" where
  "reports k r = (str_at [''name''] r \<noteq> '''' \<and> keyOf r = k)"

definition drift_base :: "drift \<Rightarrow> string \<times> string" where
  "drift_base d = (df_sync d, df_health d)"

definition row_base :: "yval \<Rightarrow> string \<times> string" where
  "row_base r = (syncStatus (str_at [''status''] r), str_at [''health'', ''status''] r)"

text \<open>A result row that complains of an object.\<close>

definition complains :: "res_key \<Rightarrow> string \<Rightarrow> yval \<Rightarrow> bool" where
  "complains k msg r = (keyOf r = k \<and> str_at [''status''] r \<noteq> ''Synced'' \<and> msg = scrubSyncMessage (str_at [''message''] r))"

lemma live_row_lookup:
  "map_of (live_row r out) k =
     (if reports k r then Some \<lparr>df_sync = fst (row_base r), df_health = snd (row_base r), df_message = ''''\<rparr> else map_of out k)"
  by (auto simp: live_row_def reports_def row_base_def update_conv')

lemma result_row_lookup:
  "map_of (result_row r out) k =
     map_option (\<lambda>d. if keyOf r = k \<and> str_at [''message''] r \<noteq> '''' \<and> str_at [''status''] r \<noteq> ''Synced'' \<and> df_sync d \<noteq> SyncSynced
                     then d\<lparr>df_message := scrubSyncMessage (str_at [''message''] r)\<rparr> else d) (map_of out k)"
  by (cases "map_of out k") (auto simp: result_row_def Let_def update_conv' split: option.splits)

lemma base_results: "map_option drift_base (map_of (fold result_row rs out) k) = map_option drift_base (map_of out k)"
proof (induction rs arbitrary: out)
  case (Cons r rs)
  have "map_option drift_base (map_of (result_row r out) k) = map_option drift_base (map_of out k)"
    by (cases "map_of out k") (simp_all add: result_row_lookup drift_base_def)
  then show ?case using Cons.IH[of "result_row r out"] by simp
qed simp

lemma base_lives:
  "map_option drift_base (map_of (fold live_row rs out) k) =
     (case find (reports k) (rev rs) of Some r \<Rightarrow> Some (row_base r) | None \<Rightarrow> map_option drift_base (map_of out k))"
proof (induction rs arbitrary: out)
  case (Cons r rs)
  have "map_option drift_base (map_of (live_row r out) k) = (if reports k r then Some (row_base r) else map_option drift_base (map_of out k))"
    by (simp add: live_row_lookup drift_base_def)
  then show ?case using Cons.IH[of "live_row r out"] by (simp add: find_append split: option.splits)
qed simp

lemma base_apps:
  "map_option drift_base (map_of (fold (\<lambda>app out. mergeSyncMessages (fold live_row (live_rows app) out) app) apps out) k) =
     (case find (reports k) (rev (concat (map live_rows apps))) of Some r \<Rightarrow> Some (row_base r) | None \<Rightarrow> map_option drift_base (map_of out k))"
proof (induction apps arbitrary: out)
  case (Cons a apps)
  then show ?case by (simp add: find_append mergeSyncMessages_def base_results base_lives split: option.splits)
qed simp

definition messages_ok :: "yval set \<Rightarrow> drift_map \<Rightarrow> bool" where
  "messages_ok rows out =
     (\<forall>k d. map_of out k = Some d \<longrightarrow> df_message d \<noteq> '''' \<longrightarrow> df_sync d \<noteq> SyncSynced \<and> (\<exists>r \<in> rows. complains k (df_message d) r))"

lemma messages_live: "messages_ok rows out \<Longrightarrow> messages_ok rows (live_row r out)"
  by (simp add: messages_ok_def live_row_lookup)

lemma messages_result:
  assumes "messages_ok rows out" "r \<in> rows"
  shows "messages_ok rows (result_row r out)"
  unfolding messages_ok_def
proof (intro allI impI)
  fix k d assume l: "map_of (result_row r out) k = Some d" and m: "df_message d \<noteq> ''''"
  then obtain d0 where d0: "map_of out k = Some d0" by (auto simp: result_row_lookup)
  show "df_sync d \<noteq> SyncSynced \<and> (\<exists>r \<in> rows. complains k (df_message d) r)"
  proof (cases "d = d0")
    case True
    then show ?thesis using assms(1) d0 m unfolding messages_ok_def by blast
  next
    case False
    then have "complains k (df_message d) r" "df_sync d \<noteq> SyncSynced" using l d0 by (auto simp: result_row_lookup complains_def split: if_splits)
    then show ?thesis using assms(2) by blast
  qed
qed

lemma messages_apps: "messages_ok (\<Union>(set ` result_rows ` set apps)) (resourceDriftFromApps apps)"
  unfolding resourceDriftFromApps_def
proof (rule fold_keeps)
  fix app s assume app: "app \<in> set apps" and s: "messages_ok (\<Union>(set ` result_rows ` set apps)) s"
  from s have "messages_ok (\<Union>(set ` result_rows ` set apps)) (fold live_row (live_rows app) s)" by (rule fold_keeps[rotated]) (rule messages_live)
  then show "messages_ok (\<Union>(set ` result_rows ` set apps)) (mergeSyncMessages (fold live_row (live_rows app) s) app)"
    unfolding mergeSyncMessages_def by (rule fold_keeps[rotated]) (use app in \<open>blast intro: messages_result\<close>)
qed (simp add: messages_ok_def)

text \<open>An object's drift is what the Applications say of it. An object has an entry exactly when some Application's live tree names it;
  its sync and health are those of the last row that does (so never the empty sync status); and it wears an error only while it is
  not synced, one that a refused row of some Application's last operation gives for that very object.\<close>
theorem object_drift_reported:
  "case map_of (resourceDriftFromApps apps) k of
      None \<Rightarrow> \<forall>a \<in> set apps. \<forall>r \<in> set (live_rows a). \<not> reports k r
    | Some d \<Rightarrow>
        (\<exists>r. find (reports k) (rev (concat (map live_rows apps))) = Some r \<and> (df_sync d, df_health d) = row_base r) \<and>
        df_sync d \<in> {SyncSynced, SyncOutOfSync, SyncUnknown} \<and>
        (df_message d \<noteq> '''' \<longrightarrow> df_sync d \<noteq> SyncSynced \<and> (\<exists>a \<in> set apps. \<exists>r \<in> set (result_rows a). complains k (df_message d) r))"
proof (cases "map_of (resourceDriftFromApps apps) k")
  case None
  then have "find (reports k) (rev (concat (map live_rows apps))) = None"
    using base_apps[where k = k and apps = apps and out = "[]"] by (simp add: resourceDriftFromApps_def split: option.splits)
  then show ?thesis using None by (fastforce simp: find_None_iff)
next
  case (Some d)
  then obtain r where r: "find (reports k) (rev (concat (map live_rows apps))) = Some r" "drift_base d = row_base r"
    using base_apps[where k = k and apps = apps and out = "[]"] by (auto simp: resourceDriftFromApps_def split: option.splits)
  moreover have "df_sync d \<in> {SyncSynced, SyncOutOfSync, SyncUnknown}"
    using r(2) by (auto simp: drift_base_def row_base_def syncStatus_def)
  moreover have "df_message d \<noteq> '''' \<longrightarrow> df_sync d \<noteq> SyncSynced \<and> (\<exists>a \<in> set apps. \<exists>r \<in> set (result_rows a). complains k (df_message d) r)"
    using messages_apps[of apps] Some unfolding messages_ok_def by blast
  ultimately show ?thesis using Some by (auto simp: drift_base_def)
qed

definition web_key :: res_key where
  "web_key = \<lparr>rk_group = ''kubevirt.io'', rk_kind = ''VirtualMachine'', rk_namespace = ''shop'', rk_name = ''web''\<rparr>"

definition web_fields :: "(string \<times> yval) list" where
  "web_fields = [(''group'', YStr ''kubevirt.io''), (''kind'', YStr ''VirtualMachine''), (''namespace'', YStr ''shop''), (''name'', YStr ''web'')]"

text \<open>A sync that succeeded and skipped the prune of an object.\<close>

definition skipped_app :: yval where
  "skipped_app = YMap [(''status'', YMap
     [(''resources'', YSeq [YMap (web_fields @ [(''status'', YStr ''OutOfSync'')])]),
      (''operationState'', YMap [(''phase'', YStr ''Succeeded''),
         (''syncResult'', YMap [(''resources'', YSeq [YMap (web_fields @ [(''status'', YStr ''PruneSkipped''), (''message'', YStr ''ignored (no prune)'')])])])])])]"

theorem object_drift_reported_witness:
  "\<exists>d. map_of (resourceDriftFromApps [skipped_app]) web_key = Some d \<and> df_sync d = SyncOutOfSync"
proof (cases "map_of (resourceDriftFromApps [skipped_app]) web_key")
  case None
  have "\<exists>r \<in> set (live_rows skipped_app). reports web_key r" by code_simp
  with object_drift_reported[of "[skipped_app]" web_key] None show ?thesis by auto
next
  case (Some d)
  with object_drift_reported[of "[skipped_app]" web_key]
  obtain r where "find (reports web_key) (rev (concat (map live_rows [skipped_app]))) = Some r" "(df_sync d, df_health d) = row_base r" by auto
  moreover have "map_option row_base (find (reports web_key) (rev (concat (map live_rows [skipped_app])))) = Some (SyncOutOfSync, '''')" by code_simp
  ultimately show ?thesis using Some by auto
qed

text \<open>The list of unhealthy objects takes messages of a failed operation only; the object's own drift takes those of any.\<close>

lemma message_after_success:
  "map_option df_message (map_of (resourceDriftFromApps [skipped_app]) web_key) = Some ''ignored (no prune)''"
  "\<not> op_failed (ps_operation (app_rollup skipped_app))" "ps_unhealthy (app_rollup skipped_app) = []"
  by code_simp+

section \<open>The generation of the other kinds\<close>

lemma distinct_update_fst [intro]: "distinct (map fst m) \<Longrightarrow> distinct (map fst (AList.update k v m))"
  by (rule distinct_update)

lemma distinct_drift: "distinct (map fst (resourceDriftFromApps apps))"
  unfolding resourceDriftFromApps_def mergeSyncMessages_def
  by (intro fold_keeps[where P = "\<lambda>m. distinct (map fst m)"])
    (auto simp: live_row_def result_row_def Let_def split: option.splits)

text \<open>With as many entries, each found in the other, two maps are equal as far as the kinds kept go.\<close>

lemma nonVMEqual_iff:
  assumes "distinct (map fst a)" "distinct (map fst b)"
  shows "nonVMEqual a b \<longleftrightarrow> (\<forall>k. \<not> is_vm_key k \<longrightarrow> map_of a k = map_of b k)"
proof -
  let ?keep = "filter (\<lambda>(k :: res_key, d :: drift). \<not> is_vm_key k)"
  have look: "map_of (?keep m) k = (if is_vm_key k then None else map_of m k)" for m k
    by (induction m) auto
  have distinct_mapD: "distinct (map fst xs) \<Longrightarrow> distinct xs" for xs :: drift_map by (simp add: distinct_map)
  have d: "distinct (map fst (?keep a))" "distinct (map fst (?keep b))"
    using assms by (simp_all add: distinct_map_filter)
  show ?thesis
  proof
    assume eq: "nonVMEqual a b"
    have sub: "set (?keep a) \<subseteq> set (?keep b)"
    proof
      fix x assume x: "x \<in> set (?keep a)"
      obtain k v where kv: "x = (k, v)" by (cases x)
      with x eq have "map_of b k = Some v" "\<not> is_vm_key k" unfolding nonVMEqual_def list_all_iff Let_def by auto
      then show "x \<in> set (?keep b)" using map_of_SomeD[of b k v] kv by simp
    qed
    have "card (set (?keep a)) = card (set (?keep b))"
      using eq d[THEN distinct_mapD, THEN distinct_card] unfolding nonVMEqual_def Let_def by argo
    with sub have "set (?keep a) = set (?keep b)" by (intro card_subset_eq) auto
    then have "map_of (?keep a) = map_of (?keep b)" using d by (simp add: map_of_inject_set)
    then show "\<forall>k. \<not> is_vm_key k \<longrightarrow> map_of a k = map_of b k" unfolding fun_eq_iff look by presburger
  next
    assume eq: "\<forall>k. \<not> is_vm_key k \<longrightarrow> map_of a k = map_of b k"
    then have "map_of (?keep a) = map_of (?keep b)" by (simp add: fun_eq_iff look)
    then have s: "set (?keep a) = set (?keep b)" using d by (simp add: map_of_inject_set)
    then have "length (?keep a) = length (?keep b)" using d by (metis distinct_card distinct_map)
    moreover have "list_all (\<lambda>(k, d). map_of b k = Some d) (?keep a)"
      using eq assms by (auto simp: list_all_iff)
    ultimately show "nonVMEqual a b" by (simp add: nonVMEqual_def Let_def)
  qed
qed

lemma obj_gen_moves:
  assumes "sn_synced s" "sn_cache s = Some d" "dv_resources d = resourceDriftFromApps old"
  shows "fst (ObjectDriftGen s) = sn_gen s \<longleftrightarrow>
    \<not> sn_dirty s \<or> (\<forall>k. \<not> is_vm_key k \<longrightarrow> map_of (dv_resources d) k = map_of (dv_resources (derive (sn_apps s))) k)"
proof -
  have "nonVMEqual (dv_resources d) (dv_resources (derive (sn_apps s))) \<longleftrightarrow>
      (\<forall>k. \<not> is_vm_key k \<longrightarrow> map_of (dv_resources d) k = map_of (dv_resources (derive (sn_apps s))) k)"
    by (rule nonVMEqual_iff) (simp_all add: assms(3) derive_def Let_def distinct_drift)
  then show ?thesis
    using assms(1,2) by (auto simp: ObjectDriftGen_def rebuildLocked_def rebuild_due_def rebuild_with_def cached_resources_def Let_def)
qed

section \<open>Reads while the watch writes\<close>

text \<open>A write of the store and its mark are two steps; a read under the lock checks the mark, scans the store and swaps the maps in three.
  The contents so far are kept, and the latest one whose writes had all been announced.\<close>

datatype reader_pc = Idle | Checked nat | Scanned nat "yval list"

record drift_world =
  dw_snap :: drift_snapshot
  dw_contents :: "yval list list"
  dw_unmarked :: nat
  dw_announced :: nat
  dw_reader :: reader_pc
  dw_answers :: "(nat \<times> derived) list"

inductive drift_step :: "drift_world \<Rightarrow> drift_world \<Rightarrow> bool" where
  Write: "drift_step w (w\<lparr>dw_snap := (dw_snap w)\<lparr>sn_apps := apps\<rparr>, dw_contents := dw_contents w @ [apps], dw_unmarked := Suc (dw_unmarked w)\<rparr>)"
| Mark: "dw_unmarked w = Suc n \<Longrightarrow>
    drift_step w (w\<lparr>dw_snap := (dw_snap w)\<lparr>sn_dirty := True\<rparr>, dw_unmarked := n,
      dw_announced := (if n = 0 then length (dw_contents w) - 1 else dw_announced w)\<rparr>)"
| Hit: "dw_reader w = Idle \<Longrightarrow> rebuild_due (dw_snap w) = (False, s) \<Longrightarrow> sn_cache s = Some d \<Longrightarrow>
    drift_step w (w\<lparr>dw_snap := s, dw_answers := (dw_announced w, d) # dw_answers w\<rparr>)"
| Due: "dw_reader w = Idle \<Longrightarrow> rebuild_due (dw_snap w) = (True, s) \<Longrightarrow> drift_step w (w\<lparr>dw_snap := s, dw_reader := Checked (dw_announced w)\<rparr>)"
| Scan: "dw_reader w = Checked f \<Longrightarrow> drift_step w (w\<lparr>dw_reader := Scanned f (sn_apps (dw_snap w))\<rparr>)"
| Swap: "dw_reader w = Scanned f objs \<Longrightarrow> s = rebuild_with objs (dw_snap w) \<Longrightarrow> sn_cache s = Some d \<Longrightarrow>
    drift_step w (w\<lparr>dw_snap := s, dw_reader := Idle, dw_answers := (f, d) # dw_answers w\<rparr>)"

definition drift_start :: "yval list \<Rightarrow> drift_world" where
  "drift_start apps = \<lparr>dw_snap = NewSnapshot\<lparr>sn_synced := True, sn_apps := apps\<rparr>, dw_contents = [apps], dw_unmarked = 0, dw_announced = 0,
     dw_reader = Idle, dw_answers = []\<rparr>"

inductive drift_reach :: "drift_world \<Rightarrow> bool" where
  Start: "drift_reach (drift_start apps)"
| Step: "drift_reach w \<Longrightarrow> drift_step w w' \<Longrightarrow> drift_reach w'"

definition from_content :: "drift_world \<Rightarrow> nat \<Rightarrow> derived \<Rightarrow> bool" where
  "from_content w f d = (\<exists>v \<ge> f. v < length (dw_contents w) \<and> d = derive (dw_contents w ! v))"

definition contents_ok :: "drift_world \<Rightarrow> bool" where
  "contents_ok w =
     (dw_contents w \<noteq> [] \<and> last (dw_contents w) = sn_apps (dw_snap w) \<and> dw_announced w < length (dw_contents w) \<and>
      (dw_unmarked w = 0 \<longrightarrow> dw_announced w = length (dw_contents w) - 1))"

definition reader_ok :: "drift_world \<Rightarrow> bool" where
  "reader_ok w =
     (case dw_reader w of
        Idle \<Rightarrow> \<not> sn_dirty (dw_snap w) \<longrightarrow> (\<forall>d. sn_cache (dw_snap w) = Some d \<longrightarrow> from_content w (dw_announced w) d)
      | Checked f \<Rightarrow> f \<le> dw_announced w
      | Scanned f objs \<Rightarrow> from_content w f (derive objs) \<and> (\<not> sn_dirty (dw_snap w) \<longrightarrow> from_content w (dw_announced w) (derive objs)))"

definition drift_answers_ok :: "drift_world \<Rightarrow> bool" where
  "drift_answers_ok w = (\<forall>(f, d) \<in> set (dw_answers w). from_content w f d)"

lemma from_content_grow:
  "from_content w f d \<Longrightarrow> dw_contents w' = dw_contents w @ more_contents \<Longrightarrow> from_content w' f d"
  unfolding from_content_def by (metis length_append nth_append trans_less_add1)

lemma from_content_same: "dw_contents w' = dw_contents w \<Longrightarrow> from_content w' = from_content w"
  by (simp add: from_content_def fun_eq_iff)

lemma from_content_now: "contents_ok w \<Longrightarrow> f \<le> dw_announced w \<Longrightarrow> from_content w f (derive (sn_apps (dw_snap w)))"
  unfolding contents_ok_def from_content_def
  by (intro exI[of _ "length (dw_contents w) - 1"]) (auto simp: last_conv_nth)

lemma rebuild_due_cases:
  assumes "rebuild_due s = (due, s')"
  obtains (first) "sn_cache s = None" "due" "s' = s"
    | (later) "sn_cache s \<noteq> None" "due = sn_dirty s" "s' = s\<lparr>sn_dirty := False\<rparr>"
  using assms by (auto simp: rebuild_due_def split: option.splits)

lemma drift_step_ok:
  assumes "drift_step w w'" "contents_ok w" "reader_ok w" "drift_answers_ok w"
  shows "contents_ok w' \<and> reader_ok w' \<and> drift_answers_ok w'"
  using assms(1)
proof cases
  case (Write apps)
  have g: "from_content w f d \<Longrightarrow> from_content w' f d" for f d by (rule from_content_grow[where more_contents = "[apps]"]) (simp_all add: Write)
  have "contents_ok w'" using assms(2) by (simp add: Write contents_ok_def)
  moreover have "reader_ok w'" using assms(3) g by (auto simp: Write reader_ok_def split: reader_pc.splits)
  moreover have "drift_answers_ok w'" using assms(4) g by (auto simp: Write drift_answers_ok_def)
  ultimately show ?thesis by blast
next
  case (Mark n)
  have f: "from_content w' = from_content w" by (rule from_content_same) (simp add: Mark)
  have "dw_announced w \<le> dw_announced w'" using assms(2) by (auto simp: Mark contents_ok_def)
  then have "reader_ok w'" using assms(3) f by (auto simp: Mark reader_ok_def split: reader_pc.splits)
  moreover have "contents_ok w'" using assms(2) by (auto simp: Mark contents_ok_def)
  moreover have "drift_answers_ok w'" using assms(4) f by (simp add: Mark drift_answers_ok_def)
  ultimately show ?thesis by blast
next
  case (Hit s d)
  have f: "from_content w' = from_content w" by (rule from_content_same) (simp add: Hit)
  from Hit(3) show ?thesis
  proof (cases rule: rebuild_due_cases)
    case later
    then have "from_content w (dw_announced w) d" using assms(3) Hit by (simp add: reader_ok_def)
    then show ?thesis using assms(2-4) f Hit later by (auto simp: contents_ok_def reader_ok_def drift_answers_ok_def)
  qed simp
next
  case (Due s)
  have f: "from_content w' = from_content w" by (rule from_content_same) (simp add: Due)
  from Due(3) show ?thesis
    by (cases rule: rebuild_due_cases) (use assms(2-4) f Due in \<open>auto simp: contents_ok_def reader_ok_def drift_answers_ok_def\<close>)
next
  case (Scan f)
  have c: "from_content w' = from_content w" by (rule from_content_same) (simp add: Scan)
  have "f \<le> dw_announced w" using assms(3) Scan by (simp add: reader_ok_def)
  with from_content_now[OF assms(2)] have "reader_ok w'" using c by (simp add: Scan reader_ok_def)
  then show ?thesis using assms(2,4) c by (auto simp: Scan contents_ok_def drift_answers_ok_def)
next
  case (Swap f objs s d)
  have c: "from_content w' = from_content w" by (rule from_content_same) (simp add: Swap)
  have d: "d = derive objs" and s: "sn_apps s = sn_apps (dw_snap w)" "sn_dirty s = sn_dirty (dw_snap w)" using Swap by (simp_all add: rebuild_with_def Let_def)
  have "from_content w f d" "\<not> sn_dirty (dw_snap w) \<longrightarrow> from_content w (dw_announced w) d" using assms(3) Swap d by (simp_all add: reader_ok_def)
  then show ?thesis using assms(2,4) c s Swap by (auto simp: contents_ok_def reader_ok_def drift_answers_ok_def)
qed

lemma drift_reach_ok: "drift_reach w \<Longrightarrow> contents_ok w \<and> reader_ok w \<and> drift_answers_ok w"
proof (induction rule: drift_reach.induct)
  case (Start apps)
  then show ?case by (simp add: drift_start_def contents_ok_def reader_ok_def drift_answers_ok_def NewSnapshot_def)
next
  case (Step w w')
  then show ?case using drift_step_ok by blast
qed

text \<open>C19: Drift read from memory is never older than what was announced. Whatever the watch writes while reads go on, every answer is derived
  from one content of the store, at least as new as the last one whose writes had all been announced when the read began; and a read
  with no write in between answers for the present Applications.\<close>
theorem drift_reads_current:
  assumes "drift_reach w"
  shows "(\<forall>(f, d) \<in> set (dw_answers w). \<exists>v \<ge> f. v < length (dw_contents w) \<and> d = derive (dw_contents w ! v)) \<and>
    (dw_reader w = Idle \<and> dw_unmarked w = 0 \<longrightarrow> sn_cache (rebuildLocked (dw_snap w)) = Some (derive (sn_apps (dw_snap w))))"
proof -
  note ok = drift_reach_ok[OF assms]
  have "sn_cache (rebuildLocked (dw_snap w)) = Some (derive (sn_apps (dw_snap w)))" if idle: "dw_reader w = Idle" "dw_unmarked w = 0"
  proof (cases "sn_cache (dw_snap w) = None \<or> sn_dirty (dw_snap w)")
    case True
    then show ?thesis by (cases "sn_cache (dw_snap w)") (auto simp: rebuildLocked_def rebuild_due_def rebuild_with_def Let_def)
  next
    case False
    then obtain d where d: "sn_cache (dw_snap w) = Some d" by auto
    with ok idle False obtain v where v: "v \<ge> dw_announced w" "v < length (dw_contents w)" "d = derive (dw_contents w ! v)"
      by (auto simp: reader_ok_def from_content_def)
    have "dw_announced w = length (dw_contents w) - 1" using ok idle by (simp add: contents_ok_def)
    with v have "v = length (dw_contents w) - 1" by simp
    then have "d = derive (sn_apps (dw_snap w))" using v ok by (auto simp: contents_ok_def last_conv_nth)
    then show ?thesis using d False by (simp add: rebuildLocked_def rebuild_due_def)
  qed
  then show ?thesis using ok unfolding drift_answers_ok_def from_content_def by blast
qed

theorem drift_reads_current_witness:
  "sn_cache (rebuildLocked (dw_snap (drift_start [synced_app]))) = Some (derive [synced_app])"
  using drift_reads_current[OF drift_reach.Start, of "[synced_app]"] by (simp add: drift_start_def)

section \<open>What a sync would delete\<close>

lemma less_func_ref: "less_func ref_less"
  by (rule less_func_key[where key = "\<lambda>r. (or_namespace r, or_kind r, or_name r)"]) (simp add: ref_less_def)

lemma ref_less_apart: "\<not> ref_less a b \<Longrightarrow> \<not> ref_less b a \<Longrightarrow> a = b"
  unfolding ref_less_def by (metis object_ref.equality old.unit.exhaust linorder_neqE prod.inject)

text \<open>The list of an application's pending deletions says what Argo's comparison says, in an order that the scan does not show through.\<close>

lemma prune_pending_exact:
  assumes "sn_synced s" "NormalizeRepoURL repo \<noteq> ''''"
  shows "set (PrunePending repo nss s) =
    {row_ref r | r u. u \<in> set (sn_apps s) \<and> NormalizeRepoURL repo \<in> set (appRepos u) \<and> r \<in> set (live_rows u) \<and> prune_row nss r}"
  using assms by (auto simp: PrunePending_def Let_def)

lemma prune_pending_order:
  assumes "mset (sn_apps s) = mset (sn_apps t)" "sn_synced s = sn_synced t"
  shows "PrunePending repo nss s = PrunePending repo nss t"
proof -
  have "mset (concat (map f (filter p (sn_apps s)))) = mset (concat (map f (filter p (sn_apps t))))" for f :: "yval \<Rightarrow> object_ref list" and p
  proof -
    have c: "mset (concat (map f ys)) = \<Sum>\<^sub># (image_mset (\<lambda>y. mset (f y)) (mset ys))" for ys by (induction ys) auto
    show ?thesis unfolding c by (simp add: assms(1) mset_filter)
  qed
  then show ?thesis unfolding PrunePending_def Let_def assms(2)
    by (auto intro: less_func.ordered_unique[OF less_func_ref] less_func.go_sort_ordered[OF less_func_ref] dest: ref_less_apart)
qed

end
