(* ===== verification/Clusterstate_Live.thy ===== *)
theory Clusterstate_Live
  imports Project_Resolve Model_VM "HOL-Library.Word" "HOL-Library.AList"
begin

text \<open>
  \<open>internal/clusterstate/clusterstate.go\<close>, reading: the live state of every VM, and what network policies and the connectivity check
  need to know of one. The stores hold objects of their own type only, one per key; a time is its RFC 3339 text, empty for the zero
  time; a quantity is its text. The watches that fill the stores are in \<open>Watch_Stores\<close>.
\<close>

section \<open>Objects\<close>

text \<open>A network of a VM: bound to the pod network, or by Multus to a named one, possibly as the default.\<close>

record vm_network =
  vn_pod :: bool
  vn_multus :: "(string \<times> bool) option"

record vmi_interface =
  if_name :: string
  if_mac :: string
  if_ip :: string
  if_ips :: "string list"

record vmi_move =
  mv_source :: string
  mv_target :: string
  mv_completed :: bool
  mv_failed :: bool
  mv_start :: "string option"
  mv_end :: "string option"

type_synonym cpu_topology = "32 word \<times> 32 word \<times> 32 word"

record vmi =
  vi_namespace :: string
  vi_name :: string
  vi_labels :: labels
  vi_networks :: "vm_network list"
  vi_cpu :: "cpu_topology option"
  vi_phase :: string
  vi_node :: string
  vi_os :: string
  vi_interfaces :: "vmi_interface list"
  vi_memory :: "string option option"
  vi_topology :: "cpu_topology option"
  vi_transitions :: "(string \<times> string) list"
  vi_conditions :: "(string \<times> string) list"
  vi_move :: "vmi_move option"

record vm_template =
  te_labels :: labels
  te_networks :: "vm_network list"
  te_autoattach :: "bool option"

record vm_object =
  vb_namespace :: string
  vb_name :: string
  vb_template :: "vm_template option"

record cluster_state =
  st_vms :: "vm_object list"
  st_vmis :: "vmi list"
  st_nss :: "namespace_obj list"

definition vm_obj_key :: "vm_object \<Rightarrow> string" where
  "vm_obj_key v = vb_namespace v @ ''/'' @ vb_name v"

definition vmi_key :: "vmi \<Rightarrow> string" where
  "vmi_key v = vi_namespace v @ ''/'' @ vi_name v"

section \<open>Live state\<close>

record live_nic =
  ln_name :: string
  ln_mac :: string
  ln_ip :: string

record live_move =
  lm_source :: string
  lm_target :: string
  lm_started :: string
  lm_ended :: string
  lm_completed :: bool
  lm_failed :: bool

record live_state =
  ls_phase :: string
  ls_guest_ip :: string
  ls_ips :: "string list"
  ls_node :: string
  ls_os :: string
  ls_memory :: string
  ls_vcpus :: int
  ls_started :: string
  ls_paused :: bool
  ls_vm_ready :: bool
  ls_nics :: "live_nic list"
  ls_move :: "live_move option"

definition stopped :: live_state where
  "stopped = \<lparr>ls_phase = '''', ls_guest_ip = '''', ls_ips = [], ls_node = '''', ls_os = '''', ls_memory = '''', ls_vcpus = 0, ls_started = '''',
     ls_paused = False, ls_vm_ready = False, ls_nics = [], ls_move = None\<rparr>"

text \<open>The factors are 32-bit, the product is a 64-bit \<open>int\<close>.\<close>

definition cpuProduct :: "32 word \<Rightarrow> 32 word \<Rightarrow> 32 word \<Rightarrow> int" where
  "cpuProduct sockets cores threads =
     (let n = (\<lambda>v :: 32 word. if v = 0 then 1 else (ucast v :: 64 word)) in sint (n sockets * n cores * n threads))"

text \<open>The last value given under a name, where one is.\<close>

definition last_of :: "string \<Rightarrow> (string \<times> string) list \<Rightarrow> string option" where
  "last_of k kvs = map_of (rev kvs) k"

definition live_move_of :: "vmi_move \<Rightarrow> live_move" where
  "live_move_of m =
     \<lparr>lm_source = mv_source m, lm_target = mv_target m, lm_started = (case mv_start m of None \<Rightarrow> '''' | Some t \<Rightarrow> t),
      lm_ended = (case mv_end m of None \<Rightarrow> '''' | Some t \<Rightarrow> t), lm_completed = mv_completed m, lm_failed = mv_failed m\<rparr>"

definition liveFromVMI :: "vmi \<Rightarrow> live_state" where
  "liveFromVMI v =
     \<lparr>ls_phase = vi_phase v,
      ls_guest_ip = (case vi_interfaces v of [] \<Rightarrow> '''' | i # _ \<Rightarrow> if_ip i),
      ls_ips = concat (map if_ips (vi_interfaces v)),
      ls_node = vi_node v,
      ls_os = vi_os v,
      ls_memory = (case vi_memory v of Some (Some q) \<Rightarrow> q | _ \<Rightarrow> ''''),
      ls_vcpus = (case vi_topology v of
          Some (s, c, t) \<Rightarrow> cpuProduct s c t
        | None \<Rightarrow> (case vi_cpu v of Some (s, c, t) \<Rightarrow> cpuProduct s c t | None \<Rightarrow> 0)),
      ls_started = (case last_of ''Running'' (vi_transitions v) of None \<Rightarrow> '''' | Some t \<Rightarrow> t),
      ls_paused = (last_of ''Paused'' (vi_conditions v) = Some ''True''),
      ls_vm_ready = (last_of ''Ready'' (vi_conditions v) = Some ''True''),
      ls_nics = map (\<lambda>i. \<lparr>ln_name = if_name i, ln_mac = if_mac i, ln_ip = if_ip i\<rparr>) (vi_interfaces v),
      ls_move = map_option live_move_of (vi_move v)\<rparr>"

definition LiveVMs :: "cluster_state \<Rightarrow> (string \<times> live_state) list" where
  "LiveVMs s = fold (\<lambda>v. AList.update (vmi_key v) (liveFromVMI v)) (st_vmis s) (fold (\<lambda>v. AList.update (vm_obj_key v) stopped) (st_vms s) [])"

text \<open>\<open>GetByKey\<close>\<close>

definition vmi_at :: "string \<Rightarrow> string \<Rightarrow> cluster_state \<Rightarrow> vmi option" where
  "vmi_at namespace name s = find (\<lambda>v. vmi_key v = namespace @ ''/'' @ name) (st_vmis s)"

definition vm_obj_at :: "string \<Rightarrow> string \<Rightarrow> cluster_state \<Rightarrow> vm_object option" where
  "vm_obj_at namespace name s = find (\<lambda>v. vm_obj_key v = namespace @ ''/'' @ name) (st_vms s)"

definition VMObjects :: "string list \<Rightarrow> cluster_state \<Rightarrow> vm_object list" where
  "VMObjects namespaces s = filter (\<lambda>v. vb_namespace v \<in> set namespaces) (st_vms s)"

text \<open>The labels, whether they are the running VM's; none when the VM is in neither store.\<close>

definition WorkloadLabels :: "string \<Rightarrow> string \<Rightarrow> cluster_state \<Rightarrow> (labels \<times> bool) option" where
  "WorkloadLabels namespace name s =
     (case vmi_at namespace name s of
        Some v \<Rightarrow> Some (vi_labels v, True)
      | None \<Rightarrow> map_option (\<lambda>v. (case vb_template v of None \<Rightarrow> [] | Some t \<Rightarrow> te_labels t, False)) (vm_obj_at namespace name s))"

record workload_nets =
  wn_pod :: bool
  wn_default :: string
  wn_nets :: "string list"
  wn_ips :: "string list"

definition qualified_net :: "string \<Rightarrow> string \<Rightarrow> string" where
  "qualified_net namespace ref = (if CHR ''/'' \<in> set ref then ref else namespace @ ''/'' @ ref)"

definition attach_network :: "string \<Rightarrow> vm_network \<Rightarrow> workload_nets \<Rightarrow> workload_nets" where
  "attach_network namespace n w =
     (if vn_pod n then w\<lparr>wn_pod := True\<rparr>
      else (case vn_multus n of
              Some (ref, True) \<Rightarrow> w\<lparr>wn_default := qualified_net namespace ref\<rparr>
            | Some (ref, False) \<Rightarrow> w\<lparr>wn_nets := wn_nets w @ [qualified_net namespace ref]\<rparr>
            | None \<Rightarrow> w))"

definition from_spec :: "string \<Rightarrow> vm_network list \<Rightarrow> workload_nets" where
  "from_spec namespace ns = fold (attach_network namespace) ns \<lparr>wn_pod = False, wn_default = '''', wn_nets = [], wn_ips = []\<rparr>"

definition WorkloadNetworks :: "string \<Rightarrow> string \<Rightarrow> cluster_state \<Rightarrow> workload_nets option" where
  "WorkloadNetworks namespace name s =
     (case vmi_at namespace name s of
        Some v \<Rightarrow> Some ((from_spec namespace (vi_networks v))\<lparr>wn_ips := concat (map if_ips (vi_interfaces v))\<rparr>)
      | None \<Rightarrow>
          map_option (\<lambda>v. case vb_template v of
              None \<Rightarrow> from_spec namespace []
            | Some t \<Rightarrow> (let w = from_spec namespace (te_networks t) in
                if te_networks t = [] \<and> te_autoattach t \<noteq> Some False then w\<lparr>wn_pod := True\<rparr> else w)) (vm_obj_at namespace name s))"

definition NamespaceLabels :: "string \<Rightarrow> cluster_state \<Rightarrow> labels option" where
  "NamespaceLabels name s = map_option no_labels (find (\<lambda>n. no_name n = name) (st_nss s))"

definition Namespaces :: "cluster_state \<Rightarrow> namespace_obj list" where
  "Namespaces s = st_nss s"

section \<open>What is read\<close>

lemma fold_update_lookup:
  "map_of (fold (\<lambda>v. AList.update (key v) (val v)) xs m) k =
     (case find (\<lambda>v. key v = k) (rev xs) of Some v \<Rightarrow> Some (val v) | None \<Rightarrow> map_of m k)"
proof (induction xs rule: rev_induct)
  case (snoc x xs)
  then show ?case by (auto simp: update_conv')
qed simp

lemma find_rev_unique: "distinct (map key xs) \<Longrightarrow> find (\<lambda>v. key v = k) (rev xs) = find (\<lambda>v. key v = k) xs"
proof (induction xs)
  case (Cons x xs)
  show ?case
  proof (cases "key x = k")
    case True
    have "key x \<notin> key ` set xs" using Cons.prems by simp
    then have "\<forall>v \<in> set xs. key v \<noteq> k" unfolding True[symmetric] by (metis imageI)
    then have "find (\<lambda>v. key v = k) (rev xs) = None" unfolding find_None_iff by simp
    then show ?thesis using True by (simp add: find_append)
  next
    case False
    then show ?thesis using Cons by (simp add: find_append split: option.splits)
  qed
qed simp

text \<open>A running VM shows its instance's state, one without an instance shows as stopped, and nothing else shows.\<close>

lemma live_vms_lookup:
  assumes "distinct (map vmi_key (st_vmis s))"
  shows "map_of (LiveVMs s) (namespace @ ''/'' @ name) =
    (case vmi_at namespace name s of
       Some v \<Rightarrow> Some (liveFromVMI v)
     | None \<Rightarrow> map_option (\<lambda>_. stopped) (vm_obj_at namespace name s))"
proof -
  have stop: "map_of (fold (\<lambda>v. AList.update (vm_obj_key v) stopped) vs []) k = map_option (\<lambda>_. stopped) (find (\<lambda>v. vm_obj_key v = k) vs)" for vs k
  proof -
    have "(find (\<lambda>v. vm_obj_key v = k) (rev vs) = None) = (find (\<lambda>v. vm_obj_key v = k) vs = None)" by (auto simp: find_None_iff)
    then show ?thesis
      by (cases "find (\<lambda>v. vm_obj_key v = k) (rev vs)"; cases "find (\<lambda>v. vm_obj_key v = k) vs") (simp_all add: fold_update_lookup[where val = "\<lambda>_. stopped"])
  qed
  show ?thesis
    unfolding LiveVMs_def fold_update_lookup[where key = vmi_key] find_rev_unique[OF assms] stop vmi_at_def vm_obj_at_def ..
qed

text \<open>The product is the real one whenever it fits an \<open>int\<close>.\<close>

lemma sint_word_of_int_small: "0 \<le> n \<Longrightarrow> n < 2 ^ 63 \<Longrightarrow> sint (word_of_int n :: 64 word) = n"
  by (simp add: sint_uint uint_word_of_int_eq take_bit_int_eq_self signed_take_bit_int_eq_self)

lemma cpu_product_exact:
  assumes "a = (if s = 0 then 1 else uint s)" "b = (if c = 0 then 1 else uint c)" "d = (if t = 0 then 1 else uint t)" "a * b * d < 2 ^ 63"
  shows "cpuProduct s c t = a * b * d"
proof -
  have "v \<noteq> 0 \<Longrightarrow> 0 < uint v" for v :: "32 word" by (metis uint_0_iff uint_ge_0 order_le_neq_trans)
  then have "0 < a" "0 < b" "0 < d" by (simp_all add: assms(1-3))
  then have r: "0 \<le> a * b * d" by (simp add: less_imp_le)
  have n: "(if v = 0 then 1 else (ucast v :: 64 word)) = word_of_int (if v = 0 then 1 else uint v)" for v :: "32 word" by simp
  have "cpuProduct s c t = sint (word_of_int (a * b * d) :: 64 word)"
    unfolding cpuProduct_def Let_def n assms(1-3)[symmetric] wi_hom_mult ..
  then show ?thesis using sint_word_of_int_small[OF r assms(4)] by (rule trans)
qed

end
