(* ===== verification/Inventory_Build.thy ===== *)
theory Inventory_Build
  imports Changeset_Example Argo_Drift Clusterstate_Live
begin

text \<open>
  \<open>internal/inventory\<close>: the tree a caller sees, project by project: what the base branch declares in the project's namespaces, with the live
  state and the drift of each VM, and the VMs that run there undeclared. A Go map that is iterated is an association list.
\<close>

section \<open>Inputs and rows\<close>

text \<open>The repositories and the base branch are the reader's; no drift means that Argo is not wired or has not been read yet.\<close>

record inventory_inputs =
  in_projects :: "project_info list"
  in_reader :: reader
  in_live :: "(string \<times> live_state) list"
  in_drift :: "(string \<times> drift) list option"
  in_project_drift :: "(string \<times> project_sync) list option"

record project_namespace =
  pn_namespace :: string
  pn_vms :: "vm list"

record project_row =
  pj_name :: string
  pj_repo :: string
  pj_namespaces :: "project_namespace list"
  pj_error :: string
  pj_gitops :: "project_sync option"

definition splitKey :: "string \<Rightarrow> (string \<times> string) option" where
  "splitKey k = (if CHR ''/'' \<in> set k then Some (takeWhile (\<lambda>c. c \<noteq> CHR ''/'') k, tl (dropWhile (\<lambda>c. c \<noteq> CHR ''/'') k)) else None)"

definition row_key :: "vm \<Rightarrow> string" where
  "row_key v = vm_namespace v @ ''/'' @ vm_name v"

section \<open>One VM\<close>

text \<open>The address of a network card is the last one reported under its name.\<close>

definition live_nic_on :: "live_nic list \<Rightarrow> nic \<Rightarrow> nic" where
  "live_nic_on nics n =
     (case find (\<lambda>l. ln_name l = nc_name n) (rev nics) of
        None \<Rightarrow> n
      | Some l \<Rightarrow> n\<lparr>nc_mac := ln_mac l, nc_ip := ln_ip l\<rparr>)"

definition applyLive :: "vm \<Rightarrow> live_state \<Rightarrow> vm" where
  "applyLive v s =
     v\<lparr>vm_phase := ls_phase s, vm_guest_ip := ls_guest_ip s, vm_node := ls_node s, vm_paused := ls_paused s, vm_ips := ls_ips s,
       vm_os := ls_os s, vm_memory_actual := ls_memory s, vm_vcpus := ls_vcpus s,
       vm_networks := map (live_nic_on (ls_nics s)) (vm_networks v),
       vm_started_at := (if ls_started s = '''' then vm_started_at v else ls_started s),
       vm_migration_state := (case ls_move s of
           None \<Rightarrow> vm_migration_state v
         | Some m \<Rightarrow> Some \<lparr>vg_source = lm_source m, vg_target = lm_target m, vg_started = lm_started m, vg_ended = lm_ended m,
                         vg_completed = lm_completed m, vg_failed = lm_failed m\<rparr>)\<rparr>"

definition enrich :: "inventory_inputs \<Rightarrow> vm \<Rightarrow> vm" where
  "enrich inp v =
     (let k = row_key v;
          v = (case map_of (in_live inp) k of None \<Rightarrow> v | Some s \<Rightarrow> applyLive v s) in
      case in_drift inp of
        None \<Rightarrow> v
      | Some m \<Rightarrow>
          (case map_of m k of
             Some d \<Rightarrow> v\<lparr>vm_sync := df_sync d, vm_health := df_health d, vm_sync_error := df_message d\<rparr>
           | None \<Rightarrow> v\<lparr>vm_sync := SyncPending\<rparr>))"

definition cluster_row :: "string \<Rightarrow> string \<Rightarrow> live_state \<Rightarrow> vm" where
  "cluster_row ns name s =
     applyLive (empty_vm\<lparr>vm_namespace := ns, vm_name := name, vm_power := PowerUnknown, vm_sync := SyncNotTracked\<rparr>) s"

section \<open>One project\<close>

text \<open>The VMs read off the repository and the badge when that failed.\<close>

definition project_vms :: "inventory_inputs \<Rightarrow> project_info \<Rightarrow> vm list \<times> string" where
  "project_vms inp p =
     (if pi_repo p = '''' then ([], pi_error p)
      else (case rd_repos (in_reader inp) (pi_repo p) of
              Inl _ \<Rightarrow> ([], ''repo unavailable'')
            | Inr m \<Rightarrow> (case VMsOnBranch (in_reader inp) m of Inl _ \<Rightarrow> ([], ''repo unreadable'') | Inr vms \<Rightarrow> (vms, pi_error p))))"

type_synonym by_namespace = "(string \<times> vm list) list"

definition push_row :: "vm \<Rightarrow> by_namespace \<Rightarrow> by_namespace" where
  "push_row v m = AList.update (vm_namespace v) (case_option [] id (map_of m (vm_namespace v)) @ [v]) m"

definition declared_rows :: "inventory_inputs \<Rightarrow> project_info \<Rightarrow> vm list \<Rightarrow> vm list" where
  "declared_rows inp p vms = map (enrich inp) (filter (\<lambda>v. vm_namespace v \<in> set (pi_namespaces p)) vms)"

definition cluster_entry :: "project_info \<Rightarrow> vm list \<Rightarrow> string \<times> live_state \<Rightarrow> vm option" where
  "cluster_entry p vms kl =
     (case splitKey (fst kl) of
        None \<Rightarrow> None
      | Some (ns, name) \<Rightarrow>
          if ns \<notin> set (pi_namespaces p) \<or> list_ex (\<lambda>v. vm_namespace v \<in> set (pi_namespaces p) \<and> row_key v = fst kl) vms then None
          else Some (cluster_row ns name (snd kl)))"

definition cluster_rows :: "inventory_inputs \<Rightarrow> project_info \<Rightarrow> vm list \<Rightarrow> vm list" where
  "cluster_rows inp p vms = List.map_filter (cluster_entry p vms) (in_live inp)"

definition name_less :: "vm \<Rightarrow> vm \<Rightarrow> bool" where
  "name_less a b = (vm_name a < vm_name b)"

definition namespace_less :: "project_namespace \<Rightarrow> project_namespace \<Rightarrow> bool" where
  "namespace_less a b = (pn_namespace a < pn_namespace b)"

definition groupNamespaces :: "by_namespace \<Rightarrow> project_namespace list" where
  "groupNamespaces m = go_sort namespace_less (map (\<lambda>(ns, vms). \<lparr>pn_namespace = ns, pn_vms = go_sort name_less vms\<rparr>) m)"

definition buildProject :: "inventory_inputs \<Rightarrow> project_info \<Rightarrow> project_row" where
  "buildProject inp p =
     (let (vms, badge) = project_vms inp p;
          seeded = fold (\<lambda>ns. AList.update ns []) (pi_namespaces p) [];
          byNS = fold push_row (declared_rows inp p vms @ cluster_rows inp p vms) seeded
      in \<lparr>pj_name = pi_name p, pj_repo = pi_repo p, pj_namespaces = groupNamespaces byNS, pj_error = badge,
          pj_gitops = (case in_project_drift inp of
              None \<Rightarrow> None
            | Some m \<Rightarrow> if pi_repo p = '''' then None else map_of m (NormalizeRepoURL (pi_repo p)))\<rparr>)"

definition Build :: "inventory_inputs \<Rightarrow> project_row list" where
  "Build inp = map (buildProject inp) (in_projects inp)"

section \<open>Tenants to adopt\<close>

definition never_tenant :: "string \<Rightarrow> bool" where
  "never_tenant ns = (has_prefix ns ''openshift-'' \<or> has_prefix ns ''kube-'' \<or> has_suffix ns ''-operator-system'')"

definition count_up :: "string \<Rightarrow> (string \<times> nat) list \<Rightarrow> (string \<times> nat) list" where
  "count_up ns m = AList.update ns (Suc (case_option 0 id (map_of m ns))) m"

definition candidate :: "namespace_obj list \<Rightarrow> string \<times> live_state \<Rightarrow> string option" where
  "candidate labeled kl =
     (case splitKey (fst kl) of
        None \<Rightarrow> None
      | Some (ns, _) \<Rightarrow> if ns \<in> set (map no_name labeled) \<or> never_tenant ns then None else Some ns)"

definition Adoptable :: "(string \<times> live_state) list \<Rightarrow> namespace_obj list \<Rightarrow> (string \<times> nat) list" where
  "Adoptable live labeled = go_sort (\<lambda>a b. fst a < fst b) (fold count_up (List.map_filter (candidate labeled) live) [])"

section \<open>The grouping\<close>

lemma push_rows_lookup:
  "map_of (fold push_row vs m) ns =
     (if filter (\<lambda>v. vm_namespace v = ns) vs = [] then map_of m ns
      else Some (case_option [] id (map_of m ns) @ filter (\<lambda>v. vm_namespace v = ns) vs))"
  by (induction vs arbitrary: m) (auto simp: push_row_def update_conv' split: option.splits)

lemma distinct_push: "distinct (map fst m) \<Longrightarrow> distinct (map fst (fold push_row vs m))"
  by (induction vs arbitrary: m) (auto simp: push_row_def distinct_update)

lemma seeded_lookup: "map_of (fold (\<lambda>ns. AList.update ns []) nss m) ns = (if ns \<in> set nss then Some [] else map_of m ns)"
  by (induction nss arbitrary: m) (auto simp: update_conv')

lemma distinct_seeded: "distinct (map fst m) \<Longrightarrow> distinct (map fst (fold (\<lambda>ns. AList.update ns []) nss m))"
  by (induction nss arbitrary: m) (auto simp: distinct_update)

lemma distinct_count: "distinct (map fst m) \<Longrightarrow> distinct (map fst (fold count_up vs m))"
  by (induction vs arbitrary: m) (auto simp: count_up_def distinct_update)

lemma count_lookup:
  "map_of (fold count_up vs m) ns =
     (if ns \<in> set vs then Some (case_option 0 id (map_of m ns) + count_list vs ns) else map_of m ns)"
  by (induction vs arbitrary: m) (auto simp: count_up_def update_conv' split: option.splits)

lemma sorted_fst_unique:
  assumes "sorted_wrt (\<lambda>a b. \<not> f b < (f a :: 'k :: linorder)) xs" "distinct (map f xs)"
  shows "map f xs = sorted_list_of_set (f ` set xs)"
proof -
  have "sorted (map f xs)" using assms(1) by (simp add: sorted_wrt_map not_less)
  then have "sorted_list_of_set (set (map f xs)) = map f xs" using assms(2) by (rule sorted_list_of_set.idem_if_sorted_distinct)
  then show ?thesis by simp
qed

lemma enrich_place [simp]: "vm_namespace (enrich inp v) = vm_namespace v" "vm_name (enrich inp v) = vm_name v"
  by (auto simp: enrich_def applyLive_def Let_def split: option.splits)

lemma cluster_row_place [simp]: "vm_namespace (cluster_row ns name s) = ns" "vm_name (cluster_row ns name s) = name"
  by (simp_all add: cluster_row_def applyLive_def)

lemma declared_place: "v \<in> set (declared_rows inp p vms) \<Longrightarrow> vm_namespace v \<in> set (pi_namespaces p)"
  by (auto simp: declared_rows_def)

lemma map_filter_mem: "y \<in> set (List.map_filter f xs) \<longleftrightarrow> (\<exists>x \<in> set xs. f x = Some y)"
  by (force simp: List.map_filter_def)

lemma cluster_entry_Some:
  "cluster_entry p vms (k, s) = Some v \<longleftrightarrow>
     (\<exists>ns name. splitKey k = Some (ns, name) \<and> ns \<in> set (pi_namespaces p) \<and>
        \<not> (\<exists>d \<in> set vms. vm_namespace d \<in> set (pi_namespaces p) \<and> row_key d = k) \<and> v = cluster_row ns name s)"
proof (cases "splitKey k")
  case (Some nn)
  obtain ns name where nn: "nn = (ns, name)" by (cases nn)
  have "list_ex (\<lambda>v. vm_namespace v \<in> set (pi_namespaces p) \<and> row_key v = k) vms \<longleftrightarrow>
      (\<exists>d \<in> set vms. vm_namespace d \<in> set (pi_namespaces p) \<and> row_key d = k)" by (simp add: list_ex_iff)
  then show ?thesis by (simp add: cluster_entry_def Some nn eq_commute)
qed (simp add: cluster_entry_def)

lemma cluster_mem:
  "v \<in> set (cluster_rows inp p vms) \<longleftrightarrow>
     (\<exists>k s ns name. (k, s) \<in> set (in_live inp) \<and> splitKey k = Some (ns, name) \<and> ns \<in> set (pi_namespaces p) \<and>
        \<not> (\<exists>d \<in> set vms. vm_namespace d \<in> set (pi_namespaces p) \<and> row_key d = k) \<and> v = cluster_row ns name s)"
proof -
  have "v \<in> set (cluster_rows inp p vms) \<longleftrightarrow> (\<exists>k s. (k, s) \<in> set (in_live inp) \<and> cluster_entry p vms (k, s) = Some v)"
    unfolding cluster_rows_def map_filter_mem by (simp add: Bex_def)
  then show ?thesis unfolding cluster_entry_Some by blast
qed

lemma cluster_place: "v \<in> set (cluster_rows inp p vms) \<Longrightarrow> vm_namespace v \<in> set (pi_namespaces p)"
  unfolding cluster_mem by auto

section \<open>What a project shows\<close>

definition shown_rows :: "inventory_inputs \<Rightarrow> project_info \<Rightarrow> vm list" where
  "shown_rows inp p = (let vms = fst (project_vms inp p) in declared_rows inp p vms @ cluster_rows inp p vms)"

lemma shown_place: "v \<in> set (shown_rows inp p) \<Longrightarrow> vm_namespace v \<in> set (pi_namespaces p)"
  by (auto simp: shown_rows_def Let_def dest: declared_place cluster_place)

text \<open>The map behind the tree: the project's namespaces, each with its rows.\<close>

lemma grouped_rows:
  defines "m \<equiv> \<lambda>inp p. fold push_row (shown_rows inp p) (fold (\<lambda>ns. AList.update ns []) (pi_namespaces p) [])"
  shows "distinct (map fst (m inp p))"
    and "map_of (m inp p) ns = (if ns \<in> set (pi_namespaces p) then Some (filter (\<lambda>v. vm_namespace v = ns) (shown_rows inp p)) else None)"
proof -
  show "distinct (map fst (m inp p))" unfolding m_def by (intro distinct_push distinct_seeded) simp
  have "filter (\<lambda>v. vm_namespace v = ns) (shown_rows inp p) = []" if "ns \<notin> set (pi_namespaces p)"
    using that shown_place by (auto simp: filter_empty_conv)
  then show "map_of (m inp p) ns = (if ns \<in> set (pi_namespaces p) then Some (filter (\<lambda>v. vm_namespace v = ns) (shown_rows inp p)) else None)"
    unfolding m_def by (auto simp: push_rows_lookup seeded_lookup)
qed

lemma groups_mem:
  assumes "distinct (map fst m)"
  shows "n \<in> set (groupNamespaces m) \<longleftrightarrow> (\<exists>vms. map_of m (pn_namespace n) = Some vms \<and> n = \<lparr>pn_namespace = pn_namespace n, pn_vms = go_sort name_less vms\<rparr>)"
proof
  assume "n \<in> set (groupNamespaces m)"
  then obtain ns vms where "(ns, vms) \<in> set m" "n = \<lparr>pn_namespace = ns, pn_vms = go_sort name_less vms\<rparr>" by (auto simp: groupNamespaces_def)
  then show "\<exists>vms. map_of m (pn_namespace n) = Some vms \<and> n = \<lparr>pn_namespace = pn_namespace n, pn_vms = go_sort name_less vms\<rparr>" using assms by auto
next
  assume "\<exists>vms. map_of m (pn_namespace n) = Some vms \<and> n = \<lparr>pn_namespace = pn_namespace n, pn_vms = go_sort name_less vms\<rparr>"
  then obtain vms where v: "(pn_namespace n, vms) \<in> set m" "n = \<lparr>pn_namespace = pn_namespace n, pn_vms = go_sort name_less vms\<rparr>"
    by (auto dest: map_of_SomeD)
  have "(\<lambda>(ns, vms). \<lparr>pn_namespace = ns, pn_vms = go_sort name_less vms\<rparr>) (pn_namespace n, vms) \<in> set (groupNamespaces m)"
    unfolding groupNamespaces_def set_go_sort set_map by (rule imageI) (rule v(1))
  then show "n \<in> set (groupNamespaces m)" using v(2) by simp
qed

lemma groups_sorted:
  assumes "distinct (map fst m)"
  shows "map pn_namespace (groupNamespaces m) = sorted_list_of_set (fst ` set m)"
proof -
  let ?f = "\<lambda>(ns, vms). \<lparr>pn_namespace = ns, pn_vms = go_sort name_less vms\<rparr>"
  have f: "map pn_namespace (map ?f m) = map fst m" by (induction m) auto
  have less: "less_func namespace_less" by (rule less_func_key[where key = pn_namespace]) (simp add: namespace_less_def)
  have "sorted_wrt (\<lambda>a b. \<not> pn_namespace b < pn_namespace a) (groupNamespaces m)"
    using less_func.go_sort_ordered[OF less] unfolding groupNamespaces_def namespace_less_def .
  moreover have "distinct (map pn_namespace (groupNamespaces m))" unfolding groupNamespaces_def distinct_go_sort f by (rule assms)
  ultimately have "map pn_namespace (groupNamespaces m) = sorted_list_of_set (pn_namespace ` set (groupNamespaces m))" by (rule sorted_fst_unique)
  moreover have "pn_namespace ` set (groupNamespaces m) = fst ` set m"
    unfolding groupNamespaces_def set_go_sort using arg_cong[OF f, of set] by (simp only: set_map)
  ultimately show ?thesis by simp
qed

lemma build_groups:
  "pj_namespaces (buildProject inp p) = groupNamespaces (fold push_row (shown_rows inp p) (fold (\<lambda>ns. AList.update ns []) (pi_namespaces p) []))"
  by (simp add: buildProject_def shown_rows_def Let_def split: prod.splits)

lemma build_namespaces: "map pn_namespace (pj_namespaces (buildProject inp p)) = sorted_list_of_set (set (pi_namespaces p))"
proof -
  let ?m = "fold push_row (shown_rows inp p) (fold (\<lambda>ns. AList.update ns []) (pi_namespaces p) [])"
  have "fst ` set ?m = dom (map_of ?m)" by (rule dom_map_of_conv_image_fst[symmetric])
  also have "\<dots> = set (pi_namespaces p)" by (auto simp: dom_def grouped_rows(2))
  finally show ?thesis unfolding build_groups groups_sorted[OF grouped_rows(1)] by simp
qed

lemma build_rows:
  assumes "n \<in> set (pj_namespaces (buildProject inp p))"
  shows "set (pn_vms n) = {v \<in> set (shown_rows inp p). vm_namespace v = pn_namespace n}"
proof -
  from assms obtain vms where
    "map_of (fold push_row (shown_rows inp p) (fold (\<lambda>ns. AList.update ns []) (pi_namespaces p) [])) (pn_namespace n) = Some vms"
    and n: "n = \<lparr>pn_namespace = pn_namespace n, pn_vms = go_sort name_less vms\<rparr>"
    unfolding build_groups groups_mem[OF grouped_rows(1)] by blast
  then have "vms = filter (\<lambda>v. vm_namespace v = pn_namespace n) (shown_rows inp p)" unfolding grouped_rows(2) by (simp split: if_splits)
  moreover have "pn_vms n = go_sort name_less vms" using arg_cong[OF n, of pn_vms] by simp
  ultimately show ?thesis by simp
qed

lemma splitKey_join: "splitKey k = Some (ns, name) \<Longrightarrow> k = ns @ ''/'' @ name"
proof -
  assume s: "splitKey k = Some (ns, name)"
  then have "CHR ''/'' \<in> set k" and ns: "ns = takeWhile (\<lambda>c. c \<noteq> CHR ''/'') k" and name: "name = tl (dropWhile (\<lambda>c. c \<noteq> CHR ''/'') k)"
    by (auto simp: splitKey_def split: if_splits)
  then have "dropWhile (\<lambda>c. c \<noteq> CHR ''/'') k \<noteq> []" by (auto simp: dropWhile_eq_Nil_conv)
  then obtain c r where d: "dropWhile (\<lambda>c. c \<noteq> CHR ''/'') k = c # r" by (cases "dropWhile (\<lambda>c. c \<noteq> CHR ''/'') k") auto
  moreover have "c = CHR ''/''" using d by (auto simp: dropWhile_eq_Cons_conv)
  ultimately have "dropWhile (\<lambda>c. c \<noteq> CHR ''/'') k = CHR ''/'' # name" using name by simp
  then show ?thesis using takeWhile_dropWhile_id[of "\<lambda>c. c \<noteq> CHR ''/''" k] ns by simp
qed

lemma shown_mem:
  "v \<in> set (shown_rows inp p) \<longleftrightarrow> v \<in> set (declared_rows inp p (fst (project_vms inp p))) \<or> v \<in> set (cluster_rows inp p (fst (project_vms inp p)))"
  by (simp add: shown_rows_def Let_def)

lemma declared_mem: "v \<in> set (declared_rows inp p vms) \<longleftrightarrow> (\<exists>d \<in> set vms. vm_namespace d \<in> set (pi_namespaces p) \<and> v = enrich inp d)"
  by (auto simp: declared_rows_def)

lemma namespace_of_project: "n \<in> set (pj_namespaces (buildProject inp p)) \<Longrightarrow> pn_namespace n \<in> set (pi_namespaces p)"
  using arg_cong[OF build_namespaces[of inp p], of set] by auto

text \<open>An undeclared VM's row in a namespace of the project, and the rows of that namespace.\<close>

definition undeclared_row :: "inventory_inputs \<Rightarrow> project_info \<Rightarrow> string \<Rightarrow> vm \<Rightarrow> bool" where
  "undeclared_row inp p ns v =
     (\<exists>k name s. v = cluster_row ns name s \<and> (k, s) \<in> set (in_live inp) \<and> splitKey k = Some (ns, name) \<and>
        \<not> (\<exists>d \<in> set (fst (project_vms inp p)). vm_namespace d \<in> set (pi_namespaces p) \<and> row_key d = k))"

lemma cluster_at:
  assumes "ns \<in> set (pi_namespaces p)"
  shows "v \<in> set (cluster_rows inp p (fst (project_vms inp p))) \<and> vm_namespace v = ns \<longleftrightarrow> undeclared_row inp p ns v" (is "?l \<longleftrightarrow> ?r")
proof
  assume l: ?l
  then obtain k s ns' name where "(k, s) \<in> set (in_live inp)" "splitKey k = Some (ns', name)" "v = cluster_row ns' name s"
    "\<not> (\<exists>d \<in> set (fst (project_vms inp p)). vm_namespace d \<in> set (pi_namespaces p) \<and> row_key d = k)" unfolding cluster_mem by blast
  moreover from this l have "ns' = ns" by simp
  ultimately show ?r unfolding undeclared_row_def by blast
next
  assume ?r
  then show ?l unfolding cluster_mem undeclared_row_def using assms cluster_row_place(1) by blast
qed

lemma namespace_rows:
  assumes "n \<in> set (pj_namespaces (buildProject inp p))"
  shows "v \<in> set (pn_vms n) \<longleftrightarrow>
    (\<exists>d \<in> set (fst (project_vms inp p)). vm_namespace d = pn_namespace n \<and> v = enrich inp d) \<or> undeclared_row inp p (pn_namespace n) v"
proof -
  note ns = namespace_of_project[OF assms]
  have "(\<exists>d \<in> set (fst (project_vms inp p)). vm_namespace d \<in> set (pi_namespaces p) \<and> v = enrich inp d) \<and> vm_namespace v = pn_namespace n \<longleftrightarrow>
      (\<exists>d \<in> set (fst (project_vms inp p)). vm_namespace d = pn_namespace n \<and> v = enrich inp d)" using ns enrich_place(1) by metis
  then show ?thesis unfolding build_rows[OF assms] mem_Collect_eq shown_mem declared_mem cluster_at[OF ns, symmetric] by blast
qed

lemma live_shown:
  assumes "(k, s) \<in> set (in_live inp)" "splitKey k = Some (ns, name)" "ns \<in> set (pi_namespaces p)"
  shows "\<exists>v \<in> set (shown_rows inp p). row_key v = k"
proof (cases "\<exists>d \<in> set (fst (project_vms inp p)). vm_namespace d \<in> set (pi_namespaces p) \<and> row_key d = k")
  case True
  then obtain d where "d \<in> set (fst (project_vms inp p))" "vm_namespace d \<in> set (pi_namespaces p)" "row_key d = k" by blast
  then have "enrich inp d \<in> set (shown_rows inp p)" "row_key (enrich inp d) = k" unfolding shown_mem declared_mem by (auto simp: row_key_def)
  then show ?thesis by blast
next
  case False
  then have "cluster_row ns name s \<in> set (shown_rows inp p)" unfolding shown_mem cluster_mem using assms by blast
  moreover have "row_key (cluster_row ns name s) = k" using splitKey_join[OF assms(2)] by (simp add: row_key_def)
  ultimately show ?thesis by blast
qed

lemma live_listed:
  assumes "(k, s) \<in> set (in_live inp)" "splitKey k = Some (ns, name)" "ns \<in> set (pi_namespaces p)"
  shows "\<exists>n \<in> set (pj_namespaces (buildProject inp p)). \<exists>v \<in> set (pn_vms n). row_key v = k"
proof -
  obtain v where v: "v \<in> set (shown_rows inp p)" "row_key v = k" using live_shown[OF assms] by blast
  then have "vm_namespace v \<in> set (map pn_namespace (pj_namespaces (buildProject inp p)))" unfolding build_namespaces using shown_place by simp
  then obtain n where n: "n \<in> set (pj_namespaces (buildProject inp p))" "pn_namespace n = vm_namespace v" by auto
  then have "v \<in> set (pn_vms n)" unfolding build_rows[OF n(1)] using v by simp
  then show ?thesis using n(1) v(2) by blast
qed

text \<open>C18: A project's tree shows what its namespaces hold, no more and no less. Its namespaces are the project's, once each and in order. A
  namespace lists exactly the VMs the base branch declares in it, with their live state and drift, and the VMs that run in it undeclared,
  marked as such; so no VM of a namespace outside the project shows, wherever it is declared. And every VM that runs in
  the project's namespaces is listed, even when the repository cannot be read.\<close>
theorem inventory_rows_exact:
  fixes inp p
  defines "row \<equiv> buildProject inp p" and "vms \<equiv> fst (project_vms inp p)"
  shows "map pn_namespace (pj_namespaces row) = sorted_list_of_set (set (pi_namespaces p)) \<and>
    (\<forall>n \<in> set (pj_namespaces row). set (pn_vms n) =
       {enrich inp d | d. d \<in> set vms \<and> vm_namespace d = pn_namespace n} \<union>
       {cluster_row (pn_namespace n) name s | k name s. (k, s) \<in> set (in_live inp) \<and> splitKey k = Some (pn_namespace n, name) \<and>
          \<not> (\<exists>d \<in> set vms. vm_namespace d \<in> set (pi_namespaces p) \<and> row_key d = k)}) \<and>
    (\<forall>(k, s) \<in> set (in_live inp). \<forall>ns name. splitKey k = Some (ns, name) \<longrightarrow> ns \<in> set (pi_namespaces p) \<longrightarrow>
       (\<exists>n \<in> set (pj_namespaces row). \<exists>v \<in> set (pn_vms n). row_key v = k))"
proof (intro conjI ballI)
  show "map pn_namespace (pj_namespaces row) = sorted_list_of_set (set (pi_namespaces p))" unfolding row_def by (rule build_namespaces)
next
  fix n assume n: "n \<in> set (pj_namespaces row)"
  show "set (pn_vms n) =
       {enrich inp d | d. d \<in> set vms \<and> vm_namespace d = pn_namespace n} \<union>
       {cluster_row (pn_namespace n) name s | k name s. (k, s) \<in> set (in_live inp) \<and> splitKey k = Some (pn_namespace n, name) \<and>
          \<not> (\<exists>d \<in> set vms. vm_namespace d \<in> set (pi_namespaces p) \<and> row_key d = k)}"
    unfolding set_eq_iff namespace_rows[OF n[unfolded row_def]] undeclared_row_def vms_def by blast
next
  fix x assume "x \<in> set (in_live inp)"
  moreover obtain k s where "x = (k, s)" by (cases x)
  ultimately show "case x of (k, s) \<Rightarrow> \<forall>ns name. splitKey k = Some (ns, name) \<longrightarrow> ns \<in> set (pi_namespaces p) \<longrightarrow>
      (\<exists>n \<in> set (pj_namespaces row). \<exists>v \<in> set (pn_vms n). row_key v = k)" using live_listed unfolding row_def by simp blast
qed

definition shop_tree_inputs :: inventory_inputs where
  "shop_tree_inputs = \<lparr>in_projects = [shop_project], in_reader = shop_reader None, in_live = [(''shop/web'', stopped)],
     in_drift = Some [], in_project_drift = None\<rparr>"

theorem inventory_rows_exact_witness:
  "\<exists>n \<in> set (pj_namespaces (buildProject shop_tree_inputs shop_project)). \<exists>v \<in> set (pn_vms n). row_key v = ''shop/web''"
proof -
  have "(''shop/web'', stopped) \<in> set (in_live shop_tree_inputs)" by (simp add: shop_tree_inputs_def)
  moreover have "splitKey ''shop/web'' = Some (''shop'', ''web'')" by code_simp
  moreover have "''shop'' \<in> set (pi_namespaces shop_project)" by (simp add: shop_project_def)
  ultimately show ?thesis using inventory_rows_exact[of shop_tree_inputs shop_project] by blast
qed

text \<open>How a row says where it stands.\<close>

lemma row_sync:
  "in_drift inp = Some m \<Longrightarrow> map_of m (row_key d) = None \<Longrightarrow> vm_sync (enrich inp d) = SyncPending"
  "in_drift inp = Some m \<Longrightarrow> map_of m (row_key d) = Some e \<Longrightarrow> vm_sync (enrich inp d) = df_sync e"
  "in_drift inp = None \<Longrightarrow> vm_sync (enrich inp d) = vm_sync d"
  "vm_sync (cluster_row ns name s) = SyncNotTracked"
  by (auto simp: enrich_def cluster_row_def applyLive_def row_key_def Let_def split: option.splits)

lemma adoptable_exact:
  "set (Adoptable live labeled) =
     {(ns, length (filter (\<lambda>kl. candidate labeled kl = Some ns) live)) | ns. \<exists>kl \<in> set live. candidate labeled kl = Some ns}"
proof -
  let ?c = "List.map_filter (candidate labeled) live"
  have n: "count_list ?c ns = length (filter (\<lambda>kl. candidate labeled kl = Some ns) live)" for ns
    by (induction live) (auto simp: List.map_filter_simps split: option.splits)
  have d: "distinct (map fst (fold count_up ?c []))" by (rule distinct_count) simp
  have m: "(ns, k) \<in> set (fold count_up ?c []) \<longleftrightarrow> ns \<in> set ?c \<and> k = count_list ?c ns" for ns k
    unfolding map_of_eq_Some_iff[OF d, symmetric] count_lookup by auto
  have c: "ns \<in> set ?c \<longleftrightarrow> (\<exists>kl \<in> set live. candidate labeled kl = Some ns)" for ns by (simp add: map_filter_mem)
  show ?thesis unfolding Adoptable_def set_go_sort n[symmetric] c[symmetric]
  proof (rule set_eqI)
    fix x show "x \<in> set (fold count_up ?c []) \<longleftrightarrow> x \<in> {(ns, count_list ?c ns) | ns. ns \<in> set ?c}" by (cases x) (auto simp: m)
  qed
qed

end
