(* ===== verification/Netgen_Namespace.thy ===== *)
theory Netgen_Namespace
  imports Netgen_Render "HOL-Library.AList"
begin

text \<open>
  \<open>internal/netgen/namespace.go\<close>: the namespace a project is given, adopted or released, and the grant of a
  tenant's owners. A rendered file is its documents in order.
\<close>

definition projectLabel :: string where
  "projectLabel = ''dotvirt.io/project''"

definition repoAnnotation :: string where
  "repoAnnotation = ''dotvirt.io/repo''"

definition primaryNetworkLabel :: string where
  "primaryNetworkLabel = ''k8s.ovn.org/primary-user-defined-network''"

record live_namespace =
  lv_labels :: labels
  lv_annotations :: labels

record primary_net =
  pn_name :: string
  pn_subnet :: string

record namespace_spec =
  nsp_name :: string
  nsp_project :: string
  nsp_repo :: string
  nsp_network :: "primary_net option"
  nsp_live :: "live_namespace option"

section \<open>Creating and adopting\<close>

definition namespace_labels :: "namespace_spec \<Rightarrow> labels" where
  "namespace_labels s =
     (let live = (case nsp_live s of None \<Rightarrow> [] | Some l \<Rightarrow> lv_labels l);
          owned = AList.update projectLabel (nsp_project s) live in
      if nsp_network s \<noteq> None then AList.update primaryNetworkLabel '''' owned else owned)"

definition namespace_annotations :: "namespace_spec \<Rightarrow> labels" where
  "namespace_annotations s =
     (let live = (case nsp_live s of None \<Rightarrow> [] | Some l \<Rightarrow> lv_annotations l) in
      if nsp_repo s \<noteq> '''' then AList.update repoAnnotation (nsp_repo s) live else live)"

definition namespace_tree :: "namespace_spec \<Rightarrow> yval" where
  "namespace_tree s =
     YMap [(''apiVersion'', YStr (APIVersion KindNS)), (''kind'', YStr (mk_kind KindNS)),
       (''metadata'', YMap ([(''name'', YStr (nsp_name s)), (''labels'', YLabels (namespace_labels s))] @
          (if namespace_annotations s \<noteq> [] then [(''annotations'', YLabels (namespace_annotations s))] else [])))]"

definition primary_udn_tree :: "namespace_spec \<Rightarrow> primary_net \<Rightarrow> yval" where
  "primary_udn_tree s p =
     doc_tree KindUDN [(''name'', YStr (pn_name p)), (''namespace'', YStr (nsp_name s))]
       [(''topology'', YStr ''Layer2''), (''layer2'', YMap [(''role'', YStr ''Primary''), (''subnets'', YSeq [YStr (pn_subnet p)])])]"

definition NamespaceManifest :: "namespace_spec \<Rightarrow> string + string \<times> yval list" where
  "NamespaceManifest s =
     (case RequireDNS1123 ''namespace'' (nsp_name s) of Some e \<Rightarrow> Inl e | None \<Rightarrow>
      (if nsp_project s = '''' then Inl ''a project is required''
       else
        (let path = ''namespaces/'' @ nsp_name s @ ''.yaml'' in
         case nsp_network s of
           None \<Rightarrow> Inr (path, [namespace_tree s])
         | Some p \<Rightarrow>
             (case RequireDNS1123 ''VM Network name'' (pn_name p) of Some e \<Rightarrow> Inl e | None \<Rightarrow>
              (if \<not> validCIDR (pn_subnet p) then Inl ''the VM Network needs a subnet CIDR (a primary network must do IPAM)''
               else Inr (path, [namespace_tree s, primary_udn_tree s p]))))))"

section \<open>Releasing\<close>

definition y_fields :: "yval \<Rightarrow> (string \<times> yval) list option" where
  "y_fields v = (case v of YMap m \<Rightarrow> Some m | _ \<Rightarrow> None)"

text \<open>A field that is no mapping counts as an empty one, and so it goes too.\<close>

definition dropMetaKey :: "(string \<times> yval) list \<Rightarrow> string \<Rightarrow> string \<Rightarrow> (string \<times> yval) list" where
  "dropMetaKey meta fld key =
     (let m = AList.delete key (case y_fields (y_field fld meta) of None \<Rightarrow> [] | Some m \<Rightarrow> m) in
      if m = [] then AList.delete fld meta else AList.update fld (YMap m) meta)"

definition ReleasedNamespaceManifest :: "yval \<Rightarrow> string + yval" where
  "ReleasedNamespaceManifest v =
     (case y_obj v of
        None \<Rightarrow> Inl ''declared namespace''
      | Some doc \<Rightarrow>
          (case y_fields (y_field ''metadata'' doc) of
             None \<Rightarrow> Inl ''declared namespace has no metadata''
           | Some meta \<Rightarrow>
               Inr (YMap (AList.update ''metadata''
                 (YMap (dropMetaKey (dropMetaKey meta ''labels'' projectLabel) ''annotations'' repoAnnotation)) doc))))"

section \<open>Granting\<close>

record role_binding_spec =
  rb_namespace :: string
  rb_project :: string
  rb_owners :: "string list"
  rb_role :: string

definition owner_tree :: "string \<Rightarrow> yval" where
  "owner_tree o' = YMap [(''kind'', YStr ''User''), (''apiGroup'', YStr ''rbac.authorization.k8s.io''), (''name'', YStr o')]"

definition RoleBindingManifest :: "role_binding_spec \<Rightarrow> string + string \<times> yval" where
  "RoleBindingManifest s =
     (case RequireDNS1123 ''namespace'' (rb_namespace s) of Some e \<Rightarrow> Inl e | None \<Rightarrow>
      (if rb_owners s = [] then Inl ''at least one owner is required''
       else if '''' \<in> set (rb_owners s) then Inl ''an owner name cannot be empty''
       else
        (let role = (if rb_role s = '''' then ''admin'' else rb_role s) in
         Inr (''rbac/'' @ rb_namespace s @ ''.yaml'',
           YMap [(''apiVersion'', YStr (APIVersion KindRB)), (''kind'', YStr (mk_kind KindRB)),
             (''metadata'', YMap ([(''name'', YStr (rb_namespace s @ ''-admins'')), (''namespace'', YStr (rb_namespace s))] @
                (if rb_project s \<noteq> '''' then [(''labels'', YLabels [(projectLabel, rb_project s)])] else []))),
             (''roleRef'', YMap [(''apiGroup'', YStr ''rbac.authorization.k8s.io''), (''kind'', YStr ''ClusterRole''), (''name'', YStr role)]),
             (''subjects'', YSeq (map owner_tree (rb_owners s)))]))))"

section \<open>What adoption and release keep\<close>

text \<open>Adoption writes every key the namespace already had; release takes the tenancy keys away again and nothing else.\<close>

lemma map_of_namespace_labels:
  "map_of (namespace_labels s) = map_of (case nsp_live s of None \<Rightarrow> [] | Some l \<Rightarrow> lv_labels l)
     ++ [projectLabel \<mapsto> nsp_project s] ++ (if nsp_network s \<noteq> None then [primaryNetworkLabel \<mapsto> ''''] else Map.empty)"
  by (simp add: namespace_labels_def Let_def update_conv')

lemma delete_map_snd: "AList.delete k (map (\<lambda>(k, v). (k, f v)) m) = map (\<lambda>(k, v). (k, f v)) (AList.delete k m)"
  by (induction m) auto

lemma delete_update_absent: "k \<notin> fst ` set m \<Longrightarrow> AList.delete k (AList.update k v m) = m"
  by (induction m) (auto simp: AList.delete_eq filter_id_conv)

lemma delete_update_other: "k \<noteq> j \<Longrightarrow> AList.delete k (AList.update j v m) = AList.update j v (AList.delete k m)"
  by (induction m) auto

lemma delete_absent: "k \<notin> fst ` set m \<Longrightarrow> AList.delete k m = m"
  by (induction m) (auto simp: AList.delete_eq filter_id_conv)

definition live_tree :: "string \<Rightarrow> labels \<Rightarrow> labels \<Rightarrow> yval" where
  "live_tree name ls as =
     YMap [(''apiVersion'', YStr (APIVersion KindNS)), (''kind'', YStr (mk_kind KindNS)),
       (''metadata'', YMap ([(''name'', YStr name)] @ (if ls \<noteq> [] then [(''labels'', YLabels ls)] else []) @
          (if as \<noteq> [] then [(''annotations'', YLabels as)] else [])))]"

lemma drop_field:
  assumes "fld \<notin> fst ` set rest" "fld \<notin> fst ` set pre"
  shows "dropMetaKey (pre @ (fld, YLabels m) # rest) fld key =
    pre @ (if AList.delete key m \<noteq> [] then [(fld, YLabels (AList.delete key m))] else []) @ rest"
proof -
  have f: "y_field fld (pre @ (fld, YLabels m) # rest) = YLabels m"
    using assms(2) by (induction pre) auto
  have fl: "y_fields (YLabels m) = Some (map (\<lambda>(k, v). (k, YStr v)) m)" by (simp add: y_fields_def YLabels_def)
  have d: "AList.delete fld (pre @ (fld, YLabels m) # rest) = pre @ rest"
    using assms by (induction pre) (auto simp: delete_absent)
  have u: "AList.update fld v (pre @ (fld, YLabels m) # rest) = pre @ (fld, v) # rest" for v
    using assms(2) by (induction pre) auto
  show ?thesis
    unfolding dropMetaKey_def f fl Let_def option.case delete_map_snd d u by (simp add: YLabels_def)
qed

lemma drop_no_field: "fld \<notin> fst ` set meta \<Longrightarrow> dropMetaKey meta fld key = meta"
  by (auto simp: dropMetaKey_def y_field_def y_fields_def map_of_eq_None_iff[THEN iffD2] delete_absent)

lemma release_metadata:
  "ReleasedNamespaceManifest (YMap [(''apiVersion'', a), (''kind'', k), (''metadata'', YMap meta)]) =
     Inr (YMap [(''apiVersion'', a), (''kind'', k),
       (''metadata'', YMap (dropMetaKey (dropMetaKey meta ''labels'' projectLabel) ''annotations'' repoAnnotation))])"
  by (simp add: ReleasedNamespaceManifest_def y_fields_def)

text \<open>Releasing a project hands a namespace back as it was adopted: from the manifest adoption renders, the release keeps the
  namespace's own labels and annotations, each with its value, and takes away exactly the tenancy keys dotvirt added (and keeps the
  primary-network label, which the network plugin refuses to lose).\<close>
theorem adopt_then_release:
  assumes "NamespaceManifest s = Inr (p, ns # docs)" and "nsp_live s = Some l"
    and "projectLabel \<notin> fst ` set (lv_labels l)" and "repoAnnotation \<notin> fst ` set (lv_annotations l)"
  shows "ReleasedNamespaceManifest ns =
    Inr (live_tree (nsp_name s) (if nsp_network s = None then lv_labels l else AList.update primaryNetworkLabel '''' (lv_labels l)) (lv_annotations l))"
proof -
  have ns: "ns = namespace_tree s"
    using assms(1) by (auto simp: NamespaceManifest_def Let_def split: option.splits if_splits)
  have ne: "projectLabel \<noteq> primaryNetworkLabel" by (simp add: projectLabel_def primaryNetworkLabel_def)
  have ls: "AList.delete projectLabel (namespace_labels s) =
      (if nsp_network s = None then lv_labels l else AList.update primaryNetworkLabel '''' (lv_labels l))"
    using assms(2,3) ne by (simp add: namespace_labels_def Let_def delete_update_other delete_update_absent)
  have as: "AList.delete repoAnnotation (namespace_annotations s) = lv_annotations l"
    using assms(2,4) by (simp add: namespace_annotations_def Let_def delete_update_absent delete_absent)
  let ?an = "if namespace_annotations s \<noteq> [] then [(''annotations'', YLabels (namespace_annotations s))] else []"
  have nl: "''labels'' \<notin> fst ` set ?an" by auto
  have d1: "dropMetaKey ([(''name'', YStr (nsp_name s)), (''labels'', YLabels (namespace_labels s))] @ ?an) ''labels'' projectLabel =
      [(''name'', YStr (nsp_name s))] @ (if AList.delete projectLabel (namespace_labels s) \<noteq> [] then [(''labels'', YLabels (AList.delete projectLabel (namespace_labels s)))] else []) @ ?an"
    using drop_field[OF nl, of "[(''name'', YStr (nsp_name s))]" "namespace_labels s" projectLabel] by (simp del: split_paired_Ex split: if_split_asm)
  have d2: "dropMetaKey ([(''name'', YStr (nsp_name s))] @ (if m \<noteq> [] then [(''labels'', YLabels m)] else []) @ ?an) ''annotations'' repoAnnotation =
      [(''name'', YStr (nsp_name s))] @ (if m \<noteq> [] then [(''labels'', YLabels m)] else []) @
        (if lv_annotations l \<noteq> [] then [(''annotations'', YLabels (lv_annotations l))] else [])" for m
    using drop_field[of "''annotations''" "[]" "[(''name'', YStr (nsp_name s))] @ (if m \<noteq> [] then [(''labels'', YLabels m)] else [])"
        "namespace_annotations s" repoAnnotation] as
    by (cases "namespace_annotations s = []") (auto simp: drop_no_field)
  show ?thesis
    unfolding ns namespace_tree_def release_metadata d1 d2 ls live_tree_def ..
qed

definition adopted_shop :: namespace_spec where
  "adopted_shop = \<lparr>nsp_name = ''shop'', nsp_project = ''retail'', nsp_repo = '''', nsp_network = None,
     nsp_live = Some \<lparr>lv_labels = [(''team'', ''web'')], lv_annotations = []\<rparr>\<rparr>"

theorem adopt_then_release_witness:
  "ReleasedNamespaceManifest (namespace_tree adopted_shop) = Inr (live_tree ''shop'' [(''team'', ''web'')] [])"
proof -
  have "NamespaceManifest adopted_shop = Inr (''namespaces/shop.yaml'', [namespace_tree adopted_shop])"
    by (simp add: adopted_shop_def NamespaceManifest_def RequireDNS1123_def DNS1123Name_def name_char_def)
  from adopt_then_release[OF this, of "\<lparr>lv_labels = [(''team'', ''web'')], lv_annotations = []\<rparr>"] show ?thesis
    by (simp add: adopted_shop_def projectLabel_def)
qed

end
