(* ===== verification/Changeset_Draft.thy ===== *)
theory Changeset_Draft
  imports Changeset_Read Netgen_Namespace Vmgen
begin

text \<open>
  \<open>internal/changeset\<close>, a draft under review: the view of the pending entries (\<open>view.go\<close>) and the items a proposal commits
  for them (\<open>propose.go\<close>). \<open>coordinator\<close> holds what the write half has beside its reader; a draft store call that fails leaves
  the store as \<open>Draft_Store\<close> says.
\<close>

type_synonym drafts = "vm_edit draft_store"
type_synonym pending = "vm_edit entry"

text \<open>\<open>json.Unmarshal\<close> at each form's type: an error text or the form.\<close>

record json_lib =
  js_vm :: "string \<Rightarrow> string + vm_spec"
  js_network :: "string \<Rightarrow> string + net_spec"
  js_uplink :: "string \<Rightarrow> string + uplink_spec"
  js_egress_firewall :: "string \<Rightarrow> string + egress_firewall_spec"
  js_egress_ip :: "string \<Rightarrow> string + egress_ip_spec"
  js_external_route :: "string \<Rightarrow> string + external_route_spec"
  js_network_policy :: "string \<Rightarrow> string + network_policy_spec"
  js_admin_policy :: "string \<Rightarrow> string + admin_policy_spec"
  js_namespace :: "string \<Rightarrow> string + namespace_spec"

record coordinator =
  co_reader :: reader
  co_prune :: "(string \<Rightarrow> string list \<Rightarrow> object_ref list) option"
  co_json :: json_lib
  co_marshal :: "yval \<Rightarrow> string"
  co_bcrypt :: "string \<Rightarrow> string option"

section \<open>Entries as items\<close>

definition is_vm_resource :: "string \<Rightarrow> bool" where
  "is_vm_resource r = (r = '''' \<or> r = ''vm'')"

definition entryRefs :: "yaml_docs \<Rightarrow> pending \<Rightarrow> object_ref list" where
  "entryRefs docs_of e =
     (if en_manifest e \<noteq> '''' then DeclaredRefs docs_of (en_source e) (en_manifest e)
      else if is_vm_resource (en_resource e) then [\<lparr>or_kind = ''VirtualMachine'', or_namespace = en_namespace e, or_name = en_name e\<rparr>]
      else [])"

definition objectLabel :: "pending \<Rightarrow> string" where
  "objectLabel e =
     (if en_namespace e = ClusterScopeNS \<or> en_resource e = ''namespace'' then en_name e else en_namespace e @ ''/'' @ en_name e)"

definition prunePending :: "coordinator \<Rightarrow> project_info \<Rightarrow> pending list \<Rightarrow> object_ref list" where
  "prunePending co proj entries =
     (case co_prune co of
        None \<Rightarrow> []
      | Some prune \<Rightarrow>
          (let covered = concat (map (entryRefs (rd_docs (co_reader co))) entries) in
           filter (\<lambda>ref. ref \<notin> set covered) (prune (pi_repo proj) (pi_namespaces proj))))"

definition ref_text :: "object_ref \<Rightarrow> string" where
  "ref_text ref = or_kind ref @ '' '' @ or_namespace ref @ ''/'' @ or_name ref"

definition pruneWarning :: "object_ref list \<Rightarrow> string" where
  "pruneWarning refs =
     (if refs = [] then ''''
      else ''Running but not in git: '' @ join_with (map ref_text (take 4 refs)) '', '' @
        (if length refs > 4 then more_text (length refs - 4) else '''') @
        ''. ArgoCD deletes them on the next merged change unless they are adopted first.'')"

definition JoinWarning :: "string \<Rightarrow> string \<Rightarrow> string" where
  "JoinWarning a b = (if a = '''' then b else if b = '''' then a else a @ '' '' @ b)"

definition restoreChanges :: "reader \<Rightarrow> mirror \<Rightarrow> pending \<Rightarrow> change list" where
  "restoreChanges r m e =
     (let out = mk_change ''Restore'' ''change'' '''' (''version '' @ en_from_version e) in
      case base_vm r m (en_namespace e) (en_name e) of
        Inr (Some current) \<Rightarrow>
          (case ParseVMs (en_source e) (yl_docs (rd_yaml r) (en_manifest e)) (en_namespace e) of
             None \<Rightarrow> [out]
           | Some vms \<Rightarrow>
               (case find (is_vm (en_namespace e) (en_name e)) vms of
                  None \<Rightarrow> [out]
                | Some v \<Rightarrow> out # ChangesForEdit current (EditToMatch current v)))
      | _ \<Rightarrow> [out])"

definition wizardChanges :: "reader \<Rightarrow> pending \<Rightarrow> change list" where
  "wizardChanges r e =
     (case documentsIn (rd_yaml r) (rd_docs r) (en_source e) (Some (en_manifest e)) of
        [d] \<Rightarrow> createChanges d
      | _ \<Rightarrow> [mk_change ''Create VM'' ''add'' '''' (objectLabel e)])"

definition kind_text :: "entry_kind \<Rightarrow> string" where
  "kind_text k = (case k of KindEdit \<Rightarrow> ''edit'' | KindCreate \<Rightarrow> ''create'' | KindDelete \<Rightarrow> ''delete'')"

definition entry_head :: "pending \<Rightarrow> draft_item" where
  "entry_head e =
     blank_item\<lparr>im_kind := kind_text (en_kind e), im_resource := en_resource e, im_namespace := en_namespace e, im_name := en_name e\<rparr>"

text \<open>A whole-file edit. What the base branch holds at the path is shown beside it, where there is anything.\<close>

definition file_edit_item :: "reader \<Rightarrow> mirror \<Rightarrow> pending \<Rightarrow> draft_item" where
  "file_edit_item r m e =
     (entry_head e)\<lparr>
       im_changes := (if en_from_version e \<noteq> '''' then restoreChanges r m e
                      else [mk_change (EditLabel (en_resource e)) ''change'' '''' (objectLabel e)]),
       im_yaml := en_manifest e,
       im_base_yaml := (case base_tree r m of Inl _ \<Rightarrow> '''' | Inr t \<Rightarrow> case_option '''' id (LookupFile t (en_source e)))\<rparr>"

text \<open>A field edit of a VM: of a zero VM where the branch has none. \<open>*e.Edit\<close> panics on nil.\<close>

definition vm_edit_item :: "reader \<Rightarrow> mirror \<Rightarrow> pending \<Rightarrow> fault + draft_item" where
  "vm_edit_item r m e =
     (case base_vm r m (en_namespace e) (en_name e) of
        Inl err \<Rightarrow> Inl err
      | Inr current \<Rightarrow>
          (case en_edit e of
             None \<Rightarrow> Inl FPanic
           | Some edit \<Rightarrow>
               Inr ((entry_head e)\<lparr>im_changes := ChangesForEdit (case_option empty_vm id current) edit, im_edit := Some edit\<rparr>)))"

definition create_item :: "reader \<Rightarrow> pending \<Rightarrow> draft_item" where
  "create_item r e =
     (entry_head e)\<lparr>
       im_changes := (if en_from_wizard e then wizardChanges r e
                      else if en_from_template e \<noteq> '''' then [mk_change (''Deploy from template '' @ en_from_template e) ''add'' '''' (objectLabel e)]
                      else [mk_change (CreateLabel (en_resource e)) ''add'' '''' (objectLabel e)]),
       im_yaml := en_manifest e\<rparr>"

definition entry_item :: "reader \<Rightarrow> mirror \<Rightarrow> pending \<Rightarrow> fault + draft_item" where
  "entry_item r m e =
     (case en_kind e of
        KindEdit \<Rightarrow> if en_manifest e \<noteq> '''' then Inr (file_edit_item r m e) else vm_edit_item r m e
      | KindCreate \<Rightarrow> Inr (create_item r e)
      | KindDelete \<Rightarrow> Inr ((entry_head e)\<lparr>im_changes := [mk_change ''lifecycle'' ''remove'' (objectLabel e) '''']\<rparr>))"

fun all_items :: "reader \<Rightarrow> mirror \<Rightarrow> pending list \<Rightarrow> fault + draft_item list" where
  "all_items r m [] = Inr []"
| "all_items r m (e # es) =
     (case entry_item r m e of
        Inl err \<Rightarrow> Inl err
      | Inr i \<Rightarrow> (case all_items r m es of Inl err \<Rightarrow> Inl err | Inr is \<Rightarrow> Inr (i # is)))"

section \<open>The view\<close>

definition bare_view :: "coordinator \<Rightarrow> string \<Rightarrow> project_info \<Rightarrow> pending list \<Rightarrow> draft_view" where
  "bare_view co user proj entries =
     (let prune = prunePending co proj entries in
      \<lparr>vw_base = rd_base (co_reader co), vw_branch = proposedBranch (rd_sha (co_reader co)) (rd_proposed (co_reader co)) user (pi_name proj),
       vw_count = length entries, vw_items = [], vw_warning = pruneWarning prune, vw_prune = prune, vw_title = '''', vw_body = ''''\<rparr>)"

definition draft_view_of :: "coordinator \<Rightarrow> string \<Rightarrow> project_info \<Rightarrow> pending list \<Rightarrow> fault + draft_view" where
  "draft_view_of co user proj entries =
     (let view = bare_view co user proj entries in
      if entries = [] then Inr view
      else
        (case read_repo (co_reader co) proj of
           Inl e \<Rightarrow> Inl e
         | Inr m \<Rightarrow>
             (case all_items (co_reader co) m entries of
                Inl e \<Rightarrow> Inl e
              | Inr items \<Rightarrow>
                  Inr (view\<lparr>vw_items := items, vw_title := defaultTitle items, vw_body := prBody items (vw_warning view) '''' user\<rparr>))))"

definition Get :: "coordinator \<Rightarrow> vm_edit io \<Rightarrow> string \<Rightarrow> project_info \<Rightarrow> drafts \<Rightarrow> (fault + draft_view) \<times> drafts" where
  "Get co i user proj st =
     (case draft_list i user (pi_name proj) st of
        (Inl e, st') \<Rightarrow> (Inl (FInternal e), st')
      | (Inr entries, st') \<Rightarrow> (draft_view_of co user proj entries, st'))"

section \<open>What a proposal commits\<close>

text \<open>Errors of the manifest editor, by the kind they wrap.\<close>

definition edit_fault :: "edit_error \<Rightarrow> fault" where
  "edit_fault e =
     (case e of EditInvalid m \<Rightarrow> err_invalid m | EditConflict m \<Rightarrow> err_conflict m | Panicked \<Rightarrow> FPanic
      | ParseFailed \<Rightarrow> FInternal ''parse manifest'' | VMNotFound \<Rightarrow> FInternal ''VM not found in manifest''
      | OddBreaks \<Rightarrow> FInternal ''unsupported line breaks'' | WouldCorrupt \<Rightarrow> FInternal ''edit would corrupt manifest'')"

definition edit_transform :: "yaml_lib \<Rightarrow> pending \<Rightarrow> vm_edit \<Rightarrow> string \<Rightarrow> fault + string" where
  "edit_transform yl e edit current = map_sum edit_fault id (ApplyEdit yl current (en_namespace e) (en_name e) edit)"

definition entry_change :: "yaml_lib \<Rightarrow> pending \<Rightarrow> changeset_item list" where
  "entry_change yl e =
     (let item = (\<lambda>mode. [\<lparr>it_path = en_source e, it_mode = mode\<rparr>]) in
      case en_kind e of
        KindEdit \<Rightarrow>
          (if en_manifest e \<noteq> '''' then item (NewContent (en_manifest e))
           else (case en_edit e of None \<Rightarrow> [] | Some edit \<Rightarrow> item (Transform (edit_transform yl e edit))))
      | KindCreate \<Rightarrow> item (NewContent (en_manifest e))
      | KindDelete \<Rightarrow> item Delete)"

definition toChangesetItems :: "yaml_lib \<Rightarrow> pending list \<Rightarrow> changeset_item list" where
  "toChangesetItems yl entries = concat (map (entry_change yl) entries)"

end
