(* ===== verification/Changeset_Stage.thy ===== *)
theory Changeset_Stage
  imports Changeset_Draft
begin

text \<open>
  \<open>internal/changeset\<close>, staging: each operation checks, renders and puts one entry in the caller's draft, and answers with the
  draft as it then reads (\<open>staging.go\<close>, \<open>objects.go\<close>, \<open>drift.go\<close>, \<open>restore.go\<close>). \<open>io\<close> gives what the file system does at each
  store call of the operation, in order. A source or an argument that fails leaves the draft untouched.
\<close>

type_synonym store_io = "nat \<Rightarrow> vm_edit io"
type_synonym staged = "(fault + draft_view) \<times> drafts"
type_synonym live_namespaces = "string \<Rightarrow> fault + live_namespace option"

section \<open>One entry\<close>

definition blank_entry :: pending where
  "blank_entry = \<lparr>en_kind = KindEdit, en_resource = '''', en_namespace = '''', en_name = '''', en_source = '''', en_edit = None,
     en_manifest = '''', en_from_wizard = False, en_from_template = '''', en_from_version = ''''\<rparr>"

definition stage_entry :: "coordinator \<Rightarrow> store_io \<Rightarrow> string \<Rightarrow> project_info \<Rightarrow> pending \<Rightarrow> drafts \<Rightarrow> staged" where
  "stage_entry co ios user proj e st =
     (case Stage (ios 0) user (pi_name proj) e st of
        (False, st') \<Rightarrow> (Inl (FInternal ''write draft''), st')
      | (True, st') \<Rightarrow> Get co (ios 1) user proj st')"

text \<open>An entry, if what comes before it succeeds.\<close>

definition stage_checked :: "coordinator \<Rightarrow> store_io \<Rightarrow> string \<Rightarrow> project_info \<Rightarrow> fault + pending \<Rightarrow> drafts \<Rightarrow> staged" where
  "stage_checked co ios user proj checked st =
     (case checked of Inl e \<Rightarrow> (Inl e, st) | Inr e \<Rightarrow> stage_entry co ios user proj e st)"

section \<open>VM edits\<close>

definition edit_entry :: "project_info \<Rightarrow> string \<Rightarrow> string \<Rightarrow> string \<Rightarrow> vm_edit \<Rightarrow> fault + pending" where
  "edit_entry proj namespace name source edit =
     (case requireRepo proj of Some e \<Rightarrow> Inl e | None \<Rightarrow>
      (if edit_is_empty edit then Inl (err_invalid ''no fields to edit'')
       else
        (case RequireRepoPath ''source file'' source of Some e \<Rightarrow> Inl (err_invalid e) | None \<Rightarrow>
         Inr (blank_entry\<lparr>en_kind := KindEdit, en_namespace := namespace, en_name := name, en_source := source, en_edit := Some edit\<rparr>))))"

definition StageEdit :: "coordinator \<Rightarrow> store_io \<Rightarrow> string \<Rightarrow> project_info \<Rightarrow> string \<Rightarrow> string \<Rightarrow> string \<Rightarrow> vm_edit \<Rightarrow> drafts \<Rightarrow> staged" where
  "StageEdit co ios user proj namespace name source edit = stage_checked co ios user proj (edit_entry proj namespace name source edit)"

definition PreviewEdit :: "reader \<Rightarrow> project_info \<Rightarrow> string \<Rightarrow> string \<Rightarrow> vm_edit \<Rightarrow> fault + change list" where
  "PreviewEdit r proj namespace name edit =
     (case read_repo r proj of Inl e \<Rightarrow> Inl e | Inr m \<Rightarrow>
      (case base_vm r m namespace name of Inl e \<Rightarrow> Inl e | Inr found \<Rightarrow>
       (case found of
          None \<Rightarrow> Inl (err_not_found (namespace @ ''/'' @ name @ '' is not in git''))
        | Some current \<Rightarrow> Inr (ChangesForEdit current edit))))"

section \<open>Creating\<close>

definition requireUndeclaredVM :: "reader \<Rightarrow> mirror \<Rightarrow> string \<Rightarrow> string \<Rightarrow> fault option" where
  "requireUndeclaredVM r m namespace name =
     (case base_index r m of
        Inl e \<Rightarrow> Some e
      | Inr idx \<Rightarrow>
          (if declaredRef idx ''vm'' namespace name \<noteq> None then Some (err_conflict (namespace @ ''/'' @ name @ '' already exists in git''))
           else None))"

definition create_vm_entry :: "coordinator \<Rightarrow> project_info \<Rightarrow> string \<Rightarrow> fault + pending" where
  "create_vm_entry co proj raw =
     (case read_repo (co_reader co) proj of Inl e \<Rightarrow> Inl e | Inr m \<Rightarrow>
      (case js_vm (co_json co) raw of Inl msg \<Rightarrow> Inl (err_invalid (''invalid VM spec: '' @ msg)) | Inr spec \<Rightarrow>
       (case Manifest (co_bcrypt co) spec of Inl msg \<Rightarrow> Inl (err_invalid msg) | Inr (path, tree) \<Rightarrow>
        (case requireUndeclaredVM (co_reader co) m (vs_namespace spec) (vs_name spec) of Some e \<Rightarrow> Inl e | None \<Rightarrow>
         Inr (blank_entry\<lparr>en_kind := KindCreate, en_namespace := vs_namespace spec, en_name := vs_name spec, en_source := path,
           en_manifest := co_marshal co tree, en_from_wizard := True\<rparr>)))))"

definition StageCreateVM :: "coordinator \<Rightarrow> store_io \<Rightarrow> string \<Rightarrow> project_info \<Rightarrow> string \<Rightarrow> drafts \<Rightarrow> staged" where
  "StageCreateVM co ios user proj raw = stage_checked co ios user proj (create_vm_entry co proj raw)"

text \<open>\<open>stageRendered\<close>: a create, or an edit of the one file that declares exactly the rendered objects.\<close>

definition placed_entry :: "coordinator \<Rightarrow> project_info \<Rightarrow> string + pending \<Rightarrow> fault + pending" where
  "placed_entry co proj rendered =
     (case read_repo (co_reader co) proj of Inl e \<Rightarrow> Inl e | Inr m \<Rightarrow>
      (case rendered of Inl msg \<Rightarrow> Inl (err_invalid msg) | Inr e \<Rightarrow>
       (case base_index (co_reader co) m of Inl err \<Rightarrow> Inl err | Inr idx \<Rightarrow>
        (case soleDeclarer idx (DeclaredRefs (rd_docs (co_reader co)) (en_source e) (en_manifest e)) of
           Inl err \<Rightarrow> Inl err
         | Inr path \<Rightarrow>
             Inr (if path \<noteq> '''' then e\<lparr>en_kind := KindEdit, en_source := path\<rparr> else e\<lparr>en_kind := KindCreate\<rparr>)))))"

definition stageRendered :: "coordinator \<Rightarrow> store_io \<Rightarrow> string \<Rightarrow> project_info \<Rightarrow> string + pending \<Rightarrow> drafts \<Rightarrow> staged" where
  "stageRendered co ios user proj rendered = stage_checked co ios user proj (placed_entry co proj rendered)"

text \<open>\<open>render\<close>: decode, render, name the entry.\<close>

definition render_entry :: "coordinator \<Rightarrow> string \<Rightarrow> string + 's \<Rightarrow> ('s \<Rightarrow> string + string \<times> yval) \<Rightarrow> ('s \<Rightarrow> string \<times> string \<times> string) \<Rightarrow> string + pending" where
  "render_entry co what decoded manifest meta =
     (case decoded of
        Inl msg \<Rightarrow> Inl (''invalid '' @ what @ '' spec: '' @ msg)
      | Inr s \<Rightarrow>
          (case manifest s of
             Inl msg \<Rightarrow> Inl msg
           | Inr (path, tree) \<Rightarrow>
               (case meta s of (rsc, ns, name) \<Rightarrow>
                  Inr (blank_entry\<lparr>en_resource := rsc, en_namespace := ns, en_name := name, en_source := path, en_manifest := co_marshal co tree\<rparr>))))"

definition admin_meta :: "admin_policy_spec \<Rightarrow> string \<times> string \<times> string" where
  "admin_meta s =
     (if as_baseline s then (''baselineadminnetworkpolicy'', ClusterScopeNS, ''default'')
      else (''adminnetworkpolicy'', ClusterScopeNS, as_name s))"

text \<open>The create forms by resource; \<open>None\<close> for a resource without one.\<close>

definition renderers :: "coordinator \<Rightarrow> string \<Rightarrow> string \<Rightarrow> (string + pending) option" where
  "renderers co rsc raw =
     (let js = co_json co in
      if rsc = ''network'' then
        Some (render_entry co ''network'' (js_network js raw) NetManifest (\<lambda>s. (''network'', DraftNamespace (ns_namespace s), ns_name s)))
      else if rsc = ''uplink'' then
        Some (render_entry co ''uplink'' (js_uplink js raw) UplinkManifest (\<lambda>s. (''uplink'', ClusterScopeNS, UplinkPolicyName (us_name s))))
      else if rsc = ''egressfirewall'' then
        Some (render_entry co ''egress firewall'' (js_egress_firewall js raw) EgressFirewallManifest (\<lambda>s. (''egressfirewall'', es_namespace s, ''default'')))
      else if rsc = ''egressip'' then
        Some (render_entry co ''egress IP'' (js_egress_ip js raw) EgressIPManifest (\<lambda>s. (''egressip'', ClusterScopeNS, ei_name s)))
      else if rsc = ''externalroute'' then
        Some (render_entry co ''external route'' (js_external_route js raw) ExternalRouteManifest (\<lambda>s. (''externalroute'', ClusterScopeNS, xr_name s)))
      else if rsc = ''networkpolicy'' then
        Some (render_entry co ''network policy'' (js_network_policy js raw) NetworkPolicyManifest (\<lambda>s. (''networkpolicy'', ps_namespace s, ps_name s)))
      else if rsc = ''adminnetworkpolicy'' \<or> rsc = ''baselineadminnetworkpolicy'' then
        Some (render_entry co ''admin network policy'' (js_admin_policy js raw) AdminNetworkPolicyManifest admin_meta)
      else None)"

definition StageCreate :: "coordinator \<Rightarrow> store_io \<Rightarrow> string \<Rightarrow> project_info \<Rightarrow> string \<Rightarrow> string \<Rightarrow> drafts \<Rightarrow> staged" where
  "StageCreate co ios user proj rsc raw st =
     (case renderers co rsc raw of
        None \<Rightarrow> (Inl (err_invalid (rsc @ '' has no create form'')), st)
      | Some rendered \<Rightarrow> stageRendered co ios user proj rendered st)"

definition primaryNetworkOnExisting :: "string \<Rightarrow> live_namespace option \<Rightarrow> primary_net option \<Rightarrow> fault option" where
  "primaryNetworkOnExisting ns live net =
     (if live \<noteq> None \<and> net \<noteq> None
      then Some (err_conflict (''namespace '' @ go_quote ns @ '' already exists; a VM Network can only be added when a namespace is created''))
      else None)"

text \<open>The documents of one file.\<close>

definition marshal_docs :: "coordinator \<Rightarrow> yval list \<Rightarrow> string" where
  "marshal_docs co docs = join_with (map (co_marshal co) docs) (''---'' @ newline)"

definition own_ref :: "reader \<Rightarrow> string \<Rightarrow> string" where
  "own_ref r repo = (if SameForge (rd_forge r) repo then PathRef repo else repo)"

definition namespace_entry :: "coordinator \<Rightarrow> namespace_spec \<Rightarrow> string + pending" where
  "namespace_entry co spec =
     (case NamespaceManifest spec of
        Inl msg \<Rightarrow> Inl msg
      | Inr (path, docs) \<Rightarrow>
          Inr (blank_entry\<lparr>en_resource := ''namespace'', en_namespace := nsp_name spec, en_name := nsp_name spec, en_source := path,
            en_manifest := marshal_docs co docs\<rparr>))"

definition StageCreateNamespace ::
  "coordinator \<Rightarrow> store_io \<Rightarrow> string \<Rightarrow> project_info \<Rightarrow> project_info \<Rightarrow> string \<Rightarrow> live_namespaces \<Rightarrow> drafts \<Rightarrow> staged" where
  "StageCreateNamespace co ios user commit_proj join_proj raw live st =
     (case js_namespace (co_json co) raw of
        Inl msg \<Rightarrow> (Inl (err_invalid (''invalid namespace spec: '' @ msg)), st)
      | Inr spec \<Rightarrow>
          (case live (nsp_name spec) of
             Inl e \<Rightarrow> (Inl e, st)
           | Inr ln \<Rightarrow>
               (case primaryNetworkOnExisting (nsp_name spec) ln (nsp_network spec) of
                  Some e \<Rightarrow> (Inl e, st)
                | None \<Rightarrow>
                    stageRendered co ios user commit_proj
                      (if pi_repo join_proj = '''' then Inl ''the joining project has no repo''
                       else namespace_entry co (spec\<lparr>nsp_live := ln, nsp_project := pi_name join_proj,
                              nsp_repo := own_ref (co_reader co) (pi_repo join_proj)\<rparr>)) st)))"

section \<open>Deleting, replacing, restoring\<close>

definition delete_entry :: "reader \<Rightarrow> project_info \<Rightarrow> string \<Rightarrow> string \<Rightarrow> string \<Rightarrow> fault + pending" where
  "delete_entry r proj rsc namespace name =
     (case read_repo r proj of Inl e \<Rightarrow> Inl e | Inr m \<Rightarrow>
      (case locate r m rsc namespace name of Inl e \<Rightarrow> Inl e | Inr path \<Rightarrow>
       Inr (blank_entry\<lparr>en_kind := KindDelete, en_resource := rsc, en_namespace := namespace, en_name := name, en_source := path\<rparr>)))"

definition StageDelete :: "coordinator \<Rightarrow> store_io \<Rightarrow> string \<Rightarrow> project_info \<Rightarrow> string \<Rightarrow> string \<Rightarrow> string \<Rightarrow> drafts \<Rightarrow> staged" where
  "StageDelete co ios user proj rsc namespace name = stage_checked co ios user proj (delete_entry (co_reader co) proj rsc namespace name)"

definition replaces_only :: "string \<Rightarrow> string \<Rightarrow> string \<Rightarrow> object_ref list \<Rightarrow> bool" where
  "replaces_only rsc namespace name refs =
     (case refs of
        [ref] \<Rightarrow> or_namespace ref = ObjectNamespace namespace \<and> or_name ref = name \<and> or_kind ref \<in> set (ResourceKinds rsc)
      | _ \<Rightarrow> False)"

definition update_entry :: "reader \<Rightarrow> project_info \<Rightarrow> string \<Rightarrow> string \<Rightarrow> string \<Rightarrow> string \<Rightarrow> fault + pending" where
  "update_entry r proj rsc namespace name yaml =
     (case read_repo r proj of Inl e \<Rightarrow> Inl e | Inr m \<Rightarrow>
      (case locate r m rsc namespace name of Inl e \<Rightarrow> Inl e | Inr path \<Rightarrow>
       (if \<not> replaces_only rsc namespace name (DeclaredRefs (rd_docs r) path yaml)
        then Inl (err_invalid (''the manifest must declare exactly '' @ namespace @ ''/'' @ name))
        else
         (case base_tree r m of Inl e \<Rightarrow> Inl e | Inr t \<Rightarrow>
          (case FileOnBranch t path of Inl e \<Rightarrow> Inl e | Inr current \<Rightarrow>
           (if SameDocument r current yaml then Inl (err_invalid (namespace @ ''/'' @ name @ '' already matches git''))
            else Inr (blank_entry\<lparr>en_kind := KindEdit, en_resource := rsc, en_namespace := namespace, en_name := name,
                   en_source := path, en_manifest := yaml\<rparr>)))))))"

definition StageUpdateManifest :: "coordinator \<Rightarrow> store_io \<Rightarrow> string \<Rightarrow> project_info \<Rightarrow> string \<Rightarrow> string \<Rightarrow> string \<Rightarrow> string \<Rightarrow> drafts \<Rightarrow> staged" where
  "StageUpdateManifest co ios user proj rsc namespace name yaml =
     stage_checked co ios user proj (update_entry (co_reader co) proj rsc namespace name yaml)"

text \<open>\<open>FileAt\<close>: \<open>Inl None\<close> is \<open>ErrNoFile\<close>.\<close>

definition FileAt :: "mirror \<Rightarrow> string \<Rightarrow> string \<Rightarrow> fault option + string" where
  "FileAt m hash path =
     (case mr_find m hash of
        None \<Rightarrow> Inl (Some (FInternal (''commit '' @ hash)))
      | Some c \<Rightarrow> (case map_of (cm_tree c) path of None \<Rightarrow> Inl None | Some content \<Rightarrow> Inr content))"

definition restore_entry :: "reader \<Rightarrow> project_info \<Rightarrow> string \<Rightarrow> string \<Rightarrow> string \<Rightarrow> string \<Rightarrow> fault + pending" where
  "restore_entry r proj rsc namespace name hash =
     (case read_repo r proj of Inl e \<Rightarrow> Inl e | Inr m \<Rightarrow>
      (case locate r m rsc namespace name of Inl e \<Rightarrow> Inl e | Inr path \<Rightarrow>
       (case FileAt m hash path of
          Inl None \<Rightarrow> Inl (err_not_found (path @ '' did not exist at '' @ shortCommit hash))
        | Inl (Some e) \<Rightarrow> Inl (err_not_found (fault_text e))
        | Inr content \<Rightarrow>
            (case base_tree r m of Inl e \<Rightarrow> Inl e | Inr t \<Rightarrow>
             (if LookupFile t path = Some content
              then Inl (err_invalid (namespace @ ''/'' @ name @ '' already matches '' @ shortCommit hash))
              else Inr (blank_entry\<lparr>en_kind := KindEdit, en_resource := rsc, en_namespace := namespace, en_name := name,
                     en_source := path, en_manifest := content, en_from_version := shortCommit hash\<rparr>))))))"

definition RestoreVersion :: "coordinator \<Rightarrow> store_io \<Rightarrow> string \<Rightarrow> project_info \<Rightarrow> string \<Rightarrow> string \<Rightarrow> string \<Rightarrow> string \<Rightarrow> drafts \<Rightarrow> staged" where
  "RestoreVersion co ios user proj rsc namespace name hash =
     stage_checked co ios user proj (restore_entry (co_reader co) proj rsc namespace name hash)"

end
