(* ===== verification/Changeset_Adopt.thy ===== *)
theory Changeset_Adopt
  imports Changeset_Stage
begin

text \<open>
  \<open>internal/changeset\<close>, adoption and withdrawal: making git say what the cluster runs (\<open>drift.go\<close>, \<open>objects.go\<close>), the sync
  the other way, and taking entries out of a draft again (\<open>staging.go\<close>).
\<close>

section \<open>Objects\<close>

record adoptable_object =
  ao_namespace :: string
  ao_name :: string
  ao_kind :: string
  ao_path :: string
  ao_manifest :: string

definition adoptResource :: "string \<Rightarrow> string" where
  "adoptResource kind = (case LookupKind kind of Some (r, _) \<Rightarrow> rs_name r | None \<Rightarrow> ''vm'')"

definition capture_entry :: "adoptable_object \<Rightarrow> pending" where
  "capture_entry a =
     blank_entry\<lparr>en_kind := KindCreate, en_resource := adoptResource (ao_kind a), en_namespace := DraftNamespace (ao_namespace a),
       en_name := ao_name a, en_source := ao_path a, en_manifest := ao_manifest a\<rparr>"

definition adopt_entry :: "reader \<Rightarrow> project_info \<Rightarrow> adoptable_object \<Rightarrow> fault + pending" where
  "adopt_entry r proj a =
     (case read_repo r proj of Inl e \<Rightarrow> Inl e | Inr m \<Rightarrow>
      (case base_tree r m of Inl e \<Rightarrow> Inl e | Inr t \<Rightarrow>
       (case soleDeclarer (DeclaredFilesOnBranch (rd_docs r) t) (DeclaredRefs (rd_docs r) (ao_path a) (ao_manifest a)) of
          Inl e \<Rightarrow> Inl e
        | Inr path \<Rightarrow>
            (if path = '''' then Inr (capture_entry a)
             else
              (case FileOnBranch t path of Inl e \<Rightarrow> Inl e | Inr current \<Rightarrow>
               (if SameDocument r current (ao_manifest a)
                then Inl (err_invalid (DraftNamespace (ao_namespace a) @ ''/'' @ ao_name a @ '' already matches git''))
                else Inr ((capture_entry a)\<lparr>en_kind := KindEdit, en_source := path\<rparr>)))))))"

definition AdoptObject :: "coordinator \<Rightarrow> store_io \<Rightarrow> string \<Rightarrow> project_info \<Rightarrow> adoptable_object \<Rightarrow> drafts \<Rightarrow> staged" where
  "AdoptObject co ios user proj a = stage_checked co ios user proj (adopt_entry (co_reader co) proj a)"

definition object_identity :: "adoptable_object \<Rightarrow> object_ref" where
  "object_identity a = \<lparr>or_kind = ao_kind a, or_namespace = ao_namespace a, or_name = ao_name a\<rparr>"

text \<open>Entries staged one after the other from the \<open>n\<close>th store call on, until one fails.\<close>

fun stage_all :: "store_io \<Rightarrow> nat \<Rightarrow> string \<Rightarrow> string \<Rightarrow> pending list \<Rightarrow> drafts \<Rightarrow> bool \<times> drafts" where
  "stage_all ios n user project [] st = (True, st)"
| "stage_all ios n user project (e # es) st =
     (case Stage (ios n) user project e st of
        (False, st') \<Rightarrow> (False, st')
      | (True, st') \<Rightarrow> stage_all ios (Suc n) user project es st')"

definition undeclared_captures :: "object_ref set \<Rightarrow> adoptable_object list \<Rightarrow> pending list" where
  "undeclared_captures held objs = map capture_entry (filter (\<lambda>a. object_identity a \<notin> held) objs)"

definition AdoptObjects :: "coordinator \<Rightarrow> store_io \<Rightarrow> string \<Rightarrow> project_info \<Rightarrow> string \<Rightarrow> adoptable_object list \<Rightarrow> drafts \<Rightarrow> staged" where
  "AdoptObjects co ios user proj where_to objs st =
     (case read_repo (co_reader co) proj of Inl e \<Rightarrow> (Inl e, st) | Inr m \<Rightarrow>
      (case base_tree (co_reader co) m of Inl e \<Rightarrow> (Inl e, st) | Inr t \<Rightarrow>
       (let es = undeclared_captures (DeclaredOnBranch (rd_docs (co_reader co)) t) objs in
        case stage_all ios 0 user (pi_name proj) es st of
          (False, st') \<Rightarrow> (Inl (FInternal ''write draft''), st')
        | (True, st') \<Rightarrow>
            (if es = [] then
               (Inl (err_invalid (''nothing to adopt in '' @ where_to @ '': git already describes everything running there'')), st')
             else Get co (ios (length es)) user proj st'))))"

section \<open>A VM\<close>

definition adopt_vm_entry :: "reader \<Rightarrow> project_info \<Rightarrow> string \<Rightarrow> string \<Rightarrow> fault + pending" where
  "adopt_vm_entry r proj namespace name =
     (case read_repo r proj of Inl e \<Rightarrow> Inl e | Inr m \<Rightarrow>
      (case base_vm r m namespace name of Inl e \<Rightarrow> Inl e | Inr desired \<Rightarrow>
       (case findLiveVM r namespace name of Inl e \<Rightarrow> Inl e | Inr actual \<Rightarrow>
        (case actual of
           None \<Rightarrow> Inl (err_not_found (namespace @ ''/'' @ name @ '' is not running''))
         | Some (v, content) \<Rightarrow>
             (case desired of
                None \<Rightarrow>
                  Inr (blank_entry\<lparr>en_kind := KindCreate, en_namespace := vm_namespace v, en_name := vm_name v,
                    en_source := vm_source_file v, en_manifest := content\<rparr>)
              | Some d \<Rightarrow>
                  (let edit = EditToMatch d v in
                   if edit_is_empty edit then Inl (err_invalid (''no drift to adopt for '' @ namespace @ ''/'' @ name))
                   else Inr (blank_entry\<lparr>en_kind := KindEdit, en_namespace := namespace, en_name := name,
                          en_source := vm_source_file d, en_edit := Some edit\<rparr>)))))))"

definition Adopt :: "coordinator \<Rightarrow> store_io \<Rightarrow> string \<Rightarrow> project_info \<Rightarrow> string \<Rightarrow> string \<Rightarrow> drafts \<Rightarrow> staged" where
  "Adopt co ios user proj namespace name = stage_checked co ios user proj (adopt_vm_entry (co_reader co) proj namespace name)"

text \<open>The sync of an Application and the caller's access review are functions of the call.\<close>

definition Resync ::
  "(string \<Rightarrow> string \<Rightarrow> string \<Rightarrow> fault + 'r) option \<Rightarrow> (string \<Rightarrow> string \<Rightarrow> fault + bool) \<Rightarrow> string \<Rightarrow> string \<Rightarrow> string \<Rightarrow> fault + 'r" where
  "Resync resyncer can_update user namespace name =
     (case resyncer of
        None \<Rightarrow> Inl (err_unavailable ''re-sync unavailable (ArgoCD not configured)'')
      | Some sync \<Rightarrow>
          (case can_update namespace name of
             Inl e \<Rightarrow> Inl e
           | Inr allowed \<Rightarrow>
               (if \<not> allowed then Inl (err_forbidden (''you don'' @ [CHR 0x27] @ ''t have permission to sync VM '' @ namespace @ ''/'' @ name))
                else sync user namespace name)))"

section \<open>Withdrawing\<close>

fun unstage_each :: "store_io \<Rightarrow> nat \<Rightarrow> string \<Rightarrow> string \<Rightarrow> pending list \<Rightarrow> nat \<Rightarrow> drafts \<Rightarrow> bool \<times> nat \<times> drafts" where
  "unstage_each ios n user project [] removed st = (True, removed, st)"
| "unstage_each ios n user project (e # es) removed st =
     (case Draft_Store.Unstage (ios n) user project (en_resource e) (en_namespace e) (en_name e) st of
        (False, st') \<Rightarrow> (False, removed, st')
      | (True, st') \<Rightarrow> unstage_each ios (Suc n) user project es (Suc removed) st')"

definition unstageResource :: "store_io \<Rightarrow> string \<Rightarrow> project_info \<Rightarrow> string \<Rightarrow> drafts \<Rightarrow> (fault option \<times> nat) \<times> drafts" where
  "unstageResource ios user proj rsc st =
     (case draft_list (ios 0) user (pi_name proj) st of
        (Inl e, st') \<Rightarrow> ((Some (FInternal e), 0), st')
      | (Inr entries, st') \<Rightarrow>
          (case unstage_each ios 1 user (pi_name proj) (filter (\<lambda>e. en_resource e = rsc) entries) 0 st' of
             (ok, removed, st'') \<Rightarrow> ((if ok then None else Some (FInternal ''write draft''), removed), st'')))"

definition UnstageChange :: "store_io \<Rightarrow> string \<Rightarrow> project_info \<Rightarrow> string \<Rightarrow> string \<Rightarrow> string \<Rightarrow> drafts \<Rightarrow> fault option \<times> drafts" where
  "UnstageChange ios user proj rsc namespace name st =
     (if Atomic rsc then (case unstageResource ios user proj rsc st of ((e, _), st') \<Rightarrow> (e, st'))
      else (case Draft_Store.Unstage (ios 0) user (pi_name proj) rsc namespace name st of
              (ok, st') \<Rightarrow> (if ok then None else Some (FInternal ''write draft''), st')))"

definition Discard :: "store_io \<Rightarrow> string \<Rightarrow> project_info \<Rightarrow> drafts \<Rightarrow> fault option \<times> drafts" where
  "Discard ios user proj st =
     (case Clear (ios 0) user (pi_name proj) st of (ok, st') \<Rightarrow> (if ok then None else Some (FInternal ''clear draft''), st'))"

end
