(* ===== verification/Netgen_Props.thy ===== *)
theory Netgen_Props
  imports Netgen_Decode
begin

text \<open>
  The round trip of the network forms: every manifest a form renders decodes to the same form, up to the fields the
  renderer ignores and the defaults it fills in; and where a rendered manifest may be written.
\<close>

section \<open>Reading what was rendered\<close>

lemma y_field_append [simp]: "y_field k (xs @ ys) = (if k \<in> fst ` set xs then y_field k xs else y_field k ys)"
proof (induction xs)
  case (Cons a xs)
  then show ?case by (cases a) simp
qed simp

lemma first_error_None: "first_error f i xs = None \<Longrightarrow> x \<in> set xs \<Longrightarrow> \<exists>j. f j x = None"
  by (induction f i xs rule: first_error.induct) (auto split: option.splits)

lemma map_result_read:
  assumes "map_result f i xs = Inr ys" "\<And>j x y. x \<in> set xs \<Longrightarrow> f j x = Inr y \<Longrightarrow> \<exists>d. read y = Some d \<and> dec d = x"
  shows "\<exists>ds. map_read read ys = Some ds \<and> map dec ds = xs"
  using assms
proof (induction f i xs arbitrary: ys rule: map_result.induct)
  case (2 f i x xs)
  from "2.prems"(1) obtain y ys' where y: "f i x = Inr y" "map_result f (i + 1) xs = Inr ys'" "ys = y # ys'"
    by (auto split: sum.splits)
  obtain d where d: "read y = Some d" "dec d = x" using "2.prems"(2)[of x i y] y(1) by auto
  obtain ds where "map_read read ys' = Some ds" "map dec ds = xs"
    using "2.IH"[OF y(1,2)] "2.prems"(2) by fastforce
  then show ?case using d y(3) by auto
qed simp

lemma map_read_ex:
  assumes "\<And>x. x \<in> set xs \<Longrightarrow> \<exists>d. read (f x) = Some d \<and> dec d = x"
  shows "\<exists>ds. map_read read (map f xs) = Some ds \<and> map dec ds = xs"
  using assms by (induction xs) fastforce+

lemma read_port_tree:
  assumes "port_error at i p = None"
  shows "\<exists>d. read_port (port_tree w p) = Some d \<and> form_port d = p"
proof -
  have b: "0 < pp_port p" "pp_port p \<le> 65535" using assms by (auto simp: port_error_def split: if_splits)
  then have n: "read_int_or_string (YInt (pp_port p)) = Some (IntVal (pp_port p))"
    by (simp add: read_int_or_string_def)
  show ?thesis
    by (cases w) (simp_all add: port_tree_def Let_def read_port.simps n form_port_def int_value_def)
qed

lemma read_ports_field:
  assumes "ports_field at ports w = Inr fs"
  obtains v ds where "\<And>k. y_field k fs = (if k = ''ports'' then v else YNull)"
    "y_list read_port v = Some ds" "decode_ports ds = ports"
proof (cases "ports = []")
  case False
  then have e: "first_error (port_error at) 0 ports = None" and fs: "fs = [(''ports'', YSeq (map (port_tree w) ports))]"
    using assms by (auto simp: ports_field_def portEntries_def split: option.splits)
  have "\<exists>ds. map_read read_port (map (port_tree w) ports) = Some ds \<and> map form_port ds = ports"
    by (rule map_read_ex) (use first_error_None[OF e] read_port_tree in blast)
  then show ?thesis using that[of "YSeq (map (port_tree w) ports)"] by (auto simp: fs decode_ports_def)
qed (use assms that[of YNull "[]"] in \<open>simp add: ports_field_def decode_ports_def\<close>)

lemma read_selector_tree: "read_selector (selector_tree m) = Some \<lparr>match_labels = m, match_exprs = []\<rparr>"
  by (simp add: selector_tree_def read_selector_def)

lemma read_nsNameSelector:
  "read_selector (nsNameSelector ns) = Some \<lparr>match_labels = [], match_exprs = [\<lparr>rq_key = NamespaceNameLabel, rq_operator = ''In'', rq_values = ns\<rparr>]\<rparr>"
  by (simp add: nsNameSelector_def read_selector_def read_requirement_def)

lemma NamespaceNames_pinned:
  assumes "'''' \<notin> set ns"
  shows "NamespaceNames (Some \<lparr>match_labels = [], match_exprs = [\<lparr>rq_key = NamespaceNameLabel, rq_operator = ''In'', rq_values = ns\<rparr>]\<rparr>) = ns"
proof -
  have "filter (\<lambda>v. v \<noteq> '''') ns = ns" by (rule filter_True) (use assms in auto)
  then show ?thesis by (simp add: NamespaceNames_def NameIn_def)
qed

lemma read_empty_selector: "read_selector YNull = Some \<lparr>match_labels = [], match_exprs = []\<rparr>"
  by (simp add: read_selector_def)

lemma read_labels_selector: "read_selector (YMap [(''matchLabels'', YLabels m)]) = Some \<lparr>match_labels = m, match_exprs = []\<rparr>"
  by (simp add: read_selector_def)

lemmas read_basic = read_meta_def read_parts_def doc_tree_def read_empty_selector read_labels_selector
  read_selector_tree read_nsNameSelector

lemma y_ptr_selector_tree: "y_ptr f (selector_tree m) = map_option Some (f (selector_tree m))"
  by (simp add: selector_tree_def)

section \<open>Forms up to what the renderer fills in\<close>

text \<open>What a decoded form has for a rendered one: the fields its scope does not use are unset, the scope is spelled
  out, a baseline policy has the fixed name and no priority, and the uplink's defaults are unset.\<close>

definition normal_form :: "form_spec \<Rightarrow> form_spec" where
  "normal_form f =
     (case f of
        FormNetwork s \<Rightarrow> FormNetwork
          (if ns_scope s = NetScopeShared then s\<lparr>ns_namespace := '''', ns_vlan := 0, ns_physical := ''''\<rparr>
           else if ns_scope s = NetScopeVLAN then s\<lparr>ns_namespace := ''''\<rparr>
           else s\<lparr>ns_scope := NetScopeProject, ns_vlan := 0, ns_physical := '''', ns_namespaces := []\<rparr>)
      | FormAdmin s \<Rightarrow> FormAdmin (if as_baseline s then s\<lparr>as_name := ''default'', as_priority := 0\<rparr> else s)
      | FormUplink s \<Rightarrow> FormUplink (unset_uplink s)
      | _ \<Rightarrow> f)"

definition form_namespaces :: "form_spec \<Rightarrow> string list" where
  "form_namespaces f =
     (case f of
        FormNetwork s \<Rightarrow> (if ns_scope s = NetScopeShared \<or> ns_scope s = NetScopeVLAN then ns_namespaces s else [])
      | FormEgressIP s \<Rightarrow> ei_namespaces s
      | FormRoute s \<Rightarrow> xr_namespaces s
      | _ \<Rightarrow> [])"

lemmas scope_defs = NetScopeProject_def NetScopeShared_def NetScopeVLAN_def

section \<open>Each form reads back\<close>

lemma decode_network:
  assumes r: "NetManifest s = Inr (p, t)" and ns: "'''' \<notin> set (form_namespaces (FormNetwork s))"
  shows "FormNetwork (the (decodeNetwork t)) = normal_form (FormNetwork s) \<and> decodeNetwork t \<noteq> None \<and>
    (\<exists>m. read_header t = Some (if ns_scope s = NetScopeShared \<or> ns_scope s = NetScopeVLAN then ''ClusterUserDefinedNetwork'' else ''UserDefinedNetwork'', m))"
proof -
  consider (project) "ns_scope s = '''' \<or> ns_scope s = NetScopeProject" "projectUDN s = Inr (p, t)"
    | (shared) "ns_scope s = NetScopeShared" "sharedCUDN s = Inr (p, t)"
    | (vlan) "ns_scope s = NetScopeVLAN" "vlanCUDN s = Inr (p, t)"
    using r by (auto simp: NetManifest_def split: if_splits)
  then show ?thesis
  proof cases
    case project
    then have t: "t = doc_tree KindUDN [(''name'', YStr (ns_name s)), (''namespace'', YStr (ns_namespace s))]
        [(''topology'', YStr ''Layer2''), (''layer2'', layer2Spec (ns_subnets s))]"
      by (auto simp: projectUDN_def split: option.splits)
    have sc: "ns_scope s \<noteq> NetScopeShared" "ns_scope s \<noteq> NetScopeVLAN" using project(1) by (auto simp: scope_defs)
    show ?thesis
      by (cases s) (use sc in \<open>simp add: t decodeNetwork_def read_network_doc_def read_basic kind_defs read_header_def
          read_network_config_def layer2Spec_def blank_net_def normal_form_def Let_def\<close>)
  next
    case shared
    then have t: "t = doc_tree KindCUDN [(''name'', YStr (ns_name s))]
        [(''namespaceSelector'', nsNameSelector (ns_namespaces s)),
         (''network'', YMap [(''topology'', YStr ''Layer2''), (''layer2'', layer2Spec (ns_subnets s))])]"
      by (auto simp: sharedCUDN_def split: option.splits if_splits)
    have n: "'''' \<notin> set (ns_namespaces s)" using ns shared(1) by (simp add: form_namespaces_def)
    show ?thesis
      by (cases s) (use shared(1) n in \<open>simp add: t decodeNetwork_def read_network_doc_def read_basic kind_defs read_header_def
          read_network_config_def layer2Spec_def blank_net_def normal_form_def Let_def NamespaceNames_pinned scope_defs\<close>)
  next
    case vlan
    then have t: "t = doc_tree KindCUDN [(''name'', YStr (ns_name s))]
        [(''namespaceSelector'', nsNameSelector (ns_namespaces s)),
         (''network'', YMap [(''topology'', YStr ''Localnet''), (''localnet'', YMap ([(''role'', YStr ''Secondary''), (''physicalNetworkName'', YStr (ns_physical s)),
                  (''ipam'', YMap [(''mode'', YStr (if ns_subnets s \<noteq> [] then ''Enabled'' else ''Disabled''))]),
                  (''vlan'', YMap [(''mode'', YStr ''Access''), (''access'', YMap [(''id'', YInt (ns_vlan s))])])] @
                  (if ns_subnets s \<noteq> [] then [(''subnets'', YStrs (ns_subnets s))] else [])))])]"
      by (auto simp: vlanCUDN_def Let_def split: option.splits if_splits)
    have n: "'''' \<notin> set (ns_namespaces s)" using ns vlan(1) by (simp add: form_namespaces_def scope_defs)
    show ?thesis
      by (cases s) (use vlan(1) n in \<open>simp add: t decodeNetwork_def read_network_doc_def read_basic kind_defs read_header_def
          read_network_config_def blank_net_def normal_form_def Let_def NamespaceNames_pinned scope_defs\<close>)
  qed
qed

lemma read_policy_peer_tree:
  "read_policy_peer (YMap [(''podSelector'', YMap [(''matchLabels'', YLabels peer)])]) =
     Some \<lparr>npp_namespace_selector = None, npp_pod_selector = Some \<lparr>match_labels = peer, match_exprs = []\<rparr>, npp_ip_block = None\<rparr>"
  by (simp add: read_policy_peer_def read_labels_selector)

lemma read_policy_rule_tree:
  assumes "policy_rule_tree i r = Inr y"
  shows "\<exists>d. read_policy_rule y = Some d \<and> decode_policy_rule d = r"
proof -
  obtain fs where fs: "ports_field ''rule'' (rl_ports r) False = Inr fs"
    and y: "y = YMap ((if rl_from r = [] then [] else [(''from'', YSeq (map (\<lambda>peer. YMap [(''podSelector'', YMap [(''matchLabels'', YLabels peer)])]) (rl_from r)))]) @ fs)"
    using assms by (cases "ports_field ''rule'' (rl_ports r) False") (auto simp: policy_rule_tree_def)
  obtain v ds where k: "\<And>k. y_field k fs = (if k = ''ports'' then v else YNull)" and ds: "y_list read_port v = Some ds" "decode_ports ds = rl_ports r"
    using read_ports_field[OF fs] by blast
  have "map_read read_policy_peer (map (\<lambda>peer. YMap [(''podSelector'', YMap [(''matchLabels'', YLabels peer)])]) (rl_from r)) =
      Some (map (\<lambda>peer. \<lparr>npp_namespace_selector = None, npp_pod_selector = Some \<lparr>match_labels = peer, match_exprs = []\<rparr>, npp_ip_block = None\<rparr>) (rl_from r))"
    by (rule map_read_map) (rule read_policy_peer_tree)
  then show ?thesis
    by (cases r) (use ds in \<open>simp add: y k read_policy_rule_def decode_policy_rule_def comp_def\<close>)
qed

lemma decode_network_policy:
  assumes "NetworkPolicyManifest s = Inr (p, t)"
  shows "decodeNetworkPolicy t = Some s \<and> (\<exists>m. read_header t = Some (''NetworkPolicy'', m))"
proof -
  obtain rules where r: "map_result policy_rule_tree 0 (ps_ingress s) = Inr rules"
    and t: "t = doc_tree KindNetpol [(''name'', YStr (ps_name s)), (''namespace'', YStr (ps_namespace s))]
        ([(''podSelector'', selector_tree (ps_applied s)), (''policyTypes'', YSeq [YStr ''Ingress''])] @
                  (if ps_ingress s = [] then [] else [(''ingress'', YSeq rules)]))"
    using assms by (auto simp: NetworkPolicyManifest_def split: option.splits sum.splits)
  have ex_ds: "\<exists>ds. map_read read_policy_rule rules = Some ds \<and> map decode_policy_rule ds = ps_ingress s"
    by (rule map_result_read[OF r]) (erule read_policy_rule_tree)
  obtain ds where ds: "map_read read_policy_rule rules = Some ds" "map decode_policy_rule ds = ps_ingress s"
    using ex_ds by blast
  then show ?thesis
    by (cases s) (simp add: t decodeNetworkPolicy_def read_network_policy_doc_def read_basic kind_defs read_header_def)
qed

lemma read_admin_peer_tree:
  "read_admin_peer (YMap [(''namespaces'', selector_tree peer)]) =
     Some \<lparr>ap_namespaces = Some \<lparr>match_labels = peer, match_exprs = []\<rparr>, ap_pods = None, ap_nodes = None, ap_networks = None\<rparr>"
  by (simp add: read_admin_peer_def y_ptr_selector_tree read_selector_tree)

lemma read_admin_rule_tree:
  assumes "admin_rule_tree b key i r = Inr y" and "(key, peers) \<in> {(''from'', ar_from), (''to'', ar_to)}"
  shows "\<exists>d. read_admin_rule y = Some d \<and> decode_admin_rule peers d = r"
proof -
  obtain fs where fs: "ports_field (rule_word i) (al_ports r) True = Inr fs"
    and y: "y = YMap ([(''action'', YStr (al_action r)), (key, YSeq (map (\<lambda>p. YMap [(''namespaces'', selector_tree p)]) (al_peers r)))] @ fs)"
    using assms(1) by (cases "ports_field (rule_word i) (al_ports r) True") (auto simp: admin_rule_tree_def split: if_splits)
  obtain v ds where k: "\<And>k. y_field k fs = (if k = ''ports'' then v else YNull)" and ds: "y_list read_port v = Some ds" "decode_ports ds = al_ports r"
    using read_ports_field[OF fs] by blast
  have "map_read read_admin_peer (map (\<lambda>p. YMap [(''namespaces'', selector_tree p)]) (al_peers r)) =
      Some (map (\<lambda>peer. \<lparr>ap_namespaces = Some \<lparr>match_labels = peer, match_exprs = []\<rparr>, ap_pods = None, ap_nodes = None, ap_networks = None\<rparr>) (al_peers r))"
    by (rule map_read_map) (rule read_admin_peer_tree)
  then show ?thesis
    by (cases r) (use ds assms(2) in \<open>auto simp: y k read_admin_rule_def decode_admin_rule_def comp_def\<close>)
qed

lemma decode_admin_policy:
  assumes "AdminNetworkPolicyManifest s = Inr (p, t)"
  shows "map_option FormAdmin (decodeAdminNetworkPolicy t) = Some (normal_form (FormAdmin s)) \<and>
    (\<exists>m. read_header t = Some (if as_baseline s then ''BaselineAdminNetworkPolicy'' else ''AdminNetworkPolicy'', m))"
proof -
  let ?name = "if as_baseline s then ''default'' else as_name s" and ?kind = "if as_baseline s then KindBANP else KindANP"
  obtain ing eg where ri: "map_result (admin_rule_tree (as_baseline s) ''from'') 0 (as_ingress s) = Inr ing"
    and re: "map_result (admin_rule_tree (as_baseline s) ''to'') 0 (as_egress s) = Inr eg"
    and t: "t = doc_tree ?kind [(''name'', YStr ?name)]
                     ([(''subject'', YMap [(''namespaces'', selector_tree (as_subject s))])] @
                      (if as_baseline s then [] else [(''priority'', YInt (as_priority s))]) @
                      (if as_ingress s = [] then [] else [(''ingress'', YSeq ing)]) @
                      (if as_egress s = [] then [] else [(''egress'', YSeq eg)]))"
    using assms unfolding AdminNetworkPolicyManifest_def Let_def by (simp split: option.splits sum.splits)
  have ex_di: "\<exists>ds. map_read read_admin_rule ing = Some ds \<and> map (decode_admin_rule ar_from) ds = as_ingress s"
    by (rule map_result_read[OF ri]) (erule read_admin_rule_tree, simp)
  obtain di where di: "map_read read_admin_rule ing = Some di" "map (decode_admin_rule ar_from) di = as_ingress s"
    using ex_di by blast
  have ex_de: "\<exists>ds. map_read read_admin_rule eg = Some ds \<and> map (decode_admin_rule ar_to) ds = as_egress s"
    by (rule map_result_read[OF re]) (erule read_admin_rule_tree, simp)
  obtain de where de: "map_read read_admin_rule eg = Some de" "map (decode_admin_rule ar_to) de = as_egress s"
    using ex_de by blast
  show ?thesis
    by (cases s) (use di de in \<open>auto simp: t decodeAdminNetworkPolicy_def read_admin_network_policy_doc_def read_basic kind_defs
      read_header_def y_ptr_selector_tree normal_form_def\<close>)
qed

lemma read_egress_rule_tree:
  assumes "egress_rule_tree i r = Inr y"
  shows "\<exists>d. read_egress_rule y = Some d \<and> decode_egress_rule d = r"
proof -
  have ex: "(er_cidr r = '''') \<noteq> (er_dns r = '''')" using assms by (auto simp: egress_rule_tree_def split: if_splits)
  obtain fs where fs: "ports_field (rule_word i) (er_ports r) False = Inr fs"
    and y: "y = YMap ([(''type'', YStr (er_action r)),
            (''to'', YMap [if er_cidr r \<noteq> '''' then (''cidrSelector'', YStr (er_cidr r)) else (''dnsName'', YStr (er_dns r))])] @ fs)"
    using assms by (cases "ports_field (rule_word i) (er_ports r) False") (auto simp: egress_rule_tree_def split: if_splits)
  obtain v ds where k: "\<And>k. y_field k fs = (if k = ''ports'' then v else YNull)" and ds: "y_list read_port v = Some ds" "decode_ports ds = er_ports r"
    using read_ports_field[OF fs] by blast
  show ?thesis
    by (cases r) (use ds ex in \<open>auto simp: y k read_egress_rule_def read_egress_destination_def decode_egress_rule_def\<close>)
qed

lemma decode_egress_firewall:
  assumes "EgressFirewallManifest s = Inr (p, t)"
  shows "decodeEgressFirewall t = Some s \<and> (\<exists>m. read_header t = Some (''EgressFirewall'', m))"
proof -
  obtain rules where r: "map_result egress_rule_tree 0 (es_rules s) = Inr rules"
    and t: "t = doc_tree KindEgressFW [(''name'', YStr ''default''), (''namespace'', YStr (es_namespace s))] [(''egress'', YSeq rules)]"
    using assms by (auto simp: EgressFirewallManifest_def split: option.splits sum.splits if_splits)
  have ex_ds: "\<exists>ds. map_read read_egress_rule rules = Some ds \<and> map decode_egress_rule ds = es_rules s"
    by (rule map_result_read[OF r]) (erule read_egress_rule_tree)
  obtain ds where ds: "map_read read_egress_rule rules = Some ds" "map decode_egress_rule ds = es_rules s"
    using ex_ds by blast
  then show ?thesis
    by (cases s) (simp add: t decodeEgressFirewall_def read_egress_firewall_doc_def read_basic kind_defs read_header_def)
qed

lemma decode_egress_ip:
  assumes "EgressIPManifest s = Inr (p, t)" "'''' \<notin> set (ei_namespaces s)"
  shows "decodeEgressIPForm t = Some s \<and> (\<exists>m. read_header t = Some (''EgressIP'', m))"
proof -
  have t: "t = doc_tree KindEgressIP [(''name'', YStr (ei_name s))]
                    [(''egressIPs'', YStrs (ei_ips s)), (''namespaceSelector'', nsNameSelector (ei_namespaces s))]"
    using assms(1) by (auto simp: EgressIPManifest_def split: option.splits if_splits)
  show ?thesis
    by (cases s) (use assms(2) in \<open>simp add: t decodeEgressIPForm_def read_egress_ip_doc_def read_basic kind_defs read_header_def NamespaceNames_pinned\<close>)
qed

lemma decode_external_route:
  assumes "ExternalRouteManifest s = Inr (p, t)" "'''' \<notin> set (xr_namespaces s)"
  shows "decodeExternalRoute t = Some s \<and> (\<exists>m. read_header t = Some (''AdminPolicyBasedExternalRoute'', m))"
proof -
  have t: "t = doc_tree KindExtRoute [(''name'', YStr (xr_name s))]
                    [(''from'', YMap [(''namespaceSelector'', nsNameSelector (xr_namespaces s))]),
                     (''nextHops'', YMap [(''static'', YSeq (map (\<lambda>ip. YMap [(''ip'', YStr ip)]) (xr_hops s)))])]"
    using assms(1) by (auto simp: ExternalRouteManifest_def split: option.splits if_splits)
  have hops: "map_read (\<lambda>v. y_obj v \<bind> (\<lambda>h. y_string (y_field ''ip'' h))) (map (\<lambda>ip. YMap [(''ip'', YStr ip)]) (xr_hops s)) = Some (map id (xr_hops s))"
    by (rule map_read_map) simp
  show ?thesis
    by (cases s) (use assms(2) hops in \<open>simp add: t decodeExternalRoute_def read_external_route_doc_def read_basic kind_defs read_header_def NamespaceNames_pinned\<close>)
qed

lemma decode_uplink:
  assumes "UplinkManifest s = Inr (p, t)"
  shows "decodeUplink t = Some (unset_uplink s) \<and> (\<exists>m. read_header t = Some (''NodeNetworkConfigurationPolicy'', m))"
proof -
  obtain bridge sel where b: "bridge = (if us_bridge s = '''' then ''br-'' @ us_name s else us_bridge s)"
    and sel: "sel = (if us_selector s = [] then [(workerLabel, '''')] else us_selector s)"
    and t: "t = doc_tree KindNNCP [(''name'', YStr (UplinkPolicyName (us_name s)))]
                [(''nodeSelector'', YLabels sel),
                 (''desiredState'', YMap [
                    (''interfaces'', YSeq [YMap [(''name'', YStr bridge), (''type'', YStr ''ovs-bridge''), (''state'', YStr ''up''),
                       (''bridge'', YMap [(''allow-extra-patch-ports'', YBool True), (''options'', YMap [(''stp'', YBool False)]),
                          (''port'', YSeq [YMap [(''name'', YStr (us_nic s))]])])]]),
                    (''ovn'', YMap [(''bridge-mappings'', YSeq [YMap
                       [(''localnet'', YStr (us_name s)), (''bridge'', YStr bridge), (''state'', YStr ''present'')]])])])]"
    using assms by (simp add: UplinkManifest_def Let_def split: option.splits if_splits)
  have "unset_uplink \<lparr>us_name = us_name s, us_bridge = bridge, us_nic = us_nic s, us_selector = sel\<rparr> = unset_uplink s"
    by (cases s) (auto simp: unset_uplink_def b sel label_get_def Let_def workerLabel_def)
  then show ?thesis
    by (simp add: t decodeUplink_def read_uplink_doc_def read_interface_def read_bridge_mapping_def read_basic kind_defs read_header_def)
qed

section \<open>The round trip\<close>

lemma form_reader_kinds:
  "form_reader ''UserDefinedNetwork'' = Some (\<lambda>v. map_option FormNetwork (decodeNetwork v))"
  "form_reader ''ClusterUserDefinedNetwork'' = Some (\<lambda>v. map_option FormNetwork (decodeNetwork v))"
  "form_reader ''NetworkPolicy'' = Some (\<lambda>v. map_option FormPolicy (decodeNetworkPolicy v))"
  "form_reader ''AdminNetworkPolicy'' = Some (\<lambda>v. map_option FormAdmin (decodeAdminNetworkPolicy v))"
  "form_reader ''BaselineAdminNetworkPolicy'' = Some (\<lambda>v. map_option FormAdmin (decodeAdminNetworkPolicy v))"
  "form_reader ''EgressFirewall'' = Some (\<lambda>v. map_option FormFirewall (decodeEgressFirewall v))"
  "form_reader ''EgressIP'' = Some (\<lambda>v. map_option FormEgressIP (decodeEgressIPForm v))"
  "form_reader ''AdminPolicyBasedExternalRoute'' = Some (\<lambda>v. map_option FormRoute (decodeExternalRoute v))"
  "form_reader ''NodeNetworkConfigurationPolicy'' = Some (\<lambda>v. map_option FormUplink (decodeUplink v))"
  by (simp_all add: form_reader_def)

lemma form_reads_back:
  assumes r: "render_form f = Inr (p, t)" and ns: "'''' \<notin> set (form_namespaces f)"
  shows "\<exists>k m rd. read_header t = Some (k, m) \<and> form_reader k = Some rd \<and> rd t = Some (normal_form f)"
proof (cases f)
  case (FormNetwork s)
  then have d: "NetManifest s = Inr (p, t)" using r by (simp add: render_form_def)
  from decode_network[OF d] ns FormNetwork obtain x where
    x: "decodeNetwork t = Some x" "FormNetwork x = normal_form f" by auto
  show ?thesis using decode_network[OF d] ns FormNetwork x
    by (cases "ns_scope s = NetScopeShared \<or> ns_scope s = NetScopeVLAN") (auto simp: form_reader_kinds)
next
  case (FormPolicy s)
  then show ?thesis using decode_network_policy[of s p t] r by (auto simp: render_form_def form_reader_kinds normal_form_def)
next
  case (FormAdmin s)
  then have d: "AdminNetworkPolicyManifest s = Inr (p, t)" using r by (simp add: render_form_def)
  show ?thesis using decode_admin_policy[OF d] FormAdmin by (cases "as_baseline s") (auto simp: form_reader_kinds)
next
  case (FormFirewall s)
  then show ?thesis using decode_egress_firewall[of s p t] r by (auto simp: render_form_def form_reader_kinds normal_form_def)
next
  case (FormEgressIP s)
  then show ?thesis
    using decode_egress_ip[of s p t] r ns by (auto simp: render_form_def form_reader_kinds normal_form_def form_namespaces_def)
next
  case (FormRoute s)
  then show ?thesis
    using decode_external_route[of s p t] r ns by (auto simp: render_form_def form_reader_kinds normal_form_def form_namespaces_def)
next
  case (FormUplink s)
  then show ?thesis using decode_uplink[of s p t] r by (auto simp: render_form_def form_reader_kinds normal_form_def)
qed

definition uplink_bridge :: "uplink_spec \<Rightarrow> string" where
  "uplink_bridge s = (if us_bridge s = '''' then ''br-'' @ us_name s else us_bridge s)"

definition uplink_selector :: "uplink_spec \<Rightarrow> labels" where
  "uplink_selector s = (if us_selector s = [] then [(workerLabel, '''')] else us_selector s)"

lemma UplinkManifest_cong:
  "us_name a = us_name b \<Longrightarrow> us_nic a = us_nic b \<Longrightarrow> uplink_bridge a = uplink_bridge b \<Longrightarrow> uplink_selector a = uplink_selector b \<Longrightarrow>
   UplinkManifest a = UplinkManifest b"
  unfolding UplinkManifest_def Let_def uplink_bridge_def[symmetric] uplink_selector_def[symmetric] by (simp cong: option.case_cong if_cong)

lemma unset_uplink_fields:
  "us_name (unset_uplink s) = us_name s" "us_nic (unset_uplink s) = us_nic s"
  "us_bridge (unset_uplink s) = (if us_bridge s = ''br-'' @ us_name s then '''' else us_bridge s)"
  "us_selector (unset_uplink s) = (if us_selector s = [(workerLabel, '''')] then [] else us_selector s)"
proof -
  have "length (us_selector s) = 1 \<and> label_get (us_selector s) workerLabel = '''' \<and> map_of (us_selector s) workerLabel \<noteq> None
      \<longleftrightarrow> us_selector s = [(workerLabel, '''')]"
    by (cases "us_selector s") (auto simp: label_get_def split: if_splits)
  then show "us_selector (unset_uplink s) = (if us_selector s = [(workerLabel, '''')] then [] else us_selector s)"
    by (auto simp: unset_uplink_def Let_def)
qed (simp_all add: unset_uplink_def Let_def)

lemma render_unset_uplink: "UplinkManifest (unset_uplink s) = UplinkManifest s"
  by (rule UplinkManifest_cong) (simp_all add: unset_uplink_fields uplink_bridge_def uplink_selector_def)

lemma render_baseline:
  "as_baseline s \<Longrightarrow> AdminNetworkPolicyManifest (s\<lparr>as_name := ''default'', as_priority := 0\<rparr>) = AdminNetworkPolicyManifest s"
  by (cases s) (simp add: AdminNetworkPolicyManifest_def Let_def cong: sum.case_cong)

text \<open>The fields a scope does not read.\<close>

lemma unread_fields:
  "projectUDN (s\<lparr>ns_scope := a, ns_vlan := b, ns_physical := c, ns_namespaces := d\<rparr>) = projectUDN s"
  "sharedCUDN (s\<lparr>ns_namespace := e, ns_vlan := b, ns_physical := c\<rparr>) = sharedCUDN s"
  "vlanCUDN (s\<lparr>ns_namespace := e\<rparr>) = vlanCUDN s"
  by (cases s, simp add: projectUDN_def sharedCUDN_def vlanCUDN_def cong: option.case_cong if_cong)+

lemma render_normal_network:
  assumes "NetManifest s = Inr pt"
  shows "render_form (normal_form (FormNetwork s)) = Inr pt"
proof -
  consider (shared) "ns_scope s = NetScopeShared" | (vlan) "ns_scope s = NetScopeVLAN"
    | (project) "ns_scope s = '''' \<or> ns_scope s = NetScopeProject" "ns_scope s \<noteq> NetScopeShared" "ns_scope s \<noteq> NetScopeVLAN"
    using assms by (auto simp: NetManifest_def scope_defs split: if_splits)
  then show ?thesis
  proof cases
    case project
    then have "NetManifest s = projectUDN s" by (auto simp: NetManifest_def)
    then show ?thesis
      using project(2,3) assms by (simp add: render_form_def normal_form_def NetManifest_def unread_fields)
  next
    case shared
    then show ?thesis
      using assms unread_fields(2)[where s = s] by (simp add: render_form_def normal_form_def NetManifest_def scope_defs)
  next
    case vlan
    then show ?thesis
      using assms unread_fields(3)[where s = s] by (simp add: render_form_def normal_form_def NetManifest_def scope_defs)
  qed
qed

lemma render_normal:
  assumes "render_form f = Inr pt"
  shows "render_form (normal_form f) = Inr pt"
proof (cases f)
  case (FormNetwork s)
  then show ?thesis using assms render_normal_network[of s pt] by (simp add: render_form_def)
qed (use assms in \<open>simp_all add: render_form_def normal_form_def render_unset_uplink render_baseline\<close>)

text \<open>C31: Every manifest a network form renders decodes to that form again, in the form that renders to the very same manifest: the
  network, policy, firewall, egress and uplink forms can all edit what they created. The one condition is that no selected namespace is
  the empty name, which the decoder drops.\<close>
theorem form_round_trip:
  assumes "render_form f = Inr (p, t)" and "'''' \<notin> set (form_namespaces f)"
  shows "Decode t = Inr (normal_form f) \<and> render_form (normal_form f) = Inr (p, t)"
proof -
  obtain k m rd where k: "read_header t = Some (k, m)" "form_reader k = Some rd" "rd t = Some (normal_form f)"
    using form_reads_back[OF assms] by blast
  moreover have "render_form (normal_form f) = Inr (p, t)" by (rule render_normal[OF assms(1)])
  ultimately show ?thesis by (simp add: Decode_def)
qed

definition sample_policy :: form_spec where
  "sample_policy = FormPolicy \<lparr>ps_name = ''web'', ps_namespace = ''shop'', ps_applied = [(''app'', ''web'')],
     ps_ingress = [\<lparr>rl_from = [[(''app'', ''lb'')]], rl_ports = [\<lparr>pp_protocol = ''TCP'', pp_port = 443\<rparr>]\<rparr>]\<rparr>"

theorem form_round_trip_witness:
  "\<exists>t. render_form sample_policy = Inr (''shop/networkpolicies/web.yaml'', t) \<and> Decode t = Inr sample_policy"
proof -
  obtain t where t: "render_form sample_policy = Inr (''shop/networkpolicies/web.yaml'', t)"
    by (simp add: sample_policy_def render_form_def NetworkPolicyManifest_def RequireDNS1123_def DNS1123Name_def name_char_def
        policy_rule_tree_def ports_field_def portEntries_def port_error_def)
  then show ?thesis
    using form_round_trip[OF t] by (simp add: sample_policy_def normal_form_def form_namespaces_def)
qed

text \<open>The other direction is by the decoder's own check: what it gives out renders to the data it was read from.\<close>

lemma decoded_renders:
  assumes "Decode v = Inr f"
  shows "\<exists>p r. render_form f = Inr (p, r) \<and> same_data v r"
  using assms by (auto simp: Decode_def split: option.splits sum.splits prod.splits if_splits)

section \<open>The file of a form\<close>

definition plain_segment :: "string \<Rightarrow> bool" where
  "plain_segment seg = (seg \<noteq> ''..'' \<and> seg \<noteq> ''.'' \<and> seg \<noteq> '''' \<and> CHR ''/'' \<notin> set seg \<and> CHR 0x5C \<notin> set seg)"

lemma DNS1123_plain: "DNS1123Name s \<Longrightarrow> plain_segment s"
  using DNS1123_no_slash[of s] DNS1123_segment[of s] by (simp add: plain_segment_def)

lemma DNS1123_yaml: "DNS1123Name s \<Longrightarrow> plain_segment (s @ ''.yaml'')"
  using DNS1123_no_slash[of s] by (auto simp: plain_segment_def append_eq_Cons_conv)

text \<open>The object a form declares and the directory and name of its file.\<close>

definition form_object :: "form_spec \<Rightarrow> string \<times> string \<times> string" where
  "form_object f =
     (case f of
        FormNetwork s \<Rightarrow>
          if ns_scope s = NetScopeShared \<or> ns_scope s = NetScopeVLAN then (''ClusterUserDefinedNetwork'', '''', ns_name s)
          else (''UserDefinedNetwork'', ns_namespace s, ns_name s)
      | FormPolicy s \<Rightarrow> (''NetworkPolicy'', ps_namespace s, ps_name s)
      | FormAdmin s \<Rightarrow> if as_baseline s then (''BaselineAdminNetworkPolicy'', '''', ''default'') else (''AdminNetworkPolicy'', '''', as_name s)
      | FormFirewall s \<Rightarrow> (''EgressFirewall'', es_namespace s, ''default'')
      | FormEgressIP s \<Rightarrow> (''EgressIP'', '''', ei_name s)
      | FormRoute s \<Rightarrow> (''AdminPolicyBasedExternalRoute'', '''', xr_name s)
      | FormUplink s \<Rightarrow> (''NodeNetworkConfigurationPolicy'', '''', UplinkPolicyName (us_name s)))"

definition form_segments :: "form_spec \<Rightarrow> string list" where
  "form_segments f =
     (case f of
        FormNetwork s \<Rightarrow>
          (if ns_scope s = NetScopeShared \<or> ns_scope s = NetScopeVLAN then [] else [ns_namespace s]) @ [''networks'', ns_name s @ ''.yaml'']
      | FormPolicy s \<Rightarrow> [ps_namespace s, ''networkpolicies'', ps_name s @ ''.yaml'']
      | FormAdmin s \<Rightarrow>
          if as_baseline s then [''baselineadminnetworkpolicies'', ''default.yaml''] else [''adminnetworkpolicies'', as_name s @ ''.yaml'']
      | FormFirewall s \<Rightarrow> [es_namespace s, ''egressfirewalls'', ''default.yaml'']
      | FormEgressIP s \<Rightarrow> [''egressips'', ei_name s @ ''.yaml'']
      | FormRoute s \<Rightarrow> [''externalroutes'', xr_name s @ ''.yaml'']
      | FormUplink s \<Rightarrow> [''uplinks'', us_name s @ ''.yaml''])"

lemma RequireDNS1123_None [simp]: "RequireDNS1123 w s = None \<longleftrightarrow> DNS1123Name s"
  by (simp add: RequireDNS1123_def)

definition header_object :: "yval \<Rightarrow> (string \<times> string \<times> string) option" where
  "header_object t = map_option (\<lambda>(k, m). (k, dm_namespace m, dm_name m)) (read_header t)"

lemma header_doc_tree:
  "header_object (doc_tree kd [(''name'', YStr n)] spec) = Some (mk_kind kd, '''', n)"
  "header_object (doc_tree kd [(''name'', YStr n), (''namespace'', YStr ns)] spec) = Some (mk_kind kd, ns, n)"
  by (simp_all add: header_object_def read_header_def doc_tree_def read_meta_def)

text \<open>The mapping and the segments a document is rendered at.\<close>

definition placed :: "form_spec \<Rightarrow> string \<Rightarrow> yval \<Rightarrow> bool" where
  "placed f p t = (p = join_with (form_segments f) ''/'' \<and> list_all plain_segment (form_segments f) \<and> header_object t = Some (form_object f))"

lemma plain_words:
  "plain_segment ''networks''" "plain_segment ''networkpolicies''" "plain_segment ''adminnetworkpolicies''"
  "plain_segment ''baselineadminnetworkpolicies''" "plain_segment ''default.yaml''" "plain_segment ''egressfirewalls''"
  "plain_segment ''egressips''" "plain_segment ''externalroutes''" "plain_segment ''uplinks''"
  by (simp_all add: plain_segment_def)

lemmas placed_simps = placed_def form_segments_def form_object_def header_doc_tree kind_defs plain_words DNS1123_plain DNS1123_yaml

lemma placed_network:
  assumes "NetManifest s = Inr (p, t)"
  shows "placed (FormNetwork s) p t"
proof -
  consider (project) "ns_scope s \<noteq> NetScopeShared" "ns_scope s \<noteq> NetScopeVLAN" "projectUDN s = Inr (p, t)"
    | (shared) "ns_scope s = NetScopeShared" "sharedCUDN s = Inr (p, t)"
    | (vlan) "ns_scope s = NetScopeVLAN" "vlanCUDN s = Inr (p, t)"
    using assms by (auto simp: NetManifest_def scope_defs split: if_splits)
  then show ?thesis
  proof cases
    case project
    then show ?thesis by (auto simp: projectUDN_def placed_simps split: option.splits)
  next
    case shared
    then show ?thesis by (auto simp: sharedCUDN_def placed_simps split: option.splits if_splits)
  next
    case vlan
    then have "DNS1123Name (ns_name s)" "p = ''networks/'' @ ns_name s @ ''.yaml''" "\<exists>spec. t = doc_tree KindCUDN [(''name'', YStr (ns_name s))] spec"
      by (auto simp: vlanCUDN_def Let_def split: option.splits if_splits)
    with vlan(1) show ?thesis by (auto simp: placed_simps)
  qed
qed

lemma placed_admin:
  assumes "AdminNetworkPolicyManifest s = Inr (p, t)"
  shows "placed (FormAdmin s) p t"
proof -
  let ?name = "if as_baseline s then ''default'' else as_name s" and ?kind = "if as_baseline s then KindBANP else KindANP"
  have "as_baseline s \<or> DNS1123Name (as_name s)" "p = mk_plural ?kind @ ''/'' @ ?name @ ''.yaml''" "\<exists>spec. t = doc_tree ?kind [(''name'', YStr ?name)] spec"
    using assms unfolding AdminNetworkPolicyManifest_def Let_def
    by (simp_all split: option.splits sum.splits if_splits) blast+
  then show ?thesis by (cases "as_baseline s") (auto simp: placed_simps)
qed

lemma placed_uplink:
  assumes "UplinkManifest s = Inr (p, t)"
  shows "placed (FormUplink s) p t"
proof -
  have "DNS1123Name (us_name s)" "p = ''uplinks/'' @ us_name s @ ''.yaml''" "\<exists>spec. t = doc_tree KindNNCP [(''name'', YStr (UplinkPolicyName (us_name s)))] spec"
    using assms by (simp_all add: UplinkManifest_def Let_def split: option.splits if_splits) blast+
  then show ?thesis by (auto simp: placed_simps)
qed

lemma form_placed:
  assumes "render_form f = Inr (p, t)"
  shows "placed f p t"
proof (cases f)
  case (FormPolicy s)
  then show ?thesis using assms by (auto simp: render_form_def NetworkPolicyManifest_def placed_simps split: option.splits sum.splits)
next
  case (FormFirewall s)
  then show ?thesis using assms by (auto simp: render_form_def EgressFirewallManifest_def placed_simps split: option.splits sum.splits if_splits)
next
  case (FormEgressIP s)
  then show ?thesis using assms by (auto simp: render_form_def EgressIPManifest_def placed_simps split: option.splits if_splits)
next
  case (FormRoute s)
  then show ?thesis using assms by (auto simp: render_form_def ExternalRouteManifest_def placed_simps split: option.splits if_splits)
qed (use assms placed_network placed_admin placed_uplink in \<open>auto simp: render_form_def\<close>)

lemma segments_identify: "form_segments f = form_segments f' \<Longrightarrow> form_object f = form_object f'"
  by (cases f; cases f') (auto simp: form_segments_def form_object_def UplinkPolicyName_def split: if_splits)

text \<open>A form's file stays inside the repository (a clean relative path), and a path belongs to one object: two forms that render to
  the same path declare the same kind, namespace and name, so no form can overwrite the file of another object.\<close>
theorem form_keeps_its_file:
  assumes "render_form f = Inr (p, t)" and "render_form f' = Inr (p', t')"
  shows "RepoPath p \<and> (p = p' \<longrightarrow> header_object t = header_object t')"
proof -
  note pl = form_placed[OF assms(1), unfolded placed_def] form_placed[OF assms(2), unfolded placed_def]
  have ne: "form_segments g \<noteq> []" for g by (cases g) (auto simp: form_segments_def)
  have sp: "split_on (CHR ''/'') (join_with (form_segments g) ''/'') = form_segments g" if "list_all plain_segment (form_segments g)" for g
    using that ne by (intro split_join) (auto simp: list_all_iff plain_segment_def)
  have "RepoPath p"
    using RepoPath_segments[OF ne[of f]] pl(1) by (auto simp: list_all_iff plain_segment_def)
  moreover have "header_object t = header_object t'" if "p = p'"
    using that pl sp[of f] sp[of f'] segments_identify[of f f'] by metis
  ultimately show ?thesis by blast
qed

theorem form_keeps_its_file_witness:
  "\<exists>t. render_form sample_policy = Inr (''shop/networkpolicies/web.yaml'', t) \<and> RepoPath ''shop/networkpolicies/web.yaml''"
proof -
  obtain t where t: "render_form sample_policy = Inr (''shop/networkpolicies/web.yaml'', t)"
    by (simp add: sample_policy_def render_form_def NetworkPolicyManifest_def RequireDNS1123_def DNS1123Name_def name_char_def
        policy_rule_tree_def ports_field_def portEntries_def port_error_def)
  then show ?thesis using form_keeps_its_file[OF t t] by blast
qed

end
