(* ===== verification/Cluster_Adopt.thy ===== *)
theory Cluster_Adopt
  imports Changeset_Adopt Netgen_Props
begin

text \<open>
  \<open>internal/cluster/adopt.go\<close> and \<open>export.go\<close>: capturing what runs so that git can declare it. A live object is the tree the
  API serves. Listing a kind in a namespace (the empty one for the cluster scope) is an argument, \<open>live_api\<close>; so is
  \<open>yaml.Marshal\<close>, which does not fail on such a tree.
\<close>

section \<open>Kinds\<close>

type_synonym gvr = "string \<times> string \<times> string"

definition GVR :: "managed_kind \<Rightarrow> gvr" where
  "GVR k = (mk_group k, mk_version k, mk_plural k)"

definition networkFamilyGVRs :: "bool \<Rightarrow> gvr list" where
  "networkFamilyGVRs cluster_scoped = map GVR (filter (\<lambda>k. mk_cluster k = cluster_scoped) NetworkFamilyKinds)"

definition adoptableKinds :: "gvr list" where
  "adoptableKinds = [GVR KindVM, (''cdi.kubevirt.io'', ''v1beta1'', ''datavolumes'')] @ networkFamilyGVRs False"

definition clusterAdoptableKinds :: "gvr list" where
  "clusterAdoptableKinds = networkFamilyGVRs True"

section \<open>Objects\<close>

definition obj_annotations :: "yval \<Rightarrow> labels" where
  "obj_annotations v = case_option [] id (y_labels (nested [''metadata'', ''annotations''] v))"

definition obj_owned :: "yval \<Rightarrow> bool" where
  "obj_owned v = (case nested [''metadata'', ''ownerReferences''] v of YSeq refs \<Rightarrow> list_ex is_map refs | _ \<Rightarrow> False)"

text \<open>A timestamp the API wrote parses.\<close>

definition obj_terminating :: "yval \<Rightarrow> bool" where
  "obj_terminating v = (as_string (nested [''metadata'', ''deletionTimestamp''] v) \<noteq> '''')"

definition trackingIDAnnotation :: string where
  "trackingIDAnnotation = ''argocd.argoproj.io/tracking-id''"

definition claimedByForeignApp :: "yval \<Rightarrow> string set \<Rightarrow> bool" where
  "claimedByForeignApp v foreign =
     (let id = label_get (obj_annotations v) trackingIDAnnotation in
      CHR '':'' \<in> set id \<and> takeWhile (\<lambda>c. c \<noteq> CHR '':'') id \<in> foreign)"

section \<open>Desired state\<close>

definition annotationsToStrip :: "string list" where
  "annotationsToStrip =
    [''kubectl.kubernetes.io/last-applied-configuration'', ''kubevirt.io/latest-observed-api-version'',
     ''kubevirt.io/storage-observed-api-version'', ''kubemacpool.io/transaction-timestamp'', ''argocd.argoproj.io/tracking-id'',
     ''restore.kubevirt.io/lastRestoreUID'', ''nmstate.io/webhook-mutating-timestamp'']"

definition stripAnnotations :: "labels \<Rightarrow> labels" where
  "stripAnnotations ann = filter (\<lambda>(k, _). k \<notin> set annotationsToStrip) ann"

text \<open>\<open>unstructured.RemoveNestedField\<close>\<close>

fun remove_nested :: "string list \<Rightarrow> yval \<Rightarrow> yval" where
  "remove_nested [] v = v"
| "remove_nested [k] v = (case v of YMap m \<Rightarrow> YMap (AList.delete k m) | _ \<Rightarrow> v)"
| "remove_nested (k # ks) v =
     (case v of YMap m \<Rightarrow> (case map_of m k of None \<Rightarrow> v | Some w \<Rightarrow> YMap (AList.update k (remove_nested ks w) m)) | _ \<Rightarrow> v)"

definition serverMetadata :: "string list" where
  "serverMetadata = [''uid'', ''resourceVersion'', ''generation'', ''creationTimestamp'', ''deletionTimestamp'', ''deletionGracePeriodSeconds'',
     ''managedFields'', ''selfLink'', ''ownerReferences'', ''finalizers'']"

definition set_annotations :: "labels \<Rightarrow> yval \<Rightarrow> yval" where
  "set_annotations ann v =
     (case v of
        YMap m \<Rightarrow>
          (case map_of m ''metadata'' of
             Some (YMap meta) \<Rightarrow> YMap (AList.update ''metadata'' (YMap (AList.update ''annotations'' (YLabels ann) meta)) m)
           | _ \<Rightarrow> v)
      | _ \<Rightarrow> v)"

definition clean_annotations :: "yval \<Rightarrow> yval" where
  "clean_annotations v =
     (let ann = obj_annotations v in
      if ann = [] then v
      else if stripAnnotations ann = [] then remove_nested [''metadata'', ''annotations''] v
      else set_annotations (stripAnnotations ann) v)"

definition adoptManifest :: "yval \<Rightarrow> yval" where
  "adoptManifest v =
     (let bare = fold (\<lambda>f. remove_nested [''metadata'', f]) serverMetadata (remove_nested [''status''] v) in
      remove_nested [''spec'', ''preference'', ''revisionName''] (remove_nested [''spec'', ''instancetype'', ''revisionName''] (clean_annotations bare)))"

definition adoptPath :: "yval \<Rightarrow> string" where
  "adoptPath v =
     (let ns = obj_namespace v; name = obj_name v; kind = obj_kind v in
      if kind = ''VirtualMachine'' then ns @ ''/'' @ name @ ''.yaml''
      else if kind = ''UserDefinedNetwork'' then ns @ ''/networks/'' @ name @ ''.yaml''
      else if kind = ''NetworkPolicy'' then ns @ ''/networkpolicies/'' @ name @ ''.yaml''
      else if kind = ''EgressFirewall'' then ns @ ''/egressfirewalls/default.yaml''
      else if kind = ''ClusterUserDefinedNetwork'' then ''networks/'' @ name @ ''.yaml''
      else if kind = ''EgressIP'' then ''egressips/'' @ name @ ''.yaml''
      else if kind = ''AdminPolicyBasedExternalRoute'' then ''externalroutes/'' @ name @ ''.yaml''
      else if kind = ''AdminNetworkPolicy'' then ''adminnetworkpolicies/'' @ name @ ''.yaml''
      else if kind = ''BaselineAdminNetworkPolicy'' then ''baselineadminnetworkpolicies/default.yaml''
      else if kind = ''NodeNetworkConfigurationPolicy'' then ''uplinks/'' @ trim_prefix name ''uplink-'' @ ''.yaml''
      else (if ns = '''' then '''' else ns @ ''/'') @ name @ ''.'' @ to_lower kind @ ''.yaml'')"

section \<open>Capturing\<close>

datatype listing = Listed "yval list" | NotServed | Forbidden | ListFailed string

type_synonym live_api = "gvr \<Rightarrow> string \<Rightarrow> listing"

definition captured :: "(yval \<Rightarrow> string) \<Rightarrow> string \<Rightarrow> yval \<Rightarrow> adoptable_object" where
  "captured marshal ns v = \<lparr>ao_namespace = ns, ao_name = obj_name v, ao_kind = obj_kind v, ao_path = adoptPath v, ao_manifest = marshal (adoptManifest v)\<rparr>"

definition eligible :: "string set \<Rightarrow> yval \<Rightarrow> bool" where
  "eligible foreign v = (\<not> claimedByForeignApp v foreign \<and> \<not> obj_owned v \<and> \<not> obj_terminating v)"

text \<open>The set of names already reported is that of the report.\<close>

fun capture :: "(yval \<Rightarrow> string) \<Rightarrow> live_api \<Rightarrow> gvr list \<Rightarrow> string \<Rightarrow> string set \<Rightarrow> adoptable_object list \<times> string list \<Rightarrow>
   fault + adoptable_object list \<times> string list" where
  "capture marshal api [] ns foreign acc = Inr acc"
| "capture marshal api (g # gs) ns foreign (objs, unreadable) =
     (let plural = snd (snd g) in
      case api g ns of
        NotServed \<Rightarrow> capture marshal api gs ns foreign (objs, unreadable)
      | Forbidden \<Rightarrow> capture marshal api gs ns foreign (objs, if plural \<in> set unreadable then unreadable else unreadable @ [plural])
      | ListFailed e \<Rightarrow> Inl (FInternal (''read '' @ plural @ '' in '' @ ns @ '': '' @ e))
      | Listed vs \<Rightarrow> capture marshal api gs ns foreign (objs @ map (captured marshal ns) (filter (eligible foreign) vs), unreadable))"

fun capture_namespaces :: "(yval \<Rightarrow> string) \<Rightarrow> live_api \<Rightarrow> string list \<Rightarrow> string set \<Rightarrow> adoptable_object list \<times> string list \<Rightarrow>
   fault + adoptable_object list \<times> string list" where
  "capture_namespaces marshal api [] foreign acc = Inr acc"
| "capture_namespaces marshal api (ns # nss) foreign acc =
     (case capture marshal api adoptableKinds ns foreign acc of Inl e \<Rightarrow> Inl e | Inr acc' \<Rightarrow> capture_namespaces marshal api nss foreign acc')"

definition AdoptableObjects :: "(yval \<Rightarrow> string) \<Rightarrow> live_api \<Rightarrow> string list \<Rightarrow> string set \<Rightarrow> fault + adoptable_object list \<times> string list" where
  "AdoptableObjects marshal api nss foreign = capture_namespaces marshal api nss foreign ([], [])"

definition ClusterAdoptableObjects :: "(yval \<Rightarrow> string) \<Rightarrow> live_api \<Rightarrow> string set \<Rightarrow> fault + adoptable_object list \<times> string list" where
  "ClusterAdoptableObjects marshal api foreign = capture marshal api clusterAdoptableKinds '''' foreign ([], [])"

section \<open>Namespaces\<close>

definition namespaceLabelsToStrip :: "string list" where
  "namespaceLabelsToStrip = [''kubernetes.io/metadata.name'', ''pod-security.kubernetes.io/audit'', ''pod-security.kubernetes.io/audit-version'',
     ''pod-security.kubernetes.io/warn'', ''pod-security.kubernetes.io/warn-version'']"

definition namespaceAnnotationPrefixesToStrip :: "string list" where
  "namespaceAnnotationPrefixesToStrip = [''openshift.io/sa.scc.'', ''security.openshift.io/'']"

text \<open>The labels and annotations of a namespace, \<open>None\<close> where there is none.\<close>

definition LiveNamespace :: "(string \<Rightarrow> string + (labels \<times> labels) option) \<Rightarrow> string \<Rightarrow> fault + live_namespace option" where
  "LiveNamespace fetch name =
     (case fetch name of
        Inl e \<Rightarrow> Inl (FInternal (''read namespace '' @ name @ '': '' @ e))
      | Inr None \<Rightarrow> Inr None
      | Inr (Some (lbs, ann)) \<Rightarrow>
          Inr (Some \<lparr>lv_labels = filter (\<lambda>(k, _). k \<notin> set namespaceLabelsToStrip) lbs,
            lv_annotations = filter (\<lambda>(k, _). \<not> list_ex (has_prefix k) namespaceAnnotationPrefixesToStrip) (stripAnnotations ann)\<rparr>))"

section \<open>Removing and reading fields\<close>

lemma y_field_delete [simp]: "y_field k (AList.delete j m) = (if k = j then YNull else y_field k m)"
  by (simp add: y_field_def delete_conv')

lemma y_field_update [simp]: "y_field k (AList.update j v m) = (if k = j then v else y_field k m)"
  by (simp add: y_field_def update_conv')

lemma nested_Null [simp]: "nested ks YNull = YNull"
  by (cases ks) simp_all

lemma remove_Null [simp]: "remove_nested ks YNull = YNull"
proof (cases ks)
  case (Cons k js)
  then show ?thesis by (cases js) simp_all
qed simp

lemma nested_one: "nested [k] v = (case v of YMap m \<Rightarrow> y_field k m | _ \<Rightarrow> YNull)"
  by (cases v) simp_all

lemma nested_Map [simp]: "nested [k] (YMap m) = y_field k m"
  by simp

lemma nested_step: "nested (k # j # ks) v = nested (j # ks) (nested [k] v)"
  by (cases v) simp_all

lemma nested_removed_other: "k \<noteq> j \<Longrightarrow> nested [k] (remove_nested (j # js) v) = nested [k] v"
  by (cases js; cases v) (simp_all split: option.split)

lemma nested_removed_top: "k \<noteq> j \<Longrightarrow> nested (k # g # gs) (remove_nested (j # js) v) = nested (k # g # gs) v"
  unfolding nested_step[of k] by (simp only: nested_removed_other not_False_eq_True)

lemma nested_removed_at:
  assumes "js \<noteq> []"
  shows "nested [k] (remove_nested (k # js) v) = remove_nested js (nested [k] v)"
proof -
  obtain i rest where js: "js = i # rest" using assms by (cases js) auto
  show ?thesis
  proof (cases v)
    case (YMap m)
    then show ?thesis by (cases "map_of m k") (simp_all add: js y_field_def update_conv')
  qed (simp_all add: js)
qed

lemma nested_removed [simp]: "nested [k] (remove_nested [k] v) = YNull"
  by (cases v) simp_all

declare nested.simps(2) [simp del]
declare remove_nested.simps [simp del]

section \<open>What adoption keeps\<close>

lemma nested_set_annotations:
  "nested [''metadata''] (set_annotations ann v) =
     (case nested [''metadata''] v of YMap meta \<Rightarrow> YMap (AList.update ''annotations'' (YLabels ann) meta) | w \<Rightarrow> w)"
  "k \<noteq> ''metadata'' \<Longrightarrow> nested [k] (set_annotations ann v) = nested [k] v"
  by (cases v; auto simp: nested_one set_annotations_def y_field_def update_conv' split: option.splits yval.splits)+

lemma annotations_of_meta: "obj_annotations v = case_option [] id (y_labels (nested [''annotations''] (nested [''metadata''] v)))"
  unfolding obj_annotations_def nested_step[of "''metadata''"] ..

lemma annotated_meta: "obj_annotations v \<noteq> [] \<Longrightarrow> \<exists>meta. nested [''metadata''] v = YMap meta"
  unfolding annotations_of_meta by (cases "nested [''metadata''] v") (simp_all add: nested_one)

lemma clean_other: "k \<noteq> ''metadata'' \<Longrightarrow> nested [k] (clean_annotations v) = nested [k] v"
  by (simp add: clean_annotations_def Let_def nested_set_annotations(2) nested_removed_other)

lemma clean_meta_other: "f \<noteq> ''annotations'' \<Longrightarrow> nested [''metadata'', f] (clean_annotations v) = nested [''metadata'', f] v"
  using annotated_meta[of v]
  by (auto simp: clean_annotations_def Let_def nested_step[of "''metadata''"] nested_set_annotations(1) nested_removed_at nested_removed_other)

lemma clean_strips: "obj_annotations (clean_annotations v) = stripAnnotations (obj_annotations v)"
  using annotated_meta[of v]
  by (auto simp: clean_annotations_def Let_def annotations_of_meta[of "set_annotations ann w" for ann w]
      annotations_of_meta[of "remove_nested ks w" for ks w] nested_set_annotations(1) nested_removed_at stripAnnotations_def)

lemma fold_removed_other:
  "k \<noteq> ''metadata'' \<Longrightarrow> nested [k] (fold (\<lambda>f. remove_nested [''metadata'', f]) fs v) = nested [k] v"
  by (induction fs arbitrary: v) (simp_all add: nested_removed_other)

lemma meta_removed: "nested [''metadata'', g] (remove_nested [''metadata'', f] v) = (if g = f then YNull else nested [''metadata'', g] v)"
  by (simp add: nested_step[of "''metadata''"] nested_removed_at nested_removed_other)

lemma fold_removed_meta:
  "nested [''metadata'', g] (fold (\<lambda>f. remove_nested [''metadata'', f]) fs v) = (if g \<in> set fs then YNull else nested [''metadata'', g] v)"
  by (induction fs arbitrary: v) (simp_all add: meta_removed)

lemma stripped_get: "map_of (stripAnnotations ann) k = (if k \<in> set annotationsToStrip then None else map_of ann k)"
  by (induction ann) (auto simp: stripAnnotations_def)

lemma not_server: "''annotations'' \<notin> set serverMetadata" "''name'' \<notin> set serverMetadata" "''namespace'' \<notin> set serverMetadata"
  by (simp_all add: serverMetadata_def)


definition live_vm :: yval where
  "live_vm = YMap [(''kind'', YStr ''VirtualMachine''),
     (''metadata'', YMap [(''name'', YStr ''a''), (''namespace'', YStr ''shop''), (''uid'', YStr ''7''),
        (''annotations'', YLabels [(''team'', ''x''), (''argocd.argoproj.io/tracking-id'', ''app:v'')])]),
     (''spec'', YMap [(''running'', YBool True), (''instancetype'', YMap [(''name'', YStr ''u1.small''), (''revisionName'', YStr ''r1'')])]),
     (''status'', YMap [])]"


section \<open>Where it goes\<close>

text \<open>C23: Adopting an object and editing it through its form lands on one file. Wherever a form would write an object, adoption of the
  live object of that kind, namespace and name writes; the same holds for the VM wizard.\<close>
theorem adopt_lands_on_form_file:
  assumes "(render_form f = Inr (p, t)) \<or> (Manifest bcrypt s = Inr (p, t))"
    and "header_object t = Some (obj_kind v, obj_namespace v, obj_name v)"
  shows "adoptPath v = p"
  using assms(1)
proof
  assume r: "render_form f = Inr (p, t)"
  from form_placed[OF this] assms(2) have p: "p = join_with (form_segments f) ''/''"
    and o: "form_object f = (obj_kind v, obj_namespace v, obj_name v)" by (simp_all add: placed_def)
  have u: "trim_prefix (UplinkPolicyName n) ''uplink-'' = n" for n by (simp add: UplinkPolicyName_def trim_prefix_def has_prefix_iff)
  show ?thesis
  proof (cases f)
    case (FormUplink s)
    then have "obj_kind v = ''NodeNetworkConfigurationPolicy''" "obj_name v = UplinkPolicyName (us_name s)" using o by (simp_all add: form_object_def)
    then show ?thesis using FormUplink by (simp add: adoptPath_def p form_segments_def u)
  qed (use o in \<open>auto simp: adoptPath_def p form_segments_def form_object_def Let_def split: if_splits\<close>)
next
  assume m: "Manifest bcrypt s = Inr (p, t)"
  then obtain s' where s': "p = ManifestPath (vs_namespace s') (vs_name s')"
    "t = YMap [(''apiVersion'', YStr ''kubevirt.io/v1''), (''kind'', YStr ''VirtualMachine''), (''metadata'', vm_metadata s'), (''spec'', vmSpec s')]"
    by (auto simp: Manifest_def split: option.splits)
  have "header_object t = Some (''VirtualMachine'', vs_namespace s', vs_name s')"
    by (simp add: s' header_object_def read_header_def read_meta_def vm_metadata_def)
  with assms(2) s'(1) show ?thesis by (simp add: adoptPath_def ManifestPath_def)
qed

definition live_policy :: yval where
  "live_policy = YMap [(''kind'', YStr ''NetworkPolicy''), (''metadata'', YMap [(''name'', YStr ''web''), (''namespace'', YStr ''shop''), (''uid'', YStr ''7'')])]"

theorem adopt_lands_on_form_file_witness:
  "adoptPath live_policy = ''shop/networkpolicies/web.yaml''"
proof -
  obtain t where t: "render_form sample_policy = Inr (''shop/networkpolicies/web.yaml'', t)"
    by (simp add: sample_policy_def render_form_def NetworkPolicyManifest_def RequireDNS1123_def DNS1123Name_def name_char_def
        policy_rule_tree_def ports_field_def portEntries_def port_error_def)
  have "form_object sample_policy = (obj_kind live_policy, obj_namespace live_policy, obj_name live_policy)"
    by (simp add: form_object_def sample_policy_def live_policy_def obj_kind_def obj_namespace_def obj_name_def nested.simps)
  then have "header_object t = Some (obj_kind live_policy, obj_namespace live_policy, obj_name live_policy)"
    using form_placed[OF t] by (simp add: placed_def)
  with adopt_lands_on_form_file[of sample_policy "''shop/networkpolicies/web.yaml''" t] t show ?thesis by blast
qed

section \<open>What is captured\<close>

text \<open>What a listing offers to git, and the kinds that were refused.\<close>

definition adoptable_of :: "string set \<Rightarrow> listing \<Rightarrow> yval list" where
  "adoptable_of foreign l = (case l of Listed vs \<Rightarrow> filter (\<lambda>v. \<not> claimedByForeignApp v foreign \<and> \<not> obj_owned v \<and> \<not> obj_terminating v) vs | _ \<Rightarrow> [])"

definition blind :: "live_api \<Rightarrow> gvr list \<Rightarrow> string \<Rightarrow> string set" where
  "blind api gs ns = (\<lambda>g. snd (snd g)) ` {g \<in> set gs. api g ns = Forbidden}"

lemma blind_Cons: "blind api (g # gs) ns = (if api g ns = Forbidden then {snd (snd g)} else {}) \<union> blind api gs ns"
  unfolding blind_def by (cases "api g ns = Forbidden") (auto simp del: split_paired_Ex split_paired_All)

lemma eligible_adoptable: "filter (eligible foreign) vs = adoptable_of foreign (Listed vs)"
proof -
  have "eligible foreign = (\<lambda>v. \<not> claimedByForeignApp v foreign \<and> \<not> obj_owned v \<and> \<not> obj_terminating v)" by (rule ext) (simp add: eligible_def)
  then show ?thesis by (simp add: adoptable_of_def)
qed

definition failed_listing :: "live_api \<Rightarrow> gvr \<Rightarrow> string \<Rightarrow> bool" where
  "failed_listing api g ns = (\<exists>e. api g ns = ListFailed e)"

lemma failed_listing_cases: "failed_listing api g ns \<longleftrightarrow> (case api g ns of ListFailed e \<Rightarrow> True | _ \<Rightarrow> False)"
  by (simp add: failed_listing_def split: listing.split)

lemma capture_done:
  "capture marshal api gs ns foreign (objs, un) = Inr (objs', un') \<Longrightarrow> distinct un \<Longrightarrow>
   objs' = objs @ concat (map (\<lambda>g. map (captured marshal ns) (adoptable_of foreign (api g ns))) gs) \<and>
   distinct un' \<and> set un' = set un \<union> blind api gs ns \<and> (\<forall>g \<in> set gs. \<not> failed_listing api g ns)"
proof (induction gs arbitrary: objs un)
  case Nil
  then show ?case by (simp add: blind_def)
next
  case (Cons g gs)
  show ?case
  proof (cases "api g ns")
    case (Listed vs)
    with Cons.prems(1) have run: "capture marshal api gs ns foreign (objs @ map (captured marshal ns) (adoptable_of foreign (Listed vs)), un) = Inr (objs', un')"
      by (simp add: eligible_adoptable)
    from Cons.IH[OF run Cons.prems(2)] Listed show ?thesis by (simp add: blind_Cons failed_listing_def)
  next
    case Forbidden
    then show ?thesis using Cons.IH[OF Cons.prems(1)[unfolded capture.simps Let_def, simplified Forbidden, simplified]] Cons.prems(2)
      by (auto simp: blind_Cons failed_listing_def adoptable_of_def)
  qed (use Cons in \<open>simp_all add: blind_Cons failed_listing_def adoptable_of_def\<close>)
qed

definition listing_error :: "live_api \<Rightarrow> gvr \<Rightarrow> string \<Rightarrow> fault \<Rightarrow> bool" where
  "listing_error api g ns f = (\<exists>e. api g ns = ListFailed e \<and> f = FInternal (''read '' @ snd (snd g) @ '' in '' @ ns @ '': '' @ e))"

lemma capture_failed: "capture marshal api gs ns foreign acc = Inl f \<Longrightarrow> \<exists>g \<in> set gs. listing_error api g ns f"
proof (induction gs arbitrary: acc)
  case (Cons g gs)
  then show ?case by (cases acc; cases "api g ns") (auto simp: listing_error_def Let_def)
qed simp

lemma capture_namespaces_done:
  "capture_namespaces marshal api nss foreign (objs, un) = Inr (objs', un') \<Longrightarrow> distinct un \<Longrightarrow>
   objs' = objs @ concat (map (\<lambda>ns. concat (map (\<lambda>g. map (captured marshal ns) (adoptable_of foreign (api g ns))) adoptableKinds)) nss) \<and>
   distinct un' \<and> set un' = set un \<union> (\<Union>ns \<in> set nss. blind api adoptableKinds ns) \<and>
   (\<forall>ns \<in> set nss. \<forall>g \<in> set adoptableKinds. \<not> failed_listing api g ns)"
proof (induction nss arbitrary: objs un)
  case (Cons ns nss)
  then obtain objs1 un1 where c: "capture marshal api adoptableKinds ns foreign (objs, un) = Inr (objs1, un1)"
    and r: "capture_namespaces marshal api nss foreign (objs1, un1) = Inr (objs', un')" by (auto split: sum.splits)
  from capture_done[OF c Cons.prems(2)] Cons.IH[OF r] show ?case by auto
qed simp

lemma capture_namespaces_failed:
  "capture_namespaces marshal api nss foreign acc = Inl f \<Longrightarrow> \<exists>ns \<in> set nss. \<exists>g \<in> set adoptableKinds. listing_error api g ns f"
proof (induction nss arbitrary: acc)
  case (Cons ns nss)
  show ?case
  proof (cases "capture marshal api adoptableKinds ns foreign acc")
    case (Inl e)
    then show ?thesis using Cons.prems capture_failed[OF Inl] by auto
  next
    case (Inr acc')
    then show ?thesis using Cons by auto
  qed
qed simp

lemma adoptable_kinds_distinct: "distinct adoptableKinds"
  by code_simp

text \<open>C21: Adopting namespaces takes everything git may declare there and nothing else. The capture succeeds exactly when every listing of an
  adoptable kind in the namespaces was answered, refused or of a kind not served; any other failure fails the capture, naming a kind and a
  namespace that failed. A capture lists, namespace by namespace and kind by kind (no kind twice), exactly one entry for each listed object that
  no live application of another source claims, no object owns and no deletion is under way for; and it names each refused kind once.\<close>
theorem capture_exact:
  "case AdoptableObjects marshal api nss foreign of
     Inl f \<Rightarrow> \<exists>ns \<in> set nss. \<exists>g \<in> set adoptableKinds. \<exists>e. api g ns = ListFailed e \<and> f = FInternal (''read '' @ snd (snd g) @ '' in '' @ ns @ '': '' @ e)
   | Inr (objs, unreadable) \<Rightarrow>
       (\<forall>ns \<in> set nss. \<forall>g \<in> set adoptableKinds. \<forall>e. api g ns \<noteq> ListFailed e) \<and> distinct adoptableKinds \<and>
       objs = concat (map (\<lambda>ns. concat (map (\<lambda>g. map (captured marshal ns) (case api g ns of
           Listed vs \<Rightarrow> filter (\<lambda>v. \<not> claimedByForeignApp v foreign \<and> \<not> obj_owned v \<and> \<not> obj_terminating v) vs | _ \<Rightarrow> [])) adoptableKinds)) nss) \<and>
       distinct unreadable \<and> set unreadable = {snd (snd g) | ns g. ns \<in> set nss \<and> g \<in> set adoptableKinds \<and> api g ns = Forbidden}"
proof (cases "AdoptableObjects marshal api nss foreign")
  case (Inl f)
  then show ?thesis using capture_namespaces_failed[of marshal api nss foreign "([], [])" f] by (auto simp: AdoptableObjects_def listing_error_def)
next
  case (Inr r)
  obtain objs un where r: "r = (objs, un)" by (cases r)
  from Inr r have "capture_namespaces marshal api nss foreign ([], []) = Inr (objs, un)" by (simp add: AdoptableObjects_def)
  from capture_namespaces_done[OF this] have
    c: "objs = concat (map (\<lambda>ns. concat (map (\<lambda>g. map (captured marshal ns) (adoptable_of foreign (api g ns))) adoptableKinds)) nss)" "distinct un"
      "set un = (\<Union>ns \<in> set nss. blind api adoptableKinds ns)" "\<forall>ns \<in> set nss. \<forall>g \<in> set adoptableKinds. \<not> failed_listing api g ns" by simp_all
  have "(\<Union>ns \<in> set nss. blind api adoptableKinds ns) = {snd (snd g) | ns g. ns \<in> set nss \<and> g \<in> set adoptableKinds \<and> api g ns = Forbidden}"
    unfolding blind_def by blast
  with c show ?thesis unfolding Inr r sum.case prod.case
    by (intro conjI adoptable_kinds_distinct) (simp_all add: adoptable_of_def failed_listing_def)
qed

definition live_shop :: live_api where
  "live_shop g ns = (if g = GVR KindVM then Listed [live_vm] else if g = GVR KindNAD then Forbidden else NotServed)"

theorem capture_exact_witness:
  "\<exists>objs. AdoptableObjects (\<lambda>_. ''m'') live_shop [''shop''] {} = Inr (objs, [''network-attachment-definitions'']) \<and>
     distinct [''network-attachment-definitions''] \<and> captured (\<lambda>_. ''m'') ''shop'' live_vm \<in> set objs"
proof -
  have r: "AdoptableObjects (\<lambda>_. ''m'') live_shop [''shop''] {} = Inr ([captured (\<lambda>_. ''m'') ''shop'' live_vm], [''network-attachment-definitions''])"
    by code_simp
  from capture_exact[where marshal = "\<lambda>_. ''m''" and api = live_shop and nss = "[''shop'']" and foreign = "{}"] have "distinct [''network-attachment-definitions'']"
    unfolding r by simp
  with r show ?thesis by simp
qed

section \<open>Two objects, one file\<close>

text \<open>A policy named after an uplink and the uplink's own policy are captured to one path, as are a VM named like the file of a kind
  without a generator and that object.\<close>

lemma adopt_path_collides:
  "obj_kind v = ''NodeNetworkConfigurationPolicy'' \<Longrightarrow> obj_kind w = ''NodeNetworkConfigurationPolicy'' \<Longrightarrow>
   \<not> has_prefix (obj_name v) ''uplink-'' \<Longrightarrow> obj_name w = ''uplink-'' @ obj_name v \<Longrightarrow> adoptPath v = adoptPath w"
  "obj_kind v = ''VirtualMachine'' \<Longrightarrow> obj_kind w = ''DataVolume'' \<Longrightarrow> obj_namespace v = obj_namespace w \<Longrightarrow> obj_namespace v \<noteq> '''' \<Longrightarrow>
   obj_name v = obj_name w @ ''.datavolume'' \<Longrightarrow> adoptPath v = adoptPath w"
proof -
  show "obj_kind v = ''NodeNetworkConfigurationPolicy'' \<Longrightarrow> obj_kind w = ''NodeNetworkConfigurationPolicy'' \<Longrightarrow>
    \<not> has_prefix (obj_name v) ''uplink-'' \<Longrightarrow> obj_name w = ''uplink-'' @ obj_name v \<Longrightarrow> adoptPath v = adoptPath w"
    by (simp add: adoptPath_def trim_prefix_def has_prefix_iff)
  have "to_lower ''DataVolume'' = ''datavolume''" by code_simp
  then show "obj_kind v = ''VirtualMachine'' \<Longrightarrow> obj_kind w = ''DataVolume'' \<Longrightarrow> obj_namespace v = obj_namespace w \<Longrightarrow> obj_namespace v \<noteq> '''' \<Longrightarrow>
    obj_name v = obj_name w @ ''.datavolume'' \<Longrightarrow> adoptPath v = adoptPath w"
    by (simp add: adoptPath_def)
qed

end
