(* ===== verification/Vmtemplate.thy ===== *)
theory Vmtemplate
  imports Yaml_Tree Git_Tree "HOL-Library.AList"
begin

text \<open>
  \<open>internal/vmtemplate\<close>: the template library. The decoder of the upstream template type and the upstream engine are arguments;
  what the package does around them is here: the catalog entry (\<open>parse.go\<close>), the template made from a VM (\<open>derive.go\<close>), the
  rendered manifest (\<open>render.go\<close>) and the starter library (\<open>seed.go\<close>).
\<close>

section \<open>The catalog\<close>

definition TemplateAPIVersion :: string where
  "TemplateAPIVersion = ''template.kubevirt.io/v1beta1''"

definition TemplateKind :: string where
  "TemplateKind = ''VirtualMachineTemplate''"

definition descriptionAnnotation :: string where
  "descriptionAnnotation = ''description''"

definition TemplatePath :: "string \<Rightarrow> string" where
  "TemplatePath name = TemplatesDir @ ''/'' @ name @ ''.yaml''"

record template_parameter =
  tp_name :: string
  tp_display :: string
  tp_description :: string
  tp_value :: string
  tp_generate :: string
  tp_from :: string
  tp_required :: bool

text \<open>What the upstream type holds of a manifest.\<close>

record template_doc =
  td_kind :: string
  td_api :: string
  td_annotations :: labels
  td_parameters :: "template_parameter list"
  td_vm :: "yval option"

record template =
  tm_name :: string
  tm_library :: string
  tm_description :: string
  tm_source :: string
  tm_parameters :: "template_parameter list"
  tm_instancetype :: string
  tm_preference :: string
  tm_yaml :: string
  tm_error :: string

text \<open>\<open>strings.TrimSuffix(base, path.Ext(base))\<close>\<close>

definition strip_ext :: "string \<Rightarrow> string" where
  "strip_ext base =
     (if CHR ''.'' \<in> set base then take (length base - Suc (length (after_last (CHR ''.'') base))) base else base)"

text \<open>The blueprint's references, when the embedded VM decodes.\<close>

definition blueprint :: "yval \<Rightarrow> (string \<times> string) option" where
  "blueprint v =
     (let name_at = (\<lambda>k spec. do { m \<leftarrow> y_obj (y_field k spec); y_string (y_field ''name'' m) }) in
      do { m \<leftarrow> y_obj v; spec \<leftarrow> y_obj (y_field ''spec'' m);
           i \<leftarrow> name_at ''instancetype'' spec; p \<leftarrow> name_at ''preference'' spec; Some (i, p) })"

definition ParseTemplate :: "(string \<Rightarrow> string + template_doc) \<Rightarrow> string \<Rightarrow> string \<Rightarrow> string \<Rightarrow> template" where
  "ParseTemplate decode path content library =
     (let t = \<lparr>tm_name = strip_ext (after_last (CHR ''/'') path), tm_library = library, tm_description = '''', tm_source = path,
               tm_parameters = [], tm_instancetype = '''', tm_preference = '''', tm_yaml = content, tm_error = ''''\<rparr> in
      case decode content of
        Inl msg \<Rightarrow> t\<lparr>tm_error := ''invalid template YAML: '' @ msg\<rparr>
      | Inr d \<Rightarrow>
          (if td_kind d \<noteq> TemplateKind \<or> td_api d \<noteq> TemplateAPIVersion
           then t\<lparr>tm_error := ''not a '' @ TemplateAPIVersion @ '' '' @ TemplateKind @ '' manifest''\<rparr>
           else
            (let t' = t\<lparr>tm_description := label_get (td_annotations d) descriptionAnnotation, tm_parameters := td_parameters d\<rparr> in
             case Option.bind (td_vm d) blueprint of
               None \<Rightarrow> t'
             | Some (i, p) \<Rightarrow> t'\<lparr>tm_instancetype := i, tm_preference := p\<rparr>)))"

section \<open>A template from a VM\<close>

type_synonym yobj = "(string \<times> yval) list"

definition at_key :: "string \<Rightarrow> (yval \<Rightarrow> yval) \<Rightarrow> yobj \<Rightarrow> yobj" where
  "at_key k f m = (case map_of m k of None \<Rightarrow> m | Some v \<Rightarrow> AList.update k (f v) m)"

definition on_map :: "(yobj \<Rightarrow> yobj) \<Rightarrow> yval \<Rightarrow> yval" where
  "on_map f v = (case v of YMap m \<Rightarrow> YMap (f m) | _ \<Rightarrow> v)"

definition on_seq :: "(yval \<Rightarrow> yval) \<Rightarrow> yval \<Rightarrow> yval" where
  "on_seq f v = (case v of YSeq xs \<Rightarrow> YSeq (map f xs) | _ \<Rightarrow> v)"

definition name_var :: string where
  "name_var = ''${NAME}''"

definition anchored :: "string \<Rightarrow> string \<Rightarrow> string" where
  "anchored base n = (if has_prefix n base then name_var @ trim_prefix n base else n)"

definition rename_in :: "string \<Rightarrow> yobj \<Rightarrow> yobj" where
  "rename_in base m = (case map_of m ''name'' of Some (YStr n) \<Rightarrow> AList.update ''name'' (YStr (anchored base n)) m | _ \<Rightarrow> m)"

definition reanchorDataVolumes :: "string \<Rightarrow> yobj \<Rightarrow> yobj" where
  "reanchorDataVolumes base =
     at_key ''spec'' (on_map (
       at_key ''template'' (on_map (at_key ''spec'' (on_map (at_key ''volumes'' (on_seq (on_map (at_key ''dataVolume'' (on_map (rename_in base)))))))))
       \<circ> at_key ''dataVolumeTemplates'' (on_seq (on_map (at_key ''metadata'' (on_map (rename_in base)))))))"

text \<open>\<open>strings.TrimRight(base, "-")\<close> of at most 57 characters, so that with a dash and five more the name is a DNS label.\<close>

definition pattern_base :: "string \<Rightarrow> string" where
  "pattern_base base = rev (dropWhile (\<lambda>c. c = CHR ''-'') (rev (if length base > 57 then take 57 base else base)))"

definition namePattern :: "string \<Rightarrow> string" where
  "namePattern base = pattern_base base @ ''-[a-z0-9]{5}''"

definition derived_tree :: "string \<Rightarrow> string \<Rightarrow> string \<Rightarrow> yobj \<Rightarrow> yval" where
  "derived_tree base name description vm =
     YMap [(''apiVersion'', YStr TemplateAPIVersion), (''kind'', YStr TemplateKind),
       (''metadata'', YMap ((''name'', YStr name) #
          (if description \<noteq> '''' then [(''annotations'', YLabels [(descriptionAnnotation, description)])] else []))),
       (''spec'', YMap [
          (''parameters'', YSeq [YMap [(''name'', YStr ''NAME''), (''description'', YStr ''Unique VM name''),
             (''generate'', YStr ''expression''), (''from'', YStr (namePattern base))]]),
          (''virtualMachine'', YMap vm)])]"

definition Derive :: "yval option \<Rightarrow> string \<Rightarrow> string \<Rightarrow> fault + yval" where
  "Derive parsed name description =
     (case Option.bind parsed y_obj of
        None \<Rightarrow> Inl (err_invalid ''VM manifest'')
      | Some vm \<Rightarrow>
          (if y_field ''kind'' vm \<noteq> YStr ''VirtualMachine'' then Inl (err_invalid ''source is not a VirtualMachine manifest'')
           else
            (case y_field ''metadata'' vm of
               YMap meta \<Rightarrow>
                 (case y_field ''name'' meta of
                    YStr base \<Rightarrow>
                      (if base = '''' then Inl (err_invalid ''VM manifest has no name'')
                       else
                        (let meta' = AList.update ''name'' (YStr name_var) (AList.delete ''namespace'' meta);
                             vm' = AList.update ''metadata'' (YMap meta') (AList.delete ''status'' vm) in
                         Inr (derived_tree base name description (reanchorDataVolumes base vm'))))
                  | _ \<Rightarrow> Inl (err_invalid ''VM manifest has no name''))
             | _ \<Rightarrow> Inl (err_invalid ''VM manifest has no metadata''))))"

section \<open>Rendering\<close>

lemma size_entry: "(k, v) \<in> set m \<Longrightarrow> size v < Suc (size_list (size_prod (\<lambda>_. 0) size) m)"
  by (induction m) fastforce+

text \<open>Only a mapping inside a mapping, or inside a list inside one, is visited.\<close>

function (sequential) prune_stamps :: "yval \<Rightarrow> yval" where
  "prune_stamps (YMap m) =
     YMap (map (\<lambda>(k, v). (k, case v of YSeq xs \<Rightarrow> YSeq (map prune_stamps xs) | _ \<Rightarrow> prune_stamps v))
       (filter (\<lambda>(k, _). k \<noteq> ''creationTimestamp'') m))"
| "prune_stamps v = v"
  by pat_completeness auto
termination
proof (relation "measure size")
  fix m :: yobj and x k v xs e
  assume "x \<in> set (filter (\<lambda>(k, _). k \<noteq> ''creationTimestamp'') m)" "(k, v) = x" "v = YSeq xs" "e \<in> set xs"
  then have "size v < size (YMap m)" "size e < size v" using size_entry[of k v m] size_list_estimation'[of e xs "size e" size] by auto
  then show "(e, YMap m) \<in> measure size" by simp
qed (auto dest!: size_entry)

record rendered =
  rn_name :: string
  rn_namespace :: string
  rn_manifest :: yval

text \<open>The engine: the refusal of a template or its parameters, or the VM's name and its object once it is placed.\<close>

type_synonym template_engine = "string \<Rightarrow> labels \<Rightarrow> string + string \<times> (string \<Rightarrow> string + yobj)"

definition Render :: "template_engine \<Rightarrow> string \<Rightarrow> labels \<Rightarrow> string \<Rightarrow> fault + rendered" where
  "Render engine raw params ns =
     (case engine raw params of
        Inl msg \<Rightarrow> Inl (err_invalid msg)
      | Inr (name, place) \<Rightarrow>
          (case place ns of
             Inl msg \<Rightarrow> Inl (FInternal (''render '' @ name @ '': '' @ msg))
           | Inr obj \<Rightarrow> Inr \<lparr>rn_name = name, rn_namespace = ns, rn_manifest = prune_stamps (YMap (AList.delete ''status'' obj))\<rparr>))"

section \<open>The starter library\<close>

definition fedoraServer :: string where
  "fedoraServer = concat (map (\<lambda>l. l @ [CHR 0x0A])
     [''apiVersion: template.kubevirt.io/v1beta1'',
      ''kind: VirtualMachineTemplate'',
      ''metadata:'',
      ''  name: fedora-server'',
      ''  annotations:'',
      ''    description: Fedora server with cloud-init guest customization (hostname, user, SSH key)'',
      ''spec:'',
      ''  parameters:'',
      ''    - name: NAME'',
      ''      description: Unique VM name'',
      ''      generate: expression'',
      ''      from: '' @ [CHR 0x22] @ ''fedora-[a-z0-9]{5}'' @ [CHR 0x22],
      ''    - name: HOSTNAME'',
      ''      description: Guest hostname'',
      ''      value: fedora'',
      ''    - name: CLOUD_USER'',
      ''      description: Cloud-init user account'',
      ''      value: fedora'',
      ''    - name: SSH_AUTHORIZED_KEY'',
      ''      description: SSH public key added to the cloud-init user (optional)'',
      ''    - name: OS_IMAGE_NAMESPACE'',
      ''      description: Namespace of the fedora boot-image DataSource'',
      ''      value: openshift-virtualization-os-images'',
      ''  virtualMachine:'',
      ''    apiVersion: kubevirt.io/v1'',
      ''    kind: VirtualMachine'',
      ''    metadata:'',
      ''      name: ${NAME}'',
      ''    spec:'',
      ''      runStrategy: Halted'',
      ''      instancetype:'',
      ''        name: u1.medium'',
      ''      preference:'',
      ''        name: fedora'',
      ''      dataVolumeTemplates:'',
      ''        - metadata:'',
      ''            name: ${NAME}-rootdisk'',
      ''          spec:'',
      ''            sourceRef:'',
      ''              kind: DataSource'',
      ''              name: fedora'',
      ''              namespace: ${OS_IMAGE_NAMESPACE}'',
      ''            storage:'',
      ''              resources:'',
      ''                requests:'',
      ''                  storage: 30Gi'',
      ''      template:'',
      ''        spec:'',
      ''          domain:'',
      ''            devices:'',
      ''              disks:'',
      ''                - name: rootdisk'',
      ''                  disk:'',
      ''                    bus: virtio'',
      ''                - name: cloudinitdisk'',
      ''                  disk:'',
      ''                    bus: virtio'',
      ''              interfaces:'',
      ''                - name: default'',
      ''                  masquerade: {}'',
      ''          networks:'',
      ''            - name: default'',
      ''              pod: {}'',
      ''          volumes:'',
      ''            - name: rootdisk'',
      ''              dataVolume:'',
      ''                name: ${NAME}-rootdisk'',
      ''            - name: cloudinitdisk'',
      ''              cloudInitNoCloud:'',
      ''                userData: |'',
      ''                  #cloud-config'',
      ''                  hostname: ${HOSTNAME}'',
      ''                  user: ${CLOUD_USER}'',
      ''                  ssh_authorized_keys:'',
      ''                    - '' @ [CHR 0x22] @ ''${SSH_AUTHORIZED_KEY}'' @ [CHR 0x22]])"

definition fedoraMinimal :: string where
  "fedoraMinimal = concat (map (\<lambda>l. l @ [CHR 0x0A])
     [''apiVersion: template.kubevirt.io/v1beta1'',
      ''kind: VirtualMachineTemplate'',
      ''metadata:'',
      ''  name: fedora-minimal'',
      ''  annotations:'',
      ''    description: Minimal Fedora VM '' @ [CHR 0xE2] @ [CHR 0x80] @ [CHR 0x94] @ '' a generated name is the only parameter'',
      ''spec:'',
      ''  parameters:'',
      ''    - name: NAME'',
      ''      description: Unique VM name'',
      ''      generate: expression'',
      ''      from: '' @ [CHR 0x22] @ ''fedora-[a-z0-9]{5}'' @ [CHR 0x22],
      ''    - name: OS_IMAGE_NAMESPACE'',
      ''      description: Namespace of the fedora boot-image DataSource'',
      ''      value: openshift-virtualization-os-images'',
      ''  virtualMachine:'',
      ''    apiVersion: kubevirt.io/v1'',
      ''    kind: VirtualMachine'',
      ''    metadata:'',
      ''      name: ${NAME}'',
      ''    spec:'',
      ''      runStrategy: Halted'',
      ''      instancetype:'',
      ''        name: u1.small'',
      ''      preference:'',
      ''        name: fedora'',
      ''      dataVolumeTemplates:'',
      ''        - metadata:'',
      ''            name: ${NAME}-rootdisk'',
      ''          spec:'',
      ''            sourceRef:'',
      ''              kind: DataSource'',
      ''              name: fedora'',
      ''              namespace: ${OS_IMAGE_NAMESPACE}'',
      ''            storage:'',
      ''              resources:'',
      ''                requests:'',
      ''                  storage: 30Gi'',
      ''      template:'',
      ''        spec:'',
      ''          domain:'',
      ''            devices:'',
      ''              disks:'',
      ''                - name: rootdisk'',
      ''                  disk:'',
      ''                    bus: virtio'',
      ''              interfaces:'',
      ''                - name: default'',
      ''                  masquerade: {}'',
      ''          networks:'',
      ''            - name: default'',
      ''              pod: {}'',
      ''          volumes:'',
      ''            - name: rootdisk'',
      ''              dataVolume:'',
      ''                name: ${NAME}-rootdisk''])"

definition SeedFiles :: file_tree where
  "SeedFiles = [(TemplatesDir @ ''/fedora-server.yaml'', fedoraServer), (TemplatesDir @ ''/fedora-minimal.yaml'', fedoraMinimal)]"

section \<open>Names stay DNS labels\<close>

lemma pattern_base_length: "length (pattern_base base) \<le> 57"
  using length_dropWhile_le[of "\<lambda>c. c = CHR ''-''" "rev (if length base > 57 then take 57 base else base)"]
  by (auto simp: pattern_base_def)

end
