(* ===== verification/Drs_Manifest.thy ===== *)
theory Drs_Manifest
  imports Yaml_Tree Go_Text
begin

text \<open>
  \<open>internal/drs/manifests.go\<close>: the files that configure automatic rebalancing, and how the committed configuration is read
  back. Integers are Go's 64-bit ones, all far inside their range. And \<open>live.go\<close>: what the status plane reads off the watched objects.
\<close>

section \<open>The configuration\<close>

definition DrsNamespace :: string where "DrsNamespace = ''openshift-kube-descheduler-operator''"

definition NamespacePath :: string where "NamespacePath = ''descheduler/namespace.yaml''"
definition OperatorGroupPath :: string where "OperatorGroupPath = ''descheduler/operatorgroup.yaml''"
definition SubscriptionPath :: string where "SubscriptionPath = ''descheduler/subscription.yaml''"
definition CRPath :: string where "CRPath = ''descheduler/kubedescheduler.yaml''"
definition PSIPath :: string where "PSIPath = ''machineconfigs/99-worker-psi.yaml''"

definition ModePredictive :: string where "ModePredictive = ''Predictive''"
definition ModeAutomatic :: string where "ModeAutomatic = ''Automatic''"

definition validThresholds :: "string list" where
  "validThresholds = [''AsymmetricLow'', ''Low'', ''Medium'', ''High'']"

record drs_spec =
  dp_mode :: string
  dp_threshold :: string
  dp_interval :: int
  dp_tainter :: "bool option"
  dp_node_limit :: int
  dp_total_limit :: int
  dp_psi :: bool

definition SoftTaint :: "drs_spec \<Rightarrow> bool" where
  "SoftTaint s = (case dp_tainter s of None \<Rightarrow> True | Some b \<Rightarrow> b)"

text \<open>A zero value takes its default, any other must be in range.\<close>

definition ranged :: "int \<Rightarrow> int \<Rightarrow> int \<Rightarrow> int \<Rightarrow> int option" where
  "ranged dflt lo hi n = (if n = 0 then Some dflt else if n < lo \<or> n > hi then None else Some n)"

definition withDefaults :: "drs_spec \<Rightarrow> string + drs_spec" where
  "withDefaults s =
     (if dp_mode s = '''' then Inl ''a mode is required (Predictive or Automatic)''
      else if dp_mode s \<noteq> ModePredictive \<and> dp_mode s \<noteq> ModeAutomatic
        then Inl (''mode '' @ go_quote (dp_mode s) @ '' must be Predictive or Automatic'')
      else if dp_threshold s \<noteq> '''' \<and> dp_threshold s \<notin> set validThresholds
        then Inl (''threshold '' @ go_quote (dp_threshold s) @ '' must be AsymmetricLow, Low, Medium or High'')
      else
        (case ranged 60 10 86400 (dp_interval s) of None \<Rightarrow> Inl ''intervalSeconds must be 10..86400'' | Some interval \<Rightarrow>
         (case ranged 2 1 100 (dp_node_limit s) of None \<Rightarrow> Inl ''evictionNodeLimit must be 1..100'' | Some node \<Rightarrow>
          (case ranged 5 1 1000 (dp_total_limit s) of None \<Rightarrow> Inl ''evictionTotalLimit must be 1..1000'' | Some total_limit \<Rightarrow>
           Inr (s\<lparr>dp_threshold := (if dp_threshold s = '''' then ''AsymmetricLow'' else dp_threshold s),
                  dp_interval := interval, dp_node_limit := node, dp_total_limit := total_limit\<rparr>)))))"

section \<open>The files\<close>

definition operatorNamespace :: yval where
  "operatorNamespace = YMap [(''apiVersion'', YStr ''v1''), (''kind'', YStr ''Namespace''),
     (''metadata'', YMap [(''name'', YStr DrsNamespace), (''labels'', YLabels [(''openshift.io/cluster-monitoring'', ''true'')])])]"

definition operatorGroup :: yval where
  "operatorGroup = YMap [(''apiVersion'', YStr ''operators.coreos.com/v1''), (''kind'', YStr ''OperatorGroup''),
     (''metadata'', YLabels [(''name'', DrsNamespace), (''namespace'', DrsNamespace)]),
     (''spec'', YMap [(''targetNamespaces'', YStrs [DrsNamespace])])]"

definition drs_subscription :: yval where
  "drs_subscription = YMap [(''apiVersion'', YStr ''operators.coreos.com/v1alpha1''), (''kind'', YStr ''Subscription''),
     (''metadata'', YLabels [(''name'', ''cluster-kube-descheduler-operator''), (''namespace'', DrsNamespace)]),
     (''spec'', YLabels [(''channel'', ''stable''), (''name'', ''cluster-kube-descheduler-operator''), (''source'', ''redhat-operators''),
        (''sourceNamespace'', ''openshift-marketplace''), (''installPlanApproval'', ''Automatic'')])]"

definition kubeDescheduler :: "drs_spec \<Rightarrow> yval" where
  "kubeDescheduler s = YMap [(''apiVersion'', YStr ''operator.openshift.io/v1''), (''kind'', YStr ''KubeDescheduler''),
     (''metadata'', YMap [(''name'', YStr ''cluster''), (''namespace'', YStr DrsNamespace),
        (''annotations'', YLabels [(''argocd.argoproj.io/sync-options'', ''SkipDryRunOnMissingResource=true'')])]),
     (''spec'', YMap [(''managementState'', YStr ''Managed''), (''mode'', YStr (dp_mode s)),
        (''deschedulingIntervalSeconds'', YInt (dp_interval s)), (''profiles'', YStrs [''KubeVirtRelieveAndMigrate'']),
        (''profileCustomizations'', YMap [(''devActualUtilizationProfile'', YStr ''PrometheusCPUCombined''),
           (''devDeviationThresholds'', YStr (dp_threshold s)), (''devEnableSoftTainter'', YBool (SoftTaint s))]),
        (''evictionLimits'', YMap [(''node'', YInt (dp_node_limit s)), (''total'', YInt (dp_total_limit s))])])]"

definition psiMachineConfig :: yval where
  "psiMachineConfig = YMap [(''apiVersion'', YStr ''machineconfiguration.openshift.io/v1''), (''kind'', YStr ''MachineConfig''),
     (''metadata'', YMap [(''name'', YStr ''99-openshift-machineconfig-worker-psi-karg''),
        (''labels'', YLabels [(''machineconfiguration.openshift.io/role'', ''worker'')])]),
     (''spec'', YMap [(''kernelArguments'', YStrs [''psi=1''])])]"

record drs_file =
  fl_name :: string
  fl_path :: string
  fl_tree :: yval

definition drs_file_of :: "string \<Rightarrow> string \<Rightarrow> yval \<Rightarrow> drs_file" where
  "drs_file_of name path tree = \<lparr>fl_name = name, fl_path = path, fl_tree = tree\<rparr>"

definition DrsManifests :: "drs_spec \<Rightarrow> string + drs_file list" where
  "DrsManifests s =
     (case withDefaults s of
        Inl e \<Rightarrow> Inl e
      | Inr s' \<Rightarrow>
          Inr ([drs_file_of ''namespace'' NamespacePath operatorNamespace, drs_file_of ''operatorgroup'' OperatorGroupPath operatorGroup,
                drs_file_of ''subscription'' SubscriptionPath drs_subscription, drs_file_of ''kubedescheduler'' CRPath (kubeDescheduler s')] @
               (if dp_psi s' then [drs_file_of ''psi-machineconfig'' PSIPath psiMachineConfig] else [])))"

section \<open>Reading it back\<close>

definition y_bool :: "yval \<Rightarrow> bool option" where
  "y_bool v = (case v of YNull \<Rightarrow> Some False | YBool b \<Rightarrow> Some b | _ \<Rightarrow> None)"

definition DrsParse :: "yval \<Rightarrow> drs_spec option" where
  "DrsParse v = do {
     doc \<leftarrow> y_obj v;
     spec \<leftarrow> y_obj (y_field ''spec'' doc);
     mode \<leftarrow> y_string (y_field ''mode'' spec);
     interval \<leftarrow> y_int (y_field ''deschedulingIntervalSeconds'' spec);
     custom \<leftarrow> y_obj (y_field ''profileCustomizations'' spec);
     threshold \<leftarrow> y_string (y_field ''devDeviationThresholds'' custom);
     tainter \<leftarrow> y_ptr y_bool (y_field ''devEnableSoftTainter'' custom);
     limits \<leftarrow> y_obj (y_field ''evictionLimits'' spec);
     node \<leftarrow> y_int (y_field ''node'' limits);
     total_limit \<leftarrow> y_int (y_field ''total'' limits);
     Some \<lparr>dp_mode = mode, dp_threshold = threshold, dp_interval = interval, dp_tainter = tainter, dp_node_limit = node,
           dp_total_limit = total_limit, dp_psi = False\<rparr> }"

section \<open>The live object\<close>

record drs_live =
  dl_present :: bool
  dl_synced :: bool
  dl_stale :: bool
  dl_deployed :: bool
  dl_mode :: string
  dl_interval :: int
  dl_available :: bool
  dl_degraded :: string

definition ends_with :: "string \<Rightarrow> string \<Rightarrow> bool" where
  "ends_with s p = has_prefix (rev s) (rev p)"

text \<open>Explicit availability and degradation seen so far, and the row.\<close>

fun read_conditions :: "yval list \<Rightarrow> bool \<times> bool \<times> drs_live \<Rightarrow> bool \<times> bool \<times> drs_live" where
  "read_conditions [] acc = acc"
| "read_conditions (YMap cond # cs) (explicit, degraded, out) =
     (let typ = as_string (y_field ''type'' cond); status = as_string (y_field ''status'' cond) in
      read_conditions cs
        (if typ = ''Available'' then (True, degraded, out\<lparr>dl_available := (status = ''True'')\<rparr>)
         else if ends_with typ ''Degraded'' \<and> status = ''True''
           then (explicit, True, out\<lparr>dl_degraded := as_string (y_field ''message'' cond)\<rparr>)
         else (explicit, degraded, out)))"
| "read_conditions (_ # cs) acc = read_conditions cs acc"

text \<open>The watched objects by key.\<close>

definition managedCR :: "(string \<times> yval) list \<Rightarrow> yval option" where
  "managedCR store =
     (case map_of store (DrsNamespace @ ''/cluster'') of
        Some u \<Rightarrow> Some u
      | None \<Rightarrow> (case sort (map fst store) of [] \<Rightarrow> None | k # _ \<Rightarrow> map_of store k))"

definition Live :: "bool \<Rightarrow> bool \<Rightarrow> bool \<Rightarrow> (string \<times> yval) list \<Rightarrow> drs_live" where
  "Live api_present synced healthy store =
     (let out = \<lparr>dl_present = api_present, dl_synced = synced, dl_stale = (api_present \<and> \<not> healthy), dl_deployed = False,
                 dl_mode = '''', dl_interval = 0, dl_available = False, dl_degraded = ''''\<rparr> in
      case managedCR store of
        None \<Rightarrow> out
      | Some u \<Rightarrow>
          (let out = out\<lparr>dl_deployed := True, dl_mode := as_string (nested [''spec'', ''mode''] u),
                 dl_interval := (case nested [''spec'', ''deschedulingIntervalSeconds''] u of YInt n \<Rightarrow> n | _ \<Rightarrow> 0)\<rparr> in
           case nested [''status'', ''conditions''] u of
             YSeq (c # cs) \<Rightarrow>
               (case read_conditions (c # cs) (False, False, out) of (explicit, degraded, out) \<Rightarrow>
                  (if explicit then out else out\<lparr>dl_available := (\<not> degraded)\<rparr>))
           | _ \<Rightarrow> out))"

section \<open>The configuration survives the repository\<close>

lemma ranged_bounds: "ranged dflt lo hi n = Some k \<Longrightarrow> lo \<le> dflt \<Longrightarrow> dflt \<le> hi \<Longrightarrow> lo \<le> k \<and> k \<le> hi"
  by (auto simp: ranged_def split: if_splits)

lemma with_defaults_cases:
  assumes "withDefaults s = Inr s'"
  obtains i n t where "ranged 60 10 86400 (dp_interval s) = Some i" "ranged 2 1 100 (dp_node_limit s) = Some n"
    "ranged 5 1 1000 (dp_total_limit s) = Some t" "dp_threshold s = '''' \<or> dp_threshold s \<in> set validThresholds"
    "s' = s\<lparr>dp_threshold := (if dp_threshold s = '''' then ''AsymmetricLow'' else dp_threshold s),
            dp_interval := i, dp_node_limit := n, dp_total_limit := t\<rparr>"
    "dp_mode s = ModePredictive \<or> dp_mode s = ModeAutomatic"
  using assms unfolding withDefaults_def by (simp split: if_splits option.splits)

lemma with_defaults_ok:
  assumes "withDefaults s = Inr s'"
  shows "dp_mode s' = dp_mode s" "dp_tainter s' = dp_tainter s" "dp_psi s' = dp_psi s"
    "10 \<le> dp_interval s' \<and> dp_interval s' \<le> 86400" "1 \<le> dp_node_limit s' \<and> dp_node_limit s' \<le> 100"
    "1 \<le> dp_total_limit s' \<and> dp_total_limit s' \<le> 1000" "dp_threshold s' \<in> set validThresholds"
    "dp_mode s' = ModePredictive \<or> dp_mode s' = ModeAutomatic"
proof -
  from assms obtain i n t where c: "ranged 60 10 86400 (dp_interval s) = Some i" "ranged 2 1 100 (dp_node_limit s) = Some n"
    "ranged 5 1 1000 (dp_total_limit s) = Some t" "dp_threshold s = '''' \<or> dp_threshold s \<in> set validThresholds"
    "s' = s\<lparr>dp_threshold := (if dp_threshold s = '''' then ''AsymmetricLow'' else dp_threshold s),
            dp_interval := i, dp_node_limit := n, dp_total_limit := t\<rparr>"
    "dp_mode s = ModePredictive \<or> dp_mode s = ModeAutomatic" by (rule with_defaults_cases)
  have v: "''AsymmetricLow'' \<in> set validThresholds" by (simp add: validThresholds_def)
  show "dp_mode s' = dp_mode s" "dp_tainter s' = dp_tainter s" "dp_psi s' = dp_psi s" by (simp_all add: c(5))
  show "10 \<le> dp_interval s' \<and> dp_interval s' \<le> 86400" using ranged_bounds[OF c(1)] by (simp add: c(5))
  show "1 \<le> dp_node_limit s' \<and> dp_node_limit s' \<le> 100" using ranged_bounds[OF c(2)] by (simp add: c(5))
  show "1 \<le> dp_total_limit s' \<and> dp_total_limit s' \<le> 1000" using ranged_bounds[OF c(3)] by (simp add: c(5))
  show "dp_threshold s' \<in> set validThresholds" using c(4) v by (auto simp: c(5))
  show "dp_mode s' = ModePredictive \<or> dp_mode s' = ModeAutomatic" using c(6) by (simp add: c(5))
qed

lemma mode_not_empty: "ModePredictive \<noteq> ''''" "ModeAutomatic \<noteq> ''''"
  by (simp_all add: ModePredictive_def ModeAutomatic_def)

lemma with_defaults_fixed:
  assumes "dp_mode s = ModePredictive \<or> dp_mode s = ModeAutomatic" "dp_threshold s \<in> set validThresholds"
    "10 \<le> dp_interval s \<and> dp_interval s \<le> 86400" "1 \<le> dp_node_limit s \<and> dp_node_limit s \<le> 100" "1 \<le> dp_total_limit s \<and> dp_total_limit s \<le> 1000"
  shows "withDefaults s = Inr s"
proof -
  have "ranged 60 10 86400 (dp_interval s) = Some (dp_interval s)" "ranged 2 1 100 (dp_node_limit s) = Some (dp_node_limit s)"
    "ranged 5 1 1000 (dp_total_limit s) = Some (dp_total_limit s)" using assms(3-5) by (auto simp: ranged_def)
  moreover have "dp_threshold s \<noteq> ''''" using assms(2) by (auto simp: validThresholds_def)
  moreover have "dp_mode s \<noteq> ''''" using assms(1) mode_not_empty by auto
  ultimately show ?thesis using assms(1,2) by (auto simp: withDefaults_def)
qed

lemma with_defaults_stable: "withDefaults s = Inr s' \<Longrightarrow> withDefaults s' = Inr s'"
  by (intro with_defaults_fixed with_defaults_ok[of s s'])

lemma drs_paths: "CRPath \<noteq> NamespacePath" "CRPath \<noteq> OperatorGroupPath" "CRPath \<noteq> SubscriptionPath" "CRPath \<noteq> PSIPath"
  by code_simp+

lemma parse_rendered:
  "DrsParse (kubeDescheduler s) = Some (s\<lparr>dp_tainter := Some (SoftTaint s), dp_psi := False\<rparr>)"
  by (simp add: DrsParse_def kubeDescheduler_def y_obj_def y_field_def y_string_def y_int_def y_ptr_def y_bool_def)

lemma psi_path: "PSIPath \<noteq> NamespacePath" "PSIPath \<noteq> OperatorGroupPath" "PSIPath \<noteq> SubscriptionPath" "PSIPath \<noteq> CRPath"
  by code_simp+

lemma with_defaults_values:
  assumes "withDefaults s = Inr s'"
  shows "dp_threshold s' = (if dp_threshold s = '''' then ''AsymmetricLow'' else dp_threshold s)"
    "dp_interval s' = (if dp_interval s = 0 then 60 else dp_interval s)"
    "dp_node_limit s' = (if dp_node_limit s = 0 then 2 else dp_node_limit s)"
    "dp_total_limit s' = (if dp_total_limit s = 0 then 5 else dp_total_limit s)"
  using assms by (auto simp: withDefaults_def ranged_def split: if_splits option.splits)

text \<open>C15: A configuration survives the repository. Whatever configuration the renderer accepts, the panel reads back from the committed CR
  exactly that configuration: its mode, threshold, interval, eviction limits and soft-taint choice as given, each value left out replaced by its
  documented default and every number in its documented range; the PSI file is among the files exactly when PSI was asked for. And rendering
  what was read back writes the same CR again, so re-submitting the committed configuration proposes no change to it.\<close>
theorem drs_round_trip:
  assumes "DrsManifests s = Inr files" "f \<in> set files" "fl_path f = CRPath"
  shows "\<exists>s'. DrsParse (fl_tree f) = Some s' \<and>
    dp_mode s' = dp_mode s \<and> dp_mode s \<in> {''Predictive'', ''Automatic''} \<and>
    dp_threshold s' = (if dp_threshold s = '''' then ''AsymmetricLow'' else dp_threshold s) \<and>
    dp_interval s' = (if dp_interval s = 0 then 60 else dp_interval s) \<and> dp_interval s' \<in> {10..86400} \<and>
    dp_node_limit s' = (if dp_node_limit s = 0 then 2 else dp_node_limit s) \<and> dp_node_limit s' \<in> {1..100} \<and>
    dp_total_limit s' = (if dp_total_limit s = 0 then 5 else dp_total_limit s) \<and> dp_total_limit s' \<in> {1..1000} \<and>
    dp_tainter s' = Some (dp_tainter s \<noteq> Some False) \<and>
    (PSIPath \<in> fl_path ` set files \<longleftrightarrow> dp_psi s) \<and>
    (\<exists>files'. DrsManifests s' = Inr files' \<and> f \<in> set files')"
proof -
  from assms(1) obtain d where d: "withDefaults s = Inr d" by (auto simp: DrsManifests_def split: sum.splits)
  have "f \<in> set files" "fl_path f = CRPath" by fact+
  then have f: "f = drs_file_of ''kubedescheduler'' CRPath (kubeDescheduler d)"
    using assms(1) drs_paths by (auto simp: DrsManifests_def d drs_file_of_def split: if_splits)
  let ?s = "d\<lparr>dp_tainter := Some (SoftTaint d), dp_psi := False\<rparr>"
  have w: "withDefaults ?s = Inr ?s" using with_defaults_ok[OF d] by (intro with_defaults_fixed) simp_all
  have k: "kubeDescheduler ?s = kubeDescheduler d" by (simp add: kubeDescheduler_def SoftTaint_def split: option.split)
  have "DrsParse (fl_tree f) = Some ?s" by (simp add: f drs_file_of_def parse_rendered)
  moreover have "\<exists>files'. DrsManifests ?s = Inr files' \<and> f \<in> set files'" by (simp add: DrsManifests_def w f k)
  moreover have "SoftTaint d = (dp_tainter s \<noteq> Some False)" using with_defaults_ok(2)[OF d] by (simp add: SoftTaint_def split: option.split)
  moreover have "PSIPath \<in> fl_path ` set files \<longleftrightarrow> dp_psi s"
    using assms(1) drs_paths psi_path with_defaults_ok(3)[OF d] by (auto simp: DrsManifests_def d drs_file_of_def)
  moreover note with_defaults_ok[OF d] with_defaults_values[OF d]
  ultimately show ?thesis by (intro exI[of _ ?s]) (simp add: ModePredictive_def ModeAutomatic_def)
qed

theorem drs_round_trip_witness:
  "\<exists>s' files'. DrsParse (kubeDescheduler
       \<lparr>dp_mode = ''Automatic'', dp_threshold = ''High'', dp_interval = 60, dp_tainter = None, dp_node_limit = 7, dp_total_limit = 5, dp_psi = False\<rparr>) = Some s' \<and>
     dp_mode s' = ''Automatic'' \<and> dp_threshold s' = ''High'' \<and> dp_interval s' = 60 \<and> dp_node_limit s' = 7 \<and> DrsManifests s' = Inr files'"
proof -
  let ?s = "\<lparr>dp_mode = ''Automatic'', dp_threshold = ''High'', dp_interval = 0, dp_tainter = None, dp_node_limit = 7, dp_total_limit = 0, dp_psi = False\<rparr>"
  let ?d = "\<lparr>dp_mode = ''Automatic'', dp_threshold = ''High'', dp_interval = 60, dp_tainter = None, dp_node_limit = 7, dp_total_limit = 5, dp_psi = False\<rparr>"
  have "withDefaults ?s = Inr ?d" by (simp add: withDefaults_def ModeAutomatic_def ModePredictive_def ranged_def validThresholds_def)
  then obtain files where m: "DrsManifests ?s = Inr files" "drs_file_of ''kubedescheduler'' CRPath (kubeDescheduler ?d) \<in> set files"
    by (simp add: DrsManifests_def)
  from drs_round_trip[OF m] show ?thesis by (auto simp: drs_file_of_def)
qed

end
