(* ===== verification/Changeset_Library.thy ===== *)
theory Changeset_Library
  imports Changeset_Adopt Vmtemplate Drs_Manifest
begin

text \<open>
  \<open>internal/changeset\<close>, templates and rebalancing: deploying from a template, saving and replacing one, the listing of a library
  (\<open>template.go\<close>, \<open>gitread.go\<close>), and the files of the rebalancing configuration (\<open>drs.go\<close>). \<open>library\<close> holds the
  upstream template decoder and engine, and \<open>json.Unmarshal\<close> at the configuration.
\<close>

record library =
  lb_decode :: "string \<Rightarrow> string + template_doc"
  lb_engine :: template_engine
  lb_drs :: "string \<Rightarrow> string + drs_spec"

section \<open>Templates\<close>

definition Templates :: "library \<Rightarrow> reader \<Rightarrow> project_info \<Rightarrow> template list" where
  "Templates lb r proj =
     (case read_repo r proj of Inl _ \<Rightarrow> [] | Inr m \<Rightarrow>
      (case base_tree r m of
         Inl _ \<Rightarrow> []
       | Inr t \<Rightarrow> map (\<lambda>(p, c). ParseTemplate (lb_decode lb) p c (pi_name proj)) (TemplatesOnBranch t)))"

record deploy_request =
  dq_template :: string
  dq_namespace :: string
  dq_name :: string
  dq_parameters :: labels
  dq_power_on :: bool

definition power_on :: vm_edit where
  "power_on = empty_edit\<lparr>ve_power := Some PowerOn\<rparr>"

definition deploy_params :: "deploy_request \<Rightarrow> labels" where
  "deploy_params q = (if dq_name q \<noteq> '''' then AList.update ''NAME'' (dq_name q) (dq_parameters q) else dq_parameters q)"

definition deploy_entry :: "coordinator \<Rightarrow> library \<Rightarrow> project_info \<Rightarrow> project_info \<Rightarrow> deploy_request \<Rightarrow> fault + pending" where
  "deploy_entry co lb target source q =
     (let r = co_reader co in
      case read_repo r target of Inl e \<Rightarrow> Inl e | Inr target_read \<Rightarrow>
      (if dq_template q = '''' \<or> dq_namespace q = '''' then Inl (err_invalid ''template and namespace are required'')
       else
        (case RequireDNS1123 ''template name'' (dq_template q) of Some e \<Rightarrow> Inl (err_invalid e) | None \<Rightarrow>
         (case read_repo r source of Inl e \<Rightarrow> Inl e | Inr source_read \<Rightarrow>
          (case base_tree r source_read of Inl e \<Rightarrow> Inl e | Inr t \<Rightarrow>
           (case LookupFile t (TemplatePath (dq_template q)) of
              None \<Rightarrow> Inl (err_not_found (''template '' @ go_quote (dq_template q) @ '' not in library '' @ go_quote (pi_name source)))
            | Some raw \<Rightarrow>
                (case Render (lb_engine lb) raw (deploy_params q) (dq_namespace q) of Inl e \<Rightarrow> Inl e | Inr rn \<Rightarrow>
                 (case RequireDNS1123 ''rendered VM name'' (rn_name rn) of Some e \<Rightarrow> Inl (err_invalid e) | None \<Rightarrow>
                  (case (let text = co_marshal co (rn_manifest rn) in
                         if dq_power_on q then map_sum (wrap_fault ''power on rendered VM'' \<circ> edit_fault) id
                                (ApplyEdit (rd_yaml r) text (dq_namespace q) (rn_name rn) power_on)
                         else Inr text) of
                     Inl e \<Rightarrow> Inl e
                   | Inr text \<Rightarrow>
                       (case requireUndeclaredVM r target_read (dq_namespace q) (rn_name rn) of Some e \<Rightarrow> Inl e | None \<Rightarrow>
                        Inr (blank_entry\<lparr>en_kind := KindCreate, en_namespace := dq_namespace q, en_name := rn_name rn,
                          en_source := ManifestPath (dq_namespace q) (rn_name rn), en_manifest := text,
                          en_from_template := pi_name source @ ''/'' @ dq_template q\<rparr>)))))))))))"

definition StageDeployFromTemplate :: "coordinator \<Rightarrow> library \<Rightarrow> store_io \<Rightarrow> string \<Rightarrow> project_info \<Rightarrow> project_info \<Rightarrow> deploy_request \<Rightarrow> drafts \<Rightarrow> staged" where
  "StageDeployFromTemplate co lb ios user target source q = stage_checked co ios user target (deploy_entry co lb target source q)"

definition template_entry :: "entry_kind \<Rightarrow> string \<Rightarrow> string \<Rightarrow> pending" where
  "template_entry kind name content =
     blank_entry\<lparr>en_kind := kind, en_resource := ''template'', en_namespace := ClusterScopeNS, en_name := name,
       en_source := TemplatePath name, en_manifest := content\<rparr>"

record save_request =
  sq_name :: string
  sq_description :: string
  sq_namespace :: string
  sq_vm :: string

definition save_entry :: "coordinator \<Rightarrow> project_info \<Rightarrow> project_info \<Rightarrow> save_request \<Rightarrow> fault + pending" where
  "save_entry co commit_proj source q =
     (let r = co_reader co in
      case read_repo r commit_proj of Inl e \<Rightarrow> Inl e | Inr m \<Rightarrow>
      (case RequireDNS1123 ''template name'' (sq_name q) of Some e \<Rightarrow> Inl (err_invalid e) | None \<Rightarrow>
       (case read_repo r source of Inl e \<Rightarrow> Inl e | Inr src \<Rightarrow>
        (case base_vm r src (sq_namespace q) (sq_vm q) of Inl e \<Rightarrow> Inl e
         | Inr None \<Rightarrow> Inl (err_not_found (''VM '' @ sq_namespace q @ ''/'' @ sq_vm q @ '' is not in git''))
         | Inr (Some v) \<Rightarrow>
             (case base_tree r src of Inl e \<Rightarrow> Inl e | Inr t \<Rightarrow>
              (case FileOnBranch t (vm_source_file v) of Inl e \<Rightarrow> Inl e | Inr text \<Rightarrow>
               (case Derive (rd_tree r text) (sq_name q) (sq_description q) of Inl e \<Rightarrow> Inl e | Inr tree \<Rightarrow>
                (case base_tree r m of Inl e \<Rightarrow> Inl e | Inr held \<Rightarrow>
                 (if LookupFile held (TemplatePath (sq_name q)) \<noteq> None
                  then Inl (err_conflict (''template '' @ go_quote (sq_name q) @ '' already exists in library '' @ go_quote (pi_name commit_proj)))
                  else Inr (template_entry KindCreate (sq_name q) (co_marshal co tree)))))))))))"

definition StageSaveTemplate :: "coordinator \<Rightarrow> store_io \<Rightarrow> string \<Rightarrow> project_info \<Rightarrow> project_info \<Rightarrow> save_request \<Rightarrow> drafts \<Rightarrow> staged" where
  "StageSaveTemplate co ios user commit_proj source q = stage_checked co ios user commit_proj (save_entry co commit_proj source q)"

definition update_template_entry :: "library \<Rightarrow> reader \<Rightarrow> project_info \<Rightarrow> string \<Rightarrow> string \<Rightarrow> fault + pending" where
  "update_template_entry lb r proj name yaml =
     (case read_repo r proj of Inl e \<Rightarrow> Inl e | Inr m \<Rightarrow>
      (case RequireDNS1123 ''template name'' name of Some e \<Rightarrow> Inl (err_invalid e) | None \<Rightarrow>
       (let t = ParseTemplate (lb_decode lb) (TemplatePath name) yaml (pi_name proj) in
        if tm_error t \<noteq> '''' then Inl (err_invalid (tm_error t))
        else
         (case base_tree r m of Inl e \<Rightarrow> Inl e | Inr held \<Rightarrow>
          (if LookupFile held (TemplatePath name) = None
           then Inl (err_not_found (''template '' @ go_quote name @ '' not in library '' @ go_quote (pi_name proj)))
           else Inr (template_entry KindEdit name yaml))))))"

definition StageUpdateTemplate :: "coordinator \<Rightarrow> library \<Rightarrow> store_io \<Rightarrow> string \<Rightarrow> project_info \<Rightarrow> string \<Rightarrow> string \<Rightarrow> drafts \<Rightarrow> staged" where
  "StageUpdateTemplate co lb ios user proj name yaml = stage_checked co ios user proj (update_template_entry lb (co_reader co) proj name yaml)"

section \<open>Rebalancing\<close>

definition drs_entry :: "(yval \<Rightarrow> string) \<Rightarrow> drs_file \<Rightarrow> pending" where
  "drs_entry marshal f =
     blank_entry\<lparr>en_kind := KindCreate, en_resource := ''drs'', en_namespace := ClusterScopeNS, en_name := fl_name f,
       en_source := fl_path f, en_manifest := marshal (fl_tree f)\<rparr>"

text \<open>The files the base branch does not already hold with these bytes.\<close>

definition drs_delta :: "(yval \<Rightarrow> string) \<Rightarrow> file_tree \<Rightarrow> drs_file list \<Rightarrow> pending list" where
  "drs_delta marshal t files =
     map (drs_entry marshal) (filter (\<lambda>f. LookupFile t (fl_path f) \<noteq> Some (marshal (fl_tree f))) files)"

text \<open>The store calls of the withdrawal come first, then the entries. A branch that does not resolve fails at the first file.\<close>

definition StageEnableDRS :: "coordinator \<Rightarrow> library \<Rightarrow> store_io \<Rightarrow> string \<Rightarrow> project_info \<Rightarrow> string \<Rightarrow> drafts \<Rightarrow> staged" where
  "StageEnableDRS co lb ios user proj raw st =
     (case read_repo (co_reader co) proj of Inl e \<Rightarrow> (Inl e, st) | Inr m \<Rightarrow>
      (case lb_drs lb raw of Inl msg \<Rightarrow> (Inl (err_invalid (''invalid DRS spec: '' @ msg)), st) | Inr spec \<Rightarrow>
       (case DrsManifests spec of Inl msg \<Rightarrow> (Inl (err_invalid msg), st) | Inr files \<Rightarrow>
        (case unstageResource ios user proj ''drs'' st of
           ((Some e, n), st1) \<Rightarrow> (Inl e, st1)
         | ((None, n), st1) \<Rightarrow>
             (case base_tree (co_reader co) m of
                Inl e \<Rightarrow> (Inl e, st1)
              | Inr t \<Rightarrow>
                  (let es = drs_delta (co_marshal co) t files in
                   case stage_all ios (Suc n) user (pi_name proj) es st1 of
                     (False, st2) \<Rightarrow> (Inl (FInternal ''write draft''), st2)
                   | (True, st2) \<Rightarrow> Get co (ios (Suc n + length es)) user proj st2))))))"

definition StageDisableDRS :: "coordinator \<Rightarrow> store_io \<Rightarrow> string \<Rightarrow> project_info \<Rightarrow> drafts \<Rightarrow> staged" where
  "StageDisableDRS co ios user proj st =
     (case read_repo (co_reader co) proj of Inl e \<Rightarrow> (Inl e, st) | Inr m \<Rightarrow>
      (case unstageResource ios user proj ''drs'' st of
         ((Some e, n), st1) \<Rightarrow> (Inl e, st1)
       | ((None, n), st1) \<Rightarrow>
           (case base_tree (co_reader co) m of
              Inl e \<Rightarrow> (Inl e, st1)
            | Inr t \<Rightarrow>
                (if LookupFile t CRPath = None then
                   (if n = 0 then (Inl (err_not_found (''DRS is not configured on '' @ rd_base (co_reader co))), st1)
                    else Get co (ios (Suc n)) user proj st1)
                 else
                   stage_entry co (\<lambda>k. ios (Suc n + k)) user proj
                     (blank_entry\<lparr>en_kind := KindDelete, en_resource := ''drs'', en_namespace := ClusterScopeNS,
                       en_name := ''kubedescheduler'', en_source := CRPath\<rparr>) st1))))"

record drs_config =
  dc_mode :: string
  dc_threshold :: string
  dc_interval :: int
  dc_tainter :: bool
  dc_node :: int
  dc_total :: int

definition configFromSpec :: "drs_spec \<Rightarrow> drs_config" where
  "configFromSpec s = \<lparr>dc_mode = dp_mode s, dc_threshold = dp_threshold s, dc_interval = dp_interval s, dc_tainter = SoftTaint s,
     dc_node = dp_node_limit s, dc_total = dp_total_limit s\<rparr>"

definition read_config :: "reader \<Rightarrow> string \<Rightarrow> drs_config option" where
  "read_config r content = map_option configFromSpec (Option.bind (rd_tree r content) DrsParse)"

text \<open>Configured, its form and whether the kernel argument is committed. \<open>FUnavailable\<close> is \<open>ErrNoBranch\<close>.\<close>

definition DRSState :: "reader \<Rightarrow> project_info \<Rightarrow> fault + bool \<times> drs_config option \<times> bool" where
  "DRSState r proj =
     (case read_repo r proj of Inl e \<Rightarrow> Inl e | Inr m \<Rightarrow>
      (case base_tree r m of
         Inl (FUnavailable _) \<Rightarrow> Inr (False, None, False)
       | Inl e \<Rightarrow> Inl e
       | Inr t \<Rightarrow>
           (case LookupFile t CRPath of
              None \<Rightarrow> Inr (False, None, False)
            | Some content \<Rightarrow> Inr (True, read_config r content, LookupFile t PSIPath \<noteq> None))))"

record drs_draft =
  dd_disable :: bool
  dd_config :: "drs_config option"
  dd_psi :: bool

definition read_drs_entry :: "reader \<Rightarrow> drs_draft \<Rightarrow> pending \<Rightarrow> drs_draft" where
  "read_drs_entry r out e =
     (if en_resource e \<noteq> ''drs'' then out
      else if en_kind e = KindDelete then out\<lparr>dd_disable := True\<rparr>
      else if en_name e = ''kubedescheduler'' then
        (case read_config r (en_manifest e) of None \<Rightarrow> out | Some c \<Rightarrow> out\<lparr>dd_config := Some c\<rparr>)
      else if en_name e = ''psi-machineconfig'' then out\<lparr>dd_psi := True\<rparr>
      else out)"

definition DRSDraft :: "reader \<Rightarrow> vm_edit io \<Rightarrow> string \<Rightarrow> project_info \<Rightarrow> drafts \<Rightarrow> (fault + drs_draft) \<times> drafts" where
  "DRSDraft r i user proj st =
     (case draft_list i user (pi_name proj) st of
        (Inl e, st') \<Rightarrow> (Inl (FInternal e), st')
      | (Inr entries, st') \<Rightarrow>
          (Inr (foldl (read_drs_entry r) \<lparr>dd_disable = False, dd_config = None, dd_psi = False\<rparr> entries), st'))"

end
