(* ===== verification/Changeset_Tenancy.thy ===== *)
theory Changeset_Tenancy
  imports Changeset_Library
begin

text \<open>
  \<open>internal/changeset/tenancy.go\<close>: creating, adopting and releasing a project. The forge repository is made at once, the
  namespaces and grants are staged in the platform draft; \<open>tenancy\<close> holds both planes: the draft store, the repositories created on the
  forge (newest first) and what each repository holds.
\<close>

record tenancy =
  ty_drafts :: drafts
  ty_created :: "owner_repo list"
  ty_remotes :: "string \<Rightarrow> remote"

section \<open>The tenant repository\<close>

definition seedTemplates :: "reader \<Rightarrow> writer \<Rightarrow> string \<Rightarrow> tenancy \<Rightarrow> tenancy" where
  "seedTemplates r w repoURL ty =
     (case rd_repos r repoURL of
        Inl _ \<Rightarrow> ty
      | Inr _ \<Rightarrow>
          (case WriteCommit w (ty_remotes ty repoURL) (rd_base r) ''dotvirt: seed starter templates'' SeedFiles of
             Inl _ \<Rightarrow> ty
           | Inr (_, rem) \<Rightarrow> ty\<lparr>ty_remotes := (ty_remotes ty)(repoURL := rem)\<rparr>))"

definition ensureTenantRepo :: "reader \<Rightarrow> writer \<Rightarrow> string \<Rightarrow> string \<Rightarrow> tenancy \<Rightarrow> (fault + string \<times> bool) \<times> tenancy" where
  "ensureTenantRepo r w platform_repo name ty =
     (let owner = OwnerPrefixURL platform_repo; repoURL = owner @ ''/'' @ name @ ''.git'' in
      if owner = platform_repo then
        (Inl (err_invalid (''cannot derive a repo URL from the platform repo '' @ go_quote platform_repo)), ty)
      else
        (case For (rd_forge r) repoURL of
           None \<Rightarrow> (Inl (err_invalid ''forge not configured; cannot create the project repo''), ty)
         | Some c \<Rightarrow>
             (case EnsureRepo c of
                Inl e \<Rightarrow> (Inl (wrap_fault ''create project repo'' e), ty)
              | Inr created \<Rightarrow>
                  (Inr (repoURL, created),
                   if created then seedTemplates r w repoURL (ty\<lparr>ty_created := snd c # ty_created ty\<rparr>) else ty))))"

definition tenantName :: "string \<Rightarrow> fault option" where
  "tenantName name =
     (case RequireDNS1123 ''project name'' name of
        Some e \<Rightarrow> Some (err_invalid e)
      | None \<Rightarrow> if name = PlatformName then Some (err_invalid (go_quote name @ '' is reserved for the platform tier'')) else None)"

section \<open>Staging the namespaces\<close>

definition role_entry :: "coordinator \<Rightarrow> namespace_spec \<Rightarrow> string list \<Rightarrow> string + pending" where
  "role_entry co spec owners =
     (case RoleBindingManifest \<lparr>rb_namespace = nsp_name spec, rb_project = nsp_project spec, rb_owners = owners, rb_role = ''''\<rparr> of
        Inl msg \<Rightarrow> Inl msg
      | Inr (path, tree) \<Rightarrow>
          Inr (blank_entry\<lparr>en_kind := KindCreate, en_resource := ''rolebinding'', en_namespace := nsp_name spec, en_name := nsp_name spec @ ''-admins'',
            en_source := path, en_manifest := co_marshal co tree\<rparr>))"

definition spec_steps :: "coordinator \<Rightarrow> string list \<Rightarrow> namespace_spec \<Rightarrow> (string + pending) list" where
  "spec_steps co owners spec =
     map_sum id (\<lambda>e. e\<lparr>en_kind := KindCreate\<rparr>) (namespace_entry co spec) # (if owners = [] then [] else [role_entry co spec owners])"

text \<open>Each step is rendered, then staged, until one fails.\<close>

fun stage_steps :: "store_io \<Rightarrow> nat \<Rightarrow> string \<Rightarrow> string \<Rightarrow> (string + pending) list \<Rightarrow> drafts \<Rightarrow> fault option \<times> drafts" where
  "stage_steps ios n user project [] st = (None, st)"
| "stage_steps ios n user project (Inl msg # steps) st = (Some (err_invalid msg), st)"
| "stage_steps ios n user project (Inr e # steps) st =
     (case Stage (ios n) user project e st of
        (False, st') \<Rightarrow> (Some (FInternal ''write draft''), st')
      | (True, st') \<Rightarrow> stage_steps ios (Suc n) user project steps st')"

definition stageProjectAdoption ::
  "coordinator \<Rightarrow> store_io \<Rightarrow> string \<Rightarrow> string \<Rightarrow> namespace_spec list \<Rightarrow> string list \<Rightarrow> drafts \<Rightarrow> fault option \<times> drafts" where
  "stageProjectAdoption co ios user project specs owners st = stage_steps ios 0 user project (concat (map (spec_steps co owners) specs)) st"

text \<open>The staging, then the draft as it reads; \<open>n\<close> bounds the store calls of the staging.\<close>

definition adopt_and_get ::
  "coordinator \<Rightarrow> store_io \<Rightarrow> string \<Rightarrow> project_info \<Rightarrow> namespace_spec list \<Rightarrow> string list \<Rightarrow> tenancy \<Rightarrow> (fault + draft_view) \<times> tenancy" where
  "adopt_and_get co ios user commit_proj specs owners ty =
     (case stageProjectAdoption co ios user (pi_name commit_proj) specs owners (ty_drafts ty) of
        (Some e, st) \<Rightarrow> (Inl e, ty\<lparr>ty_drafts := st\<rparr>)
      | (None, st) \<Rightarrow>
          (case Get co (ios (length (concat (map (spec_steps co owners) specs)))) user commit_proj st of
             (view, st') \<Rightarrow> (view, ty\<lparr>ty_drafts := st'\<rparr>)))"

section \<open>Creating a project\<close>

record project_spec =
  pc_name :: string
  pc_namespace :: string
  pc_owners :: "string list"
  pc_network :: "primary_net option"

text \<open>Its checks before anything is made: the namespace name and what the namespace already carries.\<close>

definition create_project_checks :: "project_info \<Rightarrow> string + project_spec \<Rightarrow> live_namespaces \<Rightarrow> fault + project_spec \<times> string \<times> live_namespace option" where
  "create_project_checks commit_proj decoded live =
     (case requireRepo commit_proj of Some e \<Rightarrow> Inl e | None \<Rightarrow>
      (case decoded of Inl msg \<Rightarrow> Inl (err_invalid (''invalid project spec: '' @ msg)) | Inr spec \<Rightarrow>
       (if pc_name spec = '''' then Inl (err_invalid ''a project name is required'')
        else
         (let ns = (if pc_namespace spec = '''' then pc_name spec else pc_namespace spec) in
          case tenantName (pc_name spec) of Some e \<Rightarrow> Inl e | None \<Rightarrow>
          (case RequireDNS1123 ''namespace name'' ns of Some e \<Rightarrow> Inl (err_invalid e) | None \<Rightarrow>
           (case live ns of Inl e \<Rightarrow> Inl e | Inr ln \<Rightarrow>
            (case primaryNetworkOnExisting ns ln (pc_network spec) of Some e \<Rightarrow> Inl e | None \<Rightarrow> Inr (spec, ns, ln))))))))"

definition reuse_warning :: "string \<Rightarrow> string" where
  "reuse_warning repoURL = ''Reusing the existing repo '' @ repoURL @ '': whatever it currently holds deploys once this project lands.''"

definition StageCreateProject ::
  "coordinator \<Rightarrow> writer \<Rightarrow> store_io \<Rightarrow> string \<Rightarrow> project_info \<Rightarrow> string + project_spec \<Rightarrow> live_namespaces \<Rightarrow> tenancy \<Rightarrow> (fault + draft_view) \<times> tenancy" where
  "StageCreateProject co w ios user commit_proj decoded live ty =
     (case create_project_checks commit_proj decoded live of Inl e \<Rightarrow> (Inl e, ty) | Inr (spec, ns, ln) \<Rightarrow>
      (case ensureTenantRepo (co_reader co) w (pi_repo commit_proj) (pc_name spec) ty of
         (Inl e, ty1) \<Rightarrow> (Inl e, ty1)
       | (Inr (repoURL, created), ty1) \<Rightarrow>
           (case adopt_and_get co ios user commit_proj
               [\<lparr>nsp_name = ns, nsp_project = pc_name spec, nsp_repo = PathRef repoURL, nsp_network = pc_network spec, nsp_live = ln\<rparr>]
               (pc_owners spec) ty1 of
              (Inl e, ty2) \<Rightarrow> (Inl e, ty2)
            | (Inr view, ty2) \<Rightarrow>
                (Inr (if created then view else view\<lparr>vw_warning := JoinWarning (vw_warning view) (reuse_warning repoURL)\<rparr>), ty2))))"

section \<open>Adopting a project\<close>

fun tenantNamespaces :: "project_info \<Rightarrow> string \<Rightarrow> live_namespaces \<Rightarrow> string list \<Rightarrow> fault + namespace_spec list" where
  "tenantNamespaces target repoURL live [] = Inr []"
| "tenantNamespaces target repoURL live (ns # rest) =
     (case live ns of Inl e \<Rightarrow> Inl e | Inr ln \<Rightarrow>
      map_sum id (Cons \<lparr>nsp_name = ns, nsp_project = pi_name target, nsp_repo = PathRef repoURL, nsp_network = None, nsp_live = ln\<rparr>)
        (tenantNamespaces target repoURL live rest))"

text \<open>\<open>Inr True\<close>: the repository is on this path of another host's URL, so only the annotation is staged (re-homing).\<close>

definition adopt_mode :: "reader \<Rightarrow> project_info \<Rightarrow> fault + bool" where
  "adopt_mode r target =
     (if pi_repo target = '''' then Inr False
      else
       (let held = err_conflict (''project '' @ go_quote (pi_name target) @ '' already has a repo ('' @ pi_repo target @ '')'') in
        case For (rd_forge r) (pi_repo target) of
          None \<Rightarrow> Inl held
        | Some c \<Rightarrow>
            (case RepoExists c of
               Inl e \<Rightarrow> Inl (wrap_fault ''check project repo'' e)
             | Inr there \<Rightarrow>
                 (if \<not> SameForge (rd_forge r) (pi_repo target) then
                    (if there then Inr True
                     else Inl (err_conflict (''project '' @ go_quote (pi_name target) @ [CHR 0x27] @ ''s repo ('' @ pi_repo target @ '') is hosted on another forge'')))
                  else if there then Inl held
                  else Inr False))))"

definition AdoptProject ::
  "coordinator \<Rightarrow> writer \<Rightarrow> store_io \<Rightarrow> string \<Rightarrow> project_info \<Rightarrow> project_info \<Rightarrow> string list \<Rightarrow> live_namespaces \<Rightarrow> tenancy \<Rightarrow> (fault + draft_view) \<times> tenancy" where
  "AdoptProject co w ios user commit_proj target owners live ty =
     (let stage = (\<lambda>repoURL ty. case tenantNamespaces target repoURL live (pi_namespaces target) of
                      Inl e \<Rightarrow> (Inl e, ty) | Inr specs \<Rightarrow> adopt_and_get co ios user commit_proj specs owners ty) in
      case requireRepo commit_proj of Some e \<Rightarrow> (Inl e, ty) | None \<Rightarrow>
      (case tenantName (pi_name target) of Some e \<Rightarrow> (Inl e, ty) | None \<Rightarrow>
       (if pi_namespaces target = [] then (Inl (err_invalid (''project '' @ go_quote (pi_name target) @ '' has no namespaces to adopt'')), ty)
        else
         (case adopt_mode (co_reader co) target of
            Inl e \<Rightarrow> (Inl e, ty)
          | Inr True \<Rightarrow> stage (pi_repo target) ty
          | Inr False \<Rightarrow>
              (case ensureTenantRepo (co_reader co) w (pi_repo commit_proj) (pi_name target) ty of
                 (Inl e, ty1) \<Rightarrow> (Inl e, ty1)
               | (Inr (repoURL, _), ty1) \<Rightarrow> stage repoURL ty1)))))"

section \<open>Releasing a project\<close>

definition namespace_path :: "string \<Rightarrow> string" where
  "namespace_path ns = ''namespaces/'' @ ns @ ''.yaml''"

text \<open>The entry that releases one namespace, or \<open>None\<close> when the branch does not declare it.\<close>

definition release_entry :: "coordinator \<Rightarrow> file_tree \<Rightarrow> string \<Rightarrow> fault + pending option" where
  "release_entry co t ns =
     (let path = namespace_path ns; r = co_reader co in
      case LookupFile t path of
        None \<Rightarrow> Inr None
      | Some content \<Rightarrow>
          (case DeclaredRefs (rd_docs r) path content of
             [ref] \<Rightarrow>
               (if or_kind ref \<noteq> ''Namespace'' then Inl (err_conflict (path @ '' declares more than the namespace '' @ ns))
                else
                 (case (case rd_tree r content of None \<Rightarrow> Inl ''declared namespace'' | Some v \<Rightarrow> ReleasedNamespaceManifest v) of
                    Inl msg \<Rightarrow> Inl (err_invalid msg)
                  | Inr v \<Rightarrow>
                      Inr (Some (blank_entry\<lparr>en_kind := KindCreate, en_resource := ''namespace'', en_namespace := ns, en_name := ns,
                        en_source := path, en_manifest := co_marshal co v\<rparr>))))
           | _ \<Rightarrow> Inl (err_conflict (path @ '' declares more than the namespace '' @ ns))))"

fun release_each ::
  "coordinator \<Rightarrow> store_io \<Rightarrow> nat \<Rightarrow> string \<Rightarrow> string \<Rightarrow> file_tree \<Rightarrow> string list \<Rightarrow> string list \<times> string list \<Rightarrow> drafts \<Rightarrow>
   (fault + string list \<times> string list) \<times> drafts" where
  "release_each co ios n user project t [] acc st = (Inr acc, st)"
| "release_each co ios n user project t (ns # rest) (released, residue) st =
     (case release_entry co t ns of
        Inl e \<Rightarrow> (Inl e, st)
      | Inr None \<Rightarrow> release_each co ios n user project t rest (released, residue @ [ns]) st
      | Inr (Some e) \<Rightarrow>
          (case Stage (ios n) user project e st of
             (False, st') \<Rightarrow> (Inl (FInternal ''write draft''), st')
           | (True, st') \<Rightarrow> release_each co ios (Suc n) user project t rest (released @ [ns], residue) st'))"

definition ReleaseDeclared ::
  "coordinator \<Rightarrow> store_io \<Rightarrow> string \<Rightarrow> project_info \<Rightarrow> project_info \<Rightarrow> drafts \<Rightarrow> (fault + string list \<times> string list) \<times> drafts" where
  "ReleaseDeclared co ios user commit_proj target st =
     (case read_repo (co_reader co) commit_proj of Inl e \<Rightarrow> (Inl e, st) | Inr m \<Rightarrow>
      (if pi_namespaces target = [] then (Inr ([], []), st)
       else
        (case base_tree (co_reader co) m of
           Inl e \<Rightarrow> (Inl e, st)
         | Inr t \<Rightarrow> release_each co ios 0 user (pi_name commit_proj) t (pi_namespaces target) ([], []) st)))"

end
