(* ===== verification/Draft_Props.thy ===== *)
theory Draft_Props
  imports Draft_Store
begin

text \<open>
  What the draft store promises: it is a map from (user, project) to a keyed set of entries that survives a
  restart, and its files are never half written, whatever call fails.
\<close>

section \<open>Drafts as maps\<close>

definition keyed :: "'e entry list \<Rightarrow> (string \<Rightarrow> 'e entry option)" where
  "keyed d = map_of (map (\<lambda>e. (Key e, e)) d)"

definition draft_ok :: "'e entry list \<Rightarrow> bool" where
  "draft_ok d = (distinct (map Key d) \<and> list_all (\<lambda>e. \<not> stale_create e) d)"

lemma keyed_Some: "distinct (map Key d) \<Longrightarrow> keyed d k = Some e \<longleftrightarrow> e \<in> set d \<and> Key e = k"
  by (auto simp: keyed_def image_iff comp_def)

lemma keyed_same:
  assumes "distinct (map Key d)" "distinct (map Key c)" "set d = set c"
  shows "keyed d = keyed c"
proof
  fix k
  show "keyed d k = keyed c k"
    using keyed_Some[OF assms(1), of k] keyed_Some[OF assms(2), of k] assms(3) by (cases "keyed d k"; cases "keyed c k") auto
qed

lemma keyed_del: "keyed (del_entry k d) = (keyed d)(k := None)"
  by (induction d) (auto simp: keyed_def del_entry_def)

lemma keyed_put: "keyed (put_entry e d) = (keyed d)(Key e \<mapsto> e)"
proof -
  have "keyed (put_entry e d) = (keyed (del_entry (Key e) d))(Key e \<mapsto> e)"
    by (simp add: keyed_def put_entry_def del_entry_def)
  then show ?thesis by (simp add: keyed_del)
qed

lemma keyed_Nil [simp]: "keyed [] = Map.empty"
  by (simp add: keyed_def)

lemma draft_ok_Nil [simp]: "draft_ok []"
  by (simp add: draft_ok_def)

lemma draft_ok_put: "draft_ok d \<Longrightarrow> \<not> stale_create e \<Longrightarrow> draft_ok (put_entry e d)"
  by (auto simp: draft_ok_def put_entry_def distinct_map_filter list_all_iff)

lemma draft_ok_del: "draft_ok d \<Longrightarrow> draft_ok (del_entry k d)"
  by (auto simp: draft_ok_def del_entry_def distinct_map_filter list_all_iff)

lemma draft_ok_fold: "draft_ok d \<Longrightarrow> draft_ok (foldl (\<lambda>d e. if stale_create e then d else put_entry e d) d xs)"
  by (induction xs arbitrary: d) (auto simp: draft_ok_put)

lemma draft_ok_entries_of: "draft_ok (entries_of xs)"
  by (simp add: entries_of_def draft_ok_fold)

lemma put_entry_fresh: "Key e \<notin> Key ` set d \<Longrightarrow> put_entry e d = e # d"
  by (auto simp: put_entry_def filter_id_conv image_iff)

lemma entries_of_fold:
  "distinct (map Key (rev xs @ d)) \<Longrightarrow> list_all (\<lambda>e. \<not> stale_create e) xs \<Longrightarrow>
   foldl (\<lambda>d e. if stale_create e then d else put_entry e d) d xs = rev xs @ d"
proof (induction xs arbitrary: d)
  case (Cons x xs)
  have "put_entry x d = x # d" using Cons.prems by (intro put_entry_fresh) auto
  with Cons show ?case by auto
qed simp

lemma entries_of_ok: "draft_ok d \<Longrightarrow> entries_of d = rev d"
  using entries_of_fold[of d "[]"] by (simp add: entries_of_def draft_ok_def rev_map[symmetric])

lemma sortedEntries_ok: "draft_ok d \<Longrightarrow> draft_ok (sortedEntries d)"
  by (simp add: draft_ok_def sortedEntries_def list_all_iff)

lemma keyed_sorted: "draft_ok d \<Longrightarrow> keyed (sortedEntries d) = keyed d"
  by (rule keyed_same) (auto simp: draft_ok_def sortedEntries_def)

text \<open>What is written is what is read back.\<close>

lemma keyed_reload: "draft_ok d \<Longrightarrow> keyed (entries_of (sortedEntries d)) = keyed d"
proof -
  assume d: "draft_ok d"
  have "keyed (rev (sortedEntries d)) = keyed d"
    using d by (intro keyed_same) (auto simp: draft_ok_def sortedEntries_def rev_map[symmetric])
  with d show ?thesis by (simp add: entries_of_ok sortedEntries_ok)
qed

lemma sortedEntries_strict: "draft_ok d \<Longrightarrow> sorted_wrt entry_less (sortedEntries d)"
proof -
  assume "draft_ok d"
  then have "sorted_wrt (\<lambda>a b. \<not> entry_less b a \<and> Key a \<noteq> Key b) (sortedEntries d)"
    using entry_order.go_sort_ordered[of d]
    by (auto simp: draft_ok_def sortedEntries_def sorted_wrt_iff_nth_less distinct_map_key nth_eq_iff_index_eq
        distinct_conv_nth[of "map Key (go_sort entry_less d)", simplified])
  then show ?thesis by (rule sorted_wrt_mono_rel[rotated]) (auto simp: entry_less_def)
qed

section \<open>Paths and keys of pairs\<close>

lemma draft_path_inj: "draft_path dir u p = draft_path dir v q \<Longrightarrow> u = v \<and> p = q"
proof -
  assume "draft_path dir u p = draft_path dir v q"
  then have eq: "(if safeSegment u = '''' then '''' else safeSegment u @ ''/'') @ safeSegment p =
      (if safeSegment v = '''' then '''' else safeSegment v @ ''/'') @ safeSegment q" by (simp add: draft_path_def)
  have cut: "a @ CHR ''/'' # b = c @ CHR ''/'' # d \<Longrightarrow> CHR ''/'' \<notin> set a \<Longrightarrow> CHR ''/'' \<notin> set c \<Longrightarrow> a = c \<and> b = d" for a b c d :: string
    by (induction a arbitrary: c) (auto simp: Cons_eq_append_conv append_eq_Cons_conv)
  have ns: "CHR ''/'' \<notin> set (safeSegment x)" for x by (rule safeSegment_no_slash)
  have one: "safeSegment u = '''' \<longleftrightarrow> safeSegment v = ''''"
  proof -
    have "CHR ''/'' \<in> set ((if safeSegment a = '''' then '''' else safeSegment a @ ''/'') @ safeSegment b) \<longleftrightarrow> safeSegment a \<noteq> ''''" for a b
      using ns by auto
    with eq show ?thesis by metis
  qed
  show ?thesis
  proof (cases "safeSegment u = ''''")
    case True
    with one eq have "safeSegment p = safeSegment q" "safeSegment u = safeSegment v" by auto
    then show ?thesis by (auto dest: safeSegment_inj)
  next
    case False
    with one eq have "safeSegment u @ CHR ''/'' # safeSegment p = safeSegment v @ CHR ''/'' # safeSegment q" by simp
    from cut[OF this ns ns] show ?thesis by (auto dest: safeSegment_inj)
  qed
qed

lemma draft_path_other: "(v, q) \<noteq> (u, p) \<Longrightarrow> draft_path dir v q \<noteq> draft_path dir u p"
  using draft_path_inj by blast

lemma draft_path_suffix: "draft_path dir v q \<noteq> draft_path dir u p @ ''.tmp''" "draft_path dir v q \<noteq> draft_path dir u p @ ''.corrupt''"
proof -
  have l: "last (draft_path dir v q) = CHR ''n''" by (simp add: draft_path_def)
  then show "draft_path dir v q \<noteq> draft_path dir u p @ ''.tmp''" by auto
  show "draft_path dir v q \<noteq> draft_path dir u p @ ''.corrupt''" using l by auto
qed

text \<open>A project is a namespace label value: no NUL byte in it.\<close>

definition nul_free :: "string \<Rightarrow> bool" where
  "nul_free s = list_all (\<lambda>c. c \<noteq> CHR 0x00) s"

lemma pairKey_inj: "nul_free p \<Longrightarrow> nul_free q \<Longrightarrow> pairKey u p = pairKey v q \<longleftrightarrow> u = v \<and> p = q"
proof -
  assume nf: "nul_free p" "nul_free q"
  have cut: "a @ z # b = c @ z # d \<Longrightarrow> z \<notin> set b \<Longrightarrow> z \<notin> set d \<Longrightarrow> a = c \<and> b = d" for a b c d and z :: char
    by (induction a arbitrary: c) (auto simp: Cons_eq_append_conv append_eq_Cons_conv)
  show ?thesis using nf cut[of u "CHR 0x00" p v q] by (auto simp: pairKey_def nul_free_def list_all_iff)
qed

section \<open>The contract of a keyed store\<close>

text \<open>
  A client of a store that holds one value per key: every operation keeps the store's invariant and changes the
  value at one key (or at none), so after any run the value at a key is what the operations on that key made.
\<close>

locale keyed_store =
  fixes ok :: "'op \<Rightarrow> bool"
    and good :: "'s \<Rightarrow> bool"
    and view :: "'s \<Rightarrow> 'k \<Rightarrow> 'v"
    and step :: "'op \<Rightarrow> 's \<Rightarrow> 's"
    and effect :: "'op \<Rightarrow> 'k \<Rightarrow> 'v \<Rightarrow> 'v"
    and key_ok :: "'k \<Rightarrow> bool"
  assumes step_good: "ok x \<Longrightarrow> good s \<Longrightarrow> good (step x s)"
    and step_view: "ok x \<Longrightarrow> good s \<Longrightarrow> key_ok k \<Longrightarrow> view (step x s) k = effect x k (view s k)"
begin

lemma run_good: "list_all ok xs \<Longrightarrow> good s \<Longrightarrow> good (fold step xs s)"
  by (induction xs arbitrary: s) (auto simp: step_good)

lemma run_view: "list_all ok xs \<Longrightarrow> good s \<Longrightarrow> key_ok k \<Longrightarrow> view (fold step xs s) k = fold (\<lambda>x. effect x k) xs (view s k)"
  by (induction xs arbitrary: s) (auto simp: step_good step_view)

end

section \<open>The store as a map of drafts\<close>

definition disk_entries :: "'e draft_file option \<Rightarrow> 'e entry list" where
  "disk_entries f = (case f of Some (Parsed xs) \<Rightarrow> entries_of xs | _ \<Rightarrow> [])"

definition pair_disk :: "'e draft_store \<Rightarrow> string \<Rightarrow> string \<Rightarrow> 'e entry list" where
  "pair_disk s u p = disk_entries (dr_disk s (draft_path (dr_dir s) u p))"

definition pair_draft :: "'e draft_store \<Rightarrow> string \<Rightarrow> string \<Rightarrow> 'e entry list" where
  "pair_draft s u p = (case dr_drafts s (pairKey u p) of Some d \<Rightarrow> d | None \<Rightarrow> pair_disk s u p)"

definition draft_view :: "'e draft_store \<Rightarrow> string \<times> string \<Rightarrow> (string \<Rightarrow> 'e entry option)" where
  "draft_view s k = keyed (pair_draft s (fst k) (snd k))"

text \<open>Every loaded draft is well formed, and what it holds is what its file holds.\<close>

definition loaded_ok :: "'e draft_store \<Rightarrow> bool" where
  "loaded_ok s = (\<forall>u p d. nul_free p \<longrightarrow> dr_drafts s (pairKey u p) = Some d \<longrightarrow> draft_ok d)"

definition draft_good :: "'e draft_store \<Rightarrow> bool" where
  "draft_good s = (loaded_ok s \<and>
     (\<forall>u p d. nul_free p \<longrightarrow> dr_drafts s (pairKey u p) = Some d \<longrightarrow> keyed d = keyed (pair_disk s u p)))"

definition io_ok :: "'e io \<Rightarrow> bool" where
  "io_ok i = (io_read i \<and> io_quarantine i \<and> io_remove i \<and> io_mkdir i \<and> io_write i \<and> io_rename i)"

lemma draft_ok_disk: "draft_ok (disk_entries f)"
  by (simp add: disk_entries_def draft_ok_entries_of split: option.split draft_file.split)

lemma draft_ok_pair: "loaded_ok s \<Longrightarrow> nul_free p \<Longrightarrow> draft_ok (pair_draft s u p)"
  by (auto simp: pair_draft_def pair_disk_def loaded_ok_def draft_ok_disk split: option.split)

lemma draft_good_loaded: "draft_good s \<Longrightarrow> loaded_ok s"
  by (simp add: draft_good_def)

lemma draft_good_view: "draft_good s \<Longrightarrow> nul_free p \<Longrightarrow> draft_view s (u, p) = keyed (pair_disk s u p)"
  by (auto simp: draft_good_def draft_view_def pair_draft_def split: option.split)

text \<open>Loading: the draft it returns is the pair's, and no other pair's memory or file is touched.\<close>

lemma load_result:
  assumes "loadLocked i u p s = (Inr d, s1)"
  shows "d = pair_draft s u p" "dr_dir s1 = dr_dir s" "dr_drafts s1 = (dr_drafts s)(pairKey u p \<mapsto> d)"
    "dr_disk s1 = dr_disk s \<or> (dr_disk s (draft_path (dr_dir s) u p) = Some Garbage \<and>
       dr_disk s1 = (dr_disk s)(draft_path (dr_dir s) u p := None, draft_path (dr_dir s) u p @ ''.corrupt'' \<mapsto> Garbage))"
  using assms
  by (auto simp: loadLocked_def pair_draft_def pair_disk_def disk_entries_def remember_def Let_def fun_upd_idem_iff
      split: option.splits if_splits draft_file.splits)

lemma load_failed: "loadLocked i u p s = (Inl e, s1) \<Longrightarrow> s1 = s \<and> \<not> (io_read i \<and> io_quarantine i)"
  by (auto simp: loadLocked_def Let_def split: option.splits if_splits draft_file.splits)

lemma persist_result:
  assumes "persistLocked i u p d s = (b, s1)"
  shows "dr_dir s1 = dr_dir s" "dr_drafts s1 = dr_drafts s"
    "dr_disk s1 (draft_path (dr_dir s) u p) = (if b then (if d = [] then None else Some (Parsed (sortedEntries d)))
       else dr_disk s (draft_path (dr_dir s) u p))"
    "q \<noteq> draft_path (dr_dir s) u p \<Longrightarrow> q \<noteq> draft_path (dr_dir s) u p @ ''.tmp'' \<Longrightarrow> dr_disk s1 q = dr_disk s q"
  using assms by (auto simp: persistLocked_def Let_def split: if_splits)

lemma persist_io_ok: "io_ok i \<Longrightarrow> fst (persistLocked i u p d s)"
  by (auto simp: persistLocked_def Let_def io_ok_def)

lemma entries_written: "draft_ok d \<Longrightarrow> keyed (disk_entries (if d = [] then None else Some (Parsed (sortedEntries d)))) = keyed d"
  by (simp add: disk_entries_def keyed_reload)


section \<open>What one operation does\<close>

definition written :: "'e entry list \<Rightarrow> 'e draft_file option" where
  "written d = (if d = [] then None else Some (Parsed (sortedEntries d)))"

lemma change_result:
  assumes run: "change_draft f i u p s = (b, s1)"
  shows change_dir: "dr_dir s1 = dr_dir s"
    and change_other_key: "k \<noteq> pairKey u p \<Longrightarrow> dr_drafts s1 k = dr_drafts s k"
    and change_other_file: "(v, q) \<noteq> (u, p) \<Longrightarrow> dr_disk s1 (draft_path (dr_dir s) v q) = dr_disk s (draft_path (dr_dir s) v q)"
    and change_done: "b \<Longrightarrow> dr_drafts s1 (pairKey u p) = Some (f (pair_draft s u p)) \<and>
      dr_disk s1 (draft_path (dr_dir s) u p) = written (f (pair_draft s u p))"
    and change_failed: "\<not> b \<Longrightarrow> dr_disk s1 (draft_path (dr_dir s) u p) = dr_disk s (draft_path (dr_dir s) u p) \<or>
      (dr_disk s (draft_path (dr_dir s) u p) = Some Garbage \<and> dr_disk s1 (draft_path (dr_dir s) u p) = None)"
    and change_memory: "dr_drafts s1 = dr_drafts s \<or> dr_drafts s1 (pairKey u p) = Some (f (pair_draft s u p))"
    and change_io_ok: "io_ok i \<Longrightarrow> b"
proof -
  have all: "dr_dir s1 = dr_dir s \<and> (k \<noteq> pairKey u p \<longrightarrow> dr_drafts s1 k = dr_drafts s k) \<and>
     ((v, q) \<noteq> (u, p) \<longrightarrow> dr_disk s1 (draft_path (dr_dir s) v q) = dr_disk s (draft_path (dr_dir s) v q)) \<and>
     (b \<longrightarrow> dr_drafts s1 (pairKey u p) = Some (f (pair_draft s u p)) \<and>
        dr_disk s1 (draft_path (dr_dir s) u p) = written (f (pair_draft s u p))) \<and>
     (\<not> b \<longrightarrow> dr_disk s1 (draft_path (dr_dir s) u p) = dr_disk s (draft_path (dr_dir s) u p) \<or>
        (dr_disk s (draft_path (dr_dir s) u p) = Some Garbage \<and> dr_disk s1 (draft_path (dr_dir s) u p) = None)) \<and>
     (dr_drafts s1 = dr_drafts s \<or> dr_drafts s1 (pairKey u p) = Some (f (pair_draft s u p))) \<and> (io_ok i \<longrightarrow> b)" for k v q
  proof (cases "loadLocked i u p s")
    case (Pair r s0)
    show ?thesis
    proof (cases r)
      case (Inl e)
      with Pair run have "s1 = s0" "\<not> b" by (auto simp: change_draft_def)
      with load_failed[of i u p s e s0] Pair Inl show ?thesis by (auto simp: io_ok_def)
    next
      case (Inr d)
      note l = load_result[OF Pair[unfolded Inr]]
      from run Pair Inr have pers: "persistLocked i u p (f d) (remember u p (f d) s0) = (b, s1)" by (simp add: change_draft_def)
      note r = persist_result[OF pers]
      have dir: "dr_dir (remember u p (f d) s0) = dr_dir s" using l(2) by (simp add: remember_def)
      have "io_ok i \<Longrightarrow> b" using persist_io_ok[of i u p "f d" "remember u p (f d) s0"] pers by simp
      moreover have "(v, q) \<noteq> (u, p) \<Longrightarrow> dr_disk s1 (draft_path (dr_dir s) v q) = dr_disk s (draft_path (dr_dir s) v q)"
        using r(4)[of "draft_path (dr_dir s) v q"] l(4) draft_path_other[of v q u p "dr_dir s"] draft_path_suffix[of "dr_dir s" v q u p]
        unfolding dir by (auto simp: remember_def)
      ultimately show ?thesis
        using r(1-3) l dir unfolding written_def remember_def by (auto simp: draft_path_suffix)
    qed
  qed
  show "dr_dir s1 = dr_dir s" "k \<noteq> pairKey u p \<Longrightarrow> dr_drafts s1 k = dr_drafts s k"
    "(v, q) \<noteq> (u, p) \<Longrightarrow> dr_disk s1 (draft_path (dr_dir s) v q) = dr_disk s (draft_path (dr_dir s) v q)"
    "b \<Longrightarrow> dr_drafts s1 (pairKey u p) = Some (f (pair_draft s u p)) \<and>
      dr_disk s1 (draft_path (dr_dir s) u p) = written (f (pair_draft s u p))"
    "\<not> b \<Longrightarrow> dr_disk s1 (draft_path (dr_dir s) u p) = dr_disk s (draft_path (dr_dir s) u p) \<or>
      (dr_disk s (draft_path (dr_dir s) u p) = Some Garbage \<and> dr_disk s1 (draft_path (dr_dir s) u p) = None)"
    "dr_drafts s1 = dr_drafts s \<or> dr_drafts s1 (pairKey u p) = Some (f (pair_draft s u p))" "io_ok i \<Longrightarrow> b"
    using all by blast+
qed

lemma pair_disk_other:
  assumes "dr_dir s1 = dr_dir s" "dr_disk s1 (draft_path (dr_dir s) v q) = dr_disk s (draft_path (dr_dir s) v q)"
  shows "pair_disk s1 v q = pair_disk s v q"
  using assms by (simp add: pair_disk_def)

lemma change_good:
  assumes run: "change_draft f i u p s = (b, s1)" and io: "io_ok i" and good: "draft_good s" and nf: "nul_free p"
    and f: "draft_ok (f (pair_draft s u p))"
  shows "draft_good s1" and "nul_free q \<Longrightarrow> draft_view s1 (v, q) =
    (if (v, q) = (u, p) then keyed (f (pair_draft s u p)) else draft_view s (v, q))"
proof -
  note r = change_result[OF run]
  have b: "b" by (rule r(7)[OF io])
  have mine: "keyed (pair_disk s1 u p) = keyed (f (pair_draft s u p))"
    using r(4)[OF b] r(1) entries_written[OF f] by (simp add: pair_disk_def written_def)
  have other: "pair_disk s1 v q = pair_disk s v q" if "(v, q) \<noteq> (u, p)" for v q
    by (rule pair_disk_other[OF r(1) r(3)[OF that]])
  have mem: "nul_free q \<Longrightarrow> dr_drafts s1 (pairKey v q) = (if (v, q) = (u, p) then Some (f (pair_draft s u p)) else dr_drafts s (pairKey v q))" for v q
    using r(2)[of "pairKey v q"] r(4)[OF b] pairKey_inj[of q p v u] nf by auto
  show "draft_good s1"
    using good f mine other mem unfolding draft_good_def loaded_ok_def by (auto split: if_splits)
  then show "nul_free q \<Longrightarrow> draft_view s1 (v, q) =
    (if (v, q) = (u, p) then keyed (f (pair_draft s u p)) else draft_view s (v, q))"
    using draft_good_view[of s1 q v] draft_good_view[OF good, of q v] other[of v q] mine by auto
qed


lemma clear_good:
  assumes io: "io_ok i" and good: "draft_good s" and nf: "nul_free p"
  shows "draft_good (snd (Clear i u p s))" and "nul_free q \<Longrightarrow> draft_view (snd (Clear i u p s)) (v, q) =
    (if (v, q) = (u, p) then Map.empty else draft_view s (v, q))"
proof -
  obtain b s1 where run: "Clear i u p s = (b, s1)" by (cases "Clear i u p s")
  note r = persist_result[OF run[unfolded Clear_def]]
  have b: "b" using persist_io_ok[OF io, of u p "[]"] run unfolding Clear_def by (metis fst_conv)
  have mine: "pair_disk s1 u p = []"
    using r(1,3) b by (simp add: pair_disk_def disk_entries_def)
  have other: "pair_disk s1 v q = pair_disk s v q" if "(v, q) \<noteq> (u, p)" for v q
    using r(1) r(4)[of "draft_path (dr_dir s) v q"] draft_path_other[OF that, of "dr_dir s"] draft_path_suffix(1)[of "dr_dir s" v q u p]
    by (intro pair_disk_other) auto
  have mem: "nul_free q \<Longrightarrow> dr_drafts s1 (pairKey v q) = (if (v, q) = (u, p) then None else dr_drafts s (pairKey v q))" for v q
    using r(2) pairKey_inj[of q p v u] nf by auto
  have g: "draft_good s1"
    using good other mem unfolding draft_good_def loaded_ok_def by (auto split: if_splits)
  then show "draft_good (snd (Clear i u p s))" using run by simp
  show "nul_free q \<Longrightarrow> draft_view (snd (Clear i u p s)) (v, q) =
    (if (v, q) = (u, p) then Map.empty else draft_view s (v, q))"
    using draft_good_view[OF g, of q v] draft_good_view[OF good, of q v] other[of v q] mine run by auto
qed

lemma list_result:
  assumes io: "io_ok i" and good: "draft_good s" and nf: "nul_free p"
  shows "fst (draft_list i u p s) = Inr (sortedEntries (pair_draft s u p))"
    and "draft_good (snd (draft_list i u p s))"
    and "nul_free q \<Longrightarrow> draft_view (snd (draft_list i u p s)) (v, q) = draft_view s (v, q)"
proof -
  obtain r s1 where run: "loadLocked i u p s = (r, s1)" by (cases "loadLocked i u p s")
  then obtain d where r: "r = Inr d" using load_failed[of i u p s _ s1] io by (cases r) (auto simp: io_ok_def)
  note l = load_result[OF run[unfolded r]]
  have s1: "snd (draft_list i u p s) = s1" using run r by (simp add: draft_list_def)
  show "fst (draft_list i u p s) = Inr (sortedEntries (pair_draft s u p))" using run r l(1) by (simp add: draft_list_def)
  have disk: "pair_disk s1 v q = pair_disk s v q" for v q
    using l(2,4) draft_path_other[of v q u p "dr_dir s"] draft_path_suffix(2)[of "dr_dir s" v q u p]
    by (cases "(v, q) = (u, p)") (auto simp: pair_disk_def disk_entries_def)
  have mem: "nul_free q \<Longrightarrow> dr_drafts s1 (pairKey v q) = (if (v, q) = (u, p) then Some d else dr_drafts s (pairKey v q))" for v q
    using l(3) pairKey_inj[of q p v u] nf by auto
  have "draft_ok d" "keyed d = keyed (pair_disk s u p)"
    using draft_ok_pair[OF draft_good_loaded[OF good] nf, of u] draft_good_view[OF good nf, of u] l(1) by (auto simp: draft_view_def)
  then have g: "draft_good s1"
    using good disk mem unfolding draft_good_def loaded_ok_def by (auto split: if_splits)
  then show "draft_good (snd (draft_list i u p s))" using s1 by simp
  show "nul_free q \<Longrightarrow> draft_view (snd (draft_list i u p s)) (v, q) = draft_view s (v, q)"
    using draft_good_view[OF g, of q v] draft_good_view[OF good, of q v] disk[of v q] s1 by auto
qed

lemma open_good: "draft_good (Open dir disk)"
  by (simp add: draft_good_def loaded_ok_def Open_def)

lemma reopen_view: "draft_good s \<Longrightarrow> nul_free q \<Longrightarrow> draft_view (Open (dr_dir s) (dr_disk s)) (v, q) = draft_view s (v, q)"
  by (simp add: draft_good_view open_good) (simp add: Open_def pair_disk_def)

section \<open>The refinement\<close>

datatype 'e draft_op =
    DStage string string "'e entry"
  | DUnstage string string string string string
  | DClear string string
  | DList string string
  | DRestart

definition draft_step :: "'e io \<Rightarrow> 'e draft_op \<Rightarrow> 'e draft_store \<Rightarrow> 'e draft_store" where
  "draft_step i x s = (case x of
       DStage u p e \<Rightarrow> snd (Stage i u p e s)
     | DUnstage u p rsc ns n \<Rightarrow> snd (Unstage i u p rsc ns n s)
     | DClear u p \<Rightarrow> snd (Clear i u p s)
     | DList u p \<Rightarrow> snd (draft_list i u p s)
     | DRestart \<Rightarrow> Open (dr_dir s) (dr_disk s))"

definition op_ok :: "'e draft_op \<Rightarrow> bool" where
  "op_ok x = (case x of
       DStage u p e \<Rightarrow> nul_free p \<and> \<not> stale_create e
     | DUnstage u p rsc ns n \<Rightarrow> nul_free p
     | DClear u p \<Rightarrow> nul_free p
     | DList u p \<Rightarrow> nul_free p
     | DRestart \<Rightarrow> True)"

text \<open>The abstract store: what an operation does to the entries of one user and project.\<close>

definition draft_effect :: "'e draft_op \<Rightarrow> string \<times> string \<Rightarrow> (string \<Rightarrow> 'e entry option) \<Rightarrow> (string \<Rightarrow> 'e entry option)" where
  "draft_effect x k m = (case x of
       DStage u p e \<Rightarrow> (if k = (u, p) then m(Key e \<mapsto> e) else m)
     | DUnstage u p rsc ns n \<Rightarrow> (if k = (u, p) then m(key_of rsc ns n := None) else m)
     | DClear u p \<Rightarrow> (if k = (u, p) then Map.empty else m)
     | DList u p \<Rightarrow> m
     | DRestart \<Rightarrow> m)"

lemma draft_step_ok:
  assumes io: "io_ok i" and ok: "op_ok x" and good: "draft_good s"
  shows "draft_good (draft_step i x s) \<and> (nul_free (snd k) \<longrightarrow> draft_view (draft_step i x s) k = draft_effect x k (draft_view s k))"
proof (cases k)
  case k: (Pair v q)
  show ?thesis
  proof (cases x)
    case (DStage u p e)
    with ok have nf: "nul_free p" and st: "\<not> stale_create e" by (auto simp: op_ok_def)
    obtain b s1 where run: "change_draft (put_entry e) i u p s = (b, s1)" by (cases "change_draft (put_entry e) i u p s")
    have "draft_ok (put_entry e (pair_draft s u p))" using draft_ok_pair[OF draft_good_loaded[OF good] nf] st by (rule draft_ok_put)
    from change_good[OF run io good nf this] run DStage k show ?thesis
      by (auto simp: draft_step_def Stage_def draft_effect_def keyed_put draft_view_def)
  next
    case (DUnstage u p rsc ns n)
    with ok have nf: "nul_free p" by (auto simp: op_ok_def)
    let ?f = "del_entry (key_of rsc ns n)"
    obtain b s1 where run: "change_draft ?f i u p s = (b, s1)" by (cases "change_draft ?f i u p s")
    have "draft_ok (?f (pair_draft s u p))" using draft_ok_pair[OF draft_good_loaded[OF good] nf] by (rule draft_ok_del)
    from change_good[OF run io good nf this] run DUnstage k show ?thesis
      by (auto simp: draft_step_def Unstage_def draft_effect_def keyed_del draft_view_def)
  next
    case (DClear u p)
    with ok have nf: "nul_free p" by (auto simp: op_ok_def)
    from clear_good[OF io good nf] DClear k show ?thesis by (auto simp: draft_step_def draft_effect_def)
  next
    case (DList u p)
    with ok have nf: "nul_free p" by (auto simp: op_ok_def)
    from list_result[OF io good nf] DList k show ?thesis by (auto simp: draft_step_def draft_effect_def)
  next
    case DRestart
    with k good reopen_view[OF good] show ?thesis by (auto simp: draft_step_def draft_effect_def open_good)
  qed
qed

definition all_calls_succeed :: "'e io" where
  "all_calls_succeed = \<lparr>io_read = True, io_quarantine = True, io_remove = True, io_mkdir = True, io_write = True,
     io_rename = True, io_partial = None\<rparr>"

lemma all_calls_succeed_ok: "io_ok all_calls_succeed"
  by (simp add: io_ok_def all_calls_succeed_def)

text \<open>Operations whose calls all succeed do not depend on what a failing write would leave.\<close>

lemma load_io_ok: "io_ok i \<Longrightarrow> loadLocked i = loadLocked all_calls_succeed"
  by (intro ext) (simp add: loadLocked_def Let_def io_ok_def all_calls_succeed_def split: option.split draft_file.split)

lemma persist_same: "io_ok i \<Longrightarrow> persistLocked i = persistLocked all_calls_succeed"
  by (intro ext) (simp add: persistLocked_def Let_def io_ok_def all_calls_succeed_def)

lemma draft_step_io_ok:
  assumes "io_ok i"
  shows "draft_step i = draft_step all_calls_succeed"
  unfolding draft_step_def Stage_def Unstage_def Clear_def draft_list_def change_draft_def load_io_ok[OF assms] persist_same[OF assms] ..

interpretation drafts: keyed_store op_ok draft_good draft_view "draft_step all_calls_succeed" draft_effect "\<lambda>k. nul_free (snd k)"
  using draft_step_ok[OF all_calls_succeed_ok] by unfold_locales auto

lemma open_view: "draft_view (Open dir disk) (u, p) = keyed (disk_entries (disk (draft_path dir u p)))"
  by (simp add: draft_view_def Open_def pair_draft_def pair_disk_def)

text \<open>C39: While every system call succeeds, the draft store is a map from user and project to keyed entries. Whatever the disk held when the
  backend started, after any sequence of stages, unstages, clears, listings and restarts (an empty memory over the same disk) that stages no
  create without a manifest and names projects without NUL bytes, listing a pair returns exactly the entries that the operations on that pair
  make of the ones its file held, strictly ordered by key: another pair's operations change nothing, a staged entry replaces the one of its key,
  and a restart loses nothing. (A create without a manifest is a leftover that loading drops, so a file's own ones are not among its entries;
  what failing calls do is the subject of \<open>stage_atomic\<close>.)\<close>
theorem draft_store_refines:
  assumes ops: "list_all op_ok xs" and p: "nul_free p" and io: "io_ok i"
  shows "case draft_list i u p (fold (draft_step i) xs (Open dir disk)) of
      (Inl e, s) \<Rightarrow> False
    | (Inr es, s) \<Rightarrow> keyed es = fold (\<lambda>x. draft_effect x (u, p)) xs (keyed (disk_entries (disk (draft_path dir u p)))) \<and> sorted_wrt entry_less es"
proof -
  let ?s = "fold (draft_step i) xs (Open dir disk)"
  have same: "draft_step i = draft_step all_calls_succeed" by (rule draft_step_io_ok[OF io])
  have good: "draft_good ?s" unfolding same by (rule drafts.run_good[OF ops open_good])
  have d: "draft_ok (pair_draft ?s u p)" by (rule draft_ok_pair[OF draft_good_loaded[OF good] p])
  have "draft_view ?s (u, p) = fold (\<lambda>x. draft_effect x (u, p)) xs (draft_view (Open dir disk) (u, p))"
    unfolding same by (rule drafts.run_view[OF ops open_good]) (simp add: p)
  then have "keyed (sortedEntries (pair_draft ?s u p)) = fold (\<lambda>x. draft_effect x (u, p)) xs (keyed (disk_entries (disk (draft_path dir u p))))"
    by (simp add: keyed_sorted[OF d] draft_view_def open_view[unfolded draft_view_def fst_conv snd_conv])
  with list_result(1)[OF io good p, of u] sortedEntries_strict[OF d] show ?thesis
    by (auto split: prod.split sum.split)
qed

text \<open>C40: A draft file is replaced as a whole or not at all, whatever calls fail. A successful \<open>Stage\<close> leaves the
  pair's file holding the old entries with the staged one in place; a failed one leaves the file as it was, except
  that a file nothing could parse may have been moved away; and no other pair's file changes either way.\<close>
theorem stage_atomic:
  assumes run: "Stage i u p e s = (b, s1)" and mem: "loaded_ok s" and p: "nul_free p" and e: "\<not> stale_create e"
  shows "(if b then keyed (pair_disk s1 u p) = (draft_view s (u, p))(Key e \<mapsto> e)
      else pair_disk s1 u p = pair_disk s u p \<and>
        dr_disk s1 (draft_path (dr_dir s) u p) \<in> {dr_disk s (draft_path (dr_dir s) u p), None}) \<and>
    ((v, q) \<noteq> (u, p) \<longrightarrow> dr_disk s1 (draft_path (dr_dir s) v q) = dr_disk s (draft_path (dr_dir s) v q))"
proof -
  note run' = run[unfolded Stage_def]
  have ok: "draft_ok (put_entry e (pair_draft s u p))" by (rule draft_ok_put[OF draft_ok_pair[OF mem p] e])
  have "b \<Longrightarrow> keyed (pair_disk s1 u p) = (draft_view s (u, p))(Key e \<mapsto> e)"
    using change_done[OF run'] change_dir[OF run'] entries_written[OF ok]
    by (simp add: pair_disk_def written_def draft_view_def keyed_put)
  moreover have "\<not> b \<Longrightarrow> pair_disk s1 u p = pair_disk s u p \<and>
        dr_disk s1 (draft_path (dr_dir s) u p) \<in> {dr_disk s (draft_path (dr_dir s) u p), None}"
    using change_failed[OF run'] change_dir[OF run'] by (auto simp: pair_disk_def disk_entries_def)
  ultimately show ?thesis using change_other_file[OF run', of v q] by auto
qed


text \<open>
  A concrete run: alice stages two entries, mallory stages in another project, the backend restarts, alice
  unstages the first one.
\<close>

definition sample_entry :: "string \<Rightarrow> string \<Rightarrow> unit entry" where
  "sample_entry n m = \<lparr>en_kind = KindCreate, en_resource = ''vm'', en_namespace = ''web'', en_name = n, en_source = ''vm.yaml'',
     en_edit = None, en_manifest = m, en_from_wizard = True, en_from_template = '''', en_from_version = ''''\<rparr>"

definition sample_ops :: "unit draft_op list" where
  "sample_ops = [DStage ''alice'' ''web'' (sample_entry ''a'' ''x''), DStage ''mallory'' ''db'' (sample_entry ''a'' ''z''),
     DStage ''alice'' ''web'' (sample_entry ''b'' ''y''), DRestart, DUnstage ''alice'' ''web'' ''vm'' ''web'' ''a'']"

lemma sample_ops_ok: "list_all op_ok sample_ops" "nul_free ''web''"
  by code_simp+

definition sample_disk :: "string \<Rightarrow> unit draft_file option" where
  "sample_disk = [draft_path ''d'' ''alice'' ''web'' \<mapsto> Parsed [sample_entry ''c'' ''w'', sample_entry ''d'' '''']]"

theorem draft_store_refines_witness:
  "case draft_list all_calls_succeed ''alice'' ''web'' (fold (draft_step all_calls_succeed) sample_ops (Open ''d'' sample_disk)) of
      (Inl e, s) \<Rightarrow> False
    | (Inr es, s) \<Rightarrow> keyed es = [''web/b'' \<mapsto> sample_entry ''b'' ''y'', ''web/c'' \<mapsto> sample_entry ''c'' ''w''] \<and> sorted_wrt entry_less es"
proof -
  have e1: "keyed (disk_entries (sample_disk (draft_path ''d'' ''alice'' ''web''))) = [''web/c'' \<mapsto> sample_entry ''c'' ''w'']"
    by (simp add: sample_disk_def disk_entries_def entries_of_def stale_create_def sample_entry_def put_entry_def keyed_def Key_def key_of_def)
  have e2: "fold (\<lambda>x. draft_effect x (''alice'', ''web'')) sample_ops [''web/c'' \<mapsto> sample_entry ''c'' ''w''] =
      [''web/b'' \<mapsto> sample_entry ''b'' ''y'', ''web/c'' \<mapsto> sample_entry ''c'' ''w'']"
    by (simp add: sample_ops_def draft_effect_def sample_entry_def Key_def key_of_def fun_eq_iff)
  show ?thesis
    using draft_store_refines[OF sample_ops_ok all_calls_succeed_ok, where u = "''alice''" and dir = "''d''" and disk = sample_disk] unfolding e1 e2 .
qed

lemma open_loaded: "loaded_ok (Open dir disk)"
  by (simp add: loaded_ok_def Open_def)

lemma sample_not_stale: "\<not> stale_create (sample_entry ''a'' ''x'')"
  by code_simp

theorem stage_atomic_witness:
  "let s = Open ''d'' Map.empty; r = Stage all_calls_succeed ''alice'' ''web'' (sample_entry ''a'' ''x'') s; s1 = snd r in
   (if fst r then keyed (pair_disk s1 ''alice'' ''web'') = (draft_view s (''alice'', ''web''))(Key (sample_entry ''a'' ''x'') \<mapsto> sample_entry ''a'' ''x'')
      else pair_disk s1 ''alice'' ''web'' = pair_disk s ''alice'' ''web'' \<and>
        dr_disk s1 (draft_path ''d'' ''alice'' ''web'') \<in> {dr_disk s (draft_path ''d'' ''alice'' ''web''), None})"
proof -
  have dir: "dr_dir (Open ''d'' Map.empty) = ''d''" by (simp add: Open_def)
  show ?thesis
    unfolding Let_def using stage_atomic[THEN conjunct1, OF prod.collapse[symmetric] open_loaded[of "''d''" Map.empty] sample_ops_ok(2) sample_not_stale]
    by (simp only: dir)
qed

end
