(* ===== verification/Changeset_Propose.thy ===== *)
theory Changeset_Propose
  imports Changeset_Adopt Changeset_History Draft_Props
begin

text \<open>
  \<open>internal/changeset\<close>, proposing: a draft becomes a branch and a pull request (\<open>propose.go\<close>), and a past commit is undone
  the same way (\<open>revert.go\<close>). The project's repository is a \<open>remote\<close>; \<open>meanwhile\<close> is what other requests do to the draft
  store between the listing of the draft and its clearing.
\<close>

section \<open>The pull request\<close>

record propose_result =
  pz_branch :: string
  pz_url :: string
  pz_number :: int
  pz_compare :: string
  pz_existing :: bool

definition pushed_result :: "string \<Rightarrow> propose_result" where
  "pushed_result branch = \<lparr>pz_branch = branch, pz_url = '''', pz_number = 0, pz_compare = '''', pz_existing = False\<rparr>"

definition with_pull :: "pull \<Rightarrow> bool \<Rightarrow> propose_result \<Rightarrow> propose_result" where
  "with_pull pr existing res' = res'\<lparr>pz_url := pl_url pr, pz_number := pl_number pr, pz_existing := existing\<rparr>"

definition create_pull :: "reader \<Rightarrow> forge_svc \<times> owner_repo \<Rightarrow> propose_result \<Rightarrow> string \<Rightarrow> string \<Rightarrow> string \<Rightarrow> propose_result \<times> bool" where
  "create_pull r c out branch title body =
     (case fo_create (fst c) (snd c) title body branch (rd_base r) of
        Inl _ \<Rightarrow> (out\<lparr>pz_compare := CompareURL c branch (rd_base r)\<rparr>, False)
      | Inr pr \<Rightarrow> (out\<lparr>pz_url := pl_url pr, pz_number := pl_number pr\<rparr>, True))"

definition openOrRecoverPR :: "reader \<Rightarrow> forge_svc \<times> owner_repo \<Rightarrow> propose_result \<Rightarrow> string \<Rightarrow> string \<Rightarrow> string \<Rightarrow> propose_result \<times> bool" where
  "openOrRecoverPR r c out branch title body =
     (case FindPR c branch (rd_base r) of
        Inr (Some found) \<Rightarrow>
          (if pl_state found = ''open'' then (with_pull found True out, True)
           else if \<not> pl_merged found then
             (case fo_reopen (fst c) (snd c) (pl_number found) of
                Inr reopened \<Rightarrow> (with_pull reopened True out, True)
              | Inl _ \<Rightarrow> create_pull r c out branch title body)
           else create_pull r c out branch title body)
      | _ \<Rightarrow> create_pull r c out branch title body)"

definition author_of :: "string \<Rightarrow> author" where
  "author_of user = \<lparr>au_name = user, au_email = authorEmail user\<rparr>"

section \<open>Proposing a draft\<close>

definition proposal_title :: "string \<Rightarrow> fault + draft_view \<Rightarrow> nat \<Rightarrow> string" where
  "proposal_title title view n =
     (let t = (if title = '''' then (case view of Inr v \<Rightarrow> defaultTitle (vw_items v) | Inl _ \<Rightarrow> '''') else title) in
      if t = '''' then ''dotvirt: '' @ nat_to_dec n @ '' change(s)'' else t)"

definition proposal_body :: "string \<Rightarrow> string \<Rightarrow> fault + draft_view \<Rightarrow> string" where
  "proposal_body user message view =
     (case view of Inr v \<Rightarrow> prBody (vw_items v) (vw_warning v) message user | Inl _ \<Rightarrow> message)"

definition commit_message :: "string \<Rightarrow> string \<Rightarrow> string" where
  "commit_message title message = (if message = '''' then title else title @ newline @ newline @ message)"

text \<open>What the push and the forge answered: a failure, nothing to commit, or the result and whether the draft is done with.\<close>

datatype push_outcome = PushFailed fault | AlreadyInGit | Pushed propose_result bool remote

definition propose_push ::
  "coordinator \<Rightarrow> writer \<Rightarrow> string \<Rightarrow> project_info \<Rightarrow> string \<Rightarrow> string \<Rightarrow> pending list \<Rightarrow> fault + draft_view \<Rightarrow> remote \<Rightarrow> push_outcome" where
  "propose_push co w user proj title message entries view rem =
     (let r = co_reader co;
          body = proposal_body user message view;
          t = proposal_title title view (length entries);
          branch = proposedBranch (rd_sha r) (rd_proposed r) user (pi_name proj) in
      case CommitChangeset w rem (rd_base r) branch (commit_message t message) (toChangesetItems (rd_yaml r) entries) (author_of user) of
        Inl None \<Rightarrow> AlreadyInGit
      | Inl (Some e) \<Rightarrow> PushFailed e
      | Inr (made, rem') \<Rightarrow>
          (case For (rd_forge r) (pi_repo proj) of
             None \<Rightarrow> Pushed (pushed_result (cr_branch made)) True rem'
           | Some c \<Rightarrow> (case openOrRecoverPR r c (pushed_result (cr_branch made)) branch t body of (out, ok) \<Rightarrow> Pushed out ok rem')))"

definition cleared_error :: fault where
  "cleared_error = err_invalid ''every staged change already matches git; the draft has been cleared''"

definition propose_settle ::
  "store_io \<Rightarrow> string \<Rightarrow> project_info \<Rightarrow> push_outcome \<Rightarrow> remote \<Rightarrow> drafts \<Rightarrow> (fault + propose_result) \<times> drafts \<times> remote" where
  "propose_settle ios user proj outcome rem st =
     (case outcome of
        PushFailed e \<Rightarrow> (Inl e, st, rem)
      | AlreadyInGit \<Rightarrow> (Inl cleared_error, snd (Clear (ios 2) user (pi_name proj) st), rem)
      | Pushed out done rem' \<Rightarrow>
          (if \<not> done then (Inr out, st, rem')
           else (case Clear (ios 2) user (pi_name proj) st of
                   (ok, st') \<Rightarrow> (if ok then Inr out else Inl (FInternal ''clear draft''), st', rem'))))"

definition Propose_beside ::
  "(drafts \<Rightarrow> drafts) \<Rightarrow> coordinator \<Rightarrow> store_io \<Rightarrow> writer \<Rightarrow> string \<Rightarrow> project_info \<Rightarrow> string \<Rightarrow> string \<Rightarrow> drafts \<Rightarrow> remote \<Rightarrow>
   (fault + propose_result) \<times> drafts \<times> remote" where
  "Propose_beside meanwhile co ios w user proj title message st rem =
     (case draft_list (ios 0) user (pi_name proj) st of
        (Inl e, st1) \<Rightarrow> (Inl (FInternal e), st1, rem)
      | (Inr entries, st1) \<Rightarrow>
          (if entries = [] then (Inl (err_invalid ''draft is empty''), st1, rem)
           else
            (case read_repo (co_reader co) proj of
               Inl e \<Rightarrow> (Inl e, st1, rem)
             | Inr m \<Rightarrow>
                 (case Get co (ios 1) user proj st1 of
                    (Inl FPanic, st2) \<Rightarrow> (Inl FPanic, st2, rem)
                  | (view, st2) \<Rightarrow>
                      propose_settle ios user proj (propose_push co w user proj title message entries view rem) rem (meanwhile st2)))))"

definition Propose ::
  "coordinator \<Rightarrow> store_io \<Rightarrow> writer \<Rightarrow> string \<Rightarrow> project_info \<Rightarrow> string \<Rightarrow> string \<Rightarrow> drafts \<Rightarrow> remote \<Rightarrow>
   (fault + propose_result) \<times> drafts \<times> remote" where
  "Propose = Propose_beside (\<lambda>st. st)"

section \<open>Reverting a commit\<close>

definition revert_title :: "string \<Rightarrow> history_row \<Rightarrow> string" where
  "revert_title hash row =
     ''Revert '' @ go_quote (hr_title row) @ '' ('' @
     (if hr_pr row > 0 then ''#'' @ itoa (hr_pr row) else shortCommit hash) @ '')''"

definition Revert :: "reader \<Rightarrow> writer \<Rightarrow> string \<Rightarrow> project_info \<Rightarrow> string \<Rightarrow> remote \<Rightarrow> (fault + propose_result) \<times> remote" where
  "Revert r w user proj hash rem =
     (case read_repo r proj of Inl e \<Rightarrow> (Inl e, rem) | Inr m \<Rightarrow>
      (case CommitDiff (mr_hash m) (mr_find m) hash of Inl e \<Rightarrow> (Inl (err_not_found (fault_text e)), rem) | Inr d \<Rightarrow>
       (case RevertItems d of Inl e \<Rightarrow> (Inl (err_invalid (fault_text e)), rem) | Inr items \<Rightarrow>
        (if items = [] then (Inl (err_invalid ''nothing to revert in that commit''), rem)
         else
          (let row = nameByPR r proj (cd_commit d);
               title = revert_title hash row;
               body = prBody (commitItems_of (rd_yaml r) (rd_docs r) (revertFiles r m items)) (fst (revertState r m (cd_files d)))
                 (''Reverts commit '' @ shortCommit hash @ '', '' @ go_quote (hr_title row) @ ''.'') user;
               branch = revertBranch (rd_proposed r) user (pi_name proj) hash in
           case CommitChangeset w rem (rd_base r) branch title items (author_of user) of
             Inl None \<Rightarrow> (Inl (err_invalid (rd_base r @ '' already matches the state before this change'')), rem)
           | Inl (Some e) \<Rightarrow> (Inl e, rem)
           | Inr (made, rem') \<Rightarrow>
               (Inr (case For (rd_forge r) (pi_repo proj) of
                       None \<Rightarrow> pushed_result (cr_branch made)
                     | Some c \<Rightarrow> fst (openOrRecoverPR r c (pushed_result (cr_branch made)) branch title body)), rem'))))))"

end
