(* ===== verification/Changeset_Props.thy ===== *)
theory Changeset_Props
  imports Changeset_Propose
begin

text \<open>
  What staging and proposing promise together: a change of one object touches no other, a draft is only given up for what git
  holds, and a review shows every declared object that differs.
\<close>

section \<open>One file, one object\<close>

lemma DeclaredOnBranch_iff:
  "x \<in> DeclaredOnBranch docs_of t \<longleftrightarrow> declares (DeclaredFilesOnBranch docs_of t) x \<noteq> None"
  by (auto simp: DeclaredOnBranch_def declares_def map_of_eq_None_iff)

text \<open>An object is declared when some file of the tree that is walked declares it.\<close>

lemma declared_by_file:
  assumes "map_of t p = Some c" "isYAML p" "\<not> inTemplatesDir p" "x \<in> set (DeclaredRefs docs_of p c)"
  shows "x \<in> DeclaredOnBranch docs_of t"
proof -
  have "(p, c) \<in> set (walkYAML (\<lambda>p. \<not> inTemplatesDir p) t)"
    using assms(1-3) by (auto simp: walkYAML_def dest: map_of_SomeD)
  with fold_index_total[OF assms(4)] have "declares (DeclaredFilesOnBranch docs_of t) x \<noteq> None"
    unfolding declares_def DeclaredFilesOnBranch_def by blast
  then show ?thesis by (simp add: DeclaredOnBranch_iff)
qed

lemma declared_in_file:
  assumes "declares (DeclaredFilesOnBranch docs_of t) x = Some p" "distinct (map fst t)"
  obtains c where "map_of t p = Some c" "isYAML p" "\<not> inTemplatesDir p" "x \<in> set (DeclaredRefs docs_of p c)"
  using index_sound[of docs_of t x p] assms by (auto simp: declares_def)

text \<open>The rule of whole-file changes: the file holds nothing else the index knows, and nothing it does not know.\<close>

lemma common_file_all:
  "common_file idx path refs = Inr p \<Longrightarrow> path \<noteq> '''' \<longrightarrow> p = path"
  by (induction refs arbitrary: path) (auto split: option.splits if_splits)

lemma sole_declarer:
  assumes "soleDeclarer idx refs = Inr p" "p \<noteq> ''''"
  shows "\<And>x. declares idx x = Some p \<Longrightarrow> x \<in> set refs" "p \<notin> set (di_opaque idx)" "\<And>x. x \<in> set refs \<Longrightarrow> declares idx x \<noteq> None"
proof -
  from assms have c: "common_file idx '''' refs = Inr p" "find (\<lambda>ref. declares idx ref = None) refs = None"
    "find (\<lambda>(ref, q). q = p \<and> ref \<notin> set refs) (di_files idx) = None" "p \<notin> set (di_opaque idx)"
    by (auto simp: soleDeclarer_def split: sum.splits if_splits option.splits)
  show "p \<notin> set (di_opaque idx)" by (rule c(4))
  show "x \<in> set refs \<Longrightarrow> declares idx x \<noteq> None" for x using c(2) by (simp add: find_None_iff)
  show "x \<in> set refs" if "declares idx x = Some p" for x
  proof (rule ccontr)
    assume "x \<notin> set refs"
    moreover have "(x, p) \<in> set (di_files idx)" using that by (auto simp: declares_def dest: map_of_SomeD)
    ultimately show False using c(3) by (auto simp: find_None_iff)
  qed
qed

text \<open>A change of that one file leaves every object outside the change declared.\<close>

lemma sole_file_scoped:
  assumes sole: "soleDeclarer (DeclaredFilesOnBranch docs_of t) refs = Inr p" "p \<noteq> ''''"
    and t: "distinct (map fst t)" and same: "\<And>q. q \<noteq> p \<Longrightarrow> map_of t' q = map_of t q"
    and x: "x \<in> DeclaredOnBranch docs_of t" "x \<notin> set refs"
  shows "x \<in> DeclaredOnBranch docs_of t'"
proof -
  obtain q where q: "declares (DeclaredFilesOnBranch docs_of t) x = Some q" using x(1) by (auto simp: DeclaredOnBranch_iff)
  then obtain c where c: "map_of t q = Some c" "isYAML q" "\<not> inTemplatesDir q" "x \<in> set (DeclaredRefs docs_of q c)"
    by (rule declared_in_file[OF _ t])
  have "q \<noteq> p" using sole_declarer(1)[OF sole] q x(2) by blast
  then have "map_of t' q = Some c" using same c(1) by simp
  then show ?thesis using c(2-4) by (rule declared_by_file)
qed

text \<open>The one object a route names.\<close>

definition names_object :: "string \<Rightarrow> string \<Rightarrow> string \<Rightarrow> object_ref \<Rightarrow> bool" where
  "names_object rsc namespace name x =
     (or_kind x \<in> set (ResourceKinds rsc) \<and> or_namespace x = ObjectNamespace namespace \<and> or_name x = name)"

lemma declaredRef_names: "declaredRef idx rsc namespace name = Some ref \<Longrightarrow> names_object rsc namespace name ref \<and> declares idx ref \<noteq> None"
  by (auto simp: declaredRef_def find_Some_iff names_object_def)

lemma common_file_one: "common_file idx '''' [ref] = Inr (case declares idx ref of None \<Rightarrow> '''' | Some p \<Rightarrow> p)"
  by (simp split: option.split)

lemma locate_sole:
  assumes "locate r m rsc namespace name = Inr p" "base_tree r m = Inr t" "\<forall>(q, c) \<in> set t. q \<noteq> ''''"
  obtains ref where "soleDeclarer (DeclaredFilesOnBranch (rd_docs r) t) [ref] = Inr p" "p \<noteq> ''''" "names_object rsc namespace name ref"
proof -
  let ?idx = "DeclaredFilesOnBranch (rd_docs r) t"
  from assms(1,2) obtain ref where ref: "declaredRef ?idx rsc namespace name = Some ref" "soleDeclarer ?idx [ref] = Inr p"
    by (auto simp: locate_def base_index_def split: option.splits)
  then obtain q where q: "declares ?idx ref = Some q" using declaredRef_names by blast
  then have "q \<noteq> ''''" using index_sound[of "rd_docs r" t ref q] assms(3) by (auto simp: declares_def)
  then have "p \<noteq> ''''" using ref(2) q common_file_one[of ?idx ref] by (auto simp: soleDeclarer_def split: if_splits option.splits)
  with ref declaredRef_names that show thesis by blast
qed

text \<open>The three operations that act on a whole file an object is declared in.\<close>

definition whole_file_entry :: "reader \<Rightarrow> project_info \<Rightarrow> string \<Rightarrow> string \<Rightarrow> string \<Rightarrow> pending \<Rightarrow> bool" where
  "whole_file_entry r proj rsc namespace name e =
     (delete_entry r proj rsc namespace name = Inr e \<or>
      (\<exists>yaml. update_entry r proj rsc namespace name yaml = Inr e) \<or>
      (\<exists>hash. restore_entry r proj rsc namespace name hash = Inr e))"

lemma whole_file_located:
  assumes "whole_file_entry r proj rsc namespace name e" "read_repo r proj = Inr m"
  shows "locate r m rsc namespace name = Inr (en_source e)" "it \<in> set (entry_change yl e) \<Longrightarrow> it_path it = en_source e"
proof -
  have a: "delete_entry r proj rsc namespace name = Inr e \<Longrightarrow> locate r m rsc namespace name = Inr (en_source e)"
    using assms(2) by (auto simp: delete_entry_def split: sum.splits)
  have b: "update_entry r proj rsc namespace name yaml = Inr e \<Longrightarrow> locate r m rsc namespace name = Inr (en_source e)" for yaml
    using assms(2) by (auto simp: update_entry_def split: sum.splits if_splits)
  have c: "restore_entry r proj rsc namespace name hash = Inr e \<Longrightarrow> locate r m rsc namespace name = Inr (en_source e)" for hash
  proof -
    assume run: "restore_entry r proj rsc namespace name hash = Inr e"
    then obtain p where p: "locate r m rsc namespace name = Inr p" using assms(2) by (auto simp: restore_entry_def split: sum.splits)
    from run assms(2) p obtain content where "FileAt m hash p = Inr content"
      by (cases "FileAt m hash p") (auto simp: restore_entry_def split: option.splits)
    with run assms(2) p show ?thesis by (auto simp: restore_entry_def split: sum.splits if_splits)
  qed
  have "locate r m rsc namespace name = Inr (en_source e)"
    using assms(1) a b c unfolding whole_file_entry_def by blast
  then show "locate r m rsc namespace name = Inr (en_source e)" .
  show "it \<in> set (entry_change yl e) \<Longrightarrow> it_path it = en_source e"
    by (auto simp: entry_change_def Let_def split: entry_kind.splits if_splits option.splits)
qed

text \<open>A file the index can read in full: every document decodes, to the end, and names a kind and a name.\<close>

definition readable :: "yaml_docs \<Rightarrow> string \<Rightarrow> bool" where
  "readable docs_of c = (snd (docs_of c) \<and> (\<forall>h \<in> set (fst (docs_of c)). or_kind h \<noteq> '''' \<and> or_name h \<noteq> ''''))"

lemma not_opaque_readable:
  assumes "(p, c) \<in> set t" "isYAML p" "\<not> inTemplatesDir p" "p \<notin> set (di_opaque (DeclaredFilesOnBranch docs_of t))"
  shows "readable docs_of c"
proof -
  obtain hs ended where d: "docs_of c = (hs, ended)" by fastforce
  let ?named = "filter (\<lambda>h. or_kind h \<noteq> '''' \<and> or_name h \<noteq> '''') hs"
  have "snd (declared docs_of p c) = int (length (DeclaredRefs docs_of p c))" using index_opaque[OF assms(1-3)] assms(4) by blast
  then have n: "(if ended then int (length hs) else -1) = int (length ?named)"
    by (simp add: DeclaredRefs_def declared_def Headers_def d)
  then have ended "length ?named = length hs" by (auto split: if_splits)
  then show ?thesis using d by (simp add: readable_def) (metis (mono_tags, lifting) length_filter_less less_irrefl)
qed

text \<open>The file a route's object is located in: it holds that object, nothing unreadable, and of others only what another file declares.\<close>

lemma located_file:
  assumes "locate r m rsc namespace name = Inr p" "base_tree r m = Inr t" "distinct (map fst t)" "\<forall>(q, c) \<in> set t. q \<noteq> ''''"
  obtains ref c where "soleDeclarer (DeclaredFilesOnBranch (rd_docs r) t) [ref] = Inr p" "p \<noteq> ''''" "names_object rsc namespace name ref"
    "map_of t p = Some c" "readable (rd_docs r) c" "ref \<in> set (DeclaredRefs (rd_docs r) p c)"
    "\<forall>x \<in> set (DeclaredRefs (rd_docs r) p c). x \<noteq> ref \<longrightarrow>
       (\<exists>q c'. q \<noteq> p \<and> map_of t q = Some c' \<and> isYAML q \<and> \<not> inTemplatesDir q \<and> x \<in> set (DeclaredRefs (rd_docs r) q c'))"
proof -
  let ?idx = "DeclaredFilesOnBranch (rd_docs r) t"
  obtain ref where ref: "soleDeclarer ?idx [ref] = Inr p" "p \<noteq> ''''" "names_object rsc namespace name ref" by (rule locate_sole[OF assms(1,2,4)])
  have "declares ?idx ref = Some p"
    using ref(1,2) common_file_one[of ?idx ref] by (auto simp: soleDeclarer_def split: if_splits option.splits)
  from declared_in_file[OF this assms(3)] obtain c where c: "map_of t p = Some c" "isYAML p" "\<not> inTemplatesDir p" "ref \<in> set (DeclaredRefs (rd_docs r) p c)"
    by blast
  have "readable (rd_docs r) c" by (rule not_opaque_readable[OF map_of_SomeD[OF c(1)] c(2,3) sole_declarer(2)[OF ref(1,2)]])
  moreover have "\<exists>q c'. q \<noteq> p \<and> map_of t q = Some c' \<and> isYAML q \<and> \<not> inTemplatesDir q \<and> x \<in> set (DeclaredRefs (rd_docs r) q c')"
    if x: "x \<in> set (DeclaredRefs (rd_docs r) p c)" "x \<noteq> ref" for x
  proof -
    have "x \<in> DeclaredOnBranch (rd_docs r) t" by (rule declared_by_file[OF c(1-3) x(1)])
    then obtain q where q: "declares ?idx x = Some q" by (auto simp: DeclaredOnBranch_iff)
    then have "q \<noteq> p" using sole_declarer(1)[OF ref(1,2)] x(2) by auto
    with declared_in_file[OF q assms(3)] show ?thesis by metis
  qed
  ultimately show thesis using that ref c by blast
qed

text \<open>C10: Changing one object's file never takes another object out of git. A delete, a manifest replacement and a version restore of an
  object change one file only, and are staged only where that file declares the object, every document of it can be read to the end and is
  named, and any other object in it is declared by another file as well. So when the change is applied to the files it was staged against,
  every other object the branch declares is still declared. (A restore brings the whole file of that version back, whatever else it then held.)\<close>
theorem whole_file_change_scoped:
  assumes "whole_file_entry r proj rsc namespace name e" and "read_repo r proj = Inr m" and "base_tree r m = Inr t"
    and "distinct (map fst t)" and "\<forall>(q, c) \<in> set t. q \<noteq> ''''"
    and "applyItems can t (entry_change (rd_yaml r) e) = Inr t'"
  shows "\<exists>ref c. names_object rsc namespace name ref \<and> (\<forall>it \<in> set (entry_change (rd_yaml r) e). it_path it = en_source e) \<and>
    map_of t (en_source e) = Some c \<and> ref \<in> set (DeclaredRefs (rd_docs r) (en_source e) c) \<and> readable (rd_docs r) c \<and>
    (\<forall>x \<in> set (DeclaredRefs (rd_docs r) (en_source e) c). x \<noteq> ref \<longrightarrow>
       (\<exists>q c'. q \<noteq> en_source e \<and> map_of t q = Some c' \<and> isYAML q \<and> \<not> inTemplatesDir q \<and> x \<in> set (DeclaredRefs (rd_docs r) q c'))) \<and>
    (\<forall>x \<in> DeclaredOnBranch (rd_docs r) t. x \<noteq> ref \<longrightarrow> x \<in> DeclaredOnBranch (rd_docs r) t')"
proof -
  note loc = whole_file_located[OF assms(1,2)]
  obtain ref c where sole: "soleDeclarer (DeclaredFilesOnBranch (rd_docs r) t) [ref] = Inr (en_source e)" "en_source e \<noteq> ''''"
    and ref: "names_object rsc namespace name ref"
    and c: "map_of t (en_source e) = Some c" "readable (rd_docs r) c" "ref \<in> set (DeclaredRefs (rd_docs r) (en_source e) c)"
      "\<forall>x \<in> set (DeclaredRefs (rd_docs r) (en_source e) c). x \<noteq> ref \<longrightarrow>
         (\<exists>q c'. q \<noteq> en_source e \<and> map_of t q = Some c' \<and> isYAML q \<and> \<not> inTemplatesDir q \<and> x \<in> set (DeclaredRefs (rd_docs r) q c'))"
    by (rule located_file[OF loc(1) assms(3-5)])
  have same: "map_of t' q = map_of t q" if "q \<noteq> en_source e" for q
    using applyItems_other[OF assms(6), of q] loc(2) that by blast
  have "x \<in> DeclaredOnBranch (rd_docs r) t'" if "x \<in> DeclaredOnBranch (rd_docs r) t" "x \<noteq> ref" for x
    using that by (intro sole_file_scoped[OF sole assms(4) same]) simp_all
  with loc(2) ref c show ?thesis by blast
qed

section \<open>A draft is given up only for what git holds\<close>

lemma list_keeps:
  assumes "draft_list i u p s = (x, s1)"
  shows "pair_draft s1 u p = pair_draft s u p" "x = Inr es \<Longrightarrow> es = sortedEntries (pair_draft s u p)"
proof -
  obtain y s2 where l: "loadLocked i u p s = (y, s2)" by fastforce
  show "pair_draft s1 u p = pair_draft s u p"
  proof (cases y)
    case (Inl e)
    then show ?thesis using l assms load_failed[of i u p s e s2] by (auto simp: draft_list_def)
  next
    case (Inr d)
    note r = load_result[OF l[unfolded Inr]]
    have "s1 = s2" using l assms Inr by (simp add: draft_list_def)
    then show ?thesis using r(1,3) by (simp add: pair_draft_def)
  qed
  show "es = sortedEntries (pair_draft s u p)" if "x = Inr es"
    using assms l that load_result(1)[of i u p s _ s2] by (cases y) (auto simp: draft_list_def)
qed

lemma get_keeps: "Get co i u proj s = (x, s1) \<Longrightarrow> pair_draft s1 u (pi_name proj) = pair_draft s u (pi_name proj)"
  by (auto simp: Get_def split: prod.splits sum.splits dest: list_keeps(1))

lemma already_in_git:
  assumes "CommitChangeset w rem base branch message items by = Inl None"
  obtains h t where "openWorktree w rem base = Inr h" "applyItems (wr_can w) (cm_tree h) items = Inr t" "IsClean (cm_tree h) t"
  using assms by (auto simp: CommitChangeset_def commitItems_def split: if_splits sum.splits prod.splits)

text \<open>The base branch's files with every item applied are what the base already holds, or what the pushed branch holds.\<close>

definition held_by_git :: "writer \<Rightarrow> remote \<Rightarrow> remote \<Rightarrow> string \<Rightarrow> string \<Rightarrow> changeset_item list \<Rightarrow> bool" where
  "held_by_git w rem rem' base branch items =
     (\<exists>h t. openWorktree w rem base = Inr h \<and> applyItems (wr_can w) (cm_tree h) items = Inr t \<and>
        (map_of t = map_of (cm_tree h) \<or>
         (\<exists>c. map_of (rm_refs rem') branch = Some c \<and> map_of (cm_tree c) = map_of t \<and> cm_parents c = [h])))"

lemma pushed_holds:
  assumes "CommitChangeset w rem base branch message items by = Inr (out, rem')" "sane_remote rem" "wr_pushes w"
  shows "held_by_git w rem rem' base branch items \<and> cr_branch out = branch"
proof -
  obtain h t c where o: "openWorktree w rem base = Inr h" and a: "applyItems (wr_can w) (cm_tree h) items = Inr t"
    and c: "c = Commit (canonical t) message (fst (signature by)) (snd (signature by)) (wr_now w) [h]"
    and p: "pushBranch w rem branch c = Inr rem'" and b: "cr_branch out = branch"
    by (rule CommitChangeset_cases[OF assms(1)])
  have dt: "distinct (map fst t)" by (rule distinct_applyItems[OF a openWorktree_sane[OF assms(2) o]])
  have "rm_refs rem' = AList.update branch c (rm_refs rem)" using p assms(3) by (auto simp: pushBranch_def split: if_splits)
  then have "map_of (rm_refs rem') branch = Some c" by (simp add: update_conv')
  moreover have "map_of (cm_tree c) = map_of t" by (simp add: c map_of_canonical[OF dt])
  ultimately show ?thesis using o a b unfolding held_by_git_def by (auto simp: c)
qed

lemma clean_holds:
  assumes "CommitChangeset w rem base branch message items by = Inl None" "sane_remote rem"
  shows "held_by_git w rem rem' base branch items"
proof -
  obtain h t where o: "openWorktree w rem base = Inr h" and a: "applyItems (wr_can w) (cm_tree h) items = Inr t"
    and c: "IsClean (cm_tree h) t" by (rule already_in_git[OF assms(1)])
  have dh: "distinct (map fst (cm_tree h))" by (rule openWorktree_sane[OF assms(2) o])
  have "map_of t = map_of (cm_tree h)" using c IsClean_iff[OF dh distinct_applyItems[OF a dh]] by simp
  then show ?thesis using o a unfolding held_by_git_def by blast
qed

definition proposal_branch :: "coordinator \<Rightarrow> string \<Rightarrow> project_info \<Rightarrow> string" where
  "proposal_branch co user proj = proposedBranch (rd_sha (co_reader co)) (rd_proposed (co_reader co)) user (pi_name proj)"

lemma propose_push_holds:
  assumes "sane_remote rem" "wr_pushes w"
  shows "propose_push co w user proj title message es view rem = AlreadyInGit \<Longrightarrow>
      held_by_git w rem rem' (rd_base (co_reader co)) (proposal_branch co user proj) (toChangesetItems (rd_yaml (co_reader co)) es)"
    and "propose_push co w user proj title message es view rem = Pushed out done' rem1 \<Longrightarrow>
      held_by_git w rem rem1 (rd_base (co_reader co)) (proposal_branch co user proj) (toChangesetItems (rd_yaml (co_reader co)) es)"
  using assms by (auto simp: propose_push_def proposal_branch_def Let_def split: sum.splits option.splits prod.splits
      dest: clean_holds pushed_holds)

text \<open>C11: Proposing never loses a draft. Whatever fails - the repository, the base branch, an item, the push, the forge, the file
  system of the store - the caller's draft is still there afterwards, unless every one of its entries, applied to the base branch,
  is already what that branch holds or is on the proposal branch just pushed, one commit on top of the base; and a successful answer always means the latter.\<close>
theorem propose_keeps_or_pushes:
  assumes "Propose co ios w user proj title message st rem = (res', st', rem')"
    and "sane_remote rem" and "wr_pushes w"
  shows "(pair_draft st' user (pi_name proj) = pair_draft st user (pi_name proj) \<or>
      held_by_git w rem rem' (rd_base (co_reader co)) (proposal_branch co user proj)
        (toChangesetItems (rd_yaml (co_reader co)) (sortedEntries (pair_draft st user (pi_name proj))))) \<and>
    (\<forall>out. res' = Inr out \<longrightarrow> held_by_git w rem rem' (rd_base (co_reader co)) (proposal_branch co user proj)
        (toChangesetItems (rd_yaml (co_reader co)) (sortedEntries (pair_draft st user (pi_name proj)))))"
proof -
  let ?p = "pi_name proj"
  let ?held = "\<lambda>es rem'. held_by_git w rem rem' (rd_base (co_reader co)) (proposal_branch co user proj) (toChangesetItems (rd_yaml (co_reader co)) es)"
  obtain x st1 where l: "draft_list (ios 0) user ?p st = (x, st1)" by fastforce
  note lk = list_keeps[OF l]
  consider (stop) e where "res' = Inl e" "pair_draft st' user ?p = pair_draft st1 user ?p"
    | (go) es view st2 where "x = Inr es" "Get co (ios 1) user proj st1 = (view, st2)"
        "propose_settle ios user proj (propose_push co w user proj title message es view rem) rem st2 = (res', st', rem')"
    using assms(1) l unfolding Propose_def Propose_beside_def
    by (auto split: sum.splits if_splits prod.splits fault.splits dest: get_keeps)
  then show ?thesis
  proof cases
    case stop
    then show ?thesis using lk(1) by simp
  next
    case go
    have es: "es = sortedEntries (pair_draft st user ?p)" using lk(2) go(1) by blast
    have keep: "pair_draft st2 user ?p = pair_draft st user ?p" using get_keeps[OF go(2)] lk(1) by simp
    show ?thesis
    proof (cases "propose_push co w user proj title message es view rem")
      case (PushFailed e)
      then show ?thesis using go(3) keep by (auto simp: propose_settle_def)
    next
      case AlreadyInGit
      have "?held es rem'" by (rule propose_push_holds(1)[OF assms(2,3) AlreadyInGit])
      then show ?thesis by (simp add: es)
    next
      case (Pushed out done' rem1)
      have "?held es rem1" by (rule propose_push_holds(2)[OF assms(2,3) Pushed])
      moreover have "rem' = rem1" using go(3) Pushed by (auto simp: propose_settle_def split: if_splits prod.splits)
      ultimately show ?thesis by (simp add: es)
    qed
  qed
qed

text \<open>
  What another request staged after the draft was listed goes with it: clearing takes the draft as it then is, and the proposal
  holds only what was listed.
\<close>

lemma propose_drops_late_stage:
  assumes "io_ok (ios 2)" "draft_good (snd (Stage i user (pi_name proj) late st))" "nul_free (pi_name proj)"
  shows "draft_view (fst (snd (propose_settle ios user proj (Pushed out True rem1) rem (snd (Stage i user (pi_name proj) late st))))) (user, pi_name proj) = Map.empty"
  using clear_good(2)[OF assms, of "pi_name proj" user] assms(3)
  by (cases "Clear (ios 2) user (pi_name proj) (snd (Stage i user (pi_name proj) late st))") (simp add: propose_settle_def)

section \<open>Witnesses\<close>

definition shop_delete :: pending where
  "shop_delete = blank_entry\<lparr>en_kind := KindDelete, en_resource := ''vm'', en_namespace := ''shop'', en_name := ''a'', en_source := ''shop/a.yaml''\<rparr>"

theorem whole_file_change_scoped_witness:
  "shop_ref ''b'' \<in> DeclaredOnBranch shop_docs [(''shop/b.yaml'', ''B'')]"
proof -
  have e: "delete_entry (shop_reader None) shop_project ''vm'' ''shop'' ''a'' = Inr shop_delete" by code_simp
  have t: "applyItems (\<lambda>_ _. True) (cm_tree shop_head) (entry_change (rd_yaml (shop_reader None)) shop_delete) = Inr [(''shop/b.yaml'', ''B'')]"
    by code_simp
  have x: "shop_ref ''b'' \<in> DeclaredOnBranch (rd_docs (shop_reader None)) (cm_tree shop_head)" by code_simp
  have d: "distinct (map fst (cm_tree shop_head))" "\<forall>(q, c) \<in> set (cm_tree shop_head). q \<noteq> ''''" by (simp_all add: shop_head_def)
  have "whole_file_entry (shop_reader None) shop_project ''vm'' ''shop'' ''a'' shop_delete" using e by (simp add: whole_file_entry_def)
  from whole_file_change_scoped[OF this shop_reads d t] obtain ref where "names_object ''vm'' ''shop'' ''a'' ref"
    "\<forall>x \<in> DeclaredOnBranch (rd_docs (shop_reader None)) (cm_tree shop_head). x \<noteq> ref \<longrightarrow> x \<in> DeclaredOnBranch (rd_docs (shop_reader None)) [(''shop/b.yaml'', ''B'')]"
    by blast
  moreover from this(1) have "ref \<noteq> shop_ref ''b''" by (auto simp: names_object_def shop_ref_def)
  ultimately show ?thesis using x by (auto simp: shop_reader_def)
qed

definition no_json :: json_lib where
  "no_json = \<lparr>js_vm = (\<lambda>_. Inl ''off''), js_network = (\<lambda>_. Inl ''off''), js_uplink = (\<lambda>_. Inl ''off''), js_egress_firewall = (\<lambda>_. Inl ''off''),
     js_egress_ip = (\<lambda>_. Inl ''off''), js_external_route = (\<lambda>_. Inl ''off''), js_network_policy = (\<lambda>_. Inl ''off''),
     js_admin_policy = (\<lambda>_. Inl ''off''), js_namespace = (\<lambda>_. Inl ''off'')\<rparr>"

definition shop_coordinator :: coordinator where
  "shop_coordinator = \<lparr>co_reader = shop_reader None, co_prune = None, co_json = no_json, co_marshal = (\<lambda>_. ''''), co_bcrypt = (\<lambda>_. None)\<rparr>"

definition good_io :: "vm_edit io" where
  "good_io = \<lparr>io_read = True, io_quarantine = True, io_remove = True, io_mkdir = True, io_write = True, io_rename = True, io_partial = None\<rparr>"

definition shop_drafts :: drafts where
  "shop_drafts = snd (Stage good_io ''ann'' ''shop'' shop_delete (Open ''d'' Map.empty))"

theorem propose_keeps_or_pushes_witness:
  "\<exists>out st' rem'. Propose shop_coordinator (\<lambda>_. good_io) small_writer ''ann'' shop_project '''' '''' shop_drafts shop_remote = (Inr out, st', rem') \<and>
     held_by_git small_writer shop_remote rem' ''main'' (proposal_branch shop_coordinator ''ann'' shop_project)
       (toChangesetItems no_yaml (sortedEntries (pair_draft shop_drafts ''ann'' ''shop'')))"
proof -
  obtain res' st' rem' where run: "Propose shop_coordinator (\<lambda>_. good_io) small_writer ''ann'' shop_project '''' '''' shop_drafts shop_remote = (res', st', rem')"
    by (metis prod_cases3)
  have "isl (fst (Propose shop_coordinator (\<lambda>_. good_io) small_writer ''ann'' shop_project '''' '''' shop_drafts shop_remote)) = False" by code_simp
  then obtain out where out: "res' = Inr out" using run by (cases res') auto
  have "sane_remote shop_remote" "wr_pushes small_writer" by code_simp+
  from propose_keeps_or_pushes[OF run this] out run show ?thesis
    by (auto simp: shop_coordinator_def shop_reader_def shop_project_def)
qed

end
