(* ===== verification/Changeset_Rebalance.thy ===== *)
theory Changeset_Rebalance
  imports Changeset_Library Changeset_Props
begin

text \<open>What a run of store calls makes of a draft, and that staging the rebalancing configuration is declarative.\<close>

section \<open>Runs of store calls\<close>

lemma change_draft_pair: "change_draft f i u p s = (True, s') \<Longrightarrow> pair_draft s' u p = f (pair_draft s u p)"
  using change_done[of f i u p s True s'] by (simp add: pair_draft_def)

lemma stage_pair: "Stage i u p e s = (True, s') \<Longrightarrow> pair_draft s' u p = put_entry e (pair_draft s u p)"
  unfolding Stage_def by (rule change_draft_pair)

lemma unstage_pair: "Draft_Store.Unstage i u p rsc ns n s = (True, s') \<Longrightarrow> pair_draft s' u p = del_entry (key_of rsc ns n) (pair_draft s u p)"
  unfolding Draft_Store.Unstage_def by (rule change_draft_pair)

lemma stage_all_pair: "stage_all ios n u p es s = (True, s') \<Longrightarrow> pair_draft s' u p = fold put_entry es (pair_draft s u p)"
proof (induction es arbitrary: n s)
  case (Cons e es)
  from Cons.prems obtain s1 where s1: "Stage (ios n) u p e s = (True, s1)" "stage_all ios (Suc n) u p es s1 = (True, s')"
    by (auto split: prod.splits bool.splits)
  show ?case using Cons.IH[OF s1(2)] stage_pair[OF s1(1)] by simp
qed simp

lemma unstage_each_pair:
  "unstage_each ios n u p es k s = (True, k', s') \<Longrightarrow> pair_draft s' u p = fold (\<lambda>e. del_entry (Key e)) es (pair_draft s u p)"
proof (induction es arbitrary: n k s)
  case (Cons e es)
  from Cons.prems obtain s1 where s1: "Draft_Store.Unstage (ios n) u p (en_resource e) (en_namespace e) (en_name e) s = (True, s1)"
    "unstage_each ios (Suc n) u p es (Suc k) s1 = (True, k', s')"
    by (auto split: prod.splits bool.splits)
  show ?case using Cons.IH[OF s1(2)] unstage_pair[OF s1(1)] by (simp add: Key_def)
qed simp

lemma set_fold_del: "set (fold (\<lambda>e. del_entry (Key e)) es d) = {x \<in> set d. Key x \<notin> Key ` set es}"
  by (induction es arbitrary: d) (auto simp: del_entry_def)

lemma set_put: "set (put_entry e d) = insert e {x \<in> set d. Key x \<noteq> Key e}"
  by (auto simp: put_entry_def)

lemma set_fold_put:
  "distinct (map Key es) \<Longrightarrow> set (fold put_entry es d) = set es \<union> {x \<in> set d. Key x \<notin> Key ` set es}"
proof (induction es arbitrary: d)
  case (Cons e es)
  then have "set (fold put_entry (e # es) d) = set es \<union> {x \<in> insert e {x \<in> set d. Key x \<noteq> Key e}. Key x \<notin> Key ` set es}" by (simp add: set_put)
  then show ?case using Cons.prems by auto
qed simp

lemma distinct_put: "distinct (map Key d) \<Longrightarrow> distinct (map Key (put_entry e d))"
  by (auto simp: put_entry_def distinct_map_filter)

lemma distinct_fold_put: "distinct (map Key d) \<Longrightarrow> distinct (map Key (fold put_entry es d))"
  by (induction es arbitrary: d) (auto simp: distinct_put)

lemma distinct_fold_del: "distinct (map Key d) \<Longrightarrow> distinct (map Key (fold (\<lambda>e. del_entry (Key e)) es d))"
  by (induction es arbitrary: d) (auto simp: del_entry_def distinct_map_filter)

text \<open>The withdrawal of a resource leaves the entries of the others.\<close>

lemma unstage_resource_pair:
  assumes "unstageResource ios u proj rsc s = ((None, n), s')" "distinct (map Key (pair_draft s u (pi_name proj)))"
  shows "set (pair_draft s' u (pi_name proj)) = {e \<in> set (pair_draft s u (pi_name proj)). en_resource e \<noteq> rsc}"
    and "distinct (map Key (pair_draft s' u (pi_name proj)))"
proof -
  let ?p = "pi_name proj" and ?d = "pair_draft s u (pi_name proj)"
  from assms(1) obtain es s1 where l: "draft_list (ios 0) u ?p s = (Inr es, s1)"
    and each: "unstage_each ios 1 u ?p (filter (\<lambda>e. en_resource e = rsc) es) 0 s1 = (True, n, s')"
    by (auto simp: unstageResource_def split: prod.splits sum.splits if_splits)
  have es: "es = sortedEntries ?d" and keep: "pair_draft s1 u ?p = ?d" using list_keeps[OF l] by auto
  have r: "pair_draft s' u ?p = fold (\<lambda>e. del_entry (Key e)) (filter (\<lambda>e. en_resource e = rsc) es) ?d"
    using unstage_each_pair[OF each] keep by simp
  have "set es = set ?d" by (simp add: es sortedEntries_def)
  moreover have "x = y" if "x \<in> set ?d" "y \<in> set ?d" "Key x = Key y" for x y
    using assms(2) that by (auto simp: distinct_map inj_on_def)
  ultimately show "set (pair_draft s' u ?p) = {e \<in> set ?d. en_resource e \<noteq> rsc}"
    unfolding r set_fold_del by auto
  show "distinct (map Key (pair_draft s' u ?p))" unfolding r by (rule distinct_fold_del[OF assms(2)])
qed

section \<open>The rebalancing files\<close>

lemma drs_files_shape:
  assumes "DrsManifests spec = Inr files"
  shows "distinct (map fl_path files)" "distinct (map fl_name files)" "\<forall>f \<in> set files. fl_path f \<noteq> ''''"
proof -
  have p: "distinct [NamespacePath, OperatorGroupPath, SubscriptionPath, CRPath, PSIPath]" "'''' \<notin> set [NamespacePath, OperatorGroupPath, SubscriptionPath, CRPath, PSIPath]"
    by code_simp+
  show "distinct (map fl_path files)" "distinct (map fl_name files)" "\<forall>f \<in> set files. fl_path f \<noteq> ''''"
    using assms p by (auto simp: DrsManifests_def drs_file_of_def split: sum.splits if_splits)
qed

lemma drs_keys: "Key (drs_entry marshal f) = ''drs:cluster/'' @ fl_name f"
  by (simp add: drs_entry_def Key_def key_of_def ClusterScopeNS_def blank_entry_def)

lemma drs_delta_keys: "distinct (map fl_name files) \<Longrightarrow> distinct (map Key (drs_delta marshal t files))"
  by (auto simp: drs_delta_def distinct_map inj_on_def drs_keys)

text \<open>Rewrites of distinct files, applied.\<close>

definition rewrite_item :: "string \<times> string \<Rightarrow> changeset_item" where
  "rewrite_item w = \<lparr>it_path = fst w, it_mode = NewContent (snd w)\<rparr>"

lemma apply_rewrites:
  assumes "applyItems can t (map rewrite_item ws) = Inr t'" "distinct (map fst ws)"
  shows "map_of t' p = (case map_of ws p of Some c \<Rightarrow> Some c | None \<Rightarrow> map_of t p)"
proof (cases "map_of ws p")
  case None
  then have "p \<notin> it_path ` set (map rewrite_item ws)" by (force simp: rewrite_item_def map_of_eq_None_iff)
  then show ?thesis using None applyItems_other[OF assms(1)] by simp
next
  case (Some c)
  then have i: "rewrite_item (p, c) \<in> set (map rewrite_item ws)" by (auto dest: map_of_SomeD)
  have "distinct (map it_path (map rewrite_item ws))" using assms(2) by (simp add: rewrite_item_def comp_def)
  from applyItems_at[OF assms(1) this i] Some show ?thesis by (simp add: rewrite_item_def item_result_def)
qed

text \<open>The files the entries of a delta write.\<close>

definition written_files :: "pending list \<Rightarrow> (string \<times> string) list" where
  "written_files es = map (\<lambda>e. (en_source e, en_manifest e)) es"

lemma drs_entry_fields:
  "en_resource (drs_entry marshal f) = ''drs''" "en_source (drs_entry marshal f) = fl_path f"
  "en_manifest (drs_entry marshal f) = marshal (fl_tree f)" "en_kind (drs_entry marshal f) = KindCreate"
  by (simp_all add: drs_entry_def blank_entry_def)

lemma drs_rewrites:
  assumes "set es = set (drs_delta marshal t files)"
  shows "toChangesetItems yl es = map rewrite_item (written_files es)"
proof -
  have "entry_change yl e = [rewrite_item (en_source e, en_manifest e)]" if "e \<in> set es" for e
    using that assms by (auto simp: drs_delta_def drs_entry_fields entry_change_def rewrite_item_def)
  then have "map (entry_change yl) es = map (\<lambda>e. [rewrite_item (en_source e, en_manifest e)]) es" by (intro map_cong) auto
  then show ?thesis by (simp only: toChangesetItems_def concat_map_singleton written_files_def map_map comp_def)
qed

lemma drs_written:
  assumes es: "set es = set (drs_delta marshal t files)" "distinct es" and paths: "distinct (map fl_path files)"
  shows "distinct (map fst (written_files es))"
    and "map_of (written_files es) p = Some c \<longleftrightarrow>
      (\<exists>f \<in> set files. fl_path f = p \<and> marshal (fl_tree f) = c \<and> map_of t p \<noteq> Some c)"
proof -
  have one: "f = f'" if "f \<in> set files" "f' \<in> set files" "fl_path f = fl_path f'" for f f'
    using paths that by (auto simp: distinct_map dest: inj_onD)
  have mem: "e \<in> set es \<longleftrightarrow> (\<exists>f \<in> set files. e = drs_entry marshal f \<and> map_of t (fl_path f) \<noteq> Some (marshal (fl_tree f)))" for e
    by (auto simp: es(1) drs_delta_def LookupFile_def)
  have "inj_on en_source (set es)"
  proof (rule inj_onI)
    fix x y assume "x \<in> set es" "y \<in> set es" "en_source x = en_source y"
    then obtain f f' where "f \<in> set files" "f' \<in> set files" "x = drs_entry marshal f" "y = drs_entry marshal f'" "fl_path f = fl_path f'"
      by (auto simp: mem drs_entry_fields)
    then show "x = y" using one by blast
  qed
  then show d: "distinct (map fst (written_files es))" using es(2) by (simp add: written_files_def distinct_map comp_def)
  have "map_of (written_files es) p = Some c \<longleftrightarrow> (p, c) \<in> set (written_files es)" using d by (simp add: map_of_eq_Some_iff)
  also have "\<dots> \<longleftrightarrow> (\<exists>f \<in> set files. fl_path f = p \<and> marshal (fl_tree f) = c \<and> map_of t p \<noteq> Some c)"
  proof
    assume "(p, c) \<in> set (written_files es)"
    then obtain f where "f \<in> set files" "p = fl_path f" "c = marshal (fl_tree f)" "map_of t p \<noteq> Some c"
      by (auto simp: written_files_def mem drs_entry_fields)
    then show "\<exists>f \<in> set files. fl_path f = p \<and> marshal (fl_tree f) = c \<and> map_of t p \<noteq> Some c" by blast
  next
    assume "\<exists>f \<in> set files. fl_path f = p \<and> marshal (fl_tree f) = c \<and> map_of t p \<noteq> Some c"
    then obtain f where f: "f \<in> set files" "fl_path f = p" "marshal (fl_tree f) = c" "map_of t p \<noteq> Some c" by blast
    then have "drs_entry marshal f \<in> set es" using mem by blast
    with f show "(p, c) \<in> set (written_files es)"
      unfolding written_files_def set_map by (intro image_eqI[of _ _ "drs_entry marshal f"]) (simp_all add: drs_entry_fields)
  qed
  finally show "map_of (written_files es) p = Some c \<longleftrightarrow>
      (\<exists>f \<in> set files. fl_path f = p \<and> marshal (fl_tree f) = c \<and> map_of t p \<noteq> Some c)" .
qed

text \<open>The draft after a successful staging: its rebalancing entries are the delta, the others stay.\<close>

lemma enable_draft:
  assumes "StageEnableDRS co lb ios user proj raw st = (Inr view, st')"
    and "read_repo (co_reader co) proj = Inr m" "base_tree (co_reader co) m = Inr t" "lb_drs lb raw = Inr spec" "DrsManifests spec = Inr files"
    and "distinct (map Key (pair_draft st user (pi_name proj)))"
  shows "distinct (map Key (pair_draft st' user (pi_name proj)))"
    and "set (pair_draft st' user (pi_name proj)) = set (drs_delta (co_marshal co) t files) \<union>
      {e \<in> set (pair_draft st user (pi_name proj)). en_resource e \<noteq> ''drs'' \<and> Key e \<notin> Key ` set (drs_delta (co_marshal co) t files)}"
proof -
  let ?p = "pi_name proj" and ?delta = "drs_delta (co_marshal co) t files" and ?d = "pair_draft st user (pi_name proj)"
  from assms(1-5) obtain n st1 st2 where u: "unstageResource ios user proj ''drs'' st = ((None, n), st1)"
    and sa: "stage_all ios (Suc n) user ?p ?delta st1 = (True, st2)" and g: "Get co (ios (Suc n + length ?delta)) user proj st2 = (Inr view, st')"
    by (auto simp: StageEnableDRS_def Let_def split: prod.splits option.splits bool.splits)
  have d': "pair_draft st' user ?p = fold put_entry ?delta (pair_draft st1 user ?p)"
    using get_keeps[OF g] stage_all_pair[OF sa] by simp
  note d1 = unstage_resource_pair[OF u assms(6)]
  show "distinct (map Key (pair_draft st' user ?p))" unfolding d' by (rule distinct_fold_put[OF d1(2)])
  show "set (pair_draft st' user ?p) = set ?delta \<union> {e \<in> set ?d. en_resource e \<noteq> ''drs'' \<and> Key e \<notin> Key ` set ?delta}"
    unfolding d' set_fold_put[OF drs_delta_keys[OF drs_files_shape(2)[OF assms(5)]]] d1(1) by blast
qed

text \<open>C14: Configuring rebalancing is declarative. After a successful staging the draft's rebalancing entries, whatever was staged of it
  before, are exactly the change from the base branch to the submitted configuration: applied to the base's files they make every file of the
  configuration hold its rendering and touch no other file (so submitting what is committed leaves none of them); and no
  other entry of the draft is lost.\<close>
theorem drs_staging_declarative:
  assumes "StageEnableDRS co lb ios user proj raw st = (Inr view, st')"
    and "read_repo (co_reader co) proj = Inr m" and "base_tree (co_reader co) m = Inr t"
    and "lb_drs lb raw = Inr spec" and "DrsManifests spec = Inr files"
    and "distinct (map Key (pair_draft st user (pi_name proj)))"
    and "es = filter (\<lambda>e. en_resource e = ''drs'') (sortedEntries (pair_draft st' user (pi_name proj)))"
    and "applyItems can t (toChangesetItems yl es) = Inr t'"
  shows "(\<forall>f \<in> set files. map_of t' (fl_path f) = Some (co_marshal co (fl_tree f))) \<and>
    (\<forall>p. p \<notin> fl_path ` set files \<longrightarrow> map_of t' p = map_of t p) \<and>
    ((\<forall>f \<in> set files. map_of t (fl_path f) = Some (co_marshal co (fl_tree f))) \<longrightarrow> es = []) \<and>
    (\<forall>e \<in> set (pair_draft st user (pi_name proj)). en_resource e \<noteq> ''drs'' \<longrightarrow> (\<forall>f \<in> set files. Key e \<noteq> Key (drs_entry (co_marshal co) f)) \<longrightarrow>
       e \<in> set (pair_draft st' user (pi_name proj)))"
proof -
  let ?p = "pi_name proj" and ?delta = "drs_delta (co_marshal co) t files" and ?d = "pair_draft st user (pi_name proj)"
  note shape = drs_files_shape[OF assms(5)] and after = enable_draft[OF assms(1-6)]
  have ses: "set es = set ?delta" using after(2) by (auto simp: assms(7) sortedEntries_def drs_delta_def drs_entry_fields)
  have "distinct (sortedEntries (pair_draft st' user ?p))"
    using after(1) distinct_go_sort[of Key entry_less] distinct_map by (fastforce simp: sortedEntries_def)
  then have des: "distinct es" by (simp add: assms(7))
  note w = drs_written[OF ses des shape(1)]
  have files_after: "map_of t' p = (case map_of (written_files es) p of Some c \<Rightarrow> Some c | None \<Rightarrow> map_of t p)" for p
    using assms(8) w(1) unfolding drs_rewrites[OF ses] by (rule apply_rewrites)
  have held: "map_of t' (fl_path f) = Some (co_marshal co (fl_tree f))" if f: "f \<in> set files" for f
  proof (cases "map_of t (fl_path f) = Some (co_marshal co (fl_tree f))")
    case True
    have "f' = f" if "f' \<in> set files" "fl_path f' = fl_path f" for f'
      using shape(1) f that by (auto simp: distinct_map dest: inj_onD)
    then have "\<And>c. map_of (written_files es) (fl_path f) \<noteq> Some c" using True by (auto simp: w(2))
    then have "map_of (written_files es) (fl_path f) = None" by (cases "map_of (written_files es) (fl_path f)") blast+
    then show ?thesis using files_after True by simp
  next
    case False
    then have "map_of (written_files es) (fl_path f) = Some (co_marshal co (fl_tree f))" using f w(2) by blast
    then show ?thesis using files_after by simp
  qed
  have other: "map_of t' p = map_of t p" if "p \<notin> fl_path ` set files" for p
  proof -
    have "map_of (written_files es) p = None" using that w(2)[of p] by (cases "map_of (written_files es) p") auto
    then show ?thesis using files_after by simp
  qed
  have clean: "es = []" if "\<forall>f \<in> set files. map_of t (fl_path f) = Some (co_marshal co (fl_tree f))"
    using that ses by (auto simp: drs_delta_def LookupFile_def)
  have "e \<in> set (pair_draft st' user ?p)" if "e \<in> set ?d" "en_resource e \<noteq> ''drs''" "\<forall>f \<in> set files. Key e \<noteq> Key (drs_entry (co_marshal co) f)" for e
    using that after(2) by (auto simp: drs_delta_def)
  with held other clean show ?thesis by blast
qed

definition auto_spec :: drs_spec where
  "auto_spec = \<lparr>dp_mode = ''Automatic'', dp_threshold = '''', dp_interval = 0, dp_tainter = None, dp_node_limit = 0, dp_total_limit = 0, dp_psi = False\<rparr>"

definition drs_library :: library where
  "drs_library = \<lparr>lb_decode = (\<lambda>_. Inl ''off''), lb_engine = (\<lambda>_ _. Inl ''off''), lb_drs = (\<lambda>_. Inr auto_spec)\<rparr>"

definition drs_run :: staged where
  "drs_run = StageEnableDRS shop_coordinator drs_library (\<lambda>_. good_io) ''ann'' shop_project ''{}'' shop_drafts"

definition drs_entries :: "pending list" where
  "drs_entries = filter (\<lambda>e. en_resource e = ''drs'') (sortedEntries (pair_draft (snd drs_run) ''ann'' ''shop''))"

theorem drs_staging_declarative_witness:
  "\<exists>t'. applyItems (\<lambda>_ _. True) (cm_tree shop_head) (toChangesetItems no_yaml drs_entries) = Inr t' \<and> map_of t' CRPath = Some '''' \<and>
     map_of t' ''shop/a.yaml'' = Some ''A''"
proof -
  have "isl (fst drs_run) = False" by code_simp
  then obtain view where "fst drs_run = Inr view" by (cases "fst drs_run") auto
  then have run: "StageEnableDRS shop_coordinator drs_library (\<lambda>_. good_io) ''ann'' shop_project ''{}'' shop_drafts = (Inr view, snd drs_run)"
    by (metis drs_run_def prod.collapse)
  have "isl (applyItems (\<lambda>_ _. True) (cm_tree shop_head) (toChangesetItems no_yaml drs_entries)) = False" by code_simp
  then obtain t' where t: "applyItems (\<lambda>_ _. True) (cm_tree shop_head) (toChangesetItems no_yaml drs_entries) = Inr t'"
    by (cases "applyItems (\<lambda>_ _. True) (cm_tree shop_head) (toChangesetItems no_yaml drs_entries)") auto
  have spec: "lb_drs drs_library ''{}'' = Inr auto_spec" by (simp add: drs_library_def)
  have "isl (withDefaults auto_spec) = False" by code_simp
  then obtain s' where s': "withDefaults auto_spec = Inr s'" by (cases "withDefaults auto_spec") auto
  then obtain files where files: "DrsManifests auto_spec = Inr files" "drs_file_of ''kubedescheduler'' CRPath (kubeDescheduler s') \<in> set files"
    "\<forall>f \<in> set files. fl_path f \<in> {NamespacePath, OperatorGroupPath, SubscriptionPath, CRPath, PSIPath}"
    by (auto simp: DrsManifests_def drs_file_of_def)
  have out: "''shop/a.yaml'' \<notin> {NamespacePath, OperatorGroupPath, SubscriptionPath, CRPath, PSIPath}" by code_simp
  have d: "distinct (map Key (pair_draft shop_drafts ''ann'' (pi_name shop_project)))" by code_simp
  have es: "drs_entries = filter (\<lambda>e. en_resource e = ''drs'') (sortedEntries (pair_draft (snd drs_run) ''ann'' (pi_name shop_project)))"
    by (simp add: drs_entries_def shop_project_def)
  have r: "co_reader shop_coordinator = shop_reader None" by (simp add: shop_coordinator_def)
  note claim = drs_staging_declarative[OF run _ _ spec files(1) d es t, unfolded r, OF shop_reads]
  have "map_of t' CRPath = Some ''''" using claim files(2) by (fastforce simp: drs_file_of_def shop_coordinator_def)
  moreover have "''shop/a.yaml'' \<notin> fl_path ` set files" using files(3) out by (auto simp del: insert_iff)
  then have "map_of t' ''shop/a.yaml'' = map_of (cm_tree shop_head) ''shop/a.yaml''" using claim by blast
  ultimately show ?thesis using t by (simp add: shop_head_def)
qed

end
