(* ===== verification/Changeset_Limits.thy ===== *)
theory Changeset_Limits
  imports Changeset_Tenancy Changeset_Rebalance
begin

text \<open>Where an operation of the changeset does less, or more, than its comments say.\<close>

section \<open>Adoption\<close>

text \<open>
  A standalone DataVolume named like a VM is captured to a file of its own, but its draft entry has the VM's key: of the two, staged in
  one adoption, the draft keeps the later one alone.
\<close>

definition dv_kind :: string where
  "dv_kind = ''DataVolume''"

lemma datavolume_resource: "adoptResource dv_kind = ''vm''" "adoptResource (mk_kind KindVM) = ''vm''"
  by code_simp+

lemma adopt_drops_namesake:
  assumes "ao_kind a = mk_kind KindVM" "ao_kind b = dv_kind" "ao_namespace a = ao_namespace b" "ao_name a = ao_name b" "ao_path a \<noteq> ao_path b"
    and "stage_all ios n u p [capture_entry a, capture_entry b] s = (True, s')"
  shows "capture_entry b \<in> set (pair_draft s' u p)" "capture_entry a \<notin> set (pair_draft s' u p)"
proof -
  have k: "Key (capture_entry a) = Key (capture_entry b)"
    using assms(1-4) datavolume_resource by (simp add: Key_def capture_entry_def blank_entry_def)
  have ne: "capture_entry a \<noteq> capture_entry b" using assms(5) by (auto simp: capture_entry_def blank_entry_def)
  have "pair_draft s' u p = put_entry (capture_entry b) (put_entry (capture_entry a) (pair_draft s u p))"
    using stage_all_pair[OF assms(6)] by simp
  then show "capture_entry b \<in> set (pair_draft s' u p)" "capture_entry a \<notin> set (pair_draft s' u p)"
    using k ne by (simp_all add: set_put)
qed

section \<open>Creating\<close>

text \<open>A create checks the object, not the path: whatever file is there is replaced.\<close>

lemma create_overwrites_path:
  assumes "create_vm_entry co proj raw = Inr e" "applyItems can t (entry_change yl e) = Inr t'"
  shows "map_of t' (en_source e) = Some (en_manifest e)"
proof -
  from assms(1) have "en_kind e = KindCreate"
    by (auto simp: create_vm_entry_def split: sum.splits prod.splits option.splits)
  then have "entry_change yl e = [\<lparr>it_path = en_source e, it_mode = NewContent (en_manifest e)\<rparr>]" by (simp add: entry_change_def)
  with assms(2) show ?thesis using applyItem_map by (fastforce simp: item_result_def split: sum.splits)
qed

section \<open>Restoring\<close>

text \<open>A version in which the file was empty is staged as a field edit without fields, which no view survives.\<close>

lemma restore_empty_panics:
  assumes "restore_entry r proj rsc namespace name hash = Inr e" "en_manifest e = ''''" "base_vm r m' (en_namespace e) (en_name e) = Inr found"
  shows "entry_item r m' e = Inl FPanic"
proof -
  from assms(1) obtain m p content where e: "read_repo r proj = Inr m" "locate r m rsc namespace name = Inr p" "FileAt m hash p = Inr content"
    by (auto simp: restore_entry_def split: sum.splits option.splits)
  with assms(1) have "en_kind e = KindEdit \<and> en_edit e = None"
    by (auto simp: restore_entry_def blank_entry_def split: sum.splits if_splits)
  with assms(2,3) show ?thesis by (simp add: entry_item_def vm_edit_item_def)
qed

section \<open>Tenancy\<close>

text \<open>A VM Network that cannot be rendered is refused after the forge repository was made.\<close>

lemma refused_project_leaves_repo:
  assumes checks: "create_project_checks commit_proj decoded live = Inr (spec, ns, ln)"
    and made: "ensureTenantRepo (co_reader co) w (pi_repo commit_proj) (pc_name spec) ty = (Inr (repoURL, True), ty1)"
    and net: "pc_network spec = Some p" "RequireDNS1123 ''VM Network name'' (pn_name p) = None" "\<not> validCIDR (pn_subnet p)"
    and name: "RequireDNS1123 ''namespace'' ns = None" "pc_name spec \<noteq> ''''"
  shows "StageCreateProject co w ios user commit_proj decoded live ty =
      (Inl (err_invalid ''the VM Network needs a subnet CIDR (a primary network must do IPAM)''), ty1)"
  using assms by (simp add: StageCreateProject_def adopt_and_get_def stageProjectAdoption_def spec_steps_def namespace_entry_def NamespaceManifest_def)

lemma made_repo: "ensureTenantRepo r w url name ty = (Inr (repoURL, True), ty1) \<Longrightarrow> ty_created ty1 \<noteq> ty_created ty"
  by (auto simp: ensureTenantRepo_def seedTemplates_def Let_def split: if_splits option.splits sum.splits prod.splits)

text \<open>A refused release keeps the rewrites of the namespaces before the one it stopped at.\<close>

lemma release_refusal_leaves_staged:
  assumes "release_entry co t a = Inr (Some e)" "release_entry co t b = Inl err" "Stage (ios 0) user project e st = (True, st')"
  shows "release_each co ios 0 user project t [a, b] ([], []) st = (Inl err, st') \<and> e \<in> set (pair_draft st' user project)"
  using assms stage_pair[OF assms(3)] by (simp add: set_put)

end
