(* ===== verification/Changeset_Review.thy ===== *)
theory Changeset_Review
  imports Changeset_View Changeset_Example
begin

text \<open>
  A review against the text of the two sides of a change: which documents a file has, and the rows their differences are due, counted.
\<close>

section \<open>What a side of a change says of an object\<close>

text \<open>The text of an object on one side of a change: the first document, cut out at the separator lines, that declares it and nothing else, trimmed.\<close>

definition side_text :: "yaml_docs \<Rightarrow> string \<Rightarrow> string option \<Rightarrow> object_ref \<Rightarrow> string option" where
  "side_text docs_of p content r =
     (case content of
        None \<Rightarrow> None
      | Some c \<Rightarrow>
          if c = '''' then None
          else map_option (\<lambda>chunk. TrimSpace chunk @ newline) (find (\<lambda>chunk. DeclaredRefs docs_of p chunk = [r]) (split_documents c)))"

definition text_before :: "yaml_docs \<Rightarrow> file_change \<Rightarrow> object_ref \<Rightarrow> string option" where
  "text_before docs_of f r = side_text docs_of (fc_path f) (fc_before f) r"

definition text_after :: "yaml_docs \<Rightarrow> file_change \<Rightarrow> object_ref \<Rightarrow> string option" where
  "text_after docs_of f r = side_text docs_of (fc_path f) (fc_after f) r"

type_synonym review_row = "string \<times> (string \<times> string \<times> string) \<times> string \<times> string"

definition named_by :: "object_ref \<Rightarrow> string \<times> string \<times> string" where
  "named_by r = (resourceOf (or_kind r), or_namespace r, or_name r)"

definition row_of :: "draft_item \<Rightarrow> review_row" where
  "row_of i = (im_kind i, (im_resource i, im_namespace i, im_name i), im_yaml i, im_base_yaml i)"

lemma finite_side_text: "finite {r. side_text docs_of p content r \<noteq> None}"
proof (cases content)
  case (Some c)
  have "{r. side_text docs_of p content r \<noteq> None} \<subseteq> (\<Union>chunk \<in> set (split_documents c). set (DeclaredRefs docs_of p chunk))"
  proof
    fix r assume "r \<in> {r. side_text docs_of p content r \<noteq> None}"
    then obtain chunk where "find (\<lambda>chunk. DeclaredRefs docs_of p chunk = [r]) (split_documents c) = Some chunk"
      by (auto simp: Some side_text_def split: if_splits)
    then have "chunk \<in> set (split_documents c)" "DeclaredRefs docs_of p chunk = [r]" by (auto simp: find_Some_iff)
    then show "r \<in> (\<Union>chunk \<in> set (split_documents c). set (DeclaredRefs docs_of p chunk))" by force
  qed
  then show ?thesis by (rule finite_subset) simp
qed (simp add: side_text_def)

section \<open>The documents of a side\<close>

lemma distinct_first_docs: "distinct (map dc_ref (first_docs seen ds)) \<and> dc_ref ` set (first_docs seen ds) \<inter> set seen = {}"
proof (induction ds arbitrary: seen)
  case (Cons d ds)
  from Cons.IH[of seen] Cons.IH[of "dc_ref d # seen"] show ?case by auto
qed simp

lemma distinct_documents: "distinct (map dc_ref (documentsIn yl docs_of p c))"
  using distinct_first_docs[of "[]"] by (simp add: documentsIn_def split: option.split)

lemma doc_at_Some: "distinct (map dc_ref ds) \<Longrightarrow> doc_at ds r = Some d \<longleftrightarrow> d \<in> set ds \<and> dc_ref d = r"
  by (induction ds) (auto simp: doc_at_def)

lemma doc_at_first: "doc_at (first_docs seen ds) r = (if r \<in> set seen then None else doc_at ds r)"
  by (induction ds arbitrary: seen) (auto simp: doc_at_def)

lemma document_of_Some: "document_of yl docs_of p chunk = Some d \<Longrightarrow> DeclaredRefs docs_of p chunk = [dc_ref d] \<and> dc_raw d = TrimSpace chunk @ newline"
  by (auto simp: document_of_def split: list.splits)

lemma document_of_None: "document_of yl docs_of p chunk = None \<Longrightarrow> DeclaredRefs docs_of p chunk \<noteq> [r]"
  by (auto simp: document_of_def split: list.splits)

lemma doc_at_chunks:
  "map_option dc_raw (doc_at (List.map_filter (document_of yl docs_of p) chunks) r) =
     map_option (\<lambda>chunk. TrimSpace chunk @ newline) (find (\<lambda>chunk. DeclaredRefs docs_of p chunk = [r]) chunks)"
proof (induction chunks)
  case (Cons chunk chunks)
  then show ?case
    using document_of_Some[of yl docs_of p chunk] document_of_None[of yl docs_of p chunk r]
    by (cases "document_of yl docs_of p chunk") (auto simp: map_filter_simps doc_at_def)
qed (simp add: map_filter_simps doc_at_def)

lemma documents_are_texts: "map_option dc_raw (doc_at (documentsIn yl docs_of p content) r) = side_text docs_of p content r"
proof (cases content)
  case (Some c)
  then show ?thesis by (cases "c = ''''") (simp_all add: documentsIn_def side_text_def doc_at_first doc_at_chunks, simp add: doc_at_def)
qed (simp add: documentsIn_def side_text_def doc_at_def)

section \<open>The rows\<close>

text \<open>Rows made from a list of documents of distinct identities are counted by their identities.\<close>

lemma mset_by_ref:
  assumes "distinct (map dc_ref ds)" "\<And>d. d \<in> set ds \<Longrightarrow> map row_of (item d) = (if dc_ref d \<in> S then [g (dc_ref d)] else [])"
  shows "mset (map row_of (concat (map item ds))) = image_mset g (mset_set (dc_ref ` set ds \<inter> S))"
  using assms
proof (induction ds)
  case (Cons d ds)
  then have "dc_ref d \<notin> dc_ref ` set ds" by simp
  then show ?case using Cons by (simp add: Int_insert_left mset_set.insert)
qed simp

lemma documents_with:
  assumes "distinct (map dc_ref ds)"
  shows "dc_ref ` set ds = {r. doc_at ds r \<noteq> None}" "d \<in> set ds \<Longrightarrow> doc_at ds (dc_ref d) = Some d"
  using doc_at_Some[OF assms] by (auto simp: image_iff)

lemma after_rows:
  assumes "d \<in> set (documentsIn yl docs_of (fc_path f) (fc_after f))"
  shows "map row_of (after_item (documentsIn yl docs_of (fc_path f) (fc_before f)) d) =
    (if dc_ref d \<in> {r. text_before docs_of f r \<noteq> text_after docs_of f r}
     then [if text_before docs_of f (dc_ref d) = None then (''create'', named_by (dc_ref d), the (text_after docs_of f (dc_ref d)), '''')
           else (''edit'', named_by (dc_ref d), the (text_after docs_of f (dc_ref d)), the (text_before docs_of f (dc_ref d)))] else [])"
proof -
  have "text_after docs_of f (dc_ref d) = Some (dc_raw d)"
    using documents_with(2)[OF distinct_documents assms] documents_are_texts[of yl docs_of "fc_path f" "fc_after f" "dc_ref d"] by (simp add: text_after_def)
  moreover have "text_before docs_of f (dc_ref d) = map_option dc_raw (doc_at (documentsIn yl docs_of (fc_path f) (fc_before f)) (dc_ref d))"
    by (simp add: text_before_def documents_are_texts)
  ultimately show ?thesis by (auto simp: after_item_def row_of_def named_by_def doc_item_def blank_item_def split: option.splits)
qed

lemma gone_rows:
  assumes "d \<in> set (documentsIn yl docs_of (fc_path f) (fc_before f))"
  shows "map row_of (gone_item (documentsIn yl docs_of (fc_path f) (fc_after f)) d) =
    (if dc_ref d \<in> {r. text_after docs_of f r = None} then [(''delete'', named_by (dc_ref d), the (text_before docs_of f (dc_ref d)), '''')] else [])"
proof -
  have "text_before docs_of f (dc_ref d) = Some (dc_raw d)"
    using documents_with(2)[OF distinct_documents assms] documents_are_texts[of yl docs_of "fc_path f" "fc_before f" "dc_ref d"] by (simp add: text_before_def)
  moreover have "text_after docs_of f (dc_ref d) = None \<longleftrightarrow> doc_at (documentsIn yl docs_of (fc_path f) (fc_after f)) (dc_ref d) = None"
    by (simp add: text_after_def documents_are_texts[of yl, symmetric])
  ultimately show ?thesis by (auto simp: gone_item_def row_of_def named_by_def doc_item_def blank_item_def)
qed

lemma file_rows:
  "mset (map row_of (file_items yl docs_of f)) =
     image_mset (\<lambda>r. (''create'', named_by r, the (text_after docs_of f r), ''''))
       (mset_set {r. text_before docs_of f r = None \<and> text_after docs_of f r \<noteq> None}) +
     image_mset (\<lambda>r. (''edit'', named_by r, the (text_after docs_of f r), the (text_before docs_of f r)))
       (mset_set {r. text_before docs_of f r \<noteq> None \<and> text_after docs_of f r \<noteq> None \<and> text_after docs_of f r \<noteq> text_before docs_of f r}) +
     image_mset (\<lambda>r. (''delete'', named_by r, the (text_before docs_of f r), ''''))
       (mset_set {r. text_before docs_of f r \<noteq> None \<and> text_after docs_of f r = None})"
proof -
  let ?B = "documentsIn yl docs_of (fc_path f) (fc_before f)" and ?A = "documentsIn yl docs_of (fc_path f) (fc_after f)"
  let ?b = "text_before docs_of f" and ?a = "text_after docs_of f"
  let ?g = "\<lambda>r. if ?b r = None then (''create'', named_by r, the (?a r), '''') else (''edit'', named_by r, the (?a r), the (?b r))"
  let ?C = "{r. ?b r = None \<and> ?a r \<noteq> None}" and ?E = "{r. ?b r \<noteq> None \<and> ?a r \<noteq> None \<and> ?a r \<noteq> ?b r}"
  have refs: "dc_ref ` set ?A = {r. ?a r \<noteq> None}" "dc_ref ` set ?B = {r. ?b r \<noteq> None}"
    unfolding documents_with(1)[OF distinct_documents] by (simp_all add: text_after_def text_before_def documents_are_texts[of yl, symmetric])
  have fin: "finite {r. ?a r \<noteq> None}" unfolding text_after_def by (rule finite_side_text)
  have finC: "finite ?C" and finE: "finite ?E" using fin by (auto elim: rev_finite_subset)
  have split: "{r. ?a r \<noteq> None} \<inter> {r. ?b r \<noteq> ?a r} = ?C \<union> ?E" by auto
  have "mset (map row_of (concat (map (after_item ?B) ?A))) = image_mset ?g (mset_set (?C \<union> ?E))"
    unfolding split[symmetric] refs(1)[symmetric] by (rule mset_by_ref[OF distinct_documents]) (rule after_rows)
  also have "\<dots> = image_mset ?g (mset_set ?C) + image_mset ?g (mset_set ?E)"
    by (subst mset_set_Union) (use finC finE in auto)
  also have "image_mset ?g (mset_set ?C) = image_mset (\<lambda>r. (''create'', named_by r, the (?a r), '''')) (mset_set ?C)"
    by (rule image_mset_cong) (simp only: finite_set_mset_mset_set[OF finC] mem_Collect_eq refl if_True)
  also have "image_mset ?g (mset_set ?E) = image_mset (\<lambda>r. (''edit'', named_by r, the (?a r), the (?b r))) (mset_set ?E)"
    by (rule image_mset_cong) (simp only: finite_set_mset_mset_set[OF finE] mem_Collect_eq if_False)
  finally have after: "mset (map row_of (concat (map (after_item ?B) ?A))) =
      image_mset (\<lambda>r. (''create'', named_by r, the (?a r), '''')) (mset_set ?C) +
      image_mset (\<lambda>r. (''edit'', named_by r, the (?a r), the (?b r))) (mset_set ?E)" .
  have "{r. ?b r \<noteq> None} \<inter> {r. ?a r = None} = {r. ?b r \<noteq> None \<and> ?a r = None}" by auto
  with refs(2) have gone: "dc_ref ` set ?B \<inter> {r. ?a r = None} = {r. ?b r \<noteq> None \<and> ?a r = None}" by simp
  have "mset (map row_of (concat (map (gone_item ?A) ?B))) =
      image_mset (\<lambda>r. (''delete'', named_by r, the (?b r), '''')) (mset_set {r. ?b r \<noteq> None \<and> ?a r = None})"
    unfolding gone[symmetric] by (rule mset_by_ref[OF distinct_documents]) (rule gone_rows)
  with after show ?thesis by (simp only: file_items_def Let_def map_append mset_append)
qed

text \<open>C13: Of the documents its separator lines cut out, a review hides nothing and invents nothing. The rows shown for a commit or an open proposal are, counted with their multiplicity, for every
  changed file: one creation for each object whose text is on the after side only, one edit for each whose text is on both sides and differs, one
  deletion for each whose text is on the before side only, and no other. Each row names its object and shows its text after the change (before it,
  for a deletion), an edit also its text before. An object's text on a side is the first document, between the separator lines \<open>---\<close>, that
  declares that object and no other, trimmed; a file that is absent or empty has none.\<close>
theorem commit_review_complete:
  "mset (map row_of (commitItems_of yl docs_of files)) =
     (\<Sum>f\<in>#mset files.
        image_mset (\<lambda>r. (''create'', named_by r, the (text_after docs_of f r), ''''))
          (mset_set {r. text_before docs_of f r = None \<and> text_after docs_of f r \<noteq> None}) +
        image_mset (\<lambda>r. (''edit'', named_by r, the (text_after docs_of f r), the (text_before docs_of f r)))
          (mset_set {r. text_before docs_of f r \<noteq> None \<and> text_after docs_of f r \<noteq> None \<and> text_after docs_of f r \<noteq> text_before docs_of f r}) +
        image_mset (\<lambda>r. (''delete'', named_by r, the (text_before docs_of f r), ''''))
          (mset_set {r. text_before docs_of f r \<noteq> None \<and> text_after docs_of f r = None}))"
proof (induction files)
  case (Cons f files)
  have "mset (map row_of (commitItems_of yl docs_of (f # files))) =
      mset (map row_of (file_items yl docs_of f)) + mset (map row_of (commitItems_of yl docs_of files))"
    by (simp add: commitItems_of_def)
  with Cons show ?case by (simp only: file_rows mset.simps image_mset_add_mset sum_mset.add_mset)
qed (simp add: commitItems_of_def)

section \<open>A change of a file of several documents\<close>

text \<open>One document edited, one removed, one added and one kept; the texts stand for the manifests of the objects they name.\<close>

definition stack_docs :: yaml_docs where
  "stack_docs c =
     (case TrimSpace c of
        [] \<Rightarrow> ([], True)
      | x # _ \<Rightarrow> ([shop_ref [x]], True))"

definition stack_change :: file_change where
  "stack_change = \<lparr>fc_path = ''shop/stack.yaml'',
     fc_before = Some (''a1'' @ newline @ ''---'' @ newline @ ''b'' @ newline @ ''--- '' @ newline @ ''c'' @ newline),
     fc_after = Some (''a2'' @ newline @ ''---'' @ newline @ ''c'' @ newline @ ''---'' @ newline @ ''d'')\<rparr>"

theorem commit_review_complete_witness:
  "(\<Sum>f\<in>#mset [stack_change].
      image_mset (\<lambda>r. (''create'', named_by r, the (text_after stack_docs f r), ''''))
        (mset_set {r. text_before stack_docs f r = None \<and> text_after stack_docs f r \<noteq> None}) +
      image_mset (\<lambda>r. (''edit'', named_by r, the (text_after stack_docs f r), the (text_before stack_docs f r)))
        (mset_set {r. text_before stack_docs f r \<noteq> None \<and> text_after stack_docs f r \<noteq> None \<and> text_after stack_docs f r \<noteq> text_before stack_docs f r}) +
      image_mset (\<lambda>r. (''delete'', named_by r, the (text_before stack_docs f r), ''''))
        (mset_set {r. text_before stack_docs f r \<noteq> None \<and> text_after stack_docs f r = None})) =
   {#(''edit'', ('''', ''shop'', ''a''), ''a2'' @ newline, ''a1'' @ newline), (''create'', ('''', ''shop'', ''d''), ''d'' @ newline, ''''),
     (''delete'', ('''', ''shop'', ''b''), ''b'' @ newline, '''')#}"
proof -
  have "map row_of (commitItems_of no_yaml stack_docs [stack_change]) =
     [(''edit'', ('''', ''shop'', ''a''), ''a2'' @ newline, ''a1'' @ newline), (''create'', ('''', ''shop'', ''d''), ''d'' @ newline, ''''),
      (''delete'', ('''', ''shop'', ''b''), ''b'' @ newline, '''')]"
    by code_simp
  then show ?thesis unfolding commit_review_complete[of no_yaml, symmetric] by simp
qed

text \<open>A separator line that carries a comment, or ends in a carriage return, is not one to the review: the text around it is one piece that declares
  two objects, so it has no row.\<close>

definition pair_docs :: yaml_docs where
  "pair_docs c = (map (\<lambda>x. shop_ref [x]) (filter (\<lambda>x. x \<in> set ''abxy'') c), True)"

lemma commented_separator_hides:
  "let f = \<lparr>fc_path = ''shop/pair.yaml'', fc_before = Some (''a'' @ newline @ ''--- #'' @ newline @ ''b''),
       fc_after = Some (''x'' @ newline @ ''--- #'' @ newline @ ''y'')\<rparr> in
   map or_name (DeclaredRefs pair_docs (fc_path f) (the (fc_before f))) = [''a'', ''b''] \<and>
   map or_name (DeclaredRefs pair_docs (fc_path f) (the (fc_after f))) = [''x'', ''y''] \<and> commitItems_of no_yaml pair_docs [f] = []"
  by code_simp

end
