(* ===== verification/Netstate_Rule.thy ===== *)
theory Netstate_Rule
  imports Netgen_Doc
begin

text \<open>
  \<open>internal/netstate/rule.go\<close>: one policy rule decoded once for every reader (the Security
  tables and the trace), and its rendering. \<open>selectorSummary\<close>, \<open>orAny\<close> and \<open>prefixed\<close> are
  the rendering helpers of \<open>policies.go\<close>; \<open>emptySelector\<close> is of \<open>effective.go\<close>.
\<close>

section \<open>Rules, peers, ports\<close>

datatype peer_kind = PeerAny | PeerSelector | PeerNetworks | PeerNodes | PeerCIDRSelector
  | PeerDNSName | PeerNodeSelector | PeerUnresolved

record peer =
  p_kind :: peer_kind
  p_ns :: "label_selector option"
  p_pod :: "label_selector option"
  p_nodes :: "label_selector option"
  p_namespace :: string
  p_cidrs :: "string list"
  p_except :: "string list"
  p_dns :: string

record port =
  po_protocol :: string
  po_start :: int
  po_end :: int
  po_named :: string

record pol_rule =
  r_action :: string
  r_peers :: "peer list"
  r_ports :: "port list"

text \<open>The zero values the code's struct literals fill in.\<close>

definition peer_of :: "peer_kind \<Rightarrow> peer" where
  "peer_of k = \<lparr>p_kind = k, p_ns = None, p_pod = None, p_nodes = None, p_namespace = '''',
     p_cidrs = [], p_except = [], p_dns = ''''\<rparr>"

definition zero_port :: port where
  "zero_port = \<lparr>po_protocol = '''', po_start = 0, po_end = 0, po_named = ''''\<rparr>"

definition emptySelector :: "label_selector option \<Rightarrow> bool" where
  "emptySelector so =
     (case so of None \<Rightarrow> True | Some sel \<Rightarrow> match_labels sel = [] \<and> match_exprs sel = [])"

section \<open>Decoding\<close>

definition decode_port :: "string \<Rightarrow> port_doc \<Rightarrow> port" where
  "decode_port defaultProto d =
     (case pd_named_port d of
        Some n \<Rightarrow> zero_port\<lparr>po_named := n\<rparr>
      | None \<Rightarrow>
        (case pd_port_range d of
           Some r \<Rightarrow> zero_port\<lparr>po_protocol := pr_protocol r, po_start := pr_start r, po_end := pr_end r\<rparr>
         | None \<Rightarrow>
           (let d' = (case pd_port_number d of Some q \<Rightarrow> q | None \<Rightarrow> d);
                p = zero_port\<lparr>po_protocol := (if pd_protocol d' = '''' then defaultProto else pd_protocol d')\<rparr>
            in case pd_port d' of
                 None \<Rightarrow> p
               | Some (StrVal s) \<Rightarrow> p\<lparr>po_named := s\<rparr>
               | Some (IntVal i) \<Rightarrow>
                   p\<lparr>po_start := i, po_end := (if pd_end_port d' \<noteq> 0 then pd_end_port d' else i)\<rparr>)))"

definition decodePorts :: "port_doc list \<Rightarrow> string \<Rightarrow> port list" where
  "decodePorts docs defaultProto = map (decode_port defaultProto) docs"

text \<open>One NetworkPolicy peer; a peer with no field set adds nothing to the list.\<close>

definition netpol_peer :: "string \<Rightarrow> network_policy_peer \<Rightarrow> peer list" where
  "netpol_peer ns p =
     (case npp_ip_block p of
        Some b \<Rightarrow> [(peer_of PeerNetworks)\<lparr>p_cidrs := [ib_cidr b], p_except := ib_except b\<rparr>]
      | None \<Rightarrow>
          if npp_namespace_selector p \<noteq> None \<or> npp_pod_selector p \<noteq> None then
            [(peer_of PeerSelector)\<lparr>p_ns := npp_namespace_selector p, p_pod := npp_pod_selector p,
               p_namespace := (if npp_namespace_selector p = None then ns else '''')\<rparr>]
          else [])"

definition netpolRule :: "network_policy_peer list \<Rightarrow> port_doc list \<Rightarrow> string \<Rightarrow> pol_rule" where
  "netpolRule peers ports ns =
     \<lparr>r_action = ''Allow'',
      r_peers = (if peers = [] then [peer_of PeerAny] else concat (map (netpol_peer ns) peers)),
      r_ports = decodePorts ports ''TCP''\<rparr>"

definition admin_peer :: "admin_peer_doc \<Rightarrow> peer list" where
  "admin_peer p =
     (case ap_namespaces p of
        Some ns \<Rightarrow> [(peer_of PeerSelector)\<lparr>p_ns := Some ns\<rparr>]
      | None \<Rightarrow> (case ap_pods p of
          Some pods \<Rightarrow>
            [(peer_of PeerSelector)\<lparr>p_ns := Some (np_namespace_selector pods),
               p_pod := (if emptySelector (Some (np_pod_selector pods)) then None
                         else Some (np_pod_selector pods))\<rparr>]
        | None \<Rightarrow> (case ap_networks p of
            Some cidrs \<Rightarrow> [(peer_of PeerNetworks)\<lparr>p_cidrs := cidrs\<rparr>]
          | None \<Rightarrow> (case ap_nodes p of
              Some nodes \<Rightarrow> [(peer_of PeerNodes)\<lparr>p_nodes := Some nodes\<rparr>]
            | None \<Rightarrow> []))))"

definition adminRule :: "string \<Rightarrow> admin_peer_doc list \<Rightarrow> port_doc list \<Rightarrow> pol_rule" where
  "adminRule action peers ports =
     \<lparr>r_action = action, r_peers = concat (map admin_peer peers), r_ports = decodePorts ports ''''\<rparr>"

definition gatewayRule :: "egress_firewall_rule_doc \<Rightarrow> pol_rule" where
  "gatewayRule r =
     (let to = ef_to r;
          p = (if ed_cidr_selector to \<noteq> '''' then (peer_of PeerCIDRSelector)\<lparr>p_cidrs := [ed_cidr_selector to]\<rparr>
               else if ed_dns_name to \<noteq> '''' then (peer_of PeerDNSName)\<lparr>p_dns := ed_dns_name to\<rparr>
               else if ed_node_selector to \<noteq> None then (peer_of PeerNodeSelector)\<lparr>p_nodes := ed_node_selector to\<rparr>
               else peer_of PeerUnresolved)
      in \<lparr>r_action = ef_type r, r_peers = [p], r_ports = decodePorts (ef_ports r) ''TCP''\<rparr>)"

section \<open>Rendering\<close>

definition orAny :: "string \<Rightarrow> string \<Rightarrow> string" where
  "orAny s fallback = (if s = '''' then fallback else s)"

definition prefixed :: "string \<Rightarrow> string \<Rightarrow> string" where
  "prefixed prefix s = (if s = '''' then '''' else prefix @ s)"

definition requirement_summary :: "requirement \<Rightarrow> string" where
  "requirement_summary e =
     (case NameIn e of
        Some names \<Rightarrow> join_with names '', ''
      | None \<Rightarrow> rq_key e @ '' '' @ to_lower (rq_operator e) @
          (if rq_values e \<noteq> [] then '' ('' @ join_with (rq_values e) '', '' @ '')'' else ''''))"

definition selectorSummary :: "label_selector option \<Rightarrow> string" where
  "selectorSummary so =
     (case so of None \<Rightarrow> ''''
      | Some sel \<Rightarrow>
          join_with
            (map (\<lambda>k. k @ ''='' @ label_get (match_labels sel) k) (sorted_keys (match_labels sel)) @
             map requirement_summary (match_exprs sel)) '', '')"

definition peer_summary :: "peer \<Rightarrow> string" where
  "peer_summary p =
     (case p_kind p of
        PeerSelector \<Rightarrow>
          join_with
            ((case p_ns p of None \<Rightarrow> [] | Some s \<Rightarrow> [''ns '' @ orAny (selectorSummary (Some s)) ''any'']) @
             (case p_pod p of None \<Rightarrow> [] | Some s \<Rightarrow> [''pods '' @ orAny (selectorSummary (Some s)) ''any''])) '' ''
      | PeerNetworks \<Rightarrow> ''cidr '' @ join_with (p_cidrs p) '', ''
      | PeerNodes \<Rightarrow> ''nodes '' @ orAny (selectorSummary (p_nodes p)) ''any''
      | PeerCIDRSelector \<Rightarrow> p_cidrs p ! 0
      | PeerDNSName \<Rightarrow> p_dns p
      | PeerNodeSelector \<Rightarrow> ''cluster nodes''
      | PeerUnresolved \<Rightarrow> ''unresolved destination''
      | PeerAny \<Rightarrow> '''')"

definition port_summary :: "port \<Rightarrow> string" where
  "port_summary p =
     trim_prefix
       (po_protocol p @
        (if po_named p \<noteq> '''' then ''/'' @ po_named p
         else if po_start p = 0 then ''''
         else if po_start p = po_end p then ''/'' @ itoa (po_start p)
         else ''/'' @ itoa (po_start p) @ ''-'' @ itoa (po_end p))) ''/''"

definition peerSummary :: "pol_rule \<Rightarrow> string" where
  "peerSummary r = join_with (filter (\<lambda>s. s \<noteq> '''') (map peer_summary (r_peers r))) ''; ''"

definition portSummary :: "pol_rule \<Rightarrow> string" where
  "portSummary r = join_with (map port_summary (r_ports r)) '', ''"

record rule_view =
  rv_direction :: string
  rv_action :: string
  rv_peer :: string
  rv_ports :: string

definition rule_to_view :: "pol_rule \<Rightarrow> string \<Rightarrow> rule_view" where
  "rule_to_view r dir =
     \<lparr>rv_direction = dir, rv_action = r_action r, rv_peer = peerSummary r, rv_ports = portSummary r\<rparr>"

section \<open>What every decoder guarantees\<close>

text \<open>
  The shape each kind of peer has when a decoder made it: a CIDR selector has its one CIDR, so
  the index of \<open>peer_summary\<close> is in range, and only a namespace-less pod selector carries the
  policy's own namespace.
\<close>

definition peer_wf :: "peer \<Rightarrow> bool" where
  "peer_wf p =
     ((p_kind p = PeerCIDRSelector \<longrightarrow> length (p_cidrs p) = 1) \<and>
      (p_namespace p \<noteq> '''' \<longrightarrow> p_kind p = PeerSelector \<and> p_ns p = None) \<and>
      (p_kind p = PeerSelector \<longrightarrow> p_ns p \<noteq> None \<or> p_pod p \<noteq> None))"

definition rule_wf :: "pol_rule \<Rightarrow> bool" where
  "rule_wf r = list_all peer_wf (r_peers r)"

lemmas peer_defs = peer_of_def peer_wf_def

lemma netpol_peer_wf: "p \<in> set (netpol_peer ns d) \<Longrightarrow> peer_wf p"
  by (auto simp: netpol_peer_def peer_defs split: option.splits if_splits)

lemma admin_peer_wf: "p \<in> set (admin_peer d) \<Longrightarrow> peer_wf p"
  by (auto simp: admin_peer_def peer_defs split: option.splits if_splits)

lemma netpolRule_wf [simp]: "rule_wf (netpolRule peers ports ns)"
  by (auto simp: rule_wf_def netpolRule_def list_all_iff peer_defs dest: netpol_peer_wf[unfolded peer_defs])

lemma adminRule_wf [simp]: "rule_wf (adminRule action peers ports)"
  by (auto simp: rule_wf_def adminRule_def list_all_iff dest: admin_peer_wf)

lemma gatewayRule_wf [simp]: "rule_wf (gatewayRule r)"
  by (auto simp: rule_wf_def gatewayRule_def Let_def peer_defs)

lemma netpolRule_action [simp]: "r_action (netpolRule peers ports ns) = ''Allow''"
  by (simp add: netpolRule_def)

lemma gatewayRule_peers: "\<exists>p. r_peers (gatewayRule r) = [p]"
  by (auto simp: gatewayRule_def Let_def)

text \<open>A NetworkPolicy port names a protocol: TCP is the default the API gives an absent one.\<close>

lemma decode_port_protocol:
  "dp \<noteq> '''' \<Longrightarrow> pd_named_port d = None \<Longrightarrow> pd_port_range d = None \<Longrightarrow>
   po_protocol (decode_port dp d) \<noteq> ''''"
  by (auto simp: decode_port_def zero_port_def Let_def split: option.splits int_or_string.splits)

end
