(* ===== verification/Netstate_Policy.thy ===== *)
theory Netstate_Policy
  imports Netstate_Rule
begin

text \<open>
  \<open>internal/netstate/decode.go\<close>: one decoder per policy kind, over the stores of the
  \<open>Snapshot\<close> (\<open>netstate.go\<close>), into the policy every reader (Policies, Effective, Trace) uses.
  A live object is its identity, its owner references and its document: converting the
  unstructured object to the document is the Kubernetes library's. A store is a list of
  objects in the order the indexer happens to iterate.
\<close>

section \<open>Objects and stores\<close>

record 'd obj =
  o_name :: string
  o_namespace :: string
  o_owners :: "(string \<times> string) list"  \<comment> \<open>kind, name\<close>
  o_doc :: 'd

definition obj_key :: "'d obj \<Rightarrow> string" where
  "obj_key u = (if o_namespace u = '''' then o_name u else o_namespace u @ ''/'' @ o_name u)"

definition store_get :: "'d obj list \<Rightarrow> string \<Rightarrow> 'd obj option" where
  "store_get st key = find (\<lambda>u. obj_key u = key) st"

record nad_config =
  nad_topology :: string
  nad_vlan_id :: int
  nad_subnets :: string

text \<open>A NodeNetworkState interface is an untyped JSON object; a float is represented by its integer part.\<close>

datatype json_val = JString string | JInt int | JFloat int | JOther

type_synonym json_map = "string \<Rightarrow> json_val option"

record node_labels =
  nl_name :: string
  nl_labels :: labels

record snapshot =
  s_udn :: "network_doc obj list"
  s_cudn :: "network_doc obj list"
  s_nad :: "nad_config option obj list"
  s_nns :: "json_map option list option obj list"
  s_nncp :: "uplink_doc obj list"
  s_nmstate_present :: bool
  s_netpol :: "network_policy_doc obj list"
  s_anp :: "admin_network_policy_doc obj list"
  s_banp :: "admin_network_policy_doc obj list"
  s_egressfw :: "egress_firewall_doc obj list"
  s_egressip :: "egress_ip_doc obj list"
  s_extroute :: "external_route_doc obj list"
  s_nodes :: "node_labels list"

section \<open>Policies\<close>

datatype policy_kind = PolicyDFW | PolicyAdmin | PolicyBaseline | PolicyGateway
  | PolicyEgressIP | PolicyRoute

record policy_view =
  v_name :: string
  v_kind :: policy_kind
  v_namespace :: string
  v_backing :: string
  v_priority :: int
  v_target :: string
  v_namespaces :: "string list"
  v_rules :: "rule_view list"
  v_source_file :: string
  v_sync :: string
  v_health :: string
  v_sync_error :: string

definition view_of :: "string \<Rightarrow> policy_kind \<Rightarrow> string \<Rightarrow> string \<Rightarrow> policy_view" where
  "view_of name kind ns backing =
     \<lparr>v_name = name, v_kind = kind, v_namespace = ns, v_backing = backing, v_priority = 0,
      v_target = '''', v_namespaces = [], v_rules = [], v_source_file = '''', v_sync = '''',
      v_health = '''', v_sync_error = ''''\<rparr>"

record subject =
  sj_ns :: "label_selector option"
  sj_pod :: "label_selector option"
  sj_none :: bool

definition subject_of :: "label_selector option \<Rightarrow> label_selector option \<Rightarrow> subject" where
  "subject_of ns pod = \<lparr>sj_ns = ns, sj_pod = pod, sj_none = False\<rparr>"

definition no_subject :: subject where
  "no_subject = \<lparr>sj_ns = None, sj_pod = None, sj_none = True\<rparr>"

definition subject_summary :: "subject \<Rightarrow> string" where
  "subject_summary s =
     (if sj_none s then ''''
      else if sj_ns s = None then orAny (selectorSummary (sj_pod s)) ''all pods''
      else trim_space (orAny (selectorSummary (sj_ns s)) ''all namespaces'' @ '' '' @
             prefixed ''pods '' (selectorSummary (sj_pod s))))"

record policy =
  pol_view :: policy_view
  pol_subject :: subject
  pol_ingress :: "pol_rule list"
  pol_egress :: "pol_rule list"
  pol_deny_ingress :: bool
  pol_deny_egress :: bool

definition policy_of :: "policy_view \<Rightarrow> subject \<Rightarrow> policy" where
  "policy_of v s = \<lparr>pol_view = v, pol_subject = s, pol_ingress = [], pol_egress = [],
     pol_deny_ingress = False, pol_deny_egress = False\<rparr>"

definition policy_rules :: "policy \<Rightarrow> string \<Rightarrow> pol_rule list" where
  "policy_rules p dir = (if dir = ''Ingress'' then pol_ingress p else pol_egress p)"

definition finish :: "policy \<Rightarrow> policy" where
  "finish p = p\<lparr>pol_view := (pol_view p)\<lparr>
     v_target := subject_summary (pol_subject p),
     v_rules := v_rules (pol_view p) @
       map (\<lambda>r. rule_to_view r ''Ingress'') (pol_ingress p) @
       map (\<lambda>r. rule_to_view r ''Egress'') (pol_egress p)\<rparr>\<rparr>"

section \<open>Decoders\<close>

definition netpolTypes :: "network_policy_doc \<Rightarrow> bool \<times> bool" where
  "netpolTypes doc =
     (if npd_policy_types doc \<noteq> [] then
        (''Ingress'' \<in> set (npd_policy_types doc), ''Egress'' \<in> set (npd_policy_types doc))
      else (True, npd_egress doc \<noteq> None))"

definition decodeNetpol :: "network_policy_doc obj \<Rightarrow> policy" where
  "decodeNetpol u =
     (let doc = o_doc u; ns = o_namespace u in
      finish ((policy_of (view_of (o_name u) PolicyDFW ns ''NetworkPolicy'')
                 (subject_of None (Some (npd_pod_selector doc))))
        \<lparr>pol_deny_ingress := fst (netpolTypes doc),
         pol_deny_egress := snd (netpolTypes doc),
         pol_ingress := map (\<lambda>r. netpolRule (npr_from r) (npr_ports r) ns) (npd_ingress doc),
         pol_egress := map (\<lambda>r. netpolRule (npr_to r) (npr_ports r) ns)
           (case npd_egress doc of None \<Rightarrow> [] | Some rs \<Rightarrow> rs)\<rparr>))"

definition decodeAdmin :: "bool \<Rightarrow> admin_network_policy_doc obj \<Rightarrow> policy" where
  "decodeAdmin baseline u =
     (let doc = o_doc u;
          view = (if baseline
                  then view_of (o_name u) PolicyBaseline '''' ''BaselineAdminNetworkPolicy''
                  else (view_of (o_name u) PolicyAdmin '''' ''AdminNetworkPolicy'')\<lparr>v_priority := and_priority doc\<rparr>);
          subj = (case and_subject_namespaces doc of
                    Some ns \<Rightarrow> subject_of (Some ns) None
                  | None \<Rightarrow> (case and_subject_pods doc of
                      Some pods \<Rightarrow> subject_of (Some (np_namespace_selector pods)) (Some (np_pod_selector pods))
                    | None \<Rightarrow> no_subject))
      in finish ((policy_of (view\<lparr>v_namespaces := NamespaceNames (sj_ns subj)\<rparr>) subj)
        \<lparr>pol_ingress := map (\<lambda>r. adminRule (ar_action r) (ar_from r) (ar_ports r)) (and_ingress doc),
         pol_egress := map (\<lambda>r. adminRule (ar_action r) (ar_to r) (ar_ports r)) (and_egress doc)\<rparr>))"

definition decodeANP :: "admin_network_policy_doc obj \<Rightarrow> policy" where
  "decodeANP = decodeAdmin False"

definition decodeBANP :: "admin_network_policy_doc obj \<Rightarrow> policy" where
  "decodeBANP = decodeAdmin True"

definition decodeGateway :: "egress_firewall_doc obj \<Rightarrow> policy" where
  "decodeGateway u =
     finish ((policy_of (view_of (o_name u) PolicyGateway (o_namespace u) ''EgressFirewall'')
                (subject_of None None))
       \<lparr>pol_egress := map gatewayRule (efd_egress (o_doc u))\<rparr>)"

definition decodeEgressIP :: "egress_ip_doc obj \<Rightarrow> policy" where
  "decodeEgressIP u =
     (let doc = o_doc u;
          subj = subject_of (Some (eid_namespace_selector doc)) (Some (eid_pod_selector doc));
          view = (view_of (o_name u) PolicyEgressIP '''' ''EgressIP'')
            \<lparr>v_namespaces := NamespaceNames (sj_ns subj),
             v_rules := (if eid_egress_ips doc = [] then []
               else [\<lparr>rv_direction = ''Egress'', rv_action = ''SNAT'',
                      rv_peer = join_with (eid_egress_ips doc) '', '', rv_ports = ''''\<rparr>])\<rparr>
      in finish (policy_of view subj))"

definition decodeExtRoute :: "external_route_doc obj \<Rightarrow> policy" where
  "decodeExtRoute u =
     (let doc = o_doc u;
          subj = subject_of (Some (erd_from_namespace_selector doc)) None;
          ips = filter (\<lambda>ip. ip \<noteq> '''') (erd_next_hops doc);
          view = (view_of (o_name u) PolicyRoute '''' ''AdminPolicyBasedExternalRoute'')
            \<lparr>v_namespaces := NamespaceNames (sj_ns subj),
             v_rules := (if ips = [] then []
               else [\<lparr>rv_direction = ''Egress'', rv_action = ''Route'',
                      rv_peer = ''via '' @ join_with ips '', '', rv_ports = ''''\<rparr>])\<rparr>
      in finish (policy_of view subj))"

section \<open>Reading a store\<close>

definition decoded :: "'d obj list \<Rightarrow> ('d obj \<Rightarrow> policy) \<Rightarrow> policy list" where
  "decoded st dec = map dec st"

definition name_less :: "policy \<Rightarrow> policy \<Rightarrow> bool" where
  "name_less a b = (v_name (pol_view a) < v_name (pol_view b))"

definition inNamespace :: "'d obj list \<Rightarrow> string \<Rightarrow> ('d obj \<Rightarrow> policy) \<Rightarrow> policy list" where
  "inNamespace st ns dec = go_sort name_less (map dec (filter (\<lambda>u. o_namespace u = ns) st))"

definition anp_less :: "policy \<Rightarrow> policy \<Rightarrow> bool" where
  "anp_less a b =
     (if v_priority (pol_view a) \<noteq> v_priority (pol_view b)
      then v_priority (pol_view a) < v_priority (pol_view b)
      else v_name (pol_view a) < v_name (pol_view b))"

definition sortedANPs :: "snapshot \<Rightarrow> policy list" where
  "sortedANPs s = go_sort anp_less (decoded (s_anp s) decodeANP)"

definition baselines :: "snapshot \<Rightarrow> policy list" where
  "baselines s = decoded (s_banp s) decodeBANP"

definition gateways :: "snapshot \<Rightarrow> string \<Rightarrow> policy list" where
  "gateways s ns = inNamespace (s_egressfw s) ns decodeGateway"

section \<open>What the decoders guarantee\<close>

definition policy_wf :: "policy \<Rightarrow> bool" where
  "policy_wf p = list_all rule_wf (pol_ingress p @ pol_egress p)"

lemmas decoder_defs = decodeNetpol_def decodeAdmin_def decodeANP_def decodeBANP_def
  decodeGateway_def decodeEgressIP_def decodeExtRoute_def finish_def policy_of_def view_of_def
  subject_of_def no_subject_def Let_def

lemma decoded_policy_wf [simp]:
  "policy_wf (decodeNetpol u)" "policy_wf (decodeAdmin b v)" "policy_wf (decodeGateway w)"
  "policy_wf (decodeEgressIP x)" "policy_wf (decodeExtRoute y)"
  by (auto simp: policy_wf_def decoder_defs list_all_iff split: option.splits)

lemma decodeNetpol_rules: "r \<in> set (policy_rules (decodeNetpol u) dir) \<Longrightarrow> r_action r = ''Allow''"
  by (auto simp: policy_rules_def decoder_defs split: if_splits)

lemma decodeNetpol_subject [simp]:
  "sj_none (pol_subject (decodeNetpol u)) = False" "sj_ns (pol_subject (decodeNetpol u)) = None"
  "sj_pod (pol_subject (decodeNetpol u)) = Some (npd_pod_selector (o_doc u))"
  by (simp_all add: decoder_defs)

lemma decoded_names [simp]:
  "v_name (pol_view (decodeNetpol u)) = o_name u" "v_name (pol_view (decodeAdmin b v)) = o_name v"
  "v_name (pol_view (decodeGateway w)) = o_name w" "v_name (pol_view (decodeEgressIP x)) = o_name x"
  "v_name (pol_view (decodeExtRoute y)) = o_name y"
  by (simp_all add: decoder_defs)

lemma decoded_kinds [simp]:
  "v_kind (pol_view (decodeNetpol u)) = PolicyDFW"
  "v_kind (pol_view (decodeAdmin b v)) = (if b then PolicyBaseline else PolicyAdmin)"
  "v_kind (pol_view (decodeGateway w)) = PolicyGateway"
  "v_kind (pol_view (decodeEgressIP x)) = PolicyEgressIP"
  "v_kind (pol_view (decodeExtRoute y)) = PolicyRoute"
  by (simp_all add: decoder_defs)

lemma decoded_namespaces [simp]:
  "v_namespace (pol_view (decodeNetpol u)) = o_namespace u"
  "v_namespace (pol_view (decodeGateway w)) = o_namespace w"
  by (simp_all add: decoder_defs)

text \<open>The two orders the tiers are walked in.\<close>

interpretation anp_order: less_func anp_less
  by (rule less_func_key [where key = "\<lambda>p. (v_priority (pol_view p), v_name (pol_view p))"])
    (auto simp: anp_less_def less_prod_def')

interpretation name_order: less_func name_less
  by (rule less_func_key [where key = "\<lambda>p. v_name (pol_view p)"]) (simp add: name_less_def)

lemma sortedANPs_set: "p \<in> set (sortedANPs s) \<longleftrightarrow> (\<exists>u \<in> set (s_anp s). p = decodeANP u)"
  by (auto simp: sortedANPs_def decoded_def)

lemma inNamespace_set: "p \<in> set (inNamespace st ns dec) \<longleftrightarrow> (\<exists>u \<in> set st. o_namespace u = ns \<and> p = dec u)"
  by (auto simp: inNamespace_def)

end
