(* ===== verification/Netstate_Match.thy ===== *)
theory Netstate_Match
  imports Netstate_Policy Go_Netip
begin

text \<open>
  The three-valued matching of \<open>effective.go\<close> (subjects and selectors) and \<open>tracematch.go\<close>
  (a rule against a flow): yes, no, or conditional with the reason why it could not be
  resolved. The Kubernetes label library (\<open>LabelSelectorAsSelector\<close> followed by \<open>Matches\<close>) is
  the parameter \<open>ls\<close>: \<^const>\<open>None\<close> when the library rejects the selector.
\<close>

type_synonym selector_eval = "label_selector \<Rightarrow> labels \<Rightarrow> bool option"

datatype match = MatchNo | MatchYes | MatchCond

section \<open>Selectors and subjects\<close>

fun combineMatch :: "match \<Rightarrow> match \<Rightarrow> match" where
  "combineMatch a b =
     (if a = MatchNo \<or> b = MatchNo then MatchNo
      else if a = MatchCond \<or> b = MatchCond then MatchCond else MatchYes)"

definition matchSelector :: "selector_eval \<Rightarrow> label_selector option \<Rightarrow> labels \<Rightarrow> match" where
  "matchSelector ls so lbls =
     (if emptySelector so then MatchYes
      else case ls (the so) lbls of None \<Rightarrow> MatchCond
        | Some b \<Rightarrow> if b then MatchYes else MatchNo)"

definition podMatch :: "selector_eval \<Rightarrow> label_selector option \<Rightarrow> labels \<Rightarrow> bool \<Rightarrow> match" where
  "podMatch ls so podLabels podScoped =
     (if emptySelector so then MatchYes
      else if \<not> podScoped then MatchCond
      else matchSelector ls so podLabels)"

definition subject_match :: "selector_eval \<Rightarrow> subject \<Rightarrow> labels \<Rightarrow> labels \<Rightarrow> bool \<Rightarrow> match" where
  "subject_match ls s nsLabels podLabels podScoped =
     (if sj_none s then MatchNo
      else combineMatch (matchSelector ls (sj_ns s) nsLabels) (podMatch ls (sj_pod s) podLabels podScoped))"

record bound =
  b_pol :: policy
  b_m :: match

definition bind_policies :: "selector_eval \<Rightarrow> policy list \<Rightarrow> labels \<Rightarrow> labels \<Rightarrow> bool \<Rightarrow> bound list" where
  "bind_policies ls ps nsLabels podLabels podScoped =
     filter (\<lambda>b. b_m b \<noteq> MatchNo)
       (map (\<lambda>p. \<lparr>b_pol = p, b_m = subject_match ls (pol_subject p) nsLabels podLabels podScoped\<rparr>) ps)"

definition selectingNetpols :: "selector_eval \<Rightarrow> snapshot \<Rightarrow> string \<Rightarrow> labels \<Rightarrow> bool \<Rightarrow> bound list" where
  "selectingNetpols ls s ns podLabels podScoped =
     bind_policies ls (inNamespace (s_netpol s) ns decodeNetpol) [] podLabels podScoped"

definition egressBindings :: "selector_eval \<Rightarrow> snapshot \<Rightarrow> labels \<Rightarrow> labels \<Rightarrow> bool \<Rightarrow> bound list \<times> bound list" where
  "egressBindings ls s nsLabels podLabels podScoped =
     (bind_policies ls (decoded (s_egressip s) decodeEgressIP) nsLabels podLabels podScoped,
      bind_policies ls (decoded (s_extroute s) decodeExtRoute) nsLabels podLabels podScoped)"

section \<open>Rule components\<close>

record matched =
  m_m :: match
  m_reason :: string

definition mtch :: "match \<Rightarrow> matched" where
  "mtch m = \<lparr>m_m = m, m_reason = ''''\<rparr>"

definition mcond :: "string \<Rightarrow> matched" where
  "mcond reason = \<lparr>m_m = MatchCond, m_reason = reason\<rparr>"

text \<open>The loops of \<open>allOf\<close> and \<open>anyOf\<close>, their accumulator explicit.\<close>

fun allOf_from :: "matched \<Rightarrow> matched list \<Rightarrow> matched" where
  "allOf_from out [] = out"
| "allOf_from out (p # ps) =
     (if m_m p = MatchNo then mtch MatchNo
      else if m_m p = MatchCond then
        allOf_from (out\<lparr>m_m := MatchCond, m_reason := (if m_reason out = '''' then m_reason p else m_reason out)\<rparr>) ps
      else allOf_from out ps)"

definition allOf :: "matched list \<Rightarrow> matched" where
  "allOf parts = allOf_from (mtch MatchYes) parts"

fun anyOf_from :: "matched \<Rightarrow> matched list \<Rightarrow> matched" where
  "anyOf_from out [] = out"
| "anyOf_from out (p # ps) =
     (if m_m p = MatchYes then p
      else if m_m p = MatchCond \<and> m_m out = MatchNo then anyOf_from p ps
      else anyOf_from out ps)"

definition anyOf :: "matched list \<Rightarrow> matched" where
  "anyOf parts = anyOf_from (mtch MatchNo) parts"

definition reasonPortNeeded :: string where
  "reasonPortNeeded = ''the rule restricts ports; give a destination port to resolve it''"
definition reasonNamedPort :: string where
  "reasonNamedPort = ''a named port can't be resolved here''"
definition reasonNoAddrs :: string where
  "reasonNoAddrs = ''the VM reports no addresses (not running), so CIDR rules can't be resolved''"
definition reasonSelector :: string where
  "reasonSelector = ''a selector could not be resolved''"
definition reasonSubject :: string where
  "reasonSubject = ''the policy's subject selector could not be resolved''"
definition reasonNodePeer :: string where
  "reasonNodePeer = ''a node-selector rule - whether this address is a cluster node is unknown here''"
definition reasonDNSName :: "string \<Rightarrow> string" where
  "reasonDNSName dns = ''DNS-name rule ('' @ dns @ '') - resolution unknown here''"
definition reasonUnresolved :: string where
  "reasonUnresolved = ''a destination form this trace cannot resolve''"

section \<open>Workloads and targets\<close>

record workload =
  w_namespace :: string
  w_name :: string
  w_ns_labels :: labels
  w_pod_labels :: labels
  w_ips :: "string list"
  w_pod_net :: bool
  w_default_net :: string
  w_nets :: "string list"

text \<open>\<open>peerTarget\<close>: the workload, or the bare address when there is none.\<close>

datatype peer_target = TWorkload workload | TAddr string

fun target_addrs :: "peer_target \<Rightarrow> string list" where
  "target_addrs (TWorkload w) = w_ips w"
| "target_addrs (TAddr ip) = [ip]"

definition selMatch :: "selector_eval \<Rightarrow> label_selector option \<Rightarrow> labels \<Rightarrow> matched" where
  "selMatch ls so lbls =
     (let m = matchSelector ls so lbls in
      if m = MatchCond then mcond reasonSelector else mtch m)"

text \<open>\<open>resolveAddrs\<close>: the parseable addresses, or the conditional match.\<close>

definition resolveAddrs :: "peer_target \<Rightarrow> matched + addr list" where
  "resolveAddrs t =
     (let raw = target_addrs t in
      if raw = [] \<or> raw = [''''] then Inl (mcond reasonNoAddrs)
      else Inr (List.map_filter parse_addr raw))"

definition excepted :: "addr \<Rightarrow> string list \<Rightarrow> bool" where
  "excepted ad ex =
     list_ex (\<lambda>e. case parse_prefix e of None \<Rightarrow> False | Some ep \<Rightarrow> prefix_contains ep ad) ex"

definition cidr_hit :: "string list \<Rightarrow> string list \<Rightarrow> addr list \<Rightarrow> bool" where
  "cidr_hit cidrs ex addrs =
     list_ex (\<lambda>c. case parse_prefix c of None \<Rightarrow> False
       | Some pfx \<Rightarrow> list_ex (\<lambda>ad. prefix_contains pfx ad \<and> \<not> excepted ad ex) addrs) cidrs"

definition cidrsMatch :: "string list \<Rightarrow> string list \<Rightarrow> peer_target \<Rightarrow> matched" where
  "cidrsMatch cidrs ex t =
     (case resolveAddrs t of
        Inl cond \<Rightarrow> cond
      | Inr addrs \<Rightarrow> if cidr_hit cidrs ex addrs then mtch MatchYes else mtch MatchNo)"

definition peer_match :: "selector_eval \<Rightarrow> peer \<Rightarrow> peer_target \<Rightarrow> matched" where
  "peer_match ls p t =
     (case p_kind p of
        PeerAny \<Rightarrow> mtch MatchYes
      | PeerSelector \<Rightarrow>
          (case t of
             TAddr _ \<Rightarrow> mtch MatchNo
           | TWorkload w \<Rightarrow>
               if p_namespace p \<noteq> '''' \<and> w_namespace w \<noteq> p_namespace p then mtch MatchNo
               else allOf [selMatch ls (p_ns p) (w_ns_labels w), selMatch ls (p_pod p) (w_pod_labels w)])
      | PeerNetworks \<Rightarrow> cidrsMatch (p_cidrs p) (p_except p) t
      | PeerCIDRSelector \<Rightarrow> cidrsMatch (p_cidrs p) (p_except p) t
      | PeerNodes \<Rightarrow> (case t of TWorkload _ \<Rightarrow> mtch MatchNo | TAddr _ \<Rightarrow> mcond reasonNodePeer)
      | PeerNodeSelector \<Rightarrow> (case t of TWorkload _ \<Rightarrow> mtch MatchNo | TAddr _ \<Rightarrow> mcond reasonNodePeer)
      | PeerDNSName \<Rightarrow> mcond (reasonDNSName (p_dns p))
      | PeerUnresolved \<Rightarrow> mcond reasonUnresolved)"

definition port_match :: "port \<Rightarrow> string \<Rightarrow> int \<Rightarrow> matched" where
  "port_match p protocol port =
     (if po_protocol p \<noteq> '''' \<and> \<not> equal_fold (po_protocol p) protocol then mtch MatchNo
      else if po_named p \<noteq> '''' then mcond reasonNamedPort
      else if po_start p = 0 then mtch MatchYes
      else if port = 0 then mcond reasonPortNeeded
      else if po_start p \<le> port \<and> port \<le> po_end p then mtch MatchYes
      else mtch MatchNo)"

definition rule_match :: "selector_eval \<Rightarrow> pol_rule \<Rightarrow> peer_target \<Rightarrow> string \<Rightarrow> int \<Rightarrow> matched" where
  "rule_match ls r t protocol port =
     (let peers = map (\<lambda>p. peer_match ls p t) (r_peers r);
          ports = (if r_ports r = [] then mtch MatchYes
                   else anyOf (map (\<lambda>p. port_match p protocol port) (r_ports r)))
      in allOf [anyOf peers, ports])"

section \<open>Kleene laws\<close>

lemma mtch_sel [simp]: "m_m (mtch m) = m" "m_reason (mtch m) = ''''"
  by (simp_all add: mtch_def)

lemma mcond_sel [simp]: "m_m (mcond r) = MatchCond" "m_reason (mcond r) = r"
  by (simp_all add: mcond_def)

lemma allOf_from_m:
  "m_m (allOf_from out ps) =
     (if \<exists>p \<in> set ps. m_m p = MatchNo then MatchNo
      else if \<exists>p \<in> set ps. m_m p = MatchCond then MatchCond else m_m out)"
  by (induction out ps rule: allOf_from.induct) auto

lemma allOf_m:
  "m_m (allOf ps) =
     (if \<exists>p \<in> set ps. m_m p = MatchNo then MatchNo
      else if \<exists>p \<in> set ps. m_m p = MatchCond then MatchCond else MatchYes)"
  by (simp add: allOf_def allOf_from_m)

lemma anyOf_from_m:
  "m_m out \<noteq> MatchYes \<Longrightarrow> m_m (anyOf_from out ps) =
     (if \<exists>p \<in> set ps. m_m p = MatchYes then MatchYes
      else if m_m out = MatchCond \<or> (\<exists>p \<in> set ps. m_m p = MatchCond) then MatchCond else MatchNo)"
  by (induction out ps rule: anyOf_from.induct) (auto, (metis match.exhaust)+)

lemma anyOf_m:
  "m_m (anyOf ps) =
     (if \<exists>p \<in> set ps. m_m p = MatchYes then MatchYes
      else if \<exists>p \<in> set ps. m_m p = MatchCond then MatchCond else MatchNo)"
  by (simp add: anyOf_def anyOf_from_m)

lemma combineMatch_allOf: "combineMatch a b = m_m (allOf [mtch a, mtch b])"
  by (cases a; cases b) (simp_all add: allOf_m)

lemma bind_policies_mem:
  "b \<in> set (bind_policies ls ps nl pl scoped) \<longleftrightarrow>
     (\<exists>p \<in> set ps. b = \<lparr>b_pol = p, b_m = subject_match ls (pol_subject p) nl pl scoped\<rparr> \<and>
        subject_match ls (pol_subject p) nl pl scoped \<noteq> MatchNo)"
  by (auto simp: bind_policies_def)

lemma selectingNetpols_mem:
  "b \<in> set (selectingNetpols ls s ns pl scoped) \<Longrightarrow>
     (\<exists>u \<in> set (s_netpol s). o_namespace u = ns \<and> b_pol b = decodeNetpol u) \<and> b_m b \<noteq> MatchNo"
  by (auto simp: selectingNetpols_def bind_policies_mem inNamespace_set)

section \<open>Reasons\<close>

text \<open>Every conditional match says why.\<close>

definition reasoned :: "matched \<Rightarrow> bool" where
  "reasoned m = (m_m m = MatchCond \<longrightarrow> m_reason m \<noteq> '''')"

lemmas reason_defs = reasonPortNeeded_def reasonNamedPort_def reasonNoAddrs_def reasonSelector_def
  reasonSubject_def reasonNodePeer_def reasonDNSName_def reasonUnresolved_def

lemma reasoned_basic [simp]:
  "reasoned (mtch m) = (m \<noteq> MatchCond)" "reasoned (mcond r) = (r \<noteq> '''')"
  by (simp_all add: reasoned_def)

lemma reasoned_allOf_from: "reasoned out \<Longrightarrow> list_all reasoned ps \<Longrightarrow> reasoned (allOf_from out ps)"
  by (induction out ps rule: allOf_from.induct) (auto simp: reasoned_def)

lemma reasoned_allOf [simp]: "list_all reasoned ps \<Longrightarrow> reasoned (allOf ps)"
  by (simp add: allOf_def reasoned_allOf_from)

lemma reasoned_anyOf_from: "reasoned out \<Longrightarrow> list_all reasoned ps \<Longrightarrow> reasoned (anyOf_from out ps)"
  by (induction out ps rule: anyOf_from.induct) auto

lemma reasoned_anyOf [simp]: "list_all reasoned ps \<Longrightarrow> reasoned (anyOf ps)"
  by (simp add: anyOf_def reasoned_anyOf_from)

lemma reasoned_selMatch [simp]: "reasoned (selMatch ls so l)"
  by (simp add: selMatch_def Let_def reason_defs)

lemma reasoned_cidrsMatch [simp]: "reasoned (cidrsMatch c e t)"
  by (auto simp: cidrsMatch_def resolveAddrs_def Let_def reason_defs split: sum.splits if_splits)

lemma reasoned_peer_match [simp]: "reasoned (peer_match ls p t)"
  by (auto simp: peer_match_def reason_defs split: peer_kind.splits peer_target.splits)

lemma reasoned_port_match [simp]: "reasoned (port_match p proto n)"
  by (auto simp: port_match_def reason_defs)

lemma reasoned_rule_match [simp]: "reasoned (rule_match ls r t proto n)"
  by (auto simp: rule_match_def Let_def list_all_iff intro!: reasoned_allOf reasoned_anyOf)

end
