(* ===== verification/Netstate_Topology.thy ===== *)
theory Netstate_Topology
  imports Netstate_Match
begin

text \<open>
  \<open>internal/netstate/topology.go\<close> and the connectivity check of \<open>trace.go\<close>: which primary
  network an endpoint sits on, and which secondary segments two endpoints share. The segment
  identity is a string key as in the code. \<open>store_get\<close> stands for the lookup of the NAD store
  by its \<open>namespace/name\<close> key.
\<close>

section \<open>Segments\<close>

text \<open>The first owner reference of a user-defined network decides.\<close>

fun owner_segment :: "string \<Rightarrow> (string \<times> string) list \<Rightarrow> (string \<times> string) option" where
  "owner_segment ref [] = None"
| "owner_segment ref ((kind, name) # refs) =
     (if kind = ''ClusterUserDefinedNetwork'' then Some (''cudn:'' @ name, name)
      else if kind = ''UserDefinedNetwork'' then Some (''udn:'' @ ref, name)
      else owner_segment ref refs)"

definition segmentKey :: "snapshot \<Rightarrow> string \<Rightarrow> string \<times> string" where
  "segmentKey s ref =
     (case store_get (s_nad s) ref of
        None \<Rightarrow> (''nad:'' @ ref, ref)
      | Some u \<Rightarrow> (case owner_segment ref (o_owners u) of
          Some kd \<Rightarrow> kd
        | None \<Rightarrow> (''nad:'' @ ref, ref)))"

definition isLocalnet :: "snapshot \<Rightarrow> string \<Rightarrow> bool" where
  "isLocalnet s ref =
     (case store_get (s_nad s) ref of
        None \<Rightarrow> False
      | Some u \<Rightarrow> (case o_doc u of None \<Rightarrow> False
          | Some c \<Rightarrow> equal_fold (nad_topology c) ''localnet''))"

text \<open>\<open>sharedSegments\<close>: \<open>seen\<close> maps the keys of \<open>a\<close> to names (the last reference of a key
  wins), and each key of \<open>b\<close> found there is added once.\<close>

fun shared_loop :: "(string \<Rightarrow> string option) \<Rightarrow> string list \<Rightarrow> string list \<Rightarrow> string list" where
  "shared_loop seen added [] = []"
| "shared_loop seen added (k # ks) =
     (case seen k of
        Some name \<Rightarrow> (if k \<in> set added then shared_loop seen added ks
                      else name # shared_loop seen (k # added) ks)
      | None \<Rightarrow> shared_loop seen added ks)"

definition sharedSegments :: "snapshot \<Rightarrow> string list \<Rightarrow> string list \<Rightarrow> string list" where
  "sharedSegments s a b =
     (let seen = foldl (\<lambda>m ref. m(fst (segmentKey s ref) \<mapsto> snd (segmentKey s ref))) Map.empty a
      in sort (shared_loop seen [] (map (\<lambda>ref. fst (segmentKey s ref)) b)))"

section \<open>Primary networks\<close>

definition udn_primary :: "snapshot \<Rightarrow> string \<Rightarrow> (string \<times> string) option" where
  "udn_primary s ns =
     map_option (\<lambda>u. (''udn:'' @ ns @ ''/'' @ o_name u, ''network '' @ o_name u))
       (find (\<lambda>u. o_namespace u = ns \<and> equal_fold (Role (nd_config (o_doc u))) ''Primary'') (s_udn s))"

definition cudn_sits_in :: "snapshot \<Rightarrow> string \<Rightarrow> string \<Rightarrow> bool" where
  "cudn_sits_in s ns cudn =
     list_ex (\<lambda>nad. o_namespace nad = ns \<and>
       list_ex (\<lambda>(kind, name). kind = ''ClusterUserDefinedNetwork'' \<and> name = cudn) (o_owners nad)) (s_nad s)"

definition cudn_primary :: "snapshot \<Rightarrow> string \<Rightarrow> (string \<times> string) option" where
  "cudn_primary s ns =
     map_option (\<lambda>u. (''cudn:'' @ o_name u, ''shared network '' @ o_name u))
       (find (\<lambda>u. equal_fold (Role (nd_network (o_doc u))) ''Primary'' \<and> cudn_sits_in s ns (o_name u)) (s_cudn s))"

definition primaryDomain :: "snapshot \<Rightarrow> string \<Rightarrow> string \<times> string" where
  "primaryDomain s ns =
     (case udn_primary s ns of
        Some kd \<Rightarrow> kd
      | None \<Rightarrow> (case cudn_primary s ns of
          Some kd \<Rightarrow> kd
        | None \<Rightarrow> (''default'', ''the cluster default network'')))"

definition primaryOf :: "snapshot \<Rightarrow> workload \<Rightarrow> string \<times> string" where
  "primaryOf s w =
     (if w_default_net w \<noteq> '''' then
        (fst (segmentKey s (w_default_net w)), ''network '' @ snd (segmentKey s (w_default_net w)))
      else if \<not> w_pod_net w then ('''', '''')
      else primaryDomain s (w_namespace w))"

section \<open>Trace steps\<close>

record trace_step =
  ts_stage :: string
  ts_direction :: string
  ts_policy :: "policy_view option"
  ts_rule :: "rule_view option"
  ts_action :: string
  ts_conditional :: bool
  ts_decisive :: bool
  ts_note :: string

definition plain_step :: "string \<Rightarrow> string \<Rightarrow> bool \<Rightarrow> string \<Rightarrow> trace_step" where
  "plain_step stage action decisive note =
     \<lparr>ts_stage = stage, ts_direction = '''', ts_policy = None, ts_rule = None, ts_action = action,
      ts_conditional = False, ts_decisive = decisive, ts_note = note\<rparr>"

definition connectivity :: "snapshot \<Rightarrow> workload \<Rightarrow> workload \<Rightarrow> bool \<times> trace_step list" where
  "connectivity s src dst =
     (let (srcKey, srcName) = primaryOf s src;
          (dstKey, dstName) = primaryOf s dst;
          reachable = (srcKey \<noteq> '''' \<and> srcKey = dstKey);
          frame =
            (if reachable then
               plain_step ''connectivity'' ''Reachable'' False
                 (''Both workloads attach '' @ srcName @ ''.'')
             else if srcKey = '''' \<or> dstKey = '''' then
               plain_step ''connectivity'' ''Unreachable'' True
                 ((if srcKey \<noteq> '''' then w_name dst else w_name src) @ '' has no primary network attachment.'')
             else
               plain_step ''connectivity'' ''Unreachable'' True
                 (''Isolated primary networks: '' @ w_name src @ '' is on '' @ srcName @ '', '' @
                  w_name dst @ '' on '' @ dstName @ ''.''));
          bypass = map (\<lambda>name. plain_step ''segment'' ''Bypass'' False
            (''Both attach segment '' @ name @
             '' - an unfiltered layer-2 path; east-west policy does not apply on secondary segments.''))
            (sharedSegments s (w_nets src) (w_nets dst))
      in (reachable, frame # bypass))"

definition externalConnectivity :: "snapshot \<Rightarrow> workload \<Rightarrow> string \<Rightarrow> trace_step list" where
  "externalConnectivity s src dstIP =
     plain_step ''connectivity'' ''Reachable'' False
       (''Cluster egress path to '' @ dstIP @ '', evaluated against the source's egress controls.'') #
     map (\<lambda>ref. plain_step ''segment'' ''Bypass'' False
         (''NIC on VLAN segment '' @ snd (segmentKey s ref) @ '' - traffic leaving through it bypasses these controls.''))
       (filter (isLocalnet s) (w_nets src))"

section \<open>Properties\<close>

lemma connectivity_reachable:
  "fst (connectivity s src dst) \<longleftrightarrow>
     fst (primaryOf s src) \<noteq> '''' \<and> fst (primaryOf s src) = fst (primaryOf s dst)"
  by (simp add: connectivity_def Let_def split: prod.splits)

lemma connectivity_steps:
  "\<exists>frame bypass. snd (connectivity s src dst) = frame # bypass \<and>
     ts_decisive frame = (\<not> fst (connectivity s src dst)) \<and>
     list_all (\<lambda>st. ts_action st = ''Bypass'' \<and> \<not> ts_decisive st) bypass"
  by (auto simp: connectivity_def plain_step_def Let_def list_all_iff split: prod.splits)

text \<open>A segment is shared exactly when both ends have a NIC on it.\<close>

lemma seen_map_dom: "dom (foldl (\<lambda>m ref. m(f ref \<mapsto> g ref)) m0 a) = dom m0 \<union> f ` set a"
  by (induction a arbitrary: m0) auto

lemma shared_loop_set:
  "set (shared_loop seen added ks) = {name. \<exists>k \<in> set ks. k \<notin> set added \<and> seen k = Some name}"
proof (induction seen added ks rule: shared_loop.induct)
  case (1 seen added)
  then show ?case by simp
next
  case (2 seen added k ks)
  show ?case
  proof (cases "seen k")
    case None
    with 2 show ?thesis by auto
  next
    case (Some name)
    show ?thesis
    proof (cases "k \<in> set added")
      case True
      with Some 2 show ?thesis by auto
    next
      case False
      have "set (shared_loop seen added (k # ks)) =
              insert name {n. \<exists>j \<in> set ks. j \<notin> set (k # added) \<and> seen j = Some n}"
        using Some False 2 by simp
      also have "\<dots> = {n. \<exists>j \<in> set (k # ks). j \<notin> set added \<and> seen j = Some n}"
      proof (intro set_eqI iffI)
        fix n
        assume "n \<in> {n. \<exists>j \<in> set (k # ks). j \<notin> set added \<and> seen j = Some n}"
        then obtain j where "j \<in> set (k # ks)" "j \<notin> set added" "seen j = Some n" by auto
        with Some show "n \<in> insert name {n. \<exists>j \<in> set ks. j \<notin> set (k # added) \<and> seen j = Some n}"
          by (cases "j = k") auto
      qed (use Some False in auto)
      finally show ?thesis .
    qed
  qed
qed

lemma sort_eq_Nil: "sort xs = [] \<longleftrightarrow> xs = []"
  by (metis length_0_conv length_sort)

lemma sharedSegments_nonempty_iff:
  "sharedSegments s a b \<noteq> [] \<longleftrightarrow>
     (\<exists>x \<in> set a. \<exists>y \<in> set b. fst (segmentKey s x) = fst (segmentKey s y))"
proof -
  let ?f = "\<lambda>ref. fst (segmentKey s ref)" and ?g = "\<lambda>ref. snd (segmentKey s ref)"
  let ?seen = "foldl (\<lambda>m ref. m(?f ref \<mapsto> ?g ref)) Map.empty a"
  have "sharedSegments s a b \<noteq> [] \<longleftrightarrow> set (shared_loop ?seen [] (map ?f b)) \<noteq> {}"
    by (simp add: sharedSegments_def sort_eq_Nil)
  also have "\<dots> \<longleftrightarrow> (\<exists>y \<in> set b. ?f y \<in> dom ?seen)"
    by (auto simp: shared_loop_set)
  also have "\<dots> \<longleftrightarrow> (\<exists>y \<in> set b. ?f y \<in> ?f ` set a)"
    by (simp add: seen_map_dom)
  also have "\<dots> \<longleftrightarrow> (\<exists>x \<in> set a. \<exists>y \<in> set b. ?f x = ?f y)"
    by (metis (no_types, lifting) imageE imageI)
  finally show ?thesis .
qed

end
