(* ===== verification/Netstate_Trace.thy ===== *)
theory Netstate_Trace
  imports Netstate_Topology
begin

text \<open>
  \<open>internal/netstate/trace.go\<close>: one flow simulated through the policy planes. A walk's state is
  its steps and the actions of the maybe-matching rules seen so far; the early returns of the
  Go loops are the values of \<open>tier_exit\<close>. Every handler is the whole of the Go function,
  with the steps it reports.
\<close>

section \<open>The walk\<close>

record walk =
  wk_dir :: string
  wk_steps :: "trace_step list"
  wk_conds :: "string list"

record walk_result =
  wr_steps :: "trace_step list"
  wr_outcome :: string

definition new_walk :: "string \<Rightarrow> walk" where
  "new_walk dir = \<lparr>wk_dir = dir, wk_steps = [], wk_conds = []\<rparr>"

definition addStep :: "walk \<Rightarrow> policy_view option \<Rightarrow> rule_view option \<Rightarrow> string \<Rightarrow> string \<Rightarrow> string \<Rightarrow> bool \<Rightarrow> bool \<Rightarrow> walk" where
  "addStep w pol rule stage action note cond decisive =
     w\<lparr>wk_steps := wk_steps w @
       [\<lparr>ts_stage = stage, ts_direction = wk_dir w,
         ts_policy = map_option (\<lambda>p. p\<lparr>v_rules := []\<rparr>) pol, ts_rule = rule, ts_action = action,
         ts_conditional = cond, ts_decisive = decisive, ts_note = note\<rparr>]\<rparr>"

definition walk_maybe :: "walk \<Rightarrow> policy_view \<Rightarrow> rule_view \<Rightarrow> string \<Rightarrow> string \<Rightarrow> string \<Rightarrow> walk" where
  "walk_maybe w pol rule stage action reason =
     (addStep w (Some pol) (Some rule) stage action (''May match: '' @ reason @ ''.'') True False)
       \<lparr>wk_conds := wk_conds w @ [action]\<rparr>"

definition walk_result_of :: "walk \<Rightarrow> string \<Rightarrow> walk_result" where
  "walk_result_of w outcome = \<lparr>wr_steps = wk_steps w, wr_outcome = outcome\<rparr>"

definition decide :: "walk \<Rightarrow> string \<Rightarrow> walk_result" where
  "decide w action =
     (if list_ex (\<lambda>a. a \<noteq> action) (wk_conds w) then walk_result_of w ''Conditional''
      else walk_result_of w action)"

text \<open>\<open>verdict\<close> combines the outcomes.\<close>

definition verdict :: "walk_result list \<Rightarrow> string" where
  "verdict rs =
     (if list_ex (\<lambda>r. wr_outcome r = ''Deny'') rs then ''Deny''
      else if list_ex (\<lambda>r. wr_outcome r = ''Conditional'') rs then ''Conditional''
      else ''Allow'')"

section \<open>One tier\<close>

text \<open>How a loop over rules ends: it ran out, or it returned, with an outcome or without (a
  Pass delegates to the tiers below).\<close>

datatype tier_exit = RanOut walk | Returned walk "walk_result option"

record flow_query =
  fq_dir :: string
  fq_peer :: peer_target
  fq_protocol :: string
  fq_port :: int

text \<open>The subject's verdict with its reason, \<open>sm\<close> of \<open>adminTier\<close>.\<close>

definition subject_matched :: "bound \<Rightarrow> matched" where
  "subject_matched b = (if b_m b = MatchCond then mcond reasonSubject else mtch (b_m b))"

fun admin_rules :: "selector_eval \<Rightarrow> flow_query \<Rightarrow> string \<Rightarrow> bool \<Rightarrow> bound \<Rightarrow> pol_rule list \<Rightarrow> walk \<Rightarrow> tier_exit" where
  "admin_rules ls q stage baseline b [] w = RanOut w"
| "admin_rules ls q stage baseline b (r # rs) w =
     (let m = allOf [subject_matched b, rule_match ls r (fq_peer q) (fq_protocol q) (fq_port q)];
          view = pol_view (b_pol b);
          rv = rule_to_view r (fq_dir q)
      in if m_m m = MatchNo then admin_rules ls q stage baseline b rs w
         else if m_m m = MatchCond then
           admin_rules ls q stage baseline b rs (walk_maybe w view rv stage (r_action r) (m_reason m))
         else if \<not> baseline \<and> r_action r = ''Pass'' then
           Returned (addStep w (Some view) (Some rv) stage (r_action r)
             ''Delegates this flow to the project tier.'' False True) None
         else
           (let w' = addStep w (Some view) (Some rv) stage (r_action r) '''' False True
            in Returned w' (Some (decide w' (r_action r)))))"

fun adminTier :: "selector_eval \<Rightarrow> flow_query \<Rightarrow> string \<Rightarrow> bound list \<Rightarrow> walk \<Rightarrow> tier_exit" where
  "adminTier ls q stage [] w = RanOut w"
| "adminTier ls q stage (b # bs) w =
     (case admin_rules ls q stage (stage = ''baseline'') b (policy_rules (b_pol b) (fq_dir q)) w of
        RanOut w' \<Rightarrow> adminTier ls q stage bs w'
      | Returned w' res \<Rightarrow> Returned w' res)"

fun dfw_rules :: "selector_eval \<Rightarrow> flow_query \<Rightarrow> bound \<Rightarrow> pol_rule list \<Rightarrow> walk \<Rightarrow> tier_exit" where
  "dfw_rules ls q b [] w = RanOut w"
| "dfw_rules ls q b (r # rs) w =
     (let m = rule_match ls r (fq_peer q) (fq_protocol q) (fq_port q);
          view = pol_view (b_pol b);
          rv = rule_to_view r (fq_dir q)
      in if m_m m = MatchNo then dfw_rules ls q b rs w
         else if m_m m = MatchCond then
           dfw_rules ls q b rs (walk_maybe w view rv ''dfw'' (r_action r) (m_reason m))
         else
           (let w' = addStep w (Some view) (Some rv) ''dfw'' (r_action r) '''' False True
            in Returned w' (Some (decide w' (r_action r)))))"

fun dfwTier :: "selector_eval \<Rightarrow> flow_query \<Rightarrow> bound list \<Rightarrow> walk \<Rightarrow> tier_exit" where
  "dfwTier ls q [] w = RanOut w"
| "dfwTier ls q (b # bs) w =
     (case dfw_rules ls q b (policy_rules (b_pol b) (fq_dir q)) w of
        RanOut w' \<Rightarrow> dfwTier ls q bs w'
      | Returned w' res \<Rightarrow> Returned w' res)"

definition plural :: "nat \<Rightarrow> string \<Rightarrow> string \<Rightarrow> string" where
  "plural n one many = (if n = 1 then one else many)"

section \<open>One direction\<close>

text \<open>The NetworkPolicies that isolate this direction of the subject.\<close>

definition isolating :: "string \<Rightarrow> bound \<Rightarrow> bool" where
  "isolating dir b =
     (\<not> ((dir = ''Ingress'' \<and> \<not> pol_deny_ingress (b_pol b)) \<or>
         (dir = ''Egress'' \<and> \<not> pol_deny_egress (b_pol b))))"

definition selecting_for :: "selector_eval \<Rightarrow> snapshot \<Rightarrow> string \<Rightarrow> workload \<Rightarrow> bound list" where
  "selecting_for ls s dir subj =
     filter (isolating dir) (selectingNetpols ls s (w_namespace subj) (w_pod_labels subj) True)"

definition isolation_note :: "string \<Rightarrow> nat \<Rightarrow> string" where
  "isolation_note dir n =
     ''Selected by '' @ nat_to_dec n @ '' project '' @ plural n ''policy'' ''policies'' @ '' for '' @
     to_lower dir @ ''; no rule allows this flow.''"

definition project_tier :: "selector_eval \<Rightarrow> flow_query \<Rightarrow> bound list \<Rightarrow> walk \<Rightarrow> walk_result" where
  "project_tier ls q selecting w =
     (case dfwTier ls q selecting w of
        Returned w' (Some res) \<Rightarrow> res
      | Returned w' None \<Rightarrow> walk_result_of w' ''''  \<comment> \<open>never: this tier always returns an outcome\<close>
      | RanOut w' \<Rightarrow>
          (let note = isolation_note (fq_dir q) (length selecting);
               first = pol_view (b_pol (hd selecting));
               definite = length (filter (\<lambda>b. b_m b = MatchYes) selecting)
           in if definite = 0 then
                walk_result_of (addStep w' (Some first) None ''dfw'' ''Deny''
                  (note @ '' Selection could not be resolved.'') True False) ''Conditional''
              else
                decide (addStep w' (Some first) None ''dfw'' ''Deny'' note False True) ''Deny''))"

definition lower_tiers :: "selector_eval \<Rightarrow> snapshot \<Rightarrow> flow_query \<Rightarrow> workload \<Rightarrow> walk \<Rightarrow> walk_result" where
  "lower_tiers ls s q subj w0 =
     (let w = w0\<lparr>wk_conds := filter (\<lambda>a. a \<noteq> ''Pass'') (wk_conds w0)\<rparr>;
          selecting = selecting_for ls s (fq_dir q) subj
      in if selecting \<noteq> [] then project_tier ls q selecting w
         else case adminTier ls q ''baseline''
                (bind_policies ls (baselines s) (w_ns_labels subj) (w_pod_labels subj) True) w of
             Returned w' (Some res) \<Rightarrow> res
           | Returned w' None \<Rightarrow>
               decide (addStep w' None None ''default'' ''Allow''
                 ''No policy matches this flow - the network default allows it.'' False True) ''Allow''
           | RanOut w' \<Rightarrow>
               decide (addStep w' None None ''default'' ''Allow''
                 ''No policy matches this flow - the network default allows it.'' False True) ''Allow'')"

definition directionWalk :: "selector_eval \<Rightarrow> snapshot \<Rightarrow> flow_query \<Rightarrow> workload \<Rightarrow> walk_result" where
  "directionWalk ls s q subj =
     (case adminTier ls q ''admin''
             (bind_policies ls (sortedANPs s) (w_ns_labels subj) (w_pod_labels subj) True)
             (new_walk (fq_dir q)) of
        Returned w (Some res) \<Rightarrow> res
      | Returned w None \<Rightarrow> lower_tiers ls s q subj w
      | RanOut w \<Rightarrow> lower_tiers ls s q subj w)"

section \<open>The gateway and the informational planes\<close>

fun gateway_rules :: "selector_eval \<Rightarrow> flow_query \<Rightarrow> policy \<Rightarrow> pol_rule list \<Rightarrow> walk \<Rightarrow> tier_exit" where
  "gateway_rules ls q p [] w = RanOut w"
| "gateway_rules ls q p (r # rs) w =
     (let m = rule_match ls r (fq_peer q) (fq_protocol q) (fq_port q);
          rv = rule_to_view r ''Egress''
      in if m_m m = MatchNo then gateway_rules ls q p rs w
         else if m_m m = MatchCond then
           gateway_rules ls q p rs (walk_maybe w (pol_view p) rv ''gateway'' (r_action r) (m_reason m))
         else
           (let w' = addStep w (Some (pol_view p)) (Some rv) ''gateway'' (r_action r) '''' False True
            in Returned w' (Some (decide w' (r_action r)))))"

fun gatewayTier :: "selector_eval \<Rightarrow> flow_query \<Rightarrow> policy list \<Rightarrow> walk \<Rightarrow> tier_exit" where
  "gatewayTier ls q [] w = RanOut w"
| "gatewayTier ls q (p # ps) w =
     (case gateway_rules ls q p (pol_egress p) w of
        RanOut w' \<Rightarrow> gatewayTier ls q ps w'
      | Returned w' res \<Rightarrow> Returned w' res)"

definition gatewayWalk :: "selector_eval \<Rightarrow> snapshot \<Rightarrow> string \<Rightarrow> string \<Rightarrow> string \<Rightarrow> int \<Rightarrow> walk_result" where
  "gatewayWalk ls s ns dstIP protocol port =
     (let q = \<lparr>fq_dir = ''Egress'', fq_peer = TAddr dstIP, fq_protocol = protocol, fq_port = port\<rparr>;
          fws = gateways s ns
      in case gatewayTier ls q fws (new_walk ''Egress'') of
           Returned w (Some res) \<Rightarrow> res
         | Returned w None \<Rightarrow> decide w ''Allow''
         | RanOut w \<Rightarrow>
             (if fws = [] then decide w ''Allow''
              else decide (addStep w (Some (pol_view (last fws))) None ''gateway'' ''Allow''
                ''No gateway rule matches - the gateway defaults to allow.'' False True) ''Allow''))"

definition planeStep :: "bound \<Rightarrow> string \<Rightarrow> string \<Rightarrow> string \<Rightarrow> trace_step" where
  "planeStep b stage action note =
     (let pol = pol_view (b_pol b) in
      \<lparr>ts_stage = stage, ts_direction = '''', ts_policy = Some (pol\<lparr>v_rules := []\<rparr>),
       ts_rule = (case v_rules pol of [] \<Rightarrow> None | rv # _ \<Rightarrow> Some rv), ts_action = action,
       ts_conditional = (b_m b = MatchCond), ts_decisive = False, ts_note = note\<rparr>)"

definition egressPlaneSteps :: "selector_eval \<Rightarrow> snapshot \<Rightarrow> workload \<Rightarrow> trace_step list" where
  "egressPlaneSteps ls s src =
     (let (snat, routes) = egressBindings ls s (w_ns_labels src) (w_pod_labels src) True
      in map (\<lambda>b. planeStep b ''snat'' ''SNAT'' ''Egress leaves source-NATed to this pool.'') snat @
         map (\<lambda>b. planeStep b ''route'' ''Route''
           ''Egress is steered to this next hop instead of the default gateway.'') routes)"

section \<open>The trace\<close>

record trace_result =
  tr_verdict :: string
  tr_steps :: "trace_step list"

text \<open>The destination of a trace: an in-cluster workload or an external address.\<close>

definition query :: "string \<Rightarrow> peer_target \<Rightarrow> string \<Rightarrow> int \<Rightarrow> flow_query" where
  "query dir peer protocol port =
     \<lparr>fq_dir = dir, fq_peer = peer, fq_protocol = (if protocol = '''' then ''TCP'' else protocol),
      fq_port = port\<rparr>"

fun trace_flow :: "selector_eval \<Rightarrow> snapshot \<Rightarrow> workload \<Rightarrow> peer_target \<Rightarrow> string \<Rightarrow> int \<Rightarrow> trace_result" where
  "trace_flow ls s src (TWorkload dst) protocol port =
     (let (reachable, steps) = connectivity s src dst in
      if \<not> reachable then \<lparr>tr_verdict = ''Unreachable'', tr_steps = steps\<rparr>
      else
        (let eg = directionWalk ls s (query ''Egress'' (TWorkload dst) protocol port) src;
             ing = directionWalk ls s (query ''Ingress'' (TWorkload src) protocol port) dst
         in \<lparr>tr_verdict = verdict [eg, ing], tr_steps = steps @ wr_steps eg @ wr_steps ing\<rparr>))"
| "trace_flow ls s src (TAddr dstIP) protocol port =
     (let proto = (if protocol = '''' then ''TCP'' else protocol);
          eg = directionWalk ls s (query ''Egress'' (TAddr dstIP) protocol port) src;
          gw = gatewayWalk ls s (w_namespace src) dstIP proto port
      in \<lparr>tr_verdict = verdict [eg, gw],
          tr_steps = externalConnectivity s src dstIP @ wr_steps eg @ wr_steps gw @
            egressPlaneSteps ls s src\<rparr>)"

end
