(* ===== verification/Netstate_Flow.thy ===== *)
theory Netstate_Flow
  imports Netstate_Trace
begin

text \<open>
  The specification the trace is checked against. A world settles everything the snapshot
  leaves open: what a rejected selector selects, the destination port when none was given,
  which ports have a given name, the addresses of a stopped VM, which addresses are cluster
  nodes, what a DNS name resolves to. In a world every rule matches or does not, and the
  documented evaluation of OVN-Kubernetes is a short two-valued definition: the admin tier by
  precedence (a Pass delegates), the project tier's isolation, then baseline, then the network
  default. The lemmas relate the three-valued walk to it, one layer at a time.
\<close>

section \<open>Worlds\<close>

record world =
  wd_selector :: "label_selector \<Rightarrow> labels \<Rightarrow> bool"
  wd_port :: int
  wd_named :: "string \<Rightarrow> bool"
  wd_addrs :: "peer_target \<Rightarrow> addr list"
  wd_node :: "label_selector option \<Rightarrow> bool"
  wd_dns :: "string \<Rightarrow> bool"
  wd_other :: "peer \<Rightarrow> bool"

text \<open>A world completes what is known: the selectors the library evaluates and a given port.\<close>

definition completes :: "selector_eval \<Rightarrow> int \<Rightarrow> world \<Rightarrow> bool" where
  "completes ls port W =
     ((\<forall>sel l b. ls sel l = Some b \<longrightarrow> wd_selector W sel l = b) \<and> (port \<noteq> 0 \<longrightarrow> wd_port W = port))"

definition sel_holds :: "world \<Rightarrow> label_selector option \<Rightarrow> labels \<Rightarrow> bool" where
  "sel_holds W so lbls = (emptySelector so \<or> wd_selector W (the so) lbls)"

definition subject_holds :: "world \<Rightarrow> subject \<Rightarrow> labels \<Rightarrow> labels \<Rightarrow> bool" where
  "subject_holds W s nl pl = (\<not> sj_none s \<and> sel_holds W (sj_ns s) nl \<and> sel_holds W (sj_pod s) pl)"

definition known_addrs :: "world \<Rightarrow> peer_target \<Rightarrow> addr list" where
  "known_addrs W t = (case resolveAddrs t of Inl _ \<Rightarrow> wd_addrs W t | Inr addrs \<Rightarrow> addrs)"

definition peer_holds :: "world \<Rightarrow> peer \<Rightarrow> peer_target \<Rightarrow> bool" where
  "peer_holds W p t =
     (case p_kind p of
        PeerAny \<Rightarrow> True
      | PeerSelector \<Rightarrow> (case t of TAddr _ \<Rightarrow> False
          | TWorkload w \<Rightarrow> (p_namespace p \<noteq> '''' \<longrightarrow> w_namespace w = p_namespace p) \<and>
              sel_holds W (p_ns p) (w_ns_labels w) \<and> sel_holds W (p_pod p) (w_pod_labels w))
      | PeerNetworks \<Rightarrow> cidr_hit (p_cidrs p) (p_except p) (known_addrs W t)
      | PeerCIDRSelector \<Rightarrow> cidr_hit (p_cidrs p) (p_except p) (known_addrs W t)
      | PeerNodes \<Rightarrow> (case t of TWorkload _ \<Rightarrow> False | TAddr _ \<Rightarrow> wd_node W (p_nodes p))
      | PeerNodeSelector \<Rightarrow> (case t of TWorkload _ \<Rightarrow> False | TAddr _ \<Rightarrow> wd_node W (p_nodes p))
      | PeerDNSName \<Rightarrow> wd_dns W (p_dns p)
      | PeerUnresolved \<Rightarrow> wd_other W p)"

definition port_holds :: "world \<Rightarrow> port \<Rightarrow> string \<Rightarrow> bool" where
  "port_holds W p protocol =
     ((po_protocol p = '''' \<or> equal_fold (po_protocol p) protocol) \<and>
      (if po_named p \<noteq> '''' then wd_named W (po_named p)
       else po_start p = 0 \<or> (po_start p \<le> wd_port W \<and> wd_port W \<le> po_end p)))"

definition rule_holds :: "world \<Rightarrow> pol_rule \<Rightarrow> peer_target \<Rightarrow> string \<Rightarrow> bool" where
  "rule_holds W r t protocol =
     ((\<exists>p \<in> set (r_peers r). peer_holds W p t) \<and>
      (r_ports r = [] \<or> (\<exists>p \<in> set (r_ports r). port_holds W p protocol)))"

section \<open>The documented evaluation\<close>

text \<open>The action of the first matching rule.\<close>

fun first_action :: "(bool \<times> string) list \<Rightarrow> string option" where
  "first_action [] = None"
| "first_action ((b, a) # es) = (if b then Some a else first_action es)"

definition tier_entries :: "world \<Rightarrow> flow_query \<Rightarrow> labels \<Rightarrow> labels \<Rightarrow> policy list \<Rightarrow> (bool \<times> string) list" where
  "tier_entries W q nl pl ps =
     concat (map (\<lambda>p. map (\<lambda>r. (subject_holds W (pol_subject p) nl pl \<and>
                               rule_holds W r (fq_peer q) (fq_protocol q), r_action r))
                     (policy_rules p (fq_dir q))) ps)"

definition project_policies :: "world \<Rightarrow> snapshot \<Rightarrow> flow_query \<Rightarrow> workload \<Rightarrow> policy list" where
  "project_policies W s q subj =
     filter (\<lambda>p. isolating (fq_dir q) \<lparr>b_pol = p, b_m = MatchYes\<rparr> \<and>
                 subject_holds W (pol_subject p) [] (w_pod_labels subj))
       (inNamespace (s_netpol s) (w_namespace subj) decodeNetpol)"

definition flow_direction :: "world \<Rightarrow> snapshot \<Rightarrow> flow_query \<Rightarrow> workload \<Rightarrow> string" where
  "flow_direction W s q subj =
     (let admin = first_action (tier_entries W q (w_ns_labels subj) (w_pod_labels subj) (sortedANPs s));
          projs = project_policies W s q subj;
          base = first_action (tier_entries W q (w_ns_labels subj) (w_pod_labels subj) (baselines s));
          below = (if projs \<noteq> [] then
                     (if \<exists>p \<in> set projs. \<exists>r \<in> set (policy_rules p (fq_dir q)).
                           rule_holds W r (fq_peer q) (fq_protocol q)
                      then ''Allow'' else ''Deny'')
                   else (case base of Some a \<Rightarrow> a | None \<Rightarrow> ''Allow''))
      in case admin of Some a \<Rightarrow> if a = ''Pass'' then below else a | None \<Rightarrow> below)"

definition flow_gateway :: "world \<Rightarrow> snapshot \<Rightarrow> string \<Rightarrow> peer_target \<Rightarrow> string \<Rightarrow> string" where
  "flow_gateway W s ns t protocol =
     (case first_action (concat (map (\<lambda>p. map (\<lambda>r. (rule_holds W r t protocol, r_action r)) (pol_egress p))
             (gateways s ns))) of
        Some a \<Rightarrow> a | None \<Rightarrow> ''Allow'')"

text \<open>A flow is denied when one of its two sides denies it.\<close>

fun flow_denied :: "world \<Rightarrow> snapshot \<Rightarrow> workload \<Rightarrow> peer_target \<Rightarrow> string \<Rightarrow> int \<Rightarrow> bool" where
  "flow_denied W s src (TWorkload dst) protocol port =
     (flow_direction W s (query ''Egress'' (TWorkload dst) protocol port) src = ''Deny'' \<or>
      flow_direction W s (query ''Ingress'' (TWorkload src) protocol port) dst = ''Deny'')"
| "flow_denied W s src (TAddr ip) protocol port =
     (flow_direction W s (query ''Egress'' (TAddr ip) protocol port) src = ''Deny'' \<or>
      flow_gateway W s (w_namespace src) (TAddr ip) (if protocol = '''' then ''TCP'' else protocol) = ''Deny'')"

section \<open>Matching is sound in every world\<close>

text \<open>A three-valued verdict agrees with a boolean: yes and no are certain.\<close>

definition agrees :: "match \<Rightarrow> bool \<Rightarrow> bool" where
  "agrees m b = ((m = MatchYes \<longrightarrow> b) \<and> (m = MatchNo \<longrightarrow> \<not> b))"

lemma agrees_simps [simp]:
  "agrees MatchYes b = b" "agrees MatchNo b = (\<not> b)" "agrees MatchCond b"
  by (simp_all add: agrees_def)

lemma agrees_combine: "agrees a x \<Longrightarrow> agrees b y \<Longrightarrow> agrees (combineMatch a b) (x \<and> y)"
  by (cases a; cases b) auto

lemma agrees_allOf:
  "list_all2 (\<lambda>p b. agrees (m_m p) b) ps bs \<Longrightarrow> agrees (m_m (allOf ps)) (list_all id bs)"
  unfolding allOf_m agrees_def list_all2_conv_all_nth list_all_length
  by (auto simp: in_set_conv_nth) (metis match.exhaust nth_mem)+

lemma agrees_anyOf:
  "list_all2 (\<lambda>p b. agrees (m_m p) b) ps bs \<Longrightarrow> agrees (m_m (anyOf ps)) (list_ex id bs)"
  unfolding anyOf_m agrees_def list_all2_conv_all_nth list_ex_length
  by (auto simp: in_set_conv_nth) (metis match.exhaust nth_mem)+

lemma matchSelector_agrees: "completes ls port W \<Longrightarrow> agrees (matchSelector ls so l) (sel_holds W so l)"
  by (auto simp: matchSelector_def sel_holds_def completes_def agrees_def split: option.splits)

lemma subject_match_agrees:
  assumes "completes ls port W"
  shows "agrees (subject_match ls s nl pl True) (subject_holds W s nl pl)"
proof (cases "sj_none s")
  case True
  then show ?thesis by (simp add: subject_match_def subject_holds_def)
next
  case False
  have "podMatch ls (sj_pod s) pl True = matchSelector ls (sj_pod s) pl"
    by (simp add: podMatch_def matchSelector_def)
  with False show ?thesis
    unfolding subject_match_def subject_holds_def
    using agrees_combine[OF matchSelector_agrees[OF assms] matchSelector_agrees[OF assms]]
    by (simp del: combineMatch.simps)
qed

lemma selMatch_m [simp]: "m_m (selMatch ls so l) = matchSelector ls so l"
  by (auto simp: selMatch_def Let_def)

lemma cidrsMatch_agrees: "agrees (m_m (cidrsMatch c e t)) (cidr_hit c e (known_addrs W t))"
  by (auto simp: cidrsMatch_def known_addrs_def resolveAddrs_def Let_def)

lemma peer_match_agrees:
  assumes "completes ls port W"
  shows "agrees (m_m (peer_match ls p t)) (peer_holds W p t)"
proof (cases "p_kind p = PeerSelector")
  case True
  show ?thesis
  proof (cases t)
    case (TAddr ip)
    with True show ?thesis by (simp add: peer_match_def peer_holds_def)
  next
    case (TWorkload w)
    have "agrees (m_m (allOf [selMatch ls (p_ns p) (w_ns_labels w), selMatch ls (p_pod p) (w_pod_labels w)]))
            (list_all id [sel_holds W (p_ns p) (w_ns_labels w), sel_holds W (p_pod p) (w_pod_labels w)])"
      by (rule agrees_allOf) (simp add: matchSelector_agrees[OF assms])
    with True TWorkload show ?thesis by (auto simp: peer_match_def peer_holds_def)
  qed
next
  case False
  then show ?thesis
    by (auto simp: peer_match_def peer_holds_def cidrsMatch_agrees split: peer_kind.splits peer_target.splits)
qed

lemma port_match_agrees:
  "completes ls port W \<Longrightarrow> agrees (m_m (port_match p proto port)) (port_holds W p proto)"
  by (auto simp: port_match_def port_holds_def completes_def)

lemma rule_match_agrees:
  assumes "completes ls port W"
  shows "agrees (m_m (rule_match ls r t proto port)) (rule_holds W r t proto)"
proof -
  let ?peers = "map (\<lambda>p. peer_match ls p t) (r_peers r)"
  let ?ports = "if r_ports r = [] then mtch MatchYes else anyOf (map (\<lambda>p. port_match p proto port) (r_ports r))"
  have peers: "agrees (m_m (anyOf ?peers)) (\<exists>p \<in> set (r_peers r). peer_holds W p t)"
    using agrees_anyOf[of ?peers "map (\<lambda>p. peer_holds W p t) (r_peers r)"] peer_match_agrees[OF assms]
    by (simp add: list_all2_conv_all_nth list_ex_iff)
  have ports: "agrees (m_m ?ports) (r_ports r = [] \<or> (\<exists>p \<in> set (r_ports r). port_holds W p proto))"
    using agrees_anyOf[of "map (\<lambda>p. port_match p proto port) (r_ports r)"
        "map (\<lambda>p. port_holds W p proto) (r_ports r)"] port_match_agrees[OF assms]
    by (simp add: list_all2_conv_all_nth list_ex_iff)
  have "agrees (m_m (allOf [anyOf ?peers, ?ports])) (rule_holds W r t proto)"
    using agrees_allOf[of "[anyOf ?peers, ?ports]"
        "[\<exists>p \<in> set (r_peers r). peer_holds W p t, r_ports r = [] \<or> (\<exists>p \<in> set (r_ports r). port_holds W p proto)]"]
      peers ports by (simp add: rule_holds_def)
  then show ?thesis by (simp add: rule_match_def Let_def)
qed

end
