(* ===== verification/Netstate_Scan.thy ===== *)
theory Netstate_Scan
  imports Netstate_Flow
begin

text \<open>
  What the three rule loops of the trace have in common: each is a scan over pairs of a match
  and an action. The loops are related to the scan here, and the scan to the two-valued first
  match, so that the soundness of a tier is one lemma.
\<close>

section \<open>Scans\<close>

datatype scan_exit = ScanOut | ScanPass | ScanDecided string

fun scan :: "bool \<Rightarrow> (match \<times> string) list \<Rightarrow> string list \<times> scan_exit" where
  "scan pass [] = ([], ScanOut)"
| "scan pass ((m, a) # es) =
     (if m = MatchNo then scan pass es
      else if m = MatchCond then (a # fst (scan pass es), snd (scan pass es))
      else if pass \<and> a = ''Pass'' then ([], ScanPass) else ([], ScanDecided a))"

definition certain :: "string list \<Rightarrow> string \<Rightarrow> string" where
  "certain conds a = (if list_ex (\<lambda>c. c \<noteq> a) conds then ''Conditional'' else a)"

fun exit_is :: "string list \<Rightarrow> tier_exit \<Rightarrow> string list \<times> scan_exit \<Rightarrow> bool" where
  "exit_is c0 (RanOut w) e = (wk_conds w = c0 @ fst e \<and> snd e = ScanOut)"
| "exit_is c0 (Returned w None) e = (wk_conds w = c0 @ fst e \<and> snd e = ScanPass)"
| "exit_is c0 (Returned w (Some res)) e =
     (\<exists>a. wk_conds w = c0 @ fst e \<and> snd e = ScanDecided a \<and> wr_outcome res = certain (c0 @ fst e) a)"

lemma scan_append:
  "scan pass (xs @ ys) =
     (if snd (scan pass xs) = ScanOut then (fst (scan pass xs) @ fst (scan pass ys), snd (scan pass ys))
      else scan pass xs)"
  by (induction pass xs rule: scan.induct) auto

lemma scan_no_pass: "snd (scan False es) \<noteq> ScanPass"
  by (induction "False" es rule: scan.induct) auto

lemma scan_decided_pass: "snd (scan True es) = ScanDecided a \<Longrightarrow> a \<noteq> ''Pass''"
  by (induction "True" es rule: scan.induct) (auto split: if_splits)

lemma scan_conds_action: "c \<in> set (fst (scan pass es)) \<Longrightarrow> (MatchCond, c) \<in> set es"
  by (induction pass es rule: scan.induct) (auto split: if_splits)

lemma scan_decided_mem: "snd (scan pass es) = ScanDecided a \<Longrightarrow> (MatchYes, a) \<in> set es"
  by (induction pass es rule: scan.induct) (auto split: if_splits, (metis match.exhaust)+)

lemma scan_silent: "scan pass es = ([], ScanOut) \<Longrightarrow> e \<in> set es \<Longrightarrow> fst e = MatchNo"
  by (induction pass es rule: scan.induct) (auto split: if_splits)

section \<open>The loops are scans\<close>

lemma walk_conds [simp]:
  "wk_conds (addStep w p r s a n c d) = wk_conds w"
  "wk_conds (walk_maybe w v rv s a n) = wk_conds w @ [a]"
  "wk_conds (new_walk dir) = []"
  by (simp_all add: addStep_def walk_maybe_def new_walk_def)

lemma decide_outcome [simp]: "wr_outcome (decide w a) = certain (wk_conds w) a"
  by (simp add: decide_def certain_def walk_result_of_def)

lemma walk_result_of_outcome [simp]: "wr_outcome (walk_result_of w x) = x"
  by (simp add: walk_result_of_def)

abbreviation rmatch :: "selector_eval \<Rightarrow> flow_query \<Rightarrow> pol_rule \<Rightarrow> match" where
  "rmatch ls q r \<equiv> m_m (rule_match ls r (fq_peer q) (fq_protocol q) (fq_port q))"

definition admin_entries :: "selector_eval \<Rightarrow> flow_query \<Rightarrow> bound \<Rightarrow> pol_rule list \<Rightarrow> (match \<times> string) list" where
  "admin_entries ls q b rs = map (\<lambda>r. (combineMatch (b_m b) (rmatch ls q r), r_action r)) rs"

definition rule_entries :: "selector_eval \<Rightarrow> flow_query \<Rightarrow> pol_rule list \<Rightarrow> (match \<times> string) list" where
  "rule_entries ls q rs = map (\<lambda>r. (rmatch ls q r, r_action r)) rs"

lemma admin_rule_m:
  "m_m (allOf [subject_matched b, rm]) = combineMatch (b_m b) (m_m rm)"
  by (auto simp: allOf_m subject_matched_def)

lemma exit_is_cond:
  "exit_is (c0 @ [a]) e (fst x, snd x) \<Longrightarrow> exit_is c0 e (a # fst x, snd x)"
  by (cases "(c0, e, (a # fst x, snd x))" rule: exit_is.cases) auto

lemma exit_is_extend:
  "exit_is (c0 @ cs) e x \<Longrightarrow> exit_is c0 e (cs @ fst x, snd x)"
  by (cases "(c0, e, x)" rule: exit_is.cases) auto

lemma admin_rules_scan:
  "exit_is (wk_conds w) (admin_rules ls q stage bl b rs w) (scan (\<not> bl) (admin_entries ls q b rs))"
proof (induction ls q stage bl b rs w rule: admin_rules.induct)
  case (1 ls q stage bl b w)
  then show ?case by (simp add: admin_entries_def)
next
  case (2 ls q stage bl b r rs w)
  let ?m = "combineMatch (b_m b) (rmatch ls q r)"
  have m: "m_m (allOf [subject_matched b, rule_match ls r (fq_peer q) (fq_protocol q) (fq_port q)]) = ?m"
    by (rule admin_rule_m)
  consider (no) "?m = MatchNo" | (cond) "?m = MatchCond" | (yes) "?m = MatchYes"
    by (cases ?m) auto
  then show ?case
  proof cases
    case no
    with 2(1)[OF refl refl refl] m show ?thesis
      by (simp add: admin_entries_def Let_def del: combineMatch.simps)
  next
    case cond
    with 2(2)[OF refl refl refl] m show ?thesis
      by (simp add: admin_entries_def Let_def del: combineMatch.simps) (rule exit_is_cond, simp)
  next
    case yes
    with m show ?thesis
      by (auto simp: admin_entries_def Let_def simp del: combineMatch.simps)
  qed
qed

lemma adminTier_scan:
  "exit_is (wk_conds w) (adminTier ls q stage bs w)
     (scan (stage \<noteq> ''baseline'')
       (concat (map (\<lambda>b. admin_entries ls q b (policy_rules (b_pol b) (fq_dir q))) bs)))"
proof (induction ls q stage bs w rule: adminTier.induct)
  case (1 ls q stage w)
  then show ?case by simp
next
  case (2 ls q stage b bs w)
  let ?e = "admin_entries ls q b (policy_rules (b_pol b) (fq_dir q))"
  have head: "exit_is (wk_conds w) (admin_rules ls q stage (stage = ''baseline'') b (policy_rules (b_pol b) (fq_dir q)) w)
      (scan (stage \<noteq> ''baseline'') ?e)" by (rule admin_rules_scan)
  show ?case
  proof (cases "admin_rules ls q stage (stage = ''baseline'') b (policy_rules (b_pol b) (fq_dir q)) w")
    case (RanOut w')
    from head RanOut 2[OF RanOut] show ?thesis
      by (auto simp: scan_append intro: exit_is_extend)
  next
    case (Returned w' res)
    with head show ?thesis by (cases res) (auto simp: scan_append)
  qed
qed

lemma dfw_rules_scan:
  "exit_is (wk_conds w) (dfw_rules ls q b rs w) (scan False (rule_entries ls q rs))"
proof (induction ls q b rs w rule: dfw_rules.induct)
  case (1 ls q b w)
  then show ?case by (simp add: rule_entries_def)
next
  case (2 ls q b r rs w)
  consider (no) "rmatch ls q r = MatchNo" | (cond) "rmatch ls q r = MatchCond" | (yes) "rmatch ls q r = MatchYes"
    by (cases "rmatch ls q r") auto
  then show ?case
  proof cases
    case no
    with 2(1)[OF refl refl refl] show ?thesis by (simp add: rule_entries_def Let_def)
  next
    case cond
    with 2(2)[OF refl refl refl] show ?thesis
      by (simp add: rule_entries_def Let_def) (rule exit_is_cond, simp)
  next
    case yes
    then show ?thesis by (simp add: rule_entries_def Let_def)
  qed
qed

lemma dfwTier_scan:
  "exit_is (wk_conds w) (dfwTier ls q bs w)
     (scan False (concat (map (\<lambda>b. rule_entries ls q (policy_rules (b_pol b) (fq_dir q))) bs)))"
proof (induction ls q bs w rule: dfwTier.induct)
  case (1 ls q w)
  then show ?case by simp
next
  case (2 ls q b bs w)
  have head: "exit_is (wk_conds w) (dfw_rules ls q b (policy_rules (b_pol b) (fq_dir q)) w)
      (scan False (rule_entries ls q (policy_rules (b_pol b) (fq_dir q))))" by (rule dfw_rules_scan)
  show ?case
  proof (cases "dfw_rules ls q b (policy_rules (b_pol b) (fq_dir q)) w")
    case (RanOut w')
    from head RanOut 2[OF RanOut] show ?thesis
      by (auto simp: scan_append intro: exit_is_extend)
  next
    case (Returned w' res)
    with head show ?thesis by (cases res) (auto simp: scan_append)
  qed
qed

lemma gateway_rules_scan:
  "exit_is (wk_conds w) (gateway_rules ls q p rs w) (scan False (rule_entries ls q rs))"
proof (induction ls q p rs w rule: gateway_rules.induct)
  case (1 ls q p w)
  then show ?case by (simp add: rule_entries_def)
next
  case (2 ls q p r rs w)
  consider (no) "rmatch ls q r = MatchNo" | (cond) "rmatch ls q r = MatchCond" | (yes) "rmatch ls q r = MatchYes"
    by (cases "rmatch ls q r") auto
  then show ?case
  proof cases
    case no
    with 2(1)[OF refl refl] show ?thesis by (simp add: rule_entries_def Let_def)
  next
    case cond
    with 2(2)[OF refl refl] show ?thesis
      by (simp add: rule_entries_def Let_def) (rule exit_is_cond, simp)
  next
    case yes
    then show ?thesis by (simp add: rule_entries_def Let_def)
  qed
qed

lemma gatewayTier_scan:
  "exit_is (wk_conds w) (gatewayTier ls q ps w)
     (scan False (concat (map (\<lambda>p. rule_entries ls q (pol_egress p)) ps)))"
proof (induction ls q ps w rule: gatewayTier.induct)
  case (1 ls q w)
  then show ?case by simp
next
  case (2 ls q p ps w)
  have head: "exit_is (wk_conds w) (gateway_rules ls q p (pol_egress p) w)
      (scan False (rule_entries ls q (pol_egress p)))" by (rule gateway_rules_scan)
  show ?case
  proof (cases "gateway_rules ls q p (pol_egress p) w")
    case (RanOut w')
    from head RanOut 2[OF RanOut] show ?thesis
      by (auto simp: scan_append intro: exit_is_extend)
  next
    case (Returned w' res)
    with head show ?thesis by (cases res) (auto simp: scan_append)
  qed
qed

section \<open>A scan is sound\<close>

definition entries_agree :: "(match \<times> string) list \<Rightarrow> (bool \<times> string) list \<Rightarrow> bool" where
  "entries_agree es bs = list_all2 (\<lambda>(m, a) (b, a'). a = a' \<and> agrees m b) es bs"

text \<open>The first match in the world is the decided action or one of the maybe-matching rules.\<close>

lemma scan_sound:
  assumes "entries_agree es bs"
  shows "case first_action bs of
           None \<Rightarrow> snd (scan pass es) = ScanOut
         | Some a \<Rightarrow> a \<in> set (fst (scan pass es)) \<or> snd (scan pass es) = ScanDecided a \<or>
             (snd (scan pass es) = ScanPass \<and> a = ''Pass'')"
proof -
  have "list_all2 (\<lambda>(m, a) (b, a'). a = a' \<and> agrees m b) es bs"
    using assms by (simp add: entries_agree_def)
  then show ?thesis
  proof (induction es bs rule: list_all2_induct)
    case Nil
    then show ?case by simp
  next
    case (Cons e es x xs)
    obtain m a b where [simp]: "e = (m, a)" "x = (b, a)" using Cons(1) by (cases e; cases x) auto
    from Cons show ?case by (cases m) (auto split: option.splits)
  qed
qed

lemma concat_agree:
  "(\<And>x. x \<in> set xs \<Longrightarrow> entries_agree (f x) (g x)) \<Longrightarrow>
     entries_agree (concat (map f xs)) (concat (map g xs))"
  by (induction xs) (auto simp: entries_agree_def intro!: list_all2_appendI)

lemma rule_entries_agree:
  assumes "completes ls (fq_port q) W"
  shows "entries_agree (rule_entries ls q rs) (map (\<lambda>r. (rule_holds W r (fq_peer q) (fq_protocol q), r_action r)) rs)"
  using rule_match_agrees[OF assms]
  by (simp add: entries_agree_def rule_entries_def list_all2_conv_all_nth)

lemma first_action_None: "first_action es = None \<longleftrightarrow> (\<forall>e \<in> set es. \<not> fst e)"
  by (induction es rule: first_action.induct) auto

text \<open>Policies whose subject certainly does not match contribute nothing to a first match.\<close>

lemma first_action_append:
  "first_action (xs @ ys) = (case first_action xs of None \<Rightarrow> first_action ys | Some a \<Rightarrow> Some a)"
  by (induction xs rule: first_action.induct) auto

lemma first_action_skip:
  "(\<And>x. x \<in> set xs \<Longrightarrow> \<not> P x \<Longrightarrow> first_action (f x) = None) \<Longrightarrow>
     first_action (concat (map f xs)) = first_action (concat (map f (filter P xs)))"
  by (induction xs) (auto simp: first_action_append split: option.splits)

end
