(* ===== verification/Netstate_Sound.thy ===== *)
theory Netstate_Sound
  imports Netstate_Scan
begin

text \<open>
  The trace is sound: a verdict it gives as certain is the documented evaluation's answer in
  every world that completes what the snapshot knows. Each tier is one lemma over scans; the
  direction and the whole trace compose them.
\<close>

section \<open>The tiers\<close>

definition bound_entries :: "selector_eval \<Rightarrow> flow_query \<Rightarrow> bound list \<Rightarrow> (match \<times> string) list" where
  "bound_entries ls q bs = concat (map (\<lambda>b. admin_entries ls q b (policy_rules (b_pol b) (fq_dir q))) bs)"

lemma tier_sound:
  assumes "completes ls (fq_port q) W"
  shows "case first_action (tier_entries W q nl pl ps) of
           None \<Rightarrow> snd (scan pass (bound_entries ls q (bind_policies ls ps nl pl True))) = ScanOut
         | Some a \<Rightarrow> a \<in> set (fst (scan pass (bound_entries ls q (bind_policies ls ps nl pl True)))) \<or>
             snd (scan pass (bound_entries ls q (bind_policies ls ps nl pl True))) = ScanDecided a \<or>
             (snd (scan pass (bound_entries ls q (bind_policies ls ps nl pl True))) = ScanPass \<and> a = ''Pass'')"
proof -
  let ?P = "\<lambda>p. subject_match ls (pol_subject p) nl pl True \<noteq> MatchNo"
  let ?mk = "\<lambda>p. \<lparr>b_pol = p, b_m = subject_match ls (pol_subject p) nl pl True\<rparr>"
  let ?g = "\<lambda>p. map (\<lambda>r. (subject_holds W (pol_subject p) nl pl \<and> rule_holds W r (fq_peer q) (fq_protocol q), r_action r))
                    (policy_rules p (fq_dir q))"
  have skip: "first_action (tier_entries W q nl pl ps) = first_action (concat (map ?g (filter ?P ps)))"
    unfolding tier_entries_def
  proof (rule first_action_skip)
    fix p :: policy assume "\<not> ?P p"
    with subject_match_agrees[OF assms, of "pol_subject p" nl pl] show "first_action (?g p) = None"
      by (auto simp: first_action_None)
  qed
  have bound: "bind_policies ls ps nl pl True = map ?mk (filter ?P ps)"
    by (simp add: bind_policies_def filter_map o_def)
  have "entries_agree (bound_entries ls q (bind_policies ls ps nl pl True)) (concat (map ?g (filter ?P ps)))"
    unfolding bound_entries_def bound map_map o_def
  proof (rule concat_agree)
    fix p :: policy
    show "entries_agree (admin_entries ls q (?mk p) (policy_rules (b_pol (?mk p)) (fq_dir q))) (?g p)"
      using agrees_combine[OF subject_match_agrees[OF assms] rule_match_agrees[OF assms]]
      by (simp add: entries_agree_def admin_entries_def list_all2_conv_all_nth del: combineMatch.simps)
  qed
  from scan_sound[OF this, of pass] show ?thesis by (simp add: skip)
qed

text \<open>The project tier in a world, against the bindings the walk collected.\<close>

lemma selecting_for_mem:
  "b \<in> set (selecting_for ls s dir subj) \<longleftrightarrow>
     (\<exists>p \<in> set (inNamespace (s_netpol s) (w_namespace subj) decodeNetpol).
        b_pol b = p \<and> b_m b = subject_match ls (pol_subject p) [] (w_pod_labels subj) True \<and>
        b_m b \<noteq> MatchNo \<and> isolating dir b)"
  by (cases b) (auto simp: selecting_for_def selectingNetpols_def bind_policies_mem)

lemma isolating_cong: "isolating dir \<lparr>b_pol = p, b_m = m\<rparr> = isolating dir \<lparr>b_pol = p, b_m = m'\<rparr>"
  by (simp add: isolating_def)

lemma project_policies_sub:
  assumes "completes ls port W" and "p \<in> set (project_policies W s q subj)"
  shows "\<exists>b \<in> set (selecting_for ls s (fq_dir q) subj). b_pol b = p"
proof -
  let ?m = "subject_match ls (pol_subject p) [] (w_pod_labels subj) True"
  from assms(2) have p: "p \<in> set (inNamespace (s_netpol s) (w_namespace subj) decodeNetpol)"
    and iso: "isolating (fq_dir q) \<lparr>b_pol = p, b_m = ?m\<rparr>"
    and holds: "subject_holds W (pol_subject p) [] (w_pod_labels subj)"
    by (auto simp: project_policies_def isolating_cong[of _ _ MatchYes ?m])
  from subject_match_agrees[OF assms(1)] holds have "?m \<noteq> MatchNo"
    by (metis agrees_simps(2))
  with p iso have "\<lparr>b_pol = p, b_m = ?m\<rparr> \<in> set (selecting_for ls s (fq_dir q) subj)"
    by (auto simp: selecting_for_mem)
  then show ?thesis by force
qed

lemma project_policies_sup:
  assumes "completes ls port W" and "b \<in> set (selecting_for ls s (fq_dir q) subj)" and "b_m b = MatchYes"
  shows "b_pol b \<in> set (project_policies W s q subj)"
proof -
  from assms(2) have p: "b_pol b \<in> set (inNamespace (s_netpol s) (w_namespace subj) decodeNetpol)"
    and m: "b_m b = subject_match ls (pol_subject (b_pol b)) [] (w_pod_labels subj) True"
    and iso: "isolating (fq_dir q) b"
    by (auto simp: selecting_for_mem)
  from iso have "isolating (fq_dir q) \<lparr>b_pol = b_pol b, b_m = MatchYes\<rparr>"
    by (simp add: isolating_def)
  moreover from subject_match_agrees[OF assms(1)] m assms(3)
  have "subject_holds W (pol_subject (b_pol b)) [] (w_pod_labels subj)"
    by (metis agrees_simps(1))
  ultimately show ?thesis using p by (simp add: project_policies_def)
qed

lemma selecting_for_netpol:
  "b \<in> set (selecting_for ls s dir subj) \<Longrightarrow> \<exists>u. b_pol b = decodeNetpol u"
  by (auto simp: selecting_for_mem inNamespace_set)

definition dfw_entries :: "selector_eval \<Rightarrow> flow_query \<Rightarrow> bound list \<Rightarrow> (match \<times> string) list" where
  "dfw_entries ls q bs = concat (map (\<lambda>b. rule_entries ls q (policy_rules (b_pol b) (fq_dir q))) bs)"

lemma dfw_entries_Allow:
  assumes "(m, a) \<in> set (dfw_entries ls q (selecting_for ls s (fq_dir q) subj))"
  shows "a = ''Allow''"
  using assms by (auto simp: dfw_entries_def rule_entries_def dest!: selecting_for_netpol decodeNetpol_rules)

lemma certain_eq: "certain conds a = x \<Longrightarrow> x \<noteq> ''Conditional'' \<Longrightarrow> x = a \<and> (\<forall>c \<in> set conds. c = x)"
  by (auto simp: certain_def list_ex_iff split: if_splits)

text \<open>What the project tier answers in a world.\<close>

definition project_answer :: "world \<Rightarrow> snapshot \<Rightarrow> flow_query \<Rightarrow> workload \<Rightarrow> string" where
  "project_answer W s q subj =
     (if \<exists>p \<in> set (project_policies W s q subj). \<exists>r \<in> set (policy_rules p (fq_dir q)).
           rule_holds W r (fq_peer q) (fq_protocol q) then ''Allow'' else ''Deny'')"

lemma project_tier_certain:
  assumes comp: "completes ls (fq_port q) W"
    and sel: "selecting = selecting_for ls s (fq_dir q) subj" "selecting \<noteq> []"
    and out: "wr_outcome (project_tier ls q selecting w) = X" "X \<noteq> ''Conditional''"
    and res: "X = ''Deny'' \<or> (\<forall>b \<in> set selecting. b_m b = MatchYes)"
  shows "project_policies W s q subj \<noteq> [] \<and> project_answer W s q subj = X \<and> (\<forall>c \<in> set (wk_conds w). c = X)"
proof -
  let ?sc = "scan False (dfw_entries ls q selecting)"
  have ex: "exit_is (wk_conds w) (dfwTier ls q selecting w) ?sc"
    unfolding dfw_entries_def by (rule dfwTier_scan)
  show ?thesis
  proof (cases "dfwTier ls q selecting w")
    case (Returned w' r)
    with ex scan_no_pass[of "dfw_entries ls q selecting"] obtain rr a where r: "r = Some rr"
      and a: "snd ?sc = ScanDecided a" "wr_outcome rr = certain (wk_conds w @ fst ?sc) a"
      by (cases r) auto
    have aA: "(MatchYes, a) \<in> set (dfw_entries ls q selecting)" by (rule scan_decided_mem[OF a(1)])
    then have "a = ''Allow''" using dfw_entries_Allow sel(1) by blast
    with out(1) a r Returned have "certain (wk_conds w @ fst ?sc) ''Allow'' = X"
      by (simp add: project_tier_def)
    from certain_eq[OF this out(2)] have X: "X = ''Allow''" and conds: "\<forall>c \<in> set (wk_conds w). c = X"
      by auto
    from res X have all: "\<forall>b \<in> set selecting. b_m b = MatchYes" by auto
    from aA obtain b rl where b: "b \<in> set selecting" "rl \<in> set (policy_rules (b_pol b) (fq_dir q))"
      and m: "rmatch ls q rl = MatchYes"
      by (auto simp: dfw_entries_def rule_entries_def)
    from m rule_match_agrees[OF comp, of rl] have "rule_holds W rl (fq_peer q) (fq_protocol q)"
      by (metis agrees_simps(1))
    moreover have "b_pol b \<in> set (project_policies W s q subj)"
      by (rule project_policies_sup[OF comp]) (use b sel all in auto)
    ultimately show ?thesis using b X conds by (auto simp: project_answer_def)
  next
    case (RanOut w')
    with ex have conds': "wk_conds w' = wk_conds w @ fst ?sc" and outs: "snd ?sc = ScanOut" by auto
    from out RanOut have def: "length (filter (\<lambda>b. b_m b = MatchYes) selecting) \<noteq> 0"
      and "certain (wk_conds w') ''Deny'' = X"
      by (auto simp: project_tier_def Let_def split: if_splits)
    with out conds' have X: "X = ''Deny''" and cs: "\<forall>c \<in> set (wk_conds w). c = X" "\<forall>c \<in> set (fst ?sc). c = ''Deny''"
      by (auto dest!: certain_eq)
    have "fst ?sc = []"
    proof (rule ccontr)
      assume "fst ?sc \<noteq> []"
      then obtain c where "c \<in> set (fst ?sc)" by (cases "fst ?sc") auto
      with cs(2) scan_conds_action[of c False] dfw_entries_Allow sel(1) have "''Deny'' = ''Allow''" by metis
      then show False by simp
    qed
    with outs have silent: "?sc = ([], ScanOut)" by (cases ?sc) auto
    from def obtain b where b: "b \<in> set selecting" "b_m b = MatchYes"
      by (auto simp: filter_empty_conv)
    have "b_pol b \<in> set (project_policies W s q subj)"
      by (rule project_policies_sup[OF comp]) (use b sel in auto)
    moreover have "\<not> rule_holds W r (fq_peer q) (fq_protocol q)"
      if p: "p \<in> set (project_policies W s q subj)" and r: "r \<in> set (policy_rules p (fq_dir q))" for p r
    proof -
      from project_policies_sub[OF comp p] sel obtain b' where "b' \<in> set selecting" "b_pol b' = p" by auto
      with r have "(rmatch ls q r, r_action r) \<in> set (dfw_entries ls q selecting)"
        by (auto simp: dfw_entries_def rule_entries_def)
      from scan_silent[OF silent this] rule_match_agrees[OF comp, of r] show ?thesis
        by (metis agrees_simps(2) fst_conv)
    qed
    ultimately show ?thesis using X cs(1) by (auto simp: project_answer_def)
  qed
qed

section \<open>One direction\<close>

definition base_answer :: "world \<Rightarrow> snapshot \<Rightarrow> flow_query \<Rightarrow> workload \<Rightarrow> string" where
  "base_answer W s q subj =
     (case first_action (tier_entries W q (w_ns_labels subj) (w_pod_labels subj) (baselines s)) of
        Some a \<Rightarrow> a | None \<Rightarrow> ''Allow'')"

definition below_answer :: "world \<Rightarrow> snapshot \<Rightarrow> flow_query \<Rightarrow> workload \<Rightarrow> string" where
  "below_answer W s q subj =
     (if project_policies W s q subj \<noteq> [] then project_answer W s q subj else base_answer W s q subj)"

lemma flow_direction_alt:
  "flow_direction W s q subj =
     (case first_action (tier_entries W q (w_ns_labels subj) (w_pod_labels subj) (sortedANPs s)) of
        Some a \<Rightarrow> if a = ''Pass'' then below_answer W s q subj else a
      | None \<Rightarrow> below_answer W s q subj)"
  by (simp only: flow_direction_def below_answer_def project_answer_def base_answer_def Let_def)

lemma baseline_certain:
  assumes comp: "completes ls (fq_port q) W"
    and out: "wr_outcome (case adminTier ls q ''baseline''
                (bind_policies ls (baselines s) (w_ns_labels subj) (w_pod_labels subj) True) w of
             Returned w' (Some res) \<Rightarrow> res
           | Returned w' None \<Rightarrow> decide (f w') ''Allow''
           | RanOut w' \<Rightarrow> decide (f w') ''Allow'') = X"
    and f: "\<And>w'. wk_conds (f w') = wk_conds w'" and X: "X \<noteq> ''Conditional''"
  shows "base_answer W s q subj = X \<and> (\<forall>c \<in> set (wk_conds w). c = X)"
proof -
  let ?bs = "bind_policies ls (baselines s) (w_ns_labels subj) (w_pod_labels subj) True"
  let ?sc = "scan False (bound_entries ls q ?bs)"
  have ex: "exit_is (wk_conds w) (adminTier ls q ''baseline'' ?bs w) ?sc"
    using adminTier_scan[of w ls q "''baseline''" ?bs] by (simp add: bound_entries_def)
  note sound = tier_sound[OF comp, where nl = "w_ns_labels subj" and pl = "w_pod_labels subj" and ps = "baselines s" and pass = False]
  show ?thesis
  proof (cases "adminTier ls q ''baseline'' ?bs w")
    case (RanOut w')
    with ex out f have c: "certain (wk_conds w @ fst ?sc) ''Allow'' = X" and "snd ?sc = ScanOut"
      by simp_all
    with certain_eq[OF c X] sound show ?thesis by (auto simp: base_answer_def split: option.splits)
  next
    case (Returned w' r)
    with ex scan_no_pass[of "bound_entries ls q ?bs"] obtain rr a where r: "r = Some rr"
      and a: "snd ?sc = ScanDecided a" "wr_outcome rr = certain (wk_conds w @ fst ?sc) a"
      by (cases r) auto
    with out Returned have c: "certain (wk_conds w @ fst ?sc) a = X" by simp
    with certain_eq[OF c X] sound a(1) show ?thesis by (auto simp: base_answer_def split: option.splits)
  qed
qed

lemma lower_tiers_certain:
  assumes comp: "completes ls (fq_port q) W"
    and out: "wr_outcome (lower_tiers ls s q subj w) = X" "X \<noteq> ''Conditional''"
    and res: "X = ''Deny'' \<or> (\<forall>b \<in> set (selecting_for ls s (fq_dir q) subj). b_m b = MatchYes)"
  shows "below_answer W s q subj = X \<and> (\<forall>c \<in> set (wk_conds w). c = ''Pass'' \<or> c = X)"
proof -
  let ?w = "w\<lparr>wk_conds := filter (\<lambda>a. a \<noteq> ''Pass'') (wk_conds w)\<rparr>"
  let ?sel = "selecting_for ls s (fq_dir q) subj"
  show ?thesis
  proof (cases "?sel = []")
    case False
    with out have "wr_outcome (project_tier ls q ?sel ?w) = X" by (simp add: lower_tiers_def Let_def)
    from project_tier_certain[OF comp refl False this out(2) res] show ?thesis
      by (auto simp: below_answer_def)
  next
    case True
    then have none: "project_policies W s q subj = []"
      using project_policies_sub[OF comp] by (metis empty_iff hd_in_set list.set(1))
    have "base_answer W s q subj = X \<and> (\<forall>c \<in> set (wk_conds ?w). c = X)"
      by (rule baseline_certain[OF comp, where f = "\<lambda>w'. addStep w' None None ''default'' ''Allow''
            ''No policy matches this flow - the network default allows it.'' False True"])
         (use True out in \<open>auto simp: lower_tiers_def Let_def\<close>)
    with none show ?thesis by (auto simp: below_answer_def)
  qed
qed

lemma direction_certain:
  assumes comp: "completes ls (fq_port q) W"
    and out: "wr_outcome (directionWalk ls s q subj) = X" "X \<noteq> ''Conditional''"
    and res: "X = ''Deny'' \<or> (\<forall>b \<in> set (selecting_for ls s (fq_dir q) subj). b_m b = MatchYes)"
  shows "flow_direction W s q subj = X"
proof -
  let ?bs = "bind_policies ls (sortedANPs s) (w_ns_labels subj) (w_pod_labels subj) True"
  let ?sc = "scan True (bound_entries ls q ?bs)"
  have ex: "exit_is [] (adminTier ls q ''admin'' ?bs (new_walk (fq_dir q))) ?sc"
    using adminTier_scan[of "new_walk (fq_dir q)" ls q "''admin''" ?bs] by (simp add: bound_entries_def)
  note sound = tier_sound[OF comp, where nl = "w_ns_labels subj" and pl = "w_pod_labels subj" and ps = "sortedANPs s" and pass = True]
  have below: "flow_direction W s q subj = X"
    if w: "wk_conds w = fst ?sc" "snd ?sc = ScanOut \<or> snd ?sc = ScanPass"
      and lt: "wr_outcome (lower_tiers ls s q subj w) = X" for w
  proof -
    from lower_tiers_certain[OF comp lt out(2) res] w(1)
    have "below_answer W s q subj = X" "\<forall>c \<in> set (fst ?sc). c = ''Pass'' \<or> c = X" by auto
    with sound w(2) show ?thesis by (auto simp: flow_direction_alt split: option.splits)
  qed
  show ?thesis
  proof (cases "adminTier ls q ''admin'' ?bs (new_walk (fq_dir q))")
    case (RanOut w)
    with ex out show ?thesis by (intro below[of w]) (auto simp: directionWalk_def)
  next
    case (Returned w r)
    show ?thesis
    proof (cases r)
      case None
      with Returned ex out show ?thesis by (intro below[of w]) (auto simp: directionWalk_def)
    next
      case (Some rr)
      with Returned ex out obtain a where a: "snd ?sc = ScanDecided a" "certain (fst ?sc) a = X"
        by (auto simp: directionWalk_def)
      from certain_eq[OF a(2) out(2)] have "X = a" "\<forall>c \<in> set (fst ?sc). c = X" by auto
      moreover have "a \<noteq> ''Pass''" by (rule scan_decided_pass[OF a(1)])
      ultimately show ?thesis using sound a(1) by (auto simp: flow_direction_alt split: option.splits)
    qed
  qed
qed

section \<open>The gateway\<close>

lemma gateway_certain:
  assumes comp: "completes ls port W"
    and out: "wr_outcome (gatewayWalk ls s ns dstIP protocol port) = X" "X \<noteq> ''Conditional''"
  shows "flow_gateway W s ns (TAddr dstIP) protocol = X"
proof -
  let ?q = "\<lparr>fq_dir = ''Egress'', fq_peer = TAddr dstIP, fq_protocol = protocol, fq_port = port\<rparr>"
  let ?es = "concat (map (\<lambda>p. rule_entries ls ?q (pol_egress p)) (gateways s ns))"
  let ?bs = "concat (map (\<lambda>p. map (\<lambda>r. (rule_holds W r (TAddr dstIP) protocol, r_action r)) (pol_egress p)) (gateways s ns))"
  let ?sc = "scan False ?es"
  have ex: "exit_is [] (gatewayTier ls ?q (gateways s ns) (new_walk ''Egress'')) ?sc"
    using gatewayTier_scan[of "new_walk ''Egress''" ls ?q "gateways s ns"] by simp
  have "entries_agree ?es ?bs"
    using comp by (intro concat_agree) (use rule_entries_agree[of ls ?q W] in auto)
  note sound = scan_sound[OF this, of False]
  show ?thesis
  proof (cases "gatewayTier ls ?q (gateways s ns) (new_walk ''Egress'')")
    case (RanOut w)
    with ex out(1) have c: "certain (fst ?sc) ''Allow'' = X" and "snd ?sc = ScanOut"
      by (auto simp: gatewayWalk_def Let_def split: if_splits)
    with certain_eq[OF c out(2)] sound show ?thesis
      by (auto simp: flow_gateway_def split: option.splits)
  next
    case (Returned w r)
    with ex scan_no_pass[of ?es] obtain rr a where a: "r = Some rr" "snd ?sc = ScanDecided a"
      "wr_outcome rr = certain (fst ?sc) a" by (cases r) auto
    with Returned out(1) have c: "certain (fst ?sc) a = X" by (simp add: gatewayWalk_def Let_def)
    with certain_eq[OF c out(2)] a(2) sound show ?thesis
      by (auto simp: flow_gateway_def split: option.splits)
  qed
qed

end
