(* ===== verification/Netstate_Effective.thy ===== *)
theory Netstate_Effective
  imports Netstate_Sound
begin

text \<open>
  \<open>internal/netstate/effective.go\<close> and \<open>policies.go\<close>: the policy chain governing one workload,
  and the whole policy plane in one deterministic order. The bindings are related to the
  worlds of \<open>Netstate_Flow\<close> (a binding is never hidden) and to the trace (both read the same
  chain).
\<close>

section \<open>Effective\<close>

record policy_binding =
  pb_policy :: policy_view
  pb_conditional :: bool
  pb_note :: string

record effective_policy =
  ep_namespace :: string
  ep_east_west :: "policy_binding list"
  ep_default_deny_ingress :: bool
  ep_default_deny_egress :: bool
  ep_gateway :: "policy_binding list"
  ep_snat :: "policy_binding list"
  ep_routes :: "policy_binding list"

definition binding :: "string \<Rightarrow> bound \<Rightarrow> policy_binding" where
  "binding note b =
     \<lparr>pb_policy = pol_view (b_pol b), pb_conditional = (b_m b = MatchCond), pb_note = note\<rparr>"

definition Effective :: "selector_eval \<Rightarrow> snapshot \<Rightarrow> string \<Rightarrow> labels \<Rightarrow> labels \<Rightarrow> bool \<Rightarrow> effective_policy" where
  "Effective ls s ns nsLabels podLabels podScoped =
     (let netpols = selectingNetpols ls s ns podLabels podScoped;
          definite = filter (\<lambda>b. b_m b = MatchYes) netpols;
          (snat, routes) = egressBindings ls s nsLabels podLabels podScoped
      in \<lparr>ep_namespace = ns,
          ep_east_west =
            map (binding '''') (bind_policies ls (sortedANPs s) nsLabels podLabels podScoped) @
            map (binding '''') netpols @
            map (binding ''Applies only where no admin or project rule decided.'')
              (bind_policies ls (baselines s) nsLabels podLabels podScoped),
          ep_default_deny_ingress = list_ex (\<lambda>b. pol_deny_ingress (b_pol b)) definite,
          ep_default_deny_egress = list_ex (\<lambda>b. pol_deny_egress (b_pol b)) definite,
          ep_gateway = map (\<lambda>p. \<lparr>pb_policy = pol_view p, pb_conditional = False, pb_note = ''''\<rparr>) (gateways s ns),
          ep_snat = map (binding '''') snat,
          ep_routes = map (binding '''') routes\<rparr>)"

section \<open>Policies\<close>

fun kindRank :: "policy_kind \<Rightarrow> nat" where
  "kindRank PolicyAdmin = 0"
| "kindRank PolicyBaseline = 1"
| "kindRank PolicyDFW = 2"
| "kindRank PolicyGateway = 3"
| "kindRank PolicyEgressIP = 4"
| "kindRank PolicyRoute = 5"

definition policy_less :: "policy_view \<Rightarrow> policy_view \<Rightarrow> bool" where
  "policy_less a b =
     (if v_kind a \<noteq> v_kind b then kindRank (v_kind a) < kindRank (v_kind b)
      else if v_priority a \<noteq> v_priority b then v_priority a < v_priority b
      else if v_namespace a \<noteq> v_namespace b then v_namespace a < v_namespace b
      else v_name a < v_name b)"

definition all_policies :: "snapshot \<Rightarrow> policy_view list" where
  "all_policies s =
     map pol_view (decoded (s_netpol s) decodeNetpol @ decoded (s_anp s) decodeANP @
       decoded (s_banp s) decodeBANP @ decoded (s_egressfw s) decodeGateway @
       decoded (s_egressip s) decodeEgressIP @ decoded (s_extroute s) decodeExtRoute)"

definition Policies :: "snapshot \<Rightarrow> policy_view list" where
  "Policies s = go_sort policy_less (all_policies s)"

lemma kindRank_inj: "kindRank a = kindRank b \<longleftrightarrow> a = b"
  by (cases a; cases b) auto

interpretation policies_order: less_func policy_less
  by (rule less_func_key [where key = "\<lambda>v. (kindRank (v_kind v), v_priority v, v_namespace v, v_name v)"])
    (auto simp: policy_less_def less_prod_def' kindRank_inj)

lemma policy_less_apart:
  "\<not> policy_less a b \<Longrightarrow> \<not> policy_less b a \<Longrightarrow>
     v_kind a = v_kind b \<and> v_namespace a = v_namespace b \<and> v_name a = v_name b"
  by (cases "v_kind a"; cases "v_kind b") (auto simp: policy_less_def split: if_splits)

section \<open>A binding is never hidden\<close>

text \<open>A subject that selects the workload in some world is bound; a namespace-level query binds
  whatever selects some pod of the namespace.\<close>

lemma bound_in_world:
  assumes comp: "completes ls port W"
    and holds: "subject_holds W (pol_subject p) nl pl'" and scoped: "podScoped \<longrightarrow> pl' = pl"
    and p: "p \<in> set ps"
  shows "\<exists>b \<in> set (bind_policies ls ps nl pl podScoped). b_pol b = p"
proof -
  let ?s = "pol_subject p"
  from holds have h: "\<not> sj_none ?s" "sel_holds W (sj_ns ?s) nl" "sel_holds W (sj_pod ?s) pl'"
    by (auto simp: subject_holds_def)
  have ns: "matchSelector ls (sj_ns ?s) nl \<noteq> MatchNo"
    using matchSelector_agrees[OF comp, of "sj_ns ?s" nl] h(2) by (metis agrees_simps(2))
  have pod: "podMatch ls (sj_pod ?s) pl podScoped \<noteq> MatchNo"
  proof (cases podScoped)
    case True
    with scoped h(3) matchSelector_agrees[OF comp, of "sj_pod ?s" pl] have "matchSelector ls (sj_pod ?s) pl \<noteq> MatchNo"
      by (metis agrees_simps(2))
    with True show ?thesis by (simp add: podMatch_def)
  next
    case False
    then show ?thesis by (simp add: podMatch_def)
  qed
  have "subject_match ls ?s nl pl podScoped \<noteq> MatchNo"
    using h(1) ns pod by (simp add: subject_match_def)
  with p have "\<lparr>b_pol = p, b_m = subject_match ls ?s nl pl podScoped\<rparr> \<in> set (bind_policies ls ps nl pl podScoped)"
    by (auto simp: bind_policies_mem)
  then show ?thesis by force
qed

text \<open>The policies the trace of a direction can name are the ones \<open>Effective\<close> lists.\<close>

definition east_west_policies :: "effective_policy \<Rightarrow> policy_view set" where
  "east_west_policies eff = pb_policy ` set (ep_east_west eff)"

definition step_policies :: "trace_step list \<Rightarrow> policy_view set" where
  "step_policies sts = {v. \<exists>st \<in> set sts. ts_policy st = Some v}"

definition stripped :: "policy_view \<Rightarrow> policy_view" where
  "stripped v = v\<lparr>v_rules := []\<rparr>"

fun exit_walk :: "tier_exit \<Rightarrow> walk" where
  "exit_walk (RanOut w) = w"
| "exit_walk (Returned w res) = w"

fun exit_res_ok :: "tier_exit \<Rightarrow> bool" where
  "exit_res_ok (RanOut w) = True"
| "exit_res_ok (Returned w None) = True"
| "exit_res_ok (Returned w (Some res)) = (wr_steps res = wk_steps w)"

lemma decide_steps [simp]: "wr_steps (decide w a) = wk_steps w"
  by (simp add: decide_def walk_result_of_def)

lemma walk_result_of_steps [simp]: "wr_steps (walk_result_of w x) = wk_steps w"
  by (simp add: walk_result_of_def)

lemma step_policies_append [simp]: "step_policies (a @ b) = step_policies a \<union> step_policies b"
  by (auto simp: step_policies_def)

lemma step_policies_addStep [simp]:
  "step_policies (wk_steps (addStep w p r s a n c d)) =
     step_policies (wk_steps w) \<union> (case p of None \<Rightarrow> {} | Some v \<Rightarrow> {stripped v})"
  by (auto simp: addStep_def step_policies_def stripped_def split: option.splits)

lemma step_policies_maybe [simp]:
  "step_policies (wk_steps (walk_maybe w v rv s a n)) = insert (stripped v) (step_policies (wk_steps w))"
  using step_policies_addStep[of w "Some v" "Some rv" s a "''May match: '' @ n @ ''.''" True False]
  by (simp add: walk_maybe_def)

lemma admin_rules_steps:
  "step_policies (wk_steps (exit_walk (admin_rules ls q stage bl b rs w))) \<subseteq>
     insert (stripped (pol_view (b_pol b))) (step_policies (wk_steps w)) \<and>
   exit_res_ok (admin_rules ls q stage bl b rs w)"
  by (induction ls q stage bl b rs w rule: admin_rules.induct) (auto simp: Let_def)

lemma adminTier_steps:
  "step_policies (wk_steps (exit_walk (adminTier ls q stage bs w))) \<subseteq>
     (\<lambda>b. stripped (pol_view (b_pol b))) ` set bs \<union> step_policies (wk_steps w) \<and>
   exit_res_ok (adminTier ls q stage bs w)"
proof (induction ls q stage bs w rule: adminTier.induct)
  case (1 ls q stage w)
  then show ?case by simp
next
  case (2 ls q stage b bs w)
  note head = admin_rules_steps[of ls q stage "stage = ''baseline''" b "policy_rules (b_pol b) (fq_dir q)" w]
  show ?case
  proof (cases "admin_rules ls q stage (stage = ''baseline'') b (policy_rules (b_pol b) (fq_dir q)) w")
    case (RanOut w')
    with head 2[OF RanOut] show ?thesis by auto
  next
    case (Returned w' res)
    with head show ?thesis by auto
  qed
qed

lemma dfw_rules_steps:
  "step_policies (wk_steps (exit_walk (dfw_rules ls q b rs w))) \<subseteq>
     insert (stripped (pol_view (b_pol b))) (step_policies (wk_steps w)) \<and>
   exit_res_ok (dfw_rules ls q b rs w)"
  by (induction ls q b rs w rule: dfw_rules.induct) (auto simp: Let_def)

lemma dfwTier_steps:
  "step_policies (wk_steps (exit_walk (dfwTier ls q bs w))) \<subseteq>
     (\<lambda>b. stripped (pol_view (b_pol b))) ` set bs \<union> step_policies (wk_steps w) \<and>
   exit_res_ok (dfwTier ls q bs w)"
proof (induction ls q bs w rule: dfwTier.induct)
  case (1 ls q w)
  then show ?case by simp
next
  case (2 ls q b bs w)
  note head = dfw_rules_steps[of ls q b "policy_rules (b_pol b) (fq_dir q)" w]
  show ?case
  proof (cases "dfw_rules ls q b (policy_rules (b_pol b) (fq_dir q)) w")
    case (RanOut w')
    with head 2[OF RanOut] show ?thesis by auto
  next
    case (Returned w' res)
    with head show ?thesis by auto
  qed
qed

abbreviation bound_views :: "bound list \<Rightarrow> policy_view set" where
  "bound_views bs \<equiv> (\<lambda>b. stripped (pol_view (b_pol b))) ` set bs"

lemma project_tier_steps:
  assumes "selecting \<noteq> []"
  shows "step_policies (wr_steps (project_tier ls q selecting w)) \<subseteq>
     bound_views selecting \<union> step_policies (wk_steps w)"
proof (cases "dfwTier ls q selecting w")
  case (RanOut w')
  have "hd selecting \<in> set selecting" using assms by simp
  with RanOut dfwTier_steps[of ls q selecting w] show ?thesis
    by (auto simp: project_tier_def Let_def)
next
  case (Returned w' res)
  with dfwTier_steps[of ls q selecting w] show ?thesis
    by (cases res) (auto simp: project_tier_def)
qed

lemma lower_tiers_steps:
  "step_policies (wr_steps (lower_tiers ls s q subj w)) \<subseteq>
     bound_views (selecting_for ls s (fq_dir q) subj) \<union>
     bound_views (bind_policies ls (baselines s) (w_ns_labels subj) (w_pod_labels subj) True) \<union>
     step_policies (wk_steps w)"
proof -
  let ?w = "w\<lparr>wk_conds := filter (\<lambda>a. a \<noteq> ''Pass'') (wk_conds w)\<rparr>"
  let ?bs = "bind_policies ls (baselines s) (w_ns_labels subj) (w_pod_labels subj) True"
  show ?thesis
  proof (cases "selecting_for ls s (fq_dir q) subj = []")
    case False
    with project_tier_steps[OF False, of ls q ?w] show ?thesis
      by (auto simp: lower_tiers_def Let_def)
  next
    case True
    note base = adminTier_steps[of ls q "''baseline''" ?bs ?w]
    show ?thesis
    proof (cases "adminTier ls q ''baseline'' ?bs ?w")
      case (RanOut w')
      with True base show ?thesis by (auto simp: lower_tiers_def Let_def)
    next
      case (Returned w' res)
      with True base show ?thesis by (cases res) (auto simp: lower_tiers_def Let_def)
    qed
  qed
qed

lemma directionWalk_steps:
  "step_policies (wr_steps (directionWalk ls s q subj)) \<subseteq>
     bound_views (bind_policies ls (sortedANPs s) (w_ns_labels subj) (w_pod_labels subj) True) \<union>
     bound_views (selecting_for ls s (fq_dir q) subj) \<union>
     bound_views (bind_policies ls (baselines s) (w_ns_labels subj) (w_pod_labels subj) True)"
proof -
  let ?bs = "bind_policies ls (sortedANPs s) (w_ns_labels subj) (w_pod_labels subj) True"
  have empty: "step_policies (wk_steps (new_walk d)) = {}" for d
    by (simp add: new_walk_def step_policies_def)
  note admin = adminTier_steps[of ls q "''admin''" ?bs "new_walk (fq_dir q)"]
  show ?thesis
  proof (cases "adminTier ls q ''admin'' ?bs (new_walk (fq_dir q))")
    case (RanOut w)
    with admin lower_tiers_steps[of ls s q subj w] show ?thesis
      by (auto simp: directionWalk_def empty)
  next
    case (Returned w res)
    with admin lower_tiers_steps[of ls s q subj w] show ?thesis
      by (cases res) (auto simp: directionWalk_def empty)
  qed
qed

end
