(* ===== verification/Netstate_Steps.thy ===== *)
theory Netstate_Steps
  imports Netstate_Effective
begin

text \<open>
  What the steps of a trace say: the last step of a walk is the one that fixed its outcome,
  every unresolved rule is a visible conditional step, and the order in which the stores
  iterate does not show.
\<close>

section \<open>The last step\<close>

definition closes :: "walk_result \<Rightarrow> bool" where
  "closes res =
     (wr_steps res \<noteq> [] \<and>
      (let st = last (wr_steps res) in
        (ts_decisive st \<and> wr_outcome res \<in> {ts_action st, ''Conditional''}) \<or>
        (\<not> ts_decisive st \<and> ts_conditional st \<and> wr_outcome res = ''Conditional'')))"

fun exit_closes :: "tier_exit \<Rightarrow> bool" where
  "exit_closes (RanOut w) = True"
| "exit_closes (Returned w None) = True"
| "exit_closes (Returned w (Some res)) = closes res"

lemma certain_cases: "certain cs a \<in> {a, ''Conditional''}"
  by (simp add: certain_def)

lemma closes_decide: "closes (decide (addStep w p r s a n c True) a)"
  using certain_cases[of "wk_conds w" a] by (simp add: closes_def Let_def) (simp add: addStep_def)

lemma admin_rules_closes: "exit_closes (admin_rules ls q stage bl b rs w)"
  by (induction ls q stage bl b rs w rule: admin_rules.induct) (auto simp: Let_def closes_decide)

lemma adminTier_closes: "exit_closes (adminTier ls q stage bs w)"
proof (induction ls q stage bs w rule: adminTier.induct)
  case (2 ls q stage b bs w)
  with admin_rules_closes[of ls q stage "stage = ''baseline''" b "policy_rules (b_pol b) (fq_dir q)" w]
  show ?case by (auto split: tier_exit.splits)
qed simp

lemma dfw_rules_closes: "exit_closes (dfw_rules ls q b rs w)"
  by (induction ls q b rs w rule: dfw_rules.induct) (auto simp: Let_def closes_decide)

lemma dfwTier_closes: "exit_closes (dfwTier ls q bs w)"
proof (induction ls q bs w rule: dfwTier.induct)
  case (2 ls q b bs w)
  with dfw_rules_closes[of ls q b "policy_rules (b_pol b) (fq_dir q)" w]
  show ?case by (auto split: tier_exit.splits)
qed simp

lemma dfwTier_no_pass: "dfwTier ls q bs w \<noteq> Returned w' None"
proof
  assume "dfwTier ls q bs w = Returned w' None"
  with dfwTier_scan[of w ls q bs] scan_no_pass show False by auto
qed

lemma project_tier_closes: "closes (project_tier ls q selecting w)"
proof (cases "dfwTier ls q selecting w")
  case (RanOut w')
  then show ?thesis
    by (auto simp: project_tier_def Let_def closes_decide) (simp add: closes_def walk_result_of_def addStep_def)
next
  case (Returned w' res)
  with dfwTier_closes[of ls q selecting w] dfwTier_no_pass[of ls q selecting w w'] show ?thesis
    by (cases res) (auto simp: project_tier_def)
qed

lemma lower_tiers_closes: "closes (lower_tiers ls s q subj w)"
  using adminTier_closes[of ls q "''baseline''" "bind_policies ls (baselines s) (w_ns_labels subj) (w_pod_labels subj) True"
      "w\<lparr>wk_conds := filter (\<lambda>a. a \<noteq> ''Pass'') (wk_conds w)\<rparr>"]
  by (auto simp: lower_tiers_def Let_def project_tier_closes closes_decide split: tier_exit.splits option.splits)

lemma directionWalk_closes: "closes (directionWalk ls s q subj)"
  using adminTier_closes[of ls q "''admin''" "bind_policies ls (sortedANPs s) (w_ns_labels subj) (w_pod_labels subj) True"
      "new_walk (fq_dir q)"]
  by (auto simp: directionWalk_def lower_tiers_closes split: tier_exit.splits option.splits)

section \<open>Unresolved rules are visible\<close>

text \<open>Every action remembered as unresolved has its conditional step, in every intermediate
  walk; the steps only grow.\<close>

definition visible :: "walk \<Rightarrow> bool" where
  "visible w = (\<forall>a \<in> set (wk_conds w). \<exists>st \<in> set (wk_steps w). ts_conditional st \<and> ts_action st = a)"

definition shows_doubt :: "walk_result \<Rightarrow> bool" where
  "shows_doubt res =
     (wr_outcome res = ''Conditional'' \<longrightarrow>
      (\<exists>st \<in> set (wr_steps res). ts_conditional st \<or> ts_action st = ''Conditional''))"

fun exit_shows :: "tier_exit \<Rightarrow> bool" where
  "exit_shows (RanOut w) = visible w"
| "exit_shows (Returned w None) = visible w"
| "exit_shows (Returned w (Some res)) = shows_doubt res"

lemma visible_addStep [simp]: "visible w \<Longrightarrow> visible (addStep w p r s a n c d)"
  by (auto simp: visible_def addStep_def)

lemma visible_maybe [simp]: "visible w \<Longrightarrow> visible (walk_maybe w v rv s a n)"
  by (auto simp: visible_def walk_maybe_def addStep_def)

lemma shows_decide: "visible w \<Longrightarrow> shows_doubt (decide (addStep w p r s a n c True) a)"
  unfolding shows_doubt_def
proof
  assume v: "visible w" and "wr_outcome (decide (addStep w p r s a n c True) a) = ''Conditional''"
  then have "certain (wk_conds w) a = ''Conditional''" by simp
  then consider b where "b \<in> set (wk_conds w)" | "a = ''Conditional''"
    by (auto simp: certain_def list_ex_iff split: if_splits)
  then show "\<exists>st \<in> set (wr_steps (decide (addStep w p r s a n c True) a)). ts_conditional st \<or> ts_action st = ''Conditional''"
    using v by cases (auto simp: visible_def addStep_def)
qed

lemma admin_rules_shows: "visible w \<Longrightarrow> exit_shows (admin_rules ls q stage bl b rs w)"
  by (induction ls q stage bl b rs w rule: admin_rules.induct) (auto simp: Let_def shows_decide)

lemma adminTier_shows: "visible w \<Longrightarrow> exit_shows (adminTier ls q stage bs w)"
proof (induction ls q stage bs w rule: adminTier.induct)
  case (2 ls q stage b bs w)
  note head = admin_rules_shows[OF 2(2), of ls q stage "stage = ''baseline''" b "policy_rules (b_pol b) (fq_dir q)"]
  show ?case
  proof (cases "admin_rules ls q stage (stage = ''baseline'') b (policy_rules (b_pol b) (fq_dir q)) w")
    case (RanOut w')
    with head 2(1)[OF RanOut] show ?thesis by simp
  next
    case (Returned w' res)
    with head show ?thesis by simp
  qed
qed simp

lemma dfw_rules_shows: "visible w \<Longrightarrow> exit_shows (dfw_rules ls q b rs w)"
  by (induction ls q b rs w rule: dfw_rules.induct) (auto simp: Let_def shows_decide)

lemma dfwTier_shows: "visible w \<Longrightarrow> exit_shows (dfwTier ls q bs w)"
proof (induction ls q bs w rule: dfwTier.induct)
  case (2 ls q b bs w)
  note head = dfw_rules_shows[OF 2(2), of ls q b "policy_rules (b_pol b) (fq_dir q)"]
  show ?case
  proof (cases "dfw_rules ls q b (policy_rules (b_pol b) (fq_dir q)) w")
    case (RanOut w')
    with head 2(1)[OF RanOut] show ?thesis by simp
  next
    case (Returned w' res)
    with head show ?thesis by simp
  qed
qed simp

lemma project_tier_shows: "visible w \<Longrightarrow> shows_doubt (project_tier ls q selecting w)"
proof (cases "dfwTier ls q selecting w")
  case (RanOut w')
  assume "visible w"
  with dfwTier_shows[of w ls q selecting] RanOut have "visible w'" by simp
  with RanOut show ?thesis
    by (auto simp: project_tier_def Let_def shows_decide) (auto simp: shows_doubt_def addStep_def)
next
  case (Returned w' res)
  assume "visible w"
  with Returned dfwTier_shows[of w ls q selecting] dfwTier_no_pass[of ls q selecting w w'] show ?thesis
    by (cases res) (auto simp: project_tier_def)
qed

lemma lower_tiers_shows:
  assumes "visible w"
  shows "shows_doubt (lower_tiers ls s q subj w)"
proof -
  let ?w = "w\<lparr>wk_conds := filter (\<lambda>a. a \<noteq> ''Pass'') (wk_conds w)\<rparr>"
  have v: "visible ?w" using assms by (auto simp: visible_def)
  from adminTier_shows[OF v, of ls q "''baseline''"
      "bind_policies ls (baselines s) (w_ns_labels subj) (w_pod_labels subj) True"]
  show ?thesis
    by (auto simp: lower_tiers_def Let_def project_tier_shows[OF v] shows_decide split: tier_exit.splits option.splits)
qed

lemma visible_new [simp]: "visible (new_walk d)"
  by (simp add: visible_def)

lemma directionWalk_shows: "shows_doubt (directionWalk ls s q subj)"
  using adminTier_shows[OF visible_new, of ls q "''admin''"
      "bind_policies ls (sortedANPs s) (w_ns_labels subj) (w_pod_labels subj) True" "fq_dir q"]
  by (auto simp: directionWalk_def lower_tiers_shows split: tier_exit.splits option.splits)

lemma gateway_rules_shows: "visible w \<Longrightarrow> exit_shows (gateway_rules ls q p rs w)"
  by (induction ls q p rs w rule: gateway_rules.induct) (auto simp: Let_def shows_decide)

lemma gatewayTier_shows: "visible w \<Longrightarrow> exit_shows (gatewayTier ls q ps w)"
proof (induction ls q ps w rule: gatewayTier.induct)
  case (2 ls q p ps w)
  note head = gateway_rules_shows[OF 2(2), of ls q p "pol_egress p"]
  show ?case
  proof (cases "gateway_rules ls q p (pol_egress p) w")
    case (RanOut w')
    with head 2(1)[OF RanOut] show ?thesis by simp
  next
    case (Returned w' res)
    with head show ?thesis by simp
  qed
qed simp

lemma shows_decide_plain: "visible w \<Longrightarrow> a \<noteq> ''Conditional'' \<Longrightarrow> shows_doubt (decide w a)"
  by (auto simp: shows_doubt_def certain_def list_ex_iff visible_def split: if_splits)

lemma gatewayWalk_shows: "shows_doubt (gatewayWalk ls s ns ip proto port)"
  using gatewayTier_shows[OF visible_new,
      of ls "\<lparr>fq_dir = ''Egress'', fq_peer = TAddr ip, fq_protocol = proto, fq_port = port\<rparr>" "gateways s ns" "''Egress''"]
  by (auto simp: gatewayWalk_def Let_def shows_decide shows_decide_plain split: tier_exit.splits option.splits)

lemma verdict_cases:
  "verdict rs = ''Deny'' \<longleftrightarrow> (\<exists>r \<in> set rs. wr_outcome r = ''Deny'')"
  "verdict rs = ''Conditional'' \<longleftrightarrow>
     (\<forall>r \<in> set rs. wr_outcome r \<noteq> ''Deny'') \<and> (\<exists>r \<in> set rs. wr_outcome r = ''Conditional'')"
  "verdict rs = ''Allow'' \<longleftrightarrow> (\<forall>r \<in> set rs. wr_outcome r \<noteq> ''Deny'' \<and> wr_outcome r \<noteq> ''Conditional'')"
  by (auto simp: verdict_def list_ex_iff)

lemma verdict_not_unreachable: "verdict rs \<noteq> ''Unreachable''"
  by (simp add: verdict_def)

section \<open>The iteration order of the stores\<close>

text \<open>Two listings of one store: the same objects, each identified by namespace and name.\<close>

definition same_store :: "'d obj list \<Rightarrow> 'd obj list \<Rightarrow> bool" where
  "same_store xs ys = (mset xs = mset ys \<and> distinct (map (\<lambda>u. (o_namespace u, o_name u)) xs))"

definition same_cluster_store :: "'d obj list \<Rightarrow> 'd obj list \<Rightarrow> bool" where
  "same_cluster_store xs ys = (mset xs = mset ys \<and> distinct (map o_name xs))"

lemma same_store_unique:
  "same_store xs ys \<Longrightarrow> u \<in> set xs \<Longrightarrow> v \<in> set xs \<Longrightarrow> o_namespace u = o_namespace v \<Longrightarrow>
     o_name u = o_name v \<Longrightarrow> u = v"
  unfolding same_store_def using distinct_map_key[of "\<lambda>u. (o_namespace u, o_name u)" xs u v] by simp

lemma same_cluster_store_unique:
  "same_cluster_store xs ys \<Longrightarrow> u \<in> set xs \<Longrightarrow> v \<in> set xs \<Longrightarrow> o_name u = o_name v \<Longrightarrow> u = v"
  unfolding same_cluster_store_def using distinct_map_key[of o_name xs u v] by simp

lemma inNamespace_order:
  assumes "same_store xs ys" and name: "\<And>u. v_name (pol_view (dec u)) = o_name u"
  shows "inNamespace xs ns dec = inNamespace ys ns dec"
  unfolding inNamespace_def
proof (rule name_order.go_sort_unique)
  from assms(1) show "mset (map dec (filter (\<lambda>u. o_namespace u = ns) xs)) = mset (map dec (filter (\<lambda>u. o_namespace u = ns) ys))"
    by (simp add: same_store_def)
next
  fix a b
  assume a: "a \<in> set (map dec (filter (\<lambda>u. o_namespace u = ns) xs))"
    and b: "b \<in> set (map dec (filter (\<lambda>u. o_namespace u = ns) xs))"
    and ab: "\<not> name_less a b" "\<not> name_less b a"
  from a obtain u where u: "u \<in> set xs" "o_namespace u = ns" "a = dec u" by auto
  from b obtain v where v: "v \<in> set xs" "o_namespace v = ns" "b = dec v" by auto
  from ab u v name have "o_name u = o_name v" by (simp add: name_less_def)
  with u v assms(1) have "u = v"
    by (auto intro: same_store_unique)
  with u v show "a = b" by simp
qed

lemma sortedANPs_order:
  assumes "mset xs = mset ys" and "distinct (map o_name xs)"
  shows "go_sort anp_less (decoded xs decodeANP) = go_sort anp_less (decoded ys decodeANP)"
proof (rule anp_order.go_sort_unique)
  from assms(1) show "mset (decoded xs decodeANP) = mset (decoded ys decodeANP)"
    by (simp add: decoded_def)
next
  fix a b
  assume "a \<in> set (decoded xs decodeANP)" "b \<in> set (decoded xs decodeANP)"
    and ab: "\<not> anp_less a b" "\<not> anp_less b a"
  then obtain u v where uv: "u \<in> set xs" "a = decodeANP u" "v \<in> set xs" "b = decodeANP v"
    by (auto simp: decoded_def)
  from ab have "v_name (pol_view a) = v_name (pol_view b)"
    by (auto simp: anp_less_def split: if_splits)
  with uv have "o_name u = o_name v" by (simp add: decodeANP_def)
  with uv assms(2) show "a = b" by (auto dest: distinct_map_key[of o_name xs u v])
qed

section \<open>Invariants of a walk\<close>

text \<open>What every kind of step keeps holds at the end of the walk; \<open>exit_inv\<close> reads it off the way
  a loop ended.\<close>

definition from_walk :: "(walk \<Rightarrow> bool) \<Rightarrow> walk_result \<Rightarrow> bool" where
  "from_walk I res = (\<exists>w. I w \<and> wr_steps res = wk_steps w)"

fun exit_inv :: "(walk \<Rightarrow> bool) \<Rightarrow> tier_exit \<Rightarrow> bool" where
  "exit_inv I (RanOut w) = I w"
| "exit_inv I (Returned w None) = I w"
| "exit_inv I (Returned w (Some res)) = from_walk I res"

locale walk_invariant =
  fixes I :: "walk \<Rightarrow> bool"
  assumes add: "I w \<Longrightarrow> I (addStep w p r s a n c d)"
    and conds: "I w \<Longrightarrow> I (w\<lparr>wk_conds := cs\<rparr>)"
begin

lemma maybe: "I w \<Longrightarrow> I (walk_maybe w v rv s a n)"
  by (simp add: walk_maybe_def conds add)

lemma decided: "I w \<Longrightarrow> from_walk I (decide w a)"
  by (auto simp: from_walk_def)

lemma given: "I w \<Longrightarrow> from_walk I (walk_result_of w a)"
  by (auto simp: from_walk_def)

lemmas steps = add maybe decided given conds

lemma admin_rules: "I w \<Longrightarrow> exit_inv I (admin_rules ls q stage bl b rs w)"
  by (induction ls q stage bl b rs w rule: admin_rules.induct) (auto simp: Let_def steps)

lemma adminTier: "I w \<Longrightarrow> exit_inv I (adminTier ls q stage bs w)"
proof (induction ls q stage bs w rule: adminTier.induct)
  case (2 ls q stage b bs w)
  note head = admin_rules[OF 2(2), of ls q stage "stage = ''baseline''" b "policy_rules (b_pol b) (fq_dir q)"]
  with 2(1) show ?case
    by (cases "admin_rules ls q stage (stage = ''baseline'') b (policy_rules (b_pol b) (fq_dir q)) w") auto
qed simp

lemma dfw_rules: "I w \<Longrightarrow> exit_inv I (dfw_rules ls q b rs w)"
  by (induction ls q b rs w rule: dfw_rules.induct) (auto simp: Let_def steps)

lemma dfwTier: "I w \<Longrightarrow> exit_inv I (dfwTier ls q bs w)"
proof (induction ls q bs w rule: dfwTier.induct)
  case (2 ls q b bs w)
  note head = dfw_rules[OF 2(2), of ls q b "policy_rules (b_pol b) (fq_dir q)"]
  with 2(1) show ?case
    by (cases "dfw_rules ls q b (policy_rules (b_pol b) (fq_dir q)) w") auto
qed simp

lemma project_tier: "I w \<Longrightarrow> from_walk I (project_tier ls q selecting w)"
  using dfwTier[of w ls q selecting]
  by (auto simp: project_tier_def Let_def steps split: tier_exit.splits option.splits)

lemma lower_tiers: "I w \<Longrightarrow> from_walk I (lower_tiers ls s q subj w)"
  using adminTier[of "w\<lparr>wk_conds := filter (\<lambda>a. a \<noteq> ''Pass'') (wk_conds w)\<rparr>" ls q "''baseline''"
      "bind_policies ls (baselines s) (w_ns_labels subj) (w_pod_labels subj) True"]
  by (auto simp: lower_tiers_def Let_def steps project_tier split: tier_exit.splits option.splits)

lemma directionWalk: "I (new_walk (fq_dir q)) \<Longrightarrow> from_walk I (directionWalk ls s q subj)"
  using adminTier[of "new_walk (fq_dir q)" ls q "''admin''"
      "bind_policies ls (sortedANPs s) (w_ns_labels subj) (w_pod_labels subj) True"]
  by (auto simp: directionWalk_def lower_tiers split: tier_exit.splits option.splits)

end

text \<open>Every step of a walk carries the walk's direction.\<close>

definition directed :: "string \<Rightarrow> walk \<Rightarrow> bool" where
  "directed d w = (wk_dir w = d \<and> (\<forall>st \<in> set (wk_steps w). ts_direction st = d))"

interpretation directed_walk: walk_invariant "directed d" for d
  by unfold_locales (auto simp: directed_def addStep_def)

lemma directionWalk_directed: "st \<in> set (wr_steps (directionWalk ls s q subj)) \<Longrightarrow> ts_direction st = fq_dir q"
  using directed_walk.directionWalk[of "fq_dir q" q ls s subj]
  by (auto simp: from_walk_def directed_def new_walk_def)

end
