(* ===== verification/Netstate_Props.thy ===== *)
theory Netstate_Props
  imports Netstate_Steps
begin

text \<open>
  The properties of the policy plane (trace, effective chain, policy listing), with the small
  snapshots their witnesses are evaluated on.
\<close>

section \<open>Example snapshots\<close>

definition empty_snapshot :: snapshot where
  "empty_snapshot = \<lparr>s_udn = [], s_cudn = [], s_nad = [], s_nns = [], s_nncp = [],
     s_nmstate_present = False, s_netpol = [], s_anp = [], s_banp = [], s_egressfw = [],
     s_egressip = [], s_extroute = [], s_nodes = []\<rparr>"

definition any_selector :: label_selector where
  "any_selector = \<lparr>match_labels = [], match_exprs = []\<rparr>"

definition odd_selector :: label_selector where
  "odd_selector = \<lparr>match_labels = [], match_exprs = [\<lparr>rq_key = ''app'', rq_operator = ''Near'', rq_values = []\<rparr>]\<rparr>"

definition everyone :: admin_peer_doc where
  "everyone = \<lparr>ap_namespaces = Some any_selector, ap_pods = None, ap_nodes = None, ap_networks = None\<rparr>"

definition block_cidr :: admin_peer_doc where
  "block_cidr = \<lparr>ap_namespaces = None, ap_pods = None, ap_nodes = None, ap_networks = Some [''10.0.0.0/8'']\<rparr>"

definition admin_rule_doc :: "string \<Rightarrow> admin_peer_doc \<Rightarrow> admin_policy_rule_doc" where
  "admin_rule_doc action p = \<lparr>ar_action = action, ar_from = [p], ar_to = [p], ar_ports = []\<rparr>"

definition admin_obj :: "string \<Rightarrow> int \<Rightarrow> admin_policy_rule_doc list \<Rightarrow> admin_network_policy_doc obj" where
  "admin_obj name prio ingress =
     \<lparr>o_name = name, o_namespace = '''', o_owners = [],
      o_doc = \<lparr>and_kind = ''AdminNetworkPolicy'', and_priority = prio,
               and_subject_namespaces = Some any_selector, and_subject_pods = None,
               and_ingress = ingress, and_egress = []\<rparr>\<rparr>"

definition netpol_obj :: "string \<Rightarrow> string \<Rightarrow> label_selector \<Rightarrow> network_policy_rule list \<Rightarrow> network_policy_doc obj" where
  "netpol_obj ns name sel ingress =
     \<lparr>o_name = name, o_namespace = ns, o_owners = [],
      o_doc = \<lparr>npd_pod_selector = sel, npd_policy_types = [''Ingress''], npd_ingress = ingress, npd_egress = None\<rparr>\<rparr>"

definition ex_vm :: "string \<Rightarrow> string \<Rightarrow> string list \<Rightarrow> workload" where
  "ex_vm ns name ips = \<lparr>w_namespace = ns, w_name = name, w_ns_labels = [], w_pod_labels = [],
     w_ips = ips, w_pod_net = True, w_default_net = '''', w_nets = []\<rparr>"

definition ex_world :: world where
  "ex_world = \<lparr>wd_selector = (\<lambda>_ _. False), wd_port = 443, wd_named = (\<lambda>_. False),
     wd_addrs = (\<lambda>_. []), wd_node = (\<lambda>_. False), wd_dns = (\<lambda>_. False), wd_other = (\<lambda>_. False)\<rparr>"

text \<open>A library that rejects every selector it is asked about.\<close>

definition ls_reject :: selector_eval where
  "ls_reject sel l = None"

lemma ex_world_completes: "completes ls_reject 443 ex_world"
  by (simp add: completes_def ls_reject_def ex_world_def)

definition deny_snapshot :: snapshot where
  "deny_snapshot = empty_snapshot\<lparr>s_anp := [admin_obj ''lockdown'' 10 [admin_rule_doc ''Deny'' everyone]]\<rparr>"

definition allow_snapshot :: snapshot where
  "allow_snapshot = empty_snapshot\<lparr>
     s_netpol := [netpol_obj ''b'' ''open'' any_selector [\<lparr>npr_from = [], npr_to = [], npr_ports = []\<rparr>]]\<rparr>"

definition odd_snapshot :: snapshot where
  "odd_snapshot = empty_snapshot\<lparr>
     s_netpol := [netpol_obj ''b'' ''odd'' odd_selector [\<lparr>npr_from = [], npr_to = [], npr_ports = []\<rparr>]],
     s_banp := [admin_obj ''default'' 0 [admin_rule_doc ''Deny'' everyone]]\<rparr>"

definition stopped_snapshot :: snapshot where
  "stopped_snapshot = empty_snapshot\<lparr>s_anp := [admin_obj ''blocked'' 10 [admin_rule_doc ''Deny'' block_cidr]]\<rparr>"

text \<open>With no unresolvable pod selector, a policy that selects a workload certainly selects it.\<close>

lemma selecting_for_clear:
  assumes "\<forall>u \<in> set (s_netpol s). \<forall>l. matchSelector ls (Some (npd_pod_selector (o_doc u))) l \<noteq> MatchCond"
    and "b \<in> set (selecting_for ls s dir subj)"
  shows "b_m b = MatchYes"
proof -
  from assms(2) obtain u where u: "u \<in> set (s_netpol s)"
    and m: "b_m b = subject_match ls (pol_subject (decodeNetpol u)) [] (w_pod_labels subj) True" "b_m b \<noteq> MatchNo"
    by (auto simp: selecting_for_mem inNamespace_set)
  from assms(1) u have "matchSelector ls (Some (npd_pod_selector (o_doc u))) (w_pod_labels subj) \<noteq> MatchCond" by blast
  with m show ?thesis
    by (cases "matchSelector ls (Some (npd_pod_selector (o_doc u))) (w_pod_labels subj)")
       (auto simp: subject_match_def podMatch_def matchSelector_def emptySelector_def split: option.splits if_splits)
qed

section \<open>Verdicts against worlds\<close>

text \<open>C1: A certain Deny is right. When the trace of a flow answers Deny, the documented evaluation denies
  the flow in every world that completes what the snapshot knows, whatever the rejected selectors,
  named ports, stopped VMs, DNS names and node addresses turn out to be.\<close>
theorem trace_deny_certain:
  assumes comp: "completes ls port W"
    and deny: "tr_verdict (trace_flow ls s src t protocol port) = ''Deny''"
  shows "flow_denied W s src t protocol port"
proof (cases t)
  case (TWorkload dst)
  with deny consider "wr_outcome (directionWalk ls s (query ''Egress'' (TWorkload dst) protocol port) src) = ''Deny''"
    | "wr_outcome (directionWalk ls s (query ''Ingress'' (TWorkload src) protocol port) dst) = ''Deny''"
    by (auto simp: verdict_cases Let_def split: prod.splits if_splits)
  then show ?thesis
    unfolding TWorkload flow_denied.simps
    by cases (use direction_certain[of ls _ W s _ "''Deny''"] comp in \<open>auto simp: query_def\<close>)
next
  case (TAddr ip)
  with deny consider "wr_outcome (directionWalk ls s (query ''Egress'' (TAddr ip) protocol port) src) = ''Deny''"
    | "wr_outcome (gatewayWalk ls s (w_namespace src) ip (if protocol = '''' then ''TCP'' else protocol) port) = ''Deny''"
    by (auto simp: verdict_cases Let_def)
  then show ?thesis
    unfolding TAddr flow_denied.simps
    by cases (use direction_certain[of ls _ W s _ "''Deny''"] gateway_certain[OF comp, of s _ _ _ "''Deny''"] comp
        in \<open>auto simp: query_def\<close>)
qed

theorem trace_deny_certain_witness:
  "flow_denied ex_world deny_snapshot (ex_vm ''a'' ''web'' [''10.1.0.4'']) (TWorkload (ex_vm ''b'' ''db'' [''10.1.0.5''])) ''TCP'' 443"
  by (rule trace_deny_certain[OF ex_world_completes]) code_simp

text \<open>C2: A certain Allow is right where no NetworkPolicy of the snapshot has a pod selector that cannot be
  evaluated: when the trace answers Allow, no completing world denies the flow.\<close>
theorem trace_allow_certain:
  assumes comp: "completes ls port W"
    and clear: "\<forall>u \<in> set (s_netpol s). \<forall>l. matchSelector ls (Some (npd_pod_selector (o_doc u))) l \<noteq> MatchCond"
    and allow: "tr_verdict (trace_flow ls s src t protocol port) = ''Allow''"
  shows "\<not> flow_denied W s src t protocol port"
proof -
  have dir: "flow_direction W s q subj = X"
    if "fq_port q = port" "wr_outcome (directionWalk ls s q subj) = X" "X \<noteq> ''Conditional''" for q subj X
    using that comp selecting_for_clear[OF clear] by (intro direction_certain[of ls]) auto
  show ?thesis
  proof (cases t)
    case (TWorkload dst)
    with allow show ?thesis
      using dir[OF _ refl] by (auto simp: verdict_cases Let_def query_def split: prod.splits if_splits)
  next
    case (TAddr ip)
    with allow show ?thesis
      using dir[OF _ refl] gateway_certain[OF comp refl] by (auto simp: verdict_cases Let_def query_def)
  qed
qed

theorem trace_allow_certain_witness:
  "\<not> flow_denied ex_world allow_snapshot (ex_vm ''a'' ''web'' [''10.1.0.4'']) (TWorkload (ex_vm ''b'' ''db'' [''10.1.0.5''])) ''TCP'' 443"
  by (rule trace_allow_certain[OF ex_world_completes])
     (simp add: allow_snapshot_def empty_snapshot_def netpol_obj_def any_selector_def matchSelector_def emptySelector_def, code_simp)

text \<open>Without that condition an Allow is not certain. A NetworkPolicy whose pod selector the library
  rejects may not select the destination at all; the walk still lets its rule answer Allow, and a
  completing world in which the policy does not select the destination denies the flow at the
  baseline tier.\<close>
lemma trace_allow_uncertain:
  "\<exists>ls W s src t protocol port. completes ls port W \<and>
     tr_verdict (trace_flow ls s src t protocol port) = ''Allow'' \<and> flow_denied W s src t protocol port"
proof -
  let ?src = "ex_vm ''a'' ''web'' [''10.1.0.4'']" and ?t = "TWorkload (ex_vm ''b'' ''db'' [''10.1.0.5''])"
  have "tr_verdict (trace_flow ls_reject odd_snapshot ?src ?t ''TCP'' 443) = ''Allow''" by code_simp
  moreover have "flow_denied ex_world odd_snapshot ?src ?t ''TCP'' 443" by code_simp
  ultimately show ?thesis using ex_world_completes by blast
qed

section \<open>What the steps show\<close>

text \<open>An uncertain verdict shows its doubt. When the trace answers Conditional, some step of the trace
  is marked conditional (an unresolved rule or selection), or is a rule whose own action is the
  literal Conditional.\<close>
theorem trace_doubt_visible:
  assumes "tr_verdict (trace_flow ls s src t protocol port) = ''Conditional''"
  shows "\<exists>st \<in> set (tr_steps (trace_flow ls s src t protocol port)). ts_conditional st \<or> ts_action st = ''Conditional''"
proof (cases t)
  case (TWorkload dst)
  have shows_in: "\<exists>st \<in> set (wr_steps (directionWalk ls s q subj)). ts_conditional st \<or> ts_action st = ''Conditional''"
    if "wr_outcome (directionWalk ls s q subj) = ''Conditional''" for q subj
    using directionWalk_shows that by (simp add: shows_doubt_def)
  from assms TWorkload show ?thesis
    by (auto simp: verdict_cases Let_def split: prod.splits if_splits dest!: shows_in)
next
  case (TAddr ip)
  with assms show ?thesis
    using directionWalk_shows[of ls s "query ''Egress'' (TAddr ip) protocol port" src]
      gatewayWalk_shows[of ls s "w_namespace src" ip "if protocol = '''' then ''TCP'' else protocol" port]
    by (auto simp: verdict_cases Let_def shows_doubt_def)
qed

theorem trace_doubt_visible_witness:
  "\<exists>st \<in> set (tr_steps (trace_flow ls_reject stopped_snapshot (ex_vm ''a'' ''web'' [])
     (TWorkload (ex_vm ''b'' ''db'' [''10.1.0.5''])) ''TCP'' 443)). ts_conditional st \<or> ts_action st = ''Conditional''"
  by (rule trace_doubt_visible) code_simp

text \<open>A walk ends with the step that fixed its outcome. One direction always has steps, and its last
  one is decisive with the outcome as its action (or Conditional, when an earlier unresolved rule
  disagrees), or it is the unresolvable isolation of the subject and the outcome is Conditional.\<close>
theorem trace_direction_closes:
  "closes (directionWalk ls s q subj)"
  by (rule directionWalk_closes)

text \<open>C3: The trace does not depend on the order in which the informer stores list their objects. With the
  AdminNetworkPolicies, the NetworkPolicies and the EgressFirewalls permuted, every flow has the
  same verdict and the same steps.\<close>
theorem trace_order_independent:
  assumes anp: "mset (s_anp s) = mset xs" "distinct (map o_name (s_anp s))"
    and np: "same_store (s_netpol s) ys"
    and fw: "same_store (s_egressfw s) zs"
  shows "trace_flow ls (s\<lparr>s_anp := xs, s_netpol := ys, s_egressfw := zs\<rparr>) src t protocol port =
         trace_flow ls s src t protocol port"
proof -
  let ?s' = "s\<lparr>s_anp := xs, s_netpol := ys, s_egressfw := zs\<rparr>"
  have a: "sortedANPs ?s' = sortedANPs s"
    using sortedANPs_order[OF anp] by (simp add: sortedANPs_def)
  have n: "inNamespace ys ns decodeNetpol = inNamespace (s_netpol s) ns decodeNetpol" for ns
    using inNamespace_order[OF np] by simp
  have g: "gateways ?s' ns = gateways s ns" for ns
    using inNamespace_order[OF fw] by (simp add: gateways_def)
  have b: "baselines ?s' = baselines s" by (simp add: baselines_def)
  have sel: "selecting_for ls ?s' dir subj = selecting_for ls s dir subj" for dir subj
    by (simp add: selecting_for_def selectingNetpols_def n)
  have d: "directionWalk ls ?s' q subj = directionWalk ls s q subj" for q subj
    unfolding directionWalk_def lower_tiers_def a b sel by (rule refl)
  have w: "gatewayWalk ls ?s' ns ip proto port = gatewayWalk ls s ns ip proto port" for ns ip proto port
    by (simp add: gatewayWalk_def g)
  have k: "segmentKey ?s' ref = segmentKey s ref" "isLocalnet ?s' = isLocalnet s" for ref
    by (simp_all add: segmentKey_def isLocalnet_def fun_eq_iff)
  have cudn: "cudn_sits_in ?s' ns c = cudn_sits_in s ns c" for ns c
    by (simp add: cudn_sits_in_def)
  have prim: "udn_primary ?s' ns = udn_primary s ns" "cudn_primary ?s' ns = cudn_primary s ns" for ns
    unfolding udn_primary_def cudn_primary_def cudn by simp_all
  have p: "primaryOf ?s' v = primaryOf s v" for v
    unfolding primaryOf_def primaryDomain_def prim k by (rule refl)
  have c: "connectivity ?s' v u = connectivity s v u" for v u
    by (simp add: connectivity_def p sharedSegments_def k)
  have e: "externalConnectivity ?s' v ip = externalConnectivity s v ip"
    "egressPlaneSteps ls ?s' v = egressPlaneSteps ls s v" for v ip
    by (simp_all add: externalConnectivity_def k egressPlaneSteps_def egressBindings_def)
  show ?thesis by (cases t) (simp_all add: d w c e split: prod.split)
qed

theorem trace_order_independent_witness:
  "trace_flow ls_reject (stopped_snapshot\<lparr>s_anp := [admin_obj ''b'' 2 [], admin_obj ''a'' 1 []], s_netpol := [], s_egressfw := []\<rparr>)
     (ex_vm ''a'' ''web'' []) (TAddr ''192.0.2.1'') ''TCP'' 443 =
   trace_flow ls_reject (stopped_snapshot\<lparr>s_anp := [admin_obj ''a'' 1 [], admin_obj ''b'' 2 []]\<rparr>)
     (ex_vm ''a'' ''web'' []) (TAddr ''192.0.2.1'') ''TCP'' 443"
proof -
  let ?s = "stopped_snapshot\<lparr>s_anp := [admin_obj ''a'' 1 [], admin_obj ''b'' 2 []]\<rparr>"
  have "trace_flow ls_reject (?s\<lparr>s_anp := [admin_obj ''b'' 2 [], admin_obj ''a'' 1 []], s_netpol := [], s_egressfw := []\<rparr>)
     (ex_vm ''a'' ''web'' []) (TAddr ''192.0.2.1'') ''TCP'' 443 =
     trace_flow ls_reject ?s (ex_vm ''a'' ''web'' []) (TAddr ''192.0.2.1'') ''TCP'' 443"
    by (rule trace_order_independent)
       (simp_all add: admin_obj_def same_store_def stopped_snapshot_def empty_snapshot_def)
  then show ?thesis by simp
qed

section \<open>Connectivity\<close>

text \<open>A flow between workloads is unreachable exactly when one of them has no primary network or their
  primary networks differ; no policy is then consulted: every step is a connectivity or segment
  step and names no policy.\<close>
theorem trace_unreachable_iff:
  "(tr_verdict (trace_flow ls s src (TWorkload dst) protocol port) = ''Unreachable'' \<longleftrightarrow>
     fst (primaryOf s src) = '''' \<or> fst (primaryOf s src) \<noteq> fst (primaryOf s dst)) \<and>
   (fst (primaryOf s src) \<noteq> '''' \<and> fst (primaryOf s src) = fst (primaryOf s dst) \<or>
    list_all (\<lambda>st. ts_stage st \<in> {''connectivity'', ''segment''} \<and> ts_policy st = None)
      (tr_steps (trace_flow ls s src (TWorkload dst) protocol port)))"
proof -
  have plain: "list_all (\<lambda>st. ts_stage st \<in> {''connectivity'', ''segment''} \<and> ts_policy st = None) (snd (connectivity s src dst))"
    by (auto simp: connectivity_def plain_step_def Let_def list_all_iff split: prod.splits)
  show ?thesis
    using connectivity_reachable[of s src dst] plain verdict_not_unreachable
    by (auto simp: Let_def split: prod.splits)
qed

theorem trace_unreachable_iff_witness:
  "tr_verdict (trace_flow ls_reject empty_snapshot (ex_vm ''a'' ''web'' []) (TWorkload ((ex_vm ''b'' ''db'' [])\<lparr>w_pod_net := False\<rparr>)) ''TCP'' 443) = ''Unreachable''"
proof -
  let ?v = "ex_vm ''a'' ''web'' []" and ?u = "(ex_vm ''b'' ''db'' [])\<lparr>w_pod_net := False\<rparr>"
  have "fst (primaryOf empty_snapshot ?v) \<noteq> fst (primaryOf empty_snapshot ?u)" by code_simp
  with trace_unreachable_iff[of ls_reject empty_snapshot ?v ?u "''TCP''" 443] show ?thesis by blast
qed

text \<open>The layer-2 bypass is reported exactly when there is one: the trace between two workloads has a
  Bypass step outside both directions exactly when the workloads have NICs on one segment.\<close>
theorem trace_bypass_iff:
  "(\<exists>st \<in> set (tr_steps (trace_flow ls s src (TWorkload dst) protocol port)).
      ts_direction st = '''' \<and> ts_action st = ''Bypass'') \<longleftrightarrow>
   (\<exists>x \<in> set (w_nets src). \<exists>y \<in> set (w_nets dst). fst (segmentKey s x) = fst (segmentKey s y))"
proof -
  have conn: "(\<exists>st \<in> set (snd (connectivity s src dst)). ts_direction st = '''' \<and> ts_action st = ''Bypass'') \<longleftrightarrow>
      sharedSegments s (w_nets src) (w_nets dst) \<noteq> []"
    by (cases "sharedSegments s (w_nets src) (w_nets dst)")
       (auto simp: connectivity_def plain_step_def Let_def split: prod.splits)
  have walk: "ts_direction st = fq_dir q" if "st \<in> set (wr_steps (directionWalk ls s q subj))" for st q subj
    using directionWalk_directed[OF that] .
  show ?thesis
    unfolding sharedSegments_nonempty_iff[symmetric] conn[symmetric]
    by (auto simp: Let_def query_def split: prod.splits dest!: walk)
qed

section \<open>The effective chain and the listing\<close>

text \<open>C4: The effective chain never hides a policy. Whatever a completing world decides, an admin, project or
  baseline policy whose subject selects the workload there is listed in the workload's east-west
  chain, and a selecting egress pool or route in its SNAT and route lists; a namespace-level query
  lists what selects any pod of the namespace.\<close>
theorem effective_never_hides:
  assumes comp: "completes ls port W" and scoped: "podScoped \<longrightarrow> pl' = pl"
    and holds: "subject_holds W (pol_subject p) nl pl'"
  shows "(p \<in> set (sortedANPs s) \<union> set (baselines s) \<longrightarrow>
            pol_view p \<in> pb_policy ` set (ep_east_west (Effective ls s ns nl pl podScoped))) \<and>
         (p \<in> set (inNamespace (s_netpol s) ns decodeNetpol) \<longrightarrow>
            pol_view p \<in> pb_policy ` set (ep_east_west (Effective ls s ns nl pl podScoped))) \<and>
         (p \<in> set (decoded (s_egressip s) decodeEgressIP) \<longrightarrow>
            pol_view p \<in> pb_policy ` set (ep_snat (Effective ls s ns nl pl podScoped))) \<and>
         (p \<in> set (decoded (s_extroute s) decodeExtRoute) \<longrightarrow>
            pol_view p \<in> pb_policy ` set (ep_routes (Effective ls s ns nl pl podScoped)))"
proof -
  note bound = bound_in_world[OF comp holds scoped]
  have netpol: "\<exists>b \<in> set (selectingNetpols ls s ns pl podScoped). b_pol b = p"
    if "p \<in> set (inNamespace (s_netpol s) ns decodeNetpol)"
  proof -
    from that obtain u where "p = decodeNetpol u" by (auto simp: inNamespace_set)
    with holds have "subject_holds W (pol_subject p) [] pl'"
      by (simp add: subject_holds_def sel_holds_def emptySelector_def)
    from bound_in_world[OF comp this scoped that] show ?thesis by (simp add: selectingNetpols_def)
  qed
  have in_view: "pol_view p \<in> pb_policy ` binding nt ` set bs" if "\<exists>b \<in> set bs. b_pol b = p" for nt bs
    using that by (force simp: binding_def image_iff)
  show ?thesis
    using in_view bound netpol
    by (auto simp: Effective_def egressBindings_def Let_def image_Un)
qed

theorem effective_never_hides_witness:
  "pol_view (decodeANP (admin_obj ''lockdown'' 10 [admin_rule_doc ''Deny'' everyone])) \<in>
     pb_policy ` set (ep_east_west (Effective ls_reject deny_snapshot ''a'' [] [] True))"
proof -
  let ?p = "decodeANP (admin_obj ''lockdown'' 10 [admin_rule_doc ''Deny'' everyone])"
  have "sortedANPs deny_snapshot = [?p]"
    by (simp add: sortedANPs_def deny_snapshot_def decoded_def go_sort_def)
  then have p: "?p \<in> set (sortedANPs deny_snapshot) \<union> set (baselines deny_snapshot)" by simp
  have "subject_holds ex_world (pol_subject ?p) [] []" by code_simp
  from effective_never_hides[OF ex_world_completes _ this, of True "[]" deny_snapshot "''a''"] p
  show ?thesis by blast
qed

text \<open>A default-deny flag is never overstated: when the effective chain of a workload says that a
  direction defaults to deny, in every completing world some NetworkPolicy isolates the workload in that
  direction.\<close>
theorem effective_default_deny_certain:
  assumes comp: "completes ls port W"
  shows "(ep_default_deny_ingress (Effective ls s (w_namespace v) nl (w_pod_labels v) True) \<longrightarrow>
            project_policies W s (query ''Ingress'' t proto port) v \<noteq> []) \<and>
         (ep_default_deny_egress (Effective ls s (w_namespace v) nl (w_pod_labels v) True) \<longrightarrow>
            project_policies W s (query ''Egress'' t proto port) v \<noteq> [])"
proof -
  have sel: "project_policies W s (query dir t proto port) v \<noteq> []"
    if "b \<in> set (selectingNetpols ls s (w_namespace v) (w_pod_labels v) True)" "b_m b = MatchYes" "isolating dir b" for b dir
  proof -
    from that(1,3) have "b \<in> set (selecting_for ls s (fq_dir (query dir t proto port)) v)"
      by (simp add: selecting_for_def query_def)
    from project_policies_sup[OF comp this that(2)] show ?thesis by auto
  qed
  show ?thesis
    using sel by (auto simp: Effective_def egressBindings_def Let_def list_ex_iff isolating_def)
qed

theorem effective_default_deny_certain_witness:
  "project_policies ex_world allow_snapshot (query ''Ingress'' (TAddr ''10.0.0.1'') ''TCP'' 443) (ex_vm ''b'' ''db'' []) \<noteq> []"
proof -
  let ?v = "ex_vm ''b'' ''db'' []"
  have "ep_default_deny_ingress (Effective ls_reject allow_snapshot (w_namespace ?v) [] (w_pod_labels ?v) True)"
    by code_simp
  with effective_default_deny_certain[OF ex_world_completes, of allow_snapshot ?v] show ?thesis by blast
qed

text \<open>C5: The trace and the effective chain agree: every policy a step of a walk names is in the effective
  chain of the workload the walk is about (a step carries the policy without its rules).\<close>
theorem trace_steps_in_effective:
  "step_policies (wr_steps (directionWalk ls s q v)) \<subseteq>
     stripped ` east_west_policies (Effective ls s (w_namespace v) (w_ns_labels v) (w_pod_labels v) True)"
proof
  fix x assume "x \<in> step_policies (wr_steps (directionWalk ls s q v))"
  with directionWalk_steps[of ls s q v] obtain b
    where x: "x = stripped (pol_view (b_pol b))"
      and b: "b \<in> set (bind_policies ls (sortedANPs s) (w_ns_labels v) (w_pod_labels v) True) \<or>
        b \<in> set (selectingNetpols ls s (w_namespace v) (w_pod_labels v) True) \<or>
        b \<in> set (bind_policies ls (baselines s) (w_ns_labels v) (w_pod_labels v) True)"
    by (auto simp: selecting_for_def)
  from b have "pol_view (b_pol b) \<in>
      east_west_policies (Effective ls s (w_namespace v) (w_ns_labels v) (w_pod_labels v) True)"
    by (auto simp: east_west_policies_def Effective_def egressBindings_def Let_def binding_def image_Un image_image)
  with x show "x \<in> stripped ` east_west_policies (Effective ls s (w_namespace v) (w_ns_labels v) (w_pod_labels v) True)"
    by blast
qed

text \<open>The policy listing is one deterministic order: any two orders in which the stores list the same
  objects give the same list.\<close>
theorem policies_deterministic:
  assumes "same_store (s_netpol s) (s_netpol s')" "same_store (s_egressfw s) (s_egressfw s')"
    and "same_cluster_store (s_anp s) (s_anp s')" "same_cluster_store (s_banp s) (s_banp s')"
    and "same_cluster_store (s_egressip s) (s_egressip s')" "same_cluster_store (s_extroute s) (s_extroute s')"
  shows "Policies s = Policies s'"
  unfolding Policies_def
proof (rule policies_order.go_sort_unique)
  show "mset (all_policies s) = mset (all_policies s')"
    using assms by (simp add: all_policies_def decoded_def same_store_def same_cluster_store_def)
next
  fix a b
  assume a: "a \<in> set (all_policies s)" and b: "b \<in> set (all_policies s)"
    and "\<not> policy_less a b" "\<not> policy_less b a"
  then have "v_kind a = v_kind b" "v_namespace a = v_namespace b" "v_name a = v_name b"
    by (auto dest: policy_less_apart)
  with a b assms show "a = b" by (auto simp: all_policies_def decoded_def decodeANP_def decodeBANP_def dest: same_store_unique same_cluster_store_unique)
qed

theorem policies_deterministic_witness:
  "Policies (empty_snapshot\<lparr>s_anp := [admin_obj ''b'' 2 [], admin_obj ''a'' 1 []]\<rparr>) =
   Policies (empty_snapshot\<lparr>s_anp := [admin_obj ''a'' 1 [], admin_obj ''b'' 2 []]\<rparr>)"
  by (rule policies_deterministic)
     (simp_all add: admin_obj_def same_store_def same_cluster_store_def empty_snapshot_def add_mset_commute)

end
