(* ===== verification/Stream_Props.thy ===== *)
theory Stream_Props
  imports Stream_Hub
begin

text \<open>
  The properties of the change bus and of the live stream built on it, with the small executions
  their witnesses run.
\<close>

section \<open>A small execution\<close>

text \<open>One publish of \<open>LiveChanged\<close>, whose wake the subscriber takes.\<close>

definition demo_bus :: bus where
  "demo_bus = \<lparr>bs_versions = (\<lambda>_. 0), bs_broad = (\<lambda>_. 0), bs_keyed = (\<lambda>_. Map.empty), bs_subs = [0],
     bs_chan = [0 \<mapsto> \<lparr>sb_kinds = [LiveChanged, GitChanged], sb_pending = False\<rparr>], bs_next = 1\<rparr>"

definition demo_events :: "event list" where
  "demo_events = [Ev 0 Change, Ev 0 (Bump LiveChanged), Ev 0 (BumpBroad LiveChanged), Ev 0 (Wake LiveChanged), Recv 0]"

lemma demo_interleaved: "\<exists>pc. interleaved (\<lambda>_. OpPublish LiveChanged) demo_bus demo_events pc"
proof -
  let ?ops = "\<lambda>_. OpPublish LiveChanged"
  have 1: "interleaved ?ops demo_bus [Ev 0 Change] ((\<lambda>_. 0)(0 := Suc 0))"
    using interleaved.publish[OF interleaved.start[of ?ops demo_bus], of 0] by simp
  have 2: "interleaved ?ops demo_bus [Ev 0 Change, Ev 0 (Bump LiveChanged)] ((\<lambda>_. 0)(0 := 2))"
    using interleaved.publish[OF 1, of 0] by (simp add: numeral_eq_Suc)
  have 3: "interleaved ?ops demo_bus [Ev 0 Change, Ev 0 (Bump LiveChanged), Ev 0 (BumpBroad LiveChanged)] ((\<lambda>_. 0)(0 := 3))"
    using interleaved.publish[OF 2, of 0] by (simp add: numeral_eq_Suc)
  have 4: "interleaved ?ops demo_bus [Ev 0 Change, Ev 0 (Bump LiveChanged), Ev 0 (BumpBroad LiveChanged), Ev 0 (Wake LiveChanged)] ((\<lambda>_. 0)(0 := 4))"
    using interleaved.publish[OF 3, of 0] by (simp add: numeral_eq_Suc)
  have "pending (run_events demo_bus [Ev 0 Change, Ev 0 (Bump LiveChanged), Ev 0 (BumpBroad LiveChanged), Ev 0 (Wake LiveChanged)]) 0"
    by (simp add: run_events_def demo_bus_def wants_def)
  from interleaved.take_token[OF 4 this] show ?thesis by (auto simp: demo_events_def)
qed

definition demo_history :: history where
  "demo_history = \<lparr>hi_ops = (\<lambda>_. OpPublish LiveChanged), hi_bus = demo_bus, hi_events = demo_events, hi_sub = 0,
     hi_levels = RepoLevels GitChanged [LiveChanged, GitChanged]\<rparr>"

lemma demo_history_ok: "history_ok demo_history"
  using demo_interleaved
  by (auto simp: history_ok_def demo_history_def RepoLevels_def wants_def demo_bus_def total_loads_def demo_events_def)

definition demo_inventory :: inventory where
  "demo_inventory = \<lparr>inv_projects = [\<lparr>pr_name = ''team'', pr_repo = ''https://forge/team.git''\<rparr>]\<rparr>"

definition demo_call :: "identity \<Rightarrow> nat \<Rightarrow> nat \<Rightarrow> inventory option \<Rightarrow> bool" where
  "demo_call who a b r = (a = b \<and> r = Some demo_inventory)"

definition demo_conn :: conn where
  "demo_conn = \<lparr>cn_id = \<lparr>id_token = ''token'', id_username = ''ada'', id_groups = []\<rparr>, cn_key = ''token'',
     cn_out = None, cn_last = '''', cn_written = []\<rparr>"

definition demo_answers :: "unit pass_answers" where
  "demo_answers = \<lparr>pa_check = (\<lambda>_. 1), pa_build = (\<lambda>_. \<lparr>an_total = 1, an_stamp = 1, an_inventory = Some demo_inventory,
     an_after = 1, an_total_after = 1\<rparr>)\<rparr>"

definition demo_marshal :: "inventory \<Rightarrow> string option" where
  "demo_marshal iv = Some ''{}''"

definition demo_hub1 :: hub where
  "demo_hub1 = (add_conn 0 demo_conn NewHub)\<lparr>hb_kick := False\<rparr>"

definition demo_hub2 :: hub where
  "demo_hub2 = reconcile demo_marshal demo_answers demo_hub1"

definition demo_hub3 :: hub where
  "demo_hub3 = reconcile demo_marshal demo_answers demo_hub2"

lemma demo_loads_now:
  "t \<le> length (hi_events h) \<Longrightarrow> v = sum_list (map (load_value (bus_at (hi_bus h) (hi_events h) t)) ls) \<Longrightarrow> loads_in h ls t t v"
  unfolding loads_in_def using reading_at_once[of "hi_bus h" "hi_events h" ls t]
  by (auto intro!: exI[of _ "replicate (length ls) t"])

lemma demo_counters: "bs_versions demo_bus k = 0" "bs_broad demo_bus k = 0" "keyed_get demo_bus k x = 0"
  by (simp_all add: demo_bus_def keyed_get_def)

lemma demo_reads:
  assumes "t = 4 \<or> t = 5"
  shows "bus_total_read demo_history t t 1"
    "deps = [] \<or> deps = Deps demo_inventory \<Longrightarrow> bus_stamp_read demo_history deps t t 1"
  unfolding bus_total_read_def bus_stamp_read_def using assms
  by (auto intro!: demo_loads_now simp: demo_history_def demo_events_def demo_counters bus_at_def run_events_def
      total_loads_def stamp_loads_def RepoLevels_def numeral_eq_Suc Deps_def demo_inventory_def)

lemma demo_quiet: "quiet demo_history 0 0" "quiet demo_history 0 4" "quiet demo_history 4 4" "quiet demo_history 5 5"
  by (auto simp: quiet_def bus_received_def demo_history_def demo_events_def less_Suc_eq numeral_eq_Suc)

lemma demo_keys: "connected_keys demo_hub1 = [''token'']" "connected_keys demo_hub2 = [''token'']"
  by (simp_all add: connected_keys_def demo_hub2_def demo_hub1_def reconcile_def add_conn_def NewHub_def demo_conn_def
      split: option.splits)

lemma demo_frame: "hb_idents demo_hub2 = (\<lambda>key. if key = ''token'' then Some \<lparr>fr_data = ''{}'', fr_deps = Deps demo_inventory, fr_stamp = 1\<rparr> else None)"
proof -
  have "Deps demo_inventory \<noteq> []" by (simp add: Deps_def demo_inventory_def)
  then show ?thesis
    unfolding demo_hub2_def reconcile_def demo_keys
    by (simp add: fun_eq_iff pass_key_def is_due_def demo_hub1_def add_conn_def NewHub_def build_def demo_answers_def
        demo_marshal_def prev_deps_def)
qed

lemma demo_conns:
  "hb_conns demo_hub2 = [(0, demo_conn\<lparr>cn_out := Some ''{}'', cn_last := ''{}''\<rparr>)]"
  "hb_conns demo_hub3 = [(0, demo_conn\<lparr>cn_out := Some ''{}'', cn_last := ''{}''\<rparr>)]"
proof -
  have "snd (pass_key demo_marshal demo_answers demo_hub1 ''token'') = Some ''{}''"
    by (simp add: pass_key_def is_due_def demo_hub1_def add_conn_def NewHub_def build_def demo_answers_def
        demo_marshal_def prev_deps_def Let_def)
  moreover have "hb_conns demo_hub1 = [(0, demo_conn)]" by (simp add: demo_hub1_def add_conn_def NewHub_def)
  ultimately show 2: "hb_conns demo_hub2 = [(0, demo_conn\<lparr>cn_out := Some ''{}'', cn_last := ''{}''\<rparr>)]"
    by (simp add: demo_hub2_def reconcile_def demo_conn_def sendLatest_def deliver_def)
  have "snd (pass_key demo_marshal demo_answers demo_hub2 ''token'') = Some ''{}''"
    by (simp add: pass_key_def is_due_def demo_frame demo_answers_def)
  with 2 show "hb_conns demo_hub3 = [(0, demo_conn\<lparr>cn_out := Some ''{}'', cn_last := ''{}''\<rparr>)]"
    by (simp add: demo_hub3_def reconcile_def demo_conn_def sendLatest_def)
qed

lemma demo_pass_reads:
  "pass_reads demo_history demo_call demo_hub1 4 4 demo_answers"
  "pass_reads demo_history demo_call demo_hub2 5 5 demo_answers"
proof -
  have conns: "(0, demo_conn) \<in> set (hb_conns demo_hub1)" "cn_key demo_conn = ''token''"
    by (simp_all add: demo_hub1_def add_conn_def demo_conn_def)
  have "build_reads demo_history demo_call {cn_id c |i c. (i, c) \<in> set (hb_conns demo_hub1) \<and> cn_key c = ''token''} [] 4 4
      (pa_build demo_answers ''token'')"
    unfolding build_reads_def
    using conns demo_reads(1)[of 4] demo_reads(2)[of 4 "[]"] demo_reads(2)[of 4 "Deps demo_inventory"]
    by (intro exI[of _ 4] bexI[of _ "cn_id demo_conn"]) (auto simp: demo_answers_def demo_call_def)
  then show "pass_reads demo_history demo_call demo_hub1 4 4 demo_answers"
    unfolding pass_reads_def demo_keys
    by (simp add: demo_hub1_def add_conn_def NewHub_def prev_deps_def)
  show "pass_reads demo_history demo_call demo_hub2 5 5 demo_answers"
    unfolding pass_reads_def demo_keys
    using demo_reads(2)[of 5 "Deps demo_inventory"]
    by (auto simp: demo_frame is_due_def demo_answers_def)
qed

lemma demo_reach: "hub_reach demo_history demo_marshal demo_call id (5, Waiting, demo_hub3)"
proof -
  let ?step = "hub_step demo_history demo_marshal demo_call id"
  let ?reach = "hub_reach demo_history demo_marshal demo_call id"
  have "?reach (0, Waiting, NewHub)" by (rule reach_new) simp
  moreover have "?step (0, Waiting, NewHub) (0, Waiting, add_conn 0 demo_conn NewHub)"
    by (rule step_add[OF demo_quiet(1)]) (simp_all add: demo_conn_def)
  moreover have "?step (0, Waiting, add_conn 0 demo_conn NewHub) (0, Looping, demo_hub1)"
    unfolding demo_hub1_def by (rule step_kick[OF demo_quiet(1)]) (simp add: add_conn_def)
  moreover have "?step (0, Looping, demo_hub1) (4, Waiting, demo_hub2)"
    using step_pass[OF demo_quiet(2) _ demo_reads(1)[of 4] demo_pass_reads(1) order_refl order_refl demo_reads(1)[of 4],
        of demo_marshal id] by (simp add: demo_hub2_def)
  moreover have "?step (4, Waiting, demo_hub2) (5, Looping, demo_hub2)"
    using step_wake[OF demo_quiet(3), of demo_marshal demo_call id demo_hub2]
    by (simp add: bus_received_def demo_history_def demo_events_def)
  moreover have "?step (5, Looping, demo_hub2) (5, Waiting, demo_hub3)"
    using step_pass[OF demo_quiet(4) order_refl demo_reads(1)[of 5] demo_pass_reads(2) order_refl order_refl demo_reads(1)[of 5],
        of demo_marshal id] by (simp add: demo_hub3_def)
  ultimately show ?thesis by (meson reach_step)
qed

section \<open>The bus\<close>

text \<open>A publish moves exactly the levels it names. The version of a set of kinds changes when, and
  only when, the published kind is among them (the list shorter than a counter can wrap); a keyed
  publish changes the level of its own key of its kind and of no other; an unkeyed one changes
  every key of its kind and none of another.\<close>
theorem publish_moves_levels:
  assumes "length ks < 2 ^ 64"
  shows "(Version (Publish k (Some b)) ks \<noteq> Version (Some b) ks \<longleftrightarrow> k \<in> set ks) \<and>
    (Version (PublishKey k key (Some b)) ks \<noteq> Version (Some b) ks \<longleftrightarrow> k \<in> set ks) \<and>
    (KeyVersion (PublishKey k key (Some b)) j x \<noteq> KeyVersion (Some b) j x \<longleftrightarrow> j = k \<and> x = key) \<and>
    (KeyVersion (Publish k (Some b)) j x \<noteq> KeyVersion (Some b) j x \<longleftrightarrow> j = k)"
  using count_list_word[OF assms, of k] by (simp add: Version_Publish KeyVersion_Publish)

theorem publish_moves_levels_witness:
  "KeyVersion (PublishKey GitChanged ''a'' (Some New)) GitChanged ''b'' = KeyVersion (Some New) GitChanged ''b''"
  using publish_moves_levels[of "[GitChanged]" GitChanged New "''a''" GitChanged "''b''"] by simp

text \<open>A subscription hears its kinds, coalesced, until it is cancelled. After \<open>Subscribe\<close> a publish
  leaves a token on the new channel exactly when its kind was subscribed; a second publish before
  a receive leaves the same one token, which one receive takes; after \<open>cancel\<close> no publish leaves
  one; the other subscriptions hear what they heard before.\<close>
theorem subscription_hears:
  assumes wf: "bus_wf b" and sub: "Subscribe kinds (Some b) = (Some b', Some s)"
  shows "pending (the (Publish k (Some b'))) s = (k \<in> set kinds) \<and>
    pending (the (PublishKey k key (Some b'))) s = (k \<in> set kinds) \<and>
    \<not> pending (receive s (the (Publish k (Publish j (Some b'))))) s \<and>
    pending (the (Publish k (cancel (Some s) (Some b')))) s = pending b' s \<and>
    (s' \<noteq> s \<longrightarrow> pending (the (Publish k (Some b'))) s' = pending (the (Publish k (Some b))) s')"
proof -
  have c: "cancel (Some s) (Some b') = Some (the (cancel (Some s) (Some b')))" by (simp add: cancel_def)
  have "pending (the (cancel (Some s) (Some b'))) s = pending b' s" by (simp add: cancel_def pending_def)
  then show ?thesis
    using wants_Subscribe(1)[OF wf sub, of k] wants_Subscribe(2)[OF wf sub]
      wants_Subscribe(3)[OF wf sub, of s' k] wants_cancel[of s b' s k]
    by (subst c) (simp add: pending_Publish)
qed

theorem subscription_hears_witness:
  "pending (the (Publish LiveChanged (fst (Subscribe [LiveChanged] (Some New))))) 0"
proof -
  have "Subscribe [LiveChanged] (Some New) = (fst (Subscribe [LiveChanged] (Some New)), Some 0)"
    by (simp add: Subscribe_def New_def)
  moreover obtain b' where b': "fst (Subscribe [LiveChanged] (Some New)) = Some b'" by (simp add: Subscribe_def)
  ultimately have "Subscribe [LiveChanged] (Some New) = (Some b', Some 0)" by simp
  from subscription_hears[OF bus_wf_New this, of LiveChanged] b' show ?thesis by simp
qed

text \<open>C32: No wake is lost between the level and the edge. In every interleaving of publishes and receives
  over a bus whose channel started empty, a token a subscriber takes was left by the wake of some
  publish, and that publish had bumped the kind's version before: the subscriber, reading its
  level from then on, reads a value different from the one it had read before the bump.\<close>
theorem received_wake_sees_bump:
  assumes run: "interleaved ops b h pc" and empty: "\<not> pending b s"
    and recv: "i < length h" "h ! i = Recv s"
  shows "\<exists>p m j. j < i \<and> m < j \<and> occurs h p (Wake (op_kind (ops p))) j \<and> occurs h p (Bump (op_kind (ops p))) m \<and>
    wants b s (op_kind (ops p)) \<and>
    (\<forall>kinds us vs. op_kind (ops p) \<in> set kinds \<and> length us = length kinds \<and> length vs = length kinds \<and>
       (\<forall>t \<in> set us. t \<le> m) \<and> (\<forall>t \<in> set vs. i < t) \<and> length kinds * length h < 2 ^ 64 \<longrightarrow>
       reading b h (map LVersion kinds) us \<noteq> reading b h (map LVersion kinds) vs)"
proof -
  from received_had_wake[OF run empty recv] obtain p j where
    p: "j < i" "occurs h p (Wake (op_kind (ops p))) j" "wants b s (op_kind (ops p))" by blast
  have "\<exists>m < j. occurs h p (program (ops p) ! 1) m"
    by (rule interleaved_order[OF run, of p 3]) (use p in \<open>simp_all add: program_nth\<close>)
  then obtain m where m: "m < j" "occurs h p (Bump (op_kind (ops p))) m" by (auto simp: program_nth)
  have "reading b h (map LVersion kinds) us \<noteq> reading b h (map LVersion kinds) vs"
    if r: "op_kind (ops p) \<in> set kinds" "length us = length kinds" "length vs = length kinds"
      "\<forall>t \<in> set us. t \<le> m" "\<forall>t \<in> set vs. i < t" "length kinds * length h < 2 ^ 64" for kinds us vs
  proof (rule reading_moved[where i = m and l = "LVersion (op_kind (ops p))"])
    show "\<forall>t \<in> set vs. m < t" using r(5) m(1) p(1) by (meson less_trans)
  qed (use r m in \<open>auto simp: occurs_def\<close>)
  with p m show ?thesis by blast
qed

theorem received_wake_sees_bump_witness:
  "\<exists>p j. j < 4 \<and> occurs demo_events p (Wake LiveChanged) j"
proof -
  obtain pc where run: "interleaved (\<lambda>_. OpPublish LiveChanged) demo_bus demo_events pc" using demo_interleaved by blast
  have "\<not> pending demo_bus 0" "4 < length demo_events" "demo_events ! 4 = Recv 0"
    by (simp_all add: pending_def demo_bus_def demo_events_def)
  from received_wake_sees_bump[OF run this] show ?thesis by auto
qed

section \<open>The live stream\<close>

text \<open>C33: A quiet hub shows the present. In every interleaving of publishers, build workers, connections
  and their writers: when the hub waits with no wake and no kick pending, the frame of every
  connection whose identity's last build did not fail comes from an inventory call, under an
  identity with the connection's key, that started after every change it depends on whose
  publish is complete (a change of an unscoped kind, or of a repository the frame shows); and
  that frame is in the connection's mailbox or the last one written to its socket.\<close>
theorem hub_settled_current:
  assumes ok: "history_ok h" and reach: "hub_reach h marshal call tkey (t, Waiting, hb)"
    and quiet: "\<not> bus_token h t" "\<not> hb_kick hb"
    and conn: "(i, c) \<in> set (hb_conns hb)" "cn_key c \<notin> set (hb_failed hb)"
  shows "\<exists>a b who iv. call who a b (Some iv) \<and> tkey (id_token who) = cn_key c \<and> marshal iv = Some (cn_last c) \<and>
      (history_roomy h (Deps iv) \<longrightarrow>
        (\<forall>p w. bus_concerns h p (Deps iv) \<and> bus_woken h p w \<and> w < t \<longrightarrow> (\<exists>x < a. bus_changed h p x))) \<and>
      (cn_last c = '''' \<or> cn_out c = Some (cn_last c) \<or>
       (cn_out c = None \<and> cn_written c \<noteq> [] \<and> last (cn_written c) = cn_last c))"
proof -
  from hub_reach_inv[OF reach ok] quiet conn(1) have "shows_current h marshal call tkey t hb c"
    by (auto simp: settled_ok_def)
  with conn(2) obtain f a where f: "cn_last c = fr_data f" "frame_at h marshal call tkey (cn_key c) f t a"
    "history_roomy h (fr_deps f) \<longrightarrow> current h f t a"
    by (auto simp: shows_current_def)
  then obtain b who iv where src: "call who a b (Some iv)" "tkey (id_token who) = cn_key c" "marshal iv = Some (fr_data f)"
    "fr_deps f = Deps iv" unfolding frame_at_def by blast
  have "mail_ok c" using hub_reach_mail[OF reach] conn(1) by (auto simp: mails_ok_def)
  with src f show ?thesis
    by (intro exI[of _ a] exI[of _ b] exI[of _ who] exI[of _ iv]) (auto simp: current_def mail_ok_def)
qed

theorem hub_settled_current_witness:
  "\<exists>a b who iv. demo_call who a b (Some iv) \<and> id_token who = ''token''"
proof -
  have c: "\<not> bus_token demo_history 5" "\<not> hb_kick demo_hub3"
    by (simp_all add: bus_token_def bus_at_def demo_history_def demo_events_def run_events_def numeral_eq_Suc
        demo_hub3_def demo_hub2_def demo_hub1_def reconcile_def)
  have "\<exists>c. (0, c) \<in> set (hb_conns demo_hub3) \<and> cn_key c = ''token''"
    by (simp add: demo_hub3_def demo_hub2_def demo_hub1_def reconcile_def add_conn_def demo_conn_def NewHub_def split: option.splits)
  moreover have "hb_failed demo_hub3 = []"
    unfolding demo_hub3_def reconcile_def demo_keys
    by (simp add: pass_key_def is_due_def demo_frame demo_answers_def)
  ultimately obtain c' where "(0, c') \<in> set (hb_conns demo_hub3)" "cn_key c' = ''token''" "cn_key c' \<notin> set (hb_failed demo_hub3)"
    by auto
  from hub_settled_current[OF demo_history_ok demo_reach c this(1,3)] this(2) show ?thesis by auto
qed

text \<open>C34: No connection ever sees another identity's tree. Every frame written to a connection's socket,
  waiting in its mailbox or remembered as its last comes from an inventory call under an identity
  whose token hashes to that connection's key.\<close>
theorem hub_isolates_identities:
  assumes reach: "hub_reach h marshal call tkey (t, ph, hb)" and conn: "(i, c) \<in> set (hb_conns hb)"
    and d: "d \<in> set (cn_written c) \<or> cn_out c = Some d \<or> (d = cn_last c \<and> d \<noteq> '''')"
  shows "\<exists>who a b iv. call who a b (Some iv) \<and> tkey (id_token who) = tkey (id_token (cn_id c)) \<and> marshal iv = Some d"
proof -
  from hub_reach_own[OF reach] conn d have "from_key marshal call tkey (cn_key c) d" "cn_key c = tkey (id_token (cn_id c))"
    by (auto simp: hub_own_def conns_keyed_def conn_data_def)
  then show ?thesis by (simp add: from_key_def)
qed

theorem hub_isolates_identities_witness:
  "\<exists>who a b iv. demo_call who a b (Some iv) \<and> id_token who = ''token'' \<and> demo_marshal iv = Some ''{}''"
proof -
  obtain c where c: "(0, c) \<in> set (hb_conns demo_hub3)" "cn_id c = cn_id demo_conn" "cn_last c = ''{}''"
    by (simp add: demo_conns)
  from hub_isolates_identities[OF demo_reach c(1), of "''{}''"] c show ?thesis
    by (simp add: demo_conn_def)
qed

text \<open>A stretch of the hub's life in which at least \<open>n\<close> turns of the inner loop ended with another turn to do; everything else may come between.\<close>

inductive hub_loops :: "history \<Rightarrow> ('x inventory_scheme \<Rightarrow> string option) \<Rightarrow> 'x caller \<Rightarrow> (string \<Rightarrow> string) \<Rightarrow> nat \<Rightarrow>
    hub_state \<Rightarrow> hub_state \<Rightarrow> bool" for h marshal call tkey where
  loops_none: "hub_loops h marshal call tkey 0 s s"
| loops_again: "hub_loops h marshal call tkey n s (t, Looping, hb) \<Longrightarrow> hub_pass h marshal call t hb t1 t3 t' Looping hb' \<Longrightarrow>
    hub_loops h marshal call tkey (Suc n) s (t', Looping, hb')"
| loops_step: "hub_loops h marshal call tkey n s s' \<Longrightarrow> hub_step h marshal call tkey s' s'' \<Longrightarrow> hub_loops h marshal call tkey n s s''"

lemma hub_step_time: "hub_step h marshal call tkey s s' \<Longrightarrow> fst s \<le> fst s'"
  by (induction rule: hub_step.induct) (auto simp: quiet_def hub_pass_def)

text \<open>A turn that goes round again saw the total move, one that ends did not.\<close>

lemma pass_again:
  assumes "history_ok h" "hub_pass h marshal call t hb t1 t3 t' Looping hb'"
  shows "t \<le> t' \<and> (\<exists>p i. bus_moves_total h p i \<and> t \<le> i \<and> i < t')"
proof -
  from assms(2) obtain t0 t2 target settled where r: "quiet h t t'" "t \<le> t0" "bus_total_read h t0 t1 target" "t1 \<le> t2" "t2 \<le> t3"
    "bus_total_read h t3 t' settled" "settled \<noteq> target" unfolding hub_pass_def by (auto split: if_splits)
  have "t1 \<le> t3" using r by simp
  from bus_levels.total_still[OF assms(1) r(3,6) this] r(2,7) show ?thesis using r(1) unfolding quiet_def by (metis le_trans)
qed

lemma pass_ends:
  assumes "history_ok h" "hub_pass h marshal call t hb t1 t3 t' Waiting hb'"
  obtains t2 pa where "t \<le> t1" "t1 \<le> t2" "t2 \<le> t3" "t3 \<le> t'" "pass_reads h call hb t1 t2 pa" "hb' = reconcile marshal pa hb"
    "\<forall>p i. bus_moves_total h p i \<longrightarrow> \<not> (t1 \<le> i \<and> i < t3)"
proof -
  from assms(2) obtain t0 t2 target pa where r: "t \<le> t0" "bus_total_read h t0 t1 target" "pass_reads h call hb t1 t2 pa" "t1 \<le> t2" "t2 \<le> t3"
    "bus_total_read h t3 t' target" "hb' = reconcile marshal pa hb" unfolding hub_pass_def by (auto split: if_splits)
  have "\<forall>p i. bus_moves_total h p i \<longrightarrow> \<not> (t1 \<le> i \<and> i < t3)"
    using bus_levels.total_moved[OF assms(1) _ r(2) _ _ r(6)] by blast
  moreover have "t \<le> t1" "t3 \<le> t'" using r(1) loads_interval(1)[OF r(2)] loads_interval(1)[OF r(6)] by simp_all
  ultimately show thesis using that r(3,4,5,7) by blast
qed

definition total_moves :: "history \<Rightarrow> nat \<Rightarrow> nat \<Rightarrow> nat set" where
  "total_moves h t t' = {i. t \<le> i \<and> i < t' \<and> (\<exists>p. bus_moves_total h p i)}"

lemma total_moves_card:
  assumes "t0 \<le> t" "t \<le> t'"
  shows "card (total_moves h t0 t) \<le> card (total_moves h t0 t')"
    "\<exists>p i. bus_moves_total h p i \<and> t \<le> i \<and> i < t' \<Longrightarrow> Suc (card (total_moves h t0 t)) \<le> card (total_moves h t0 t')"
proof -
  have f: "finite (total_moves h t0 x)" for x by (rule finite_subset[of _ "{..<x}"]) (auto simp: total_moves_def)
  have sub: "total_moves h t0 t \<subseteq> total_moves h t0 t'" using assms by (auto simp: total_moves_def)
  show "card (total_moves h t0 t) \<le> card (total_moves h t0 t')" by (rule card_mono[OF f sub])
  assume "\<exists>p i. bus_moves_total h p i \<and> t \<le> i \<and> i < t'"
  then obtain p i where "bus_moves_total h p i" "t \<le> i" "i < t'" by blast
  then have "i \<in> total_moves h t0 t'" "i \<notin> total_moves h t0 t" using assms by (auto simp: total_moves_def)
  with sub have "total_moves h t0 t \<subset> total_moves h t0 t'" by blast
  then show "Suc (card (total_moves h t0 t)) \<le> card (total_moves h t0 t')" using psubset_card_mono[OF f] by (simp add: Suc_le_eq)
qed

lemma hub_loops_bound:
  "hub_loops h marshal call tkey n s s' \<Longrightarrow> history_ok h \<Longrightarrow> fst s \<le> fst s' \<and> n \<le> card (total_moves h (fst s) (fst s'))"
proof (induction rule: hub_loops.induct)
  case (loops_again n s t hb t1 t3 t' hb')
  from pass_again[OF loops_again(4,2)] loops_again(3)[OF loops_again(4)] total_moves_card(2)[of "fst s" t t' h] show ?case by fastforce
next
  case (loops_step n s s' s'')
  from hub_step_time[OF loops_step(2)] loops_step(3)[OF loops_step(4)] total_moves_card(1)[of "fst s" "fst s'" "fst s''" h] show ?case by fastforce
qed simp

lemma pass_over:
  assumes q: "quiet h t t'" and calls: "\<forall>who. \<exists>r. call who t t r"
  shows "\<exists>ph hb'. hub_pass h marshal call t hb t t' t' ph hb'"
proof -
  have t: "t \<le> length (hi_events h)" "t \<le> t'" "t' \<le> length (hi_events h)" using q by (auto simp: quiet_def)
  obtain v v' where v: "bus_total_read h t t v" "bus_total_read h t' t' v'"
    using Stream_Hub.loads_now[OF t(1)] Stream_Hub.loads_now[OF t(3)] unfolding bus_total_read_def by blast
  from pass_possible[where call = call and t = t, OF t(1) calls] obtain pa where "pass_reads h call hb t t pa" by blast
  with q v t(2) show ?thesis unfolding hub_pass_def by blast
qed

text \<open>C35: The inner loop settles, and never too early. Over any stretch of the hub's life, whatever publishers, connections and writers do,
  the passes that end with another pass to make are at most as many as the publishes that moved the total in it: each one needs a move
  of its own, so once nothing moves the very next pass ends the loop. The hub goes back to waiting only by a pass between whose two readings of
  the total nothing moved, with exactly what that pass delivered. And it never sticks: where inventory calls return, a pass over any interval in
  which nothing is received is possible from a looping hub.\<close>
theorem hub_loop_settles:
  assumes ok: "history_ok h"
  shows "(hub_loops h marshal call tkey n (t, ph, hb) (t', ph', hb') \<longrightarrow> n \<le> card {i. t \<le> i \<and> i < t' \<and> (\<exists>p. bus_moves_total h p i)}) \<and>
    (hub_step h marshal call tkey (t, Looping, hb) (t', Waiting, hb') \<longrightarrow>
       (\<exists>t1 t2 t3 pa. t \<le> t1 \<and> t1 \<le> t2 \<and> t2 \<le> t3 \<and> t3 \<le> t' \<and> pass_reads h call hb t1 t2 pa \<and> hb' = reconcile marshal pa hb \<and>
          (\<forall>p i. bus_moves_total h p i \<longrightarrow> \<not> (t1 \<le> i \<and> i < t3)))) \<and>
    (quiet h t t' \<and> (\<forall>who. \<exists>r. call who t t r) \<longrightarrow> (\<exists>ph hb'. hub_step h marshal call tkey (t, Looping, hb) (t', ph, hb')))"
proof (intro conjI impI)
  show "n \<le> card {i. t \<le> i \<and> i < t' \<and> (\<exists>p. bus_moves_total h p i)}" if "hub_loops h marshal call tkey n (t, ph, hb) (t', ph', hb')"
    using hub_loops_bound[OF that ok] by (simp add: total_moves_def)
  show "\<exists>t1 t2 t3 pa. t \<le> t1 \<and> t1 \<le> t2 \<and> t2 \<le> t3 \<and> t3 \<le> t' \<and> pass_reads h call hb t1 t2 pa \<and> hb' = reconcile marshal pa hb \<and>
      (\<forall>p i. bus_moves_total h p i \<longrightarrow> \<not> (t1 \<le> i \<and> i < t3))"
    if "hub_step h marshal call tkey (t, Looping, hb) (t', Waiting, hb')"
    using that by cases (blast elim: pass_ends[OF ok])
  show "\<exists>ph hb'. hub_step h marshal call tkey (t, Looping, hb) (t', ph, hb')" if "quiet h t t' \<and> (\<forall>who. \<exists>r. call who t t r)"
    using pass_over[of h t t' call marshal hb] that step_passed by blast
qed

theorem hub_loop_settles_witness:
  "(\<exists>t1 t3 pa. demo_hub3 = reconcile demo_marshal pa demo_hub2 \<and> t1 \<le> t3 \<and> (\<forall>p i. bus_moves_total demo_history p i \<longrightarrow> \<not> (t1 \<le> i \<and> i < t3))) \<and>
   (\<exists>ph hb'. hub_step demo_history demo_marshal demo_call id (5, Looping, demo_hub2) (5, ph, hb'))"
proof -
  have step: "hub_step demo_history demo_marshal demo_call id (5, Looping, demo_hub2) (5, Waiting, demo_hub3)"
    using step_pass[OF demo_quiet(4) order_refl demo_reads(1)[of 5] demo_pass_reads(2) order_refl order_refl demo_reads(1)[of 5],
        of demo_marshal id] by (simp add: demo_hub3_def)
  note s = hub_loop_settles[OF demo_history_ok, of demo_marshal demo_call id 0 5 Looping demo_hub2 5 Waiting demo_hub3]
  have calls: "\<forall>who. \<exists>r. demo_call who 5 5 r" by (simp add: demo_call_def)
  from s[THEN conjunct2, THEN conjunct1, rule_format, OF step] s[THEN conjunct2, THEN conjunct2, rule_format, OF conjI[OF demo_quiet(4) calls]]
  show ?thesis by (meson le_trans)
qed

text \<open>One key for every form of a repository URL: as the web page names it, with the clone suffix, with a
  trailing slash, with both, the normalized URL is the same, so a push announced under one form
  moves the stamp of a frame that shows the repository under another.\<close>
theorem repo_forms_share_key:
  assumes "bare_repo u" and "u' \<in> {u, u @ ''.git'', u @ ''/'', u @ ''.git/''}"
    and "inv_projects iv = [\<lparr>pr_name = n, pr_repo = u'\<rparr>]" and "k \<in> set kinds"
  shows "NormalizeRepoURL u' = to_lower u \<and>
    Stamp (RepoLevels k kinds) (PublishKey k (NormalizeRepoURL u) (Some b)) (Deps iv) \<noteq>
    Stamp (RepoLevels k kinds) (Some b) (Deps iv)"
proof -
  have n: "NormalizeRepoURL u' = to_lower u" "NormalizeRepoURL u = to_lower u"
    using assms(2) normalize_forms[OF assms(1)] by auto
  have "u' \<noteq> ''''" using assms(1,2) by (auto simp: bare_repo_def)
  with assms(3) n have deps: "Deps iv = [to_lower u]" by (simp add: Deps_def)
  have "count_list (filter (\<lambda>j. j \<noteq> k) kinds) k = 0" by (simp add: count_list_0_iff)
  then show ?thesis
    using n by (simp add: deps Stamp_def RepoLevels_def Version_Publish KeyVersion_Publish)
qed

theorem repo_forms_share_key_witness:
  "NormalizeRepoURL ''https://forge/team.git'' = ''https://forge/team''"
proof -
  have b: "bare_repo ''https://forge/team''"
  proof -
    have "\<not> ends_with (to_lower ''https://forge/team'') ''.git''"
    proof
      assume "ends_with (to_lower ''https://forge/team'') ''.git''"
      then obtain r where "to_lower ''https://forge/team'' = r @ ''.git''" by (auto simp: ends_with_def)
      then have "last (to_lower ''https://forge/team'') = last (r @ ''.git'')" by simp
      moreover have "last (to_lower ''https://forge/team'') \<noteq> CHR ''t''" by code_simp
      ultimately show False by simp
    qed
    moreover have "last (to_lower ''https://forge/team'') \<noteq> CHR ''/''" "\<not> is_space (hd ''https://forge/team'')"
      "\<not> is_space (last ''https://forge/team'')" by code_simp+
    ultimately show ?thesis by (simp add: bare_repo_def)
  qed
  have "to_lower ''https://forge/team'' = ''https://forge/team''" by code_simp
  then show ?thesis
    using repo_forms_share_key[OF b, of "''https://forge/team.git''" demo_inventory "''team''" GitChanged "[GitChanged]" New]
    by (simp add: demo_inventory_def)
qed

end
