(* ===== verification/Api_Authorize.thy ===== *)
theory Api_Authorize
  imports Api_Scope
begin

text \<open>
  \<open>internal/api/authorize.go\<close>: the tenant authoring gate. A draft write needs the rights the change
  would need if the caller applied it.
\<close>

definition verbCreate :: string where "verbCreate = ''create''"
definition verbUpdate :: string where "verbUpdate = ''update''"
definition verbDelete :: string where "verbDelete = ''delete''"

definition ssarVM :: ssar_ref where
  "ssarVM = ssarFor KindVM"

definition stagedKinds :: "server \<Rightarrow> string \<Rightarrow> string \<Rightarrow> string \<Rightarrow> managed_kind list" where
  "stagedKinds s resource ns name =
     (case LookupResource resource of
        None \<Rightarrow> []
      | Some r \<Rightarrow>
          (let kinds = filter (\<lambda>k. \<not> mk_cluster k) (rs_kinds r) in
           if length kinds > 1 then
             (case sv_networks s of
                None \<Rightarrow> kinds
              | Some nets \<Rightarrow>
                  (case List.map_filter (\<lambda>n. if nr_namespace n = ns \<and> nr_name n = name
                           then find (\<lambda>k. mk_kind k = nr_backing n) kinds else None) nets of
                     [] \<Rightarrow> kinds
                   | k # _ \<Rightarrow> [k]))
           else kinds))"

definition author_key :: "string \<Rightarrow> ssar_ref \<Rightarrow> string \<Rightarrow> string" where
  "author_key verb ref ns = ''author'' @ [nul] @ verb @ [nul] @ sf_group ref @ ''/'' @ sf_resource ref @ [nul] @ ns"

definition canAuthor :: "(string \<Rightarrow> string) \<Rightarrow> moments \<Rightarrow> identity \<Rightarrow> string \<Rightarrow> ssar_ref \<Rightarrow> string \<Rightarrow> server \<Rightarrow>
    (kube_error + bool) \<times> server" where
  "canAuthor tkey ms i verb ref ns s =
     ssarChecked tkey ms i (author_key verb ref ns) (\<lambda>k. Can k verb (sf_group ref) (sf_resource ref) ns) s"

definition authorize :: "(string \<Rightarrow> string) \<Rightarrow> moments \<Rightarrow> scope \<Rightarrow> string \<Rightarrow> ssar_ref \<Rightarrow> string \<Rightarrow> server \<Rightarrow>
    (api_error + unit) \<times> server" where
  "authorize tkey ms sc verb ref ns s =
     (if sc_platform sc then (Inr (), s)
      else
        (case canAuthor tkey ms (sc_id sc) verb ref ns s of
           (Inl e, s') \<Rightarrow> (Inl unavailable, s')
         | (Inr ok, s') \<Rightarrow>
             if \<not> ok then
               (Inl (ErrForbidden (''you may not '' @ verb @ '' '' @ sf_resource ref @ '' in '' @ ns @
                  ''; staging changes needs that right, read access is not enough'')), s')
             else (Inr (), s')))"

fun authorize_all :: "(string \<Rightarrow> string) \<Rightarrow> moments \<Rightarrow> scope \<Rightarrow> string \<Rightarrow> (ssar_ref \<times> string) list \<Rightarrow> server \<Rightarrow>
    (api_error + unit) \<times> server" where
  "authorize_all tkey ms sc verb [] s = (Inr (), s)"
| "authorize_all tkey ms sc verb ((ref, ns) # rs) s =
     (case authorize tkey ms sc verb ref ns s of
        (Inl e, s') \<Rightarrow> (Inl e, s')
      | (Inr _, s') \<Rightarrow> authorize_all tkey ms sc verb rs s')"

definition authorizeObject :: "(string \<Rightarrow> string) \<Rightarrow> moments \<Rightarrow> scope \<Rightarrow> string \<Rightarrow> string \<Rightarrow> string \<Rightarrow> string \<Rightarrow> server \<Rightarrow>
    (api_error + unit) \<times> server" where
  "authorizeObject tkey ms sc verb resource ns name s =
     (if ns = ClusterScopeNS then (Inr (), s)
      else
        (let kinds = stagedKinds s resource ns name in
         if kinds = [] then (Inl (ErrInvalid (resource @ '' is not namespace-scoped'')), s)
         else authorize_all tkey ms sc verb (map (\<lambda>k. (ssarFor k, ns)) kinds) s))"

text \<open>The loop of \<open>authorizeDraft\<close>: the first namespace that allows ends it.\<close>

fun author_somewhere :: "(string \<Rightarrow> string) \<Rightarrow> moments \<Rightarrow> identity \<Rightarrow> string list \<Rightarrow> server \<Rightarrow> (api_error + bool) \<times> server" where
  "author_somewhere tkey ms i [] s = (Inr False, s)"
| "author_somewhere tkey ms i (ns # nss) s =
     (case canAuthor tkey ms i verbUpdate ssarVM ns s of
        (Inl e, s') \<Rightarrow> (Inl unavailable, s')
      | (Inr ok, s') \<Rightarrow> if ok then (Inr True, s') else author_somewhere tkey ms i nss s')"

definition authorizeDraft :: "(string \<Rightarrow> string) \<Rightarrow> moments \<Rightarrow> scope \<Rightarrow> server \<Rightarrow> (api_error + unit) \<times> server" where
  "authorizeDraft tkey ms sc s =
     (if sc_platform sc then (Inr (), s)
      else
        (case author_somewhere tkey ms (sc_id sc) (pi_namespaces (sc_proj sc)) s of
           (Inl e, s') \<Rightarrow> (Inl e, s')
         | (Inr ok, s') \<Rightarrow>
             if ok then (Inr (), s')
             else (Inl (ErrForbidden (''you may not update virtualmachines in any namespace of '' @
                    pi_name (sc_proj sc) @ ''; proposing changes needs edit rights'')), s')))"

definition authorizeRepo :: "(string \<Rightarrow> string) \<Rightarrow> moments \<Rightarrow> scope \<Rightarrow> server \<Rightarrow> (api_error + unit) \<times> server" where
  "authorizeRepo tkey ms sc s =
     (if sc_platform sc then (Inr (), s)
      else if (case projectByName s (pi_name (sc_proj sc)) of
                 None \<Rightarrow> False
               | Some full \<Rightarrow> length (pi_namespaces full) > length (pi_namespaces (sc_proj sc)))
        then (Inl (ErrForbidden (''reverting needs edit rights in every namespace of '' @ pi_name (sc_proj sc))), s)
      else authorize_all tkey ms sc verbUpdate (map (\<lambda>ns. (ssarVM, ns)) (pi_namespaces (sc_proj sc))) s)"

text \<open>\<open>authorNamespaces\<close>: the reviews run concurrently, but each is one step on the cache, so some
  order of them is the run; \<open>nss\<close> is that order.\<close>

fun author_map :: "(string \<Rightarrow> string) \<Rightarrow> moments \<Rightarrow> identity \<Rightarrow> string list \<Rightarrow> server \<Rightarrow> (string \<times> bool) list \<times> server" where
  "author_map tkey ms i [] s = ([], s)"
| "author_map tkey ms i (ns # nss) s =
     (case canAuthor tkey ms i verbUpdate ssarVM ns s of
        (Inl e, s') \<Rightarrow> author_map tkey ms i nss s'
      | (Inr ok, s') \<Rightarrow> (case author_map tkey ms i nss s' of (m, s'') \<Rightarrow> ((ns, ok) # m, s'')))"

definition authorNamespaces :: "(string \<Rightarrow> string) \<Rightarrow> moments \<Rightarrow> identity \<Rightarrow> string list \<Rightarrow> server \<Rightarrow>
    (string \<times> bool) list \<times> server" where
  "authorNamespaces tkey ms i nss s =
     (case canAuthor tkey ms i verbUpdate ssarVM '''' s of
        (Inr True, s') \<Rightarrow> (map (\<lambda>ns. (ns, True)) nss, s')
      | (_, s') \<Rightarrow> author_map tkey ms i nss s')"

end
