(* ===== verification/Api_Vouched.thy ===== *)
theory Api_Vouched
  imports Api_Authorize
begin

text \<open>
  What an authorization answer rests on. Every cached verdict is traced to the review that gave it:
  the same token, the same question, the same RBAC version, within the window. The composed cache
  keys are shown to tell questions apart.
\<close>

section \<open>Questions\<close>

datatype question = QAuthor string ssar_ref string | QCreate ssar_ref | QReadNodes

fun qkey :: "question \<Rightarrow> string" where
  "qkey (QAuthor verb ref ns) = author_key verb ref ns"
| "qkey (QCreate ref) = sf_group ref @ ''/'' @ sf_resource ref"
| "qkey QReadNodes = ''read'' @ [nul] @ ''nodes''"

fun qanswer :: "question \<Rightarrow> kube \<Rightarrow> kube_error + bool" where
  "qanswer (QAuthor verb ref ns) k = Can k verb (sf_group ref) (sf_resource ref) ns"
| "qanswer (QCreate ref) k = Inr (CanCreateClusterResource k (sf_group ref) (sf_resource ref))"
| "qanswer QReadNodes k = Inr (CanReadNodes k)"

definition ref_ok :: "ssar_ref \<Rightarrow> bool" where
  "ref_ok r = (nul \<notin> set (sf_group r) \<and> nul \<notin> set (sf_resource r) \<and> CHR ''/'' \<notin> set (sf_group r))"

fun question_ok :: "question \<Rightarrow> bool" where
  "question_ok (QAuthor verb ref ns) = (nul \<notin> set verb \<and> ref_ok ref)"
| "question_ok (QCreate ref) = ref_ok ref"
| "question_ok QReadNodes = True"

lemma split_first: "a @ d # b = a' @ d # b' \<Longrightarrow> d \<notin> set a \<Longrightarrow> d \<notin> set a' \<Longrightarrow> a = a' \<and> b = b'"
proof (induction a arbitrary: a')
  case Nil
  then show ?case by (cases a') auto
next
  case (Cons x a)
  then show ?case by (cases a') auto
qed

lemma no_nul_word: "nul \<notin> set ''author''" "nul \<notin> set ''read''" "nul \<notin> set ''/''"
  by (simp_all add: nul_def)

lemma ref_inj: "ref_ok r \<Longrightarrow> ref_ok r' \<Longrightarrow> sf_group r @ ''/'' @ sf_resource r = sf_group r' @ ''/'' @ sf_resource r' \<Longrightarrow> r = r'"
  using split_first[of "sf_group r" "CHR ''/''" "sf_resource r" "sf_group r'" "sf_resource r'"]
  by (simp add: ref_ok_def)

lemma author_key_inj:
  assumes "author_key v r ns = author_key v' r' ns'" "question_ok (QAuthor v r ns)" "question_ok (QAuthor v' r' ns')"
  shows "v = v' \<and> r = r' \<and> ns = ns'"
proof -
  let ?tl = "\<lambda>r ns. (sf_group r @ ''/'' @ sf_resource r) @ nul # ns"
  have v: "v = v' \<and> ?tl r ns = ?tl r' ns'"
    using assms split_first[of v nul "?tl r ns" v' "?tl r' ns'"] by (simp add: author_key_def)
  have "nul \<notin> set (sf_group r @ ''/'' @ sf_resource r)" "nul \<notin> set (sf_group r' @ ''/'' @ sf_resource r')"
    using assms(2,3) no_nul_word by (simp_all add: ref_ok_def)
  from split_first[OF conjunct2[OF v] this] v assms(2,3) ref_inj show ?thesis by simp
qed

lemma create_key_no_nul: "ref_ok r \<Longrightarrow> nul \<notin> set (qkey (QCreate r))"
  using no_nul_word by (simp add: ref_ok_def)

lemma other_key_nul: "nul \<in> set (qkey (QAuthor v r ns))" "nul \<in> set (qkey QReadNodes)"
  by (simp_all add: author_key_def)

lemma author_not_read: "qkey (QAuthor v r ns) \<noteq> qkey QReadNodes"
  by (simp add: author_key_def)

lemma create_not_other:
  assumes "ref_ok r"
  shows "qkey (QCreate r) \<noteq> qkey (QAuthor v r' ns)" "qkey (QCreate r) \<noteq> qkey QReadNodes"
  using create_key_no_nul[OF assms] other_key_nul by metis+

lemma qkey_inj:
  assumes "question_ok q" "question_ok q'" "qkey q = qkey q'"
  shows "q = q'"
proof (cases q)
  case q: (QAuthor v r ns)
  show ?thesis
  proof (cases q')
    case (QAuthor v' r' ns')
    with q assms author_key_inj[of v r ns v' r' ns'] show ?thesis by simp
  next
    case (QCreate r')
    with q assms(2,3) create_not_other(1)[of r' v r ns] show ?thesis by (metis question_ok.simps(2))
  next
    case QReadNodes
    with q assms(3) author_not_read show ?thesis by metis
  qed
next
  case q: (QCreate r)
  then have r: "ref_ok r" using assms(1) by simp
  show ?thesis
  proof (cases q')
    case (QAuthor v' r' ns')
    with q assms(3) create_not_other(1)[OF r] show ?thesis by metis
  next
    case (QCreate r')
    with q assms ref_inj[of r r'] show ?thesis by simp
  next
    case QReadNodes
    with q assms(3) create_not_other(2)[OF r] show ?thesis by metis
  qed
next
  case q: QReadNodes
  show ?thesis
  proof (cases q')
    case (QAuthor v' r' ns')
    with q assms(3) author_not_read show ?thesis by metis
  next
    case (QCreate r')
    with q assms(2,3) create_not_other(2)[of r'] show ?thesis by (metis question_ok.simps(2))
  next
    case QReadNodes
    with q show ?thesis by simp
  qed
qed

text \<open>The token hash: no two tokens share one, and it is a hex string.\<close>

definition hash_ok :: "(string \<Rightarrow> string) \<Rightarrow> bool" where
  "hash_ok tkey = (inj tkey \<and> (\<forall>t. nul \<notin> set (tkey t)))"

lemma cache_key_inj:
  assumes "hash_ok tkey" and "tkey t @ [nul] @ qkey q = tkey t' @ [nul] @ qkey q'" and "question_ok q" "question_ok q'"
  shows "t = t' \<and> q = q'"
proof -
  have "tkey t = tkey t' \<and> qkey q = qkey q'"
    using assms(1,2) split_first[of "tkey t" nul "qkey q" "tkey t'" "qkey q'"] by (simp add: hash_ok_def)
  with assms qkey_inj show ?thesis by (auto simp: hash_ok_def inj_eq)
qed

section \<open>Vouched answers\<close>

text \<open>The answer given at moment \<open>t\<close> was a review's: that moment's own, or an earlier one's under the
  same RBAC version whose verdict was stored less than the window before.\<close>

definition review_at :: "moments \<Rightarrow> nat \<Rightarrow> nat \<Rightarrow> bool" where
  "review_at ms j t = (j = t \<or> (j < t \<and> mo_ver (ms j) = mo_ver (ms t) \<and> mo_now (ms t) - mo_put (ms j) < visibleTTL))"

definition vouched :: "moments \<Rightarrow> string \<Rightarrow> question \<Rightarrow> bool \<Rightarrow> nat \<Rightarrow> bool" where
  "vouched ms token q ok t = (\<exists>j. review_at ms j t \<and> qanswer q (mo_kube (ms j) token) = Inr ok)"

definition verdict_from :: "(string \<Rightarrow> string) \<Rightarrow> moments \<Rightarrow> nat \<Rightarrow> string \<Rightarrow> ssar_verdict \<Rightarrow> int \<Rightarrow> bool" where
  "verdict_from tkey ms n key v at =
     (\<exists>token q j. j < n \<and> question_ok q \<and> key = tkey token @ [nul] @ qkey q \<and>
        qanswer q (mo_kube (ms j) token) = Inr (sr_ok v) \<and> mo_ver (ms j) = sr_ver v \<and> mo_put (ms j) = at)"

definition visible_from :: "(string \<Rightarrow> string) \<Rightarrow> moments \<Rightarrow> nat \<Rightarrow> string \<Rightarrow> visible_set \<Rightarrow> int \<Rightarrow> bool" where
  "visible_from tkey ms n key v at =
     (\<exists>token j cands. j < n \<and> key = tkey token \<and>
        VisibleNamespaces (mo_kube (ms j) token) cands = Inr (vs_ns v) \<and> mo_ver (ms j) = vs_ver v \<and> mo_put (ms j) = at)"

definition server_ok :: "(string \<Rightarrow> string) \<Rightarrow> moments \<Rightarrow> server \<Rightarrow> bool" where
  "server_ok tkey ms s =
     (ttl.justified (verdict_from tkey ms (sv_tick s)) (sv_ssar s) \<and> ca_ttl (sv_ssar s) = visibleTTL \<and>
      ttl.justified (visible_from tkey ms (sv_tick s)) (sv_visible s) \<and> ca_ttl (sv_visible s) = visibleTTL)"

lemma verdict_from_later: "verdict_from tkey ms n key v at \<Longrightarrow> n \<le> m \<Longrightarrow> verdict_from tkey ms m key v at"
  unfolding verdict_from_def by (elim exE conjE, intro exI conjI) (assumption | rule less_le_trans)+

lemma visible_from_later: "visible_from tkey ms n key v at \<Longrightarrow> n \<le> m \<Longrightarrow> visible_from tkey ms m key v at"
  unfolding visible_from_def by (elim exE conjE, intro exI conjI) (assumption | rule less_le_trans)+

lemma server_ok_later:
  assumes "server_ok tkey ms s" and "sv_ssar s' = sv_ssar s" "sv_visible s' = sv_visible s" "sv_tick s \<le> sv_tick s'"
  shows "server_ok tkey ms s'"
proof -
  have "ttl.justified (verdict_from tkey ms (sv_tick s')) (sv_ssar s)"
    using assms(1,4) by (auto simp: server_ok_def intro: ttl.justified_mono[where J = "verdict_from tkey ms (sv_tick s)"] verdict_from_later)
  moreover have "ttl.justified (visible_from tkey ms (sv_tick s')) (sv_visible s)"
    using assms(1,4) by (auto simp: server_ok_def intro: ttl.justified_mono[where J = "visible_from tkey ms (sv_tick s)"] visible_from_later)
  ultimately show ?thesis using assms by (simp add: server_ok_def)
qed

text \<open>What the handlers leave alone.\<close>

definition same_world :: "server \<Rightarrow> server \<Rightarrow> bool" where
  "same_world s s' = (sv_configured s' = sv_configured s \<and> sv_platform_repo s' = sv_platform_repo s \<and>
     sv_resolver s' = sv_resolver s \<and> sv_namespaces s' = sv_namespaces s \<and> sv_networks s' = sv_networks s)"

lemma same_world_refl [simp]: "same_world s s"
  by (simp add: same_world_def)

lemma same_world_trans: "same_world s s' \<Longrightarrow> same_world s' s'' \<Longrightarrow> same_world s s''"
  by (simp add: same_world_def)

lemma next_moment_simps [simp]:
  "fst (next_moment ms s) = ms (sv_tick s)" "sv_tick (snd (next_moment ms s)) = Suc (sv_tick s)"
  "sv_ssar (snd (next_moment ms s)) = sv_ssar s" "sv_visible (snd (next_moment ms s)) = sv_visible s"
  "same_world s (snd (next_moment ms s))" "sv_namespaces (snd (next_moment ms s)) = sv_namespaces s"
  by (simp_all add: next_moment_def same_world_def)

lemma server_ok_next: "server_ok tkey ms s \<Longrightarrow> server_ok tkey ms (snd (next_moment ms s))"
  by (rule server_ok_later[where s = s]) simp_all

lemma ssarChecked_sound:
  assumes hash: "hash_ok tkey" and ok: "server_ok tkey ms s" and q: "question_ok q"
    and run: "ssarChecked tkey ms i (qkey q) (qanswer q) s = (r, s')"
  shows "server_ok tkey ms s' \<and> same_world s s' \<and> sv_tick s' = Suc (sv_tick s) \<and>
    (\<forall>b. r = Inr b \<longrightarrow> vouched ms (id_token i) q b (sv_tick s)) \<and>
    (\<forall>e. r = Inl e \<longrightarrow> sv_ssar s' = sv_ssar s)"
proof -
  let ?m = "ms (sv_tick s)" and ?s = "snd (next_moment ms s)" and ?k = "tkey (id_token i) @ [nul] @ qkey q"
  have base: "server_ok tkey ms ?s" by (rule server_ok_next[OF ok])
  have miss: "server_ok tkey ms s' \<and> same_world s s' \<and> sv_tick s' = Suc (sv_tick s) \<and>
      (\<forall>b. r = Inr b \<longrightarrow> vouched ms (id_token i) q b (sv_tick s)) \<and> (\<forall>e. r = Inl e \<longrightarrow> sv_ssar s' = sv_ssar s)"
    if m: "(r, s') = (case qanswer q (mo_kube ?m (id_token i)) of Inl e \<Rightarrow> (Inl e, ?s)
       | Inr ok \<Rightarrow> (Inr ok, ?s\<lparr>sv_ssar := cache_put (mo_put ?m) (sv_ssar ?s) ?k \<lparr>sr_ok = ok, sr_ver = mo_ver ?m\<rparr>\<rparr>))"
  proof (cases "qanswer q (mo_kube ?m (id_token i))")
    case (Inl e)
    with m base show ?thesis by simp
  next
    case (Inr b)
    have "verdict_from tkey ms (Suc (sv_tick s)) ?k \<lparr>sr_ok = b, sr_ver = mo_ver ?m\<rparr> (mo_put ?m)"
      unfolding verdict_from_def using Inr q by (intro exI[of _ "id_token i"] exI[of _ q] exI[of _ "sv_tick s"]) simp
    with base have "ttl.justified (verdict_from tkey ms (Suc (sv_tick s)))
        (cache_put (mo_put ?m) (sv_ssar s) ?k \<lparr>sr_ok = b, sr_ver = mo_ver ?m\<rparr>)"
      by (auto simp: server_ok_def intro: ttl.justified_put)
    moreover have "vouched ms (id_token i) q b (sv_tick s)"
      unfolding vouched_def review_at_def using Inr by blast
    ultimately show ?thesis
      using m Inr base by (auto simp: server_ok_def same_world_def next_moment_def)
  qed
  have run': "(r, s') = (case cache_get (mo_now ?m) (sv_ssar ?s) ?k of
       Some e \<Rightarrow> if sr_ver e = mo_ver ?m then (Inr (sr_ok e), ?s)
         else (case qanswer q (mo_kube ?m (id_token i)) of Inl e \<Rightarrow> (Inl e, ?s)
           | Inr ok \<Rightarrow> (Inr ok, ?s\<lparr>sv_ssar := cache_put (mo_put ?m) (sv_ssar ?s) ?k \<lparr>sr_ok = ok, sr_ver = mo_ver ?m\<rparr>\<rparr>))
     | None \<Rightarrow> (case qanswer q (mo_kube ?m (id_token i)) of Inl e \<Rightarrow> (Inl e, ?s)
           | Inr ok \<Rightarrow> (Inr ok, ?s\<lparr>sv_ssar := cache_put (mo_put ?m) (sv_ssar ?s) ?k \<lparr>sr_ok = ok, sr_ver = mo_ver ?m\<rparr>\<rparr>)))"
    using run by (auto simp: ssarChecked_def next_moment_def Let_def split: option.splits sum.splits)
  show ?thesis
  proof (cases "cache_get (mo_now ?m) (sv_ssar s) ?k")
    case None
    with run' show ?thesis by (intro miss) simp
  next
    case (Some e)
    show ?thesis
    proof (cases "sr_ver e = mo_ver ?m")
      case False
      with Some run' show ?thesis by (intro miss) simp
    next
      case True
      have res: "r = Inr (sr_ok e)" "s' = ?s" using run' Some True by simp_all
      from ok Some obtain at where e: "verdict_from tkey ms (sv_tick s) ?k e at" "mo_now ?m - at < visibleTTL"
        unfolding server_ok_def by (metis ttl.justified_get)
      then obtain token q' j where j: "j < sv_tick s" "question_ok q'" "?k = tkey token @ [nul] @ qkey q'"
        "qanswer q' (mo_kube (ms j) token) = Inr (sr_ok e)" "mo_ver (ms j) = sr_ver e" "mo_put (ms j) = at"
        unfolding verdict_from_def by blast
      from cache_key_inj[OF hash j(3) q j(2)] have same: "token = id_token i" "q' = q" by simp_all
      have "vouched ms (id_token i) q (sr_ok e) (sv_tick s)"
        unfolding vouched_def review_at_def using j same True e(2) by (intro exI[of _ j]) simp
      with res base show ?thesis by simp
    qed
  qed
qed

lemma visibleFor_sound:
  assumes hash: "hash_ok tkey" and ok: "server_ok tkey ms s" and run: "visibleFor tkey ms i s = (r, s')"
  shows "server_ok tkey ms s' \<and> same_world s s' \<and> sv_tick s' = Suc (sv_tick s) \<and>
    (\<forall>names. r = Inr names \<longrightarrow> (\<exists>j cands. review_at ms j (sv_tick s) \<and>
       VisibleNamespaces (mo_kube (ms j) (id_token i)) cands = Inr names))"
proof -
  let ?m = "ms (sv_tick s)" and ?s = "snd (next_moment ms s)" and ?k = "tkey (id_token i)"
  let ?c = "namespaceNames (sv_namespaces s)"
  let ?miss = "case VisibleNamespaces (mo_kube ?m (id_token i)) ?c of Inl e \<Rightarrow> (Inl (FromKube e), ?s)
     | Inr names \<Rightarrow> (Inr names, ?s\<lparr>sv_visible := cache_put (mo_put ?m) (sv_visible ?s) ?k \<lparr>vs_ns = names, vs_ver = mo_ver ?m\<rparr>\<rparr>)"
  have base: "server_ok tkey ms ?s" by (rule server_ok_next[OF ok])
  have miss: "server_ok tkey ms s' \<and> same_world s s' \<and> sv_tick s' = Suc (sv_tick s) \<and>
    (\<forall>names. r = Inr names \<longrightarrow> (\<exists>j cands. review_at ms j (sv_tick s) \<and>
       VisibleNamespaces (mo_kube (ms j) (id_token i)) cands = Inr names))"
    if m: "(r, s') = ?miss"
  proof (cases "VisibleNamespaces (mo_kube ?m (id_token i)) ?c")
    case (Inl e)
    with m base show ?thesis by simp
  next
    case (Inr names)
    have "visible_from tkey ms (Suc (sv_tick s)) ?k \<lparr>vs_ns = names, vs_ver = mo_ver ?m\<rparr> (mo_put ?m)"
      unfolding visible_from_def using Inr by (intro exI[of _ "id_token i"] exI[of _ "sv_tick s"] exI[of _ ?c]) simp
    with base have "ttl.justified (visible_from tkey ms (Suc (sv_tick s)))
        (cache_put (mo_put ?m) (sv_visible s) ?k \<lparr>vs_ns = names, vs_ver = mo_ver ?m\<rparr>)"
      by (auto simp: server_ok_def intro: ttl.justified_put)
    moreover have "\<exists>j cands. review_at ms j (sv_tick s) \<and> VisibleNamespaces (mo_kube (ms j) (id_token i)) cands = Inr names"
      using Inr by (auto simp: review_at_def)
    ultimately show ?thesis using m Inr base by (auto simp: server_ok_def same_world_def next_moment_def)
  qed
  have run': "(r, s') = (case cache_get (mo_now ?m) (sv_visible ?s) ?k of
       Some e \<Rightarrow> if vs_ver e = mo_ver ?m then (Inr (vs_ns e), ?s) else ?miss | None \<Rightarrow> ?miss)"
    using run by (auto simp: visibleFor_def next_moment_def Let_def split: option.splits sum.splits)
  show ?thesis
  proof (cases "cache_get (mo_now ?m) (sv_visible s) ?k")
    case None
    with run' show ?thesis by (intro miss) simp
  next
    case (Some e)
    show ?thesis
    proof (cases "vs_ver e = mo_ver ?m")
      case False
      with Some run' show ?thesis by (intro miss) simp
    next
      case True
      have res: "r = Inr (vs_ns e)" "s' = ?s" using run' Some True by simp_all
      from ok Some obtain at where e: "visible_from tkey ms (sv_tick s) ?k e at" "mo_now ?m - at < visibleTTL"
        unfolding server_ok_def by (metis ttl.justified_get)
      then obtain token j cands where j: "j < sv_tick s" "?k = tkey token"
        "VisibleNamespaces (mo_kube (ms j) token) cands = Inr (vs_ns e)" "mo_ver (ms j) = vs_ver e" "mo_put (ms j) = at"
        unfolding visible_from_def by blast
      from hash j(2) have "token = id_token i" by (simp add: hash_ok_def inj_eq)
      with j True e(2) have "review_at ms j (sv_tick s) \<and> VisibleNamespaces (mo_kube (ms j) (id_token i)) cands = Inr (vs_ns e)"
        by (simp add: review_at_def)
      with res base show ?thesis by auto
    qed
  qed
qed

end
