(* ===== verification/Api_Gates.thy ===== *)
theory Api_Gates
  imports Api_Vouched
begin

text \<open>
  The gates of the request handlers on sound caches: what a request that passed a gate was vouched
  for, and that the gates keep the caches sound. The server's reachable states are the ones the
  handlers' reads and the watch loops' writes lead to.
\<close>

section \<open>Reachable servers\<close>

inductive server_reach :: "(string \<Rightarrow> string) \<Rightarrow> moments \<Rightarrow> server \<Rightarrow> bool" for tkey :: "string \<Rightarrow> string" and ms :: moments where
  start: "sv_visible s = cache_new visibleTTL \<Longrightarrow> sv_ssar s = cache_new visibleTTL \<Longrightarrow> server_reach tkey ms s"
| ask: "server_reach tkey ms s \<Longrightarrow> question_ok q \<Longrightarrow> server_reach tkey ms (snd (ssarChecked tkey ms i (qkey q) (qanswer q) s))"
| see: "server_reach tkey ms s \<Longrightarrow> server_reach tkey ms (snd (visibleFor tkey ms i s))"
| pass: "server_reach tkey ms s \<Longrightarrow> sv_visible s' = sv_visible s \<Longrightarrow> sv_ssar s' = sv_ssar s \<Longrightarrow> sv_tick s \<le> sv_tick s' \<Longrightarrow>
    server_reach tkey ms s'"

lemma server_reach_ok:
  assumes "hash_ok tkey" and "server_reach tkey ms s"
  shows "server_ok tkey ms s"
  using assms(2)
proof (induction rule: server_reach.induct)
  case (start s)
  then show ?case by (simp add: server_ok_def ttl.justified_def)
next
  case (ask s q i)
  then show ?case using ssarChecked_sound[OF assms(1)] by (metis prod.collapse)
next
  case (see s i)
  then show ?case using visibleFor_sound[OF assms(1)] by (metis prod.collapse)
next
  case (pass s s')
  then show ?case by (auto intro: server_ok_later)
qed

section \<open>One gate\<close>

text \<open>A step of a request: the caches stay sound, the world stands still, time moves on.\<close>

definition sound_step :: "(string \<Rightarrow> string) \<Rightarrow> moments \<Rightarrow> server \<Rightarrow> server \<Rightarrow> bool" where
  "sound_step tkey ms s s' = (server_ok tkey ms s' \<and> same_world s s' \<and> sv_tick s \<le> sv_tick s')"

text \<open>Vouched at some moment of the request.\<close>

definition vouched_in :: "moments \<Rightarrow> server \<Rightarrow> server \<Rightarrow> string \<Rightarrow> question \<Rightarrow> bool \<Rightarrow> bool" where
  "vouched_in ms s s' token q ok = (\<exists>t. sv_tick s \<le> t \<and> t < sv_tick s' \<and> vouched ms token q ok t)"

lemma sound_step_refl: "server_ok tkey ms s \<Longrightarrow> sound_step tkey ms s s"
  by (simp add: sound_step_def)

lemma sound_step_ok: "sound_step tkey ms s s' \<Longrightarrow> server_ok tkey ms s'"
  by (simp add: sound_step_def)

lemma sound_step_trans: "sound_step tkey ms s s' \<Longrightarrow> sound_step tkey ms s' s'' \<Longrightarrow> sound_step tkey ms s s''"
  by (auto simp: sound_step_def intro: same_world_trans)

lemma vouched_in_grow:
  "vouched_in ms s1 s2 token q ok \<Longrightarrow> sv_tick s \<le> sv_tick s1 \<Longrightarrow> sv_tick s2 \<le> sv_tick s' \<Longrightarrow> vouched_in ms s s' token q ok"
  unfolding vouched_in_def by (meson le_trans less_le_trans)

lemma sound_step_le: "sound_step tkey ms s s' \<Longrightarrow> sv_tick s \<le> sv_tick s'"
  by (simp add: sound_step_def)

lemma ask_sound:
  assumes "hash_ok tkey" "server_ok tkey ms s" "question_ok q"
    and "ssarChecked tkey ms i (qkey q) (qanswer q) s = (r, s')"
  shows "sound_step tkey ms s s'" "r = Inr b \<Longrightarrow> vouched_in ms s s' (id_token i) q b"
  using ssarChecked_sound[OF assms] by (auto simp: sound_step_def vouched_in_def)

lemma canAuthor_sound:
  assumes "hash_ok tkey" "server_ok tkey ms s" "nul \<notin> set verb" "ref_ok ref" "canAuthor tkey ms i verb ref ns s = (r, s')"
  shows "sound_step tkey ms s s'" "r = Inr b \<Longrightarrow> vouched_in ms s s' (id_token i) (QAuthor verb ref ns) b"
proof -
  have "ssarChecked tkey ms i (qkey (QAuthor verb ref ns)) (qanswer (QAuthor verb ref ns)) s = (r, s')"
    using assms(5) by (simp add: canAuthor_def) (metis (no_types) qanswer.simps(1) ext)
  from ask_sound[OF assms(1,2) _ this] assms(3,4)
  show "sound_step tkey ms s s'" "r = Inr b \<Longrightarrow> vouched_in ms s s' (id_token i) (QAuthor verb ref ns) b" by simp_all
qed

lemma canCreateCached_sound:
  assumes "hash_ok tkey" "server_ok tkey ms s" "ref_ok ref" "canCreateCached tkey ms i ref s = (b, s')"
  shows "sound_step tkey ms s s'" "b \<Longrightarrow> vouched_in ms s s' (id_token i) (QCreate ref) True"
proof -
  have q: "qanswer (QCreate ref) = (\<lambda>k. Inr (CanCreateClusterResource k (sf_group ref) (sf_resource ref)))"
    by (rule ext) simp
  obtain r where r: "ssarChecked tkey ms i (qkey (QCreate ref)) (qanswer (QCreate ref)) s = (r, s')" "b \<Longrightarrow> r = Inr True"
    using assms(4) unfolding q by (auto simp: canCreateCached_def ssarCached_def split: prod.splits sum.splits)
  from ask_sound[OF assms(1,2) _ r(1)] assms(3) r(2)
  show "sound_step tkey ms s s'" "b \<Longrightarrow> vouched_in ms s s' (id_token i) (QCreate ref) True" by auto
qed

lemma userCluster_sound:
  assumes "server_ok tkey ms s" "userCluster ms who s = (r, s')"
  shows "sound_step tkey ms s s'" "r = Inr i \<Longrightarrow> who = Some i"
proof -
  have s': "s' = s \<or> s' = snd (next_moment ms s)"
    using assms(2) by (auto simp: userCluster_def Let_def split: option.splits if_splits prod.splits)
  then show "sound_step tkey ms s s'"
    using assms(1) server_ok_next[of tkey ms s] by (auto simp: sound_step_def)
  show "r = Inr i \<Longrightarrow> who = Some i"
    using assms(2) by (auto simp: userCluster_def Let_def split: option.splits if_splits prod.splits)
qed

section \<open>The words of the kinds table\<close>

lemma ssarFor_ok: "k \<in> set table_kinds \<Longrightarrow> ref_ok (ssarFor k)"
  using table_words unfolding list_all_iff ref_ok_def ssarFor_def nul_def by simp blast

lemma platform_refs_ok: "r \<in> set platformAuthorResources \<Longrightarrow> ref_ok r"
  by (auto simp: platformAuthorResources_def ssarCUDN_def ssarDescheduler_def ssarVMTemplate_def intro!: ssarFor_ok)
     (simp_all add: table_kinds_def resources_def res_def)

lemma ssarVM_ok: "ref_ok ssarVM"
  unfolding ssarVM_def by (rule ssarFor_ok) (simp add: table_kinds_def resources_def res_def)

lemma verbs_ok: "nul \<notin> set verbCreate" "nul \<notin> set verbUpdate" "nul \<notin> set verbDelete"
  by (simp_all add: verbCreate_def verbUpdate_def verbDelete_def nul_def)

lemma stagedKinds_table: "k \<in> set (stagedKinds s resource ns name) \<Longrightarrow> k \<in> set table_kinds \<and> \<not> mk_cluster k"
proof -
  assume k: "k \<in> set (stagedKinds s resource ns name)"
  then obtain r where r: "LookupResource resource = Some r" by (cases "LookupResource resource") (simp_all add: stagedKinds_def)
  then have mem: "r \<in> set resources" by (auto simp: LookupResource_def Let_def find_Some_iff)
  let ?ks = "filter (\<lambda>k. \<not> mk_cluster k) (rs_kinds r)"
  let ?pick = "\<lambda>n :: network_row. if nr_namespace n = ns \<and> nr_name n = name then find (\<lambda>k. mk_kind k = nr_backing n) ?ks else None"
  have picked: "k \<in> set (List.map_filter ?pick nets) \<Longrightarrow> k \<in> set ?ks" for nets
  proof (induction nets)
    case (Cons n nets)
    have "?pick n = Some k' \<Longrightarrow> k' \<in> set ?ks" for k'
      by (metis find_Some_iff nth_mem option.distinct(1))
    with Cons show ?case by (cases "?pick n") (auto simp: List.map_filter_simps simp del: set_filter)
  qed (simp add: List.map_filter_simps)
  have "stagedKinds s resource ns name = ?ks \<or>
      (\<exists>nets k' rest. List.map_filter ?pick nets = k' # rest \<and> stagedKinds s resource ns name = [k'])"
    using r by (simp add: stagedKinds_def Let_def split: option.split list.split)
      (intro allI impI disjI2, elim exE, intro exI, assumption)
  then have "k \<in> set ?ks"
  proof (elim disjE exE conjE)
    fix nets k' rest
    assume m: "List.map_filter ?pick nets = k' # rest" "stagedKinds s resource ns name = [k']"
    then have "k = k'" using k by simp
    with m(1) picked[of nets] show ?thesis by simp
  qed (use k in simp)
  with mem show ?thesis by (auto simp: table_kinds_def)
qed

section \<open>The authoring gate\<close>

lemma authorize_sound:
  assumes "hash_ok tkey" "server_ok tkey ms s" "nul \<notin> set verb" "ref_ok ref" "authorize tkey ms sc verb ref ns s = (r, s')"
  shows "sound_step tkey ms s s'"
    and "r = Inr () \<Longrightarrow> \<not> sc_platform sc \<Longrightarrow> vouched_in ms s s' (id_token (sc_id sc)) (QAuthor verb ref ns) True"
proof -
  consider (platform) "sc_platform sc" "s' = s"
    | (asked) v where "\<not> sc_platform sc" "canAuthor tkey ms (sc_id sc) verb ref ns s = (v, s')" "r = Inr () \<Longrightarrow> v = Inr True"
    using assms(5) by (auto simp: authorize_def split: if_splits prod.splits sum.splits)
  then have "sound_step tkey ms s s' \<and>
      (r = Inr () \<longrightarrow> \<not> sc_platform sc \<longrightarrow> vouched_in ms s s' (id_token (sc_id sc)) (QAuthor verb ref ns) True)"
  proof cases
    case platform
    with assms(2) show ?thesis by (simp add: sound_step_refl)
  next
    case (asked v)
    from canAuthor_sound[OF assms(1-4) asked(2)] asked(3) show ?thesis by auto
  qed
  then show "sound_step tkey ms s s'"
    and "r = Inr () \<Longrightarrow> \<not> sc_platform sc \<Longrightarrow> vouched_in ms s s' (id_token (sc_id sc)) (QAuthor verb ref ns) True" by auto
qed

lemma authorize_all_sound:
  assumes "hash_ok tkey" "server_ok tkey ms s" "nul \<notin> set verb" "\<forall>(ref, ns) \<in> set rs. ref_ok ref"
    and "authorize_all tkey ms sc verb rs s = (r, s')"
  shows "sound_step tkey ms s s' \<and> (r = Inr () \<longrightarrow> \<not> sc_platform sc \<longrightarrow>
     (\<forall>(ref, ns) \<in> set rs. vouched_in ms s s' (id_token (sc_id sc)) (QAuthor verb ref ns) True))"
  using assms(2,4,5)
proof (induction rs arbitrary: s)
  case Nil
  then show ?case by (simp add: sound_step_refl)
next
  case (Cons p rs)
  obtain ref ns where p: "p = (ref, ns)" by (cases p)
  obtain v s1 where v: "authorize tkey ms sc verb ref ns s = (v, s1)" by (cases "authorize tkey ms sc verb ref ns s")
  have ref: "ref_ok ref" using Cons.prems(2) p by simp
  have step: "sound_step tkey ms s s1"
    and head: "v = Inr () \<Longrightarrow> \<not> sc_platform sc \<Longrightarrow> vouched_in ms s s1 (id_token (sc_id sc)) (QAuthor verb ref ns) True"
    using authorize_sound[OF assms(1) Cons.prems(1) assms(3) ref v] by simp_all
  show ?case
  proof (cases v)
    case (Inl e)
    with Cons.prems(3) p v step show ?thesis by auto
  next
    case (Inr u)
    then have run: "authorize_all tkey ms sc verb rs s1 = (r, s')" and u: "v = Inr ()" using Cons.prems(3) p v by simp_all
    have rest: "sound_step tkey ms s1 s' \<and> (r = Inr () \<longrightarrow> \<not> sc_platform sc \<longrightarrow>
        (\<forall>(ref, ns) \<in> set rs. vouched_in ms s1 s' (id_token (sc_id sc)) (QAuthor verb ref ns) True))"
      using Cons.IH[OF sound_step_ok[OF step] _ run] Cons.prems(2) by simp
    have grow: "vouched_in ms s s1 t q ok \<Longrightarrow> vouched_in ms s s' t q ok" "vouched_in ms s1 s' t q ok \<Longrightarrow> vouched_in ms s s' t q ok" for t q ok
      using sound_step_le[OF step] sound_step_le[OF conjunct1[OF rest]] by (auto intro: vouched_in_grow)
    show ?thesis using rest head[OF u] p grow sound_step_trans[OF step conjunct1[OF rest]] by auto
  qed
qed

lemma can_create_any_sound:
  assumes "hash_ok tkey" "server_ok tkey ms s" "\<forall>ref \<in> set rs. ref_ok ref" "can_create_any tkey ms i rs s = (b, s')"
  shows "sound_step tkey ms s s' \<and> (b \<longrightarrow> (\<exists>ref \<in> set rs. vouched_in ms s s' (id_token i) (QCreate ref) True))"
  using assms(2-4)
proof (induction rs arbitrary: s)
  case Nil
  then show ?case by (auto simp: sound_step_refl)
next
  case (Cons ref rs)
  obtain ok s1 where v: "canCreateCached tkey ms i ref s = (ok, s1)" by (cases "canCreateCached tkey ms i ref s")
  have step: "sound_step tkey ms s s1" "ok \<Longrightarrow> vouched_in ms s s1 (id_token i) (QCreate ref) True"
    using canCreateCached_sound[OF assms(1) Cons.prems(1) _ v] Cons.prems(2) by simp_all
  show ?case
  proof (cases ok)
    case True
    with Cons.prems(3) v step show ?thesis by simp
  next
    case False
    then have "can_create_any tkey ms i rs s1 = (b, s')" using Cons.prems(3) v by simp
    with Cons.IH[OF sound_step_ok[OF step(1)]] Cons.prems(2) have rest: "sound_step tkey ms s1 s'"
      "b \<Longrightarrow> \<exists>ref \<in> set rs. vouched_in ms s1 s' (id_token i) (QCreate ref) True" by simp_all
    then show ?thesis
      using sound_step_trans[OF step(1) rest(1)] sound_step_le[OF step(1)] by (auto intro: vouched_in_grow[where s' = s'])
  qed
qed

section \<open>Resolved projects\<close>

text \<open>The project of a scope is one the caller sees: it was resolved under the filter some read gave.\<close>

definition seen_project :: "moments \<Rightarrow> server \<Rightarrow> server \<Rightarrow> identity \<Rightarrow> project_info \<Rightarrow> bool" where
  "seen_project ms s s' i p =
     (\<exists>t j cands names. sv_tick s \<le> t \<and> t < sv_tick s' \<and> review_at ms j t \<and>
        VisibleNamespaces (mo_kube (ms j) (id_token i)) cands = Inr names \<and>
        p \<in> set (Resolve (sv_resolver s) (sv_namespaces s) (Some (\<lambda>n. n \<in> set names))))"

lemma callerProjects_sound:
  assumes "hash_ok tkey" "server_ok tkey ms s" "callerProjects tkey ms who s = (r, s')"
  shows "sound_step tkey ms s s'"
    and "r = Inr (sc, ps) \<Longrightarrow> who = Some (sc_id sc) \<and> \<not> sc_platform sc \<and> (\<forall>p \<in> set ps. seen_project ms s s' (sc_id sc) p)"
proof -
  obtain u s1 where u: "userCluster ms who s = (u, s1)" by (cases "userCluster ms who s")
  have step: "sound_step tkey ms s s1" "u = Inr i \<Longrightarrow> who = Some i" for i
    using userCluster_sound[OF assms(2) u] by simp_all
  have "sound_step tkey ms s s' \<and>
    (r = Inr (sc, ps) \<longrightarrow> who = Some (sc_id sc) \<and> \<not> sc_platform sc \<and> (\<forall>p \<in> set ps. seen_project ms s s' (sc_id sc) p))"
  proof (cases u)
    case (Inl e)
    with assms(3) u step show ?thesis by (auto simp: callerProjects_def)
  next
    case (Inr i)
    obtain v s2 where v: "visibleFor tkey ms i s1 = (v, s2)" by (cases "visibleFor tkey ms i s1")
    from visibleFor_sound[OF assms(1) sound_step_ok[OF step(1)] v]
    have vs: "sound_step tkey ms s1 s2" "sv_tick s2 = Suc (sv_tick s1)"
      "v = Inr names \<Longrightarrow> \<exists>j cands. review_at ms j (sv_tick s1) \<and> VisibleNamespaces (mo_kube (ms j) (id_token i)) cands = Inr names" for names
      by (auto simp: sound_step_def)
    have s': "s' = s2" using assms(3) u v Inr by (auto simp: callerProjects_def projectsFor_def split: sum.splits)
    have both: "sound_step tkey ms s s2" by (rule sound_step_trans[OF step(1) vs(1)])
    show ?thesis
    proof (cases v)
      case Iv: (Inl e)
      with assms(3) u v Inr both show ?thesis by (auto simp: callerProjects_def projectsFor_def)
    next
      case Iv: (Inr names)
      have w: "sv_resolver s2 = sv_resolver s" "sv_namespaces s2 = sv_namespaces s" using both by (simp_all add: sound_step_def same_world_def)
      from vs(3)[OF Iv] obtain j cands where
        "review_at ms j (sv_tick s1)" "VisibleNamespaces (mo_kube (ms j) (id_token i)) cands = Inr names" by blast
      then have "\<forall>p \<in> set (Resolve (sv_resolver s2) (sv_namespaces s2) (Some (\<lambda>n. n \<in> set names))). seen_project ms s s' i p"
        unfolding seen_project_def w s' using sound_step_le[OF step(1)] vs(2)
        by (intro ballI exI[of _ "sv_tick s1"] exI[of _ j] exI[of _ cands] exI[of _ names]) simp
      with assms(3) u v Inr Iv both step(2)[of i] show ?thesis by (auto simp: callerProjects_def projectsFor_def)
    qed
  qed
  then show "sound_step tkey ms s s'"
    and "r = Inr (sc, ps) \<Longrightarrow> who = Some (sc_id sc) \<and> \<not> sc_platform sc \<and> (\<forall>p \<in> set ps. seen_project ms s s' (sc_id sc) p)"
    by auto
qed

text \<open>The namespaces of a seen project, each under a review that lets the caller read its VMs.\<close>

definition readable_in :: "moments \<Rightarrow> server \<Rightarrow> server \<Rightarrow> string \<Rightarrow> string \<Rightarrow> bool" where
  "readable_in ms s s' token ns =
     (\<exists>t j. sv_tick s \<le> t \<and> t < sv_tick s' \<and> review_at ms j t \<and> may_read_vms (mo_kube (ms j) token) ns)"

lemma seen_project_readable:
  assumes "seen_project ms s s' i p"
  shows "ns \<in> set (pi_namespaces p) \<Longrightarrow> readable_in ms s s' (id_token i) ns"
    and "pi_name p \<noteq> PlatformName" "pi_name p \<noteq> ''''" "pi_namespaces p \<noteq> []"
proof -
  obtain t j cands names where j: "sv_tick s \<le> t" "t < sv_tick s'" "review_at ms j t"
      "VisibleNamespaces (mo_kube (ms j) (id_token i)) cands = Inr names"
      "p \<in> set (Resolve (sv_resolver s) (sv_namespaces s) (Some (\<lambda>n. n \<in> set names)))"
    using assms by (auto simp: seen_project_def)
  let ?m = "members (sv_resolver s) (Some (\<lambda>n. n \<in> set names)) (sv_namespaces s) (pi_name p)"
  have ns: "pi_namespaces p = sort (map no_name ?m)" and m: "?m \<noteq> []" using Resolve_namespaces[OF j(5)] by simp_all
  then obtain n where n: "n \<in> set ?m" by (meson last_in_set)
  then have "project_of (sv_resolver s) (Some (\<lambda>n. n \<in> set names)) n = Some (pi_name p)" by (simp add: members_mem)
  from project_of_visible(2)[OF this] show "pi_name p \<noteq> PlatformName" "pi_name p \<noteq> ''''" by blast+
  show "pi_namespaces p \<noteq> []" using ns m by (metis set_empty2 set_sort map_is_Nil_conv)
  assume "ns \<in> set (pi_namespaces p)"
  with ns obtain nsp where "nsp \<in> set ?m" "ns = no_name nsp" by auto
  then have "ns \<in> set names" by (auto simp: members_mem project_of_visible)
  from visible_may_read[OF j(4) this] j show "readable_in ms s s' (id_token i) ns" by (auto simp: readable_in_def)
qed

lemma pickOrFail_mem:
  "pickOrFail (byNamespace ns) ps = Inr p \<Longrightarrow> p \<in> set ps \<and> ns \<in> set (pi_namespaces p)"
  "pickOrFail (byName want) ps = Inr p \<Longrightarrow> p \<in> set ps \<and> pi_name p = want"
  by (auto simp: pickOrFail_def byNamespace_def byName_def findProject_def find_Some_iff split: option.splits)

lemma resolveProject_sound:
  assumes "hash_ok tkey" "server_ok tkey ms s" "resolveProject tkey ms who pick s = (r, s')"
    and pick: "\<And>ps p. pickOrFail pick ps = Inr p \<Longrightarrow> p \<in> set ps"
  shows "sound_step tkey ms s s'"
    and "r = Inr sc \<Longrightarrow> who = Some (sc_id sc) \<and> \<not> sc_platform sc \<and> seen_project ms s s' (sc_id sc) (sc_proj sc) \<and>
      (\<exists>ps. pickOrFail pick ps = Inr (sc_proj sc))"
proof -
  obtain u s1 where u: "callerProjects tkey ms who s = (u, s1)" by (cases "callerProjects tkey ms who s")
  have s': "s' = s1" using assms(3) u by (auto simp: resolveProject_def split: sum.splits prod.splits)
  from callerProjects_sound(1)[OF assms(1,2) u] s' show "sound_step tkey ms s s'" by simp
  assume "r = Inr sc"
  then obtain sc0 ps p where r: "u = Inr (sc0, ps)" "pickOrFail pick ps = Inr p" "sc = sc0\<lparr>sc_proj := p\<rparr>"
    using assms(3) u by (auto simp: resolveProject_def split: sum.splits prod.splits)
  from callerProjects_sound(2)[OF assms(1,2) u r(1)] pick[OF r(2)] r(2,3) s'
  show "who = Some (sc_id sc) \<and> \<not> sc_platform sc \<and> seen_project ms s s' (sc_id sc) (sc_proj sc) \<and>
      (\<exists>ps. pickOrFail pick ps = Inr (sc_proj sc))" by auto
qed

lemma platformScopeAny_sound:
  assumes "hash_ok tkey" "server_ok tkey ms s" "platformScopeAny tkey ms who s = (r, s')"
  shows "sound_step tkey ms s s'"
    and "r = Inr sc \<Longrightarrow> who = Some (sc_id sc) \<and> sv_platform_repo s \<noteq> '''' \<and>
      sc_proj sc = platformProject s \<and> sc_platform sc \<and>
      (\<exists>ref \<in> set platformAuthorResources. vouched_in ms s s' (id_token (sc_id sc)) (QCreate ref) True)"
proof -
  obtain u s1 where u: "userCluster ms who s = (u, s1)" by (cases "userCluster ms who s")
  have step: "sound_step tkey ms s s1" "u = Inr i \<Longrightarrow> who = Some i" for i
    using userCluster_sound[OF assms(2) u] by simp_all
  have repo1: "sv_platform_repo s1 = sv_platform_repo s" using step(1) by (simp add: sound_step_def same_world_def)
  have "sound_step tkey ms s s' \<and> (r = Inr sc \<longrightarrow> who = Some (sc_id sc) \<and> sv_platform_repo s \<noteq> '''' \<and>
      sc_proj sc = platformProject s \<and> sc_platform sc \<and>
      (\<exists>ref \<in> set platformAuthorResources. vouched_in ms s s' (id_token (sc_id sc)) (QCreate ref) True))"
  proof (cases u)
    case (Inl e)
    with assms(3) u step show ?thesis by (auto simp: platformScopeAny_def platformScopeWith_def)
  next
    case (Inr i)
    show ?thesis
    proof (cases "sv_platform_repo s = ''''")
      case True
      with assms(3) u Inr repo1 step show ?thesis by (auto simp: platformScopeAny_def platformScopeWith_def)
    next
      case False
      obtain ok s2 where v: "can_create_any tkey ms i platformAuthorResources s1 = (ok, s2)"
        by (cases "can_create_any tkey ms i platformAuthorResources s1")
      have run: "(r, s') = (if \<not> ok then (Inl (ErrForbidden ''not authorized to author platform changes''), s2)
          else (Inr \<lparr>sc_id = i, sc_proj = platformProject s2, sc_platform = True\<rparr>, s2))"
        using assms(3) u Inr False repo1 v by (simp add: platformScopeAny_def platformScopeWith_def canAuthorPlatform_def)
      from can_create_any_sound[OF assms(1) sound_step_ok[OF step(1)] _ v] platform_refs_ok
      have any: "sound_step tkey ms s1 s2" "ok \<Longrightarrow> \<exists>ref \<in> set platformAuthorResources. vouched_in ms s1 s2 (id_token i) (QCreate ref) True"
        by blast+
      have both: "sound_step tkey ms s s2" by (rule sound_step_trans[OF step(1) any(1)])
      then have "platformProject s2 = platformProject s" by (simp add: platformProject_def sound_step_def same_world_def)
      have grow: "ok \<Longrightarrow> \<exists>ref \<in> set platformAuthorResources. vouched_in ms s s2 (id_token i) (QCreate ref) True"
        using any(2) sound_step_le[OF step(1)] by (meson vouched_in_grow order_refl)
      from run both grow False step(2)[OF Inr] \<open>platformProject s2 = platformProject s\<close> show ?thesis
        by (auto split: if_splits)
    qed
  qed
  then show "sound_step tkey ms s s'"
    and "r = Inr sc \<Longrightarrow> who = Some (sc_id sc) \<and> sv_platform_repo s \<noteq> '''' \<and>
      sc_proj sc = platformProject s \<and> sc_platform sc \<and>
      (\<exists>ref \<in> set platformAuthorResources. vouched_in ms s s' (id_token (sc_id sc)) (QCreate ref) True)" by auto
qed

text \<open>The project the caller holds is all of the project, when it has as many namespaces.\<close>

lemma full_project:
  assumes p: "p \<in> set (Resolve r ns (Some v))" and full: "find (\<lambda>q. pi_name q = pi_name p) (Resolve r ns None) = Some q"
    and len: "\<not> length (pi_namespaces q) > length (pi_namespaces p)" and n: "n \<in> set ns" "project_of r None n = Some (pi_name p)"
  shows "no_name n \<in> set (pi_namespaces p)"
proof -
  let ?mv = "members r (Some v) ns (pi_name p)" and ?ma = "members r None ns (pi_name p)"
  have q: "q \<in> set (Resolve r ns None)" "pi_name q = pi_name p" using full by (auto simp: find_Some_iff)
  have sub: "?mv = filter (\<lambda>n. v (no_name n)) ?ma"
    by (simp add: members_def project_of_visible conj_commute)
  have "length ?ma \<le> length ?mv"
    using len Resolve_namespaces(1)[OF p] Resolve_namespaces(1)[OF q(1)] q(2) by simp
  then have "length (filter (\<lambda>n. v (no_name n)) ?ma) = length ?ma" using sub by (metis length_filter_le le_antisym)
  then have "?mv = ?ma" using sub by (metis filter_id_conv length_filter_less linorder_neq_iff)
  moreover have "n \<in> set ?ma" using n by (simp add: members_mem)
  ultimately show ?thesis using Resolve_namespaces(1)[OF p] by simp
qed

lemma authorizeRepo_sound:
  assumes "hash_ok tkey" "server_ok tkey ms s" "authorizeRepo tkey ms sc s = (r, s')"
  shows "sound_step tkey ms s s'"
    and "r = Inr () \<Longrightarrow> \<not> sc_platform sc \<Longrightarrow> ns \<in> set (pi_namespaces (sc_proj sc)) \<Longrightarrow>
      vouched_in ms s s' (id_token (sc_id sc)) (QAuthor verbUpdate ssarVM ns) True"
    and "r = Inr () \<Longrightarrow> \<not> sc_platform sc \<Longrightarrow> projectByName s (pi_name (sc_proj sc)) = Some full \<Longrightarrow>
      \<not> length (pi_namespaces full) > length (pi_namespaces (sc_proj sc))"
proof -
  let ?rs = "map (\<lambda>ns. (ssarVM, ns)) (pi_namespaces (sc_proj sc))"
  have "(s' = s \<and> (r = Inr () \<longrightarrow> sc_platform sc)) \<or>
      (authorize_all tkey ms sc verbUpdate ?rs s = (r, s') \<and>
       (\<forall>full. projectByName s (pi_name (sc_proj sc)) = Some full \<longrightarrow> \<not> length (pi_namespaces full) > length (pi_namespaces (sc_proj sc))))"
    using assms(3) by (auto simp: authorizeRepo_def split: if_splits option.splits)
  then have "sound_step tkey ms s s' \<and> (r = Inr () \<longrightarrow> \<not> sc_platform sc \<longrightarrow>
      (\<forall>ns \<in> set (pi_namespaces (sc_proj sc)). vouched_in ms s s' (id_token (sc_id sc)) (QAuthor verbUpdate ssarVM ns) True) \<and>
      (\<forall>full. projectByName s (pi_name (sc_proj sc)) = Some full \<longrightarrow> \<not> length (pi_namespaces full) > length (pi_namespaces (sc_proj sc))))"
  proof (elim disjE conjE)
    assume "s' = s" "r = Inr () \<longrightarrow> sc_platform sc"
    with assms(2) show ?thesis by (simp add: sound_step_refl)
  next
    assume run: "authorize_all tkey ms sc verbUpdate ?rs s = (r, s')" and
      len: "\<forall>full. projectByName s (pi_name (sc_proj sc)) = Some full \<longrightarrow> \<not> length (pi_namespaces full) > length (pi_namespaces (sc_proj sc))"
    have "\<forall>(ref, ns) \<in> set ?rs. ref_ok ref" using ssarVM_ok by auto
    from authorize_all_sound[OF assms(1,2) verbs_ok(2) this run] len show ?thesis by auto
  qed
  then show "sound_step tkey ms s s'"
    and "r = Inr () \<Longrightarrow> \<not> sc_platform sc \<Longrightarrow> ns \<in> set (pi_namespaces (sc_proj sc)) \<Longrightarrow>
      vouched_in ms s s' (id_token (sc_id sc)) (QAuthor verbUpdate ssarVM ns) True"
    and "r = Inr () \<Longrightarrow> \<not> sc_platform sc \<Longrightarrow> projectByName s (pi_name (sc_proj sc)) = Some full \<Longrightarrow>
      \<not> length (pi_namespaces full) > length (pi_namespaces (sc_proj sc))" by auto
qed

end
