(* ===== verification/Api_Props.thy ===== *)
theory Api_Props
  imports Api_Gates
begin

text \<open>
  The properties of the request gates: tenant isolation, the authoring gate, the platform tier, and
  the project resolution and the kinds table they rest on.
\<close>

section \<open>A small world for the witnesses\<close>

text \<open>One API server that lets one token do everything, one namespace of one project.\<close>

definition open_kube :: kube where
  "open_kube = \<lparr>kb_access = (\<lambda>a. Inr True), kb_rules = (\<lambda>ns. Inr ([], False)), kb_namespaces = Inr [''a'']\<rparr>"

definition open_moments :: moments where
  "open_moments = (\<lambda>t. \<lparr>mo_now = int t, mo_put = int t, mo_bus = None, mo_kube = (\<lambda>_. open_kube), mo_client = (\<lambda>_. True)\<rparr>)"

definition small_resolver :: resolver where
  "small_resolver = \<lparr>rv_label = ''l'', rv_anno = ''r'', rv_base = ''''\<rparr>"

definition small_server :: server where
  "small_server = \<lparr>sv_configured = True, sv_platform_repo = ''https://f/p'', sv_resolver = small_resolver,
     sv_namespaces = [\<lparr>no_name = ''a'', no_labels = [(''l'', ''p'')], no_annotations = []\<rparr>],
     sv_networks = None, sv_visible = cache_new visibleTTL, sv_ssar = cache_new visibleTTL, sv_tick = 0\<rparr>"

definition hex_id :: "string \<Rightarrow> string" where
  "hex_id t = concat (map (\<lambda>c. if of_char c < (1 :: nat) then [CHR ''0'', CHR ''0''] else [CHR ''1'', c]) t)"

definition ada :: identity where
  "ada = \<lparr>id_token = ''t'', id_username = ''ada'', id_groups = []\<rparr>"

lemma hex_id_inj: "hex_id t = hex_id t' \<Longrightarrow> t = t'"
proof (induction t arbitrary: t')
  case Nil
  then show ?case by (cases t') (auto simp: hex_id_def split: if_splits)
next
  case (Cons c t)
  then obtain c' u where t': "t' = c' # u" by (cases t') (auto simp: hex_id_def split: if_splits)
  have zero: "of_char c = (0 :: nat) \<Longrightarrow> of_char c' = (0 :: nat) \<Longrightarrow> c = c'" by (metis char_of_char)
  have "c = c' \<and> hex_id t = hex_id u"
    using Cons.prems zero unfolding t' by (auto simp: hex_id_def split: if_splits)
  with Cons.IH[of u] t' show ?case by simp
qed

lemma hash_ok_hex: "hash_ok hex_id"
  by (auto simp: hash_ok_def hex_id_inj nul_def inj_on_def) (auto simp: hex_id_def split: if_splits)

lemma small_reach: "server_reach tkey ms small_server"
  by (rule server_reach.start) (simp_all add: small_server_def)

definition repo_server :: server where
  "repo_server = small_server\<lparr>sv_namespaces :=
     [\<lparr>no_name = ''a'', no_labels = [(''l'', ''p'')], no_annotations = [(''r'', ''https://f/o/r'')]\<rparr>]\<rparr>"

lemma repo_reach: "server_reach tkey ms repo_server"
  by (rule server_reach.start) (simp_all add: repo_server_def small_server_def)

section \<open>Tenant isolation\<close>

text \<open>C6: A project route hands its handler only a project the caller may see. When \<open>pickProject\<close>
  resolves any name but the platform's, the scope carries the caller's identity and the project of that
  name, is never the platform tier, and every namespace in it is one where a review of the caller's own
  token, at most the cache window old and under the same RBAC version, lets the token read VMs.\<close>
theorem tenant_isolation:
  assumes "hash_ok tkey" "server_reach tkey ms s" "want \<noteq> PlatformName"
    and "pickProject tkey ms who want s = (Inr sc, s')"
  shows "who = Some (sc_id sc) \<and> pi_name (sc_proj sc) = want \<and> \<not> sc_platform sc \<and> pi_namespaces (sc_proj sc) \<noteq> [] \<and>
    (\<forall>ns \<in> set (pi_namespaces (sc_proj sc)). readable_in ms s s' (id_token (sc_id sc)) ns)"
proof -
  have run: "resolveProject tkey ms who (byName want) s = (Inr sc, s')" using assms(3,4) by (simp add: pickProject_def)
  have pick: "\<And>ps p. pickOrFail (byName want) ps = Inr p \<Longrightarrow> p \<in> set ps" using pickOrFail_mem(2) by blast
  have "who = Some (sc_id sc) \<and> \<not> sc_platform sc \<and> seen_project ms s s' (sc_id sc) (sc_proj sc) \<and>
      (\<exists>ps. pickOrFail (byName want) ps = Inr (sc_proj sc))"
    by (rule resolveProject_sound(2)[OF assms(1) server_reach_ok[OF assms(1,2)] run _ refl]) (rule pick)
  then obtain ps where sc: "who = Some (sc_id sc)" "\<not> sc_platform sc" "seen_project ms s s' (sc_id sc) (sc_proj sc)"
    "pickOrFail (byName want) ps = Inr (sc_proj sc)" by blast
  from pickOrFail_mem(2)[OF sc(4)] seen_project_readable(1,4)[OF sc(3)] sc(1,2) show ?thesis by simp
qed

lemma small_pick:
  "pickProject hex_id open_moments (Some ada) ''p'' small_server =
    (Inr \<lparr>sc_id = ada, sc_proj = \<lparr>pi_name = ''p'', pi_repo = '''', pi_namespaces = [''a''],
        pi_error = ''no repo configured (set the dotvirt.io/repo annotation)''\<rparr>, sc_platform = False\<rparr>,
     small_server\<lparr>sv_visible := cache_put 1 (cache_new visibleTTL) (hex_id ''t'') \<lparr>vs_ns = [''a''], vs_ver = 0\<rparr>, sv_tick := 2\<rparr>)"
  by code_simp

theorem tenant_isolation_witness:
  "\<exists>ns s'. readable_in open_moments small_server s' ''t'' ns"
proof -
  have "''p'' \<noteq> PlatformName" by (simp add: PlatformName_def)
  from tenant_isolation[OF hash_ok_hex small_reach this small_pick] show ?thesis by (auto simp: ada_def)
qed

text \<open>C7: A container read (a list, chart or metrics request) covers only namespaces the caller may
  read. Every namespace \<open>containerScope\<close> returns is backed by a review of the caller's token that
  allows reading VMs there, and with a namespace in the query nothing else is returned.\<close>
theorem container_scope_readable:
  assumes "hash_ok tkey" "server_reach tkey ms s"
    and "containerScope tkey ms who project ns s = (Inr (sc, nss), s')"
  shows "who = Some (sc_id sc) \<and> \<not> sc_platform sc \<and> (\<forall>n \<in> set nss. readable_in ms s s' (id_token (sc_id sc)) n) \<and>
    (ns \<noteq> '''' \<longrightarrow> set nss \<subseteq> {ns}) \<and> (project \<noteq> '''' \<longrightarrow> ns = '''' \<longrightarrow> pi_name (sc_proj sc) = project)"
proof -
  obtain u s1 where u: "callerProjects tkey ms who s = (u, s1)" by (cases "callerProjects tkey ms who s")
  have s': "s' = s1" using assms(3) u by (auto simp: containerScope_def split: sum.splits prod.splits if_splits)
  obtain sc0 ps where v: "u = Inr (sc0, ps)" using assms(3) u by (cases u) (auto simp: containerScope_def)
  from callerProjects_sound(2)[OF assms(1) server_reach_ok[OF assms(1,2)] u v]
  have base: "who = Some (sc_id sc0)" "\<not> sc_platform sc0" "\<And>p. p \<in> set ps \<Longrightarrow> seen_project ms s s' (sc_id sc0) p"
    using s' by auto
  have read: "p \<in> set ps \<Longrightarrow> n \<in> set (pi_namespaces p) \<Longrightarrow> readable_in ms s s' (id_token (sc_id sc0)) n" for p n
    using seen_project_readable(1) base(3) by blast
  obtain sc1 ps1 where w: "(if project \<noteq> '''' then
        (case pickOrFail (byName project) ps of Inl e \<Rightarrow> Inl e | Inr p \<Rightarrow> Inr (sc0\<lparr>sc_proj := p\<rparr>, [p])) else Inr (sc0, ps)) = Inr (sc1, ps1)"
    using assms(3) u v by (auto simp: containerScope_def split: sum.splits if_splits)
  then have w1: "sc_id sc1 = sc_id sc0" "sc_platform sc1 = sc_platform sc0" "set ps1 \<subseteq> set ps"
      "project \<noteq> '''' \<longrightarrow> pi_name (sc_proj sc1) = project"
    using pickOrFail_mem(2) by (auto split: if_splits sum.splits)
  have rest: "(if ns \<noteq> '''' then
        (case pickOrFail (byNamespace ns) ps1 of Inl e \<Rightarrow> Inl e
         | Inr p \<Rightarrow> Inr (sc1\<lparr>sc_proj := p\<rparr>, if pi_repo p = '''' then [] else [ns]))
      else Inr (sc1, concat (map pi_namespaces (filter (\<lambda>p. pi_repo p \<noteq> '''') ps1)))) = Inr (sc, nss)"
    using assms(3) u v w by (auto simp: containerScope_def split: sum.splits if_splits)
  have read1: "\<And>p n. p \<in> set ps1 \<Longrightarrow> n \<in> set (pi_namespaces p) \<Longrightarrow> readable_in ms s s' (id_token (sc_id sc0)) n"
    using read w1(3) by blast
  show ?thesis
  proof (cases "ns = ''''")
    case True
    with rest w1 base(1,2) read1 show ?thesis by auto
  next
    case False
    with rest obtain p where p: "pickOrFail (byNamespace ns) ps1 = Inr p" "sc = sc1\<lparr>sc_proj := p\<rparr>" "set nss \<subseteq> {ns}"
      by (auto split: sum.splits if_splits)
    from pickOrFail_mem(1)[OF p(1)] p(2,3) False w1 base(1,2) read1 show ?thesis by auto
  qed
qed

lemma repo_container:
  "case containerScope hex_id open_moments (Some ada) ''p'' '''' repo_server of (Inr (sc, nss), s') \<Rightarrow> nss = [''a''] | _ \<Rightarrow> False"
  by code_simp

theorem container_scope_readable_witness: "\<exists>s'. readable_in open_moments repo_server s' ''t'' ''a''"
proof -
  obtain sc nss s' where s: "containerScope hex_id open_moments (Some ada) ''p'' '''' repo_server = (Inr (sc, nss), s')"
      "nss = [''a'']"
  proof (cases "containerScope hex_id open_moments (Some ada) ''p'' '''' repo_server")
    case (Pair r s')
    with repo_container that show ?thesis by (cases r) (simp_all split: prod.splits)
  qed
  note c = container_scope_readable[OF hash_ok_hex repo_reach s(1)]
  have "sc_id sc = ada" using conjunct1[OF c] by simp
  with c s(2) show ?thesis by (auto simp: ada_def)
qed

section \<open>The authoring gate\<close>

text \<open>C8: Staging a change needs the rights the change needs. A tenant's \<open>authorizeObject\<close> succeeds
  on a namespaced resource only when at least one kind backs it there and the caller's token was
  vouched the very verb on every kind that may back it, in that namespace, during the request.\<close>
theorem object_write_authorized:
  assumes "hash_ok tkey" "server_reach tkey ms s" "nul \<notin> set verb" "\<not> sc_platform sc" "ns \<noteq> ClusterScopeNS"
    and "authorizeObject tkey ms sc verb resource ns name s = (Inr (), s')"
  shows "stagedKinds s resource ns name \<noteq> [] \<and>
    (\<forall>k \<in> set (stagedKinds s resource ns name). vouched_in ms s s' (id_token (sc_id sc)) (QAuthor verb (ssarFor k) ns) True)"
proof -
  let ?ks = "stagedKinds s resource ns name"
  have ne: "?ks \<noteq> []" and run: "authorize_all tkey ms sc verb (map (\<lambda>k. (ssarFor k, ns)) ?ks) s = (Inr (), s')"
    using assms(5,6) by (auto simp: authorizeObject_def Let_def split: if_splits)
  have "\<forall>(ref, ns) \<in> set (map (\<lambda>k. (ssarFor k, ns)) ?ks). ref_ok ref" using stagedKinds_table ssarFor_ok by auto
  from authorize_all_sound[OF assms(1) server_reach_ok[OF assms(1,2)] assms(3) this run] assms(4) ne show ?thesis by auto
qed

definition tenant_scope :: scope where
  "tenant_scope = \<lparr>sc_id = ada, sc_proj = \<lparr>pi_name = ''p'', pi_repo = '''', pi_namespaces = [''a''], pi_error = ''''\<rparr>, sc_platform = False\<rparr>"

lemma small_vm_write:
  "authorizeObject hex_id open_moments tenant_scope verbUpdate ''vm'' ''a'' ''x'' small_server =
    (Inr (), small_server\<lparr>sv_ssar := cache_put 0 (cache_new visibleTTL) (hex_id ''t'' @ [nul] @ author_key verbUpdate ssarVM ''a'')
       \<lparr>sr_ok = True, sr_ver = 0\<rparr>, sv_tick := 1\<rparr>)"
  by code_simp

theorem object_write_authorized_witness:
  "\<exists>s' k. vouched_in open_moments small_server s' ''t'' (QAuthor verbUpdate (ssarFor k) ''a'') True"
proof -
  have sc: "\<not> sc_platform tenant_scope" "''a'' \<noteq> ClusterScopeNS" by (simp_all add: tenant_scope_def ClusterScopeNS_def)
  from object_write_authorized[OF hash_ok_hex small_reach verbs_ok(2) sc small_vm_write]
  obtain k where "vouched_in open_moments small_server (small_server\<lparr>sv_ssar := cache_put 0 (cache_new visibleTTL) (hex_id ''t'' @ [nul] @ author_key verbUpdate ssarVM ''a'')
       \<lparr>sr_ok = True, sr_ver = 0\<rparr>, sv_tick := 1\<rparr>) (id_token (sc_id tenant_scope)) (QAuthor verbUpdate (ssarFor k) ''a'') True"
    by (meson last_in_set)
  then show ?thesis unfolding tenant_scope_def ada_def by (intro exI) simp
qed

text \<open>C9: Reverting a project needs edit rights in every namespace of the project, the hidden ones
  included. When a caller resolved a tenant project by name and \<open>authorizeRepo\<close> let them pass, then
  every namespace labelled into that project was vouched for updating VMs, whether or not the caller's
  token can see it.\<close>
theorem revert_covers_project:
  assumes "hash_ok tkey" "server_reach tkey ms s0" "want \<noteq> PlatformName"
    and "pickProject tkey ms who want s0 = (Inr sc, s)" "authorizeRepo tkey ms sc s = (Inr (), s')"
    and "n \<in> set (sv_namespaces s0)" "project_of (sv_resolver s0) None n = Some want"
  shows "vouched_in ms s s' (id_token (sc_id sc)) (QAuthor verbUpdate ssarVM (no_name n)) True"
proof -
  note ok = server_reach_ok[OF assms(1,2)]
  have run: "resolveProject tkey ms who (byName want) s0 = (Inr sc, s)" using assms(3,4) by (simp add: pickProject_def)
  have pick: "\<And>ps p. pickOrFail (byName want) ps = Inr p \<Longrightarrow> p \<in> set ps" using pickOrFail_mem(2) by blast
  have step: "sound_step tkey ms s0 s" by (rule resolveProject_sound(1)[OF assms(1) ok run pick])
  have "\<not> sc_platform sc \<and> seen_project ms s0 s (sc_id sc) (sc_proj sc) \<and> pi_name (sc_proj sc) = want"
    using resolveProject_sound(2)[OF assms(1) ok run pick refl] pickOrFail_mem(2)[of want] by metis
  then have sc: "\<not> sc_platform sc" "seen_project ms s0 s (sc_id sc) (sc_proj sc)" "pi_name (sc_proj sc) = want" by simp_all
  then obtain v where p: "sc_proj sc \<in> set (Resolve (sv_resolver s0) (sv_namespaces s0) (Some v))" by (auto simp: seen_project_def)
  have w: "sv_resolver s = sv_resolver s0" "sv_namespaces s = sv_namespaces s0" using step by (simp_all add: sound_step_def same_world_def)
  have "\<exists>q \<in> set (AllProjects s). pi_name q = want"
    using Resolve_exists[OF assms(6,7)] by (simp add: AllProjects_def w)
  then obtain full where full: "projectByName s want = Some full"
    by (cases "projectByName s want") (auto simp: projectByName_def findProject_def find_None_iff)
  have len: "\<not> length (pi_namespaces full) > length (pi_namespaces (sc_proj sc))"
    using authorizeRepo_sound(3)[OF assms(1) sound_step_ok[OF step] assms(5) refl sc(1)] full sc(3) by simp
  have "no_name n \<in> set (pi_namespaces (sc_proj sc))"
    by (rule full_project[OF p _ len assms(6)]) (use full sc(3) assms(7) in \<open>simp_all add: projectByName_def findProject_def AllProjects_def w\<close>)
  from authorizeRepo_sound(2)[OF assms(1) sound_step_ok[OF step] assms(5) refl sc(1) this] show ?thesis .
qed

theorem revert_covers_project_witness:
  "\<exists>s s'. vouched_in open_moments s s' ''t'' (QAuthor verbUpdate ssarVM ''a'') True"
proof -
  have want: "''p'' \<noteq> PlatformName" by (simp add: PlatformName_def)
  define sc where "sc = \<lparr>sc_id = ada, sc_proj = \<lparr>pi_name = ''p'', pi_repo = '''', pi_namespaces = [''a''],
        pi_error = ''no repo configured (set the dotvirt.io/repo annotation)''\<rparr>, sc_platform = False\<rparr>"
  define s1 where "s1 = small_server\<lparr>sv_visible := cache_put 1 (cache_new visibleTTL) (hex_id ''t'') \<lparr>vs_ns = [''a''], vs_ver = 0\<rparr>, sv_tick := 2\<rparr>"
  have pick: "pickProject hex_id open_moments (Some ada) ''p'' small_server = (Inr sc, s1)"
    unfolding sc_def s1_def by (rule small_pick)
  have "fst (authorizeRepo hex_id open_moments sc s1) = Inr ()" unfolding sc_def s1_def by code_simp
  then obtain s' where rep: "authorizeRepo hex_id open_moments sc s1 = (Inr (), s')" by (metis prod.collapse)
  have n: "\<lparr>no_name = ''a'', no_labels = [(''l'', ''p'')], no_annotations = []\<rparr> \<in> set (sv_namespaces small_server)"
    "project_of (sv_resolver small_server) None \<lparr>no_name = ''a'', no_labels = [(''l'', ''p'')], no_annotations = []\<rparr> = Some ''p''"
    by (simp_all add: small_server_def small_resolver_def project_of_def label_get_def PlatformName_def)
  from revert_covers_project[OF hash_ok_hex small_reach want pick rep n] show ?thesis by (auto simp: sc_def ada_def)
qed

text \<open>A failed review is never an answer. For a tenant, \<open>authorize\<close> passes exactly when the review
  (or the cached verdict) says yes, answers 403 exactly when it says no, and answers 503 exactly when the
  review fails, and then no verdict is stored.\<close>
theorem authorize_statuses:
  assumes "\<not> sc_platform sc"
  shows "case canAuthor tkey ms (sc_id sc) verb ref ns s of
      (Inr True, s') \<Rightarrow> authorize tkey ms sc verb ref ns s = (Inr (), s')
    | (Inr False, s') \<Rightarrow> (\<exists>m. authorize tkey ms sc verb ref ns s = (Inl (ErrForbidden m), s') \<and> statusFor (ErrForbidden m) = 403)
    | (Inl e, s') \<Rightarrow> authorize tkey ms sc verb ref ns s = (Inl unavailable, s') \<and> statusFor unavailable = 503 \<and>
        sv_ssar s' = sv_ssar s \<and> sv_visible s' = sv_visible s"
proof (cases "canAuthor tkey ms (sc_id sc) verb ref ns s")
  case (Pair r s')
  show ?thesis
  proof (cases r)
    case (Inl e)
    have "sv_ssar s' = sv_ssar s \<and> sv_visible s' = sv_visible s"
      using Pair Inl by (auto simp: canAuthor_def ssarChecked_def next_moment_def Let_def split: option.splits if_splits sum.splits)
    with Pair Inl assms show ?thesis by (simp add: authorize_def unavailable_def)
  next
    case (Inr b)
    with Pair assms show ?thesis by (cases b) (simp_all add: authorize_def)
  qed
qed

theorem authorize_statuses_witness:
  "authorize hex_id open_moments tenant_scope verbUpdate ssarVM ''a'' small_server =
     (Inr (), snd (canAuthor hex_id open_moments ada verbUpdate ssarVM ''a'' small_server))"
proof -
  have f: "fst (canAuthor hex_id open_moments ada verbUpdate ssarVM ''a'' small_server) = Inr True" by code_simp
  have "\<not> sc_platform tenant_scope" and i: "sc_id tenant_scope = ada" by (simp_all add: tenant_scope_def)
  from authorize_statuses[OF this(1), of hex_id open_moments verbUpdate ssarVM "''a''" small_server] f show ?thesis
    unfolding i by (cases "canAuthor hex_id open_moments ada verbUpdate ssarVM ''a'' small_server") simp
qed

section \<open>The platform tier\<close>

text \<open>The platform tier fails closed. \<open>pickProject\<close> opens it only for a request that carries an
  identity, only when a platform repository is configured, and only when the caller's token was vouched
  the creation of one of the platform authoring resources during the request; the project it hands out
  is the platform repository's and no tenant's.\<close>
theorem platform_tier_guarded:
  assumes "hash_ok tkey" "server_reach tkey ms s" "pickProject tkey ms who PlatformName s = (Inr sc, s')"
  shows "who = Some (sc_id sc) \<and> sv_platform_repo s \<noteq> '''' \<and> sc_proj sc = platformProject s \<and>
    (\<exists>ref \<in> set platformAuthorResources. vouched_in ms s s' (id_token (sc_id sc)) (QCreate ref) True)"
proof -
  have run: "platformScopeAny tkey ms who s = (Inr sc, s')" using assms(3) by (simp add: pickProject_def)
  from platformScopeAny_sound(2)[OF assms(1) server_reach_ok[OF assms(1,2)] run refl] show ?thesis by simp
qed

theorem platform_tier_guarded_witness:
  "\<exists>s' ref. vouched_in open_moments small_server s' ''t'' (QCreate ref) True"
proof -
  define run where "run = pickProject hex_id open_moments (Some ada) PlatformName small_server"
  have "isl (fst run) = False" unfolding run_def by code_simp
  then obtain sc s' where "run = (Inr sc, s')" by (cases run; cases "fst run") auto
  from platform_tier_guarded[OF hash_ok_hex small_reach this[unfolded run_def]] show ?thesis by (metis ada_def identity.select_convs(1) option.inject)
qed

section \<open>Projects and kinds\<close>

text \<open>The resolver groups exactly the labelled namespaces. Project names are distinct; a project is
  in the result exactly when some visible namespace is labelled into it; its namespaces are, in order, the
  names of all of them; and it has a repository \<open>u\<close> exactly when the repository annotations of its
  members resolve to \<open>u\<close> alone.\<close>
theorem resolve_groups:
  "distinct (map pi_name (Resolve r nss visible)) \<and>
   (\<forall>name. (\<exists>p \<in> set (Resolve r nss visible). pi_name p = name) \<longleftrightarrow> members r visible nss name \<noteq> []) \<and>
   (\<forall>p \<in> set (Resolve r nss visible).
      pi_namespaces p = sort (map no_name (members r visible nss (pi_name p))) \<and>
      (\<forall>u. pi_repo p = u \<and> u \<noteq> '''' \<longleftrightarrow> member_repos r (members r visible nss (pi_name p)) = {u} \<and> u \<noteq> '''') \<and>
      (pi_error p = '''' \<longleftrightarrow> pi_repo p \<noteq> ''''))"
proof -
  have ex: "(\<exists>p \<in> set (Resolve r nss visible). pi_name p = name) \<longleftrightarrow> members r visible nss name \<noteq> []" for name
  proof
    assume "members r visible nss name \<noteq> []"
    then obtain n where "n \<in> set (members r visible nss name)" by (meson last_in_set)
    then show "\<exists>p \<in> set (Resolve r nss visible). pi_name p = name" by (auto simp: members_mem intro: Resolve_exists)
  qed (use Resolve_namespaces(2) in blast)
  have each: "pi_namespaces p = sort (map no_name (members r visible nss (pi_name p))) \<and>
      (\<forall>u. pi_repo p = u \<and> u \<noteq> '''' \<longleftrightarrow> member_repos r (members r visible nss (pi_name p)) = {u} \<and> u \<noteq> '''') \<and>
      (pi_error p = '''' \<longleftrightarrow> pi_repo p \<noteq> '''')" if p: "p \<in> set (Resolve r nss visible)" for p
    by (intro conjI allI Resolve_namespaces(1)[OF p] Resolve_repo(1)[OF p] Resolve_repo(2)[OF p])
  show ?thesis by (intro conjI Resolve_names allI ballI ex) (use each in blast)+
qed

theorem resolve_groups_witness:
  "\<exists>p \<in> set (Resolve small_resolver [\<lparr>no_name = ''a'', no_labels = [(''l'', ''p'')], no_annotations = []\<rparr>] None). pi_name p = ''p''"
proof -
  let ?n = "\<lparr>no_name = ''a'', no_labels = [(''l'', ''p'')], no_annotations = []\<rparr>"
  have "members small_resolver None [?n] ''p'' \<noteq> []" by code_simp
  with resolve_groups[of small_resolver "[?n]" None] show ?thesis by metis
qed

lemma project_info_of_perm:
  assumes "mset (ac_namespaces a) = mset (ac_namespaces b)" "set (ac_repos a) = set (ac_repos b)"
    "distinct (ac_repos a)" "distinct (ac_repos b)"
  shows "project_info_of (name, a) = project_info_of (name, b)"
proof -
  have ns: "sort (ac_namespaces a) = sort (ac_namespaces b)" by (rule properties_for_sort) (simp_all add: assms(1))
  have len: "length (ac_repos a) = length (ac_repos b)" using assms(2-4) by (metis distinct_card)
  show ?thesis
  proof (cases "ac_repos a")
    case Nil
    with len ns show ?thesis by (simp add: project_info_of_def)
  next
    case (Cons u us)
    then obtain w ws where w: "ac_repos b = w # ws" using len by (cases "ac_repos b") auto
    show ?thesis
    proof (cases us)
      case Nil
      with Cons w len assms(2) ns show ?thesis by (simp add: project_info_of_def)
    next
      case (Cons u' us')
      with \<open>ac_repos a = u # us\<close> w len obtain w' ws' where "ws = w' # ws'" by (cases ws) auto
      with Cons \<open>ac_repos a = u # us\<close> w ns show ?thesis by (simp add: project_info_of_def)
    qed
  qed
qed

lemma resolve_mem_perm:
  assumes "mset nss = mset nss'" "p \<in> set (Resolve r nss visible)"
  shows "p \<in> set (Resolve r nss' visible)"
proof -
  let ?m = "members r visible nss (pi_name p)" and ?m' = "members r visible nss' (pi_name p)"
  obtain a where a: "map_of (grouped r visible nss) (pi_name p) = Some a" "p = project_info_of (pi_name p, a)"
    using assms(2) by (auto simp: Resolve_mem)
  have perm: "mset ?m = mset ?m'" using assms(1) by (simp add: members_def)
  from grouped_Some[OF a(1)] have ok: "?m \<noteq> []" "accum_ok r ?m a" by simp_all
  have "?m' \<noteq> []" using ok(1) perm by auto
  then obtain b where b: "map_of (grouped r visible nss') (pi_name p) = Some b" using grouped_None by (metis not_Some_eq)
  from grouped_Some[OF b] have ok': "accum_ok r ?m' b" by simp
  have "set ?m = set ?m'" using perm by (metis set_mset_mset)
  then have "set (ac_repos a) = set (ac_repos b)" using ok(2) ok' by (simp add: accum_ok_def member_repos_def)
  moreover have "mset (ac_namespaces a) = mset (ac_namespaces b)" using ok(2) ok' perm by (simp add: accum_ok_def)
  ultimately have "project_info_of (pi_name p, a) = project_info_of (pi_name p, b)"
    using ok(2) ok' by (intro project_info_of_perm) (simp_all add: accum_ok_def)
  with a(2) b show ?thesis by (auto simp: Resolve_mem)
qed

text \<open>The resolver's answer does not depend on any iteration order. The snapshot lists namespaces
  in map order and the accumulators are iterated in map order; for the same namespaces in any order the
  result is the same list of projects.\<close>
theorem resolve_order_independent:
  assumes "mset nss = mset nss'"
  shows "Resolve r nss visible = Resolve r nss' visible"
proof -
  have set_eq: "set (Resolve r nss visible) = set (Resolve r nss' visible)"
    using resolve_mem_perm[OF assms] resolve_mem_perm[OF assms[symmetric]] by blast
  have d: "distinct (Resolve r ns visible)" for ns using Resolve_names by (metis distinct_map)
  have "mset (Resolve r nss visible) = mset (Resolve r nss' visible)"
    using set_eq d by (metis set_eq_iff_mset_eq_distinct)
  then show ?thesis
  proof (rule project_order.ordered_unique[rotated 2])
    fix a b assume "a \<in> set (Resolve r nss visible)" "b \<in> set (Resolve r nss visible)" "\<not> project_less a b" "\<not> project_less b a"
    then have "pi_name a = pi_name b" by (simp add: project_less_def)
    then show "a = b" using \<open>a \<in> _\<close> \<open>b \<in> _\<close> Resolve_names by (metis distinct_map_key)
  qed (simp_all only: Resolve_def project_order.go_sort_ordered)
qed

theorem resolve_order_independent_witness:
  "Resolve small_resolver
     [\<lparr>no_name = ''a'', no_labels = [(''l'', ''p'')], no_annotations = []\<rparr>, \<lparr>no_name = ''b'', no_labels = [(''l'', ''q'')], no_annotations = []\<rparr>] None =
   Resolve small_resolver
     [\<lparr>no_name = ''b'', no_labels = [(''l'', ''q'')], no_annotations = []\<rparr>, \<lparr>no_name = ''a'', no_labels = [(''l'', ''p'')], no_annotations = []\<rparr>] None"
  by (rule resolve_order_independent) (simp add: add_mset_commute)

lemma kind_of_table:
  assumes "r \<in> set resources" "k \<in> set (rs_kinds r)" "r' \<in> set resources" "k' \<in> set (rs_kinds r')" "mk_kind k = mk_kind k'"
  shows "r = r' \<and> k = k'"
proof -
  have "list_all (\<lambda>r. list_all (\<lambda>r'. list_all (\<lambda>k. list_all (\<lambda>k'. mk_kind k = mk_kind k' \<longrightarrow> r = r' \<and> k = k')
      (rs_kinds r')) (rs_kinds r)) resources) resources" by code_simp
  with assms show ?thesis by (auto simp: list_all_iff)
qed

text \<open>The kinds table is a two-way index. \<open>LookupKind\<close> finds a managed kind exactly when some
  resource of the table is backed by it, it returns the only such resource and kind, and
  \<open>LookupResource\<close> on that resource's name returns the resource again.\<close>
theorem kinds_roundtrip:
  "(LookupKind kind = Some (r, k) \<longleftrightarrow> r \<in> set resources \<and> k \<in> set (rs_kinds r) \<and> mk_kind k = kind) \<and>
   (r \<in> set resources \<longrightarrow> LookupResource (rs_name r) = Some r)"
proof
  show "LookupKind kind = Some (r, k) \<longleftrightarrow> r \<in> set resources \<and> k \<in> set (rs_kinds r) \<and> mk_kind k = kind"
  proof
    assume "LookupKind kind = Some (r, k)"
    then show "r \<in> set resources \<and> k \<in> set (rs_kinds r) \<and> mk_kind k = kind"
      unfolding LookupKind_def by (rule lookup_kind_in_Some)
  next
    assume rk: "r \<in> set resources \<and> k \<in> set (rs_kinds r) \<and> mk_kind k = kind"
    then have "LookupKind kind \<noteq> None" unfolding LookupKind_def by (metis lookup_kind_in_None)
    then obtain r' k' where found: "LookupKind kind = Some (r', k')" by auto
    then have "r' \<in> set resources \<and> k' \<in> set (rs_kinds r') \<and> mk_kind k' = kind"
      unfolding LookupKind_def by (rule lookup_kind_in_Some)
    with rk kind_of_table[of r' k' r k] found show "LookupKind kind = Some (r, k)" by simp
  qed
  have "list_all (\<lambda>r. LookupResource (rs_name r) = Some r) resources" by code_simp
  then show "r \<in> set resources \<longrightarrow> LookupResource (rs_name r) = Some r" by (simp add: list_all_iff)
qed

theorem kinds_roundtrip_witness: "\<exists>r. LookupResource (rs_name r) = Some r \<and> r \<in> set resources"
proof -
  let ?r = "res ''vm'' [KindVM] ''Adopt VM from cluster'' ''Edit VM'' False"
  have "?r \<in> set resources" by (simp add: resources_def)
  with kinds_roundtrip[of "''x''" ?r KindVM] show ?thesis by blast
qed

end
