(* ===== verification/Watch_Stores.thy ===== *)
theory Watch_Stores
  imports Eventbus_Bus
begin

text \<open>
  The reflector stores: \<open>internal/reflect\<close> (\<open>store.go\<close>, \<open>ready.go\<close>, the health flags of \<open>run.go\<close>) and the two
  wrappers of \<open>internal/clusterstate\<close> (\<open>vmspecstore.go\<close>, \<open>rbacstore.go\<close>). The client-go indexer they wrap is the
  parameter \<open>ix\<close>: four writes that return the new contents or refuse. A store operation returns whether it was
  accepted, the new state and the callbacks it fired, in order; the wiring of \<open>clusterstate.New\<close> turns the
  callbacks into publishes.
\<close>

section \<open>Stores\<close>

datatype signal = Changed | Synced | SpecMoved

record ('i, 'o) indexer =
  ix_add :: "'o \<Rightarrow> 'i \<Rightarrow> 'i option"
  ix_update :: "'o \<Rightarrow> 'i \<Rightarrow> 'i option"
  ix_delete :: "'o \<Rightarrow> 'i \<Rightarrow> 'i option"
  ix_replace :: "'o list \<Rightarrow> 'i \<Rightarrow> 'i option"

record 'i counting =
  ct_idx :: 'i
  ct_synced :: bool

type_synonym 's outcome = "bool \<times> 's \<times> signal list"

definition NewStore :: "'i \<Rightarrow> 'i counting" where
  "NewStore i = \<lparr>ct_idx = i, ct_synced = False\<rparr>"

definition counting_write :: "('i \<Rightarrow> 'i option) \<Rightarrow> 'i counting \<Rightarrow> 'i counting outcome" where
  "counting_write w c =
     (case w (ct_idx c) of None \<Rightarrow> (False, c, []) | Some i \<Rightarrow> (True, c\<lparr>ct_idx := i\<rparr>, [Changed]))"

definition counting_add :: "('i, 'o) indexer \<Rightarrow> 'o \<Rightarrow> 'i counting \<Rightarrow> 'i counting outcome" where
  "counting_add ix x = counting_write (ix_add ix x)"

definition counting_update :: "('i, 'o) indexer \<Rightarrow> 'o \<Rightarrow> 'i counting \<Rightarrow> 'i counting outcome" where
  "counting_update ix x = counting_write (ix_update ix x)"

definition counting_delete :: "('i, 'o) indexer \<Rightarrow> 'o \<Rightarrow> 'i counting \<Rightarrow> 'i counting outcome" where
  "counting_delete ix x = counting_write (ix_delete ix x)"

definition counting_replace :: "('i, 'o) indexer \<Rightarrow> 'o list \<Rightarrow> 'i counting \<Rightarrow> 'i counting outcome" where
  "counting_replace ix xs c =
     (case ix_replace ix xs (ct_idx c) of
        None \<Rightarrow> (False, c, [])
      | Some i \<Rightarrow> (True, c\<lparr>ct_idx := i, ct_synced := True\<rparr>, (if ct_synced c then [] else [Synced]) @ [Changed]))"

text \<open>The store that retains nothing: its state is only whether it synced.\<close>

definition signal_write :: "bool \<Rightarrow> bool outcome" where
  "signal_write synced = (True, synced, [Changed])"

definition signal_replace :: "bool \<Rightarrow> bool outcome" where
  "signal_replace synced = (True, True, (if synced then [] else [Synced]) @ [Changed])"

section \<open>The VM store\<close>

text \<open>A watched object: readable metadata, a tombstone of another object, or neither.\<close>

datatype watched = Meta string string int | Tombstone watched | Opaque

fun keyAndGen :: "watched \<Rightarrow> (string \<times> int) option" where
  "keyAndGen (Meta ns name g) = Some (ns @ ''/'' @ name, g)"
| "keyAndGen (Tombstone x) = None"
| "keyAndGen Opaque = None"

record 'i vm_store =
  vs_store :: "'i counting"
  vs_gen :: "(string \<times> int) list"

definition newVMSpecStore :: "'i \<Rightarrow> 'i vm_store" where
  "newVMSpecStore i = \<lparr>vs_store = NewStore i, vs_gen = []\<rparr>"

definition gen_put :: "string \<times> int \<Rightarrow> (string \<times> int) list \<Rightarrow> (string \<times> int) list" where
  "gen_put kg m = kg # filter (\<lambda>(k, g). k \<noteq> fst kg) m"

definition gen_del :: "string \<Rightarrow> (string \<times> int) list \<Rightarrow> (string \<times> int) list" where
  "gen_del k m = filter (\<lambda>(j, g). j \<noteq> k) m"

definition vm_add :: "('i, watched) indexer \<Rightarrow> watched \<Rightarrow> 'i vm_store \<Rightarrow> 'i vm_store outcome" where
  "vm_add ix x s =
     (case counting_add ix x (vs_store s) of
        (False, c, sigs) \<Rightarrow> (False, s\<lparr>vs_store := c\<rparr>, sigs)
      | (True, c, sigs) \<Rightarrow>
          (True, s\<lparr>vs_store := c, vs_gen := (case keyAndGen x of None \<Rightarrow> vs_gen s | Some kg \<Rightarrow> gen_put kg (vs_gen s))\<rparr>,
           sigs @ [SpecMoved]))"

definition vm_update :: "('i, watched) indexer \<Rightarrow> watched \<Rightarrow> 'i vm_store \<Rightarrow> 'i vm_store outcome" where
  "vm_update ix x s =
     (let specChanged = (case keyAndGen x of None \<Rightarrow> True | Some (k, g) \<Rightarrow> map_of (vs_gen s) k \<noteq> Some g) in
      case counting_update ix x (vs_store s) of
        (False, c, sigs) \<Rightarrow> (False, s\<lparr>vs_store := c\<rparr>, sigs)
      | (True, c, sigs) \<Rightarrow>
          (True, s\<lparr>vs_store := c, vs_gen := (case keyAndGen x of None \<Rightarrow> vs_gen s | Some kg \<Rightarrow> gen_put kg (vs_gen s))\<rparr>,
           sigs @ (if specChanged then [SpecMoved] else [])))"

definition vm_delete :: "('i, watched) indexer \<Rightarrow> watched \<Rightarrow> 'i vm_store \<Rightarrow> 'i vm_store outcome" where
  "vm_delete ix x s =
     (case counting_delete ix x (vs_store s) of
        (False, c, sigs) \<Rightarrow> (False, s\<lparr>vs_store := c\<rparr>, sigs)
      | (True, c, sigs) \<Rightarrow>
          (True, s\<lparr>vs_store := c, vs_gen := (case keyAndGen x of None \<Rightarrow> vs_gen s | Some (k, g) \<Rightarrow> gen_del k (vs_gen s))\<rparr>,
           sigs @ [SpecMoved]))"

definition gens_of :: "watched list \<Rightarrow> (string \<times> int) list" where
  "gens_of xs = foldl (\<lambda>m x. case keyAndGen x of None \<Rightarrow> m | Some kg \<Rightarrow> gen_put kg m) [] xs"

definition vm_replace :: "('i, watched) indexer \<Rightarrow> watched list \<Rightarrow> 'i vm_store \<Rightarrow> 'i vm_store outcome" where
  "vm_replace ix xs s =
     (case counting_replace ix xs (vs_store s) of
        (False, c, sigs) \<Rightarrow> (False, s\<lparr>vs_store := c\<rparr>, sigs)
      | (True, c, sigs) \<Rightarrow> (True, s\<lparr>vs_store := c, vs_gen := gens_of xs\<rparr>, sigs @ [SpecMoved]))"

section \<open>The role-binding store\<close>

text \<open>One tombstone is unwrapped; what is under it is read as it is.\<close>

definition relevant :: "(string \<Rightarrow> bool) \<Rightarrow> watched \<Rightarrow> bool" where
  "relevant isProject x =
     (case (case x of Tombstone y \<Rightarrow> y | _ \<Rightarrow> x) of Meta ns name g \<Rightarrow> isProject ns | _ \<Rightarrow> True)"

definition rbac_write :: "(string \<Rightarrow> bool) \<Rightarrow> watched \<Rightarrow> bool \<Rightarrow> bool outcome" where
  "rbac_write isProject x synced = (if \<not> relevant isProject x then (True, synced, []) else signal_write synced)"

section \<open>Health and readiness\<close>

definition TrackHealth_list :: "bool \<Rightarrow> bool \<Rightarrow> bool" where
  "TrackHealth_list failed healthy = (if failed then False else healthy)"

definition TrackHealth_watch :: "bool \<Rightarrow> bool \<Rightarrow> bool" where
  "TrackHealth_watch failed healthy = (\<not> failed)"

definition AllHealthy :: "bool list \<Rightarrow> bool" where
  "AllHealthy flags = list_all (\<lambda>f. f) flags"

definition VMSnapshotReady :: "bool \<Rightarrow> bool \<Rightarrow> bool" where
  "VMSnapshotReady vmsReady nssReady = (vmsReady \<and> nssReady)"

section \<open>The wiring\<close>

text \<open>What each store's callbacks publish (\<open>clusterstate.New\<close>); \<open>Synced\<close> only marks readiness.\<close>

fun vm_publish :: "signal \<Rightarrow> bus option \<Rightarrow> bus option" where
  "vm_publish Changed b = Publish LiveChanged b"
| "vm_publish SpecMoved b = Publish VMSpecChanged b"
| "vm_publish Synced b = b"

fun ns_publish :: "signal \<Rightarrow> bus option \<Rightarrow> bus option" where
  "ns_publish Changed b = Publish NamespaceChanged b"
| "ns_publish _ b = b"

fun rbac_publish :: "signal \<Rightarrow> bus option \<Rightarrow> bus option" where
  "rbac_publish Changed b = Publish RBACChanged b"
| "rbac_publish _ b = b"

definition fire :: "(signal \<Rightarrow> bus option \<Rightarrow> bus option) \<Rightarrow> signal list \<Rightarrow> bus option \<Rightarrow> bus option" where
  "fire pub sigs b = foldl (\<lambda>b s. pub s b) b sigs"

section \<open>Runs of the VM store\<close>

datatype delta = Add watched | Update watched | Delete watched | Replace "watched list"

fun vm_delta :: "('i, watched) indexer \<Rightarrow> delta \<Rightarrow> 'i vm_store \<Rightarrow> 'i vm_store outcome" where
  "vm_delta ix (Add x) s = vm_add ix x s"
| "vm_delta ix (Update x) s = vm_update ix x s"
| "vm_delta ix (Delete x) s = vm_delete ix x s"
| "vm_delta ix (Replace xs) s = vm_replace ix xs s"

text \<open>The deltas so far, newest first: the state, the ones the indexer accepted and the callbacks, in order.\<close>

fun vm_run :: "('i, watched) indexer \<Rightarrow> 'i \<Rightarrow> delta list \<Rightarrow> 'i vm_store \<times> delta list \<times> signal list" where
  "vm_run ix i [] = (newVMSpecStore i, [], [])"
| "vm_run ix i (d # ds) =
     (case vm_run ix i ds of (s, acc, sigs) \<Rightarrow>
        (case vm_delta ix d s of (ok, s', new) \<Rightarrow> (s', if ok then d # acc else acc, sigs @ new)))"

text \<open>The generation last seen under a key, over the accepted deltas.\<close>

definition named :: "string \<Rightarrow> watched \<Rightarrow> bool" where
  "named k x = (map_option fst (keyAndGen x) = Some k)"

fun last_gen :: "delta list \<Rightarrow> string \<Rightarrow> int option" where
  "last_gen [] k = None"
| "last_gen (Add x # ds) k = (if named k x then map_option snd (keyAndGen x) else last_gen ds k)"
| "last_gen (Update x # ds) k = (if named k x then map_option snd (keyAndGen x) else last_gen ds k)"
| "last_gen (Delete x # ds) k = (if named k x then None else last_gen ds k)"
| "last_gen (Replace xs # ds) k = (case find (named k) (rev xs) of None \<Rightarrow> None | Some x \<Rightarrow> map_option snd (keyAndGen x))"

text \<open>A delta that leaves every spec as it is: an update to a generation already seen.\<close>

fun heartbeat :: "delta list \<Rightarrow> delta \<Rightarrow> bool" where
  "heartbeat ds (Update x) = (case keyAndGen x of None \<Rightarrow> False | Some (k, g) \<Rightarrow> last_gen ds k = Some g)"
| "heartbeat ds _ = False"

lemma gen_put_lookup: "map_of (gen_put kg m) k = (if k = fst kg then Some (snd kg) else map_of m k)"
proof -
  have "map_of (filter (\<lambda>(j, g). j \<noteq> fst kg) m) k = (if k = fst kg then None else map_of m k)"
    by (induction m) auto
  then show ?thesis by (cases kg) (simp add: gen_put_def)
qed

lemma gen_del_lookup: "map_of (gen_del k m) j = (if j = k then None else map_of m j)"
  by (induction m) (auto simp: gen_del_def)

lemma gens_of_lookup: "map_of (gens_of xs) k = (case find (named k) (rev xs) of None \<Rightarrow> None | Some x \<Rightarrow> map_option snd (keyAndGen x))"
proof (induction xs rule: rev_induct)
  case Nil
  then show ?case by (simp add: gens_of_def)
next
  case (snoc x xs)
  then show ?case
    by (auto simp: gens_of_def named_def gen_put_lookup split: option.splits)
qed

lemma counting_outcome:
  "counting_add ix x c = (ok, c', sigs) \<Longrightarrow> sigs = (if ok then [Changed] else []) \<and> ct_synced c' = ct_synced c"
  "counting_update ix x c = (ok, c', sigs) \<Longrightarrow> sigs = (if ok then [Changed] else []) \<and> ct_synced c' = ct_synced c"
  "counting_delete ix x c = (ok, c', sigs) \<Longrightarrow> sigs = (if ok then [Changed] else []) \<and> ct_synced c' = ct_synced c"
  "counting_replace ix xs c = (ok, c', sigs) \<Longrightarrow> sigs = (if ok then (if ct_synced c then [] else [Synced]) @ [Changed] else []) \<and>
     ct_synced c' = (ct_synced c \<or> ok)"
  by (auto simp: counting_add_def counting_update_def counting_delete_def counting_write_def counting_replace_def
      split: option.splits if_splits)

definition gens_ok :: "'i vm_store \<Rightarrow> delta list \<Rightarrow> bool" where
  "gens_ok s acc = ((\<forall>k. map_of (vs_gen s) k = last_gen acc k) \<and>
     (ct_synced (vs_store s) \<longleftrightarrow> (\<exists>xs. Replace xs \<in> set acc)))"

lemma vm_delta_step:
  assumes "gens_ok s acc" and "vm_delta ix d s = (ok, s', new)"
  shows "gens_ok s' (if ok then d # acc else acc)"
    "new = (if \<not> ok then []
       else (case d of Replace xs \<Rightarrow> if \<exists>xs. Replace xs \<in> set acc then [] else [Synced] | _ \<Rightarrow> []) @ [Changed] @
         (if heartbeat acc d then [] else [SpecMoved]))"
proof -
  have *: "gens_ok s' (if ok then d # acc else acc) \<and>
    new = (if \<not> ok then []
       else (case d of Replace xs \<Rightarrow> if \<exists>xs. Replace xs \<in> set acc then [] else [Synced] | _ \<Rightarrow> []) @ [Changed] @
         (if heartbeat acc d then [] else [SpecMoved]))"
  proof (cases d)
    case (Add x)
    obtain ok' c sigs where c: "counting_add ix x (vs_store s) = (ok', c, sigs)" by (cases "counting_add ix x (vs_store s)")
    with counting_outcome(1)[OF c] assms Add show ?thesis
      by (cases ok') (auto simp: vm_add_def gens_ok_def named_def gen_put_lookup split: option.splits)
  next
    case (Update x)
    obtain ok' c sigs where c: "counting_update ix x (vs_store s) = (ok', c, sigs)" by (cases "counting_update ix x (vs_store s)")
    with counting_outcome(2)[OF c] assms Update show ?thesis
      by (cases ok') (auto simp: vm_update_def gens_ok_def named_def gen_put_lookup Let_def split: option.splits if_splits)
  next
    case (Delete x)
    obtain ok' c sigs where c: "counting_delete ix x (vs_store s) = (ok', c, sigs)" by (cases "counting_delete ix x (vs_store s)")
    with counting_outcome(3)[OF c] assms Delete show ?thesis
      by (cases ok') (auto simp: vm_delete_def gens_ok_def named_def gen_del_lookup split: option.splits)
  next
    case (Replace xs)
    obtain ok' c sigs where c: "counting_replace ix xs (vs_store s) = (ok', c, sigs)" by (cases "counting_replace ix xs (vs_store s)")
    with counting_outcome(4)[OF c] assms Replace show ?thesis
      by (cases ok') (auto simp: vm_replace_def gens_ok_def gens_of_lookup)
  qed
  from * show "gens_ok s' (if ok then d # acc else acc)" by (rule conjunct1)
  from * show "new = (if \<not> ok then []
       else (case d of Replace xs \<Rightarrow> if \<exists>xs. Replace xs \<in> set acc then [] else [Synced] | _ \<Rightarrow> []) @ [Changed] @
         (if heartbeat acc d then [] else [SpecMoved]))" by (rule conjunct2)
qed

lemma vm_run_ok: "vm_run ix i ds = (s, acc, sigs) \<Longrightarrow> gens_ok s acc"
proof (induction ds arbitrary: s acc sigs)
  case Nil
  then show ?case by (auto simp: gens_ok_def newVMSpecStore_def NewStore_def)
next
  case (Cons d ds)
  obtain s0 acc0 sigs0 where r: "vm_run ix i ds = (s0, acc0, sigs0)" by (cases "vm_run ix i ds")
  obtain ok s1 new where d: "vm_delta ix d s0 = (ok, s1, new)" by (cases "vm_delta ix d s0")
  from vm_delta_step(1)[OF Cons.IH[OF r] d] Cons.prems r d show ?case by simp
qed

section \<open>Properties\<close>

text \<open>C37: The VM store signals a spec change exactly when one may have happened. After any watch history
  the store knows, under every key, the generation of the last accepted object, and its next delta fires:
  nothing when the indexer refuses it; otherwise the live signal, the sync signal on the first accepted
  relist only, and the spec signal unless the delta is an update to the generation already known. So a
  status heartbeat never wakes the manifest consumers, and a delta that moves any known generation does.\<close>
theorem vm_store_signals:
  assumes "vm_run ix i ds = (s, acc, sigs)" and "vm_delta ix d s = (ok, s', new)"
  shows "(\<forall>k. map_of (vs_gen s) k = last_gen acc k) \<and>
    (\<not> ok \<longrightarrow> new = [] \<and> vs_gen s' = vs_gen s) \<and>
    (ok \<longrightarrow> Changed \<in> set new \<and> (SpecMoved \<in> set new \<longleftrightarrow> \<not> heartbeat acc d) \<and>
      (Synced \<in> set new \<longleftrightarrow> (\<exists>xs. d = Replace xs) \<and> \<not> (\<exists>xs. Replace xs \<in> set acc))) \<and>
    ((\<exists>k. map_of (vs_gen s') k \<noteq> map_of (vs_gen s) k) \<longrightarrow> SpecMoved \<in> set new)"
proof -
  note ok = vm_run_ok[OF assms(1)]
  note step = vm_delta_step[OF ok assms(2)]
  have refuse: "\<not> ok \<Longrightarrow> vs_gen s' = vs_gen s"
    using assms(2) by (cases d) (auto simp: vm_add_def vm_update_def vm_delete_def vm_replace_def Let_def split: prod.splits bool.splits)
  have fired: "ok \<Longrightarrow> SpecMoved \<in> set new \<longleftrightarrow> \<not> heartbeat acc d" "ok \<Longrightarrow> Changed \<in> set new"
    "ok \<Longrightarrow> Synced \<in> set new \<longleftrightarrow> (\<exists>xs. d = Replace xs) \<and> \<not> (\<exists>xs. Replace xs \<in> set acc)"
    using step(2) by (auto split: delta.splits)
  have still: "heartbeat acc d \<Longrightarrow> map_of (vs_gen s') k = map_of (vs_gen s) k" for k
  proof (cases d)
    case (Update x)
    assume hb: "heartbeat acc d"
    with Update obtain k' g where x: "keyAndGen x = Some (k', g)" "last_gen acc k' = Some g" by (auto split: option.splits)
    have "map_of (vs_gen s') k = last_gen (if ok then d # acc else acc) k" "map_of (vs_gen s) k = last_gen acc k"
      using step(1) ok by (simp_all add: gens_ok_def)
    with x Update show ?thesis by (auto simp: named_def)
  qed auto
  show ?thesis using ok refuse fired still step(2) unfolding gens_ok_def by (metis empty_iff list.set(1))
qed

definition free_index :: "(nat, watched) indexer" where
  "free_index = \<lparr>ix_add = (\<lambda>x i. Some (Suc i)), ix_update = (\<lambda>x i. Some i), ix_delete = (\<lambda>x i. Some (i - 1)), ix_replace = (\<lambda>xs i. Some (length xs))\<rparr>"

theorem vm_store_signals_witness:
  "SpecMoved \<notin> set (snd (snd (vm_delta free_index (Update (Meta ''a'' ''v'' 2)) (fst (vm_run free_index 0 [Add (Meta ''a'' ''v'' 2), Replace []])))))"
proof -
  obtain s acc sigs where r: "vm_run free_index 0 [Add (Meta ''a'' ''v'' 2), Replace []] = (s, acc, sigs)"
    by (cases "vm_run free_index 0 [Add (Meta ''a'' ''v'' 2), Replace []]")
  obtain ok s' new where d: "vm_delta free_index (Update (Meta ''a'' ''v'' 2)) s = (ok, s', new)"
    by (cases "vm_delta free_index (Update (Meta ''a'' ''v'' 2)) s")
  have acc: "acc = [Add (Meta ''a'' ''v'' 2), Replace []]"
    using r by (simp add: vm_add_def vm_replace_def counting_add_def counting_write_def counting_replace_def free_index_def newVMSpecStore_def NewStore_def gens_of_def
      split: prod.splits if_splits)
  have "ok \<Longrightarrow> SpecMoved \<notin> set new" "\<not> ok \<Longrightarrow> SpecMoved \<notin> set new"
    using vm_store_signals[OF r d] by (auto simp: acc named_def)
  with r d show ?thesis by auto
qed

end
