(* ===== verification/Watch_Props.thy ===== *)
theory Watch_Props
  imports Watch_Stores Api_Props
begin

text \<open>
  The watch stores and the authorization caches together: what a role-binding or namespace event does to
  the answers the request gates give.
\<close>

lemma rbac_moves:
  "rbacVersion (Publish RBACChanged (Some b)) = rbacVersion (Some b) + 1"
  "rbacVersion (Publish NamespaceChanged (Some b)) = rbacVersion (Some b) + 1"
  by (simp_all add: rbacVersion_def Version_Publish)

text \<open>A move of role bindings or namespaces as the watch loops deliver it: the callbacks one accepted event fires,
  and what they publish.\<close>

inductive authz_move :: "('i, watched) indexer \<Rightarrow> (string \<Rightarrow> bool) \<Rightarrow> bus \<Rightarrow> bus \<Rightarrow> bool" for ix isProject where
  binding: "relevant isProject x \<Longrightarrow> rbac_write isProject x synced = (ok, synced', sigs) \<Longrightarrow>
    fire rbac_publish sigs (Some b) = Some b' \<Longrightarrow> authz_move ix isProject b b'"
| bindings: "signal_replace synced = (ok, synced', sigs) \<Longrightarrow> fire rbac_publish sigs (Some b) = Some b' \<Longrightarrow>
    authz_move ix isProject b b'"
| namespace: "counting_add ix x c = (True, c', sigs) \<or> counting_update ix x c = (True, c', sigs) \<or>
      counting_delete ix x c = (True, c', sigs) \<Longrightarrow>
    fire ns_publish sigs (Some b) = Some b' \<Longrightarrow> authz_move ix isProject b b'"
| namespaces: "counting_replace ix xs c = (True, c', sigs) \<Longrightarrow> fire ns_publish sigs (Some b) = Some b' \<Longrightarrow>
    authz_move ix isProject b b'"

lemma fire_moves:
  assumes "fire pub sigs (Some b) = Some b'" and "sigs = [Changed] \<or> sigs = [Synced, Changed]"
    and "pub = rbac_publish \<or> pub = ns_publish"
  shows "rbacVersion (Some b') = rbacVersion (Some b) + 1"
proof -
  have "Some b' = Publish RBACChanged (Some b) \<or> Some b' = Publish NamespaceChanged (Some b)"
    using assms by (auto simp: fire_def)
  then show ?thesis using rbac_moves by metis
qed

lemma authz_move_version: "authz_move ix isProject b b' \<Longrightarrow> rbacVersion (Some b') = rbacVersion (Some b) + 1"
proof (induction rule: authz_move.induct)
  case (binding x synced ok synced' sigs b b')
  then show ?case by (intro fire_moves) (auto simp: rbac_write_def signal_write_def)
next
  case (bindings synced ok synced' sigs b b')
  then show ?case by (intro fire_moves) (auto simp: signal_replace_def split: if_splits)
next
  case (namespace x c c' sigs b b')
  then have "sigs = [Changed]" using counting_outcome(1-3)[of ix x c True c' sigs] by auto
  with namespace(2) show ?case by (intro fire_moves) auto
next
  case (namespaces xs c c' sigs b b')
  then have "sigs = [Changed] \<or> sigs = [Synced, Changed]" using counting_outcome(4)[of ix xs c True c' sigs] by (auto split: if_splits)
  with namespaces(2) show ?case by (intro fire_moves) auto
qed

text \<open>The life of the bus: its states in order, each made from the one before by one call of the bus.\<close>

inductive bus_call :: "bus \<Rightarrow> bus \<Rightarrow> bool" where
  "Publish k (Some b) = Some b' \<Longrightarrow> bus_call b b'"
| "PublishKey k key (Some b) = Some b' \<Longrightarrow> bus_call b b'"
| "Subscribe kinds (Some b) = (Some b', so) \<Longrightarrow> bus_call b b'"
| "cancel so (Some b) = Some b' \<Longrightarrow> bus_call b b'"
| "bus_call b (receive sub b)"
| "bus_call b b"

definition bus_life :: "(nat \<Rightarrow> bus) \<Rightarrow> bool" where
  "bus_life bs = (\<forall>n. bus_call (bs n) (bs (Suc n)))"

lemma rbac_sum: "rbacVersion (Some b) = bs_versions b RBACChanged + bs_versions b NamespaceChanged"
  by (simp add: rbacVersion_def Version_sum)

lemma bus_call_version:
  assumes "bus_call b b'"
  obtains "rbacVersion (Some b') = rbacVersion (Some b)" | "rbacVersion (Some b') = rbacVersion (Some b) + 1"
  using assms
proof (cases rule: bus_call.cases)
  case (1 k)
  then have "rbacVersion (Some b') = rbacVersion (Some b) + (if k \<in> {RBACChanged, NamespaceChanged} then 1 else 0)"
    by (auto simp: rbac_sum Publish_def)
  then show thesis using that by (auto split: if_splits)
next
  case (2 k key)
  then have "rbacVersion (Some b') = rbacVersion (Some b) + (if k \<in> {RBACChanged, NamespaceChanged} then 1 else 0)"
    by (auto simp: rbac_sum PublishKey_def)
  then show thesis using that by (auto split: if_splits)
next
  case (3 kinds so)
  then show thesis using that(1) by (auto simp: Subscribe_def rbac_sum)
next
  case (4 so)
  then show thesis using that(1) by (auto simp: cancel_def rbac_sum split: option.splits)
next
  case (5 sub)
  then show thesis using that(1) by (simp add: receive_def rbac_sum)
next
  case 6
  then show thesis using that(1) by simp
qed

text \<open>Between two states of the bus the version grows by at most the calls between them, and by one at least where one moved it.\<close>

lemma version_grows:
  assumes "bus_life bs"
  shows "\<exists>d \<le> n. rbacVersion (Some (bs (m + n))) = rbacVersion (Some (bs m)) + of_nat d \<and>
    (\<forall>e. m \<le> e \<and> e < m + n \<and> rbacVersion (Some (bs (Suc e))) = rbacVersion (Some (bs e)) + 1 \<longrightarrow> 0 < d)"
proof (induction n)
  case 0
  then show ?case by simp
next
  case (Suc n)
  then obtain d where d: "d \<le> n" "rbacVersion (Some (bs (m + n))) = rbacVersion (Some (bs m)) + of_nat d"
    "\<forall>e. m \<le> e \<and> e < m + n \<and> rbacVersion (Some (bs (Suc e))) = rbacVersion (Some (bs e)) + 1 \<longrightarrow> 0 < d" by blast
  have "bus_call (bs (m + n)) (bs (Suc (m + n)))" using assms by (simp add: bus_life_def)
  then show ?case
  proof (cases rule: bus_call_version)
    case 1
    have "0 < d" if "m \<le> e" "e < m + Suc n" "rbacVersion (Some (bs (Suc e))) = rbacVersion (Some (bs e)) + 1" for e
      using d(3) that 1 by (cases "e = m + n") auto
    with 1 d(1,2) show ?thesis by (intro exI[of _ d]) auto
  next
    case 2
    with d(1,2) show ?thesis by (intro exI[of _ "Suc d"]) simp
  qed
qed

lemma version_moved:
  assumes "bus_life bs" "m \<le> e" "e < n" "rbacVersion (Some (bs (Suc e))) = rbacVersion (Some (bs e)) + 1" "n < 2 ^ 64"
  shows "rbacVersion (Some (bs n)) \<noteq> rbacVersion (Some (bs m))"
proof -
  obtain d where d: "d \<le> n - m" "rbacVersion (Some (bs n)) = rbacVersion (Some (bs m)) + of_nat d" "0 < d"
    using version_grows[OF assms(1), of "n - m" m] assms(2-4) by auto
  have "d < 2 ^ 64" using d(1) assms(5) by linarith
  then have "(of_nat d :: counter) \<noteq> 0" using d(3) by (simp add: word_of_nat_eq_0_iff nat_dvd_not_less)
  with d(2) show ?thesis by simp
qed

text \<open>The moments of a server over the life of the bus: \<open>seen\<close> is when the version of a moment is read, in order.\<close>

definition moments_over :: "(nat \<Rightarrow> bus) \<Rightarrow> (nat \<Rightarrow> nat) \<Rightarrow> moments \<Rightarrow> bool" where
  "moments_over bs seen ms = (bus_life bs \<and> mono seen \<and> (\<forall>t. mo_bus (ms t) = Some (bs (seen t))))"

lemma review_after_move:
  assumes "moments_over bs seen ms" "authz_move ix isProject (bs e) (bs (Suc e))" "e < seen t" "seen t < 2 ^ 64" "review_at ms j t"
  shows "e < seen j \<and> j \<le> t"
proof (rule conjI)
  show "j \<le> t" using assms(5) by (auto simp: review_at_def)
  show "e < seen j"
  proof (rule ccontr)
    assume "\<not> e < seen j"
    then have "seen j \<le> e" by simp
    with version_moved[OF _ this assms(3) authz_move_version[OF assms(2)] assms(4)] assms(1)
    have "mo_ver (ms j) \<noteq> mo_ver (ms t)" by (auto simp: moments_over_def mo_ver_def)
    then show False using assms(5,3) \<open>seen j \<le> e\<close> by (auto simp: review_at_def)
  qed
qed

text \<open>C38: A role-binding or namespace move revokes every cached answer. Whatever calls the bus has seen and whatever the caches of a running
  server hold, once the watch loop has published the move no answer obtained under an earlier version is served again: every verdict and every
  visible set a later request gets is one the API server gave for the same token, to the same question, at a moment that read its version after
  the move (the code reads the version before it asks, so the answer itself is from after the move). The caches' counters wrap after \<open>2 ^ 64\<close>
  publishes, so the bus is assumed to have seen fewer. An event of a binding outside the project namespaces publishes nothing.\<close>
theorem authz_move_revokes:
  assumes "hash_ok tkey" and "server_reach tkey ms s" and "moments_over bs seen ms"
    and "authz_move ix isProject (bs e) (bs (Suc e))" and "e < seen (sv_tick s)" and "seen (sv_tick s) < 2 ^ 64" and "question_ok q"
  shows "(\<forall>ok. fst (ssarChecked tkey ms i (qkey q) (qanswer q) s) = Inr ok \<longrightarrow>
      (\<exists>j \<le> sv_tick s. e < seen j \<and> qanswer q (mo_kube (ms j) (id_token i)) = Inr ok)) \<and>
    (\<forall>names. fst (visibleFor tkey ms i s) = Inr names \<longrightarrow>
      (\<exists>j \<le> sv_tick s. e < seen j \<and> (\<exists>candidates. VisibleNamespaces (mo_kube (ms j) (id_token i)) candidates = Inr names))) \<and>
    (\<not> relevant isProject x \<longrightarrow> snd (snd (rbac_write isProject x synced)) = [])"
proof (intro conjI allI impI)
  note ok = server_reach_ok[OF assms(1,2)]
  note after = review_after_move[OF assms(3-6)]
  show "\<exists>j \<le> sv_tick s. e < seen j \<and> qanswer q (mo_kube (ms j) (id_token i)) = Inr v"
    if "fst (ssarChecked tkey ms i (qkey q) (qanswer q) s) = Inr v" for v
    using ssarChecked_sound[OF assms(1) ok assms(7) prod.collapse[symmetric], of i] that after unfolding vouched_def by blast
  show "\<exists>j \<le> sv_tick s. e < seen j \<and> (\<exists>candidates. VisibleNamespaces (mo_kube (ms j) (id_token i)) candidates = Inr names)"
    if "fst (visibleFor tkey ms i s) = Inr names" for names
    using visibleFor_sound[OF assms(1) ok prod.collapse[symmetric], of i] that after by blast
  show "snd (snd (rbac_write isProject x synced)) = []" if "\<not> relevant isProject x"
    using that by (simp add: rbac_write_def)
qed

text \<open>The right of a user to read nodes is reviewed, then a role binding of a project moves and the API server changes its mind.\<close>

definition moved_buses :: "nat \<Rightarrow> bus" where
  "moved_buses n = (if n = 0 then New else the (Publish RBACChanged (Some New)))"

definition moved_moments :: moments where
  "moved_moments t = \<lparr>mo_now = int t, mo_put = int t, mo_bus = Some (moved_buses t),
     mo_kube = (\<lambda>_. \<lparr>kb_access = (\<lambda>a. Inr (t = 0)), kb_rules = (\<lambda>ns. Inr ([], False)), kb_namespaces = Inr []\<rparr>), mo_client = (\<lambda>_. True)\<rparr>"

definition fresh_server :: server where
  "fresh_server = \<lparr>sv_configured = True, sv_platform_repo = '''',
     sv_resolver = \<lparr>rv_label = ''l'', rv_anno = ''r'', rv_base = ''''\<rparr>, sv_namespaces = [], sv_networks = None,
     sv_visible = cache_new visibleTTL, sv_ssar = cache_new visibleTTL, sv_tick = 0\<rparr>"

definition asked_server :: server where
  "asked_server = snd (ssarChecked hex_id moved_moments ada (qkey QReadNodes) (qanswer QReadNodes) fresh_server)"

lemma moved_life: "moments_over moved_buses id moved_moments" "authz_move free_index (\<lambda>_. True) (moved_buses 0) (moved_buses (Suc 0))"
proof -
  have p: "Publish RBACChanged (Some New) = Some (moved_buses (Suc n))" for n by (simp add: moved_buses_def Publish_def)
  have "bus_call (moved_buses n) (moved_buses (Suc n))" for n
    using bus_call.intros(1)[OF p[of 0]] by (cases n) (auto simp: moved_buses_def intro: bus_call.intros)
  then show "moments_over moved_buses id moved_moments"
    by (simp add: moments_over_def bus_life_def moved_moments_def mono_def)
  have "relevant (\<lambda>_. True) (Meta ''a'' ''rb'' 1)" by (simp add: relevant_def)
  moreover have "rbac_write (\<lambda>_. True) (Meta ''a'' ''rb'' 1) True = (True, True, [Changed])"
    by (simp add: rbac_write_def relevant_def signal_write_def)
  moreover have "fire rbac_publish [Changed] (Some (moved_buses 0)) = Some (moved_buses (Suc 0))"
    by (simp add: fire_def moved_buses_def Publish_def)
  ultimately show "authz_move free_index (\<lambda>_. True) (moved_buses 0) (moved_buses (Suc 0))" by (rule authz_move.binding)
qed

theorem authz_move_revokes_witness:
  "fst (ssarChecked hex_id moved_moments ada (qkey QReadNodes) (qanswer QReadNodes) fresh_server) = Inr True \<and>
   fst (ssarChecked hex_id moved_moments ada (qkey QReadNodes) (qanswer QReadNodes) asked_server) = Inr False"
proof
  let ?r = "fst (ssarChecked hex_id moved_moments ada (qkey QReadNodes) (qanswer QReadNodes) asked_server)"
  show one: "fst (ssarChecked hex_id moved_moments ada (qkey QReadNodes) (qanswer QReadNodes) fresh_server) = Inr True" by code_simp
  have reach: "server_reach hex_id moved_moments asked_server"
    unfolding asked_server_def by (rule server_reach.ask[OF server_reach.start]) (simp_all add: fresh_server_def)
  have tick: "sv_tick asked_server = 1" by code_simp
  have "\<not> isl ?r" by code_simp
  then obtain ok where r: "?r = Inr ok" by (cases ?r) auto
  have "0 < id (sv_tick asked_server)" "id (sv_tick asked_server) < 2 ^ 64" "question_ok QReadNodes" by (simp_all add: tick)
  from authz_move_revokes[OF hash_ok_hex reach moved_life this, THEN conjunct1, rule_format, OF r] tick
  have "qanswer QReadNodes (mo_kube (moved_moments 1) (id_token ada)) = Inr ok" by (metis id_apply le_less_Suc_eq not_less_eq One_nat_def)
  moreover have "qanswer QReadNodes (mo_kube (moved_moments 1) (id_token ada)) = Inr False" by code_simp
  ultimately show "?r = Inr False" using r by simp
qed

end
