(* ===== verification/Netstate_Catalog.thy ===== *)
theory Netstate_Catalog
  imports Netstate_Policy
begin

text \<open>
  \<open>internal/netstate/catalog.go\<close>: the port groups, the uplinks and the physical adapters as the UI reads them,
  one scan of the stores. The decoded documents are those of \<open>Netgen_Doc\<close>; a NAD's CNI configuration is absent
  when it does not parse.
\<close>

section \<open>The rows\<close>

datatype network_kind = NetworkDefault | NetworkInternal | NetworkVLAN

datatype network_scope = ScopeProject | ScopeShared

record network =
  nw_name :: string
  nw_kind :: network_kind
  nw_scope :: network_scope
  nw_namespace :: string
  nw_vlan :: int
  nw_subnets :: "string list"
  nw_uplink :: string
  nw_attach_ref :: string
  nw_backing :: string
  nw_topology :: string
  nw_namespaces :: "string list"

record uplink =
  up_name :: string
  up_bridge :: string
  up_builtin :: bool
  up_nodes :: "string list"
  up_node_count :: nat
  up_policy :: string

record physical_adapter =
  pa_name :: string
  pa_node :: string
  pa_type :: string
  pa_mac :: string
  pa_state :: string
  pa_mtu :: int
  pa_role :: string

record network_inventory =
  ni_networks :: "network list"
  ni_uplinks :: "uplink list"
  ni_adapters :: "physical_adapter list"
  ni_nmstate_present :: bool

section \<open>Port groups\<close>

definition kindFor :: "string \<Rightarrow> string \<Rightarrow> network_kind" where
  "kindFor topology role =
     (if equal_fold topology ''Localnet'' then NetworkVLAN
      else if equal_fold role ''Primary'' then NetworkDefault
      else NetworkInternal)"

definition isSystemNamespace :: "string \<Rightarrow> bool" where
  "isSystemNamespace ns = (has_prefix ns ''openshift-'' \<or> ns = ''kube-system'')"

definition networkFromUDN :: "network_doc obj \<Rightarrow> network" where
  "networkFromUDN u =
     (let cfg = nd_config (o_doc u) in
      \<lparr>nw_name = o_name u, nw_kind = kindFor (nc_topology cfg) (Role cfg), nw_scope = ScopeProject,
       nw_namespace = o_namespace u, nw_vlan = 0, nw_subnets = Subnets cfg, nw_uplink = '''',
       nw_attach_ref = o_namespace u @ ''/'' @ o_name u, nw_backing = ''UserDefinedNetwork'',
       nw_topology = nc_topology cfg, nw_namespaces = []\<rparr>)"

definition networkFromCUDN :: "network_doc obj \<Rightarrow> network" where
  "networkFromCUDN u =
     (let cfg = nd_network (o_doc u);
          n = \<lparr>nw_name = o_name u, nw_kind = kindFor (nc_topology cfg) (Role cfg), nw_scope = ScopeShared,
               nw_namespace = '''', nw_vlan = 0, nw_subnets = Subnets cfg, nw_uplink = '''',
               nw_attach_ref = o_name u, nw_backing = ''ClusterUserDefinedNetwork'',
               nw_topology = nc_topology cfg, nw_namespaces = []\<rparr>
      in if nw_kind n = NetworkVLAN then
           n\<lparr>nw_uplink := ln_physical_network (nc_localnet cfg), nw_vlan := ln_vlan_id (nc_localnet cfg)\<rparr>
         else n)"

definition networkFromNAD :: "nad_config option obj \<Rightarrow> network" where
  "networkFromNAD u =
     (let n = \<lparr>nw_name = o_name u, nw_kind = NetworkInternal, nw_scope = ScopeProject,
               nw_namespace = o_namespace u, nw_vlan = 0, nw_subnets = [], nw_uplink = '''',
               nw_attach_ref = o_namespace u @ ''/'' @ o_name u, nw_backing = ''NetworkAttachmentDefinition'',
               nw_topology = '''', nw_namespaces = []\<rparr>
      in case o_doc u of
           None \<Rightarrow> n
         | Some c \<Rightarrow>
             n\<lparr>nw_topology := nad_topology c,
               nw_kind := (if nad_topology c \<noteq> '''' then kindFor (nad_topology c) '''' else NetworkInternal),
               nw_vlan := nad_vlan_id c,
               nw_subnets := (if nad_subnets c \<noteq> '''' then [nad_subnets c] else [])\<rparr>)"

text \<open>The pass over the NADs: the namespaces a shared network generated one in, and the unowned ones.\<close>

definition cudn_namespaces :: "nad_config option obj list \<Rightarrow> string \<Rightarrow> string list" where
  "cudn_namespaces nads name =
     concat (map (\<lambda>u. map (\<lambda>_. o_namespace u)
       (filter (\<lambda>(k, n). k = ''ClusterUserDefinedNetwork'' \<and> n = name) (o_owners u))) nads)"

definition owned :: "'d obj \<Rightarrow> bool" where
  "owned u = list_ex (\<lambda>(k, n). k = ''ClusterUserDefinedNetwork'' \<or> k = ''UserDefinedNetwork'') (o_owners u)"

definition raw_nads :: "nad_config option obj list \<Rightarrow> nad_config option obj list" where
  "raw_nads nads = filter (\<lambda>u. \<not> owned u \<and> \<not> isSystemNamespace (o_namespace u)) nads"

definition network_less :: "network \<Rightarrow> network \<Rightarrow> bool" where
  "network_less a b = (if nw_name a \<noteq> nw_name b then nw_name a < nw_name b else nw_namespace a < nw_namespace b)"

section \<open>Uplinks\<close>

definition matchesLabels :: "labels \<Rightarrow> labels \<Rightarrow> bool" where
  "matchesLabels have_labels want = list_all (\<lambda>(k, v). label_get have_labels k = v) want"

definition nodesMatching :: "snapshot \<Rightarrow> labels \<Rightarrow> string list" where
  "nodesMatching s sel = map nl_name (filter (\<lambda>n. matchesLabels (nl_labels n) sel) (s_nodes s))"

definition sortedSet :: "string list \<Rightarrow> string list" where
  "sortedSet xs = sort (remdups xs)"

definition uplinksFromNNCP :: "snapshot \<Rightarrow> uplink_doc obj \<Rightarrow> uplink list" where
  "uplinksFromNNCP s u =
     (let nodes = nodesMatching s (ud_node_selector (o_doc u)) in
      map (\<lambda>m. \<lparr>up_name = bm_localnet m, up_bridge = bm_bridge m, up_builtin = False, up_nodes = nodes,
                up_node_count = length nodes, up_policy = o_name u\<rparr>)
        (filter (\<lambda>m. bm_state m \<noteq> ''absent'') (ud_bridge_mappings (o_doc u))))"

definition first_row :: "uplink \<Rightarrow> uplink" where
  "first_row u = u\<lparr>up_nodes := sortedSet (up_nodes u), up_node_count := length (sortedSet (up_nodes u))\<rparr>"

definition fold_row :: "uplink \<Rightarrow> uplink \<Rightarrow> uplink" where
  "fold_row m u =
     (let nodes = sortedSet (up_nodes m @ up_nodes u) in
      m\<lparr>up_nodes := nodes, up_node_count := length nodes,
        up_bridge := (if up_bridge m = '''' then up_bridge u else up_bridge m),
        up_policy := (if up_policy m \<noteq> up_policy u then '''' else up_policy m)\<rparr>)"

fun merge_into :: "uplink list \<Rightarrow> uplink \<Rightarrow> uplink list" where
  "merge_into [] u = [first_row u]"
| "merge_into (m # ms) u = (if up_name m = up_name u then fold_row m u # ms else m # merge_into ms u)"

definition mergeUplinks :: "uplink list \<Rightarrow> uplink list" where
  "mergeUplinks ups = foldl merge_into [] ups"

definition builtin_uplink :: "snapshot \<Rightarrow> uplink" where
  "builtin_uplink s =
     (let nodes = nodesMatching s [] in
      \<lparr>up_name = ''br-ex'', up_bridge = ''br-ex'', up_builtin = True, up_nodes = nodes,
       up_node_count = length nodes, up_policy = ''''\<rparr>)"

definition uplink_rows :: "snapshot \<Rightarrow> uplink list" where
  "uplink_rows s = builtin_uplink s # concat (map (uplinksFromNNCP s) (s_nncp s))"

definition uplinks :: "snapshot \<Rightarrow> uplink list" where
  "uplinks s = mergeUplinks (uplink_rows s)"

section \<open>Adapters\<close>

fun str_of :: "json_val option \<Rightarrow> string" where
  "str_of (Some (JString x)) = x"
| "str_of _ = ''''"

fun toInt :: "json_val option \<Rightarrow> int option" where
  "toInt (Some (JInt n)) = Some n"
| "toInt (Some (JFloat n)) = Some n"
| "toInt _ = None"

definition nicRole :: "json_map \<Rightarrow> string" where
  "nicRole m =
     (let ctrl = str_of (m ''controller'') in
      if ctrl = '''' then ''available''
      else if contains_sub ctrl ''br-ex'' then ''cluster-uplink''
      else ''enslaved'')"

definition adapter_of :: "string \<Rightarrow> json_map option \<Rightarrow> physical_adapter option" where
  "adapter_of node raw =
     (case raw of
        None \<Rightarrow> None
      | Some m \<Rightarrow>
          (let typ = str_of (m ''type'') in
           if typ \<noteq> ''ethernet'' \<and> typ \<noteq> ''bond'' then None
           else Some \<lparr>pa_name = str_of (m ''name''), pa_node = node, pa_type = typ, pa_mac = str_of (m ''mac-address''),
                      pa_state = str_of (m ''state''), pa_mtu = (case toInt (m ''mtu'') of Some n \<Rightarrow> n | None \<Rightarrow> 0),
                      pa_role = nicRole m\<rparr>))"

definition adaptersFromNNS :: "json_map option list option obj \<Rightarrow> physical_adapter list" where
  "adaptersFromNNS u =
     (case o_doc u of None \<Rightarrow> [] | Some ifaces \<Rightarrow> List.map_filter (adapter_of (o_name u)) ifaces)"

section \<open>The catalog\<close>

definition catalog_networks :: "snapshot \<Rightarrow> network list" where
  "catalog_networks s =
     map networkFromUDN (s_udn s) @
     map (\<lambda>u. (networkFromCUDN u)\<lparr>nw_namespaces := cudn_namespaces (s_nad s) (o_name u)\<rparr>) (s_cudn s) @
     map networkFromNAD (raw_nads (s_nad s))"

definition Catalog :: "snapshot \<Rightarrow> network_inventory" where
  "Catalog s =
     \<lparr>ni_networks = go_sort network_less (catalog_networks s), ni_uplinks = uplinks s,
      ni_adapters = concat (map adaptersFromNNS (s_nns s)), ni_nmstate_present = s_nmstate_present s\<rparr>"

interpretation network_order: less_func network_less
  by (rule less_func_key[where key = "\<lambda>n. (nw_name n, nw_namespace n)"]) (auto simp: network_less_def less_prod_def')

section \<open>What a folded row says\<close>

text \<open>The rows of one physical network, in order.\<close>

definition rows_of :: "string \<Rightarrow> uplink list \<Rightarrow> uplink list" where
  "rows_of name ups = filter (\<lambda>u. up_name u = name) ups"

definition folded :: "uplink \<Rightarrow> uplink list \<Rightarrow> bool" where
  "folded m us = (us \<noteq> [] \<and> sorted (up_nodes m) \<and> distinct (up_nodes m) \<and>
     set (up_nodes m) = (\<Union>u \<in> set us. set (up_nodes u)) \<and> up_node_count m = length (up_nodes m) \<and>
     up_builtin m = up_builtin (hd us) \<and>
     up_policy m = (if \<forall>u \<in> set us. up_policy u = up_policy (hd us) then up_policy (hd us) else '''') \<and>
     up_bridge m = (case find (\<lambda>u. up_bridge u \<noteq> '''') us of None \<Rightarrow> '''' | Some u \<Rightarrow> up_bridge u))"

lemma folded_first: "folded (first_row u) [u]"
  by (simp add: folded_def first_row_def sortedSet_def)

lemma folded_fold: "folded m us \<Longrightarrow> folded (fold_row m u) (us @ [u])"
proof -
  assume m: "folded m us"
  then have ne: "us \<noteq> []" by (simp add: folded_def)
  have nodes: "set (up_nodes m) = (\<Union>u \<in> set us. set (up_nodes u))" using m by (simp add: folded_def)
  have pol: "up_policy m = (if \<forall>u \<in> set us. up_policy u = up_policy (hd us) then up_policy (hd us) else '''')"
    using m by (simp add: folded_def)
  have br: "up_bridge m = (case find (\<lambda>u. up_bridge u \<noteq> '''') us of None \<Rightarrow> '''' | Some u \<Rightarrow> up_bridge u)"
    using m by (simp add: folded_def)
  have pol': "up_policy (fold_row m u) =
      (if \<forall>u \<in> set (us @ [u]). up_policy u = up_policy (hd us) then up_policy (hd us) else '''')"
    by (auto simp: fold_row_def Let_def pol)
  have "find (\<lambda>u. up_bridge u \<noteq> '''') us = Some x \<Longrightarrow> up_bridge x \<noteq> ''''" for x by (auto simp: find_Some_iff)
  then have br': "up_bridge (fold_row m u) = (case find (\<lambda>u. up_bridge u \<noteq> '''') (us @ [u]) of None \<Rightarrow> '''' | Some u \<Rightarrow> up_bridge u)"
    by (auto simp: fold_row_def Let_def br find_append split: option.splits)
  have "up_builtin m = up_builtin (hd us)" using m by (simp add: folded_def)
  then have bu: "up_builtin (fold_row m u) = up_builtin (hd (us @ [u]))" using ne by (simp add: fold_row_def Let_def)
  have nodes': "sorted (up_nodes (fold_row m u))" "distinct (up_nodes (fold_row m u))"
    "set (up_nodes (fold_row m u)) = (\<Union>u \<in> set (us @ [u]). set (up_nodes u))"
    "up_node_count (fold_row m u) = length (up_nodes (fold_row m u))"
    by (simp_all add: fold_row_def Let_def sortedSet_def nodes Un_commute)
  have hd: "hd (us @ [u]) = hd us" using ne by simp
  show ?thesis unfolding folded_def hd using nodes' bu br' pol' hd by (intro conjI) simp_all
qed

lemma merge_into_names: "map up_name (merge_into ms u) = (if up_name u \<in> set (map up_name ms) then map up_name ms else map up_name ms @ [up_name u])"
  by (induction ms u rule: merge_into.induct) (auto simp: fold_row_def first_row_def Let_def)

lemma merge_into_rows:
  "m \<in> set (merge_into ms u) \<Longrightarrow> distinct (map up_name ms) \<Longrightarrow>
    (m \<in> set ms \<and> up_name m \<noteq> up_name u) \<or>
    (up_name m = up_name u \<and> (if up_name u \<in> set (map up_name ms) then \<exists>m' \<in> set ms. up_name m' = up_name u \<and> m = fold_row m' u else m = first_row u))"
proof (induction ms)
  case Nil
  then show ?case by (simp add: first_row_def)
next
  case (Cons x ms)
  have keep: "up_name (fold_row x u) = up_name x" by (simp add: fold_row_def Let_def)
  show ?case
  proof (cases "up_name x = up_name u")
    case True
    show ?thesis
    proof (cases "m = fold_row x u")
      case False
      with Cons.prems True have "m \<in> set ms" by simp
      moreover have "up_name m \<noteq> up_name u" using Cons.prems(2) True \<open>m \<in> set ms\<close> by (metis distinct.simps(2) imageI list.simps(9) set_map)
      ultimately show ?thesis by simp
    qed (use True keep in auto)
  next
    case False
    show ?thesis
    proof (cases "m = x")
      case True
      with False show ?thesis by simp
    next
      case neq: False
      with Cons.prems False have "m \<in> set (merge_into ms u)" "distinct (map up_name ms)" by simp_all
      from Cons.IH[OF this] False show ?thesis by (auto split: if_splits)
    qed
  qed
qed

lemma mergeUplinks_ok:
  "distinct (map up_name (mergeUplinks ups)) \<and> set (map up_name (mergeUplinks ups)) = set (map up_name ups) \<and>
   (\<forall>m \<in> set (mergeUplinks ups). folded m (rows_of (up_name m) ups))"
proof (induction ups rule: rev_induct)
  case Nil
  then show ?case by (simp add: mergeUplinks_def)
next
  case (snoc u ups)
  let ?ms = "mergeUplinks ups"
  have step: "mergeUplinks (ups @ [u]) = merge_into ?ms u" by (simp add: mergeUplinks_def)
  have names: "map up_name (merge_into ?ms u) = (if up_name u \<in> set (map up_name ?ms) then map up_name ?ms else map up_name ?ms @ [up_name u])"
    by (rule merge_into_names)
  have d: "distinct (map up_name ?ms)" and s: "set (map up_name ?ms) = set (map up_name ups)"
    and f: "\<And>m. m \<in> set ?ms \<Longrightarrow> folded m (rows_of (up_name m) ups)" using snoc by simp_all
  have rows: "folded m (rows_of (up_name m) (ups @ [u]))" if "m \<in> set (merge_into ?ms u)" for m
    using merge_into_rows[OF that d]
  proof (elim disjE conjE)
    assume "m \<in> set ?ms" "up_name m \<noteq> up_name u"
    with f[of m] show ?thesis by (simp add: rows_of_def)
  next
    assume n: "up_name m = up_name u" and m: "if up_name u \<in> set (map up_name ?ms)
      then \<exists>m' \<in> set ?ms. up_name m' = up_name u \<and> m = fold_row m' u else m = first_row u"
    show ?thesis
    proof (cases "up_name u \<in> set (map up_name ?ms)")
      case True
      with m obtain m' where m': "m' \<in> set ?ms" "up_name m' = up_name u" "m = fold_row m' u" by auto
      with folded_fold[OF f[OF m'(1)]] n show ?thesis by (simp add: rows_of_def)
    next
      case False
      with m have "m = first_row u" by simp
      moreover have "rows_of (up_name u) ups = []"
        unfolding rows_of_def filter_empty_conv using False s by (metis imageI set_map)
      ultimately have "rows_of (up_name u) ups = []" "m = first_row u" by simp_all
      with n folded_first[of u] show ?thesis by (simp add: rows_of_def)
    qed
  qed
  show ?case unfolding step using d s names rows by auto
qed

section \<open>Properties\<close>

definition declares_uplink :: "uplink_doc obj \<Rightarrow> string \<Rightarrow> bool" where
  "declares_uplink p name = (\<exists>b \<in> set (ud_bridge_mappings (o_doc p)). bm_state b \<noteq> ''absent'' \<and> bm_localnet b = name)"

lemma uplink_row_mem:
  "u \<in> set (uplink_rows s) \<longleftrightarrow> u = builtin_uplink s \<or> (\<exists>p \<in> set (s_nncp s). u \<in> set (uplinksFromNNCP s p))"
  by (auto simp: uplink_rows_def)

lemma nncp_row:
  "u \<in> set (uplinksFromNNCP s p) \<Longrightarrow> declares_uplink p (up_name u) \<and> up_policy u = o_name p \<and>
    up_nodes u = nodesMatching s (ud_node_selector (o_doc p))"
  by (auto simp: uplinksFromNNCP_def declares_uplink_def Let_def)

lemma nncp_row_ex: "declares_uplink p name \<Longrightarrow> \<exists>u \<in> set (uplinksFromNNCP s p). up_name u = name"
  by (force simp: uplinksFromNNCP_def declares_uplink_def Let_def)

lemma builtin_row [simp]:
  "up_name (builtin_uplink s) = ''br-ex''" "up_nodes (builtin_uplink s) = nodesMatching s []" "up_policy (builtin_uplink s) = ''''"
  by (simp_all add: builtin_uplink_def Let_def)

lemma nodesMatching_mem: "n \<in> set (nodesMatching s sel) \<longleftrightarrow> (\<exists>d \<in> set (s_nodes s). nl_name d = n \<and> matchesLabels (nl_labels d) sel)"
  by (auto simp: nodesMatching_def)

text \<open>One physical network is one uplink over exactly its nodes. The uplink list names each physical
  network once: \<open>br-ex\<close>, and every network some NNCP maps and does not mark absent. A row's nodes, sorted and
  counted, are the nodes carrying it, all of them for \<open>br-ex\<close> and otherwise those some declaring policy
  selects; and a row names a policy to act on only when that policy is the only one declaring it.\<close>
theorem uplinks_one_per_network:
  "distinct (map up_name (uplinks s)) \<and>
   set (map up_name (uplinks s)) = {''br-ex''} \<union> {name. \<exists>p \<in> set (s_nncp s). declares_uplink p name} \<and>
   (\<forall>m \<in> set (uplinks s).
      sorted (up_nodes m) \<and> distinct (up_nodes m) \<and> up_node_count m = length (up_nodes m) \<and>
      set (up_nodes m) = {nl_name d |d. d \<in> set (s_nodes s) \<and> (up_name m = ''br-ex'' \<or>
         (\<exists>p \<in> set (s_nncp s). declares_uplink p (up_name m) \<and> matchesLabels (nl_labels d) (ud_node_selector (o_doc p))))} \<and>
      (up_policy m \<noteq> '''' \<longrightarrow> up_name m \<noteq> ''br-ex'' \<and> (\<forall>p \<in> set (s_nncp s). declares_uplink p (up_name m) \<longrightarrow> o_name p = up_policy m)))"
proof -
  note ok = mergeUplinks_ok[of "uplink_rows s", folded uplinks_def]
  have names: "set (map up_name (uplink_rows s)) = {''br-ex''} \<union> {name. \<exists>p \<in> set (s_nncp s). declares_uplink p name}" (is "?L = ?R")
  proof
    show "?L \<subseteq> ?R" using nncp_row by (fastforce simp: uplink_row_mem)
    show "?R \<subseteq> ?L"
    proof
      fix name assume "name \<in> ?R"
      then consider "name = up_name (builtin_uplink s)" | p where "p \<in> set (s_nncp s)" "declares_uplink p name" by auto
      then have "\<exists>u \<in> set (uplink_rows s). up_name u = name"
        by cases (use uplink_row_mem nncp_row_ex in metis)+
      then show "name \<in> ?L" by auto
    qed
  qed
  have row: "sorted (up_nodes m) \<and> distinct (up_nodes m) \<and> up_node_count m = length (up_nodes m) \<and>
      set (up_nodes m) = {nl_name d |d. d \<in> set (s_nodes s) \<and> (up_name m = ''br-ex'' \<or>
         (\<exists>p \<in> set (s_nncp s). declares_uplink p (up_name m) \<and> matchesLabels (nl_labels d) (ud_node_selector (o_doc p))))} \<and>
      (up_policy m \<noteq> '''' \<longrightarrow> up_name m \<noteq> ''br-ex'' \<and> (\<forall>p \<in> set (s_nncp s). declares_uplink p (up_name m) \<longrightarrow> o_name p = up_policy m))"
    if "m \<in> set (uplinks s)" for m
  proof -
    let ?us = "rows_of (up_name m) (uplink_rows s)"
    have f: "folded m ?us" using ok that by blast
    have mem: "u \<in> set ?us \<longleftrightarrow> up_name u = up_name m \<and> (u = builtin_uplink s \<or> (\<exists>p \<in> set (s_nncp s). u \<in> set (uplinksFromNNCP s p)))" for u
      by (auto simp: rows_of_def uplink_row_mem)
    have "n \<in> (\<Union>u \<in> set ?us. set (up_nodes u)) \<longleftrightarrow> (\<exists>d. n = nl_name d \<and> d \<in> set (s_nodes s) \<and> (up_name m = ''br-ex'' \<or>
         (\<exists>p \<in> set (s_nncp s). declares_uplink p (up_name m) \<and> matchesLabels (nl_labels d) (ud_node_selector (o_doc p)))))" (is "?A \<longleftrightarrow> ?B") for n
    proof
      assume ?A
      then obtain u where u: "u \<in> set ?us" "n \<in> set (up_nodes u)" by blast
      then consider "u = builtin_uplink s" "up_name m = ''br-ex''" | p where "p \<in> set (s_nncp s)" "u \<in> set (uplinksFromNNCP s p)" "up_name u = up_name m"
        using mem by auto
      then show ?B
      proof cases
        case 1
        with u(2) show ?thesis by (auto simp: nodesMatching_mem)
      next
        case 2
        with nncp_row[OF 2(2)] u(2) show ?thesis by (auto simp: nodesMatching_mem)
      qed
    next
      assume ?B
      then obtain d where d: "n = nl_name d" "d \<in> set (s_nodes s)" and "up_name m = ''br-ex'' \<or>
         (\<exists>p \<in> set (s_nncp s). declares_uplink p (up_name m) \<and> matchesLabels (nl_labels d) (ud_node_selector (o_doc p)))" by blast
      then show ?A
      proof (elim disjE bexE conjE)
        assume "up_name m = ''br-ex''"
        then have "builtin_uplink s \<in> set ?us" by (subst mem) simp
        moreover have "n \<in> set (up_nodes (builtin_uplink s))" using d by (auto simp: nodesMatching_mem matchesLabels_def)
        ultimately show ?thesis by blast
      next
        fix p assume p: "p \<in> set (s_nncp s)" "declares_uplink p (up_name m)" "matchesLabels (nl_labels d) (ud_node_selector (o_doc p))"
        from nncp_row_ex[OF p(2)] obtain u where u: "u \<in> set (uplinksFromNNCP s p)" "up_name u = up_name m" by blast
        with p(1) have "u \<in> set ?us" by (auto simp: mem)
        moreover have "n \<in> set (up_nodes u)" using nncp_row[OF u(1)] d p(3) by (auto simp: nodesMatching_mem)
        ultimately show ?thesis by blast
      qed
    qed
    then have nodes: "set (up_nodes m) = {nl_name d |d. d \<in> set (s_nodes s) \<and> (up_name m = ''br-ex'' \<or>
         (\<exists>p \<in> set (s_nncp s). declares_uplink p (up_name m) \<and> matchesLabels (nl_labels d) (ud_node_selector (o_doc p))))}"
      using f unfolding folded_def by blast
    have pol: "up_policy m \<noteq> '''' \<Longrightarrow> u \<in> set ?us \<Longrightarrow> up_policy u = up_policy m" for u
    proof -
      assume ne: "up_policy m \<noteq> ''''" and u: "u \<in> set ?us"
      have p: "up_policy m = (if \<forall>u \<in> set ?us. up_policy u = up_policy (hd ?us) then up_policy (hd ?us) else '''')"
        using f unfolding folded_def by blast
      show "up_policy u = up_policy m"
      proof (cases "\<forall>u \<in> set ?us. up_policy u = up_policy (hd ?us)")
        case True
        with p u show ?thesis by metis
      next
        case False
        then have "up_policy m = ''''" using p by (simp only: if_False)
        with ne show ?thesis by simp
      qed
    qed
    have "up_policy m \<noteq> '''' \<Longrightarrow> up_name m \<noteq> ''br-ex''"
      using pol[of "builtin_uplink s"] mem[of "builtin_uplink s"] by fastforce
    moreover have "up_policy m \<noteq> '''' \<Longrightarrow> p \<in> set (s_nncp s) \<Longrightarrow> declares_uplink p (up_name m) \<Longrightarrow> o_name p = up_policy m" for p
    proof -
      assume a: "up_policy m \<noteq> ''''" "p \<in> set (s_nncp s)" "declares_uplink p (up_name m)"
      from nncp_row_ex[OF a(3)] obtain u where u: "u \<in> set (uplinksFromNNCP s p)" "up_name u = up_name m" by blast
      with a(2) have "u \<in> set ?us" by (auto simp: mem)
      from pol[OF a(1) this] nncp_row[OF u(1)] show ?thesis by simp
    qed
    ultimately show ?thesis using f nodes unfolding folded_def by blast
  qed
  show ?thesis using ok names row by (intro conjI) simp_all
qed

definition two_node_snapshot :: snapshot where
  "two_node_snapshot = \<lparr>s_udn = [], s_cudn = [], s_nad = [], s_nns = [],
     s_nncp = [\<lparr>o_name = ''p1'', o_namespace = '''', o_owners = [],
        o_doc = \<lparr>ud_node_selector = [(''k'', ''v'')], ud_interfaces = [],
          ud_bridge_mappings = [\<lparr>bm_localnet = ''phys'', bm_bridge = ''br-p'', bm_state = ''present''\<rparr>]\<rparr>\<rparr>],
     s_nmstate_present = True, s_netpol = [], s_anp = [], s_banp = [], s_egressfw = [], s_egressip = [], s_extroute = [],
     s_nodes = [\<lparr>nl_name = ''n2'', nl_labels = []\<rparr>, \<lparr>nl_name = ''n1'', nl_labels = [(''k'', ''v'')]\<rparr>]\<rparr>"

theorem uplinks_one_per_network_witness:
  "\<exists>m \<in> set (uplinks two_node_snapshot). up_name m = ''phys''"
proof -
  have "declares_uplink (hd (s_nncp two_node_snapshot)) ''phys''" "hd (s_nncp two_node_snapshot) \<in> set (s_nncp two_node_snapshot)"
    by (simp_all add: two_node_snapshot_def declares_uplink_def)
  then have "''phys'' \<in> set (map up_name (uplinks two_node_snapshot))"
    using conjunct1[OF conjunct2[OF uplinks_one_per_network[of two_node_snapshot]]] by blast
  then show ?thesis by auto
qed

end
