(* ===== verification/Manifest_Local.thy ===== *)
theory Manifest_Local
  imports Manifest_Edit
begin

text \<open>
  Where an edit may write. The region is the lines of the VM's own document; the node positions the YAML library
  reports for the VM lie inside it, and the line after it, if any, is a non-blank line at the left margin (the next
  document's separator). Every line edit stays inside the region, whatever is edited.
\<close>

text \<open>A node tree with its positions in the region, block mappings indented.\<close>

fun placed :: "nat \<Rightarrow> nat \<Rightarrow> ynode \<Rightarrow> bool" where
  "placed a b (YNode k v l c xs) =
     (int a \<le> l - 1 \<and> l - 1 < int b \<and> 1 \<le> c \<and> (k = MappingNode \<longrightarrow> 2 \<le> c) \<and> list_all (placed a b) xs)"

definition placed_opt :: "nat \<Rightarrow> nat \<Rightarrow> ynode option \<Rightarrow> bool" where
  "placed_opt a b n = (case n of None \<Rightarrow> True | Some x \<Rightarrow> placed a b x)"

definition below_placed :: "nat \<Rightarrow> nat \<Rightarrow> ynode \<Rightarrow> bool" where
  "below_placed a b n = list_all (placed a b) (yn_content n)"

lemma placed_line: "placed a b n \<Longrightarrow> int a \<le> yn_line n - 1 \<and> yn_line n - 1 < int b \<and> 1 \<le> yn_col n"
  by (cases n) auto

lemma placed_col: "placed a b n \<Longrightarrow> yn_kind n = MappingNode \<Longrightarrow> 2 \<le> yn_col n"
  by (cases n) auto

lemma placed_below: "placed a b n \<Longrightarrow> below_placed a b n"
  by (cases n) (simp add: below_placed_def)

lemma pairs_of_set: "(k, v) \<in> set (pairs_of xs) \<Longrightarrow> k \<in> set xs \<and> v \<in> set xs"
  by (induction xs rule: pairs_of.induct) auto

lemma find_member: "find P xs = Some x \<Longrightarrow> x \<in> set xs \<and> P x"
  by (induction xs) (auto split: if_splits)

lemma entry_of_placed:
  assumes "entry_of (Some m) key = Some (k, v)" "below_placed a b m"
  shows "placed a b k \<and> placed a b v"
proof -
  have "(k, v) \<in> set (pairs_of (yn_content m))" using assms(1) by (auto simp: entry_of_def dest: find_member split: if_splits)
  with assms(2) show ?thesis by (auto simp: below_placed_def list_all_iff dest!: pairs_of_set)
qed

lemma get_below [intro]: "below_placed a b m \<Longrightarrow> placed_opt a b (get (Some m) key)"
  by (auto simp: get_def placed_opt_def dest: entry_of_placed split: option.splits)

lemma get_placed [intro]: "placed_opt a b m \<Longrightarrow> placed_opt a b (get m key)"
proof (cases m)
  case None
  then show ?thesis by (simp add: get_def entry_of_def placed_opt_def)
next
  case (Some x)
  moreover assume "placed_opt a b m"
  ultimately show ?thesis using get_below[OF placed_below] by (simp add: placed_opt_def)
qed

lemma placed_opt_None [simp]: "placed_opt a b None"
  by (simp add: placed_opt_def)

lemma placed_opt_Some [simp]: "placed_opt a b (Some x) = placed a b x"
  by (simp add: placed_opt_def)

lemma findNamed_placed:
  assumes "findNamed sq name via = Some (i, it)" "placed_opt a b sq"
  shows "\<exists>x. sq = Some x \<and> yn_kind x = SequenceNode \<and> i < length (yn_content x) \<and> it = yn_content x ! i \<and> placed a b it"
proof -
  obtain x where x: "sq = Some x" "yn_kind x = SequenceNode" "(i, it) \<in> set (List.enumerate 0 (yn_content x))"
    using assms(1) by (auto simp: findNamed_def dest: find_member split: option.splits if_splits)
  then have "i < length (yn_content x)" "it = yn_content x ! i" by (auto simp: in_set_enumerate_eq)
  moreover have "placed a b it" using assms(2) x(1) calculation placed_below[of a b x] by (auto simp: below_placed_def list_all_length)
  ultimately show ?thesis using x by blast
qed

lemma namedItem_placed [intro]: "placed_opt a b sq \<Longrightarrow> placed_opt a b (namedItem sq name)"
  by (cases "findNamed sq name False") (auto simp: namedItem_def dest: findNamed_placed)

lemma templateNamed_placed [intro]: "placed_opt a b sq \<Longrightarrow> placed_opt a b (templateNamed sq name)"
  by (cases "findNamed sq name True") (auto simp: templateNamed_def dest: findNamed_placed)

section \<open>The region\<close>

definition margin_line :: "string \<Rightarrow> bool" where
  "margin_line l = (\<not> blank l \<and> indentOf l = 0)"

locale doc_region =
  fixes a b :: nat and L :: "string list"
  assumes region_end: "b = length L \<or> (b < length L \<and> margin_line (L ! b))"
begin

definition within :: "line_editor \<Rightarrow> bool" where
  "within ed = (length (le_lines ed) = length L \<and> take a (le_lines ed) = take a L \<and> drop b (le_lines ed) = drop b L \<and>
     list_all (\<lambda>x. int a \<le> in_after x \<and> in_after x < int b) (le_inserts ed) \<and>
     list_all (\<lambda>i. int a \<le> i \<and> i < int b) (le_deleted ed))"

lemma b_bound: "b \<le> length L"
  using region_end by auto

lemma within_end:
  assumes "within ed"
  shows "b = length (le_lines ed) \<or> (b < length (le_lines ed) \<and> margin_line (le_lines ed ! b))"
proof -
  have "le_lines ed ! b = L ! b" if "b < length L"
    using assms that by (metis within_def hd_drop_conv_nth)
  with region_end assms show ?thesis by (auto simp: within_def)
qed

lemma scan_block_bounds:
  assumes "found < j" "j + int n = int b" "n = length ls \<or> (n < length ls \<and> \<not> blank (ls ! n) \<and> ends (ls ! n))"
  shows "found \<le> scan_block ends ls j found \<and> scan_block ends ls j found < int b"
  using assms
proof (induction ends ls j found arbitrary: n rule: scan_block.induct)
  case (2 ends l ls j found)
  show ?case
  proof (cases n)
    case 0
    with 2 show ?thesis by auto
  next
    case (Suc m)
    with 2(4,5) have m: "j + 1 + int m = int b" "m = length ls \<or> (m < length ls \<and> \<not> blank (ls ! m) \<and> ends (ls ! m))" by auto
    show ?thesis
    proof (cases "blank l")
      case True
      with 2(1)[OF True _ m] 2(3) show ?thesis by auto
    next
      case False
      with 2(2)[OF False _ _ m] 2(3) m(1) show ?thesis by auto
    qed
  qed
qed auto

lemma scan_from:
  assumes w: "within ed" and s: "int a \<le> start" "start < int b" and ends: "\<And>l. margin_line l \<Longrightarrow> ends l"
  shows "start \<le> scan_block ends (drop (nat (start + 1)) (le_lines ed)) (start + 1) start \<and>
    scan_block ends (drop (nat (start + 1)) (le_lines ed)) (start + 1) start < int b"
proof (rule scan_block_bounds)
  let ?ls = "drop (nat (start + 1)) (le_lines ed)"
  have s0: "0 \<le> start" using s(1) by simp
  have n: "nat (int b - (start + 1)) = b - nat (start + 1)" "nat (start + 1) \<le> b" using s s0 by auto
  show "start + 1 + int (b - nat (start + 1)) = int b" using n s0 by auto
  from within_end[OF w] show "b - nat (start + 1) = length ?ls \<or> (b - nat (start + 1) < length ?ls \<and>
    \<not> blank (?ls ! (b - nat (start + 1))) \<and> ends (?ls ! (b - nat (start + 1))))"
  proof
    assume "b < length (le_lines ed) \<and> margin_line (le_lines ed ! b)"
    with n ends[of "le_lines ed ! b"] show ?thesis by (auto simp: margin_line_def)
  qed (use n in auto)
qed (use s in auto)

definition keeps :: "(line_editor \<Rightarrow> line_editor) \<Rightarrow> bool" where
  "keeps f = (\<forall>ed. within ed \<longrightarrow> within (f ed))"

lemma keepsI: "(\<And>ed. within ed \<Longrightarrow> within (f ed)) \<Longrightarrow> keeps f"
  by (simp add: keeps_def)

lemma keepsD: "keeps f \<Longrightarrow> within ed \<Longrightarrow> within (f ed)"
  by (simp add: keeps_def)

lemma within_panic [simp]: "within (le_panic ed) = within ed"
  by (simp add: within_def le_panic_def)

lemma within_delete: "within ed \<Longrightarrow> int a \<le> i \<Longrightarrow> i < int b \<Longrightarrow> within (markDeleted i ed)"
  by (simp add: within_def markDeleted_def)

lemma within_insert: "within ed \<Longrightarrow> int a \<le> i \<Longrightarrow> i < int b \<Longrightarrow>
    within (ed\<lparr>le_inserts := le_inserts ed @ [\<lparr>in_after = i, in_text = t\<rparr>]\<rparr>)"
  by (simp add: within_def)

lemma within_set: "within ed \<Longrightarrow> int a \<le> i \<Longrightarrow> i < int b \<Longrightarrow> within (ed\<lparr>le_lines := (le_lines ed)[nat i := x]\<rparr>)"
  using b_bound by (auto simp: within_def)

lemma within_range: "within ed \<Longrightarrow> int a \<le> i \<Longrightarrow> stop \<le> int b \<Longrightarrow> within (removeRange i stop ed)"
proof -
  have "list_all (\<lambda>x. int a \<le> x \<and> x < int b) xs \<Longrightarrow> within ed' \<Longrightarrow> within (fold markDeleted xs ed')" for xs ed'
    by (induction xs arbitrary: ed') (auto simp: within_delete)
  moreover assume "within ed" "int a \<le> i" "stop \<le> int b"
  ultimately show ?thesis by (auto simp: removeRange_def list_all_iff)
qed

lemma within_deleteChild: "placed_opt a b m \<Longrightarrow> within ed \<Longrightarrow> within (deleteChild m key ed)"
proof -
  assume m: "placed_opt a b m" and w: "within ed"
  show ?thesis
  proof (cases "entry_of m key")
    case None
    with w show ?thesis by (simp add: deleteChild_def)
  next
    case (Some kv)
    obtain k v where kv: "kv = (k, v)" by (cases kv)
    obtain x where x: "m = Some x" using Some by (cases m) (auto simp: entry_of_def)
    have "placed a b k" using Some m x entry_of_placed[OF _ placed_below, of x key k v] by (auto simp: kv)
    then have l: "int a \<le> yn_line k - 1" "yn_line k - 1 < int b" using placed_line by auto
    let ?ends = "\<lambda>q. indentOf q \<le> indentOf (line_at ed (yn_line k - 1))"
    have "scan_block ?ends (drop (nat (yn_line k - 1 + 1)) (le_lines ed)) (yn_line k - 1 + 1) (yn_line k - 1) < int b"
      using scan_from[OF w l, of ?ends] by (auto simp: margin_line_def indentOf_def)
    then show ?thesis using w l Some kv within_range[OF w l(1)]
      by (auto simp: deleteChild_def Let_def)
  qed
qed

lemma within_setScalarAt: "placed_opt a b n \<Longrightarrow> within ed \<Longrightarrow> within (setScalarAt n v ed)"
  using placed_line[of a b "the n"] by (auto simp: setScalarAt_def Let_def intro!: within_set split: option.splits)

lemma within_insertBlock: "placed_opt a b m \<Longrightarrow> within ed \<Longrightarrow> within (insertBlock m block ed)"
proof (cases m)
  case (Some x)
  assume m: "placed_opt a b m" and w: "within ed"
  with Some have l: "int a \<le> yn_line x - 1" "yn_line x - 1 < int b" "1 \<le> yn_col x" using placed_line by auto
  show ?thesis
  proof (cases "yn_kind x = MappingNode")
    case True
    with m Some have c: "2 \<le> yn_col x" using placed_col by simp
    have "yn_line x - 1 \<le> mappingLastLine x ed \<and> mappingLastLine x ed < int b"
      unfolding mappingLastLine_def Let_def using scan_from[OF w l(1,2), of "\<lambda>q. indentOf q < yn_col x - 1"] c by (auto simp: margin_line_def)
    then show ?thesis using Some w l within_insert[OF w, of "mappingLastLine x ed"] by (auto simp: insertBlock_def)
  qed (use Some w in \<open>simp add: insertBlock_def\<close>)
qed (simp add: insertBlock_def)

lemma within_insertChild: "placed_opt a b m \<Longrightarrow> within ed \<Longrightarrow> within (insertChild m k v ed)"
  by (simp add: insertChild_def within_insertBlock)

lemma itemEnd_bounds:
  assumes "itemEndLine sq i ed = Some stop" "placed a b sq" "i < length (yn_content sq)" "within ed"
  shows "stop \<le> int b \<and> (i + 1 = length (yn_content sq) \<longrightarrow> int a < stop)"
proof -
  have p: "placed a b (yn_content sq ! k)" if "k < length (yn_content sq)" for k
    using placed_below[OF assms(2)] that by (simp add: below_placed_def list_all_length)
  let ?s = "yn_line (yn_content sq ! i) - 1"
  have l: "int a \<le> ?s" "?s < int b" using placed_line[OF p[OF assms(3)]] by auto
  show ?thesis
  proof (cases "i + 1 < length (yn_content sq)")
    case True
    with assms(1) placed_line[OF p[OF True]] show ?thesis by (auto simp: itemEndLine_def Let_def split: if_splits)
  next
    case False
    let ?rest = "drop (nat (?s + 1)) (le_lines ed)"
    define ends where "ends q = (\<not> blank q \<and> indentOf q \<le> indentOf (line_at ed ?s))" for q
    have stop: "stop = (if list_ex ends ?rest then ?s + 1 + int (length (takeWhile (\<lambda>q. \<not> ends q) ?rest))
       else scan_block ends ?rest (?s + 1) ?s + 1)"
      using assms(1) False unfolding itemEndLine_def Let_def ends_def by (auto split: if_splits)
    have me: "margin_line q \<Longrightarrow> ends q" for q by (auto simp: ends_def margin_line_def indentOf_def)
    have sc: "?s \<le> scan_block ends ?rest (?s + 1) ?s" "scan_block ends ?rest (?s + 1) ?s < int b"
      using scan_from[OF assms(4) l, of ends] me by auto
    have tw: "?s + 1 + int (length (takeWhile (\<lambda>q. \<not> ends q) ?rest)) \<le> int b"
    proof -
      have n: "nat (?s + 1) \<le> b" using l by simp
      from within_end[OF assms(4)] have "length (takeWhile (\<lambda>q. \<not> ends q) ?rest) \<le> b - nat (?s + 1)"
      proof
        assume "b = length (le_lines ed)"
        then show ?thesis using length_takeWhile_le[of "\<lambda>q. \<not> ends q" ?rest] by simp
      next
        assume b: "b < length (le_lines ed) \<and> margin_line (le_lines ed ! b)"
        have "\<not> (\<lambda>q. \<not> ends q) (?rest ! (b - nat (?s + 1)))" using b n me by auto
        then show ?thesis using nth_length_takeWhile b n
          by (metis (no_types, lifting) leI nth_mem set_takeWhileD takeWhile_nth)
      qed
      with n show ?thesis using l by linarith
    qed
    show ?thesis using stop sc tw l by (auto split: if_splits)
  qed
qed

lemma within_appendItem: "placed_opt a b sq \<Longrightarrow> within ed \<Longrightarrow> within (appendItem sq t ed)"
proof (cases sq)
  case (Some x)
  assume sq: "placed_opt a b sq" and w: "within ed"
  show ?thesis
  proof (cases "yn_content x = []")
    case False
    have "itemEndLine x (length (yn_content x) - 1) ed = Some stop \<Longrightarrow> int a \<le> stop - 1 \<and> stop - 1 < int b" for stop
      using itemEnd_bounds[of x "length (yn_content x) - 1" ed stop] sq Some w False by auto
    then show ?thesis using Some w
      by (auto simp: appendItem_def Let_def intro!: within_insert split: option.splits)
  qed (use Some w in \<open>simp add: appendItem_def\<close>)
qed (simp add: appendItem_def)

lemma within_remove_found: "placed_opt a b sq \<Longrightarrow> within ed \<Longrightarrow> within (remove_found sq name via ed)"
proof -
  assume sq: "placed_opt a b sq" and w: "within ed"
  show ?thesis
  proof (cases "findNamed sq name via")
    case (Some p)
    obtain i it where p: "p = (i, it)" by (cases p)
    from findNamed_placed[OF Some[unfolded p] sq] obtain x where x: "sq = Some x" "i < length (yn_content x)" "placed a b it" by blast
    show ?thesis using Some p x w sq itemEnd_bounds[of x i ed] placed_line[OF x(3)] within_range[OF w]
      by (auto simp: remove_found_def split: option.splits)
  qed (use w in \<open>simp add: remove_found_def\<close>)
qed

lemma within_removeNamedItem: "placed_opt a b sq \<Longrightarrow> within ed \<Longrightarrow> within (removeNamedItem sq name ed)"
  by (simp add: removeNamedItem_def within_remove_found)

lemma within_removeTemplateNamed: "placed_opt a b sq \<Longrightarrow> within ed \<Longrightarrow> within (removeTemplateNamed sq name ed)"
  by (simp add: removeTemplateNamed_def within_remove_found)

lemmas within_ops = within_setScalarAt within_deleteChild within_insertBlock within_insertChild within_appendItem
  within_removeNamedItem within_removeTemplateNamed get_placed namedItem_placed templateNamed_placed

lemma within_fold: "(\<And>x ed. x \<in> set xs \<Longrightarrow> within ed \<Longrightarrow> within (f x ed)) \<Longrightarrow> within ed \<Longrightarrow> within (fold f xs ed)"
  by (induction xs arbitrary: ed) auto

lemma within_removeLine: "int a \<le> i \<Longrightarrow> i < int b \<Longrightarrow> within ed \<Longrightarrow> within (removeLine i ed)"
  by (simp add: removeLine_def within_delete)

lemma within_remove_key: "placed a b m \<Longrightarrow> within ed \<Longrightarrow> within (remove_key m k ed)"
proof -
  assume m: "placed a b m" and w: "within ed"
  have "placed_opt a b (get (Some m) k)" using m by auto
  then show ?thesis using w placed_line
    by (auto simp: remove_key_def split: option.splits intro!: within_removeLine)
qed

lemma within_set_key: "placed a b m \<Longrightarrow> within ed \<Longrightarrow> within (set_key m sm k ed)"
  unfolding set_key_def by (auto intro!: within_ops)

lemma mappingField_ok:
  assumes "placed_opt a b parent" "within ed" "mappingField parent fld ed = (m, ed1)"
  shows "within ed1 \<and> placed_opt a b m"
  using assms get_placed[OF assms(1), of fld] unfolding mappingField_def
  by (auto intro!: within_deleteChild split: option.splits if_splits)

lemma within_applyMapEdits: "placed_opt a b parent \<Longrightarrow> within ed \<Longrightarrow> within (applyMapEdits parent fld sm rm ed)"
proof -
  assume p: "placed_opt a b parent" and w: "within ed"
  obtain m ed1 where mf: "mappingField parent fld ed = (m, ed1)" by (cases "mappingField parent fld ed")
  note ok = mappingField_ok[OF p w mf]
  show ?thesis
  proof (cases m)
    case None
    with ok mf w p show ?thesis by (auto simp: applyMapEdits_def intro!: within_ops)
  next
    case (Some x)
    with ok mf w p show ?thesis
      by (auto simp: applyMapEdits_def intro!: within_fold within_remove_key within_set_key within_deleteChild)
  qed
qed

section \<open>Each part of an edit\<close>

lemma within_applyPower: "below_placed a b vm \<Longrightarrow> within ed \<Longrightarrow> within (applyPower vm p ed)"
  unfolding applyPower_def Let_def by (auto intro!: within_ops get_below)

lemma within_applyCPU: "below_placed a b vm \<Longrightarrow> within ed \<Longrightarrow> within (applyCPU vm n ed)"
  unfolding applyCPU_def domainNode_def templateSpecNode_def Let_def by (auto intro!: within_ops get_below)

lemma within_applyMemory: "below_placed a b vm \<Longrightarrow> within ed \<Longrightarrow> within (applyMemory vm m ed)"
  unfolding applyMemory_def domainNode_def templateSpecNode_def Let_def by (auto intro!: within_ops get_below)

lemma within_applyInline: "below_placed a b vm \<Longrightarrow> within ed \<Longrightarrow> within (applyInline vm e ed)"
  unfolding applyInline_def Let_def by (auto intro!: within_applyCPU within_applyMemory split: option.split)

lemma within_stripRef: "below_placed a b vm \<Longrightarrow> within ed \<Longrightarrow> within (stripRef vm k ed)"
  unfolding stripRef_def by (auto intro!: within_ops get_below)

lemma within_stripInline: "below_placed a b vm \<Longrightarrow> within ed \<Longrightarrow> within (stripInlineSizing vm ed)"
  unfolding stripInlineSizing_def domainNode_def templateSpecNode_def Let_def by (auto intro!: within_ops get_below)

lemma within_applyRef: "below_placed a b vm \<Longrightarrow> within ed \<Longrightarrow> within (applyRef vm k v ed)"
  unfolding applyRef_def Let_def by (auto intro!: within_ops get_below)

lemma within_applySizing: "below_placed a b vm \<Longrightarrow> within ed \<Longrightarrow> within (applySizing vm e ed)"
  unfolding applySizing_def Let_def
  by (auto intro!: within_applyInline within_stripRef within_stripInline within_applyRef split: option.split)

lemma within_applyEviction: "below_placed a b vm \<Longrightarrow> within ed \<Longrightarrow> within (applyEvictionStrategy vm s ed)"
  unfolding applyEvictionStrategy_def templateSpecNode_def Let_def by (auto intro!: within_ops get_below)

lemma within_applyMetadata: "below_placed a b vm \<Longrightarrow> within ed \<Longrightarrow> within (applyMetadata vm e ed)"
  unfolding applyMetadata_def by (auto intro!: within_applyMapEdits get_below)

lemma within_applyTemplateMeta: "below_placed a b vm \<Longrightarrow> within ed \<Longrightarrow> within (applyTemplateMeta vm ls lr e ed)"
proof -
  assume v: "below_placed a b vm" and w: "within ed"
  let ?tmpl = "get (get (Some vm) ''spec'') ''template''"
  have t: "placed_opt a b ?tmpl" using v by auto
  obtain m ed1 where mf: "mappingField ?tmpl ''metadata'' ed = (m, ed1)" by (cases "mappingField ?tmpl ''metadata'' ed")
  note ok = mappingField_ok[OF t w mf]
  show ?thesis unfolding applyTemplateMeta_def Let_def
    using ok mf w t by (auto intro!: within_applyMapEdits within_insertBlock split: prod.split option.split)
qed

lemma within_add_disk:
  assumes "placed_opt a b t" "placed_opt a b s" "placed_opt a b d" "within (fst st)"
  shows "within (fst (add_disk yl t s d n x st))"
  using assms unfolding add_disk_def Let_def by (auto intro!: within_ops split: prod.split)

lemma within_applyAddDisks:
  assumes "placed_opt a b spec" "placed_opt a b s" "placed_opt a b d" "within ed"
  shows "within (applyAddDisks yl spec s d n adds ed)"
proof -
  have one: "within (fst st) \<Longrightarrow> within (fst (add_disk yl (get spec ''dataVolumeTemplates'') s d n x st))" for x st
    by (rule within_add_disk[OF get_placed[OF assms(1)] assms(2,3)])
  have "within (fst st) \<Longrightarrow> within (fst (fold (add_disk yl (get spec ''dataVolumeTemplates'') s d n) adds st))" for st
    by (induction adds arbitrary: st) (simp_all add: one)
  from this[of "(ed, [])"] show ?thesis using assms unfolding applyAddDisks_def by (auto intro!: within_ops split: prod.split)
qed

lemma within_removeDisk: "placed_opt a b spec \<Longrightarrow> placed_opt a b s \<Longrightarrow> placed_opt a b d \<Longrightarrow> within ed \<Longrightarrow> within (removeDisk spec s d n ed)"
  unfolding removeDisk_def Let_def by (auto intro!: within_ops split: option.split)

lemma within_networks: "placed_opt a b s \<Longrightarrow> placed_opt a b d \<Longrightarrow> within ed \<Longrightarrow> within (add_network s d n ed) \<and> within (remove_network s d n ed)"
  unfolding add_network_def remove_network_def Let_def by (auto intro!: within_ops)

lemma within_applyDisksNetworks: "below_placed a b vm \<Longrightarrow> within ed \<Longrightarrow> within (applyDisksNetworks yl vm e ed)"
proof -
  assume v: "below_placed a b vm" and w: "within ed"
  have p: "placed_opt a b (get (Some vm) ''spec'')" "placed_opt a b (templateSpecNode vm)"
    "placed_opt a b (get (get (templateSpecNode vm) ''domain'') ''devices'')"
    using v by (auto simp: templateSpecNode_def intro!: get_placed get_below)
  show ?thesis unfolding applyDisksNetworks_def Let_def
    using p w by (auto intro!: within_fold within_applyAddDisks within_removeDisk within_networks[THEN conjunct1] within_networks[THEN conjunct2])
qed

lemma within_migrateOne:
  assumes "placed a b t" "placed a b v" "within ed"
  shows "within (snd (migrateOneVolume t v m ed))"
proof -
  let ?dv = "get (get (namedItem (Some v) (vo_name m)) ''dataVolume'') ''name''"
  let ?tm = "templateNamed (Some t) (nodeValue ?dv)"
  have p: "placed_opt a b ?dv" "placed_opt a b ?tm" using assms by (auto intro!: get_placed namedItem_placed templateNamed_placed)
  show ?thesis unfolding migrateOneVolume_def Let_def using p assms(3) by (auto intro!: within_ops)
qed

lemma within_applyVolumeMigrations: "below_placed a b vm \<Longrightarrow> within ed \<Longrightarrow> within (applyVolumeMigrations vm ms ed)"
proof -
  assume v: "below_placed a b vm" and w: "within ed"
  let ?t = "get (get (Some vm) ''spec'') ''dataVolumeTemplates''" and ?v = "get (templateSpecNode vm) ''volumes''"
  have p: "placed_opt a b (get (Some vm) ''spec'')" "placed_opt a b ?t" "placed_opt a b ?v" using v by (auto simp: templateSpecNode_def)
  have fw: "within (snd (fold (migrate_step t x) ms st))" if "placed a b t" "placed a b x" "within (snd st)" for t x st
    using that by (induction ms arbitrary: st) (auto simp: migrate_step_def intro: within_migrateOne[of _ _ "snd _", simplified] split: prod.split, metis within_migrateOne snd_conv)
  show ?thesis
  proof (cases ?t)
    case t: (Some t)
    show ?thesis
    proof (cases ?v)
      case x: (Some x)
      obtain ap ed1 where f: "fold (migrate_step t x) ms (False, ed) = (ap, ed1)" by (cases "fold (migrate_step t x) ms (False, ed)")
      then have "within ed1" using fw[of t x "(False, ed)"] p t x w by auto
      then show ?thesis unfolding applyVolumeMigrations_def Let_def using t x f w p(1) by (auto intro!: within_ops)
    qed (use w t in \<open>simp add: applyVolumeMigrations_def Let_def\<close>)
  qed (use w in \<open>simp add: applyVolumeMigrations_def Let_def\<close>)
qed

lemma within_scheduling: "below_placed a b vm \<Longrightarrow> within ed \<Longrightarrow> applySchedulingRules yl vm e ed = Inr (sm, ed1) \<Longrightarrow> within ed1"
proof -
  assume v: "below_placed a b vm" and w: "within ed" and r: "applySchedulingRules yl vm e ed = Inr (sm, ed1)"
  have p: "placed_opt a b (templateSpecNode vm)" using v by (auto simp: templateSpecNode_def)
  show ?thesis
    using r w p unfolding applySchedulingRules_def Let_def
    by (auto intro!: within_ops within_applyMapEdits split: prod.splits if_splits sum.splits)
qed

lemma within_head: "below_placed a b vm \<Longrightarrow> within ed \<Longrightarrow> within (edit_head vm e ed)"
  unfolding edit_head_def Let_def
  by (auto intro!: within_applyMetadata within_applyRef within_applySizing within_applyPower split: option.split)

lemma within_tail: "below_placed a b vm \<Longrightarrow> within ed \<Longrightarrow> within (edit_tail yl vm e sm ed)"
  unfolding edit_tail_def Let_def
  by (auto intro!: within_applyVolumeMigrations within_applyDisksNetworks within_applyEviction within_applyTemplateMeta split: option.split)

end

end
