(* ===== verification/Manifest_Props.thy ===== *)
theory Manifest_Props
  imports Manifest_Local
begin

text \<open>
  What a VM edit promises: it stays inside the VM's own document, it never leaves two sizings, and the name of a
  migrated volume is free.
\<close>

section \<open>Locality\<close>

text \<open>A file that ends with the VM is all region.\<close>

interpretation whole_file: doc_region 0 "length L" L for L
  by unfold_locales simp

lemma inserted_outside: "list_all (\<lambda>x. int a \<le> in_after x \<and> in_after x < int b) (le_inserts ed) \<Longrightarrow> i < int a \<or> int b \<le> i \<Longrightarrow> inserted_after ed i = []"
  by (auto simp: inserted_after_def filter_empty_conv list_all_iff)

lemma lines_upto: "m \<le> k \<Longrightarrow> k \<le> length (le_lines ed) \<Longrightarrow> map (line_at ed) [int m..int k - 1] = drop m (take k (le_lines ed))"
  by (rule nth_equalityI) (auto simp: line_at_def nat_add_distrib)

lemma upto_cut: "p \<le> q \<Longrightarrow> q \<le> r + 1 \<Longrightarrow> [p..r] = [p..q - 1] @ [q..r]"
  using upto_split1[of p q r] by (cases "q = r + 1") auto

lemma out_lines_region:
  assumes "length (le_lines ed) = length L" "take a (le_lines ed) = take a L" "drop b (le_lines ed) = drop b L"
    "list_all (\<lambda>x. int a \<le> in_after x \<and> in_after x < int b) (le_inserts ed)"
    "list_all (\<lambda>i. int a \<le> i \<and> i < int b) (le_deleted ed)" "a \<le> b" "b \<le> length L"
  shows "\<exists>mid. out_lines ed = take a L @ mid @ drop b L"
proof -
  let ?f = "\<lambda>i. (if i \<in> set (le_deleted ed) then [] else [line_at ed i]) @ inserted_after ed i"
  let ?n = "int (length (le_lines ed))"
  have split: "[0..?n - 1] = [0..int a - 1] @ [int a..int b - 1] @ [int b..?n - 1]"
    using assms(1,6,7) upto_cut[of 0 "int a" "?n - 1"] upto_cut[of "int a" "int b" "?n - 1"] by simp
  have out: "concat (map ?f [p..q]) = map (line_at ed) [p..q]" if "q < int a \<or> int b \<le> p" for p q
  proof -
    have "?f i = [line_at ed i]" if "i \<in> set [p..q]" for i
      using that \<open>q < int a \<or> int b \<le> p\<close> assms(5) inserted_outside[OF assms(4), of i] by (auto simp: list_all_iff)
    then have "map ?f [p..q] = map (\<lambda>i. [line_at ed i]) [p..q]" by simp
    then show ?thesis by (simp del: map_eq_conv)
  qed
  have "out_lines ed = map (line_at ed) [0..int a - 1] @ concat (map ?f [int a..int b - 1]) @ map (line_at ed) [int b..?n - 1]"
    unfolding out_lines_def split using out[of "int a - 1" 0] out[of "?n - 1" "int b"] by simp
  moreover have "map (line_at ed) [0..int a - 1] = take a L"
    using lines_upto[of 0 a ed] assms(1,2,6,7) by simp
  moreover have "map (line_at ed) [int b..?n - 1] = drop b L"
    using lines_upto[of b "length (le_lines ed)" ed] assms(1,3,7) by simp
  ultimately show ?thesis by auto
qed

text \<open>C28: Editing a VM never touches another document of the file. The lines before the VM's document and the
  lines after it come out byte for byte as they were, whatever fields are edited and whatever text they hold: only
  the lines between are rewritten, deleted or added to.\<close>
theorem edit_stays_in_document:
  assumes target: "findVM (yl_nodes yl content) ns name = Inr vm" and nodes: "below_placed a b vm"
    and L: "L = split_on (CHR 0x0A) content" and ab: "a \<le> b"
    and stop: "b = length L \<or> (b < length L \<and> margin_line (L ! b))"
    and edit: "ApplyEdit yl content ns name e = Inr out"
  shows "\<exists>mid. out = join_with (take a L @ mid @ drop b L) [CHR 0x0A]"
proof -
  have reg: "doc_region b L" using stop by unfold_locales auto
  obtain ed0 where ed0: "newLineEditor content = Some ed0" using edit target by (cases "newLineEditor content") (auto simp: ApplyEdit_def)
  have w0: "doc_region.within a b L ed0"
    unfolding doc_region.within_def[OF reg] using ed0 L by (auto simp: newLineEditor_def split: if_splits)
  let ?ed1 = "edit_head vm e ed0"
  from edit target ed0 obtain sm ed2 where sched: "applySchedulingRules yl vm e ?ed1 = Inr (sm, ed2)" and
      out: "out = editor_bytes (edit_tail yl vm e sm ed2)"
    by (auto simp: ApplyEdit_def Let_def split: if_splits sum.splits)
  have "doc_region.within a b L (edit_tail yl vm e sm ed2)"
    by (rule doc_region.within_tail[OF reg nodes doc_region.within_scheduling[OF reg nodes doc_region.within_head[OF reg nodes w0] sched]])
  then obtain mid where "out_lines (edit_tail yl vm e sm ed2) = take a L @ mid @ drop b L"
    using out_lines_region[of "edit_tail yl vm e sm ed2" L a b] ab stop by (auto simp: doc_region.within_def[OF reg])
  with out show ?thesis by (auto simp: editor_bytes_def)
qed


section \<open>Sizing\<close>

lemma set_same [simp]: "le_inserts (setScalarAt n v ed) = le_inserts ed" "le_deleted (setScalarAt n v ed) = le_deleted ed"
  "length (le_lines (setScalarAt n v ed)) = length (le_lines ed)"
  by (auto simp: setScalarAt_def le_panic_def Let_def split: option.split)

lemma fold_mark: "le_inserts (fold markDeleted xs ed) = le_inserts ed \<and> le_lines (fold markDeleted xs ed) = le_lines ed \<and>
    set (le_deleted (fold markDeleted xs ed)) = set xs \<union> set (le_deleted ed)"
  by (induction xs arbitrary: ed) (auto simp: markDeleted_def)

lemma range_same [simp]: "le_inserts (removeRange i j ed) = le_inserts ed" "le_lines (removeRange i j ed) = le_lines ed"
  "set (le_deleted (removeRange i j ed)) = {k. i \<le> k \<and> k < j \<and> line_ok ed k} \<union> set (le_deleted ed)"
  by (auto simp: removeRange_def fold_mark)

lemma delete_same [simp]: "le_inserts (deleteChild m k ed) = le_inserts ed" "le_lines (deleteChild m k ed) = le_lines ed"
  by (auto simp: deleteChild_def Let_def split: option.split prod.split)

lemma delete_grows: "set (le_deleted ed) \<subseteq> set (le_deleted (deleteChild m k ed))"
  by (auto simp: deleteChild_def Let_def split: option.split prod.split)

lemma scan_ge: "found < j \<Longrightarrow> found \<le> scan_block ends ls j found"
  by (induction ends ls j found rule: scan_block.induct) auto

lemma delete_marks:
  "entry_of m key = Some (k, v) \<Longrightarrow> line_ok ed (yn_line k - 1) \<Longrightarrow> yn_line k - 1 \<in> set (le_deleted (deleteChild m key ed))"
  using scan_ge[of "yn_line k - 1" "yn_line k"] by (auto simp: deleteChild_def Let_def)

lemma insert_same [simp]: "le_deleted (insertBlock m t ed) = le_deleted ed" "le_lines (insertBlock m t ed) = le_lines ed"
  by (auto simp: insertBlock_def le_panic_def split: option.split)

lemma insert_text: "set (map in_text (le_inserts (insertBlock m t ed))) \<subseteq> set (map in_text (le_inserts ed)) \<union> {pad_lines n t | n. True}"
  by (auto simp: insertBlock_def le_panic_def split: option.split)

text \<open>What an inserted block declares: its first line without the padding.\<close>

definition block_head :: "string list \<Rightarrow> string" where
  "block_head t = (case t of [] \<Rightarrow> '''' | l # _ \<Rightarrow> dropWhile (\<lambda>c. c = CHR '' '') l)"

definition heads :: "line_editor \<Rightarrow> string list" where
  "heads ed = map (block_head \<circ> in_text) (le_inserts ed)"

lemma block_head_pad: "l \<noteq> '''' \<Longrightarrow> hd l \<noteq> CHR '' '' \<Longrightarrow> block_head (pad_lines n (l # ls)) = l"
  by (cases l) (simp_all add: block_head_def pad_lines_def dropWhile_append3)

lemma heads_same [simp]: "heads (setScalarAt n v ed) = heads ed" "heads (deleteChild m k ed) = heads ed"
  by (simp_all add: heads_def)

lemma heads_insert: "l \<noteq> '''' \<Longrightarrow> hd l \<noteq> CHR '' '' \<Longrightarrow> set (heads (insertBlock m (l # ls) ed)) \<subseteq> insert l (set (heads ed))"
  by (auto simp: insertBlock_def le_panic_def heads_def block_head_pad split: option.split)

lemma heads_child: "k \<noteq> '''' \<Longrightarrow> hd k \<noteq> CHR '' '' \<Longrightarrow> set (heads (insertChild m k v ed)) \<subseteq> insert (k @ '': '' @ v) (set (heads ed))"
  unfolding insertChild_def by (rule heads_insert) auto

lemma heads_insertD:
  "h \<in> set (heads (insertBlock m (''cpu:'' # ls) ed)) \<Longrightarrow> h = ''cpu:'' \<or> h \<in> set (heads ed)"
  "h \<in> set (heads (insertBlock m (''memory:'' # ls) ed)) \<Longrightarrow> h = ''memory:'' \<or> h \<in> set (heads ed)"
  "h \<in> set (heads (insertBlock m (''instancetype:'' # ls) ed)) \<Longrightarrow> h = ''instancetype:'' \<or> h \<in> set (heads ed)"
  "h \<in> set (heads (insertChild m ''sockets'' v ed)) \<Longrightarrow> h = ''sockets: '' @ v \<or> h \<in> set (heads ed)"
  "h \<in> set (heads (insertChild m ''guest'' v ed)) \<Longrightarrow> h = ''guest: '' @ v \<or> h \<in> set (heads ed)"
  "h \<in> set (heads (insertChild m ''name'' v ed)) \<Longrightarrow> h = ''name: '' @ v \<or> h \<in> set (heads ed)"
  using heads_insert[of "''cpu:''" m ls ed] heads_insert[of "''memory:''" m ls ed] heads_insert[of "''instancetype:''" m ls ed]
    heads_child[of "''sockets''" m v ed] heads_child[of "''guest''" m v ed] heads_child[of "''name''" m v ed]
  by auto

lemma heads_inline: "h \<in> set (heads (applyInline vm e ed)) \<Longrightarrow> hd h \<noteq> CHR ''i'' \<or> h \<in> set (heads ed)"
proof -
  have cpu: "h \<in> set (heads (applyCPU vm n ed)) \<Longrightarrow> hd h \<noteq> CHR ''i'' \<or> h \<in> set (heads ed)" for n ed
    unfolding applyCPU_def Let_def by (auto dest: heads_insertD split: if_splits)
  have mem: "h \<in> set (heads (applyMemory vm m ed)) \<Longrightarrow> hd h \<noteq> CHR ''i'' \<or> h \<in> set (heads ed)" for m ed
    unfolding applyMemory_def Let_def by (auto dest: heads_insertD split: if_splits)
  show "h \<in> set (heads (applyInline vm e ed)) \<Longrightarrow> hd h \<noteq> CHR ''i'' \<or> h \<in> set (heads ed)"
    unfolding applyInline_def Let_def by (auto split: option.splits dest: cpu mem)
qed

lemma heads_ref: "h \<in> set (heads (applyRef vm ''instancetype'' it ed)) \<Longrightarrow> h = ''instancetype:'' \<or> hd h = CHR ''n'' \<or> h \<in> set (heads ed)"
  unfolding applyRef_def Let_def by (auto dest: heads_insertD split: if_splits)


lemma grows_inline: "set (le_deleted ed) \<subseteq> set (le_deleted (applyInline vm e ed))"
proof -
  have cpu: "set (le_deleted ed) \<subseteq> set (le_deleted (applyCPU vm n ed))" for n ed
    unfolding applyCPU_def insertChild_def Let_def by (auto dest: subsetD[OF delete_grows])
  have mem: "set (le_deleted ed) \<subseteq> set (le_deleted (applyMemory vm m ed))" for m ed
    unfolding applyMemory_def insertChild_def Let_def by auto
  show ?thesis unfolding applyInline_def Let_def using cpu mem by (auto split: option.split dest!: subsetD)
qed

lemma ref_lines [simp]: "length (le_lines (applyRef vm k v ed)) = length (le_lines ed)"
  by (auto simp: applyRef_def insertChild_def Let_def)

definition key_left :: "ynode option \<Rightarrow> string \<Rightarrow> line_editor \<Rightarrow> bool" where
  "key_left m key ed = (case entry_of m key of None \<Rightarrow> False | Some (k, v) \<Rightarrow> yn_line k - 1 \<notin> set (le_deleted ed))"

definition requestsNode :: "ynode \<Rightarrow> ynode option" where
  "requestsNode vm = get (get (domainNode vm) ''resources'') ''requests''"

text \<open>A representation is left when its key's line survives or a new block declares it.\<close>

definition instancetype_left :: "ynode \<Rightarrow> line_editor \<Rightarrow> bool" where
  "instancetype_left vm ed = (key_left (get (Some vm) ''spec'') ''instancetype'' ed \<or> ''instancetype:'' \<in> set (heads ed))"

definition inline_left :: "ynode \<Rightarrow> line_editor \<Rightarrow> bool" where
  "inline_left vm ed = (key_left (domainNode vm) ''cpu'' ed \<or> key_left (domainNode vm) ''memory'' ed \<or>
     key_left (requestsNode vm) ''cpu'' ed \<or> key_left (requestsNode vm) ''memory'' ed \<or>
     ''cpu:'' \<in> set (heads ed) \<or> ''memory:'' \<in> set (heads ed))"

lemma key_deleted:
  assumes "placed_opt 0 (length (le_lines ed)) m"
  shows "\<not> key_left m key (deleteChild m key ed)"
proof (cases "entry_of m key")
  case (Some p)
  obtain k v x where p: "p = (k, v)" "m = Some x" using Some by (cases p; cases m) (auto simp: entry_of_def)
  then have "placed 0 (length (le_lines ed)) k" using Some assms entry_of_placed[OF _ placed_below, of x key k v] by auto
  then have "line_ok ed (yn_line k - 1)" using placed_line[of 0 "length (le_lines ed)" k] by (auto simp: line_ok_def)
  from delete_marks[OF Some[unfolded p(1)] this] Some p show ?thesis by (simp add: key_left_def)
qed (simp add: key_left_def)

lemma key_left_mono: "set (le_deleted ed) \<subseteq> set (le_deleted ed') \<Longrightarrow> key_left m key ed' \<Longrightarrow> key_left m key ed"
  by (auto simp: key_left_def split: option.splits)

lemma strip_inline_left:
  assumes "below_placed 0 (length (le_lines ed)) vm"
  shows "inline_left vm (stripInlineSizing vm ed) \<longleftrightarrow> ''cpu:'' \<in> set (heads ed) \<or> ''memory:'' \<in> set (heads ed)"
proof (cases "domainNode vm = None")
  case True
  then show ?thesis by (simp add: inline_left_def stripInlineSizing_def key_left_def requestsNode_def entry_of_def get_def)
next
  case False
  have d: "placed_opt 0 (length (le_lines ed)) (domainNode vm)" "placed_opt 0 (length (le_lines ed)) (requestsNode vm)"
    using assms by (auto simp: domainNode_def templateSpecNode_def requestsNode_def intro!: get_placed get_below)
  let ?e1 = "deleteChild (domainNode vm) ''cpu'' ed" and ?e2 = "deleteChild (domainNode vm) ''memory'' (deleteChild (domainNode vm) ''cpu'' ed)"
  let ?e3 = "deleteChild (requestsNode vm) ''cpu'' ?e2" and ?e4 = "deleteChild (requestsNode vm) ''memory'' (deleteChild (requestsNode vm) ''cpu'' ?e2)"
  have none: "requestsNode vm = None \<Longrightarrow> deleteChild (requestsNode vm) k x = x" for k x by (simp add: deleteChild_def entry_of_def)
  have e: "stripInlineSizing vm ed = ?e4"
    using False none by (auto simp: stripInlineSizing_def requestsNode_def[symmetric] Let_def)
  have k: "\<not> key_left (domainNode vm) ''cpu'' ?e1" "\<not> key_left (domainNode vm) ''memory'' ?e2"
    "\<not> key_left (requestsNode vm) ''cpu'' ?e3" "\<not> key_left (requestsNode vm) ''memory'' ?e4"
    by (rule key_deleted, simp add: d)+
  have g: "set (le_deleted ?e1) \<subseteq> set (le_deleted ?e4)" "set (le_deleted ?e2) \<subseteq> set (le_deleted ?e4)" "set (le_deleted ?e3) \<subseteq> set (le_deleted ?e4)"
    using delete_grows by (blast)+
  have "\<not> key_left (domainNode vm) ''cpu'' ?e4" "\<not> key_left (domainNode vm) ''memory'' ?e4" "\<not> key_left (requestsNode vm) ''cpu'' ?e4"
    using k(1-3) key_left_mono[OF g(1)] key_left_mono[OF g(2)] key_left_mono[OF g(3)] by blast+
  with k(4) show ?thesis unfolding e inline_left_def by simp
qed

text \<open>A sizing edit never leaves a VM with two sizings. Starting from an unedited file whose node positions are
  in range, after \<open>applySizing\<close> either no \<open>spec.instancetype\<close> is left (kept or written), or neither inline
  \<open>cpu\<close> nor \<open>memory\<close> is (in \<open>domain\<close> or in its resource requests), whatever the file declared before and in
  every sizing mode; the instance type to set, if any, has a name.\<close>
theorem sizing_exclusive:
  assumes fresh: "le_inserts ed = []" and pos: "below_placed 0 (length (le_lines ed)) vm" and it: "ve_instancetype e \<noteq> Some ''''"
  shows "\<not> (instancetype_left vm (applySizing vm e ed) \<and> inline_left vm (applySizing vm e ed))"
proof -
  let ?ref = "case ve_instancetype e of None \<Rightarrow> ed | Some it \<Rightarrow> applyRef vm ''instancetype'' it ed"
  have h0: "heads ed = []" using fresh by (simp add: heads_def)
  have len: "length (le_lines ?ref) = length (le_lines ed)" by (auto split: option.split)
  have hr: "h \<in> set (heads ?ref) \<Longrightarrow> h = ''instancetype:'' \<or> hd h = CHR ''n''" for h
    using heads_ref[of h vm _ ed] h0 by (auto split: option.splits)
  have strip: "\<not> inline_left vm (stripInlineSizing vm ?ref)"
    using strip_inline_left[of ?ref vm] pos len hr[of "''cpu:''"] hr[of "''memory:''"] by auto
  have hi: "''instancetype:'' \<notin> set (heads (applyInline vm e x))" if "heads x = []" for x
    using heads_inline[of "''instancetype:''" vm e x] that by auto
  have "\<not> key_left (get (Some vm) ''spec'') ''instancetype'' (stripRef vm ''instancetype'' ed)"
    unfolding stripRef_def by (rule key_deleted) (use pos in auto)
  then have custom: "\<not> instancetype_left vm (applyInline vm e (stripRef vm ''instancetype'' ed))"
    using hi[of "stripRef vm ''instancetype'' ed"] h0 key_left_mono[OF grows_inline] by (auto simp: instancetype_left_def stripRef_def)
  have plain: "\<not> instancetype_left vm (applyInline vm e ?ref)"
    if "get (get (Some vm) ''spec'') ''instancetype'' = None" "ve_instancetype e = None"
    using that hi[of ed] h0 by (auto simp: instancetype_left_def key_left_def get_def)
  show ?thesis using strip custom plain it by (auto simp: applySizing_def Let_def split: if_splits)
qed

section \<open>The name of a migrated volume\<close>

lemma mig_name_inj: "mig_name base m = mig_name base n \<longleftrightarrow> m = n"
  by (auto simp: mig_name_def dest: nat_to_dec_inj)

text \<open>C29: The search for a migrated volume's name ends, with the first \<open>-mig-N\<close> on the stripped base name that
  neither the old volume nor any template of the VM has: a repeated migration changes the number and never piles up
  suffixes.\<close>
theorem next_dv_name_free:
  "\<exists>n. nextDVName old templates = Some (mig_name (strip_mig old) n) \<and> 1 \<le> n \<and>
     mig_name (strip_mig old) n \<notin> set (taken_names old templates) \<and>
     (\<forall>m. 1 \<le> m \<and> m < n \<longrightarrow> mig_name (strip_mig old) m \<in> set (taken_names old templates))"
proof -
  let ?t = "taken_names old templates" and ?b = "strip_mig old"
  let ?P = "\<lambda>n. mig_name ?b n \<notin> set ?t"
  have "\<exists>n\<in>set [1..<length ?t + 2]. ?P n"
  proof (rule ccontr)
    assume "\<not> ?thesis"
    then have "mig_name ?b ` {1..<length ?t + 2} \<subseteq> set ?t" by (auto simp del: upt_Suc)
    then have "card (mig_name ?b ` {1..<length ?t + 2}) \<le> length ?t"
      using card_mono[OF finite_set, of _ ?t] card_length[of ?t] by (meson le_trans)
    moreover have "card (mig_name ?b ` {1..<length ?t + 2}) = length ?t + 1"
      by (subst card_image) (auto simp: inj_on_def mig_name_inj)
    ultimately show False by simp
  qed
  then obtain n where n: "find ?P [1..<length ?t + 2] = Some n" by (metis find_None_iff not_None_eq)
  then obtain i where i: "i < length [1..<length ?t + 2]" "?P ([1..<length ?t + 2] ! i)" "n = [1..<length ?t + 2] ! i"
      "\<forall>j<i. \<not> ?P ([1..<length ?t + 2] ! j)"
    by (auto simp: find_Some_iff)
  then have "n = 1 + i" by (simp del: upt_Suc)
  moreover have "\<forall>m. 1 \<le> m \<and> m < n \<longrightarrow> \<not> ?P m"
  proof (intro allI impI)
    fix m assume "1 \<le> m \<and> m < n"
    with i(1,4) calculation show "\<not> ?P m" by (auto dest!: spec[of _ "m - 1"] simp del: upt_Suc)
  qed
  ultimately show ?thesis using n i(2,3) by (auto simp: nextDVName_def first_free_def)
qed


section \<open>A concrete file\<close>

definition sc :: "string \<Rightarrow> int \<Rightarrow> int \<Rightarrow> ynode" where
  "sc v l c = YNode ScalarNode v l c []"

definition sample_vm :: ynode where
  "sample_vm = YNode MappingNode '''' 1 1
     [sc ''kind'' 1 1, sc ''VirtualMachine'' 1 7,
      sc ''metadata'' 2 1, YNode MappingNode '''' 3 3 [sc ''name'' 3 3, sc ''web'' 3 9],
      sc ''spec'' 4 1, YNode MappingNode '''' 5 3 [sc ''running'' 5 3, sc ''true'' 5 12]]"

definition sample_file :: string where
  "sample_file = join_with [''kind: VirtualMachine'', ''metadata:'', ''  name: web'', ''spec:'', ''  running: true # on'', ''---'', ''kind: Other''] [CHR 0x0A]"

definition sample_yaml :: yaml_lib where
  "sample_yaml = \<lparr>yl_nodes = (\<lambda>_. ([YNode DocumentNode '''' 1 1 [sample_vm]], False)), yl_docs = (\<lambda>_. ([], False)),
     yl_affinity = (\<lambda>_. None), yl_map = (\<lambda>_. None), yl_encode = (\<lambda>_. '''')\<rparr>"

definition sample_edit :: vm_edit where
  "sample_edit = empty_edit\<lparr>ve_power := Some ''Off'', ve_set_labels := [(''tier'', ''db'')]\<rparr>"

definition edited_file :: string where
  "edited_file = join_with [''kind: VirtualMachine'', ''metadata:'', ''  name: web'', ''  labels:'', ''    tier: db'', ''spec:'',
     ''  running: false # on'', ''---'', ''kind: Other''] [CHR 0x0A]"

lemma sample_edit_runs: "ApplyEdit sample_yaml sample_file ''x'' ''web'' sample_edit = Inr edited_file"
  by code_simp

lemma sample_target: "findVM (yl_nodes sample_yaml sample_file) ''x'' ''web'' = Inr sample_vm"
  by code_simp

lemma sample_placed: "below_placed 0 5 sample_vm"
  by code_simp

lemma sample_stop: "(5 :: nat) = length (split_on (CHR 0x0A) sample_file) \<or>
   5 < length (split_on (CHR 0x0A) sample_file) \<and> margin_line (split_on (CHR 0x0A) sample_file ! 5)"
  by code_simp

theorem edit_stays_in_document_witness:
  "\<exists>mid. edited_file = join_with (take 0 (split_on (CHR 0x0A) sample_file) @ mid @ drop 5 (split_on (CHR 0x0A) sample_file)) [CHR 0x0A]"
  by (rule edit_stays_in_document[OF sample_target sample_placed refl _ sample_stop sample_edit_runs]) simp

definition sized_vm :: ynode where
  "sized_vm = YNode MappingNode '''' 1 1
     [sc ''spec'' 1 1, YNode MappingNode '''' 2 3
       [sc ''instancetype'' 2 3, YNode MappingNode '''' 3 5 [sc ''name'' 3 5, sc ''u1'' 3 11],
        sc ''template'' 4 3, YNode MappingNode '''' 5 5 [sc ''spec'' 5 5, YNode MappingNode '''' 6 7
          [sc ''domain'' 6 7, YNode MappingNode '''' 7 9 [sc ''memory'' 7 9, YNode MappingNode '''' 8 11 [sc ''guest'' 8 11, sc ''4Gi'' 8 18]]]]]]"

definition sized_editor :: line_editor where
  "sized_editor = \<lparr>le_lines = [''spec:'', ''  instancetype:'', ''    name: u1'', ''  template:'', ''    spec:'', ''      domain:'',
     ''        memory:'', ''          guest: 4Gi''], le_inserts = [], le_deleted = [], le_panicked = False\<rparr>"

lemma sized_placed: "below_placed 0 (length (le_lines sized_editor)) sized_vm"
  by code_simp

theorem sizing_exclusive_witness:
  "\<not> (instancetype_left sized_vm (applySizing sized_vm (empty_edit\<lparr>ve_cpu_cores := Some 4\<rparr>) sized_editor) \<and>
      inline_left sized_vm (applySizing sized_vm (empty_edit\<lparr>ve_cpu_cores := Some 4\<rparr>) sized_editor)) \<and>
   instancetype_left sized_vm sized_editor \<and> inline_left sized_vm sized_editor"
proof
  show "\<not> (instancetype_left sized_vm (applySizing sized_vm (empty_edit\<lparr>ve_cpu_cores := Some 4\<rparr>) sized_editor) \<and>
      inline_left sized_vm (applySizing sized_vm (empty_edit\<lparr>ve_cpu_cores := Some 4\<rparr>) sized_editor))"
    by (rule sizing_exclusive[OF _ sized_placed]) (simp_all add: sized_editor_def empty_edit_def)
  show "instancetype_left sized_vm sized_editor \<and> inline_left sized_vm sized_editor" by code_simp
qed

theorem next_dv_name_free_witness:
  "nextDVName ''d-mig-1'' sized_vm = Some ''d-mig-2'' \<and> (\<exists>n. nextDVName ''d-mig-1'' sized_vm = Some (mig_name (strip_mig ''d-mig-1'') n) \<and> 1 \<le> n)"
proof
  show "nextDVName ''d-mig-1'' sized_vm = Some ''d-mig-2''" by code_simp
  show "\<exists>n. nextDVName ''d-mig-1'' sized_vm = Some (mig_name (strip_mig ''d-mig-1'') n) \<and> 1 \<le> n"
    using next_dv_name_free[of "''d-mig-1''" sized_vm] by blast
qed

end
