(* ===== verification/Spec2Isabelle.thy ===== *)
theory Spec2Isabelle
  imports Proposals_Lane Auth_Session Inventory_Build Cluster_Adopt Forge_Client Changeset_View Changeset_Limits Changeset_Review Netstate_Props Stream_Props Api_Props Tasks_Feed Watch_Props Netstate_Catalog Draft_Props
    Manifest_Props Manifest_Semantic Netgen_Props Netgen_Namespace
begin

text \<open>
  \<^bold>\<open>dotvirt, modelled and verified.\<close>

  dotvirt is a GitOps front end for KubeVirt: a user edits virtual machines and networks in a browser, the backend
  turns every edit into a change of a git manifest in the tenant's repository, and Argo CD applies what is merged.
  The backend (under \<open>internal/\<close>) reads the cluster through watches, resolves which tenant (project) a caller may
  see and author, keeps the caller's pending changes in a draft, edits manifests line by line, and streams one
  inventory per caller. The theories follow those packages; a definition has the name of the function it
  translates.

  \<^bold>\<open>How the program is rendered.\<close> A Go struct is a record, an enumeration or tagged union a datatype, a string the
  list of its bytes, a map that is only looked up a HOL map and a map that is walked an association list in an
  arbitrary order. State is passed and returned; an error is the left of a sum, \<open>None\<close> or \<open>False\<close>; a run-time panic
  is a value where the code can reach one (the line editor). What the code calls outside the repository is an
  argument: the Kubernetes API's answers (\<open>kube\<close>, \<open>snapshot\<close>), the YAML library (\<open>yaml_lib\<close>), the file system's
  failures (\<open>io\<close>), the client-go indexer (\<open>indexer\<close>), the clock, SHA-256 and bcrypt, AES-GCM, the
  forge's HTTP client and the OAuth server. The standard library is
  modelled: \<open>strings\<close>, \<open>sort\<close>, \<open>strconv\<close> and maps in \<open>Go_Prelude\<close> and \<open>Go_Text\<close>, \<open>net/netip\<close> in \<open>Go_Netip\<close>, \<open>net/url\<close>
  in \<open>Go_Url\<close>.

  \<^bold>\<open>Interfaces.\<close> \<open>less_func\<close> (\<open>Go_Prelude\<close>) is the contract of a less function and gives that a sort has one result
  whatever the order it starts from; it is interpreted for every sort of the model. \<open>keyed_store\<close> (\<open>Draft_Props\<close>) is
  the contract of a store with one value per key, interpreted on the draft store. \<open>doc_region\<close> (\<open>Manifest_Local\<close>) is the
  region of a file an edit may write to, interpreted on whole files and instantiated at one document of a file in
  the locality theorem. The network, bus, cache and access theories state theirs the same way. Where requests interleave (the hub, the set of
  repositories, the drift snapshot, the bus, the proposals' lane) the steps are an inductive relation and the properties are invariants of
  what it reaches.

  \<^bold>\<open>The parts.\<close>

  \<^enum> Network state (\<open>internal/netgen/doc.go\<close>, \<open>internal/netstate\<close>): \<open>Netgen_Doc\<close> has the documents, \<open>Netstate_Rule\<close>,
    \<open>Netstate_Policy\<close> and \<open>Netstate_Match\<close> the rules, their decoding and their three-valued matching,
    \<open>Netstate_Topology\<close> the segments, \<open>Netstate_Trace\<close> and \<open>Netstate_Effective\<close> the flow trace and the effective policy,
    \<open>Netstate_Catalog\<close> the catalog. \<open>Netstate_Flow\<close>, \<open>Netstate_Scan\<close>, \<open>Netstate_Sound\<close>, \<open>Netstate_Steps\<close> and
    \<open>Netstate_Props\<close> show that a definite verdict is the verdict of every way the unresolved selectors may turn out,
    that the order of the stores does not matter, and that the effective view hides nothing the trace uses.
  \<^enum> Change signalling (\<open>internal/eventbus\<close>, \<open>internal/stream\<close>, \<open>internal/reflect\<close>, \<open>internal/clusterstate\<close>,
    \<open>internal/tasks\<close>): \<open>Eventbus_Bus\<close> and \<open>Eventbus_History\<close> have the bus and every interleaving of its calls,
    \<open>Stream_Levels\<close>, \<open>Stream_Hub\<close> and \<open>Stream_Props\<close> the inventory hub, \<open>Watch_Stores\<close> the reflector stores and what
    they publish, \<open>Tasks_Feed\<close> the activity feed. The lemmas show that no change is missed, that a settled hub has
    the current frame on every connection, that its loop goes round again only while the levels move, and that identities never see each other's.
  \<^enum> Tenancy and authorization (\<open>internal/project\<close>, \<open>internal/cluster\<close>, \<open>internal/api\<close>, \<open>internal/auth\<close>,
    \<open>internal/ttlcache\<close>, \<open>internal/model/kinds.go\<close>): \<open>Project_Resolve\<close>, \<open>Cluster_Access\<close>, \<open>Api_Scope\<close>,
    \<open>Api_Authorize\<close>, \<open>Ttlcache\<close>, \<open>Auth_Validate\<close>, \<open>Auth_Session\<close>, \<open>Model_Kinds\<close>. \<open>Api_Vouched\<close> and \<open>Api_Gates\<close> show that every
    cached answer was given by the API server within the caching window, \<open>Api_Props\<close> that a scope only ever holds
    what the caller may read or author, \<open>Watch_Props\<close> that a role-binding or namespace move revokes cached answers,
    \<open>Auth_Session\<close> that a session cookie or a passage rests on a validated token.
  \<^enum> Pending changes (\<open>internal/draft\<close>): \<open>Draft_Store\<close> has memory and disk with every failing call; \<open>Draft_Props\<close>
    shows that the store refines a map from user and project to keyed entries across restarts while no system call fails, and
    that whichever call fails a file is replaced whole or not at all.
  \<^enum> Manifests (\<open>internal/manifest\<close>, \<open>internal/vmgen\<close>, \<open>internal/validate\<close>, \<open>internal/model\<close>): \<open>Manifest_Lines\<close> the line
    editor, \<open>Manifest_Edit\<close> the edits on it, \<open>Manifest_Parse\<close> what a manifest reads as, \<open>Manifest_Semantic\<close> previews,
    drift and adoption, \<open>Vmgen\<close> the wizard's manifest, \<open>Model_VM\<close> the types. \<open>Manifest_Local\<close> and \<open>Manifest_Props\<close>
    show that an edit stays inside the VM's own document, never leaves two sizings and names migrated volumes
    freshly; \<open>Manifest_Semantic\<close> that adoption leaves no drift of the kinds an edit can express
    (\<open>edited\<close> is what an edit asks for, read on the parsed VM).
  \<^enum> Network forms (\<open>internal/netgen\<close>): \<open>Netgen_Render\<close> the manifests of the forms, \<open>Netgen_Decode\<close> reading them back,
    \<open>Netgen_Namespace\<close> a namespace's adoption and release; \<open>Netgen_Props\<close> shows that a form reads back as it was and
    where its file goes. \<open>Yaml_Tree\<close> has documents as data.
  \<^enum> Git and the forge (\<open>internal/git\<close>, \<open>pkg/forge\<close>): \<open>Git_Tree\<close> the files of a branch and the index of what they declare,
    \<open>Git_Diff\<close> and \<open>Git_Write\<close> commits, differences and history, \<open>Git_Repset\<close> the set of clones and the memo of views,
    \<open>Forge_Url\<close> and \<open>Forge_Client\<close> repository URLs and pull requests. The lemmas show that a proposal rewrites one
    branch, that a revert restores, and that a repository is never opened twice at once.
  \<^enum> Proposing changes (\<open>internal/changeset\<close>, \<open>internal/vmtemplate\<close>, \<open>internal/drs\<close>): \<open>Changeset_Read\<close> the reads of a project,
    \<open>Changeset_Draft\<close> and \<open>Changeset_View\<close> the draft as items to review, \<open>Changeset_Stage\<close>, \<open>Changeset_Adopt\<close>,
    \<open>Changeset_Library\<close> and \<open>Changeset_Tenancy\<close> what stages entries, \<open>Changeset_Propose\<close> the push and the pull request,
    \<open>Changeset_History\<close> history and what the forge's lanes answer, \<open>Proposals_Lane\<close> the lane readers see and
    its refresher (\<open>internal/api/proposals.go\<close>), \<open>Changeset_Names\<close> branches, \<open>Vmtemplate\<close> the templates,
    \<open>Drs_Manifest\<close> rebalancing. \<open>Changeset_Review\<close>, \<open>Changeset_Props\<close>, \<open>Changeset_Limits\<close> and \<open>Changeset_Rebalance\<close> show what a
    review lists, that a change of a whole file touches no object of others, that a failed push keeps the draft, where
    the code falls short of its comments, and that the refresher loses no notice of a change; \<open>Changeset_Example\<close> is the project the witnesses use.
  \<^enum> What runs (\<open>internal/clusterstate\<close>, \<open>internal/argo\<close>, \<open>internal/inventory\<close>, \<open>internal/cluster/adopt.go\<close>): \<open>Clusterstate_Live\<close> the
    live state of a VM, \<open>Argo_Drift\<close> the drift of every object and the rollup of every repository, \<open>Inventory_Build\<close> the
    tree a caller sees, \<open>Cluster_Adopt\<close> the capture of live objects. The lemmas show that the tree lists exactly what
    is declared and what runs, that drift read from memory is never older than what was announced, that the rollup of a
    repository keeps the worst of the Applications whose primary source it is, that a capture lists each object once, and that a captured manifest is the desired state and lands on the form's file.

  \<^bold>\<open>Bounds and fuel.\<close> Loops over data are structural recursion. The search for a migrated volume's name counts over
  one more candidate than there are taken names; \<open>next_dv_name_free\<close> shows that one of them is free. The white-space
  trimming of \<open>Go_Text\<close> takes the length of the string as its bound, and every step drops at least one byte.

  \<^bold>\<open>Not modelled.\<close> HTTP handlers that only decode a request, call an operation modelled here and encode its answer, and
  their routing; the webhook handler; the WebSocket and VNC relays, git's own network
  operations, and the Kubernetes clients with the calls that only pass an object through (console, upload, clone, snapshot
  and storage of \<open>internal/cluster\<close>); metrics, which are queries to Prometheus in text and floating-point series; the
  configuration and the command entry points; the operator, which applies embedded manifests; the forge's hooks, tokens
  and organizations; the web front end. Go's \<open>int\<close> is an unbounded integer (no modelled count can reach its bound), save the
  virtual CPUs and the drift generation, kept at 64 bits; a non-ASCII character is kept by \<open>strconv.Quote\<close> as if it were
  printable. The manifest lists every part with what is missing.
\<close>

end
